(* ===== verification/Prelude.thy ===== *)
theory Prelude
  imports Main "HOL-Library.AList" "HOL-Library.Char_ord" "HOL-Library.List_Lexorder"
begin

text \<open>
  What every component shares: Go's fixed-width integers with their wrap-around, its truncating
  division, instants and durations, and Go maps. It also holds the collections of rewrite rules the
  component proofs are closed with.

  A Go \<open>int64\<close> is an \<open>int\<close> that every operation which can leave the range brings back with
  \<open>wrap64\<close>. An instant (\<open>time.Time\<close>, \<open>metav1.Time\<close>) is the number of nanoseconds since Go's
  zero time, so \<open>t.IsZero()\<close> is \<open>t = 0\<close>; a \<open>time.Duration\<close> is a number of nanoseconds, and
  \<open>t.Sub(u)\<close> saturates at the ends of the \<open>int64\<close> range as the standard library documents.
  A Go map is an association list with distinct keys: lookup is \<open>map_of\<close>, a store is
  \<open>AList.update\<close>, a delete is \<open>AList.delete\<close>. Its list order stands for the (unspecified)
  iteration order, and theorems quantify over every such list. Go's byte-wise string order is the
  lexicographic order of \<open>HOL-Library.List_Lexorder\<close> over \<open>char\<close>.
\<close>

named_theorems gomap_simps \<open>lookups, stores and deletes of Go maps\<close>
named_theorems int_simps \<open>the range of fixed-width integers\<close>

section \<open>Fixed-width integers\<close>

definition in_int64 :: "int \<Rightarrow> bool" where
  "in_int64 x \<longleftrightarrow> - (2 ^ 63) \<le> x \<and> x < 2 ^ 63"

definition wrap64 :: "int \<Rightarrow> int" where
  "wrap64 x = (x + 2 ^ 63) mod 2 ^ 64 - 2 ^ 63"

definition in_int32 :: "int \<Rightarrow> bool" where
  "in_int32 x \<longleftrightarrow> - (2 ^ 31) \<le> x \<and> x < 2 ^ 31"

definition wrap32 :: "int \<Rightarrow> int" where
  "wrap32 x = (x + 2 ^ 31) mod 2 ^ 32 - 2 ^ 31"

text \<open>Go's integer division truncates towards zero. Every divisor of the modelled code is a
  non-zero constant.\<close>

definition go_div :: "int \<Rightarrow> int \<Rightarrow> int" where
  "go_div a b = sgn a * sgn b * (\<bar>a\<bar> div \<bar>b\<bar>)"

lemma wrap64_in [simp]: "in_int64 (wrap64 x)"
  by (simp add: in_int64_def wrap64_def)

lemma wrap64_id [int_simps]: "in_int64 x \<Longrightarrow> wrap64 x = x"
  by (simp add: in_int64_def wrap64_def)

lemma wrap32_in [simp]: "in_int32 (wrap32 x)"
  by (simp add: in_int32_def wrap32_def)

lemma wrap32_id [int_simps]: "in_int32 x \<Longrightarrow> wrap32 x = x"
  by (simp add: in_int32_def wrap32_def)

lemma in_int64_nonneg: "0 \<le> x \<Longrightarrow> x < 2 ^ 63 \<Longrightarrow> in_int64 x"
  by (simp add: in_int64_def)

lemma in_int64_max [intro]: "in_int64 x \<Longrightarrow> in_int64 y \<Longrightarrow> in_int64 (max x y)"
  by (simp add: max_def)

lemma go_div_nonneg: "0 \<le> a \<Longrightarrow> 0 < b \<Longrightarrow> go_div a b = a div b"
  by (cases "a = 0") (simp_all add: go_div_def)

lemma go_div_nonpos: "a \<le> 0 \<Longrightarrow> 0 < b \<Longrightarrow> go_div a b \<le> 0"
  by (cases "a = 0") (simp_all add: go_div_def pos_imp_zdiv_nonneg_iff)

section \<open>Instants and durations\<close>

type_synonym time = int
type_synonym duration = int

definition sat64 :: "int \<Rightarrow> int" where
  "sat64 x = max (- (2 ^ 63)) (min (2 ^ 63 - 1) x)"

text \<open>\<open>t.Sub(u)\<close>.\<close>

definition time_sub :: "time \<Rightarrow> time \<Rightarrow> duration" where
  "time_sub t u = sat64 (t - u)"

abbreviation (input) second :: duration where "second \<equiv> 1000000000"
abbreviation (input) minute :: duration where "minute \<equiv> 60000000000"
abbreviation (input) hour :: duration where "hour \<equiv> 3600000000000"

text \<open>\<open>metav1.Time.Rfc3339Copy\<close> drops what is below a second.\<close>

definition rfc3339 :: "time \<Rightarrow> time" where
  "rfc3339 t = t - t mod second"

lemma time_sub_le_iff: "in_int64 d \<Longrightarrow> d < 2 ^ 63 - 1 \<Longrightarrow> time_sub t u \<le> d \<longleftrightarrow> t - u \<le> d"
  by (auto simp: time_sub_def sat64_def in_int64_def)

lemma time_sub_less_iff: "in_int64 d \<Longrightarrow> - (2 ^ 63) < d \<Longrightarrow> time_sub t u < d \<longleftrightarrow> t - u < d"
  by (auto simp: time_sub_def sat64_def in_int64_def)

lemma time_sub_ge_iff: "in_int64 d \<Longrightarrow> - (2 ^ 63) < d \<Longrightarrow> d \<le> time_sub t u \<longleftrightarrow> d \<le> t - u"
  by (auto simp: time_sub_def sat64_def in_int64_def)

lemma time_sub_gt_iff: "in_int64 d \<Longrightarrow> d < 2 ^ 63 - 1 \<Longrightarrow> d < time_sub t u \<longleftrightarrow> d < t - u"
  by (auto simp: time_sub_def sat64_def in_int64_def)

lemma rfc3339_le: "rfc3339 t \<le> t"
  by (simp add: rfc3339_def)

lemma rfc3339_gt: "t - second < rfc3339 t"
  using pos_mod_bound [of second t] by (simp add: rfc3339_def)

lemma rfc3339_idem [simp]: "rfc3339 (rfc3339 t) = rfc3339 t"
  by (simp add: rfc3339_def minus_mod_eq_mult_div)

lemma rfc3339_mono: "t \<le> u \<Longrightarrow> rfc3339 t \<le> rfc3339 u"
proof -
  assume "t \<le> u"
  then have "t div second \<le> u div second" by (rule zdiv_mono1) simp
  then show ?thesis by (simp add: rfc3339_def minus_mod_eq_div_mult)
qed

section \<open>Go maps\<close>

type_synonym ('k, 'v) gomap = "('k \<times> 'v) list"

abbreviation gkeys :: "('k, 'v) gomap \<Rightarrow> 'k list" where
  "gkeys m \<equiv> map fst m"

definition wf_map :: "('k, 'v) gomap \<Rightarrow> bool" where
  "wf_map m \<longleftrightarrow> distinct (gkeys m)"

text \<open>A comma-ok read: the value, or the zero value the type has.\<close>

definition lookup_or :: "'v \<Rightarrow> ('k, 'v) gomap \<Rightarrow> 'k \<Rightarrow> 'v" where
  "lookup_or z m k = (case map_of m k of None \<Rightarrow> z | Some v \<Rightarrow> v)"

text \<open>\<open>maps.Copy(dst, src)\<close>.\<close>

definition maps_copy :: "('k, 'v) gomap \<Rightarrow> ('k, 'v) gomap \<Rightarrow> ('k, 'v) gomap" where
  "maps_copy dst src = fold (\<lambda>(k, v) m. AList.update k v m) src dst"

text \<open>A map built by storing \<open>f x\<close> under \<open>g x\<close> for every \<open>x\<close> of a list in turn.\<close>

definition map_by :: "('a \<Rightarrow> 'k) \<Rightarrow> ('a \<Rightarrow> 'v) \<Rightarrow> 'a list \<Rightarrow> ('k, 'v) gomap" where
  "map_by g f xs = fold (\<lambda>x m. AList.update (g x) (f x) m) xs []"

lemma map_of_update [gomap_simps, simp]:
  "map_of (AList.update k v m) x = (if x = k then Some v else map_of m x)"
  by (simp add: update_conv')

lemma map_of_delete_go [gomap_simps, simp]:
  "map_of (AList.delete k m) x = (if x = k then None else map_of m x)"
  by (simp add: delete_conv')

lemma wf_map_Nil [simp]: "wf_map []"
  by (simp add: wf_map_def)

lemma wf_map_update [simp]: "wf_map m \<Longrightarrow> wf_map (AList.update k v m)"
  by (simp add: wf_map_def distinct_update)

lemma wf_map_delete [simp]: "wf_map m \<Longrightarrow> wf_map (AList.delete k m)"
  by (simp add: wf_map_def distinct_delete)

lemma wf_map_filter: "wf_map m \<Longrightarrow> wf_map (filter P m)"
  by (simp add: wf_map_def distinct_map_filter)

lemma wf_map_map_value: "wf_map m \<Longrightarrow> wf_map (map (\<lambda>(k, v). (k, f k v)) m)"
  by (simp add: wf_map_def comp_def case_prod_unfold)

lemma map_of_map_value [gomap_simps]:
  "map_of (map (\<lambda>(k, v). (k, f k v)) m) x = map_option (f x) (map_of m x)"
  by (induction m) auto

lemma wf_map_mem [gomap_simps]: "wf_map m \<Longrightarrow> map_of m k = Some v \<longleftrightarrow> (k, v) \<in> set m"
  by (simp add: wf_map_def)

lemma map_of_None_key: "map_of m k = None \<longleftrightarrow> k \<notin> set (gkeys m)"
  by (simp add: map_of_eq_None_iff)

lemma map_of_Some_key: "map_of m k = Some v \<Longrightarrow> k \<in> set (gkeys m)"
  by (force dest: map_of_SomeD)

lemma update_not_Nil [simp]: "AList.update k v m \<noteq> []"
  by (cases m) auto

lemma length_delete_key:
  "wf_map m \<Longrightarrow> k \<in> set (gkeys m) \<Longrightarrow> Suc (length (AList.delete k m)) = length m"
proof (induction m)
  case Nil
  then show ?case by simp
next
  case (Cons p m)
  then have "k \<notin> set (gkeys m) \<Longrightarrow> AList.delete k m = m"
    by (intro delete_id) auto
  with Cons show ?case by (auto simp: wf_map_def AList.delete_eq)
qed

lemma length_delete_le: "length (AList.delete k m) \<le> length m"
  by (simp add: AList.delete_eq)

lemma length_update_key:
  "length (AList.update k v m) = (if k \<in> set (gkeys m) then length m else Suc (length m))"
  by (induction m) auto

lemma keys_update: "set (gkeys (AList.update k v m)) = insert k (set (gkeys m))"
  by (induction m) auto

lemma keys_delete: "set (gkeys (AList.delete k m)) = set (gkeys m) - {k}"
  by (induction m) auto

lemma find_append:
  "find P (xs @ ys) = (case find P xs of None \<Rightarrow> find P ys | Some x \<Rightarrow> Some x)"
  by (induction xs) auto

lemma map_of_fold_update:
  "map_of (fold (\<lambda>x m. AList.update (g x) (f x) m) xs m) k =
     (case find (\<lambda>x. g x = k) (rev xs) of Some x \<Rightarrow> Some (f x) | None \<Rightarrow> map_of m k)"
proof (induction xs arbitrary: m)
  case Nil
  then show ?case by simp
next
  case (Cons x xs)
  from Cons.IH show ?case by (simp add: find_append split: option.splits)
qed

lemma wf_map_fold_update: "wf_map m \<Longrightarrow> wf_map (fold (\<lambda>x m. AList.update (g x) (f x) m) xs m)"
  by (induction xs arbitrary: m) auto

lemma wf_map_by [simp]: "wf_map (map_by g f xs)"
  by (simp add: map_by_def wf_map_fold_update)

lemma map_of_map_by:
  "map_of (map_by g f xs) k = map_option f (find (\<lambda>x. g x = k) (rev xs))"
  by (simp add: map_by_def map_of_fold_update split: option.splits)

lemma map_of_maps_copy [gomap_simps]:
  "wf_map src \<Longrightarrow> map_of (maps_copy dst src) k =
     (case map_of src k of Some v \<Rightarrow> Some v | None \<Rightarrow> map_of dst k)"
  unfolding maps_copy_def
proof (induction src arbitrary: dst)
  case (Cons p src)
  then show ?case
    by (cases p) (auto simp: wf_map_def map_of_eq_None_iff [THEN iffD2] split: option.splits)
qed simp

lemma wf_maps_copy [simp]: "wf_map dst \<Longrightarrow> wf_map (maps_copy dst src)"
  unfolding maps_copy_def by (induction src arbitrary: dst) (auto simp: case_prod_unfold)

section \<open>Lists\<close>

text \<open>The first element satisfying a test, with its position: \<open>slices.IndexFunc\<close>.\<close>

fun index_func :: "('a \<Rightarrow> bool) \<Rightarrow> 'a list \<Rightarrow> nat option" where
  "index_func P [] = None"
| "index_func P (x # xs) = (if P x then Some 0 else map_option Suc (index_func P xs))"

lemma find_Some_set: "find P xs = Some x \<Longrightarrow> x \<in> set xs \<and> P x"
  by (induction xs) (auto split: if_splits)

lemma find_None_all: "find P xs = None \<longleftrightarrow> (\<forall>x\<in>set xs. \<not> P x)"
  by (induction xs) auto

lemma fold_invariant_set:
  assumes "I s" and "\<And>x s. x \<in> set xs \<Longrightarrow> I s \<Longrightarrow> I (f x s)"
  shows "I (fold f xs s)"
  using assms by (induction xs arbitrary: s) auto

text \<open>A map built by storing the first value given for each key.\<close>

lemma fold_first_wins:
  assumes "\<And>x out. step x out = (case f x of None \<Rightarrow> out | Some (k, v) \<Rightarrow> if map_of out k \<noteq> None then out else AList.update k v out)"
  shows "map_of (fold step xs out) k =
    (case map_of out k of Some v \<Rightarrow> Some v | None \<Rightarrow> map_option (\<lambda>x. snd (the (f x))) (find (\<lambda>x. map_option fst (f x) = Some k) xs))"
proof (induction xs arbitrary: out)
  case (Cons x xs)
  show ?case
  proof (cases "f x")
    case None
    then show ?thesis using Cons.IH [of out] assms [of x out] by (simp split: option.split)
  next
    case (Some kv)
    then show ?thesis using Cons.IH [of "step x out"] assms [of x out] by (cases kv) (auto split: option.splits)
  qed
qed (simp split: option.split)

section \<open>Calls that may fail\<close>

text \<open>A step of a computation over a state \<open>'w\<close> that may fail: the error or the value, and the state
  either leaves behind. \<open>and_then\<close> runs the next step unless the first failed, as Go's
  \<open>if err != nil { return err }\<close> does.\<close>

definition and_then ::
  "('w \<Rightarrow> ('e + 'a) \<times> 'w) \<Rightarrow> ('a \<Rightarrow> 'w \<Rightarrow> ('e + 'b) \<times> 'w) \<Rightarrow> 'w \<Rightarrow> ('e + 'b) \<times> 'w" where
  "and_then m f w = (case m w of (Inl e, w') \<Rightarrow> (Inl e, w') | (Inr a, w') \<Rightarrow> f a w')"

definition yields :: "'a \<Rightarrow> 'w \<Rightarrow> ('e + 'a) \<times> 'w" where
  "yields a w = (Inr a, w)"

lemma and_then_Inr: "m w = (Inr a, w') \<Longrightarrow> and_then m f w = f a w'"
  by (simp add: and_then_def)

lemma and_then_Inl: "m w = (Inl e, w') \<Longrightarrow> and_then m f w = (Inl e, w')"
  by (simp add: and_then_def)

lemma and_then_yields [simp]: "and_then (yields a) f = f a"
  by (simp add: and_then_def yields_def fun_eq_iff)

text \<open>Updating an entry moves the count of a predicate by what the old and the new entry contribute.\<close>

lemma length_filter_update:
  assumes "i < length xs"
  shows "length (filter P (xs[i := x])) + (if P (xs ! i) then 1 else 0) = length (filter P xs) + (if P x then 1 else 0)"
  using assms
proof (induction xs arbitrary: i)
  case (Cons y ys)
  show ?case
  proof (cases i)
    case (Suc k)
    then show ?thesis using Cons.IH [of k] Cons.prems by simp
  qed simp
qed simp

end
