(* ===== verification/GoFloat.thy ===== *)
theory GoFloat
  imports Prelude Complex_Main "HOL-Library.Log_Nat"
begin

text \<open>
  Go's \<open>float64\<close>: IEEE 754 binary64 with round-to-nearest-even, on rationals, so that every
  operation is executable. \<open>flr\<close> rounds a rational to the nearest representable one (subnormals
  included), \<open>fround\<close> adds the overflow to infinity. Signed zeros are not told apart: nothing in
  the modelled code can observe the sign of a zero. No operation is fused.

  The lemmas give what proofs about the numbers need: rounding is monotone, exact on integers up to
  \<open>2 ^ 53\<close>, and off by at most a relative \<open>2 powi (-53)\<close> on normal values.
\<close>

datatype float64 = Fin rat | PInf | NInf | NaN

section \<open>Rounding to the nearest representable value\<close>

text \<open>The exponent of the leading bit of a positive rational.\<close>

definition ilog2 :: "rat \<Rightarrow> int" where
  "ilog2 x = (let (p, q) = quotient_of x; k = bitlen p - bitlen q
              in if x < 2 powi k then k - 1 else k)"

text \<open>To the nearest integer, ties to even.\<close>

definition rne :: "rat \<Rightarrow> int" where
  "rne x = (let f = \<lfloor>x\<rfloor>; d = x - of_int f
            in if d < 1 / 2 then f else if 1 / 2 < d then f + 1 else if even f then f else f + 1)"

text \<open>The exponent of the last bit of the significand, \<open>- 1074\<close> for a subnormal value.\<close>

definition ulp_exp :: "rat \<Rightarrow> int" where
  "ulp_exp x = max (ilog2 x - 52) (- 1074)"

definition fl_pos :: "rat \<Rightarrow> rat" where
  "fl_pos x = of_int (rne (x / 2 powi ulp_exp x)) * 2 powi ulp_exp x"

definition flr :: "rat \<Rightarrow> rat" where
  "flr x = (if x = 0 then 0 else if 0 < x then fl_pos x else - fl_pos (- x))"

definition fround :: "rat \<Rightarrow> float64" where
  "fround x = (let y = flr x
               in if 2 ^ 1024 \<le> y then PInf else if y \<le> - (2 ^ 1024) then NInf else Fin y)"

section \<open>Operations\<close>

fun fneg_sign :: "float64 \<Rightarrow> bool" where
  "fneg_sign (Fin x) = (x < 0)"
| "fneg_sign NInf = True"
| "fneg_sign _ = False"

definition finf :: "bool \<Rightarrow> float64" where
  "finf neg = (if neg then NInf else PInf)"

fun fmul :: "float64 \<Rightarrow> float64 \<Rightarrow> float64" where
  "fmul (Fin x) (Fin y) = fround (x * y)"
| "fmul NaN y = NaN"
| "fmul x NaN = NaN"
| "fmul (Fin x) y = (if x = 0 then NaN else finf (fneg_sign (Fin x) \<noteq> fneg_sign y))"
| "fmul x (Fin y) = (if y = 0 then NaN else finf (fneg_sign x \<noteq> fneg_sign (Fin y)))"
| "fmul x y = finf (fneg_sign x \<noteq> fneg_sign y)"

fun fdiv :: "float64 \<Rightarrow> float64 \<Rightarrow> float64" where
  "fdiv (Fin x) (Fin y) =
     (if y = 0 then (if x = 0 then NaN else finf (x < 0)) else fround (x / y))"
| "fdiv NaN y = NaN"
| "fdiv x NaN = NaN"
| "fdiv (Fin x) y = Fin 0"
| "fdiv x (Fin y) = finf (fneg_sign x \<noteq> (y < 0))"
| "fdiv x y = NaN"

fun fadd :: "float64 \<Rightarrow> float64 \<Rightarrow> float64" where
  "fadd (Fin x) (Fin y) = fround (x + y)"
| "fadd NaN y = NaN"
| "fadd x NaN = NaN"
| "fadd (Fin x) y = y"
| "fadd x (Fin y) = x"
| "fadd x y = (if x = y then x else NaN)"

text \<open>\<open>x < y\<close>; false as soon as one side is not a number.\<close>

fun flt :: "float64 \<Rightarrow> float64 \<Rightarrow> bool" where
  "flt (Fin x) (Fin y) = (x < y)"
| "flt NaN y = False"
| "flt x NaN = False"
| "flt (Fin x) y = (y = PInf)"
| "flt x (Fin y) = (x = NInf)"
| "flt x y = (x = NInf \<and> y = PInf)"

text \<open>The \<open>min\<close> and \<open>max\<close> built-ins: not a number as soon as one argument is.\<close>

definition fmax :: "float64 \<Rightarrow> float64 \<Rightarrow> float64" where
  "fmax x y = (if x = NaN \<or> y = NaN then NaN else if flt x y then y else x)"

definition fmin :: "float64 \<Rightarrow> float64 \<Rightarrow> float64" where
  "fmin x y = (if x = NaN \<or> y = NaN then NaN else if flt y x then y else x)"

text \<open>\<open>math.Ceil\<close> and \<open>math.Round\<close> (half away from zero).\<close>

fun fceil :: "float64 \<Rightarrow> float64" where
  "fceil (Fin x) = Fin (of_int \<lceil>x\<rceil>)"
| "fceil x = x"

fun fround_int :: "float64 \<Rightarrow> float64" where
  "fround_int (Fin x) =
     Fin (if x < 0 then - of_int \<lfloor>- x + 1 / 2\<rfloor> else of_int \<lfloor>x + 1 / 2\<rfloor>)"
| "fround_int x = x"

text \<open>Conversion of an integer, and truncation back. What Go does with a value the integer type
  cannot hold is implementation-dependent: it is the argument \<open>other\<close>, of which only the range is
  known.\<close>

definition of_i64 :: "int \<Rightarrow> float64" where
  "of_i64 n = fround (of_int n)"

definition rtrunc :: "rat \<Rightarrow> int" where
  "rtrunc x = (if x < 0 then \<lceil>x\<rceil> else \<lfloor>x\<rfloor>)"

fun to_i64 :: "(float64 \<Rightarrow> int) \<Rightarrow> float64 \<Rightarrow> int" where
  "to_i64 other (Fin x) = (if in_int64 (rtrunc x) then rtrunc x else wrap64 (other (Fin x)))"
| "to_i64 other x = wrap64 (other x)"

fun to_i32 :: "(float64 \<Rightarrow> int) \<Rightarrow> float64 \<Rightarrow> int" where
  "to_i32 other (Fin x) = (if in_int32 (rtrunc x) then rtrunc x else wrap32 (other (Fin x)))"
| "to_i32 other x = wrap32 (other x)"

section \<open>The rounding function\<close>

lemma bitlen_powi:
  assumes "0 < n"
  shows "2 powi (bitlen n - 1) \<le> (of_int n :: rat)" and "(of_int n :: rat) < 2 powi bitlen n"
proof -
  have b: "1 \<le> bitlen n" using assms bitlen_eq_zero_iff [of n] bitlen_nonneg [of n] by linarith
  have lo: "2 ^ nat (bitlen n - 1) \<le> n" and hi: "n < 2 ^ nat (bitlen n)"
    using bitlen_bounds [OF assms] by auto
  from lo have "(of_int (2 ^ nat (bitlen n - 1)) :: rat) \<le> of_int n" by (subst of_int_le_iff)
  then show "2 powi (bitlen n - 1) \<le> (of_int n :: rat)" using b by (simp add: power_int_nonneg_exp)
  from hi have "(of_int n :: rat) < of_int (2 ^ nat (bitlen n))" by (subst of_int_less_iff)
  then show "(of_int n :: rat) < 2 powi bitlen n" using b by (simp add: power_int_nonneg_exp)
qed

lemma ilog2_bounds:
  assumes "0 < x"
  shows "2 powi ilog2 x \<le> x" and "x < 2 powi (ilog2 x + 1)"
proof -
  obtain p q where pq: "quotient_of x = (p, q)" by (cases "quotient_of x")
  have q: "0 < q" using pq by (rule quotient_of_denom_pos)
  have x: "x = of_int p / of_int q" using pq by (rule quotient_of_div)
  have p: "0 < p" using assms x q by (simp add: zero_less_divide_iff)
  define bp bq where "bp = bitlen p" and "bq = bitlen q"
  have P: "2 powi (bp - 1) \<le> (of_int p :: rat)" "(of_int p :: rat) < 2 powi bp"
    using bitlen_powi [OF p] by (simp_all add: bp_def)
  have Qb: "2 powi (bq - 1) \<le> (of_int q :: rat)" "(of_int q :: rat) < 2 powi bq"
    using bitlen_powi [OF q] by (simp_all add: bq_def)
  have q': "(0::rat) < of_int q" using q by simp
  have lo: "2 powi (bp - bq - 1) \<le> x"
  proof -
    have "(2::rat) powi (bp - bq - 1) * of_int q \<le> 2 powi (bp - bq - 1) * 2 powi bq"
      using Qb(2) by simp
    also have "\<dots> = 2 powi (bp - 1)" by (simp flip: power_int_add)
    finally show ?thesis using P(1) q' unfolding x by (simp add: pos_le_divide_eq)
  qed
  have hi: "x < 2 powi (bp - bq + 1)"
  proof -
    have "(2::rat) powi bp = 2 powi (bp - bq + 1) * 2 powi (bq - 1)" by (simp flip: power_int_add)
    also have "\<dots> \<le> 2 powi (bp - bq + 1) * of_int q" using Qb(1) by simp
    finally show ?thesis using P(2) q' unfolding x by (simp add: pos_divide_less_eq)
  qed
  have "ilog2 x = (if x < 2 powi (bp - bq) then bp - bq - 1 else bp - bq)"
    by (simp add: ilog2_def pq bp_def bq_def Let_def)
  with lo hi show "2 powi ilog2 x \<le> x" and "x < 2 powi (ilog2 x + 1)"
    by (auto split: if_splits)
qed

lemma ilog2_mono:
  assumes "0 < x" "x \<le> y"
  shows "ilog2 x \<le> ilog2 y"
proof (rule ccontr)
  assume "\<not> ilog2 x \<le> ilog2 y"
  then have "(2::rat) powi (ilog2 y + 1) \<le> 2 powi ilog2 x" by (intro power_int_increasing) auto
  with ilog2_bounds(1) [of x] ilog2_bounds(2) [of y] assms show False by linarith
qed

lemma rne_err: "\<bar>of_int (rne x) - x\<bar> \<le> 1 / 2"
  using floor_correct [of x] by (auto simp: rne_def Let_def abs_le_iff)

lemma rne_of_int [simp]: "rne (of_int n) = n"
  by (simp add: rne_def)

lemma rne_mono:
  assumes "x \<le> y"
  shows "rne x \<le> rne y"
proof (cases "\<lfloor>x\<rfloor> = \<lfloor>y\<rfloor>")
  case True
  with assms show ?thesis by (auto simp: rne_def Let_def)
next
  case False
  with assms have "\<lfloor>x\<rfloor> + 1 \<le> \<lfloor>y\<rfloor>" using floor_mono [OF assms] by simp
  then show ?thesis by (auto simp: rne_def Let_def)
qed

lemma rne_le_int: "x \<le> of_int n \<Longrightarrow> rne x \<le> n"
  using rne_mono [of x "of_int n"] by simp

lemma rne_ge_int: "of_int n \<le> x \<Longrightarrow> n \<le> rne x"
  using rne_mono [of "of_int n" x] by simp

lemma ulp_exp_mono: "0 < x \<Longrightarrow> x \<le> y \<Longrightarrow> ulp_exp x \<le> ulp_exp y"
  using ilog2_mono [of x y] by (simp add: ulp_exp_def)

lemma fl_pos_le_powi:
  assumes "0 < x" "x \<le> 2 powi k" "ulp_exp x \<le> k"
  shows "fl_pos x \<le> 2 powi k"
proof -
  let ?e = "ulp_exp x"
  have k: "(2::rat) powi k = of_int (2 ^ nat (k - ?e)) * 2 powi ?e"
    using assms(3) by (simp add: power_int_nonneg_exp [symmetric] flip: power_int_add)
  have "x / 2 powi ?e \<le> of_int (2 ^ nat (k - ?e))"
    using assms(2) by (simp add: k pos_divide_le_eq)
  then have "of_int (rne (x / 2 powi ?e)) \<le> (of_int (2 ^ nat (k - ?e)) :: rat)"
    by (intro of_int_le_iff [THEN iffD2] rne_le_int)
  then show ?thesis unfolding k fl_pos_def by (intro mult_right_mono) simp_all
qed

lemma fl_pos_ge_powi:
  assumes "0 < x" "2 powi k \<le> x" "ulp_exp x \<le> k"
  shows "2 powi k \<le> fl_pos x"
proof -
  let ?e = "ulp_exp x"
  have k: "(2::rat) powi k = of_int (2 ^ nat (k - ?e)) * 2 powi ?e"
    using assms(3) by (simp add: power_int_nonneg_exp [symmetric] flip: power_int_add)
  have "of_int (2 ^ nat (k - ?e)) \<le> x / 2 powi ?e"
    using assms(2) by (simp add: k pos_le_divide_eq)
  then have "(of_int (2 ^ nat (k - ?e)) :: rat) \<le> of_int (rne (x / 2 powi ?e))"
    by (intro of_int_le_iff [THEN iffD2] rne_ge_int)
  then show ?thesis unfolding k fl_pos_def by (intro mult_right_mono) simp_all
qed

lemma fl_pos_mono:
  assumes "0 < x" "x \<le> y"
  shows "fl_pos x \<le> fl_pos y"
proof (cases "ulp_exp x = ulp_exp y")
  case True
  have "rne (x / 2 powi ulp_exp y) \<le> rne (y / 2 powi ulp_exp y)"
    using assms by (intro rne_mono divide_right_mono) simp_all
  with True show ?thesis by (simp add: fl_pos_def)
next
  case False
  then have less: "ulp_exp x < ulp_exp y" using ulp_exp_mono [OF assms] by simp
  then have y: "ulp_exp y = ilog2 y - 52" and "ilog2 x < ilog2 y" by (auto simp: ulp_exp_def)
  then have "(2::rat) powi (ilog2 x + 1) \<le> 2 powi ilog2 y" by (intro power_int_increasing) auto
  then have "x \<le> 2 powi ilog2 y" using ilog2_bounds(2) [OF assms(1)] by linarith
  then have "fl_pos x \<le> 2 powi ilog2 y" using less y assms(1) by (intro fl_pos_le_powi) auto
  also have "2 powi ilog2 y \<le> fl_pos y"
    using y assms ilog2_bounds(1) [of y] by (intro fl_pos_ge_powi) auto
  finally show ?thesis .
qed

lemma fl_pos_nonneg: "0 < x \<Longrightarrow> 0 \<le> fl_pos x"
  using rne_ge_int [of 0 "x / 2 powi ulp_exp x"] by (simp add: fl_pos_def)

lemma flr_zero [simp]: "flr 0 = 0"
  by (simp add: flr_def)

lemma flr_minus: "flr (- x) = - flr x"
  by (simp add: flr_def)

lemma flr_nonneg: "0 \<le> x \<Longrightarrow> 0 \<le> flr x"
  by (simp add: flr_def fl_pos_nonneg)

theorem flr_mono:
  assumes "x \<le> y"
  shows "flr x \<le> flr y"
proof -
  consider "0 < x" | "x \<le> 0" "0 \<le> y" | "y < 0" using assms by linarith
  then show ?thesis
  proof cases
    case 1
    with assms fl_pos_mono [of x y] show ?thesis by (simp add: flr_def)
  next
    case 2
    with flr_nonneg [of y] flr_nonneg [of "- x"] show ?thesis by (simp add: flr_minus)
  next
    case 3
    with assms fl_pos_mono [of "- y" "- x"] show ?thesis by (simp add: flr_def)
  qed
qed

text \<open>A significand of 53 bits and an exponent in range: the rounding changes nothing.\<close>

lemma fl_pos_exact:
  assumes "0 < m" "m < 2 ^ 53" "- 1074 \<le> k"
  shows "fl_pos (of_int m * 2 powi k) = of_int m * 2 powi k"
proof -
  define x where "x = (of_int m * 2 powi k :: rat)"
  have x: "0 < x" using assms(1) by (simp add: x_def)
  have "(of_int m :: rat) < of_int (2 ^ 53)" using assms(2) by (subst of_int_less_iff)
  then have "x < 2 ^ 53 * 2 powi k" by (simp add: x_def)
  also have "\<dots> = 2 powi (53 + k)" by (simp add: power_int_add)
  finally have "ilog2 x < 53 + k"
    using ilog2_bounds(1) [OF x] power_int_increasing [of "53 + k" "ilog2 x" "2::rat"] by linarith
  then have e: "ulp_exp x \<le> k" using assms(3) by (simp add: ulp_exp_def)
  then have "(2::rat) powi k = of_int (2 ^ nat (k - ulp_exp x)) * 2 powi ulp_exp x"
    by (simp add: power_int_nonneg_exp [symmetric] flip: power_int_add)
  then have "x = of_int (m * 2 ^ nat (k - ulp_exp x)) * 2 powi ulp_exp x"
    by (subst x_def) (simp only: of_int_mult mult.assoc)
  then have q: "x / 2 powi ulp_exp x = of_int (m * 2 ^ nat (k - ulp_exp x))"
    by (subst nonzero_divide_eq_eq) simp_all
  have "fl_pos x = (x / 2 powi ulp_exp x) * 2 powi ulp_exp x"
    unfolding fl_pos_def q rne_of_int ..
  then show ?thesis by (simp add: x_def)
qed

lemma flr_exact:
  assumes "\<bar>m\<bar> < 2 ^ 53" "- 1074 \<le> k"
  shows "flr (of_int m * 2 powi k) = of_int m * 2 powi k"
  using assms fl_pos_exact [of m k] fl_pos_exact [of "- m" k]
    zero_less_power_int [of "2::rat" k]
  by (cases m "0::int" rule: linorder_cases)
     (auto simp: flr_def zero_less_mult_iff simp del: zero_less_power_int)

lemma flr_of_int: "\<bar>m\<bar> < 2 ^ 53 \<Longrightarrow> flr (of_int m) = of_int m"
  using flr_exact [of m 0] by simp

lemma powi_less_cancel: "(2::rat) powi a < 2 powi b \<Longrightarrow> a < b"
  using power_int_increasing [of b a "2::rat"] by linarith

lemma flr_rel_err:
  assumes "2 powi (- 1022) \<le> x"
  shows "\<bar>flr x - x\<bar> \<le> x * 2 powi (- 53)"
proof -
  have x: "0 < x" using assms by (rule less_le_trans [rotated]) simp
  have "(2::rat) powi (- 1022) < 2 powi (ilog2 x + 1)" using assms ilog2_bounds(2) [OF x] by linarith
  then have "- 1022 < ilog2 x + 1" by (rule powi_less_cancel)
  then have e: "ulp_exp x = ilog2 x - 52" by (simp add: ulp_exp_def)
  let ?u = "2 powi ulp_exp x :: rat"
  have "flr x - x = (of_int (rne (x / ?u)) - x / ?u) * ?u"
    using x by (simp add: flr_def fl_pos_def left_diff_distrib)
  then have "\<bar>flr x - x\<bar> = \<bar>of_int (rne (x / ?u)) - x / ?u\<bar> * ?u" by (simp add: abs_mult)
  also have "\<dots> \<le> 1 / 2 * ?u" by (intro mult_right_mono rne_err) simp
  also have "\<dots> = 2 powi ilog2 x * 2 powi (- 53)"
    by (simp add: e power_int_diff power_int_minus)
  also have "\<dots> \<le> x * 2 powi (- 53)" by (intro mult_right_mono ilog2_bounds(1) x) simp
  finally show ?thesis .
qed

section \<open>Operations in range\<close>

lemma flr_ge_exact: "flr y = y \<Longrightarrow> y \<le> x \<Longrightarrow> y \<le> flr x"
  using flr_mono [of y x] by simp

lemma flr_le_exact: "flr y = y \<Longrightarrow> x \<le> y \<Longrightarrow> flr x \<le> y"
  using flr_mono [of x y] by simp

lemmas flr_ge_int = flr_ge_exact [OF flr_of_int]
lemmas flr_le_int = flr_le_exact [OF flr_of_int]

lemma flr_pow2: "flr (2 ^ k) = 2 ^ k"
  using flr_exact [of 1 "int k"] by (simp add: power_int_nonneg_exp)

lemma flr_abs_le_pow2: "\<bar>x\<bar> \<le> 2 ^ k \<Longrightarrow> \<bar>flr x\<bar> \<le> 2 ^ k"
  using flr_le_exact [OF flr_pow2, of x k] flr_le_exact [OF flr_pow2, of "- x" k]
  by (simp add: flr_minus abs_le_iff)

lemma fround_Fin:
  assumes "\<bar>x\<bar> \<le> 2 ^ k" "k < 1024"
  shows "fround x = Fin (flr x)"
proof -
  have "(2::rat) ^ k < 2 ^ 1024" using assms(2) by (rule power_strict_increasing) simp
  moreover have "\<bar>flr x\<bar> \<le> 2 ^ k" using assms(1) by (rule flr_abs_le_pow2)
  ultimately have "flr x < 2 ^ 1024" "- (2 ^ 1024) < flr x" unfolding abs_le_iff by linarith+
  then show ?thesis unfolding fround_def Let_def by (simp only: not_le [symmetric] if_False)
qed

lemma of_i64_Fin: "in_int64 n \<Longrightarrow> of_i64 n = Fin (flr (of_int n))"
  unfolding of_i64_def
proof (rule fround_Fin [where k = 63])
  assume "in_int64 n"
  then have "\<bar>n\<bar> \<le> 2 ^ 63" by (auto simp: in_int64_def)
  then have "(of_int \<bar>n\<bar> :: rat) \<le> of_int (2 ^ 63)" by (subst of_int_le_iff)
  then show "\<bar>of_int n\<bar> \<le> (2::rat) ^ 63" by simp
qed simp

lemma of_i64_exact:
  assumes "\<bar>n\<bar> < 2 ^ 53"
  shows "of_i64 n = Fin (of_int n)"
proof -
  have "in_int64 n" using assms by (auto simp: in_int64_def)
  then show ?thesis using flr_of_int [OF assms] by (simp add: of_i64_Fin)
qed

lemma to_i64_in [simp]: "in_int64 (to_i64 other x)"
  by (cases x) auto

lemma to_i64_of_int: "in_int64 n \<Longrightarrow> to_i64 other (Fin (of_int n)) = n"
  by (auto simp: rtrunc_def)

lemma to_i64_fceil: "in_int64 \<lceil>x\<rceil> \<Longrightarrow> to_i64 other (fceil (Fin x)) = \<lceil>x\<rceil>"
  by (simp add: to_i64_of_int del: to_i64.simps)

lemma ceiling_in_int64: "0 \<le> x \<Longrightarrow> x \<le> 2 ^ 62 \<Longrightarrow> in_int64 \<lceil>x :: rat\<rceil>"
proof -
  assume x: "0 \<le> x" "x \<le> 2 ^ 62"
  then have "x \<le> of_int (2 ^ 62)" by simp
  then have "\<lceil>x\<rceil> \<le> 2 ^ 62" by (rule ceiling_le)
  moreover have "0 \<le> \<lceil>x\<rceil>" using x(1) ceiling_mono [of 0 x] by simp
  ultimately show ?thesis by (simp add: in_int64_def)
qed

section \<open>The order\<close>

lemma flt_trans: "flt x y \<Longrightarrow> flt y z \<Longrightarrow> flt x z"
  by (cases x; cases y; cases z) auto

lemma flt_asym: "flt x y \<Longrightarrow> \<not> flt y x"
  by (cases x; cases y) auto

lemma flt_irrefl [simp]: "\<not> flt x x"
  by (cases x) auto

lemma flt_le_trans: "y \<noteq> NaN \<Longrightarrow> z \<noteq> NaN \<Longrightarrow> flt x y \<Longrightarrow> \<not> flt z y \<Longrightarrow> flt x z"
  by (cases x; cases y; cases z) auto

lemma le_flt_trans: "x \<noteq> NaN \<Longrightarrow> y \<noteq> NaN \<Longrightarrow> \<not> flt y x \<Longrightarrow> flt y z \<Longrightarrow> flt x z"
  by (cases x; cases y; cases z) auto

end
