(* ===== verification/Quantity.thy ===== *)
theory Quantity
  imports GoFloat
begin

text \<open>
  \<open>resource.Quantity\<close> of k8s.io/apimachinery is not part of this repository: it is the type
  parameter \<open>'q\<close>, and the methods the code calls are the fields of one record \<open>'q env\<close>, the
  argument \<open>E\<close> of every definition that uses them. \<open>DeepCopy\<close> is the identity on values. The
  record also carries the two conversions Go leaves to the implementation, a \<open>float64\<close> out of the
  range of \<open>int64\<close> or \<open>int32\<close>.

  \<open>quantity_laws E amt\<close> states what the code relies on, each as the package documents it: \<open>amt\<close>
  is the amount a quantity stands for. \<open>fixed_env\<close> is an environment over exact amounts that
  satisfies the laws; the witnesses of the properties run on it.
\<close>

datatype qformat = DecimalSI | BinarySI | DecimalExponent | NoFormat

record 'q env =
  q_cmp :: "'q \<Rightarrow> 'q \<Rightarrow> int"
  q_value :: "'q \<Rightarrow> int"
  q_milli_value :: "'q \<Rightarrow> int"
  q_format :: "'q \<Rightarrow> qformat"
  q_is_zero :: "'q \<Rightarrow> bool"
  new_quantity :: "int \<Rightarrow> qformat \<Rightarrow> 'q"
  new_milli_quantity :: "int \<Rightarrow> qformat \<Rightarrow> 'q"
  new_nano_quantity :: "int \<Rightarrow> 'q"
  q_zero :: "qformat \<Rightarrow> 'q"
  q_must_parse :: "string \<Rightarrow> 'q"
  f2i64 :: "float64 \<Rightarrow> int"
  f2i32 :: "float64 \<Rightarrow> int"

definition quantity_laws :: "'q env \<Rightarrow> ('q \<Rightarrow> rat) \<Rightarrow> bool" where
  "quantity_laws E amt \<longleftrightarrow>
     (\<forall>a b. q_cmp E a b = (if amt a < amt b then - 1 else if amt a = amt b then 0 else 1)) \<and>
     (\<forall>a. q_is_zero E a \<longleftrightarrow> amt a = 0) \<and>
     (\<forall>v f. amt (new_quantity E v f) = of_int v \<and> q_format E (new_quantity E v f) = f) \<and>
     (\<forall>v f. amt (new_milli_quantity E v f) = of_int v / 1000 \<and>
            q_format E (new_milli_quantity E v f) = f) \<and>
     (\<forall>f. amt (q_zero E f) = 0) \<and>
     amt (q_must_parse E ''10m'') = 1 / 100 \<and> amt (q_must_parse E ''15Mi'') = 15 * 2 ^ 20 \<and>
     (\<forall>a. in_int64 (q_value E a) \<and> in_int64 (q_milli_value E a)) \<and>
     (\<forall>a. 0 \<le> amt a \<and> in_int64 \<lceil>amt a\<rceil> \<longrightarrow> q_value E a = \<lceil>amt a\<rceil>) \<and>
     (\<forall>a. 0 \<le> amt a \<and> in_int64 \<lceil>amt a * 1000\<rceil> \<longrightarrow> q_milli_value E a = \<lceil>amt a * 1000\<rceil>)"

text \<open>\<open>q_zero f\<close> is the zero value \<open>resource.Quantity{Format: f}\<close>. The comparisons the code writes as \<open>a.Cmp(b) < 0\<close> and \<open>a.Cmp(b) > 0\<close>.\<close>

abbreviation q_less :: "'q env \<Rightarrow> 'q \<Rightarrow> 'q \<Rightarrow> bool" where
  "q_less E a b \<equiv> q_cmp E a b < 0"

abbreviation q_greater :: "'q env \<Rightarrow> 'q \<Rightarrow> 'q \<Rightarrow> bool" where
  "q_greater E a b \<equiv> 0 < q_cmp E a b"

section \<open>Exact amounts\<close>

text \<open>An amount with its format. Values outside \<open>int64\<close> saturate.\<close>

type_synonym fixed = "rat \<times> qformat"

definition fixed_env :: "fixed env" where
  "fixed_env =
     \<lparr> q_cmp = (\<lambda>a b. if fst a < fst b then - 1 else if fst a = fst b then 0 else 1),
       q_value = (\<lambda>a. sat64 \<lceil>fst a\<rceil>),
       q_milli_value = (\<lambda>a. sat64 \<lceil>fst a * 1000\<rceil>),
       q_format = snd,
       q_is_zero = (\<lambda>a. fst a = 0),
       new_quantity = (\<lambda>v f. (of_int v, f)),
       new_milli_quantity = (\<lambda>v f. (of_int v / 1000, f)),
       new_nano_quantity = (\<lambda>v. (of_int v / 1000000000, DecimalSI)),
       q_zero = (\<lambda>f. (0, f)),
       q_must_parse = (\<lambda>s. if s = ''10m'' then (1 / 100, DecimalSI) else
                           if s = ''15Mi'' then (15 * 2 ^ 20, BinarySI) else (0, NoFormat)),
       f2i64 = (\<lambda>_. - (2 ^ 63)),
       f2i32 = (\<lambda>_. - (2 ^ 31)) \<rparr>"

section \<open>What the laws give\<close>

named_theorems q_simps \<open>comparisons, constructors and formats of quantities, under the laws\<close>

lemma q_less_iff [q_simps]: "quantity_laws E amt \<Longrightarrow> q_less E a b \<longleftrightarrow> amt a < amt b"
  by (simp add: quantity_laws_def)

lemma q_greater_iff [q_simps]: "quantity_laws E amt \<Longrightarrow> q_greater E a b \<longleftrightarrow> amt b < amt a"
  by (auto simp: quantity_laws_def)

lemma q_cmp_eq_iff [q_simps]: "quantity_laws E amt \<Longrightarrow> q_cmp E a b = 0 \<longleftrightarrow> amt a = amt b"
  by (auto simp: quantity_laws_def)

lemma q_is_zero_iff [q_simps]: "quantity_laws E amt \<Longrightarrow> q_is_zero E a \<longleftrightarrow> amt a = 0"
  by (simp add: quantity_laws_def)

lemma amt_new [q_simps]: "quantity_laws E amt \<Longrightarrow> amt (new_quantity E v f) = of_int v"
  by (simp add: quantity_laws_def)

lemma amt_new_milli [q_simps]:
  "quantity_laws E amt \<Longrightarrow> amt (new_milli_quantity E v f) = of_int v / 1000"
  by (simp add: quantity_laws_def)

lemma amt_zero [q_simps]: "quantity_laws E amt \<Longrightarrow> amt (q_zero E f) = 0"
  by (simp add: quantity_laws_def)

lemma format_new [q_simps]: "quantity_laws E amt \<Longrightarrow> q_format E (new_quantity E v f) = f"
  by (simp add: quantity_laws_def)

lemma format_new_milli [q_simps]:
  "quantity_laws E amt \<Longrightarrow> q_format E (new_milli_quantity E v f) = f"
  by (simp add: quantity_laws_def)

lemma q_value_in [intro]: "quantity_laws E amt \<Longrightarrow> in_int64 (q_value E a)"
  by (simp add: quantity_laws_def)

lemma q_milli_value_in [intro]: "quantity_laws E amt \<Longrightarrow> in_int64 (q_milli_value E a)"
  by (simp add: quantity_laws_def)

lemma q_value_eq:
  "quantity_laws E amt \<Longrightarrow> 0 \<le> amt a \<Longrightarrow> in_int64 \<lceil>amt a\<rceil> \<Longrightarrow> q_value E a = \<lceil>amt a\<rceil>"
  by (simp add: quantity_laws_def)

lemma q_milli_value_eq:
  "quantity_laws E amt \<Longrightarrow> 0 \<le> amt a \<Longrightarrow> in_int64 \<lceil>amt a * 1000\<rceil> \<Longrightarrow>
   q_milli_value E a = \<lceil>amt a * 1000\<rceil>"
  by (simp add: quantity_laws_def)

lemma sat64_in [simp]: "in_int64 (sat64 x)"
  by (auto simp: sat64_def in_int64_def)

lemma sat64_id [int_simps]: "in_int64 x \<Longrightarrow> sat64 x = x"
  by (auto simp: sat64_def in_int64_def)

lemma fixed_env_laws: "quantity_laws fixed_env fst"
  by (simp add: quantity_laws_def fixed_env_def int_simps)

end
