(* ===== verification/Api.thy ===== *)
theory Api
  imports Quantity
begin

text \<open>
  The custom resources and the Kubernetes data the components share.
  \<open>api/v1alpha1/policy_types.go\<close>: the Policy with its right-sizing settings, an optional pointer
  field being an \<open>option\<close>, an absent \<open>omitempty\<close> boolean \<open>False\<close>.
  \<open>api/v1alpha1/workloadrecommendation_types.go\<close>: the WorkloadRecommendation.
  Of the Kubernetes types (\<open>Container\<close>, \<open>Pod\<close>, their metadata) the fields the code reads.

  One datum is kept typed where the code renders it: a trace stage's facts hold the factor, the
  quantity or the instant itself, not the string it is formatted to.
\<close>

section \<open>Kubernetes data\<close>

type_synonym 'q resource_list = "(string, 'q) gomap"
type_synonym str_map = "(string, string) gomap"

record 'q resource_requirements =
  Requests :: "'q resource_list"
  Limits :: "'q resource_list"

text \<open>\<open>c_RestartPolicy\<close> is set only on init containers; \<open>Always\<close> makes one a sidecar.\<close>

record 'q container =
  c_Name :: string
  c_Resources :: "'q resource_requirements"
  c_RestartPolicy :: "string option"

record owner_reference =
  ref_Kind :: string
  ref_Name :: string
  ref_UID :: string
  ref_Controller :: "bool option"

record pod_condition =
  pc_Type :: string
  pc_Status :: string
  pc_Reason :: string

record terminated =
  tm_Reason :: string
  tm_FinishedAt :: time

text \<open>\<open>cs_Waiting\<close> is the reason of \<open>State.Waiting\<close>, \<open>cs_Terminated\<close> is \<open>State.Terminated\<close>,
  \<open>cs_LastTerminated\<close> is \<open>LastTerminationState.Terminated\<close>; \<open>cs_Resources\<close> what the kubelet enacted.\<close>

record 'q container_status =
  cs_Name :: string
  cs_Waiting :: "string option"
  cs_Terminated :: "terminated option"
  cs_LastTerminated :: "terminated option"
  cs_RestartCount :: int
  cs_Resources :: "'q resource_requirements option"

text \<open>\<open>pod_Deleting\<close>: the deletion timestamp is set.\<close>

record 'q pod =
  pod_Name :: string
  pod_Namespace :: string
  pod_UID :: string
  pod_Labels :: str_map
  pod_Annotations :: str_map
  pod_OwnerReferences :: "owner_reference list"
  pod_Deleting :: bool
  pod_RestartPolicy :: string
  pod_Phase :: string
  pod_Conditions :: "pod_condition list"
  pod_Containers :: "'q container list"
  pod_InitContainers :: "'q container list"
  pod_ContainerStatuses :: "'q container_status list"
  pod_InitContainerStatuses :: "'q container_status list"
  pod_EphemeralContainerStatuses :: "'q container_status list"

abbreviation ResourceCPU :: string where "ResourceCPU \<equiv> ''cpu''"
abbreviation ResourceMemory :: string where "ResourceMemory \<equiv> ''memory''"

section \<open>Policy\<close>

datatype update_mode = UpdateModeOnCreate | UpdateModeOngoing

record 'q resource_requests_config =
  Headroom :: "int option"
  KeepRequest :: bool
  MaxAllowed :: "'q option"
  MinAllowed :: "'q option"
  Percentile :: "int option"

record resource_limits_config =
  EqualsToRequest :: bool
  KeepLimit :: bool
  KeepLimitRequestRatio :: bool
  NoLimit :: bool
  RequestsLimitsRatio :: "float64 option"

record 'q downsize_threshold =
  dt_Percent :: "int option"
  dt_MinDecrease :: "'q option"

record 'q resource_config =
  Window :: string
  rc_Requests :: "'q resource_requests_config"
  rc_Limits :: resource_limits_config
  DownsizeThreshold :: "'q downsize_threshold option"

record 'q resources_configs =
  rs_CPU :: "'q resource_config"
  rs_Memory :: "'q resource_config"

record autoscaler_coordination =
  ac_Enabled :: bool
  ReplicaBudgetAnchor :: "float64 option"

record update_types =
  ut_Deployment :: "update_mode option"
  ut_StatefulSet :: "update_mode option"
  ut_DaemonSet :: "update_mode option"
  ut_CronJob :: "update_mode option"
  ut_Job :: "update_mode option"
  ut_ArgoRollout :: "update_mode option"
  ut_Pod :: "update_mode option"

record update_spec =
  us_Types :: update_types
  IgnoreSafeToEvict :: bool

record 'q right_sizing_spec =
  rs_Update :: update_spec
  ResourcesConfigs :: "'q resources_configs"
  AutoscalerCoordination :: autoscaler_coordination
  ExcludeInitContainers :: bool
  RecommendOnly :: bool

text \<open>\<open>'sel\<close> is \<open>metav1.LabelSelector\<close>, which only the label-selector library reads.\<close>

record 'sel policy_selector =
  ps_Namespaces :: "string list"
  ps_LabelSelector :: "'sel option"

record ('q, 'sel) policy =
  p_Name :: string
  p_UID :: string
  p_ResourceVersion :: string
  p_Selector :: "'sel policy_selector"
  p_RightSizing :: "'q right_sizing_spec"

text \<open>\<open>ModeForKind\<close>.\<close>

definition ModeForKind :: "update_types \<Rightarrow> string \<Rightarrow> update_mode option" where
  "ModeForKind t kind =
     (if kind = ''Deployment'' then ut_Deployment t
      else if kind = ''StatefulSet'' then ut_StatefulSet t
      else if kind = ''DaemonSet'' then ut_DaemonSet t
      else if kind = ''CronJob'' then ut_CronJob t
      else if kind = ''Job'' then ut_Job t
      else if kind = ''Rollout'' then ut_ArgoRollout t
      else if kind = ''Pod'' then ut_Pod t
      else None)"

definition EffectiveRecommendOnly :: "('q, 'sel) policy \<Rightarrow> bool \<Rightarrow> bool" where
  "EffectiveRecommendOnly p global \<longleftrightarrow> global \<or> RecommendOnly (p_RightSizing p)"

abbreviation PolicyAnnotation :: string where "PolicyAnnotation \<equiv> ''k8s.sustain.io/policy''"
abbreviation OwnerNameAnnotation :: string where
  "OwnerNameAnnotation \<equiv> ''k8s.sustain.io/owner-name''"
abbreviation OptOutAnnotation :: string where "OptOutAnnotation \<equiv> ''k8s.sustain.io/opt-out''"
abbreviation WLRPolicyLabel :: string where "WLRPolicyLabel \<equiv> ''k8s.sustain.io/policy''"
abbreviation WLRStubLabel :: string where "WLRStubLabel \<equiv> ''k8s.sustain.io/stub''"

section \<open>WorkloadRecommendation\<close>

text \<open>\<open>RecommendationOutcome\<close> is a string type; a record no pass has written holds the empty one.\<close>

datatype recommendation_outcome =
    OutcomeUnset | OutcomeComputed | OutcomeNoData | OutcomeTooYoung | OutcomeFetchFailed
  | OutcomeConflicted

text \<open>The API's \<open>ContainerRecommendation\<close>, and \<open>workload.ContainerRecommendation\<close>, which has the
  same fields.\<close>

record 'q container_recommendation =
  CPURequest :: "'q option"
  MemoryRequest :: "'q option"
  CPULimit :: "'q option"
  MemoryLimit :: "'q option"
  RemoveCPULimit :: bool
  RemoveMemoryLimit :: bool

text \<open>A Recommendation: what is recommended for each container, by its name.\<close>

type_synonym 'q recs = "(string, 'q container_recommendation) gomap"

definition empty_recommendation :: "'q container_recommendation" where
  "empty_recommendation =
     \<lparr> CPURequest = None, MemoryRequest = None, CPULimit = None, MemoryLimit = None,
       RemoveCPULimit = False, RemoveMemoryLimit = False \<rparr>"

datatype 'q fact = FStr string | FFactor float64 | FQuantity 'q | FTime time

record 'q trace_stage =
  ts_Stage :: string
  ts_Value :: "'q option"
  ts_Removed :: bool
  ts_Facts :: "(string, 'q fact) gomap"

record 'q resource_trace =
  rt_Request :: "'q trace_stage list"
  rt_Limit :: "'q trace_stage list"

record 'q container_trace =
  ct_CPU :: "'q resource_trace option"
  ct_Memory :: "'q resource_trace option"

record 'q observed_container_resources =
  oc_Init :: bool
  oc_CPURequest :: "'q option"
  oc_MemoryRequest :: "'q option"
  oc_CPULimit :: "'q option"
  oc_MemoryLimit :: "'q option"

record 'q wlr_status =
  ObservedAt :: time
  Outcome :: recommendation_outcome
  ComputedBy :: string
  Departed :: bool
  ServableUntil :: time
  Containers :: "(string, 'q container_recommendation) gomap"
  Trace :: "(string, 'q container_trace) gomap"
  ObservedResources :: "(string, 'q observed_container_resources) gomap"

record workload_reference =
  wr_Kind :: string
  wr_Namespace :: string
  wr_Name :: string

record 'q workload_recommendation =
  w_Name :: string
  w_Namespace :: string
  w_Labels :: str_map
  w_UID :: string
  w_ResourceVersion :: string
  w_CreationTimestamp :: time
  w_WorkloadRef :: workload_reference
  w_Policy :: string
  w_Status :: "'q wlr_status"

section \<open>Identities and OOM kills\<close>

text \<open>\<open>internal/prometheus/identity.go\<close> and \<open>internal/oomwatch/types.go\<close>.\<close>

record workload_identity =
  id_Namespace :: string
  OwnerKind :: string
  OwnerName :: string

record oom_key =
  k_Identity :: workload_identity
  k_Container :: string

record oom_record =
  or_Container :: string
  or_PolicyName :: string
  or_ObservedAt :: time
  or_TerminatedAt :: time
  or_RestartCount :: int
  or_PodName :: string
  or_PodUID :: string
  or_OOMLimitBytes :: int

text \<open>\<open>internal/autoscaler/autoscaler.go\<close>: what targets a workload.\<close>

datatype autoscaler_kind = KindNone | KindHPA | KindKEDA

record autoscaler_info =
  ai_Kind :: autoscaler_kind
  ai_Namespace :: string
  ai_Name :: string
  MinReplicas :: int
  MaxReplicas :: int
  CurrentReplicas :: int
  ConfiguredTargets :: "(string, int) gomap"
  HasUnknownTrigger :: bool

lemma ModeForKind_known:
  "ModeForKind t kind \<noteq> None \<Longrightarrow>
   kind \<in> {''Deployment'', ''StatefulSet'', ''DaemonSet'', ''CronJob'', ''Job'', ''Rollout'', ''Pod''}"
  by (auto simp: ModeForKind_def split: if_splits)

end
