(* ===== verification/Signals.thy ===== *)
theory Signals
  imports Api
begin

text \<open>
  The observed inputs of a Recommendation and the stage each contributes
  (\<open>internal/recommender\<close>: \<open>recommender.go\<close>, \<open>inputs.go\<close>, \<open>signal.go\<close>, \<open>signal_usage.go\<close>,
  \<open>signal_oom.go\<close>). A \<open>resourceKind\<close> is the Go string; a \<open>signal\<close> is one of the three values of
  the interface, and its methods are functions that case on it. \<open>WorkloadInputs\<close> is the map from
  signal names to values, each of its signal's own type; \<open>valuesOf\<close> is the type assertion with the
  zero map when it fails. The PromQL a signal reads with is text for another program and is left out.
\<close>

section \<open>Resources\<close>

type_synonym resource_kind = string

abbreviation cpuResource :: resource_kind where "cpuResource \<equiv> ''cpu''"
abbreviation memoryResource :: resource_kind where "memoryResource \<equiv> ''memory''"
abbreviation (input) mebibyte :: int where "mebibyte \<equiv> 1048576"

definition resourceKinds :: "resource_kind list" where
  "resourceKinds = [cpuResource, memoryResource]"

definition MinCPURequest :: "'q env \<Rightarrow> 'q" where
  "MinCPURequest E = new_milli_quantity E 1 DecimalSI"

definition MinMemoryRequest :: "'q env \<Rightarrow> 'q" where
  "MinMemoryRequest E = new_quantity E mebibyte BinarySI"

definition PercentileQuantile :: "int option \<Rightarrow> float64" where
  "PercentileQuantile p =
     (case p of None \<Rightarrow> fdiv (of_i64 95) (of_i64 100) | Some n \<Rightarrow> fdiv (of_i64 n) (of_i64 100))"

definition ResourceWindow :: "string \<Rightarrow> string" where
  "ResourceWindow w = (if w = [] then ''168h'' else w)"

definition res_config :: "resource_kind \<Rightarrow> 'q resources_configs \<Rightarrow> 'q resource_config" where
  "res_config r cfg = (if r = cpuResource then rs_CPU cfg else rs_Memory cfg)"

definition res_value :: "'q env \<Rightarrow> resource_kind \<Rightarrow> 'q \<Rightarrow> float64" where
  "res_value E r q =
     (if r = cpuResource then fdiv (of_i64 (q_milli_value E q)) (of_i64 1000)
      else of_i64 (q_value E q))"

definition res_quantity :: "'q env \<Rightarrow> resource_kind \<Rightarrow> float64 \<Rightarrow> 'q" where
  "res_quantity E r v =
     (if r = cpuResource
      then new_nano_quantity E (to_i64 (f2i64 E) (fround_int (fmul v (of_i64 1000000000))))
      else new_quantity E (to_i64 (f2i64 E) v) BinarySI)"

text \<open>\<open>withHeadroom\<close>: the CPU value in floating millicores, the memory value in integer bytes.\<close>

definition milli_cores :: "float64 \<Rightarrow> int option \<Rightarrow> float64" where
  "milli_cores v headroom =
     (let mc = fmul v (of_i64 1000)
      in case headroom of
           Some h \<Rightarrow> if 0 < h then fmul mc (fadd (of_i64 1) (fdiv (of_i64 h) (of_i64 100))) else mc
         | None \<Rightarrow> mc)"

definition headroom_bytes :: "int \<Rightarrow> int option \<Rightarrow> int" where
  "headroom_bytes b headroom =
     (case headroom of
        Some h \<Rightarrow> if 0 < h then go_div (wrap64 (b * wrap32 (100 + h))) 100 else b
      | None \<Rightarrow> b)"

definition whole_mib :: "int \<Rightarrow> int" where
  "whole_mib b = max (go_div (wrap64 (b + mebibyte - 1)) mebibyte) 1"

definition withHeadroom :: "'q env \<Rightarrow> resource_kind \<Rightarrow> float64 \<Rightarrow> int option \<Rightarrow> 'q" where
  "withHeadroom E r v headroom =
     (if r = cpuResource
      then new_milli_quantity E (max (to_i64 (f2i64 E) (fceil (milli_cores v headroom))) 1) DecimalSI
      else new_quantity E
             (wrap64 (whole_mib (headroom_bytes (to_i64 (f2i64 E) v) headroom) * mebibyte)) BinarySI)"

text \<open>\<open>resourceKind.of\<close>: an absent value and a zero value both read as none.\<close>

definition res_of :: "'q env \<Rightarrow> resource_kind \<Rightarrow> 'q resource_list \<Rightarrow> 'q option" where
  "res_of E r rl =
     (case map_of rl r of None \<Rightarrow> None | Some q \<Rightarrow> if q_is_zero E q then None else Some q)"

definition clamp_min :: "'q env \<Rightarrow> 'q option \<Rightarrow> 'q \<Rightarrow> 'q" where
  "clamp_min E minQ q = (case minQ of Some m \<Rightarrow> if q_less E q m then m else q | None \<Rightarrow> q)"

definition clamp_max :: "'q env \<Rightarrow> 'q option \<Rightarrow> 'q \<Rightarrow> 'q" where
  "clamp_max E maxQ q = (case maxQ of Some m \<Rightarrow> if q_greater E q m then m else q | None \<Rightarrow> q)"

definition clamp :: "'q env \<Rightarrow> 'q \<Rightarrow> 'q option \<Rightarrow> 'q option \<Rightarrow> 'q" where
  "clamp E q minQ maxQ = clamp_max E maxQ (clamp_min E minQ q)"

section \<open>OOM kills of a container\<close>

record oom =
  Kills :: float64
  PeakBytes :: float64
  HasPeak :: bool
  LimitBytes :: float64
  LiveAt :: time
  KillsInStep :: float64

definition zero_oom :: oom where
  "zero_oom = \<lparr> Kills = Fin 0, PeakBytes = Fin 0, HasPeak = False, LimitBytes = Fin 0,
                LiveAt = 0, KillsInStep = Fin 0 \<rparr>"

definition oomBumpFactor :: float64 where
  "oomBumpFactor = fround (6 / 5)"

definition oom_recent :: "oom \<Rightarrow> bool" where
  "oom_recent o' \<longleftrightarrow> flt (Fin 0) (Kills o') \<or> LiveAt o' \<noteq> 0"

definition oom_floor :: "oom \<Rightarrow> float64 \<times> string" where
  "oom_floor o' =
     (let bumped = fmul (LimitBytes o') oomBumpFactor
      in if flt (Fin 0) (LimitBytes o') \<and> flt (PeakBytes o') bumped then (bumped, ''killedAtLimit'')
         else if HasPeak o' then (PeakBytes o', ''peak'')
         else (Fin 0, []))"

section \<open>Inputs\<close>

datatype signal_values = UsageValues "(string, float64) gomap" | OomValues "(string, oom) gomap"

type_synonym workload_inputs = "(string, signal_values) gomap"

fun observed :: "signal_values \<Rightarrow> string list" where
  "observed (UsageValues v) = gkeys v"
| "observed (OomValues v) = map fst (filter (\<lambda>(_, o'). oom_recent o') v)"

fun excusesAge :: "signal_values \<Rightarrow> bool" where
  "excusesAge (UsageValues v) = False"
| "excusesAge (OomValues v) = list_ex (\<lambda>(_, o'). oom_recent o') v"

section \<open>Signals\<close>

datatype role = Base | Adjuster | LimitAdjuster

record slot =
  sl_role :: role
  sl_resource :: resource_kind

datatype signal = Usage resource_kind | OomFloor

definition cpuUsage :: signal where "cpuUsage = Usage cpuResource"
definition memoryUsage :: signal where "memoryUsage = Usage memoryResource"

definition signals :: "signal list" where
  "signals = [cpuUsage, memoryUsage, OomFloor]"

fun sig_name :: "signal \<Rightarrow> string" where
  "sig_name (Usage r) = r"
| "sig_name OomFloor = ''oom''"

fun required :: "signal \<Rightarrow> bool" where
  "required (Usage r) = True"
| "required OomFloor = False"

fun sig_slot :: "signal \<Rightarrow> slot" where
  "sig_slot (Usage r) = \<lparr> sl_role = Base, sl_resource = r \<rparr>"
| "sig_slot OomFloor = \<lparr> sl_role = Adjuster, sl_resource = memoryResource \<rparr>"

definition inSlot :: "slot \<Rightarrow> signal list" where
  "inSlot sl = filter (\<lambda>s. sig_slot s = sl) signals"

definition usage_values_of :: "workload_inputs \<Rightarrow> signal \<Rightarrow> (string, float64) gomap" where
  "usage_values_of inp s = (case map_of inp (sig_name s) of Some (UsageValues v) \<Rightarrow> v | _ \<Rightarrow> [])"

definition oom_values_of :: "workload_inputs \<Rightarrow> signal \<Rightarrow> (string, oom) gomap" where
  "oom_values_of inp s = (case map_of inp (sig_name s) of Some (OomValues v) \<Rightarrow> v | _ \<Rightarrow> [])"

definition set_values :: "signal \<Rightarrow> signal_values \<Rightarrow> workload_inputs \<Rightarrow> workload_inputs" where
  "set_values s v inp = AList.update (sig_name s) v inp"

definition with_values :: "workload_inputs \<Rightarrow> signal \<Rightarrow> signal_values \<Rightarrow> workload_inputs" where
  "with_values inp s v = set_values s v (maps_copy [] inp)"

text \<open>A sample of a shard query, already attributed to its identity.\<close>

record shard_sample =
  ss_Container :: string
  ss_Metric :: string
  ss_Value :: float64

abbreviation MetricWorkloadOOM24h :: string where
  "MetricWorkloadOOM24h \<equiv> ''k8s_sustain:workload_oom_24h''"
abbreviation MetricContainerPeakMemory24hBytes :: string where
  "MetricContainerPeakMemory24hBytes \<equiv> ''k8s_sustain:container_peak_memory_24h:bytes''"
abbreviation MetricContainerOOMLimit24hBytes :: string where
  "MetricContainerOOMLimit24hBytes \<equiv> ''k8s_sustain:container_oom_limit_24h:bytes''"
abbreviation MetricContainerOOMKills :: string where
  "MetricContainerOOMKills \<equiv> ''k8s_sustain:container_oom_kills''"

definition collect_oom :: "shard_sample \<Rightarrow> (string, oom) gomap \<Rightarrow> (string, oom) gomap" where
  "collect_oom s ooms =
     (let o' = lookup_or zero_oom ooms (ss_Container s); v = ss_Value s;
          store = (\<lambda>x. AList.update (ss_Container s) x ooms)
      in if ss_Metric s = MetricWorkloadOOM24h then store (o'\<lparr>Kills := fadd (Kills o') v\<rparr>)
         else if ss_Metric s = MetricContainerOOMKills
           then store (o'\<lparr>KillsInStep := fadd (KillsInStep o') v\<rparr>)
         else if ss_Metric s = MetricContainerPeakMemory24hBytes
           then store (if \<not> HasPeak o' \<or> flt (PeakBytes o') v
                       then o'\<lparr>PeakBytes := v, HasPeak := True\<rparr> else o')
         else if ss_Metric s = MetricContainerOOMLimit24hBytes
           then store (o'\<lparr>LimitBytes := fmax (LimitBytes o') v\<rparr>)
         else ooms)"

fun collect :: "signal \<Rightarrow> shard_sample list \<Rightarrow> signal_values" where
  "collect (Usage r) samples = UsageValues (map_by ss_Container ss_Value samples)"
| "collect OomFloor samples = OomValues (fold collect_oom samples [])"

definition emptyInputs :: workload_inputs where
  "emptyInputs = fold (\<lambda>s. set_values s (collect s [])) signals []"

text \<open>\<open>observedContainers\<close> lists the names; each container it makes has no resources of its own.\<close>

definition observedContainers :: "workload_inputs \<Rightarrow> 'q container list" where
  "observedContainers inp =
     map (\<lambda>n. \<lparr> c_Name = n, c_Resources = \<lparr> Requests = [], Limits = [] \<rparr>, c_RestartPolicy = None \<rparr>)
       (sort (remdups (concat (map (observed \<circ> snd) inp))))"

definition Resolved :: "workload_inputs \<Rightarrow> bool" where
  "Resolved inp \<longleftrightarrow> usage_values_of inp cpuUsage \<noteq> [] \<or> usage_values_of inp memoryUsage \<noteq> []"

definition usageOf :: "resource_kind \<Rightarrow> signal option" where
  "usageOf res = (if res = cpuResource then Some cpuUsage
                  else if res = memoryResource then Some memoryUsage else None)"

definition inputs_usage :: "workload_inputs \<Rightarrow> string \<Rightarrow> resource_kind \<Rightarrow> float64 option" where
  "inputs_usage inp container res =
     (case usageOf res of None \<Rightarrow> None | Some u \<Rightarrow> map_of (usage_values_of inp u) container)"

section \<open>Stages\<close>

record 'q stage_context =
  sc_inputs :: workload_inputs
  sc_config :: "'q resource_config"
  sc_container :: "'q container"
  sc_now :: time
  sc_request :: "'q option"

record contribution =
  co_value :: float64
  co_anchors :: bool

fun contribute :: "signal \<Rightarrow> 'q stage_context \<Rightarrow> contribution option" where
  "contribute (Usage r) sc =
     map_option (\<lambda>v. \<lparr> co_value = v, co_anchors = True \<rparr>)
       (map_of (usage_values_of (sc_inputs sc) (Usage r)) (c_Name (sc_container sc)))"
| "contribute OomFloor sc =
     (let o' = lookup_or zero_oom (oom_values_of (sc_inputs sc) OomFloor) (c_Name (sc_container sc))
      in if \<not> oom_recent o' then None
         else let (fl, anchor) = oom_floor o'
              in Some \<lparr> co_value = fl, co_anchors = (anchor \<noteq> []) \<rparr>)"

definition format_bool :: "bool \<Rightarrow> string" where
  "format_bool b = (if b then ''true'' else ''false'')"

definition oom_facts :: "'q env \<Rightarrow> oom \<Rightarrow> bool \<Rightarrow> (string, 'q fact) gomap" where
  "oom_facts E o' determined =
     (let f0 = [(''determined'', FStr (format_bool determined))];
          anchor = snd (oom_floor o');
          f1 = (if anchor \<noteq> [] then AList.update ''anchor'' (FStr anchor) f0 else f0);
          f2 = (if flt (Fin 0) (LimitBytes o')
                then AList.update ''killedAtLimit''
                       (FQuantity (res_quantity E memoryResource (LimitBytes o'))) f1 else f1)
      in if LiveAt o' \<noteq> 0 then AList.update ''liveKillAt'' (FTime (rfc3339 (LiveAt o'))) f2 else f2)"

fun sig_stage :: "'q env \<Rightarrow> signal \<Rightarrow> 'q stage_context \<Rightarrow> float64 \<Rightarrow> bool \<Rightarrow> 'q trace_stage" where
  "sig_stage E (Usage r) sc v determined =
     \<lparr> ts_Stage = ''percentile'', ts_Value = Some (res_quantity E r v), ts_Removed = False,
       ts_Facts = [] \<rparr>"
| "sig_stage E OomFloor sc v determined =
     \<lparr> ts_Stage = ''oomFloor'', ts_Value = Some (res_quantity E memoryResource v),
       ts_Removed = False,
       ts_Facts = oom_facts E (lookup_or zero_oom (oom_values_of (sc_inputs sc) OomFloor)
                                (c_Name (sc_container sc))) determined \<rparr>"

section \<open>Kills the watcher saw\<close>

abbreviation (input) LiveOOMWindow :: duration where "LiveOOMWindow \<equiv> 1800000000000"

definition merge_live :: "time \<Rightarrow> string \<times> oom_record option \<Rightarrow> (string, oom) gomap \<Rightarrow> (string, oom) gomap"
where
  "merge_live now cr merged =
     (case snd cr of
        None \<Rightarrow> merged
      | Some rec \<Rightarrow>
          if LiveOOMWindow < time_sub now (or_ObservedAt rec) then merged
          else let killedAt = (if or_TerminatedAt rec = 0 then or_ObservedAt rec else or_TerminatedAt rec)
               in if now < killedAt then merged
                  else let o' = lookup_or zero_oom merged (fst cr)
                       in AList.update (fst cr)
                            (o'\<lparr>LiveAt := killedAt,
                               LimitBytes := fmax (LimitBytes o') (of_i64 (or_OOMLimitBytes rec))\<rparr>)
                            merged)"

definition withLiveOOMs ::
  "workload_inputs \<Rightarrow> (string, oom_record option) gomap \<Rightarrow> time \<Rightarrow> workload_inputs" where
  "withLiveOOMs inp live now =
     (if live = [] then inp
      else with_values inp OomFloor
             (OomValues (fold (merge_live now) live (oom_values_of inp OomFloor))))"

section \<open>Hard floors and rounding\<close>

text \<open>The range the CRD admits for a headroom percentage.\<close>

definition headroom_ok :: "int option \<Rightarrow> bool" where
  "headroom_ok headroom = (case headroom of None \<Rightarrow> True | Some h \<Rightarrow> 0 \<le> h \<and> h \<le> 100)"

lemma whole_mib_ge_1: "1 \<le> whole_mib b"
  by (simp add: whole_mib_def)

lemma whole_mib_less: "whole_mib b < 2 ^ 43"
proof -
  let ?x = "wrap64 (b + mebibyte - 1)"
  have "?x < 2 ^ 63" using wrap64_in by (simp only: in_int64_def)
  then have "0 \<le> ?x \<Longrightarrow> ?x div mebibyte < 2 ^ 43" by simp
  moreover have "?x \<le> 0 \<Longrightarrow> go_div ?x mebibyte \<le> 0" by (simp add: go_div_nonpos)
  ultimately have "go_div ?x mebibyte < 2 ^ 43" by (cases "0 \<le> ?x") (auto simp: go_div_nonneg)
  then show ?thesis by (simp add: whole_mib_def)
qed

lemma whole_mib_wrap: "wrap64 (whole_mib b * mebibyte) = whole_mib b * mebibyte"
  using whole_mib_ge_1 [of b] whole_mib_less [of b] by (intro wrap64_id) (simp add: in_int64_def)

lemma withHeadroom_cpu:
  "withHeadroom E cpuResource v h =
     new_milli_quantity E (max (to_i64 (f2i64 E) (fceil (milli_cores v h))) 1) DecimalSI"
  by (simp add: withHeadroom_def)

lemma withHeadroom_memory:
  "r \<noteq> cpuResource \<Longrightarrow> withHeadroom E r v h =
     new_quantity E (whole_mib (headroom_bytes (to_i64 (f2i64 E) v) h) * mebibyte) BinarySI"
  by (simp add: withHeadroom_def whole_mib_wrap)

lemma withHeadroom_pos: "quantity_laws E amt \<Longrightarrow> 0 < amt (withHeadroom E r v h)"
  using whole_mib_ge_1 [of "headroom_bytes (to_i64 (f2i64 E) v) h"]
  by (cases "r = cpuResource") (auto simp: withHeadroom_cpu withHeadroom_memory q_simps)

lemma headroom_factor:
  assumes "0 < h" "h \<le> 100"
  obtains g where "fadd (of_i64 1) (fdiv (of_i64 h) (of_i64 100)) = Fin g" "1 \<le> g" "g \<le> 2"
proof -
  have q: "0 \<le> (of_int h / 100 :: rat)" "(of_int h / 100 :: rat) \<le> 1" using assms by simp_all
  have h: "of_i64 h = Fin (of_int h)" "of_i64 100 = Fin 100" "of_i64 1 = Fin 1"
    using assms of_i64_exact [of h] of_i64_exact [of 100] of_i64_exact [of 1] by simp_all
  define d where "d = flr (of_int h / 100)"
  have d: "0 \<le> d" "d \<le> 1"
    using q flr_nonneg flr_le_int [of 1 "of_int h / 100"] by (simp_all add: d_def)
  have "fdiv (of_i64 h) (of_i64 100) = Fin d"
    unfolding h d_def using q by (simp add: fround_Fin [where k = 0])
  moreover have "fround (1 + d) = Fin (flr (1 + d))" using d by (intro fround_Fin [where k = 1]) simp_all
  moreover have "1 \<le> flr (1 + d)" "flr (1 + d) \<le> 2"
    using d flr_ge_int [of 1 "1 + d"] flr_le_int [of 2 "1 + d"] by simp_all
  ultimately show ?thesis using that h(3) by simp
qed

text \<open>Up to \<open>2 ^ 50\<close> cores the millicores are finite and follow the usage.\<close>

lemma milli_cores_mono:
  assumes "0 \<le> u" "u \<le> v" "v \<le> 2 ^ 50" "headroom_ok h"
  obtains x y where "milli_cores (Fin u) h = Fin x" "milli_cores (Fin v) h = Fin y"
    "0 \<le> x" "x \<le> y" "y \<le> 2 ^ 61"
proof -
  have k: "of_i64 1000 = Fin 1000" using of_i64_exact [of 1000] by simp
  define x y where "x = flr (u * 1000)" and "y = flr (v * 1000)"
  have x: "fmul (Fin u) (of_i64 1000) = Fin x" and y: "fmul (Fin v) (of_i64 1000) = Fin y"
    unfolding k x_def y_def using assms(1-3) by (simp_all add: fround_Fin [where k = 60] abs_le_iff)
  have b: "0 \<le> x" "x \<le> y" "y \<le> 2 ^ 60"
    using assms flr_nonneg [of "u * 1000"] flr_mono [of "u * 1000" "v * 1000"]
      flr_abs_le_pow2 [of "v * 1000" 60]
    by (simp_all add: x_def y_def abs_le_iff)
  show ?thesis
  proof (cases "\<exists>n. h = Some n \<and> 0 < n")
    case True
    then obtain n where n: "h = Some n" "0 < n" "n \<le> 100" using assms(4) by (auto simp: headroom_ok_def)
    then obtain g where g: "fadd (of_i64 1) (fdiv (of_i64 n) (of_i64 100)) = Fin g" "1 \<le> g" "g \<le> 2"
      using headroom_factor by blast
    have "0 \<le> x * g" "x * g \<le> y * g" using b g by (auto intro: mult_right_mono)
    moreover have "y * g \<le> 2 ^ 60 * 2" using b g by (intro mult_mono) auto
    ultimately have xy: "\<bar>x * g\<bar> \<le> 2 ^ 61" "\<bar>y * g\<bar> \<le> 2 ^ 61" "0 \<le> x * g" "x * g \<le> y * g"
      by (auto simp: abs_le_iff)
    then have "milli_cores (Fin u) h = Fin (flr (x * g))" "milli_cores (Fin v) h = Fin (flr (y * g))"
      using n by (simp_all add: milli_cores_def x y g Let_def fround_Fin [where k = 61])
    then show ?thesis
      using that flr_nonneg [OF xy(3)] flr_mono [OF xy(4)] flr_abs_le_pow2 [OF xy(2)]
      by (simp add: abs_le_iff)
  next
    case False
    then have "milli_cores (Fin u) h = Fin x" "milli_cores (Fin v) h = Fin y"
      by (auto simp: milli_cores_def x y Let_def split: option.splits)
    then show ?thesis using that [of x y] b by simp
  qed
qed

lemma headroom_bytes_mono:
  assumes "0 \<le> a" "a \<le> b" "b \<le> 2 ^ 50" "headroom_ok h"
  shows "a \<le> headroom_bytes a h" "headroom_bytes a h \<le> headroom_bytes b h"
    "headroom_bytes b h \<le> 2 ^ 51"
proof -
  have eq: "headroom_bytes x (Some n) = x * (100 + n) div 100"
    if "0 < n" "n \<le> 100" "0 \<le> x" "x \<le> 2 ^ 50" for x n
  proof -
    have "x * (100 + n) \<le> 2 ^ 50 * 200" using that by (intro mult_mono) auto
    then have "wrap64 (x * (100 + n)) = x * (100 + n)" "wrap32 (100 + n) = 100 + n"
      using that by (auto intro!: wrap64_id in_int64_nonneg wrap32_id simp: in_int32_def)
    then show ?thesis using that by (simp add: headroom_bytes_def go_div_nonneg)
  qed
  have "a \<le> headroom_bytes a h \<and> headroom_bytes a h \<le> headroom_bytes b h \<and> headroom_bytes b h \<le> 2 ^ 51"
  proof (cases "\<exists>n. h = Some n \<and> 0 < n")
    case True
    then obtain n where n: "h = Some n" "0 < n" "n \<le> 100" using assms(4) by (auto simp: headroom_ok_def)
    have "b * (100 + n) \<le> 2 ^ 50 * 200" using assms n by (intro mult_mono) auto
    moreover have "a * (100 + n) \<le> b * (100 + n)" "a * 100 \<le> a * (100 + n)"
      using assms n by (intro mult_right_mono mult_left_mono; simp)+
    ultimately have "a * (100 + n) div 100 \<le> b * (100 + n) div 100" "b * (100 + n) div 100 \<le> 2 ^ 51"
      "a \<le> a * (100 + n) div 100"
      by (auto intro: zdiv_mono1)
    then show ?thesis using n assms by (simp add: eq)
  next
    case False
    then have "headroom_bytes a h = a" "headroom_bytes b h = b"
      by (auto simp: headroom_bytes_def split: option.splits)
    then show ?thesis using assms by simp
  qed
  then show "a \<le> headroom_bytes a h" "headroom_bytes a h \<le> headroom_bytes b h"
    "headroom_bytes b h \<le> 2 ^ 51" by blast+
qed

lemma whole_mib_eq:
  assumes "0 \<le> b" "b \<le> 2 ^ 51"
  shows "whole_mib b = max ((b + mebibyte - 1) div mebibyte) 1"
  using assms by (simp add: whole_mib_def go_div_nonneg wrap64_id in_int64_def)

lemma whole_mib_mono: "0 \<le> a \<Longrightarrow> a \<le> b \<Longrightarrow> b \<le> 2 ^ 51 \<Longrightarrow> whole_mib a \<le> whole_mib b"
  using zdiv_mono1 [of "a + mebibyte - 1" "b + mebibyte - 1" mebibyte] by (simp add: whole_mib_eq max_def)

lemma whole_mib_covers: "0 \<le> b \<Longrightarrow> b \<le> 2 ^ 51 \<Longrightarrow> b \<le> whole_mib b * mebibyte"
  using div_mult_mod_eq [of "b + mebibyte - 1" mebibyte] pos_mod_bound [of mebibyte "b + mebibyte - 1"]
  unfolding whole_mib_eq max_def by auto

lemma floor_to_i64:
  assumes "0 \<le> u" "u \<le> 2 ^ 50"
  shows "to_i64 other (Fin u) = \<lfloor>u\<rfloor>" "0 \<le> \<lfloor>u\<rfloor>" "\<lfloor>u\<rfloor> \<le> 2 ^ 50"
proof -
  show b: "0 \<le> \<lfloor>u\<rfloor>" "\<lfloor>u\<rfloor> \<le> 2 ^ 50" using assms by (simp_all add: floor_le_iff)
  then show "to_i64 other (Fin u) = \<lfloor>u\<rfloor>" using assms by (simp add: rtrunc_def in_int64_def)
qed

text \<open>Whatever a signal contributes, not a number and overflowing values included, a value with
  headroom is never below the hard floor: a CPU request is a whole number of millicores, at least
  one, and a memory request a whole number of MiB, at least one.\<close>

theorem withHeadroom_hard_floor:
  assumes "quantity_laws E amt"
  shows "if r = cpuResource
         then (\<exists>m\<ge>1. amt (withHeadroom E r v h) = of_int m / 1000) \<and>
              amt (MinCPURequest E) \<le> amt (withHeadroom E r v h)
         else (\<exists>k\<ge>1. amt (withHeadroom E r v h) = of_int (k * mebibyte)) \<and>
              amt (MinMemoryRequest E) \<le> amt (withHeadroom E r v h)"
proof (cases "r = cpuResource")
  case True
  let ?m = "max (to_i64 (f2i64 E) (fceil (milli_cores v h))) 1"
  have "amt (withHeadroom E r v h) = of_int ?m / 1000" "1 \<le> ?m" "(1::rat) \<le> of_int ?m"
    using assms True by (auto simp: withHeadroom_cpu q_simps of_int_max)
  then show ?thesis using assms True by (auto simp: MinCPURequest_def q_simps intro!: exI [of _ ?m])
next
  case False
  let ?k = "whole_mib (headroom_bytes (to_i64 (f2i64 E) v) h)"
  have "amt (withHeadroom E r v h) = of_int (?k * mebibyte)" "1 \<le> ?k" "(1::rat) \<le> of_int ?k"
    using assms False whole_mib_ge_1 by (simp_all add: withHeadroom_memory q_simps)
  then show ?thesis using assms False by (auto simp: MinMemoryRequest_def q_simps intro!: exI [of _ ?k])
qed

theorem withHeadroom_hard_floor_witness:
  "(1::rat) / 1000 \<le> fst (withHeadroom fixed_env ''cpu'' NaN (Some 20))"
  using withHeadroom_hard_floor [OF fixed_env_laws, of "''cpu''" NaN "Some 20"]
  by (auto simp: MinCPURequest_def fixed_env_def)

text \<open>More observed usage never gives a smaller request: up to \<open>2 ^ 50\<close> cores or bytes and for
  a headroom the CRD admits, headroom and the rounding to whole millicores or MiB are monotone in
  the value.\<close>

theorem withHeadroom_mono:
  assumes "quantity_laws E amt" "0 \<le> u" "u \<le> v" "v \<le> 2 ^ 50" "headroom_ok h"
  shows "amt (withHeadroom E r (Fin u) h) \<le> amt (withHeadroom E r (Fin v) h)"
proof (cases "r = cpuResource")
  case True
  obtain x y where xy: "milli_cores (Fin u) h = Fin x" "milli_cores (Fin v) h = Fin y"
    "0 \<le> x" "x \<le> y" "y \<le> 2 ^ 61"
    using milli_cores_mono assms(2-5) .
  then have "in_int64 \<lceil>x\<rceil>" "in_int64 \<lceil>y\<rceil>" "\<lceil>x\<rceil> \<le> \<lceil>y\<rceil>"
    by (auto intro!: ceiling_in_int64 ceiling_mono)
  then have "max (to_i64 (f2i64 E) (fceil (Fin x))) 1 \<le> max (to_i64 (f2i64 E) (fceil (Fin y))) 1"
    by (simp only: to_i64_fceil)
  then show ?thesis
    using assms(1) True xy by (simp add: withHeadroom_cpu q_simps divide_right_mono del: fceil.simps)
next
  case False
  have u: "u \<le> 2 ^ 50" "0 \<le> v" using assms by simp_all
  have "\<lfloor>u\<rfloor> \<le> \<lfloor>v\<rfloor>" using assms(3) by (rule floor_mono)
  then have "whole_mib (headroom_bytes \<lfloor>u\<rfloor> h) \<le> whole_mib (headroom_bytes \<lfloor>v\<rfloor> h)"
    using headroom_bytes_mono [of "\<lfloor>u\<rfloor>" "\<lfloor>v\<rfloor>" h] assms floor_to_i64(2,3) [of v]
      floor_to_i64(2) [of u] u
    by (intro whole_mib_mono) linarith+
  then show ?thesis
    using assms False u by (simp add: withHeadroom_memory q_simps floor_to_i64 del: to_i64.simps)
qed

theorem withHeadroom_mono_witness:
  "fst (withHeadroom fixed_env ''memory'' (Fin 1000000) (Some 10))
     \<le> fst (withHeadroom fixed_env ''memory'' (Fin 3000000) (Some 10))"
  by (rule withHeadroom_mono [OF fixed_env_laws]) (simp_all add: headroom_ok_def)

section \<open>Live kills\<close>

text \<open>What the inputs hold of a container's kills.\<close>

definition oom_of :: "workload_inputs \<Rightarrow> string \<Rightarrow> oom" where
  "oom_of inp c = lookup_or zero_oom (oom_values_of inp OomFloor) c"

definition killed_at :: "oom_record \<Rightarrow> time" where
  "killed_at rec = (if or_TerminatedAt rec = 0 then or_ObservedAt rec else or_TerminatedAt rec)"

lemma merge_live_other: "c \<noteq> fst cr \<Longrightarrow> map_of (merge_live now cr m) c = map_of m c"
  by (simp add: merge_live_def Let_def split: option.splits)

lemma merge_live_cong:
  "map_of m c = map_of m' c \<Longrightarrow>
   map_of (merge_live now (c, r) m) c = map_of (merge_live now (c, r) m') c"
  by (simp add: merge_live_def Let_def lookup_or_def split: option.splits)

lemma fold_merge_live:
  "wf_map live \<Longrightarrow> map_of (fold (merge_live now) live m) c =
     (case map_of live c of None \<Rightarrow> map_of m c | Some r \<Rightarrow> map_of (merge_live now (c, r) m) c)"
proof (induction live arbitrary: m)
  case (Cons p live)
  obtain k r where p: "p = (k, r)" by (cases p)
  have wf: "wf_map live" and "k \<notin> set (gkeys live)" using Cons.prems p by (auto simp: wf_map_def)
  then have k: "map_of live k = None" by (simp add: map_of_None_key)
  show ?case
  proof (cases "k = c")
    case True
    with k Cons.IH [OF wf] p show ?thesis by simp
  next
    case False
    with Cons.IH [OF wf, of "merge_live now p m"] p show ?thesis
      by (simp add: merge_live_other split: option.splits)
         (metis fst_conv merge_live_cong merge_live_other)
  qed
qed simp

lemma oom_of_withLiveOOMs:
  assumes "wf_map live" "live \<noteq> []"
  shows "oom_of (withLiveOOMs inp live now) c =
           (case map_of live c of None \<Rightarrow> oom_of inp c
            | Some r \<Rightarrow> lookup_or zero_oom (merge_live now (c, r) (oom_values_of inp OomFloor)) c)"
  using assms
  by (simp add: oom_of_def withLiveOOMs_def with_values_def set_values_def oom_values_of_def
        lookup_or_def fold_merge_live split: option.splits)

text \<open>A kill the watcher saw no more than 30 minutes ago, dated at its termination or, when the
  kubelet left that unset, at its observation, and not after the instant computed as of, marks its
  container recently killed and raises the limit the floor is anchored on; an older or a later kill
  changes nothing. Other containers and the other signals' values keep what they had.\<close>

theorem withLiveOOMs_entry:
  assumes "wf_map inp" "wf_map live" "map_of live c = Some (Some rec)"
  shows "oom_of (withLiveOOMs inp live now) c =
           (if now - or_ObservedAt rec \<le> 30 * minute \<and> killed_at rec \<le> now
            then (oom_of inp c)\<lparr>LiveAt := killed_at rec,
                   LimitBytes := fmax (LimitBytes (oom_of inp c)) (of_i64 (or_OOMLimitBytes rec))\<rparr>
            else oom_of inp c) \<and>
         (\<forall>c'. map_of live c' = None \<longrightarrow> oom_of (withLiveOOMs inp live now) c' = oom_of inp c') \<and>
         usage_values_of (withLiveOOMs inp live now) cpuUsage = usage_values_of inp cpuUsage \<and>
         usage_values_of (withLiveOOMs inp live now) memoryUsage = usage_values_of inp memoryUsage"
proof (intro conjI)
  have ne: "live \<noteq> []" using assms(3) by auto
  have "30 * minute < time_sub now t \<longleftrightarrow> \<not> now - t \<le> 30 * minute" for t
    by (simp add: time_sub_gt_iff in_int64_def not_le)
  then show "oom_of (withLiveOOMs inp live now) c =
           (if now - or_ObservedAt rec \<le> 30 * minute \<and> killed_at rec \<le> now
            then (oom_of inp c)\<lparr>LiveAt := killed_at rec,
                   LimitBytes := fmax (LimitBytes (oom_of inp c)) (of_i64 (or_OOMLimitBytes rec))\<rparr>
            else oom_of inp c)"
    unfolding oom_of_withLiveOOMs [OF assms(2) ne] using assms(3)
    by (auto simp: merge_live_def killed_at_def oom_of_def lookup_or_def Let_def)
  show "\<forall>c'. map_of live c' = None \<longrightarrow> oom_of (withLiveOOMs inp live now) c' = oom_of inp c'"
    by (simp add: oom_of_withLiveOOMs [OF assms(2) ne])
  show "usage_values_of (withLiveOOMs inp live now) cpuUsage = usage_values_of inp cpuUsage"
    "usage_values_of (withLiveOOMs inp live now) memoryUsage = usage_values_of inp memoryUsage"
    using assms(1)
    by (simp_all add: usage_values_of_def withLiveOOMs_def with_values_def set_values_def cpuUsage_def
        memoryUsage_def map_of_maps_copy split: option.splits)
qed

theorem withLiveOOMs_entry_witness:
  "LiveAt (oom_of (withLiveOOMs [] [(''app'', Some \<lparr> or_Container = ''app'', or_PolicyName = ''p'',
     or_ObservedAt = 5 * minute, or_TerminatedAt = 4 * minute, or_RestartCount = 1, or_PodName = ''x'',
     or_PodUID = ''u'', or_OOMLimitBytes = 1000 \<rparr>)] (6 * minute)) ''app'') = 4 * minute"
  by (subst withLiveOOMs_entry [THEN conjunct1, OF wf_map_Nil], simp add: wf_map_def, simp)
     (simp add: killed_at_def)

end
