(* ===== verification/Recommender.thy ===== *)
theory Recommender
  imports Signals
begin

text \<open>
  The recommendation algorithm of \<open>internal/recommender\<close>: autoscaler coordination
  (\<open>coordination.go\<close>), the limit strategies, limit adjusters and guard (\<open>limit.go\<close>), and the chain
  from an identity's inputs to its requests and limits with their trace (\<open>compute.go\<close>,
  \<open>WithDefaults\<close> of \<open>assemble.go\<close>).
\<close>

section \<open>Autoscaler coordination\<close>

definition overhead_target :: "int \<Rightarrow> int" where
  "overhead_target targetPct = min (max targetPct 1) 99"

definition applyOverhead :: "'q env \<Rightarrow> 'q \<Rightarrow> int \<Rightarrow> 'q \<times> float64" where
  "applyOverhead E qty targetPct =
     (if targetPct \<le> 0 then (qty, Fin 1)
      else let t = overhead_target targetPct;
               factor = fdiv (of_i64 110) (of_i64 t);
               scale = (\<lambda>n. to_i64 (f2i64 E) (fceil (fdiv (fmul (of_i64 n) (of_i64 110)) (of_i64 t))))
           in if q_format E qty = BinarySI
              then (new_quantity E (scale (q_value E qty)) (q_format E qty), factor)
              else (new_milli_quantity E (scale (q_milli_value E qty)) (q_format E qty), factor))"

definition replica_target :: "'q env \<Rightarrow> float64 \<Rightarrow> int \<Rightarrow> int \<Rightarrow> int" where
  "replica_target E anchor minR maxR =
     (let a = fmin (fmax anchor (Fin 0)) (Fin 1);
          t = to_i32 (f2i32 E) (fround_int (fadd (of_i64 minR) (fmul a (of_i64 (wrap32 (maxR - minR))))))
      in min (max t minR) maxR)"

definition replica_factor :: "int \<Rightarrow> int \<Rightarrow> float64" where
  "replica_factor current target =
     fmin (fmax (fdiv (of_i64 current) (of_i64 target)) (Fin (1 / 2))) (Fin 2)"

definition applyReplicaCorrection ::
  "'q env \<Rightarrow> 'q \<Rightarrow> float64 \<Rightarrow> int \<Rightarrow> int \<Rightarrow> int \<Rightarrow> 'q \<times> float64" where
  "applyReplicaCorrection E qty anchor current minR maxR =
     (if maxR \<le> minR \<or> current \<le> 0 then (qty, Fin 1)
      else let target = replica_target E anchor minR maxR
           in if target \<le> 0 then (qty, Fin 1)
              else let factor = replica_factor current target;
                       scaled = fmul (of_i64 (q_milli_value E qty)) factor
                   in (new_milli_quantity E (to_i64 (f2i64 E) (fceil scaled)) (q_format E qty), factor))"

record 'q coordinated =
  cd_overhead :: float64
  cd_replica :: "float64 option"
  cd_scaled :: 'q
  cd_value :: 'q

definition coordinated_stage :: "'q env \<Rightarrow> 'q coordinated \<Rightarrow> 'q trace_stage" where
  "coordinated_stage E c =
     (let f0 = [(''overheadFactor'', FFactor (cd_overhead c))];
          f1 = (case cd_replica c of Some r \<Rightarrow> AList.update ''replicaFactor'' (FFactor r) f0 | None \<Rightarrow> f0);
          f2 = (if q_cmp E (cd_scaled c) (cd_value c) \<noteq> 0
                then AList.update ''scaled'' (FQuantity (cd_scaled c)) f1 else f1)
      in \<lparr> ts_Stage = ''coordination'', ts_Value = Some (cd_value c), ts_Removed = False,
           ts_Facts = f2 \<rparr>)"

definition coordinate ::
  "'q env \<Rightarrow> 'q \<Rightarrow> resource_kind \<Rightarrow> autoscaler_coordination \<Rightarrow> autoscaler_info \<Rightarrow>
   'q resource_requests_config \<Rightarrow> 'q coordinated option" where
  "coordinate E clamped res cfg info req =
     (if \<not> ac_Enabled cfg \<or> ai_Kind info = KindNone then None
      else let (scaled, overhead) = applyOverhead E clamped (lookup_or 0 (ConfiguredTargets info) res);
               (scaled', replica) =
                 (case ReplicaBudgetAnchor cfg of
                    Some anchor \<Rightarrow>
                      if res = cpuResource
                      then let (s, r) = applyReplicaCorrection E scaled anchor (CurrentReplicas info)
                                          (MinReplicas info) (MaxReplicas info)
                           in (s, Some r)
                      else (scaled, None)
                  | None \<Rightarrow> (scaled, None))
           in Some \<lparr> cd_overhead = overhead, cd_replica = replica, cd_scaled = scaled',
                     cd_value = clamp E scaled' (MinAllowed req) (MaxAllowed req) \<rparr>)"

section \<open>Contributions\<close>

record contributed =
  cb_signal :: signal
  cb_role :: role
  cb_contribution :: contribution

definition contributionsTo ::
  "'q stage_context \<Rightarrow> resource_kind \<Rightarrow> role list \<Rightarrow> contributed list" where
  "contributionsTo sc res roles =
     concat (map (\<lambda>r. List.map_filter
       (\<lambda>s. map_option (\<lambda>ct. \<lparr> cb_signal = s, cb_role = r, cb_contribution = ct \<rparr>) (contribute s sc))
       (inSlot \<lparr> sl_role = r, sl_resource = res \<rparr>)) roles)"

definition stagesOf ::
  "'q env \<Rightarrow> contributed list \<Rightarrow> 'q stage_context \<Rightarrow> int \<Rightarrow> 'q trace_stage list" where
  "stagesOf E cs sc determined =
     map (\<lambda>(i, c). sig_stage E (cb_signal c) sc (co_value (cb_contribution c)) (int i = determined))
       (enumerate 0 cs)"

text \<open>The loop of \<open>requestOf\<close>, from the value and winner so far; \<open>i\<close> is the next index.\<close>

fun request_loop :: "contributed list \<Rightarrow> int \<Rightarrow> float64 \<times> int \<Rightarrow> float64 \<times> int" where
  "request_loop [] i vw = vw"
| "request_loop (ct # cs) i (v, winner) =
     request_loop cs (i + 1)
       (if flt v (co_value (cb_contribution ct)) \<or> (cb_role ct = Base \<and> winner < 0)
        then (co_value (cb_contribution ct), i) else (v, winner))"

definition requestOf :: "contributed list \<Rightarrow> float64 \<times> int" where
  "requestOf cs = request_loop cs 0 (Fin 0, - 1)"

definition quantityStage :: "string \<Rightarrow> 'q \<Rightarrow> 'q trace_stage" where
  "quantityStage name q =
     \<lparr> ts_Stage = name, ts_Value = Some q, ts_Removed = False, ts_Facts = [] \<rparr>"

definition stageNamed :: "'q trace_stage list \<Rightarrow> string \<Rightarrow> 'q trace_stage option" where
  "stageNamed stages name = find (\<lambda>s. ts_Stage s = name) stages"

section \<open>Limits\<close>

record 'q limit =
  l_value :: "'q option"
  l_removed :: bool
  l_set :: bool

definition limit_recommendation :: "'q limit \<Rightarrow> 'q option \<times> bool" where
  "limit_recommendation l = (if l_set l then (l_value l, False) else (None, l_removed l))"

definition limit_stage :: "'q limit \<Rightarrow> string \<Rightarrow> (string, 'q fact) gomap \<Rightarrow> 'q trace_stage" where
  "limit_stage l name facts =
     \<lparr> ts_Stage = name, ts_Value = l_value l, ts_Removed = l_removed l, ts_Facts = facts \<rparr>"

record 'q limit_basis =
  lb_res :: resource_kind
  lb_request :: 'q
  lb_current :: "'q resource_requirements"
  lb_cfg :: resource_limits_config

record 'q limit_strategy =
  st_name :: string
  st_chosen :: "resource_limits_config \<Rightarrow> bool"
  st_limit :: "'q limit_basis \<Rightarrow> 'q limit \<times> (string, 'q fact) gomap"

definition scaleByRatio :: "'q env \<Rightarrow> 'q \<Rightarrow> float64 \<Rightarrow> 'q" where
  "scaleByRatio E request ratio =
     (if q_format E request = BinarySI
      then new_quantity E (to_i64 (f2i64 E) (fceil (fmul (of_i64 (q_value E request)) ratio)))
             (q_format E request)
      else new_milli_quantity E
             (to_i64 (f2i64 E) (fceil (fmul (of_i64 (q_milli_value E request)) ratio)))
             (q_format E request))"

definition ratioLimit :: "'q env \<Rightarrow> 'q \<Rightarrow> float64 \<Rightarrow> 'q limit \<times> (string, 'q fact) gomap" where
  "ratioLimit E request ratio =
     (\<lparr> l_value = Some (scaleByRatio E request ratio), l_removed = False, l_set = True \<rparr>,
      [(''ratio'', FFactor ratio)])"

definition ownLimit :: "'q env \<Rightarrow> 'q limit_basis \<Rightarrow> 'q limit \<times> (string, 'q fact) gomap" where
  "ownLimit E b =
     (\<lparr> l_value = res_of E (lb_res b) (Limits (lb_current b)), l_removed = False, l_set = False \<rparr>, [])"

text \<open>\<open>keepLimitRequestRatio\<close>: the container's own limit when it declares no limit or no request.\<close>

definition keepRatioLimit :: "'q env \<Rightarrow> 'q limit_basis \<Rightarrow> 'q limit \<times> (string, 'q fact) gomap" where
  "keepRatioLimit E b =
     (case (res_of E (lb_res b) (Limits (lb_current b)), res_of E (lb_res b) (Requests (lb_current b))) of
        (Some own, Some req) \<Rightarrow>
          ratioLimit E (lb_request b) (fdiv (of_i64 (q_milli_value E own)) (of_i64 (q_milli_value E req)))
      | _ \<Rightarrow> ownLimit E b)"

definition limitStrategies :: "'q env \<Rightarrow> 'q limit_strategy list" where
  "limitStrategies E =
     [ \<lparr> st_name = ''keepLimit'', st_chosen = KeepLimit, st_limit = ownLimit E \<rparr>,
       \<lparr> st_name = ''noLimit'', st_chosen = NoLimit,
         st_limit = (\<lambda>_. (\<lparr> l_value = None, l_removed = True, l_set = False \<rparr>, [])) \<rparr>,
       \<lparr> st_name = ''equalsToRequest'', st_chosen = EqualsToRequest,
         st_limit = (\<lambda>b. (\<lparr> l_value = Some (lb_request b), l_removed = False, l_set = True \<rparr>, [])) \<rparr>,
       \<lparr> st_name = ''requestsLimitsRatio'', st_chosen = (\<lambda>cfg. RequestsLimitsRatio cfg \<noteq> None),
         st_limit = (\<lambda>b. ratioLimit E (lb_request b) (the (RequestsLimitsRatio (lb_cfg b)))) \<rparr>,
       \<lparr> st_name = ''keepLimitRequestRatio'', st_chosen = KeepLimitRequestRatio,
         st_limit = keepRatioLimit E \<rparr> ]"

definition strategyOf :: "'q env \<Rightarrow> resource_limits_config \<Rightarrow> 'q limit_strategy" where
  "strategyOf E cfg =
     (case find (\<lambda>s. st_chosen s cfg) (limitStrategies E) of
        Some s \<Rightarrow> s | None \<Rightarrow> limitStrategies E ! 0)"

fun raise_loop ::
  "'q env \<Rightarrow> resource_kind \<Rightarrow> contributed list \<Rightarrow> int \<Rightarrow> 'q limit \<times> int \<Rightarrow> 'q limit \<times> int" where
  "raise_loop E res [] i lw = lw"
| "raise_loop E res (ct # cs) i (l, winner) =
     raise_loop E res cs (i + 1)
       (let q = withHeadroom E res (co_value (cb_contribution ct)) None
        in case l_value l of
             Some v \<Rightarrow> if q_greater E q v
                       then (\<lparr> l_value = Some q, l_removed = False, l_set = True \<rparr>, i) else (l, winner)
           | None \<Rightarrow> (l, winner))"

definition limit_guarded :: "'q env \<Rightarrow> 'q limit \<Rightarrow> 'q \<Rightarrow> bool" where
  "limit_guarded E l request = (case l_value l of Some v \<Rightarrow> q_less E v request | None \<Rightarrow> False)"

text \<open>\<open>limitChain\<close>, on the final request the caller has put into the context.\<close>

definition limitChain ::
  "'q env \<Rightarrow> resource_kind \<Rightarrow> 'q stage_context \<Rightarrow> 'q \<Rightarrow> 'q limit \<times> 'q trace_stage list" where
  "limitChain E res sc request =
     (let cfg = rc_Limits (sc_config sc);
          s = strategyOf E cfg;
          (l0, facts) = st_limit s \<lparr> lb_res = res, lb_request = request,
                                     lb_current = c_Resources (sc_container sc), lb_cfg = cfg \<rparr>;
          raised = contributionsTo sc res [LimitAdjuster];
          (l1, winner) = raise_loop E res raised 0 (l0, - 1);
          guarded = limit_guarded E l1 request;
          l2 = (if guarded then \<lparr> l_value = Some request, l_removed = False, l_set = True \<rparr> else l1);
          winner' = (if guarded then - 1 else winner)
      in (l2, [limit_stage l0 (st_name s) facts] @ stagesOf E raised sc winner' @
              (if guarded then [limit_stage l2 ''guard'' []] else [])))"

section \<open>The chain of one resource\<close>

record 'q sizing =
  sz_request :: 'q
  sz_limit :: "'q limit"
  sz_trace :: "'q resource_trace"

record 'q request =
  rq_containers :: "'q container list"
  rq_resources :: "'q resources_configs"
  rq_coordination :: autoscaler_coordination
  rq_autoInfo :: autoscaler_info
  rq_inputs :: workload_inputs
  rq_since :: time
  rq_now :: time

definition stage_context :: "'q request \<Rightarrow> resource_kind \<Rightarrow> 'q container \<Rightarrow> 'q stage_context" where
  "stage_context req res c =
     \<lparr> sc_inputs = rq_inputs req, sc_config = res_config res (rq_resources req), sc_container = c,
       sc_now = rq_now req, sc_request = None \<rparr>"

definition size_of_resource ::
  "'q env \<Rightarrow> resource_kind \<Rightarrow> 'q container \<Rightarrow> 'q request \<Rightarrow> 'q sizing option \<times> bool" where
  "size_of_resource E res c req =
     (let cfg = res_config res (rq_resources req);
          sc = stage_context req res c;
          contributions = contributionsTo sc res [Base, Adjuster];
          (v, winner) = requestOf contributions;
          justified = list_ex (\<lambda>ct. co_anchors (cb_contribution ct)) contributions
      in if \<not> justified \<or> KeepRequest (rc_Requests cfg) then (None, justified)
         else
           let headroom = withHeadroom E res v (Headroom (rc_Requests cfg));
               clamped = clamp E headroom (MinAllowed (rc_Requests cfg)) (MaxAllowed (rc_Requests cfg));
               co = coordinate E clamped res (rq_coordination req) (rq_autoInfo req) (rc_Requests cfg);
               bounded = (q_cmp E clamped headroom \<noteq> 0 \<or>
                          (case co of Some c' \<Rightarrow> q_cmp E (cd_value c') (cd_scaled c') \<noteq> 0 | None \<Rightarrow> False));
               winner' = (if bounded then - 1 else winner);
               stages = stagesOf E contributions sc winner' @
                        [quantityStage ''headroom'' headroom, quantityStage ''clamp'' clamped];
               (request, stages') =
                 (case co of Some c' \<Rightarrow> (cd_value c', stages @ [coordinated_stage E c'])
                           | None \<Rightarrow> (clamped, stages));
               (lim, lstages) = limitChain E res (sc\<lparr>sc_request := Some request\<rparr>) request
           in (Some \<lparr> sz_request = request, sz_limit = lim,
                      sz_trace = \<lparr> rt_Request = stages', rt_Limit = lstages \<rparr> \<rparr>, True))"

section \<open>Containers and identities\<close>

definition computeContainer ::
  "'q env \<Rightarrow> 'q container \<Rightarrow> 'q request \<Rightarrow> ('q container_recommendation \<times> 'q container_trace) option"
where
  "computeContainer E c req =
     (let (cpu, cpuOK) = size_of_resource E cpuResource c req;
          (mem, memOK) = size_of_resource E memoryResource c req
      in if \<not> cpuOK \<and> \<not> memOK then None
         else
           let rec0 = empty_recommendation; tr0 = \<lparr> ct_CPU = None, ct_Memory = None \<rparr>;
               (rec1, tr1) =
                 (case cpu of
                    Some s \<Rightarrow>
                      let (q, rm) = limit_recommendation (sz_limit s)
                      in (rec0\<lparr>CPURequest := Some (sz_request s), CPULimit := q, RemoveCPULimit := rm\<rparr>,
                          tr0\<lparr>ct_CPU := Some (sz_trace s)\<rparr>)
                  | None \<Rightarrow> (rec0, tr0))
           in Some (case mem of
                Some s \<Rightarrow>
                  let (q, rm) = limit_recommendation (sz_limit s)
                  in (rec1\<lparr>MemoryRequest := Some (sz_request s), MemoryLimit := q,
                          RemoveMemoryLimit := rm\<rparr>,
                      tr1\<lparr>ct_Memory := Some (sz_trace s)\<rparr>)
              | None \<Rightarrow> (rec1, tr1)))"

datatype outcome = Recommended | TooYoung | NoData

fun Recorded :: "outcome \<Rightarrow> recommendation_outcome" where
  "Recorded TooYoung = OutcomeTooYoung"
| "Recorded NoData = OutcomeNoData"
| "Recorded Recommended = OutcomeComputed"

abbreviation (input) MinWorkloadAge :: duration where "MinWorkloadAge \<equiv> 600000000000"

definition tooYoung :: "time \<Rightarrow> time \<Rightarrow> workload_inputs \<Rightarrow> bool" where
  "tooYoung since now inp =
     (if since = 0 \<or> MinWorkloadAge \<le> time_sub now since then False
      else \<not> list_ex (\<lambda>(_, v). excusesAge v) inp)"

record 'q result =
  rs_Outcome :: outcome
  rs_Recs :: "(string, 'q container_recommendation) gomap"
  rs_Traces :: "(string, 'q container_trace) gomap"

definition compute_step ::
  "'q env \<Rightarrow> 'q request \<Rightarrow> 'q container \<Rightarrow>
   (string, 'q container_recommendation) gomap \<times> (string, 'q container_trace) gomap \<Rightarrow>
   (string, 'q container_recommendation) gomap \<times> (string, 'q container_trace) gomap" where
  "compute_step E req c rt =
     (case computeContainer E c req of
        None \<Rightarrow> rt
      | Some (rec, tr) \<Rightarrow>
          (AList.update (c_Name c) rec (fst rt), AList.update (c_Name c) tr (snd rt)))"

definition Compute :: "'q env \<Rightarrow> 'q request \<Rightarrow> 'q result" where
  "Compute E req =
     (let (recs, traces) = fold (compute_step E req) (rq_containers req) ([], [])
      in \<lparr> rs_Outcome = (if tooYoung (rq_since req) (rq_now req) (rq_inputs req) then TooYoung
                        else if recs = [] then NoData else Recommended),
           rs_Recs = recs, rs_Traces = traces \<rparr>)"

section \<open>Defaults\<close>

definition default_resource :: "'q env \<Rightarrow> 'q resource_config \<Rightarrow> 'q resource_config" where
  "default_resource E rc =
     (let rc1 = rc\<lparr>Window := ResourceWindow (Window rc)\<rparr>;
          rq = rc_Requests rc1;
          rc2 = (if KeepRequest rq then rc1
                 else rc1\<lparr>rc_Requests :=
                   rq\<lparr>Percentile := (case Percentile rq of None \<Rightarrow> Some 95 | p \<Rightarrow> p),
                     Headroom := (case Headroom rq of None \<Rightarrow> Some 0 | h \<Rightarrow> h)\<rparr>\<rparr>)
      in if st_name (strategyOf E (rc_Limits rc2)) = ''keepLimit''
         then rc2\<lparr>rc_Limits := (rc_Limits rc2)\<lparr>KeepLimit := True\<rparr>\<rparr> else rc2)"

definition WithDefaults :: "'q env \<Rightarrow> 'q resources_configs \<Rightarrow> 'q resources_configs" where
  "WithDefaults E cfg =
     \<lparr> rs_CPU = default_resource E (rs_CPU cfg), rs_Memory = default_resource E (rs_Memory cfg) \<rparr>"

end
