(* ===== verification/RecommenderCorrect.thy ===== *)
theory RecommenderCorrect
  imports Recommender
begin

text \<open>
  What a computed Recommendation guarantees: requests inside the operator's bounds, limits never
  below requests, the OOM floor, the factors of autoscaler coordination, which containers are
  recommended for and with what outcome, and that the trace and the defaults tell the truth.
\<close>

section \<open>Bounds\<close>

lemma clamp_le_max:
  assumes "quantity_laws E amt"
  shows "amt (clamp E q minQ (Some M)) \<le> amt M"
  using assms by (simp add: clamp_def clamp_max_def q_simps)

lemma clamp_ge_min:
  assumes "quantity_laws E amt" "\<And>M. maxQ = Some M \<Longrightarrow> amt m \<le> amt M"
  shows "amt m \<le> amt (clamp E q (Some m) maxQ)"
  using assms by (auto simp: clamp_def clamp_max_def clamp_min_def q_simps split: option.splits)

text \<open>Clamping lowers a value only to the maximum.\<close>

lemma clamp_ge_or_max:
  assumes "quantity_laws E amt"
  shows "amt q \<le> amt (clamp E q minQ maxQ) \<or> maxQ = Some (clamp E q minQ maxQ)"
  using assms by (auto simp: clamp_def clamp_max_def clamp_min_def q_simps split: option.splits)

text \<open>The request and the limit of a sizing, without its trace.\<close>

definition final_request :: "'q env \<Rightarrow> resource_kind \<Rightarrow> 'q request \<Rightarrow> 'q \<Rightarrow> 'q" where
  "final_request E res req headroom =
     (let rr = rc_Requests (res_config res (rq_resources req));
          clamped = clamp E headroom (MinAllowed rr) (MaxAllowed rr)
      in case coordinate E clamped res (rq_coordination req) (rq_autoInfo req) rr of
           Some co \<Rightarrow> cd_value co | None \<Rightarrow> clamped)"

abbreviation request_contributions :: "'q request \<Rightarrow> resource_kind \<Rightarrow> 'q container \<Rightarrow> contributed list" where
  "request_contributions req res c \<equiv> contributionsTo (stage_context req res c) res [Base, Adjuster]"

lemma size_of_resource_Some:
  assumes "size_of_resource E res c req = (Some s, ok)"
  shows "ok" "\<not> KeepRequest (rc_Requests (res_config res (rq_resources req)))"
    "list_ex (\<lambda>ct. co_anchors (cb_contribution ct)) (request_contributions req res c)"
    "sz_request s = final_request E res req
       (withHeadroom E res (fst (requestOf (request_contributions req res c)))
         (Headroom (rc_Requests (res_config res (rq_resources req)))))"
    "sz_limit s = fst (limitChain E res ((stage_context req res c)\<lparr>sc_request := Some (sz_request s)\<rparr>)
                         (sz_request s))"
  using assms
  by (auto simp: size_of_resource_def final_request_def Let_def split: prod.splits option.splits if_splits)

lemma size_of_resource_justified:
  "snd (size_of_resource E res c req) \<longleftrightarrow>
     list_ex (\<lambda>ct. co_anchors (cb_contribution ct)) (request_contributions req res c)"
  by (auto simp: size_of_resource_def Let_def split: prod.splits if_splits)

lemma coordinate_clamped:
  "coordinate E q res cfg info rr = Some co \<Longrightarrow>
   cd_value co = clamp E (cd_scaled co) (MinAllowed rr) (MaxAllowed rr)"
  by (auto simp: coordinate_def Let_def split: if_splits prod.splits)

lemma final_request_is_clamped:
  "\<exists>q. final_request E res req h =
       clamp E q (MinAllowed (rc_Requests (res_config res (rq_resources req))))
                 (MaxAllowed (rc_Requests (res_config res (rq_resources req))))"
  by (auto simp: final_request_def Let_def dest: coordinate_clamped split: option.splits)

text \<open>C2. A recommended request stays inside the operator's bounds, autoscaler coordination
  included: never above \<open>maxAllowed\<close>, and never below \<open>minAllowed\<close> unless the two conflict, when
  \<open>maxAllowed\<close> wins.\<close>

theorem request_within_bounds:
  assumes "quantity_laws E amt" "size_of_resource E res c req = (Some s, ok)"
    and "rr = rc_Requests (res_config res (rq_resources req))"
  shows "(\<forall>M. MaxAllowed rr = Some M \<longrightarrow> amt (sz_request s) \<le> amt M) \<and>
         (\<forall>m. MinAllowed rr = Some m \<and> (\<forall>M. MaxAllowed rr = Some M \<longrightarrow> amt m \<le> amt M) \<longrightarrow>
              amt m \<le> amt (sz_request s))"
proof -
  obtain q where "sz_request s = clamp E q (MinAllowed rr) (MaxAllowed rr)"
    using size_of_resource_Some(4) [OF assms(2)] final_request_is_clamped assms(3) by metis
  then show ?thesis using clamp_le_max [OF assms(1)] clamp_ge_min [OF assms(1)] by auto
qed

section \<open>Limits\<close>

lemma no_limit_adjusters [simp]: "inSlot \<lparr> sl_role = LimitAdjuster, sl_resource = res \<rparr> = []"
  by (simp add: inSlot_def signals_def cpuUsage_def memoryUsage_def)

lemma contributionsTo_limit [simp]: "contributionsTo sc res [LimitAdjuster] = []"
  by (simp add: contributionsTo_def List.map_filter_def)

text \<open>The limit the Policy's strategy derives, and what the guard makes of it.\<close>

definition strategy_limit :: "'q env \<Rightarrow> resource_kind \<Rightarrow> 'q stage_context \<Rightarrow> 'q \<Rightarrow> 'q limit" where
  "strategy_limit E res sc request =
     fst (st_limit (strategyOf E (rc_Limits (sc_config sc)))
            \<lparr> lb_res = res, lb_request = request, lb_current = c_Resources (sc_container sc),
              lb_cfg = rc_Limits (sc_config sc) \<rparr>)"

lemma limitChain_eq:
  "fst (limitChain E res sc request) =
     (if limit_guarded E (strategy_limit E res sc request) request
      then \<lparr> l_value = Some request, l_removed = False, l_set = True \<rparr>
      else strategy_limit E res sc request)"
  by (simp add: limitChain_def strategy_limit_def Let_def split: prod.splits)

lemma limitChain_ge_request:
  assumes "quantity_laws E amt" "l_value (fst (limitChain E res sc request)) = Some l"
  shows "amt request \<le> amt l"
  using assms
  by (auto simp: limitChain_eq limit_guarded_def q_simps not_less split: if_splits option.splits)

text \<open>C1. A limit a sizing ends with, set by the Recommendation or the container's own, is never
  below the request it recommends (docs/adr/0005): the guard raises it and never lowers the
  request.\<close>

theorem limit_not_below_request:
  assumes "quantity_laws E amt" "size_of_resource E res c req = (Some s, ok)"
    and "l_value (sz_limit s) = Some l"
  shows "amt (sz_request s) \<le> amt l"
  using limitChain_ge_request [OF assms(1)] size_of_resource_Some(5) [OF assms(2)] assms(3) by metis

text \<open>What each strategy promises, on the container's own limit and request and the recommended
  request: the limit to set, and whether to strip it.\<close>

definition kept_limit :: "('q \<Rightarrow> rat) \<Rightarrow> 'q option \<Rightarrow> 'q \<Rightarrow> 'q option \<times> bool" where
  "kept_limit amt own request =
     (case own of Some l \<Rightarrow> if amt l < amt request then (Some request, False) else (None, False)
                | None \<Rightarrow> (None, False))"

definition at_least :: "('q \<Rightarrow> rat) \<Rightarrow> 'q \<Rightarrow> 'q \<Rightarrow> 'q" where
  "at_least amt request l = (if amt l < amt request then request else l)"

definition limit_spec ::
  "'q env \<Rightarrow> ('q \<Rightarrow> rat) \<Rightarrow> resource_limits_config \<Rightarrow> 'q option \<Rightarrow> 'q option \<Rightarrow> 'q \<Rightarrow> 'q option \<times> bool" where
  "limit_spec E amt cfg own ownReq request =
     (if KeepLimit cfg then kept_limit amt own request
      else if NoLimit cfg then (None, True)
      else if EqualsToRequest cfg then (Some request, False)
      else case RequestsLimitsRatio cfg of
             Some ratio \<Rightarrow> (Some (at_least amt request (scaleByRatio E request ratio)), False)
           | None \<Rightarrow>
               if KeepLimitRequestRatio cfg
               then case (own, ownReq) of
                      (Some o', Some q) \<Rightarrow>
                        (Some (at_least amt request (scaleByRatio E request
                           (fdiv (of_i64 (q_milli_value E o')) (of_i64 (q_milli_value E q))))), False)
                    | _ \<Rightarrow> kept_limit amt own request
               else kept_limit amt own request)"

lemma strategyOf_cases:
  "strategyOf E cfg =
     (if KeepLimit cfg then limitStrategies E ! 0
      else if NoLimit cfg then limitStrategies E ! 1
      else if EqualsToRequest cfg then limitStrategies E ! 2
      else if RequestsLimitsRatio cfg \<noteq> None then limitStrategies E ! 3
      else if KeepLimitRequestRatio cfg then limitStrategies E ! 4
      else limitStrategies E ! 0)"
  by (simp add: strategyOf_def limitStrategies_def)

lemma limitChain_spec:
  assumes "quantity_laws E amt"
  shows "limit_recommendation (fst (limitChain E res sc request)) =
           limit_spec E amt (rc_Limits (sc_config sc))
             (res_of E res (Limits (c_Resources (sc_container sc))))
             (res_of E res (Requests (c_Resources (sc_container sc)))) request"
  using assms unfolding limitChain_eq strategy_limit_def strategyOf_cases
  by (auto simp: limitStrategies_def limit_recommendation_def limit_guarded_def limit_spec_def
      kept_limit_def at_least_def ownLimit_def ratioLimit_def keepRatioLimit_def q_simps
      split: option.splits)

text \<open>The limit side sets exactly what the Policy's strategy promises: the first strategy chosen,
  \<open>keepLimit\<close> when none is, with a derived or kept limit below the request raised to it, the limit
  stripped only under \<open>noLimit\<close>, and no limit added to a container without one by a strategy that
  keeps limits or their ratio.\<close>

theorem limit_by_strategy:
  assumes "quantity_laws E amt" "size_of_resource E res c req = (Some s, ok)"
  shows "limit_recommendation (sz_limit s) =
           limit_spec E amt (rc_Limits (res_config res (rq_resources req)))
             (res_of E res (Limits (c_Resources c))) (res_of E res (Requests (c_Resources c)))
             (sz_request s)"
  unfolding size_of_resource_Some(5) [OF assms(2)] limitChain_spec [OF assms(1)]
  by (simp add: stage_context_def)

section \<open>Contributions\<close>

lemma inSlot_base [simp]:
  "inSlot \<lparr> sl_role = Base, sl_resource = res \<rparr> =
     (if res = cpuResource \<or> res = memoryResource then [Usage res] else [])"
  by (auto simp: inSlot_def signals_def cpuUsage_def memoryUsage_def)

lemma inSlot_adjuster [simp]:
  "inSlot \<lparr> sl_role = Adjuster, sl_resource = res \<rparr> = (if res = memoryResource then [OomFloor] else [])"
  by (auto simp: inSlot_def signals_def cpuUsage_def memoryUsage_def)

definition opt_list :: "'a option \<Rightarrow> 'a list" where
  "opt_list x = (case x of None \<Rightarrow> [] | Some a \<Rightarrow> [a])"

definition usage_contribution :: "float64 \<Rightarrow> resource_kind \<Rightarrow> contributed" where
  "usage_contribution v res =
     \<lparr> cb_signal = Usage res, cb_role = Base, cb_contribution = \<lparr> co_value = v, co_anchors = True \<rparr> \<rparr>"

definition oom_contribution :: "oom \<Rightarrow> contributed option" where
  "oom_contribution o' =
     (if oom_recent o'
      then Some \<lparr> cb_signal = OomFloor, cb_role = Adjuster,
                  cb_contribution = \<lparr> co_value = fst (oom_floor o'),
                                      co_anchors = (snd (oom_floor o') \<noteq> []) \<rparr> \<rparr>
      else None)"

lemma request_contributions_eq:
  "request_contributions req res c =
     (if res = cpuResource \<or> res = memoryResource
      then opt_list (map_option (\<lambda>v. usage_contribution v res)
             (map_of (usage_values_of (rq_inputs req) (Usage res)) (c_Name c))) else []) @
     (if res = memoryResource then opt_list (oom_contribution (oom_of (rq_inputs req) (c_Name c))) else [])"
  by (simp add: contributionsTo_def stage_context_def List.map_filter_def opt_list_def
      usage_contribution_def oom_contribution_def oom_of_def Let_def split: option.splits prod.splits)

text \<open>Anchored: the peak Prometheus reported, or the limit of the kill.\<close>

definition anchored :: "oom \<Rightarrow> bool" where
  "anchored o' \<longleftrightarrow> HasPeak o' \<or>
     (flt (Fin 0) (LimitBytes o') \<and> flt (PeakBytes o') (fmul (LimitBytes o') oomBumpFactor))"

lemma oom_floor_anchored: "snd (oom_floor o') \<noteq> [] \<longleftrightarrow> anchored o'"
  by (simp add: oom_floor_def anchored_def Let_def)

lemma justified_iff:
  "list_ex (\<lambda>ct. co_anchors (cb_contribution ct)) (request_contributions req res c) \<longleftrightarrow>
     ((res = cpuResource \<or> res = memoryResource) \<and>
        map_of (usage_values_of (rq_inputs req) (Usage res)) (c_Name c) \<noteq> None) \<or>
     (res = memoryResource \<and> oom_recent (oom_of (rq_inputs req) (c_Name c)) \<and>
        anchored (oom_of (rq_inputs req) (c_Name c)))"
  by (auto simp: request_contributions_eq opt_list_def usage_contribution_def oom_contribution_def
      oom_floor_anchored split: option.splits)

lemma computeContainer_None:
  "computeContainer E c req = None \<longleftrightarrow>
     \<not> snd (size_of_resource E cpuResource c req) \<and> \<not> snd (size_of_resource E memoryResource c req)"
  by (auto simp: computeContainer_def Let_def split: prod.splits)

text \<open>A container is recommended for exactly when it has a CPU or memory usage sample, or was
  recently OOM-killed with an anchor for the floor. A kill with no anchor recommends nothing.\<close>

theorem container_recommended_iff:
  "computeContainer E c req \<noteq> None \<longleftrightarrow>
     c_Name c \<in> set (gkeys (usage_values_of (rq_inputs req) cpuUsage)) \<or>
     c_Name c \<in> set (gkeys (usage_values_of (rq_inputs req) memoryUsage)) \<or>
     (oom_recent (oom_of (rq_inputs req) (c_Name c)) \<and> anchored (oom_of (rq_inputs req) (c_Name c)))"
  by (auto simp: computeContainer_None size_of_resource_justified justified_iff cpuUsage_def
      memoryUsage_def map_of_None_key simp flip: not_None_eq)

section \<open>Combining contributions\<close>

abbreviation cb_value :: "contributed \<Rightarrow> float64" where
  "cb_value ct \<equiv> co_value (cb_contribution ct)"

definition winner_ok :: "contributed list \<Rightarrow> float64 \<Rightarrow> int \<Rightarrow> bool" where
  "winner_ok cs v w \<longleftrightarrow>
     (if w < 0
      then w = - 1 \<and> v = Fin 0 \<and> (\<forall>ct\<in>set cs. cb_role ct \<noteq> Base \<and> \<not> flt (Fin 0) (cb_value ct))
      else nat w < length cs \<and> v = cb_value (cs ! nat w) \<and> (\<forall>ct\<in>set cs. \<not> flt v (cb_value ct)) \<and>
           (\<forall>j<nat w. flt (cb_value (cs ! j)) v))"

text \<open>Every base contribution comes before every other.\<close>

definition bases_first :: "contributed list \<Rightarrow> bool" where
  "bases_first cs \<longleftrightarrow> sorted_wrt (\<lambda>a b. cb_role b = Base \<longrightarrow> cb_role a = Base) cs"

lemma winner_ok_new:
  assumes ok: "winner_ok pre v w" and nan: "\<forall>ct\<in>set (pre @ [ct]). cb_value ct \<noteq> NaN" "v \<noteq> NaN"
    and new: "flt v (cb_value ct)"
  shows "winner_ok (pre @ [ct]) (cb_value ct) (int (length pre))"
proof -
  have le: "\<not> flt v (cb_value x)" if "x \<in> set pre" for x
    using ok that by (auto simp: winner_ok_def split: if_splits)
  then have "flt (cb_value x) (cb_value ct)" if "x \<in> set pre" for x
    using that nan new le_flt_trans [of "cb_value x" v "cb_value ct"] by auto
  then show ?thesis
    by (auto simp: winner_ok_def nth_append dest: flt_asym)
qed

lemma winner_ok_keep:
  assumes "winner_ok pre v w" "\<not> flt v (cb_value ct)" "cb_role ct = Base \<longrightarrow> \<not> w < 0"
  shows "winner_ok (pre @ [ct]) v w"
  using assms by (auto simp: winner_ok_def nth_append split: if_splits)

lemma request_loop_ok:
  assumes "winner_ok pre v w" "bases_first (pre @ cs)" "\<forall>ct\<in>set (pre @ cs). cb_value ct \<noteq> NaN" "v \<noteq> NaN"
    "request_loop cs (int (length pre)) (v, w) = (v', w')"
  shows "winner_ok (pre @ cs) v' w'"
  using assms
proof (induction cs arbitrary: pre v w)
  case (Cons ct cs)
  note IH = Cons.IH [where pre = "pre @ [ct]"]
  have nan: "\<forall>x\<in>set (pre @ [ct]). cb_value x \<noteq> NaN" "cb_value ct \<noteq> NaN" using Cons.prems(3) by simp_all
  show ?case
  proof (cases "flt v (cb_value ct) \<or> (cb_role ct = Base \<and> w < 0)")
    case True
    have "pre = []" if "cb_role ct = Base" "w < 0"
      using that Cons.prems(1,2)
      by (cases pre) (auto simp: winner_ok_def bases_first_def sorted_wrt_append)
    with True have "winner_ok (pre @ [ct]) (cb_value ct) (int (length pre))"
      using winner_ok_new [OF Cons.prems(1) nan(1) Cons.prems(4)] by (auto simp: winner_ok_def)
    from IH [OF this] show ?thesis using Cons.prems(2,3,5) nan(2) True by (simp add: add.commute)
  next
    case False
    then have "winner_ok (pre @ [ct]) v w" by (intro winner_ok_keep [OF Cons.prems(1)]) auto
    from IH [OF this] show ?thesis using Cons.prems(2-5) False by (simp add: add.commute)
  qed
qed simp

text \<open>The request side combines contributions as documented: the value is the highest
  contribution and the winner the first that reaches it; with no base signal, an adjuster counts
  only above zero.\<close>

theorem requestOf_highest:
  assumes "bases_first cs" "\<forall>ct\<in>set cs. cb_value ct \<noteq> NaN" "requestOf cs = (v, w)"
  shows "winner_ok cs v w"
  using request_loop_ok [of "[]" "Fin 0" "- 1" cs v w] assms
  by (simp add: requestOf_def winner_ok_def)

theorem requestOf_highest_witness:
  "winner_ok [usage_contribution (Fin 5) ''memory'', usage_contribution (Fin 5) ''memory''] (Fin 5) 0"
  by (rule requestOf_highest) (simp_all add: bases_first_def usage_contribution_def requestOf_def)

section \<open>Outcomes\<close>

lemma excusesAge_iff:
  "list_ex (\<lambda>(_, v). excusesAge v) inp \<longleftrightarrow>
     (\<exists>n kills c o'. (n, OomValues kills) \<in> set inp \<and> (c, o') \<in> set kills \<and> oom_recent o')"
  (is "?L \<longleftrightarrow> ?R")
proof
  assume ?L
  then obtain n v where v: "(n, v) \<in> set inp" "excusesAge v" by (auto simp: list_ex_iff)
  then show ?R by (cases v) (auto simp: list_ex_iff)
next
  assume ?R
  then show ?L by (auto simp: list_ex_iff intro!: bexI)
qed

lemma tooYoung_iff:
  "tooYoung since now inp \<longleftrightarrow>
     since \<noteq> 0 \<and> now - since < 10 * minute \<and>
     \<not> (\<exists>n kills c o'. (n, OomValues kills) \<in> set inp \<and> (c, o') \<in> set kills \<and> oom_recent o')"
  unfolding excusesAge_iff [symmetric]
  by (auto simp: tooYoung_def time_sub_ge_iff in_int64_def)

lemma compute_step_recs:
  "map_of (fst (compute_step E req c rt)) n =
     (if c_Name c = n \<and> computeContainer E c req \<noteq> None
      then map_option fst (computeContainer E c req) else map_of (fst rt) n)"
  by (auto simp: compute_step_def split: option.splits)

lemma compute_fold:
  "map_of (fst (fold (compute_step E req) cs rt)) n =
     (case find (\<lambda>c. c_Name c = n \<and> computeContainer E c req \<noteq> None) (rev cs) of
        Some c \<Rightarrow> map_option fst (computeContainer E c req) | None \<Rightarrow> map_of (fst rt) n)"
proof (induction cs arbitrary: rt)
  case (Cons c cs)
  show ?case
    using Cons.IH [of "compute_step E req c rt"]
    by (auto simp: compute_step_recs find_append split: option.split)
qed simp

lemma Compute_recs:
  "map_of (rs_Recs (Compute E req)) n =
     (case find (\<lambda>c. c_Name c = n \<and> computeContainer E c req \<noteq> None) (rev (rq_containers req)) of
        Some c \<Rightarrow> map_option fst (computeContainer E c req) | None \<Rightarrow> None)"
  using compute_fold [of E req "rq_containers req" "([], [])" n]
  by (simp add: Compute_def Let_def case_prod_unfold split: option.split)

lemma Compute_recs_empty:
  "rs_Recs (Compute E req) = [] \<longleftrightarrow> (\<forall>c\<in>set (rq_containers req). computeContainer E c req = None)"
proof
  assume *: "rs_Recs (Compute E req) = []"
  show "\<forall>c\<in>set (rq_containers req). computeContainer E c req = None"
  proof (rule ballI, rule ccontr)
    fix c assume c: "c \<in> set (rq_containers req)" "computeContainer E c req \<noteq> None"
    then have "find (\<lambda>d. c_Name d = c_Name c \<and> computeContainer E d req \<noteq> None) (rev (rq_containers req)) \<noteq> None"
      by (auto simp: find_None_all)
    with * show False
      using Compute_recs [of E req "c_Name c"] by (auto dest!: find_Some_set split: option.splits)
  qed
next
  assume *: "\<forall>c\<in>set (rq_containers req). computeContainer E c req = None"
  have "fold (compute_step E req) cs rt = rt"
    if "\<forall>c\<in>set cs. computeContainer E c req = None" for cs rt
    using that by (induction cs) (simp_all add: compute_step_def)
  with * show "rs_Recs (Compute E req) = []" by (simp add: Compute_def)
qed

text \<open>The outcome of a computation: too young exactly when the identity is dated, younger than
  ten minutes and none of its containers was recently OOM-killed; otherwise no data exactly when no
  container has a sample or an OOM anchor; otherwise a Recommendation.\<close>

theorem Compute_outcome:
  "rs_Outcome (Compute E req) =
     (if rq_since req \<noteq> 0 \<and> rq_now req - rq_since req < 10 * minute \<and>
         \<not> (\<exists>n kills c o'. (n, OomValues kills) \<in> set (rq_inputs req) \<and> (c, o') \<in> set kills \<and> oom_recent o')
      then TooYoung
      else if \<forall>c\<in>set (rq_containers req). computeContainer E c req = None then NoData
      else Recommended)"
  unfolding tooYoung_iff [symmetric] Compute_recs_empty [symmetric]
  by (simp add: Compute_def Let_def case_prod_unfold)

section \<open>Autoscaler coordination\<close>

lemma overhead_target_range: "1 \<le> overhead_target t" "overhead_target t \<le> 99"
  by (simp_all add: overhead_target_def)

text \<open>Multiplying by 110 and dividing by a target of at most 99 outweighs both roundings.\<close>

lemma overhead_scale_ge:
  assumes "0 \<le> n" "n < 2 ^ 53" "1 \<le> t" "t \<le> 99"
  shows "n \<le> to_i64 other (fceil (fdiv (fmul (of_i64 n) (of_i64 110)) (of_i64 t)))"
proof (cases "n = 0")
  case True
  have "of_i64 0 = Fin 0" "of_i64 110 = Fin 110" "of_i64 t = Fin (of_int t)"
    using assms of_i64_exact [of 0] of_i64_exact [of 110] of_i64_exact [of t] by simp_all
  with True assms show ?thesis by (simp add: fround_Fin [of 0 0] rtrunc_def in_int64_def)
next
  case False
  then have n: "1 \<le> n" using assms by simp
  have i: "of_i64 n = Fin (of_int n)" "of_i64 110 = Fin 110" "of_i64 t = Fin (of_int t)"
    using assms of_i64_exact [of n] of_i64_exact [of 110] of_i64_exact [of t] by simp_all
  define x where "x = (of_int n * 110 :: rat)"
  have n': "1 \<le> (of_int n :: rat)" "(of_int n :: rat) \<le> 2 ^ 53" "1 \<le> (of_int t :: rat)" "(of_int t :: rat) \<le> 99"
    using n assms of_int_less_iff [of n "2 ^ 53", where 'a = rat] by (simp_all del: of_int_less_iff)
  then have x: "110 \<le> x" "x \<le> 2 ^ 60" by (simp_all add: x_def)
  have "(2::rat) powi (- 1022) \<le> 2 powi 0" by (rule power_int_increasing) simp_all
  then have "\<bar>flr x - x\<bar> \<le> x * 2 powi (- 53)" using x by (intro flr_rel_err) simp
  also have "x * 2 powi (- 53) \<le> x / 110" using x by (simp add: power_int_minus divide_simps)
  finally have "of_int n * 99 \<le> flr x" using n' by (simp add: x_def abs_le_iff)
  moreover have "(of_int n :: rat) * of_int t \<le> of_int n * 99" using n' by (intro mult_left_mono) simp_all
  ultimately have "of_int n * of_int t \<le> flr x" by (rule order.trans [rotated])
  then have q: "of_int n \<le> flr x / of_int t" using n' by (simp add: pos_le_divide_eq)
  have fx: "0 \<le> flr x" "flr x \<le> 2 ^ 60"
    using x flr_nonneg [of x] flr_abs_le_pow2 [of x 60] by (simp_all add: abs_le_iff)
  then have r: "0 \<le> flr x / of_int t" "flr x / of_int t \<le> 2 ^ 60" using n' by (auto simp: divide_simps)
  define y where "y = flr (flr x / of_int t)"
  have y: "of_int n \<le> y" "y \<le> 2 ^ 60"
    using q r flr_ge_int [of n] flr_abs_le_pow2 [of "flr x / of_int t" 60] assms n
    by (simp_all add: y_def abs_le_iff)
  have "fdiv (fmul (of_i64 n) (of_i64 110)) (of_i64 t) = Fin y"
    using x r n' unfolding i y_def
    by (simp add: fround_Fin [where k = 60] abs_le_iff flip: x_def)
  moreover have "in_int64 \<lceil>y\<rceil>" using y n' by (intro ceiling_in_int64) simp_all
  moreover have "n \<le> \<lceil>y\<rceil>" using y(1) by (simp add: le_ceiling_iff)
  ultimately show ?thesis by (simp only: to_i64_fceil)
qed

text \<open>The overhead for an autoscaler's utilisation target never lowers a request: up to
  \<open>2 ^ 43\<close> cores or bytes the scaled request is at least the one it scales, whatever the target.\<close>

theorem applyOverhead_ge:
  assumes "quantity_laws E amt" "0 \<le> amt q" "amt q \<le> 2 ^ 43"
  shows "amt q \<le> amt (fst (applyOverhead E q target))"
proof -
  let ?t = "overhead_target target"
  have "\<lceil>amt q\<rceil> \<le> 2 ^ 43" "\<lceil>amt q * 1000\<rceil> \<le> 2 ^ 43 * 1000" "0 \<le> \<lceil>amt q\<rceil>" "0 \<le> \<lceil>amt q * 1000\<rceil>"
    using assms ceiling_mono [of 0 "amt q"] ceiling_mono [of 0 "amt q * 1000"]
    by (simp_all add: ceiling_le_iff)
  then have v: "q_value E q = \<lceil>amt q\<rceil>" "q_milli_value E q = \<lceil>amt q * 1000\<rceil>"
    and r: "0 \<le> q_value E q" "q_value E q < 2 ^ 53" "0 \<le> q_milli_value E q" "q_milli_value E q < 2 ^ 53"
    using assms q_value_eq [OF assms(1,2)] q_milli_value_eq [OF assms(1,2)] by (simp_all add: in_int64_def)
  have s: "amt q \<le> of_int (q_value E q)" "amt q * 1000 \<le> of_int (q_milli_value E q)"
    unfolding v by simp_all
  have "(of_int (q_value E q) :: rat) \<le> of_int (to_i64 (f2i64 E) (fceil (fdiv (fmul (of_i64 (q_value E q)) (of_i64 110)) (of_i64 ?t))))"
    "(of_int (q_milli_value E q) :: rat) \<le> of_int (to_i64 (f2i64 E) (fceil (fdiv (fmul (of_i64 (q_milli_value E q)) (of_i64 110)) (of_i64 ?t))))"
    using overhead_scale_ge [OF r(1,2) overhead_target_range] overhead_scale_ge [OF r(3,4) overhead_target_range]
    by (simp_all only: of_int_le_iff)
  with s assms(1) show ?thesis
    by (auto simp: applyOverhead_def Let_def q_simps pos_le_divide_eq simp del: fceil.simps)
qed

theorem applyOverhead_ge_witness:
  "fst ((2, DecimalSI) :: fixed) \<le> fst (fst (applyOverhead fixed_env (2, DecimalSI) 80))"
  by (rule applyOverhead_ge [OF fixed_env_laws]) simp_all

lemma replica_factor_range:
  assumes "0 < current" "current < 2 ^ 31" "0 < target" "target < 2 ^ 31"
  obtains f where "replica_factor current target = Fin f" "1 / 2 \<le> f" "f \<le> 2"
proof -
  have i: "of_i64 current = Fin (of_int current)" "of_i64 target = Fin (of_int target)"
    using assms of_i64_exact [of current] of_i64_exact [of target] by simp_all
  have "(of_int current :: rat) \<le> of_int (2 ^ 31)" "(1::rat) \<le> of_int target"
    using assms by simp_all
  then have "of_int current / of_int target \<le> (2 ^ 31 / 1 :: rat)" using assms by (intro frac_le) simp_all
  then have "fdiv (of_i64 current) (of_i64 target) = Fin (flr (of_int current / of_int target))"
    using assms unfolding i by (simp add: fround_Fin [where k = 31] abs_le_iff)
  then show ?thesis
    using that [of "min (max (flr (of_int current / of_int target)) (1 / 2)) 2"]
    by (simp add: replica_factor_def fmin_def fmax_def min_def max_def)
qed

text \<open>The replica-budget correction at most halves or doubles a request: for replica counts of
  the API's type, a request of whole millicores below \<open>2 ^ 52\<close> comes back as one between its half
  and its double.\<close>

theorem applyReplicaCorrection_bounds:
  assumes "quantity_laws E amt" "in_int32 current" "in_int32 minR" "in_int32 maxR"
    and "amt q = of_int m / 1000" "0 \<le> m" "m < 2 ^ 52"
  shows "amt q / 2 \<le> amt (fst (applyReplicaCorrection E q anchor current minR maxR)) \<and>
         amt (fst (applyReplicaCorrection E q anchor current minR maxR)) \<le> 2 * amt q"
proof -
  let ?target = "replica_target E anchor minR maxR"
  have mv: "q_milli_value E q = m"
    using assms q_milli_value_eq [OF assms(1), of q] by (simp add: in_int64_def)
  have pos: "0 \<le> (of_int m :: rat)" using assms by simp
  show ?thesis
  proof (cases "maxR \<le> minR \<or> current \<le> 0 \<or> ?target \<le> 0")
    case True
    then show ?thesis using assms(5) pos by (auto simp: applyReplicaCorrection_def Let_def)
  next
    case False
    have t: "?target < 2 ^ 31"
      using assms(4) by (simp add: replica_target_def Let_def in_int32_def min_def)
    obtain f where f: "replica_factor current ?target = Fin f" "1 / 2 \<le> f" "f \<le> 2"
      using replica_factor_range [of current ?target] False assms(2) t by (auto simp: in_int32_def)
    let ?y = "flr (of_int m * f)"
    have m: "of_i64 m = Fin (of_int m)" using assms of_i64_exact [of m] by simp
    have b: "of_int m * (1 / 2) \<le> of_int m * f" "of_int m * f \<le> of_int m * 2"
      using mult_left_mono [OF f(2) pos] mult_left_mono [OF f(3) pos] by simp_all
    have "(of_int m :: rat) < of_int (2 ^ 52)" using assms(7) by (subst of_int_less_iff)
    then have big: "(of_int m :: rat) < 2 ^ 52" by simp
    have lo: "of_int m / 2 \<le> ?y"
      using b(1) flr_exact [of m "- 1"] assms by (intro flr_ge_exact) (simp_all add: power_int_minus)
    have hi: "?y \<le> of_int (2 * m)"
      using b(2) assms by (intro flr_le_int) simp_all
    have "fmul (of_i64 m) (replica_factor current ?target) = Fin ?y"
      using b big pos f unfolding m f(1) by (simp add: fround_Fin [where k = 53] abs_le_iff)
    moreover have "in_int64 \<lceil>?y\<rceil>" using lo hi big pos by (intro ceiling_in_int64) simp_all
    ultimately have r: "fst (applyReplicaCorrection E q anchor current minR maxR) =
        new_milli_quantity E \<lceil>?y\<rceil> (q_format E q)"
      using False by (simp add: applyReplicaCorrection_def Let_def mv to_i64_fceil
          del: fceil.simps to_i64.simps)
    have "\<lceil>?y\<rceil> \<le> 2 * m" using hi by (rule ceiling_le)
    then have "(of_int \<lceil>?y\<rceil> :: rat) \<le> of_int (2 * m)" by (subst of_int_le_iff)
    moreover have "of_int m / 2 \<le> (of_int \<lceil>?y\<rceil> :: rat)" using lo le_of_int_ceiling order.trans by blast
    ultimately show ?thesis using assms(1,5) unfolding r by (simp add: q_simps)
  qed
qed

theorem applyReplicaCorrection_bounds_witness:
  "fst (fst (applyReplicaCorrection fixed_env (1, DecimalSI) (Fin (1 / 10)) 8 2 20)) \<le> 2"
  using applyReplicaCorrection_bounds [OF fixed_env_laws, of 8 2 20 "(1, DecimalSI)" 1000 "Fin (1 / 10)"]
  by (simp add: in_int32_def)

section \<open>The OOM floor\<close>

lemma withHeadroom_memory_covers:
  assumes "quantity_laws E amt" "0 \<le> x" "x < 2 ^ 42" "headroom_ok h"
  shows "of_int \<lfloor>x\<rfloor> \<le> amt (withHeadroom E memoryResource (Fin x) h)"
    and "amt (withHeadroom E memoryResource (Fin x) h) \<le> 2 ^ 43"
proof -
  have x: "\<lfloor>x\<rfloor> < 2 ^ 42" "0 \<le> \<lfloor>x\<rfloor>" using assms by (simp_all add: floor_less_iff)
  let ?b = "headroom_bytes \<lfloor>x\<rfloor> h"
  have lo: "\<lfloor>x\<rfloor> \<le> ?b" using headroom_bytes_mono(1) [of "\<lfloor>x\<rfloor>" "\<lfloor>x\<rfloor>" h] x assms(4) by simp
  have hi: "?b \<le> 2 * \<lfloor>x\<rfloor>"
  proof -
    have "wrap64 (\<lfloor>x\<rfloor> * wrap32 (100 + n)) = \<lfloor>x\<rfloor> * (100 + n)" if "0 < n" "n \<le> 100" for n
    proof -
      have "\<lfloor>x\<rfloor> * (100 + n) \<le> 2 ^ 42 * 200" using x that by (intro mult_mono) simp_all
      then show ?thesis
        using x that by (auto intro!: wrap64_id in_int64_nonneg simp: wrap32_id in_int32_def)
    qed
    moreover have "\<lfloor>x\<rfloor> * (100 + n) div 100 \<le> 2 * \<lfloor>x\<rfloor>" if "n \<le> 100" for n
    proof -
      have "\<lfloor>x\<rfloor> * (100 + n) \<le> \<lfloor>x\<rfloor> * 200" using x that by (intro mult_left_mono) simp_all
      then show ?thesis by linarith
    qed
    ultimately show ?thesis
      using x assms(4) by (auto simp: headroom_bytes_def headroom_ok_def go_div_nonneg split: option.splits)
  qed
  have w: "withHeadroom E memoryResource (Fin x) h = new_quantity E (whole_mib ?b * mebibyte) BinarySI"
    using assms floor_to_i64 [of x] by (simp add: withHeadroom_memory del: to_i64.simps)
  have "(2::int) ^ 43 = 2 * 2 ^ 42" by simp
  then have b: "0 \<le> ?b" "?b \<le> 2 ^ 43" using lo hi x by linarith+
  then have "?b \<le> whole_mib ?b * mebibyte" by (intro whole_mib_covers) simp_all
  with lo have "\<lfloor>x\<rfloor> \<le> whole_mib ?b * mebibyte" by linarith
  then have "(of_int \<lfloor>x\<rfloor> :: rat) \<le> of_int (whole_mib ?b * mebibyte)" by (subst of_int_le_iff)
  then show "of_int \<lfloor>x\<rfloor> \<le> amt (withHeadroom E memoryResource (Fin x) h)"
    using assms(1) unfolding w by (simp add: q_simps)
  have "whole_mib ?b * mebibyte \<le> 2 ^ 43"
    using b zdiv_mono1 [of "?b + mebibyte - 1" "2 ^ 43 + mebibyte - 1" mebibyte]
    by (simp add: whole_mib_eq max_def)
  then have "(of_int (whole_mib ?b * mebibyte) :: rat) \<le> of_int (2 ^ 43)" by (subst of_int_le_iff)
  then show "amt (withHeadroom E memoryResource (Fin x) h) \<le> 2 ^ 43"
    using assms(1) unfolding w by (simp add: q_simps)
qed

lemma coordinate_memory_scaled:
  "coordinate E q memoryResource cfg info rr = Some co \<Longrightarrow>
   \<exists>target. cd_scaled co = fst (applyOverhead E q target)"
  by (auto simp: coordinate_def Let_def split: if_splits prod.splits option.splits) (metis fst_conv)+

text \<open>Coordination never takes a memory request below the one it shapes, short of the maximum.\<close>

lemma final_memory_request_ge:
  assumes "quantity_laws E amt" "0 < amt q" "amt q \<le> 2 ^ 43"
    and "rr = rc_Requests (res_config memoryResource (rq_resources req))"
    and "\<And>b. MinAllowed rr = Some b \<or> MaxAllowed rr = Some b \<Longrightarrow> 0 \<le> amt b \<and> amt b \<le> 2 ^ 43"
  shows "amt q \<le> amt (final_request E memoryResource req q) \<or>
         (\<exists>M. MaxAllowed rr = Some M \<and> amt (final_request E memoryResource req q) = amt M)"
proof -
  let ?c = "clamp E q (MinAllowed rr) (MaxAllowed rr)"
  have c: "amt q \<le> amt ?c \<or> MaxAllowed rr = Some ?c" using clamp_ge_or_max [OF assms(1)] .
  have cb: "0 \<le> amt ?c" "amt ?c \<le> 2 ^ 43"
    using assms(2,3,5) by (auto simp: clamp_def clamp_max_def clamp_min_def split: option.splits)
  show ?thesis
  proof (cases "coordinate E ?c memoryResource (rq_coordination req) (rq_autoInfo req) rr")
    case None
    then show ?thesis using c assms(4) by (auto simp: final_request_def Let_def)
  next
    case (Some co)
    let ?v = "clamp E (cd_scaled co) (MinAllowed rr) (MaxAllowed rr)"
    have v: "final_request E memoryResource req q = ?v"
      using Some coordinate_clamped [OF Some] assms(4) by (simp add: final_request_def Let_def)
    have "amt ?c \<le> amt (cd_scaled co)"
      using coordinate_memory_scaled [OF Some] applyOverhead_ge [OF assms(1) cb] by auto
    moreover have "amt (cd_scaled co) \<le> amt ?v \<or> MaxAllowed rr = Some ?v"
      using clamp_ge_or_max [OF assms(1)] .
    ultimately show ?thesis
      using c clamp_le_max [OF assms(1), of "cd_scaled co" "MinAllowed rr" ?c] unfolding v by fastforce
  qed
qed

text \<open>The combined memory value of a recently killed container is at least its floor.\<close>

lemma memory_value_ge_floor:
  assumes "oom_recent (oom_of (rq_inputs req) (c_Name c))" "fst (oom_floor (oom_of (rq_inputs req) (c_Name c))) = Fin f"
    and "0 \<le> f" "f < B"
    and "\<And>v. map_of (usage_values_of (rq_inputs req) memoryUsage) (c_Name c) = Some v \<Longrightarrow> \<exists>u. v = Fin u \<and> u < B"
  obtains x where "fst (requestOf (request_contributions req memoryResource c)) = Fin x" "f \<le> x" "x < B"
proof (cases "map_of (usage_values_of (rq_inputs req) memoryUsage) (c_Name c)")
  case None
  with assms(1-3) have "fst (requestOf (request_contributions req memoryResource c)) = Fin f"
    by (auto simp: request_contributions_eq opt_list_def requestOf_def oom_contribution_def memoryUsage_def)
  with that assms(4) show ?thesis by simp
next
  case (Some v)
  then obtain u where u: "v = Fin u" "u < B" using assms(5) by blast
  with Some assms(1,2) have "fst (requestOf (request_contributions req memoryResource c)) = Fin (max u f)"
    by (auto simp: request_contributions_eq opt_list_def requestOf_def oom_contribution_def
        usage_contribution_def memoryUsage_def max_def)
  with that u(2) assms(4) show ?thesis by simp
qed

text \<open>C3. A recently OOM-killed container gets at least the floor of its kills as memory request,
  usage, headroom, the minimum and autoscaler coordination notwithstanding; only \<open>maxAllowed\<close> can
  hold it lower, and then the request is exactly that. Sizes up to \<open>2 ^ 42\<close> bytes.\<close>

theorem oom_floor_honoured:
  assumes "quantity_laws E amt" "size_of_resource E memoryResource c req = (Some s, ok)"
    and "oom_recent (oom_of (rq_inputs req) (c_Name c))"
    and "fst (oom_floor (oom_of (rq_inputs req) (c_Name c))) = Fin f" "0 \<le> f" "f < 2 ^ 42"
    and "\<And>v. map_of (usage_values_of (rq_inputs req) memoryUsage) (c_Name c) = Some v \<Longrightarrow> \<exists>u. v = Fin u \<and> u < 2 ^ 42"
    and "rr = rc_Requests (rs_Memory (rq_resources req))" "headroom_ok (Headroom rr)"
    and "\<And>b. MinAllowed rr = Some b \<or> MaxAllowed rr = Some b \<Longrightarrow> 0 \<le> amt b \<and> amt b \<le> 2 ^ 43"
  shows "of_int \<lfloor>f\<rfloor> \<le> amt (sz_request s) \<or>
         (\<exists>M. MaxAllowed rr = Some M \<and> amt (sz_request s) = amt M)"
proof -
  have rr: "rc_Requests (res_config memoryResource (rq_resources req)) = rr"
    using assms(8) by (simp add: res_config_def)
  obtain x where x: "fst (requestOf (request_contributions req memoryResource c)) = Fin x" "f \<le> x" "x < 2 ^ 42"
    using memory_value_ge_floor [OF assms(3-7)] by blast
  let ?q = "withHeadroom E memoryResource (Fin x) (Headroom rr)"
  have s: "sz_request s = final_request E memoryResource req ?q"
    using size_of_resource_Some(4) [OF assms(2)] x(1) rr by simp
  have x0: "0 \<le> x" using assms(5) x(2) by simp
  have "(of_int \<lfloor>f\<rfloor> :: rat) \<le> of_int \<lfloor>x\<rfloor>" using x(2) by (simp add: floor_mono)
  also have "\<dots> \<le> amt ?q" using withHeadroom_memory_covers(1) [OF assms(1) x0 x(3) assms(9)] .
  finally have "of_int \<lfloor>f\<rfloor> \<le> amt ?q" .
  moreover have "amt ?q \<le> amt (sz_request s) \<or> (\<exists>M. MaxAllowed rr = Some M \<and> amt (sz_request s) = amt M)"
    unfolding s using withHeadroom_pos [OF assms(1)]
      withHeadroom_memory_covers(2) [OF assms(1) x0 x(3) assms(9)] assms(10)
    by (intro final_memory_request_ge [OF assms(1)]) (auto simp: rr)
  ultimately show ?thesis by (meson order.trans)
qed

section \<open>The trace\<close>

lemma request_loop_winner:
  assumes "request_loop cs (int (length pre)) (v, w) = (v', w')"
    and "0 \<le> w \<longrightarrow> nat w < length pre \<and> v = cb_value (pre ! nat w)"
  shows "0 \<le> w' \<longrightarrow> v' = cb_value ((pre @ cs) ! nat w')"
  using assms
proof (induction cs arbitrary: pre v w)
  case (Cons ct cs)
  define vw where "vw = (if flt v (cb_value ct) \<or> (cb_role ct = Base \<and> w < 0)
                           then (cb_value ct, int (length pre)) else (v, w))"
  have "request_loop cs (int (length (pre @ [ct]))) (fst vw, snd vw) = (v', w')"
    using Cons.prems(1) by (simp add: vw_def add.commute)
  moreover have "0 \<le> snd vw \<longrightarrow> nat (snd vw) < length (pre @ [ct]) \<and> fst vw = cb_value ((pre @ [ct]) ! nat (snd vw))"
    using Cons.prems(2) by (auto simp: vw_def nth_append)
  ultimately show ?case using Cons.IH by fastforce
qed (auto simp: nth_append)

lemma requestOf_winner: "snd (requestOf cs) = int i \<Longrightarrow> fst (requestOf cs) = cb_value (cs ! i)"
  using request_loop_winner [of cs "[]" "Fin 0" "- 1" "fst (requestOf cs)" "snd (requestOf cs)"]
  unfolding requestOf_def by (metis append_Nil length_0_conv nat_int of_nat_0 of_nat_0_le_iff
      prod.collapse neg_0_le_iff_le not_one_le_zero)

text \<open>The winner the trace is written with: none when an operator bound replaced its value.\<close>

definition traced_winner :: "'q env \<Rightarrow> resource_kind \<Rightarrow> 'q container \<Rightarrow> 'q request \<Rightarrow> int" where
  "traced_winner E res c req =
     (let rr = rc_Requests (res_config res (rq_resources req));
          (v, winner) = requestOf (request_contributions req res c);
          headroom = withHeadroom E res v (Headroom rr);
          clamped = clamp E headroom (MinAllowed rr) (MaxAllowed rr)
      in if q_cmp E clamped headroom \<noteq> 0 \<or>
            (case coordinate E clamped res (rq_coordination req) (rq_autoInfo req) rr of
               Some co \<Rightarrow> q_cmp E (cd_value co) (cd_scaled co) \<noteq> 0 | None \<Rightarrow> False)
         then - 1 else winner)"

lemma size_trace_request:
  assumes "size_of_resource E res c req = (Some s, ok)"
  obtains tail where
    "rt_Request (sz_trace s) =
       stagesOf E (request_contributions req res c) (stage_context req res c) (traced_winner E res c req) @ tail"
    "tail \<noteq> []" "ts_Value (last tail) = Some (sz_request s)"
    "\<forall>st\<in>set tail. ts_Stage st \<in> {''headroom'', ''clamp'', ''coordination''}"
proof -
  let ?rr = "rc_Requests (res_config res (rq_resources req))"
  define h where "h = withHeadroom E res (fst (requestOf (request_contributions req res c))) (Headroom ?rr)"
  define q where "q = clamp E h (MinAllowed ?rr) (MaxAllowed ?rr)"
  define co where "co = coordinate E q res (rq_coordination req) (rq_autoInfo req) ?rr"
  define tail where "tail = [quantityStage ''headroom'' h, quantityStage ''clamp'' q] @
     (case co of Some c' \<Rightarrow> [coordinated_stage E c'] | None \<Rightarrow> [])"
  have s: "sz_request s = (case co of Some c' \<Rightarrow> cd_value c' | None \<Rightarrow> q)"
    unfolding size_of_resource_Some(4) [OF assms] final_request_def Let_def co_def q_def h_def
    by (simp split: option.split)
  have "rt_Request (sz_trace s) = stagesOf E (request_contributions req res c) (stage_context req res c)
          (traced_winner E res c req) @ tail"
    using assms
    by (auto simp: size_of_resource_def traced_winner_def tail_def h_def q_def co_def Let_def
        split: prod.splits option.splits if_splits)
  then show ?thesis
    using that [of tail] s
    by (auto simp: tail_def quantityStage_def coordinated_stage_def Let_def split: option.splits)
qed

text \<open>The trace tells the truth about the request: its last request stage holds the recommended
  request, and when the OOM floor's stage says it determined the request, then, with autoscaler
  coordination off, the request is exactly the floor with headroom.\<close>

theorem trace_truthful:
  assumes "quantity_laws E amt" "size_of_resource E memoryResource c req = (Some s, ok)"
    and "\<not> ac_Enabled (rq_coordination req)"
  shows "ts_Value (last (rt_Request (sz_trace s))) = Some (sz_request s) \<and>
         (\<forall>st\<in>set (rt_Request (sz_trace s)).
            ts_Stage st = ''oomFloor'' \<and> map_of (ts_Facts st) ''determined'' = Some (FStr ''true'') \<longrightarrow>
            amt (sz_request s) =
              amt (withHeadroom E memoryResource (fst (oom_floor (oom_of (rq_inputs req) (c_Name c))))
                     (Headroom (rc_Requests (rs_Memory (rq_resources req))))))"
proof (intro conjI ballI impI)
  obtain tail where t: "rt_Request (sz_trace s) =
      stagesOf E (request_contributions req memoryResource c) (stage_context req memoryResource c)
        (traced_winner E memoryResource c req) @ tail"
    "tail \<noteq> []" "ts_Value (last tail) = Some (sz_request s)"
    "\<forall>st\<in>set tail. ts_Stage st \<in> {''headroom'', ''clamp'', ''coordination''}"
    using size_trace_request [OF assms(2)] .
  then show "ts_Value (last (rt_Request (sz_trace s))) = Some (sz_request s)" by simp
  fix st assume st: "st \<in> set (rt_Request (sz_trace s))"
    "ts_Stage st = ''oomFloor'' \<and> map_of (ts_Facts st) ''determined'' = Some (FStr ''true'')"
  let ?cs = "request_contributions req memoryResource c"
  let ?o = "oom_of (rq_inputs req) (c_Name c)"
  have "st \<in> set (stagesOf E ?cs (stage_context req memoryResource c) (traced_winner E memoryResource c req))"
    using st t by auto
  then obtain i where i: "i < length ?cs"
    "st = sig_stage E (cb_signal (?cs ! i)) (stage_context req memoryResource c) (cb_value (?cs ! i))
            (int i = traced_winner E memoryResource c req)"
    by (auto simp: stagesOf_def in_set_enumerate_eq)
  have oom: "cb_signal (?cs ! i) = OomFloor"
    using st(2) i(2) by (cases "cb_signal (?cs ! i)") auto
  then have w: "int i = traced_winner E memoryResource c req"
    using st(2) i(2) by (auto simp: oom_facts_def Let_def format_bool_def split: if_splits)
  have cs: "cb_value (?cs ! i) = fst (oom_floor ?o)"
    using oom i(1)
    by (auto simp: request_contributions_eq opt_list_def oom_contribution_def usage_contribution_def
        nth_append less_Suc_eq split: option.splits if_splits)
  have off: "coordinate E q memoryResource (rq_coordination req) info rr = None" for q info rr
    using assms(3) by (simp add: coordinate_def)
  let ?rr = "rc_Requests (rs_Memory (rq_resources req))"
  let ?h = "withHeadroom E memoryResource (fst (requestOf ?cs)) (Headroom ?rr)"
  have rr: "res_config memoryResource (rq_resources req) = rs_Memory (rq_resources req)"
    by (simp add: res_config_def)
  have "snd (requestOf ?cs) = int i" "q_cmp E (clamp E ?h (MinAllowed ?rr) (MaxAllowed ?rr)) ?h = 0"
    using w by (auto simp: traced_winner_def rr off Let_def case_prod_unfold split: if_splits)
  then show "amt (sz_request s) = amt (withHeadroom E memoryResource (fst (oom_floor ?o)) (Headroom ?rr))"
    using size_of_resource_Some(4) [OF assms(2)] requestOf_winner [of ?cs i] cs assms(1)
    by (simp add: final_request_def rr off Let_def q_cmp_eq_iff)
qed

section \<open>Defaults\<close>

lemma res_config_WithDefaults:
  "res_config res (WithDefaults E cfg) = default_resource E (res_config res cfg)"
  by (simp add: res_config_def WithDefaults_def)

lemma default_requests [simp]:
  "MinAllowed (rc_Requests (default_resource E rc)) = MinAllowed (rc_Requests rc)"
  "MaxAllowed (rc_Requests (default_resource E rc)) = MaxAllowed (rc_Requests rc)"
  "KeepRequest (rc_Requests (default_resource E rc)) = KeepRequest (rc_Requests rc)"
  by (simp_all add: default_resource_def Let_def)

lemma withHeadroom_zero: "withHeadroom E res v (Some 0) = withHeadroom E res v None"
  by (simp add: withHeadroom_def milli_cores_def headroom_bytes_def Let_def)

lemma default_headroom:
  "withHeadroom E res v (Headroom (rc_Requests (default_resource E rc))) =
   withHeadroom E res v (Headroom (rc_Requests rc))"
  by (simp add: default_resource_def Let_def withHeadroom_zero split: option.splits)

lemma strategyOf_default:
  "strategyOf E (rc_Limits (default_resource E rc)) = strategyOf E (rc_Limits rc)"
  by (auto simp: default_resource_def Let_def strategyOf_cases limitStrategies_def)

lemma limits_default:
  "rc_Limits (default_resource E rc) =
     (if st_name (strategyOf E (rc_Limits rc)) = ''keepLimit''
      then (rc_Limits rc)\<lparr>KeepLimit := True\<rparr> else rc_Limits rc)"
  by (simp add: default_resource_def Let_def)

lemma strategy_limit_default:
  "st_limit (strategyOf E (rc_Limits rc)) \<lparr> lb_res = res, lb_request = q, lb_current = cur,
     lb_cfg = rc_Limits (default_resource E rc) \<rparr> =
   st_limit (strategyOf E (rc_Limits rc)) \<lparr> lb_res = res, lb_request = q, lb_current = cur,
     lb_cfg = rc_Limits rc \<rparr>"
  unfolding limits_default
  by (auto simp: strategyOf_cases limitStrategies_def ownLimit_def)

lemma sig_stage_config: "sig_stage E s (sc\<lparr>sc_config := x\<rparr>) v d = sig_stage E s sc v d"
  by (cases s) simp_all

lemma contribute_config: "contribute s (sc\<lparr>sc_config := x\<rparr>) = contribute s sc"
  by (cases s) simp_all

lemma contributionsTo_config: "contributionsTo (sc\<lparr>sc_config := x\<rparr>) res roles = contributionsTo sc res roles"
  by (simp add: contributionsTo_def contribute_config)

lemma stagesOf_config: "stagesOf E cs (sc\<lparr>sc_config := x\<rparr>) d = stagesOf E cs sc d"
  by (simp add: stagesOf_def sig_stage_config)

lemma limitChain_default:
  "limitChain E res (sc\<lparr>sc_config := default_resource E (sc_config sc)\<rparr>) q = limitChain E res sc q"
  by (simp add: limitChain_def strategyOf_default strategy_limit_default stagesOf_config Let_def
      cong: prod.case_cong)

text \<open>The computation with the defaults made explicit, as \<open>Assemble\<close> hands it to \<open>Compute\<close>.\<close>

definition with_defaults :: "'q env \<Rightarrow> 'q request \<Rightarrow> 'q request" where
  "with_defaults E req = req\<lparr>rq_resources := WithDefaults E (rq_resources req)\<rparr>"

lemma with_defaults_simps [simp]:
  "rq_resources (with_defaults E req) = WithDefaults E (rq_resources req)"
  "rq_coordination (with_defaults E req) = rq_coordination req"
  "rq_autoInfo (with_defaults E req) = rq_autoInfo req"
  "rq_inputs (with_defaults E req) = rq_inputs req"
  "rq_containers (with_defaults E req) = rq_containers req"
  "rq_since (with_defaults E req) = rq_since req"
  "rq_now (with_defaults E req) = rq_now req"
  by (simp_all add: with_defaults_def)

lemma stage_context_default:
  "stage_context (with_defaults E req) res c =
   (stage_context req res c)\<lparr>sc_config := default_resource E (sc_config (stage_context req res c))\<rparr>"
  by (simp add: stage_context_def res_config_WithDefaults)

lemma chain_default:
  "contributionsTo (stage_context (with_defaults E req) res c) = contributionsTo (stage_context req res c)"
  "stagesOf E cs (stage_context (with_defaults E req) res c) = stagesOf E cs (stage_context req res c)"
  by (simp_all add: stage_context_default contributionsTo_config stagesOf_config fun_eq_iff)

lemma limitChain_with_defaults:
  "limitChain E res ((stage_context (with_defaults E req) res c)\<lparr>sc_request := x\<rparr>) q =
   limitChain E res ((stage_context req res c)\<lparr>sc_request := x\<rparr>) q"
  using limitChain_default [of E res "(stage_context req res c)\<lparr>sc_request := x\<rparr>" q]
  by (simp add: stage_context_def res_config_WithDefaults)

lemma coordinate_default:
  "coordinate E q res cfg info (rc_Requests (default_resource E rc)) = coordinate E q res cfg info (rc_Requests rc)"
  by (simp add: coordinate_def)

lemma size_default: "size_of_resource E res c (with_defaults E req) = size_of_resource E res c req"
  unfolding size_of_resource_def
  by (simp only: chain_default limitChain_with_defaults with_defaults_simps res_config_WithDefaults default_headroom
      coordinate_default default_requests Let_def)

definition default_requests_of :: "'q resource_requests_config \<Rightarrow> 'q resource_requests_config" where
  "default_requests_of rq =
     (if KeepRequest rq then rq
      else rq\<lparr>Percentile := (case Percentile rq of None \<Rightarrow> Some 95 | p \<Rightarrow> p),
             Headroom := (case Headroom rq of None \<Rightarrow> Some 0 | h \<Rightarrow> h)\<rparr>)"

definition default_limits_of :: "'q env \<Rightarrow> resource_limits_config \<Rightarrow> resource_limits_config" where
  "default_limits_of E l =
     (if st_name (strategyOf E l) = ''keepLimit'' then l\<lparr>KeepLimit := True\<rparr> else l)"

lemma default_resource_eq:
  "default_resource E rc =
     rc\<lparr>Window := ResourceWindow (Window rc), rc_Requests := default_requests_of (rc_Requests rc),
        rc_Limits := default_limits_of E (rc_Limits rc)\<rparr>"
  by (simp add: default_resource_def default_requests_of_def default_limits_of_def Let_def)

lemma default_resource_idem: "default_resource E (default_resource E rc) = default_resource E rc"
proof -
  have "ResourceWindow (ResourceWindow w) = ResourceWindow w" for w
    by (simp add: ResourceWindow_def)
  moreover have "default_requests_of (default_requests_of rq) = default_requests_of rq" for rq :: "'a resource_requests_config"
    by (simp add: default_requests_of_def split: option.split)
  moreover have "default_limits_of E (default_limits_of E l) = default_limits_of E l" for l
    by (simp add: default_limits_of_def)
  ultimately show ?thesis by (simp add: default_resource_eq)
qed

text \<open>Making the defaults explicit changes no Recommendation: a computation under the Policy's
  settings and one under \<open>WithDefaults\<close> of them have the same outcome, the same requests and limits
  and the same trace, and applying the defaults twice is applying them once.\<close>

theorem defaults_change_nothing:
  "Compute E (with_defaults E req) = Compute E req \<and>
   WithDefaults E (WithDefaults E cfg) = WithDefaults E cfg"
proof
  have "computeContainer E c (with_defaults E req) = computeContainer E c req" for c
    unfolding computeContainer_def size_default ..
  then have "compute_step E (with_defaults E req) = compute_step E req"
    by (simp add: compute_step_def fun_eq_iff)
  then show "Compute E (with_defaults E req) = Compute E req" by (simp add: Compute_def)
  show "WithDefaults E (WithDefaults E cfg) = WithDefaults E cfg"
    by (simp add: WithDefaults_def default_resource_idem)
qed

section \<open>An example\<close>

text \<open>A container killed once at its limit of 128Mi, using 50Mi, under a Policy with 10% headroom and
  bounds of 32Mi and 1Gi whose limits are twice the requests.\<close>

definition ex_container :: "fixed container" where
  "ex_container =
     \<lparr> c_Name = ''app'',
       c_Resources = \<lparr> Requests = [(''memory'', (67108864, BinarySI))],
                       Limits = [(''memory'', (134217728, BinarySI))] \<rparr>,
       c_RestartPolicy = None \<rparr>"

definition ex_resource :: "fixed resource_config" where
  "ex_resource =
     \<lparr> Window = [], rc_Requests = \<lparr> Headroom = Some 10, KeepRequest = False,
         MaxAllowed = Some (1073741824, BinarySI), MinAllowed = Some (33554432, BinarySI), Percentile = None \<rparr>,
       rc_Limits = \<lparr> EqualsToRequest = False, KeepLimit = False, KeepLimitRequestRatio = False,
         NoLimit = False, RequestsLimitsRatio = Some (Fin 2) \<rparr>, DownsizeThreshold = None \<rparr>"

definition ex_oom :: oom where
  "ex_oom = zero_oom\<lparr>Kills := Fin 1, HasPeak := True, PeakBytes := Fin 134217728\<rparr>"

definition ex_request :: "fixed request" where
  "ex_request =
     \<lparr> rq_containers = [ex_container],
       rq_resources = \<lparr> rs_CPU = ex_resource, rs_Memory = ex_resource \<rparr>,
       rq_coordination = \<lparr> ac_Enabled = False, ReplicaBudgetAnchor = None \<rparr>,
       rq_autoInfo = \<lparr> ai_Kind = KindNone, ai_Namespace = [], ai_Name = [], MinReplicas = 0, MaxReplicas = 0,
         CurrentReplicas = 0, ConfiguredTargets = [], HasUnknownTrigger = False \<rparr>,
       rq_inputs = [(''memory'', UsageValues [(''app'', Fin 52428800)]), (''oom'', OomValues [(''app'', ex_oom)])],
       rq_since = 0, rq_now = 1 \<rparr>"

lemma size_of_resource_exists:
  assumes "list_ex (\<lambda>ct. co_anchors (cb_contribution ct)) (request_contributions req res c)"
    "\<not> KeepRequest (rc_Requests (res_config res (rq_resources req)))"
  shows "\<exists>s. size_of_resource E res c req = (Some s, True)"
  using assms by (auto simp: size_of_resource_def Let_def split: prod.splits option.splits)

lemma ex_sizing: "\<exists>s. size_of_resource fixed_env memoryResource ex_container ex_request = (Some s, True)"
  by (rule size_of_resource_exists)
     (simp_all add: justified_iff ex_request_def ex_container_def ex_resource_def res_config_def
        usage_values_of_def)

lemma ex_oom_facts:
  "oom_of (rq_inputs ex_request) (c_Name ex_container) = ex_oom" "oom_recent ex_oom"
  "oom_floor ex_oom = (Fin 134217728, ''peak'')"
  by (simp_all add: oom_of_def oom_values_of_def lookup_or_def ex_request_def ex_container_def ex_oom_def
      oom_recent_def oom_floor_def zero_oom_def oomBumpFactor_def)

theorem request_within_bounds_witness:
  "\<exists>s. size_of_resource fixed_env memoryResource ex_container ex_request = (Some s, True) \<and>
       33554432 \<le> fst (sz_request s) \<and> fst (sz_request s) \<le> 1073741824"
proof -
  obtain s where s: "size_of_resource fixed_env memoryResource ex_container ex_request = (Some s, True)"
    using ex_sizing by blast
  have "MaxAllowed (rc_Requests (res_config memoryResource (rq_resources ex_request))) = Some (1073741824, BinarySI)"
    "MinAllowed (rc_Requests (res_config memoryResource (rq_resources ex_request))) = Some (33554432, BinarySI)"
    by (simp_all add: ex_request_def ex_resource_def res_config_def)
  then show ?thesis using s request_within_bounds [OF fixed_env_laws s refl] by simp
qed

theorem limit_not_below_request_witness:
  "\<exists>s. size_of_resource fixed_env memoryResource ex_container ex_request = (Some s, True) \<and>
       (\<forall>l. l_value (sz_limit s) = Some l \<longrightarrow> fst (sz_request s) \<le> fst l)"
  using ex_sizing limit_not_below_request [OF fixed_env_laws, of memoryResource ex_container ex_request]
  by blast

theorem limit_by_strategy_witness:
  "\<exists>s q. size_of_resource fixed_env memoryResource ex_container ex_request = (Some s, True) \<and>
         limit_recommendation (sz_limit s) = (Some q, False)"
  using ex_sizing limit_by_strategy [OF fixed_env_laws, of memoryResource ex_container ex_request]
  by (fastforce simp: limit_spec_def ex_request_def ex_resource_def res_config_def)

theorem oom_floor_honoured_witness:
  "\<exists>s. size_of_resource fixed_env memoryResource ex_container ex_request = (Some s, True) \<and>
       (134217728 \<le> fst (sz_request s) \<or> fst (sz_request s) = 1073741824)"
proof -
  obtain s where s: "size_of_resource fixed_env memoryResource ex_container ex_request = (Some s, True)"
    using ex_sizing by blast
  let ?rr = "rc_Requests (rs_Memory (rq_resources ex_request))"
  have rr: "Headroom ?rr = Some 10" "MinAllowed ?rr = Some (33554432, BinarySI)" "MaxAllowed ?rr = Some (1073741824, BinarySI)"
    by (simp_all add: ex_request_def ex_resource_def)
  have u: "map_of (usage_values_of (rq_inputs ex_request) memoryUsage) (c_Name ex_container) = Some (Fin 52428800)"
    by (simp add: usage_values_of_def memoryUsage_def ex_request_def ex_container_def)
  have "of_int \<lfloor>134217728 :: rat\<rfloor> \<le> fst (sz_request s) \<or>
      (\<exists>M. MaxAllowed ?rr = Some M \<and> fst (sz_request s) = fst M)"
  proof (rule oom_floor_honoured [OF fixed_env_laws s _ _ _ _ _ refl])
    show "oom_recent (oom_of (rq_inputs ex_request) (c_Name ex_container))"
      "fst (oom_floor (oom_of (rq_inputs ex_request) (c_Name ex_container))) = Fin 134217728"
      by (simp_all only: ex_oom_facts fst_conv)
    show "\<exists>u. v = Fin u \<and> u < 2 ^ 42"
      if "map_of (usage_values_of (rq_inputs ex_request) memoryUsage) (c_Name ex_container) = Some v" for v
      using that unfolding u by auto
    show "headroom_ok (Headroom ?rr)" by (simp add: rr headroom_ok_def)
    show "0 \<le> fst b \<and> fst b \<le> 2 ^ 43" if "MinAllowed ?rr = Some b \<or> MaxAllowed ?rr = Some b" for b
      using that by (auto simp: rr)
  qed simp_all
  then show ?thesis using s by (auto simp: rr)
qed

theorem trace_truthful_witness:
  "\<exists>s. size_of_resource fixed_env memoryResource ex_container ex_request = (Some s, True) \<and>
       ts_Value (last (rt_Request (sz_trace s))) = Some (sz_request s)"
proof -
  obtain s where s: "size_of_resource fixed_env memoryResource ex_container ex_request = (Some s, True)"
    using ex_sizing by blast
  then show ?thesis
    using trace_truthful [OF fixed_env_laws s] by (auto simp: ex_request_def)
qed

theorem Compute_outcome_witness:
  "rs_Outcome (Compute fixed_env ex_request) = Recommended"
proof -
  have "computeContainer fixed_env ex_container ex_request \<noteq> None"
    using ex_sizing by (auto simp: computeContainer_None)
  then show ?thesis
    unfolding Compute_outcome by (simp add: ex_request_def [THEN arg_cong [where f = rq_since]]
        ex_request_def [THEN arg_cong [where f = rq_containers]])
qed

end
