(* ===== verification/Inject.thy ===== *)
theory Inject
  imports Api
begin

text \<open>
  Applying a Recommendation to the containers of a pod or a pod template
  (\<open>internal/workload/inject.go\<close>) and what that changes on a running pod under the Policy's downsize
  tolerance (\<open>internal/workload/match.go\<close>). A nil resource list is the empty map.
\<close>

section \<open>Injection\<close>

text \<open>\<open>ResourceList.Cpu()\<close> and \<open>Memory()\<close>: an absent value reads as zero.\<close>

definition rl_Cpu :: "'q env \<Rightarrow> 'q resource_list \<Rightarrow> 'q" where
  "rl_Cpu E rl = lookup_or (q_zero E DecimalSI) rl ResourceCPU"

definition rl_Memory :: "'q env \<Rightarrow> 'q resource_list \<Rightarrow> 'q" where
  "rl_Memory E rl = lookup_or (q_zero E BinarySI) rl ResourceMemory"

definition setQuantity :: "'q env \<Rightarrow> 'q resource_list \<Rightarrow> string \<Rightarrow> 'q option \<Rightarrow> 'q resource_list" where
  "setQuantity E list name q =
     (case q of
        None \<Rightarrow> list
      | Some v \<Rightarrow> if q_cmp E (lookup_or (q_zero E NoFormat) list name) v = 0 then list
                  else AList.update name v list)"

definition applyLimit ::
  "'q env \<Rightarrow> 'q resource_list \<Rightarrow> string \<Rightarrow> 'q option \<Rightarrow> bool \<Rightarrow> 'q resource_list" where
  "applyLimit E list name q remove =
     (if \<not> remove then setQuantity E list name q else AList.delete name list)"

definition requestsEqual :: "'q env \<Rightarrow> 'q resource_requirements \<Rightarrow> 'q resource_requirements \<Rightarrow> bool" where
  "requestsEqual E a b \<longleftrightarrow>
     q_cmp E (rl_Cpu E (Requests a)) (rl_Cpu E (Requests b)) = 0 \<and>
     q_cmp E (rl_Memory E (Requests a)) (rl_Memory E (Requests b)) = 0"

definition valueEqual :: "'q env \<Rightarrow> 'q resource_requirements \<Rightarrow> 'q resource_requirements \<Rightarrow> bool" where
  "valueEqual E a b \<longleftrightarrow> requestsEqual E a b \<and>
     q_cmp E (rl_Cpu E (Limits a)) (rl_Cpu E (Limits b)) = 0 \<and>
     q_cmp E (rl_Memory E (Limits a)) (rl_Memory E (Limits b)) = 0"

text \<open>One turn of the loop that raises a limit below its request.\<close>

definition raise_limit ::
  "'q env \<Rightarrow> string \<Rightarrow> 'q resource_requirements \<times> string list \<Rightarrow> 'q resource_requirements \<times> string list"
where
  "raise_limit E name st =
     (let (out, raised) = st
      in case (map_of (Requests out) name, map_of (Limits out) name) of
           (Some req, Some limit) \<Rightarrow>
             if q_greater E req limit
             then (out\<lparr>Limits := AList.update name req (Limits out)\<rparr>, raised @ [name])
             else (out, raised)
         | _ \<Rightarrow> (out, raised))"

text \<open>\<open>current\<close> with the recommendation set, before limits are raised.\<close>

definition set_recommended ::
  "'q env \<Rightarrow> 'q resource_requirements \<Rightarrow> 'q container_recommendation \<Rightarrow> 'q resource_requirements" where
  "set_recommended E current rec =
     (let o1 = current\<lparr>Requests := setQuantity E (Requests current) ResourceCPU (CPURequest rec)\<rparr>;
          o2 = o1\<lparr>Limits := applyLimit E (Limits o1) ResourceCPU (CPULimit rec) (RemoveCPULimit rec)\<rparr>;
          o3 = o2\<lparr>Requests := setQuantity E (Requests o2) ResourceMemory (MemoryRequest rec)\<rparr>
      in o3\<lparr>Limits := applyLimit E (Limits o3) ResourceMemory (MemoryLimit rec) (RemoveMemoryLimit rec)\<rparr>)"

definition applyTo ::
  "'q env \<Rightarrow> 'q resource_requirements \<Rightarrow> 'q container_recommendation \<Rightarrow>
   'q resource_requirements \<times> string list \<times> bool" where
  "applyTo E current rec =
     (let (out, raised) =
            raise_limit E ResourceMemory (raise_limit E ResourceCPU (set_recommended E current rec, []))
      in (out, raised, \<not> valueEqual E current out))"

record 'q container_write =
  cw_Name :: string
  cw_Init :: bool
  cw_Index :: nat
  cw_Resources :: "'q resource_requirements"
  cw_RaisedLimits :: "string list"

record 'q injection =
  inj_Recs :: "(string, 'q container_recommendation) gomap"
  inj_Writes :: "'q container_write list"

text \<open>The closure \<open>add\<close> of \<open>Inject\<close>, over the containers left, the next one at index \<open>i\<close>.\<close>

fun inject_add ::
  "'q env \<Rightarrow> (string, 'q container_recommendation) gomap \<Rightarrow> bool \<Rightarrow> nat \<Rightarrow> 'q container list \<Rightarrow>
   'q injection \<Rightarrow> 'q injection" where
  "inject_add E recs init i [] acc = acc"
| "inject_add E recs init i (c # cs) acc =
     inject_add E recs init (Suc i) cs
       (case map_of recs (c_Name c) of
          None \<Rightarrow> acc
        | Some rec \<Rightarrow>
            let (res, raised, changed) = applyTo E (c_Resources c) rec;
                acc' = acc\<lparr>inj_Recs := AList.update (c_Name c) rec (inj_Recs acc)\<rparr>
            in if changed
               then acc'\<lparr>inj_Writes := inj_Writes acc' @
                 [\<lparr> cw_Name = c_Name c, cw_Init = init, cw_Index = i, cw_Resources = res,
                    cw_RaisedLimits = raised \<rparr>]\<rparr>
               else acc')"

definition Inject ::
  "'q env \<Rightarrow> 'q container list \<Rightarrow> 'q container list \<Rightarrow> bool \<Rightarrow>
   (string, 'q container_recommendation) gomap \<Rightarrow> 'q injection" where
  "Inject E containers initContainers excludeInit recs =
     (let acc = inject_add E recs False 0 containers \<lparr> inj_Recs = [], inj_Writes = [] \<rparr>
      in if excludeInit then acc else inject_add E recs True 0 initContainers acc)"

section \<open>What applying changes on a running pod\<close>

datatype pod_change = NoChange | LimitChange | RequestChange

instantiation pod_change :: linorder
begin

definition rank_pod_change :: "pod_change \<Rightarrow> nat" where
  "rank_pod_change c = (case c of NoChange \<Rightarrow> 0 | LimitChange \<Rightarrow> 1 | RequestChange \<Rightarrow> 2)"

definition less_eq_pod_change :: "pod_change \<Rightarrow> pod_change \<Rightarrow> bool" where
  "less_eq_pod_change a b \<longleftrightarrow> rank_pod_change a \<le> rank_pod_change b"

definition less_pod_change :: "pod_change \<Rightarrow> pod_change \<Rightarrow> bool" where
  "less_pod_change a b \<longleftrightarrow> rank_pod_change a < rank_pod_change b"

instance
  by standard
     (auto simp: less_eq_pod_change_def less_pod_change_def rank_pod_change_def split: pod_change.splits)

end

definition containerChange ::
  "'q env \<Rightarrow> 'q resource_requirements \<Rightarrow> 'q container_recommendation \<Rightarrow> pod_change" where
  "containerChange E current rec =
     (let (out, _, changed) = applyTo E current rec
      in if \<not> changed then NoChange
         else if \<not> requestsEqual E current out then RequestChange
         else LimitChange)"

record 'q tolerance =
  CPUPercent :: int
  CPUFloor :: 'q
  MemPercent :: int
  MemFloor :: 'q

definition downsizeThreshold :: "'q downsize_threshold option \<Rightarrow> 'q \<Rightarrow> int \<times> 'q" where
  "downsizeThreshold t defFloor =
     (case t of
        None \<Rightarrow> (5, defFloor)
      | Some d \<Rightarrow> (case dt_Percent d of Some p \<Rightarrow> p | None \<Rightarrow> 5,
                   case dt_MinDecrease d of Some q \<Rightarrow> q | None \<Rightarrow> defFloor))"

definition toleranceOf :: "'q env \<Rightarrow> 'q resources_configs \<Rightarrow> 'q tolerance" where
  "toleranceOf E rs =
     (let (cp, cf) = downsizeThreshold (DownsizeThreshold (rs_CPU rs)) (q_must_parse E ''10m'');
          (mp, mf) = downsizeThreshold (DownsizeThreshold (rs_Memory rs)) (q_must_parse E ''15Mi'')
      in \<lparr> CPUPercent = cp, CPUFloor = cf, MemPercent = mp, MemFloor = mf \<rparr>)"

definition withinDecrease :: "'q env \<Rightarrow> 'q \<Rightarrow> 'q option \<Rightarrow> int \<Rightarrow> 'q \<Rightarrow> bool" where
  "withinDecrease E current rec percent floor' =
     (case rec of
        None \<Rightarrow> False
      | Some r \<Rightarrow>
          let delta = wrap64 (q_milli_value E current - q_milli_value E r)
          in if delta \<le> 0 then False
             else let band = wrap64 (go_div (q_milli_value E current) 100 * percent);
                      fm = q_milli_value E floor'
                  in delta < (if band < fm then fm else band))"

definition clampDecreaseToTolerance ::
  "'q env \<Rightarrow> 'q resource_requirements \<Rightarrow> 'q container_recommendation \<Rightarrow> 'q tolerance \<Rightarrow>
   'q container_recommendation" where
  "clampDecreaseToTolerance E current rec tol =
     (let o1 = (if withinDecrease E (rl_Cpu E (Requests current)) (CPURequest rec) (CPUPercent tol) (CPUFloor tol)
                then rec\<lparr>CPURequest := None\<rparr> else rec);
          o2 = (if \<not> RemoveCPULimit o1 \<and>
                   withinDecrease E (rl_Cpu E (Limits current)) (CPULimit o1) (CPUPercent tol) (CPUFloor tol)
                then o1\<lparr>CPULimit := None\<rparr> else o1);
          o3 = (if withinDecrease E (rl_Memory E (Requests current)) (MemoryRequest o2) (MemPercent tol) (MemFloor tol)
                then o2\<lparr>MemoryRequest := None\<rparr> else o2)
      in if \<not> RemoveMemoryLimit o3 \<and>
            withinDecrease E (rl_Memory E (Limits current)) (MemoryLimit o3) (MemPercent tol) (MemFloor tol)
         then o3\<lparr>MemoryLimit := None\<rparr> else o3)"

definition clampRecsToTolerance ::
  "'q env \<Rightarrow> 'q container list \<Rightarrow> (string, 'q container_recommendation) gomap \<Rightarrow> 'q tolerance \<Rightarrow>
   (string, 'q container_recommendation) gomap" where
  "clampRecsToTolerance E current recs tol =
     (if recs = [] then recs
      else let byName = map_by c_Name id current
           in map_by fst
                (\<lambda>(name, rec). case map_of byName name of
                    Some c \<Rightarrow> clampDecreaseToTolerance E (c_Resources c) rec tol
                  | None \<Rightarrow> rec) recs)"

definition isRestartableInitContainer :: "'q container \<Rightarrow> bool" where
  "isRestartableInitContainer c \<longleftrightarrow> c_RestartPolicy c = Some ''Always''"

definition podContainers :: "'q pod \<Rightarrow> 'q container list" where
  "podContainers pod = pod_Containers pod @ pod_InitContainers pod"

record 'q pod_plan =
  pl_recs :: "(string, 'q container_recommendation) gomap"
  pl_change :: pod_change

definition plan_change ::
  "'q env \<Rightarrow> (string, 'q container_recommendation) gomap \<Rightarrow> 'q container \<Rightarrow> pod_change \<Rightarrow> pod_change" where
  "plan_change E recs c ch =
     (case map_of recs (c_Name c) of
        Some rec \<Rightarrow> max ch (containerChange E (c_Resources c) rec) | None \<Rightarrow> ch)"

definition planFor ::
  "'q env \<Rightarrow> 'q pod \<Rightarrow> (string, 'q container_recommendation) gomap \<Rightarrow> 'q tolerance \<Rightarrow> 'q pod_plan" where
  "planFor E pod recs tol =
     (let recs' = clampRecsToTolerance E (podContainers pod) recs tol;
          ch = fold (plan_change E recs') (pod_Containers pod) NoChange
      in \<lparr> pl_recs = recs',
           pl_change = fold (\<lambda>c ch. if isRestartableInitContainer c then plan_change E recs' c ch else ch)
                         (pod_InitContainers pod) ch \<rparr>)"

definition stale :: "'q pod_plan \<Rightarrow> bool" where
  "stale pl \<longleftrightarrow> pl_change pl = RequestChange"

text \<open>\<open>observeSuppressed\<close>: the resources to report, in the order of the calls.\<close>

definition observeSuppressed ::
  "(string, 'q container_recommendation) gomap \<Rightarrow> (string, 'q container_recommendation) gomap \<Rightarrow> string list"
where
  "observeSuppressed orig clamped =
     concat (map (\<lambda>(name, o').
       let c = lookup_or empty_recommendation clamped name
       in (if (CPURequest o' \<noteq> None \<and> CPURequest c = None) \<or> (CPULimit o' \<noteq> None \<and> CPULimit c = None)
           then [''cpu''] else []) @
          (if (MemoryRequest o' \<noteq> None \<and> MemoryRequest c = None) \<or> (MemoryLimit o' \<noteq> None \<and> MemoryLimit c = None)
           then [''memory''] else [])) orig)"

end
