(* ===== verification/InjectCorrect.thy ===== *)
theory InjectCorrect
  imports Inject
begin

text \<open>
  Correctness of injection: what \<open>applyTo\<close> leaves in each request and limit, that it never leaves a
  request above its limit, that applying twice is applying once, and that the downsize tolerance
  withholds small decreases only and settles.
\<close>

section \<open>What applyTo leaves\<close>

text \<open>The value of one resource after \<open>setQuantity\<close>, and its limit after the raise.\<close>

definition set_value :: "'q env \<Rightarrow> 'q option \<Rightarrow> 'q option \<Rightarrow> 'q option" where
  "set_value E cur q =
     (case q of None \<Rightarrow> cur
      | Some v \<Rightarrow> if q_cmp E (case cur of Some c \<Rightarrow> c | None \<Rightarrow> q_zero E NoFormat) v = 0 then cur else Some v)"

definition raise_value :: "'q env \<Rightarrow> 'q option \<Rightarrow> 'q option \<Rightarrow> 'q option" where
  "raise_value E req limit =
     (case (req, limit) of (Some r, Some l) \<Rightarrow> if q_greater E r l then Some r else Some l | _ \<Rightarrow> limit)"

definition limit_value :: "'q env \<Rightarrow> 'q option \<Rightarrow> 'q option \<Rightarrow> bool \<Rightarrow> 'q option" where
  "limit_value E cur q remove = (if remove then None else set_value E cur q)"

lemma map_of_setQuantity:
  "map_of (setQuantity E l n q) x = (if x = n then set_value E (map_of l n) q else map_of l x)"
  by (auto simp: setQuantity_def set_value_def lookup_or_def split: option.splits)

lemma map_of_applyLimit:
  "map_of (applyLimit E l n q rm) x = (if x = n then limit_value E (map_of l n) q rm else map_of l x)"
  by (simp add: applyLimit_def limit_value_def map_of_setQuantity)

lemma raise_limit_requests: "Requests (fst (raise_limit E n st)) = Requests (fst st)"
  by (auto simp: raise_limit_def Let_def split: prod.splits option.splits)

lemma raise_limit_limits:
  "map_of (Limits (fst (raise_limit E n st))) x =
     (if x = n then raise_value E (map_of (Requests (fst st)) n) (map_of (Limits (fst st)) n)
      else map_of (Limits (fst st)) x)"
  by (auto simp: raise_limit_def raise_value_def Let_def split: prod.splits option.splits)

lemma applyTo_fst:
  "fst (applyTo E cur rec) =
     fst (raise_limit E ResourceMemory (raise_limit E ResourceCPU (set_recommended E cur rec, [])))"
  by (simp add: applyTo_def Let_def split: prod.splits)

lemma applyTo_changed: "snd (snd (applyTo E cur rec)) \<longleftrightarrow> \<not> valueEqual E cur (fst (applyTo E cur rec))"
  by (simp add: applyTo_def Let_def split: prod.splits)

lemma containerChange_eq:
  "containerChange E cur rec =
     (if valueEqual E cur (fst (applyTo E cur rec)) then NoChange
      else if requestsEqual E cur (fst (applyTo E cur rec)) then LimitChange else RequestChange)"
  by (simp add: containerChange_def Let_def case_prod_unfold applyTo_changed)

lemma applyTo_lookup:
  "map_of (Requests (fst (applyTo E cur rec))) x =
     (if x = ResourceCPU then set_value E (map_of (Requests cur) x) (CPURequest rec)
      else if x = ResourceMemory then set_value E (map_of (Requests cur) x) (MemoryRequest rec)
      else map_of (Requests cur) x)"
  "map_of (Limits (fst (applyTo E cur rec))) x =
     (if x = ResourceCPU
      then raise_value E (set_value E (map_of (Requests cur) x) (CPURequest rec))
             (limit_value E (map_of (Limits cur) x) (CPULimit rec) (RemoveCPULimit rec))
      else if x = ResourceMemory
      then raise_value E (set_value E (map_of (Requests cur) x) (MemoryRequest rec))
             (limit_value E (map_of (Limits cur) x) (MemoryLimit rec) (RemoveMemoryLimit rec))
      else map_of (Limits cur) x)"
  by (simp_all add: applyTo_fst raise_limit_requests raise_limit_limits set_recommended_def Let_def
      map_of_setQuantity map_of_applyLimit)

lemma raise_value_ge:
  "quantity_laws E amt \<Longrightarrow> raise_value E (Some r) limit = Some l \<Longrightarrow> amt r \<le> amt l"
  by (auto simp: raise_value_def q_simps split: option.splits if_splits)

lemma applyTo_request_le_limit:
  assumes "quantity_laws E amt" "n = ResourceCPU \<or> n = ResourceMemory"
    and "map_of (Requests (fst (applyTo E cur rec))) n = Some r"
    and "map_of (Limits (fst (applyTo E cur rec))) n = Some l"
  shows "amt r \<le> amt l"
  using assms(2-4) by (auto simp: applyTo_lookup dest!: raise_value_ge [OF assms(1)])

lemma inject_add_writes:
  "w \<in> set (inj_Writes (inject_add E recs init i cs acc)) \<Longrightarrow>
   w \<in> set (inj_Writes acc) \<or>
   (\<exists>j c rec. j < length cs \<and> cs ! j = c \<and> map_of recs (c_Name c) = Some rec \<and> cw_Name w = c_Name c \<and>
      cw_Init w = init \<and> cw_Index w = i + j \<and> cw_Resources w = fst (applyTo E (c_Resources c) rec) \<and>
      snd (snd (applyTo E (c_Resources c) rec)))"
proof (induction cs arbitrary: i acc)
  case (Cons c cs)
  let ?acc = "case map_of recs (c_Name c) of
          None \<Rightarrow> acc
        | Some rec \<Rightarrow>
            let (res, raised, changed) = applyTo E (c_Resources c) rec;
                acc' = acc\<lparr>inj_Recs := AList.update (c_Name c) rec (inj_Recs acc)\<rparr>
            in if changed
               then acc'\<lparr>inj_Writes := inj_Writes acc' @
                 [\<lparr> cw_Name = c_Name c, cw_Init = init, cw_Index = i, cw_Resources = res,
                    cw_RaisedLimits = raised \<rparr>]\<rparr>
               else acc'"
  from Cons.prems have "w \<in> set (inj_Writes (inject_add E recs init (Suc i) cs ?acc))" by simp
  from Cons.IH [OF this] show ?case
  proof
    assume "w \<in> set (inj_Writes ?acc)"
    then show ?case
      by (auto simp: Let_def split: option.splits prod.splits if_splits intro!: exI [of _ 0])
  next
    assume "\<exists>j d rec. j < length cs \<and> cs ! j = d \<and> map_of recs (c_Name d) = Some rec \<and> cw_Name w = c_Name d \<and>
      cw_Init w = init \<and> cw_Index w = Suc i + j \<and> cw_Resources w = fst (applyTo E (c_Resources d) rec) \<and>
      snd (snd (applyTo E (c_Resources d) rec))"
    then obtain j where "j < length cs" "\<exists>rec. map_of recs (c_Name (cs ! j)) = Some rec \<and> cw_Name w = c_Name (cs ! j) \<and>
      cw_Init w = init \<and> cw_Index w = Suc i + j \<and> cw_Resources w = fst (applyTo E (c_Resources (cs ! j)) rec) \<and>
      snd (snd (applyTo E (c_Resources (cs ! j)) rec))" by blast
    then show ?case by (intro disjI2 exI [of _ "Suc j"]) auto
  qed
qed simp

lemma Inject_writes:
  assumes "w \<in> set (inj_Writes (Inject E cs ics excl recs))"
  obtains c rec where "map_of recs (c_Name c) = Some rec" "cw_Name w = c_Name c"
    "cw_Resources w = fst (applyTo E (c_Resources c) rec)" "snd (snd (applyTo E (c_Resources c) rec))"
    "if cw_Init w then \<not> excl \<and> cw_Index w < length ics \<and> ics ! cw_Index w = c
     else cw_Index w < length cs \<and> cs ! cw_Index w = c"
  using assms unfolding Inject_def Let_def
  by (cases excl) (fastforce dest!: inject_add_writes)+

text \<open>C4. Injection never leaves a request above its limit, which the API server would reject: in
  every container it writes, for CPU and for memory, the request it leaves is at most the limit it
  leaves, whatever the recommendation and the container's own resources.\<close>

theorem inject_request_le_limit:
  assumes "quantity_laws E amt" "w \<in> set (inj_Writes (Inject E containers initContainers excludeInit recs))"
    and "n = ResourceCPU \<or> n = ResourceMemory"
    and "map_of (Requests (cw_Resources w)) n = Some r" "map_of (Limits (cw_Resources w)) n = Some l"
  shows "amt r \<le> amt l"
  using assms(2-5) applyTo_request_le_limit [OF assms(1)] by (elim Inject_writes) auto

section \<open>Applying twice\<close>

definition opt_amt :: "('q \<Rightarrow> rat) \<Rightarrow> 'q option \<Rightarrow> rat" where
  "opt_amt amt q = (case q of Some v \<Rightarrow> amt v | None \<Rightarrow> 0)"

lemma rl_amt:
  assumes "quantity_laws E amt"
  shows "amt (rl_Cpu E rl) = opt_amt amt (map_of rl ResourceCPU)"
    "amt (rl_Memory E rl) = opt_amt amt (map_of rl ResourceMemory)"
  using assms by (simp_all add: rl_Cpu_def rl_Memory_def lookup_or_def opt_amt_def q_simps split: option.split)

lemma requestsEqual_iff:
  assumes "quantity_laws E amt"
  shows "requestsEqual E a b \<longleftrightarrow>
    opt_amt amt (map_of (Requests a) ResourceCPU) = opt_amt amt (map_of (Requests b) ResourceCPU) \<and>
    opt_amt amt (map_of (Requests a) ResourceMemory) = opt_amt amt (map_of (Requests b) ResourceMemory)"
  using assms by (simp add: requestsEqual_def q_simps rl_amt)

lemma valueEqual_iff:
  assumes "quantity_laws E amt"
  shows "valueEqual E a b \<longleftrightarrow> requestsEqual E a b \<and>
    opt_amt amt (map_of (Limits a) ResourceCPU) = opt_amt amt (map_of (Limits b) ResourceCPU) \<and>
    opt_amt amt (map_of (Limits a) ResourceMemory) = opt_amt amt (map_of (Limits b) ResourceMemory)"
  using assms by (simp add: valueEqual_def q_simps rl_amt)

lemma set_value_amt:
  assumes "quantity_laws E amt"
  shows "opt_amt amt (set_value E cur q) = (case q of Some v \<Rightarrow> amt v | None \<Rightarrow> opt_amt amt cur)"
  using assms by (auto simp: set_value_def opt_amt_def q_simps split: option.splits)

lemma set_value_idem:
  assumes "quantity_laws E amt"
  shows "set_value E (set_value E cur q) q = set_value E cur q"
  using assms by (auto simp: set_value_def q_simps split: option.splits)

lemma limit_value_again:
  assumes "quantity_laws E amt"
  shows "opt_amt amt (raise_value E r (limit_value E (raise_value E r (limit_value E cur q rm)) q rm)) =
         opt_amt amt (raise_value E r (limit_value E cur q rm))"
  using assms
  by (cases rm; cases q; cases cur; cases r)
     (auto simp: limit_value_def raise_value_def set_value_def opt_amt_def q_simps)

text \<open>Applying a recommendation is idempotent: a container the recommendation was applied to is
  already at the recommended size, limits the guard raised included, so nothing is patched, resized
  or evicted for it again.\<close>

theorem applyTo_idempotent:
  assumes "quantity_laws E amt"
  shows "containerChange E (fst (applyTo E current rec)) rec = NoChange"
proof -
  let ?out = "fst (applyTo E current rec)"
  have "valueEqual E ?out (fst (applyTo E ?out rec))"
    by (simp add: valueEqual_iff [OF assms] requestsEqual_iff [OF assms] applyTo_lookup
        set_value_idem [OF assms] limit_value_again [OF assms])
  then show ?thesis by (simp add: containerChange_eq)
qed

theorem applyTo_idempotent_witness:
  "containerChange fixed_env (fst (applyTo fixed_env \<lparr> Requests = [], Limits = [(''cpu'', (1, DecimalSI))] \<rparr>
     (empty_recommendation\<lparr>CPURequest := Some (2, DecimalSI)\<rparr>)))
     (empty_recommendation\<lparr>CPURequest := Some (2, DecimalSI)\<rparr>) = NoChange"
  by (rule applyTo_idempotent [OF fixed_env_laws])

theorem inject_request_le_limit_witness:
  "\<exists>w. w \<in> set (inj_Writes (Inject fixed_env [\<lparr> c_Name = ''app'',
           c_Resources = \<lparr> Requests = [], Limits = [(''cpu'', (1, DecimalSI))] \<rparr>, c_RestartPolicy = None \<rparr>] []
           False [(''app'', empty_recommendation\<lparr>CPURequest := Some (2, DecimalSI)\<rparr>)])) \<and>
       map_of (Requests (cw_Resources w)) ''cpu'' = Some (2, DecimalSI) \<and>
       map_of (Limits (cw_Resources w)) ''cpu'' = Some (2, DecimalSI) \<and> (2::rat) \<le> 2"
proof -
  let ?c = "\<lparr> c_Name = ''app'', c_Resources = \<lparr> Requests = [], Limits = [(''cpu'', (1, DecimalSI))] \<rparr>,
              c_RestartPolicy = None \<rparr> :: fixed container"
  let ?rec = "empty_recommendation\<lparr>CPURequest := Some (2, DecimalSI)\<rparr> :: fixed container_recommendation"
  define w :: "fixed container_write" where "w = \<lparr> cw_Name = ''app'', cw_Init = False, cw_Index = 0,
    cw_Resources = \<lparr> Requests = [(''cpu'', (2, DecimalSI))], Limits = [(''cpu'', (2, DecimalSI))] \<rparr>,
    cw_RaisedLimits = [''cpu''] \<rparr>"
  have w: "w \<in> set (inj_Writes (Inject fixed_env [?c] [] False [(''app'', ?rec)]))"
    by (simp add: w_def Inject_def applyTo_def set_recommended_def setQuantity_def applyLimit_def
        raise_limit_def valueEqual_def requestsEqual_def rl_Cpu_def rl_Memory_def lookup_or_def
        empty_recommendation_def fixed_env_def Let_def)
  have "fst (2 :: rat, DecimalSI) \<le> fst (2 :: rat, DecimalSI)"
    by (rule inject_request_le_limit [OF fixed_env_laws w, where n = "''cpu''"]) (simp_all add: w_def)
  then show ?thesis using w by (intro exI [of _ w]) (simp add: w_def)
qed

section \<open>The downsize tolerance\<close>

text \<open>A decrease is withheld exactly when it is one and smaller than the band, the larger of the
  percentage of the current value and the floor, in milli-units: for values that fit and a percentage
  the CRD admits, no increase and no equal value is ever withheld, and no intermediate result wraps
  around.\<close>

theorem withinDecrease_iff:
  assumes "0 \<le> q_milli_value E current" "in_int64 (q_milli_value E current)"
    and "0 \<le> q_milli_value E r" "in_int64 (q_milli_value E r)"
    and "0 \<le> percent" "percent \<le> 100"
  shows "withinDecrease E current (Some r) percent f \<longleftrightarrow>
           q_milli_value E r < q_milli_value E current \<and>
           q_milli_value E current - q_milli_value E r
             < max (q_milli_value E current div 100 * percent) (q_milli_value E f)"
proof -
  let ?c = "q_milli_value E current"
  have "?c div 100 * percent \<le> ?c div 100 * 100" using assms by (intro mult_left_mono) (simp_all add: pos_imp_zdiv_nonneg_iff)
  also have "\<dots> \<le> ?c" by simp
  finally have "in_int64 (?c div 100 * percent)"
    using assms by (intro in_int64_nonneg) (auto simp: in_int64_def pos_imp_zdiv_nonneg_iff)
  moreover have "in_int64 (?c - q_milli_value E r)" using assms by (simp add: in_int64_def)
  ultimately show ?thesis
    using assms(1) by (auto simp: withinDecrease_def Let_def wrap64_id go_div_nonneg max_def)
qed

theorem withinDecrease_iff_witness:
  "withinDecrease fixed_env (1, DecimalSI) (Some (97 / 100, DecimalSI)) 5 (1 / 100, DecimalSI)"
  by (subst withinDecrease_iff) (simp_all add: fixed_env_def sat64_def in_int64_def)

text \<open>Each request after the tolerance.\<close>

lemma clampDecrease_requests:
  "CPURequest (clampDecreaseToTolerance E cur rec tol) =
     (if withinDecrease E (rl_Cpu E (Requests cur)) (CPURequest rec) (CPUPercent tol) (CPUFloor tol)
      then None else CPURequest rec)"
  "MemoryRequest (clampDecreaseToTolerance E cur rec tol) =
     (if withinDecrease E (rl_Memory E (Requests cur)) (MemoryRequest rec) (MemPercent tol) (MemFloor tol)
      then None else MemoryRequest rec)"
  by (auto simp: clampDecreaseToTolerance_def Let_def)

lemma rl_Cpu_cong: "map_of a ResourceCPU = map_of b ResourceCPU \<Longrightarrow> rl_Cpu E a = rl_Cpu E b"
  by (simp add: rl_Cpu_def lookup_or_def)

lemma rl_Memory_cong: "map_of a ResourceMemory = map_of b ResourceMemory \<Longrightarrow> rl_Memory E a = rl_Memory E b"
  by (simp add: rl_Memory_def lookup_or_def)

lemma set_value_None [simp]: "set_value E cur None = cur"
  by (simp add: set_value_def)

text \<open>The tolerance and the apply settle: once the plan for a container has been applied, the
  next plan for it changes no request, so a pod that was resized no longer counts stale and is not
  evicted, even though the tolerance withheld some of its decreases.\<close>

theorem applied_plan_not_stale:
  assumes "quantity_laws E amt"
    and "out = fst (applyTo E current (clampDecreaseToTolerance E current rec tol))"
  shows "containerChange E out (clampDecreaseToTolerance E out rec tol) \<noteq> RequestChange"
proof -
  let ?rec1 = "clampDecreaseToTolerance E current rec tol" and ?rec2 = "clampDecreaseToTolerance E out rec tol"
  have c: "map_of (Requests out) ResourceCPU = set_value E (map_of (Requests current) ResourceCPU) (CPURequest ?rec1)"
    and m: "map_of (Requests out) ResourceMemory = set_value E (map_of (Requests current) ResourceMemory) (MemoryRequest ?rec1)"
    using assms(2) by (simp_all add: applyTo_lookup)
  have "opt_amt amt (map_of (Requests out) ResourceCPU) =
        opt_amt amt (set_value E (map_of (Requests out) ResourceCPU) (CPURequest ?rec2))"
  proof (cases "withinDecrease E (rl_Cpu E (Requests current)) (CPURequest rec) (CPUPercent tol) (CPUFloor tol)")
    case True
    then have "map_of (Requests out) ResourceCPU = map_of (Requests current) ResourceCPU"
      unfolding c by (simp add: clampDecrease_requests)
    with True show ?thesis
      unfolding clampDecrease_requests by (simp cong: rl_Cpu_cong)
  next
    case False
    then show ?thesis
      unfolding c by (simp add: clampDecrease_requests set_value_amt [OF assms(1)] split: option.split)
  qed
  moreover have "opt_amt amt (map_of (Requests out) ResourceMemory) =
        opt_amt amt (set_value E (map_of (Requests out) ResourceMemory) (MemoryRequest ?rec2))"
  proof (cases "withinDecrease E (rl_Memory E (Requests current)) (MemoryRequest rec) (MemPercent tol) (MemFloor tol)")
    case True
    then have "map_of (Requests out) ResourceMemory = map_of (Requests current) ResourceMemory"
      unfolding m by (simp add: clampDecrease_requests)
    with True show ?thesis
      unfolding clampDecrease_requests by (simp cong: rl_Memory_cong)
  next
    case False
    then show ?thesis
      unfolding m by (simp add: clampDecrease_requests set_value_amt [OF assms(1)] split: option.split)
  qed
  ultimately have "requestsEqual E out (fst (applyTo E out ?rec2))"
    by (simp add: requestsEqual_iff [OF assms(1)] applyTo_lookup)
  then show ?thesis by (simp add: containerChange_eq)
qed

theorem applied_plan_not_stale_witness:
  "containerChange fixed_env
     (fst (applyTo fixed_env \<lparr> Requests = [(''cpu'', (1, DecimalSI))], Limits = [] \<rparr>
        (clampDecreaseToTolerance fixed_env \<lparr> Requests = [(''cpu'', (1, DecimalSI))], Limits = [] \<rparr>
           (empty_recommendation\<lparr>CPURequest := Some (1 / 2, DecimalSI)\<rparr>)
           \<lparr> CPUPercent = 5, CPUFloor = (1 / 100, DecimalSI), MemPercent = 5, MemFloor = (0, BinarySI) \<rparr>)))
     (clampDecreaseToTolerance fixed_env
        (fst (applyTo fixed_env \<lparr> Requests = [(''cpu'', (1, DecimalSI))], Limits = [] \<rparr>
        (clampDecreaseToTolerance fixed_env \<lparr> Requests = [(''cpu'', (1, DecimalSI))], Limits = [] \<rparr>
           (empty_recommendation\<lparr>CPURequest := Some (1 / 2, DecimalSI)\<rparr>)
           \<lparr> CPUPercent = 5, CPUFloor = (1 / 100, DecimalSI), MemPercent = 5, MemFloor = (0, BinarySI) \<rparr>)))
        (empty_recommendation\<lparr>CPURequest := Some (1 / 2, DecimalSI)\<rparr>)
        \<lparr> CPUPercent = 5, CPUFloor = (1 / 100, DecimalSI), MemPercent = 5, MemFloor = (0, BinarySI) \<rparr>)
     \<noteq> RequestChange"
  by (rule applied_plan_not_stale [OF fixed_env_laws refl])

end
