(* ===== verification/Governance.thy ===== *)
theory Governance
  imports Api
begin

text \<open>
  Who governs a pod (\<open>internal/governance/governance.go\<close>, \<open>policies.go\<close>, and
  \<open>ApplyOwnerNameOverride\<close> of \<open>internal/workload/ownerref.go\<close>). The label-selector library and the
  label-value validation are not in this repository: they are the fields of \<open>gov_env\<close>. The
  \<open>Reader\<close> interface is a record of answers. The \<open>walk\<close> object is the state record \<open>walk\<close>, which
  also keeps the calls made to the reader, in order.
\<close>

section \<open>Policies\<close>

record ('sel, 'm) gov_env =
  compile_selector :: "'sel \<Rightarrow> 'm option"
  selector_matches :: "'m \<Rightarrow> str_map \<Rightarrow> bool"
  valid_label_value :: "string \<Rightarrow> bool"

datatype refusal =
    NoOwner | NoPolicySelects | NotOptedIn | OptedOut | PolicyMissing | NamespaceExcluded
  | NamespaceNotSelected | SelectorInvalid | LabelsNotSelected | KindNotManaged

datatype level = LevelNone | LevelPodTemplate | LevelWorkload | LevelNamespace

record ('q, 'sel, 'm) compiled =
  cp_policy :: "('q, 'sel) policy"
  cp_selector :: "'m option"
  cp_invalid :: bool

record ('q, 'sel, 'm) policies =
  byName :: "(string, ('q, 'sel, 'm) compiled) gomap"
  ps_excluded :: "string list"

definition compile_policy :: "('sel, 'm) gov_env \<Rightarrow> ('q, 'sel) policy \<Rightarrow> ('q, 'sel, 'm) compiled" where
  "compile_policy G p =
     (case ps_LabelSelector (p_Selector p) of
        None \<Rightarrow> \<lparr> cp_policy = p, cp_selector = None, cp_invalid = False \<rparr>
      | Some ls \<Rightarrow> \<lparr> cp_policy = p, cp_selector = compile_selector G ls,
                    cp_invalid = (compile_selector G ls = None) \<rparr>)"

definition index_step ::
  "('sel, 'm) gov_env \<Rightarrow> (string, ('q, 'sel, 'm) compiled) gomap \<Rightarrow> ('q, 'sel) policy \<Rightarrow>
   ('q, 'sel, 'm) compiled" where
  "index_step G prev p =
     (case map_of prev (p_Name p) of
        Some c \<Rightarrow> if p_ResourceVersion p \<noteq> [] \<and> p_UID (cp_policy c) = p_UID p \<and>
                     p_ResourceVersion (cp_policy c) = p_ResourceVersion p
                  then c else compile_policy G p
      | None \<Rightarrow> compile_policy G p)"

definition index ::
  "('sel, 'm) gov_env \<Rightarrow> ('q, 'sel) policy list \<Rightarrow> string list \<Rightarrow>
   (string, ('q, 'sel, 'm) compiled) gomap \<Rightarrow> ('q, 'sel, 'm) policies" where
  "index G items excluded prev =
     \<lparr> byName = map_by p_Name (index_step G prev) items, ps_excluded = excluded \<rparr>"

text \<open>The lister, and a \<open>List\<close> whose client answered with the items or an error.\<close>

record ('q, 'sel, 'm) policy_lister =
  pl_excluded :: "string list"
  pl_built :: bool
  pl_last :: "(string, ('q, 'sel, 'm) compiled) gomap"

datatype 'e list_error = ErrNoPolicyLister | ListingPolicies 'e

definition NewPolicyLister :: "string list \<Rightarrow> ('q, 'sel, 'm) policy_lister" where
  "NewPolicyLister excluded = \<lparr> pl_excluded = excluded, pl_built = True, pl_last = [] \<rparr>"

definition lister_List ::
  "('sel, 'm) gov_env \<Rightarrow> 'e + ('q, 'sel) policy list \<Rightarrow> ('q, 'sel, 'm) policy_lister \<Rightarrow>
   ('e list_error + ('q, 'sel, 'm) policies) \<times> ('q, 'sel, 'm) policy_lister" where
  "lister_List G answer l =
     (if \<not> pl_built l then (Inl ErrNoPolicyLister, l)
      else case answer of
             Inl e \<Rightarrow> (Inl (ListingPolicies e), l)
           | Inr items \<Rightarrow> let ps = index G items (pl_excluded l) (pl_last l)
                          in (Inr ps, l\<lparr>pl_last := byName ps\<rparr>))"

definition namespaceRefusal ::
  "('q, 'sel, 'm) policies \<Rightarrow> ('q, 'sel, 'm) compiled \<Rightarrow> string \<Rightarrow> refusal option" where
  "namespaceRefusal ps c ns =
     (let allowed = ps_Namespaces (p_Selector (cp_policy c))
      in if ns \<in> set (ps_excluded ps) then Some NamespaceExcluded
         else if allowed \<noteq> [] \<and> ns \<notin> set allowed then Some NamespaceNotSelected
         else None)"

definition labelRefusal ::
  "('sel, 'm) gov_env \<Rightarrow> ('q, 'sel, 'm) compiled \<Rightarrow> str_map \<Rightarrow> refusal option" where
  "labelRefusal G c podLabels =
     (if cp_invalid c then Some SelectorInvalid
      else case cp_selector c of
             Some m \<Rightarrow> if selector_matches G m podLabels then None else Some LabelsNotSelected
           | None \<Rightarrow> None)"

definition namespaceConsent ::
  "('q, 'sel, 'm) policies \<Rightarrow> string \<Rightarrow> string \<Rightarrow> refusal + ('q, 'sel, 'm) compiled" where
  "namespaceConsent ps name ns =
     (case map_of (byName ps) name of
        None \<Rightarrow> Inl PolicyMissing
      | Some c \<Rightarrow> (case namespaceRefusal ps c ns of Some r \<Rightarrow> Inl r | None \<Rightarrow> Inr c))"

definition consent ::
  "('sel, 'm) gov_env \<Rightarrow> ('q, 'sel, 'm) policies \<Rightarrow> string \<Rightarrow> string \<Rightarrow> str_map \<Rightarrow>
   refusal + ('q, 'sel) policy" where
  "consent G ps name ns podLabels =
     (case namespaceConsent ps name ns of
        Inl r \<Rightarrow> Inl r
      | Inr c \<Rightarrow> (case labelRefusal G c podLabels of Some r \<Rightarrow> Inl r | None \<Rightarrow> Inr (cp_policy c)))"

definition departedConsent ::
  "('q, 'sel, 'm) policies \<Rightarrow> string \<Rightarrow> string \<Rightarrow> refusal + ('q, 'sel) policy" where
  "departedConsent ps name ns =
     (case namespaceConsent ps name ns of
        Inl r \<Rightarrow> Inl r
      | Inr c \<Rightarrow> if cp_invalid c then Inl SelectorInvalid else Inr (cp_policy c))"

definition gateRefusal ::
  "('sel, 'm) gov_env \<Rightarrow> ('q, 'sel, 'm) policies \<Rightarrow> string \<Rightarrow> str_map \<Rightarrow> refusal option" where
  "gateRefusal G ps ns podLabels =
     (if ns \<in> set (ps_excluded ps) then Some NamespaceExcluded
      else if list_ex (\<lambda>(_, c). namespaceRefusal ps c ns = None \<and>
                          labelRefusal G c podLabels \<noteq> Some LabelsNotSelected) (byName ps) then None
      else Some NoPolicySelects)"

section \<open>Identities\<close>

definition ApplyOwnerNameOverride ::
  "('sel, 'm) gov_env \<Rightarrow> string \<Rightarrow> string \<Rightarrow> str_map \<Rightarrow> string \<times> string" where
  "ApplyOwnerNameOverride G kind name annotations =
     (case map_of annotations OwnerNameAnnotation of
        None \<Rightarrow> (kind, name)
      | Some v \<Rightarrow> if v = [] \<or> \<not> valid_label_value G v then (kind, name)
                  else if kind = [] then (''Pod'', v) else (kind, v))"

text \<open>\<open>metav1.GetControllerOf\<close>: the first reference whose controller flag is set.\<close>

definition GetControllerOf :: "owner_reference list \<Rightarrow> owner_reference option" where
  "GetControllerOf refs = find (\<lambda>r. ref_Controller r = Some True) refs"

section \<open>Subjects and decisions\<close>

record workload_meta =
  wm_kind :: string
  wm_name :: string
  wm_annotations :: str_map

record departure =
  dep_identity :: workload_identity
  dep_policy :: string

record 'q subject =
  s_namespace :: string
  s_labels :: str_map
  s_annotations :: str_map
  s_pod :: "'q pod option"
  s_workload :: "workload_meta option"
  s_departed :: "departure option"

definition PodTemplate :: "string \<Rightarrow> string \<Rightarrow> str_map \<Rightarrow> string \<Rightarrow> str_map \<Rightarrow> str_map \<Rightarrow> 'q subject" where
  "PodTemplate ns name annotations kind tmplLabels tmplAnnotations =
     \<lparr> s_namespace = ns, s_labels = tmplLabels, s_annotations = tmplAnnotations, s_pod = None,
       s_workload = Some \<lparr> wm_kind = kind, wm_name = name, wm_annotations = annotations \<rparr>,
       s_departed = None \<rparr>"

definition Pod :: "'q pod \<Rightarrow> 'q subject" where
  "Pod pod =
     \<lparr> s_namespace = pod_Namespace pod, s_labels = pod_Labels pod, s_annotations = pod_Annotations pod,
       s_pod = Some pod, s_workload = None, s_departed = None \<rparr>"

definition Departed_subject :: "workload_identity \<Rightarrow> string \<Rightarrow> 'q subject" where
  "Departed_subject i policy =
     \<lparr> s_namespace = id_Namespace i, s_labels = [], s_annotations = [], s_pod = None, s_workload = None,
       s_departed = Some \<lparr> dep_identity = i, dep_policy = policy \<rparr> \<rparr>"

definition zero_identity :: workload_identity where
  "zero_identity = \<lparr> id_Namespace = [], OwnerKind = [], OwnerName = [] \<rparr>"

record ('q, 'sel) decision =
  d_Identity :: workload_identity
  d_OptIn :: string
  d_Level :: level
  d_Governs :: "(('q, 'sel) policy \<times> update_mode) option"
  d_Refusal :: "refusal option"

definition zero_decision :: "('q, 'sel) decision" where
  "zero_decision = \<lparr> d_Identity = zero_identity, d_OptIn = [], d_Level = LevelNone, d_Governs = None,
                     d_Refusal = None \<rparr>"

definition Governed :: "('q, 'sel) decision \<Rightarrow> bool" where
  "Governed d \<longleftrightarrow> d_Governs d \<noteq> None"

definition PolicyName :: "('q, 'sel) decision \<Rightarrow> string" where
  "PolicyName d = (case d_Governs d of None \<Rightarrow> [] | Some (p, _) \<Rightarrow> p_Name p)"

section \<open>The walk\<close>

record ('q, 'sel, 'm, 'e) reader =
  rd_Policies :: "'e + ('q, 'sel, 'm) policies"
  rd_PodOwner :: "'q pod \<Rightarrow> 'e + string \<times> string"
  rd_WorkloadAnnotations :: "string \<Rightarrow> string \<Rightarrow> string \<Rightarrow> 'e + str_map"
  rd_NamespaceAnnotations :: "string \<Rightarrow> 'e + str_map"

datatype read_call = ReadPolicies | ReadPodOwner | ReadWorkloadAnnotations | ReadNamespaceAnnotations

record ('q, 'sel, 'm) walk =
  wk_policies :: "('q, 'sel, 'm) policies option"
  wk_gated :: bool
  wk_owner :: "(string \<times> string) option"
  wk_calls :: "read_call list"

text \<open>Recording a call, then answering it.\<close>

definition call ::
  "read_call \<Rightarrow> 'e + 'a \<Rightarrow> ('q, 'sel, 'm) walk \<Rightarrow> ('e + 'a) \<times> ('q, 'sel, 'm) walk" where
  "call c answer w = (answer, w\<lparr>wk_calls := wk_calls w @ [c]\<rparr>)"

definition readPolicies ::
  "('q, 'sel, 'm, 'e) reader \<Rightarrow> ('q, 'sel, 'm) walk \<Rightarrow>
   ('e + ('q, 'sel, 'm) policies) \<times> ('q, 'sel, 'm) walk" where
  "readPolicies R w =
     (case wk_policies w of
        Some ps \<Rightarrow> (Inr ps, w)
      | None \<Rightarrow> and_then (call ReadPolicies (rd_Policies R))
                  (\<lambda>ps w'. (Inr ps, w'\<lparr>wk_policies := Some ps\<rparr>)) w)"

definition readOwner ::
  "('q, 'sel, 'm, 'e) reader \<Rightarrow> 'q subject \<Rightarrow> ('q, 'sel, 'm) walk \<Rightarrow>
   ('e + string \<times> string) \<times> ('q, 'sel, 'm) walk" where
  "readOwner R s w =
     (case wk_owner w of
        Some o' \<Rightarrow> (Inr o', w)
      | None \<Rightarrow> and_then (call ReadPodOwner (rd_PodOwner R (the (s_pod s))))
                  (\<lambda>o' w'. (Inr o', w'\<lparr>wk_owner := Some o'\<rparr>)) w)"

definition gate ::
  "('sel, 'm) gov_env \<Rightarrow> ('q, 'sel, 'm, 'e) reader \<Rightarrow> 'q subject \<Rightarrow> ('q, 'sel, 'm) walk \<Rightarrow>
   ('e + refusal option) \<times> ('q, 'sel, 'm) walk" where
  "gate G R s w =
     (if wk_gated w then (Inr None, w)
      else and_then (readPolicies R)
             (\<lambda>ps w'. (Inr (gateRefusal G ps (s_namespace s) (s_labels s)), w'\<lparr>wk_gated := True\<rparr>)) w)"

text \<open>A level's annotations, or a refusal of the gate before them.\<close>

definition workloadAnnotations ::
  "('sel, 'm) gov_env \<Rightarrow> ('q, 'sel, 'm, 'e) reader \<Rightarrow> 'q subject \<Rightarrow> ('q, 'sel, 'm) walk \<Rightarrow>
   ('e + (refusal + str_map)) \<times> ('q, 'sel, 'm) walk" where
  "workloadAnnotations G R s w =
     (case s_workload s of
        Some m \<Rightarrow> (Inr (Inr (wm_annotations m)), w)
      | None \<Rightarrow>
          if (case wk_owner w of Some (kind, _) \<Rightarrow> kind = [] | None \<Rightarrow> False) then (Inr (Inr []), w)
          else and_then (gate G R s)
                 (\<lambda>refused. case refused of
                    Some r \<Rightarrow> yields (Inl r)
                  | None \<Rightarrow>
                      and_then (readOwner R s)
                        (\<lambda>(kind, name).
                           and_then (call ReadWorkloadAnnotations
                                       (rd_WorkloadAnnotations R (s_namespace s) kind name))
                             (\<lambda>ann. yields (Inr ann)))) w)"

definition namespaceAnnotations ::
  "('sel, 'm) gov_env \<Rightarrow> ('q, 'sel, 'm, 'e) reader \<Rightarrow> 'q subject \<Rightarrow> ('q, 'sel, 'm) walk \<Rightarrow>
   ('e + (refusal + str_map)) \<times> ('q, 'sel, 'm) walk" where
  "namespaceAnnotations G R s =
     and_then (gate G R s)
       (\<lambda>refused. case refused of
          Some r \<Rightarrow> yields (Inl r)
        | None \<Rightarrow> and_then (call ReadNamespaceAnnotations (rd_NamespaceAnnotations R (s_namespace s)))
                    (\<lambda>ann. yields (Inr ann)))"

text \<open>The loop of \<open>optIn\<close> over the levels left: the Policy named and where, or a refusal.\<close>

fun optIn_levels ::
  "(level \<times> ('w \<Rightarrow> ('e + (refusal + str_map)) \<times> 'w)) list \<Rightarrow> 'w \<Rightarrow> ('e + (refusal + string \<times> level)) \<times> 'w"
where
  "optIn_levels [] w = (Inr (Inl NotOptedIn), w)"
| "optIn_levels ((lev, rd) # ls) w =
     and_then rd
       (\<lambda>res. case res of
          Inl r \<Rightarrow> yields (Inl r)
        | Inr ann \<Rightarrow>
            if lookup_or [] ann OptOutAnnotation = ''true'' then yields (Inl OptedOut)
            else if lookup_or [] ann PolicyAnnotation \<noteq> []
            then yields (Inr (lookup_or [] ann PolicyAnnotation, lev))
            else optIn_levels ls) w"

definition optIn ::
  "('sel, 'm) gov_env \<Rightarrow> ('q, 'sel, 'm, 'e) reader \<Rightarrow> 'q subject \<Rightarrow> ('q, 'sel, 'm) walk \<Rightarrow>
   ('e + (refusal + string \<times> level)) \<times> ('q, 'sel, 'm) walk" where
  "optIn G R s =
     optIn_levels [(LevelPodTemplate, yields (Inr (s_annotations s))),
                   (LevelWorkload, workloadAnnotations G R s),
                   (LevelNamespace, namespaceAnnotations G R s)]"

definition identity_of ::
  "('sel, 'm) gov_env \<Rightarrow> 'q subject \<Rightarrow> string \<times> string \<Rightarrow> workload_identity" where
  "identity_of G s owner =
     (let (kind, name) = ApplyOwnerNameOverride G (fst owner) (snd owner) (s_annotations s)
      in \<lparr> id_Namespace = s_namespace s, OwnerKind = kind, OwnerName = name \<rparr>)"

definition managedBy :: "('q, 'sel) decision \<Rightarrow> ('q, 'sel) policy \<Rightarrow> string \<Rightarrow> ('q, 'sel) decision" where
  "managedBy d p kind =
     (case ModeForKind (us_Types (rs_Update (p_RightSizing p))) kind of
        None \<Rightarrow> d\<lparr>d_Refusal := Some KindNotManaged\<rparr>
      | Some mode \<Rightarrow> d\<lparr>d_Governs := Some (p, mode)\<rparr>)"

definition walk_decide ::
  "('sel, 'm) gov_env \<Rightarrow> ('q, 'sel, 'm, 'e) reader \<Rightarrow> 'q subject \<Rightarrow> ('q, 'sel, 'm) walk \<Rightarrow>
   ('e + ('q, 'sel) decision) \<times> ('q, 'sel, 'm) walk" where
  "walk_decide G R s =
     and_then (optIn G R s)
       (\<lambda>res. case res of
          Inl r \<Rightarrow> yields (zero_decision\<lparr>d_Refusal := Some r\<rparr>)
        | Inr (name, lev) \<Rightarrow>
            let d = zero_decision\<lparr>d_OptIn := name, d_Level := lev\<rparr>
            in and_then (readPolicies R)
                 (\<lambda>ps. case consent G ps name (s_namespace s) (s_labels s) of
                    Inl r \<Rightarrow> yields (d\<lparr>d_Refusal := Some r\<rparr>)
                  | Inr p \<Rightarrow> and_then (readOwner R s)
                               (\<lambda>owner. yields (managedBy d p (OwnerKind (identity_of G s owner))))))"

definition departedDecision ::
  "('q, 'sel, 'm, 'e) reader \<Rightarrow> 'q subject \<Rightarrow> departure \<Rightarrow> ('q, 'sel, 'm) walk \<Rightarrow>
   ('e + ('q, 'sel) decision) \<times> ('q, 'sel, 'm) walk" where
  "departedDecision R s dep =
     (let d = zero_decision\<lparr>d_Identity := dep_identity dep\<rparr>
      in and_then (readPolicies R)
           (\<lambda>ps. case departedConsent ps (dep_policy dep) (s_namespace s) of
              Inl r \<Rightarrow> yields (d\<lparr>d_Refusal := Some r\<rparr>)
            | Inr p \<Rightarrow> yields (managedBy d p (OwnerKind (d_Identity d)))))"

definition fresh_walk :: "(string \<times> string) option \<Rightarrow> ('q, 'sel, 'm) walk" where
  "fresh_walk owner = \<lparr> wk_policies = None, wk_gated = False, wk_owner = owner, wk_calls = [] \<rparr>"

text \<open>\<open>Decide\<close>, with the walk it leaves behind.\<close>

definition decide_from ::
  "('sel, 'm) gov_env \<Rightarrow> ('q, 'sel, 'm, 'e) reader \<Rightarrow> 'q subject \<Rightarrow> (string \<times> string) option \<Rightarrow>
   ('e + ('q, 'sel) decision) \<times> ('q, 'sel, 'm) walk" where
  "decide_from G R s owner =
     and_then (walk_decide G R s)
       (\<lambda>d w. (Inr (case wk_owner w of Some o' \<Rightarrow> d\<lparr>d_Identity := identity_of G s o'\<rparr> | None \<Rightarrow> d), w))
       (fresh_walk owner)"

definition Decide ::
  "('sel, 'm) gov_env \<Rightarrow> ('q, 'sel, 'm, 'e) reader \<Rightarrow> 'q subject \<Rightarrow>
   ('e + ('q, 'sel) decision) \<times> ('q, 'sel, 'm) walk" where
  "Decide G R s =
     (case s_departed s of
        Some dep \<Rightarrow> departedDecision R s dep (fresh_walk None)
      | None \<Rightarrow>
          (case s_workload s of
             Some m \<Rightarrow> decide_from G R s (Some (wm_kind m, wm_name m))
           | None \<Rightarrow>
               if GetControllerOf (case s_pod s of Some p \<Rightarrow> pod_OwnerReferences p | None \<Rightarrow> []) = None
               then if OwnerKind (identity_of G s ([], [])) = []
                    then (Inr (zero_decision\<lparr>d_Refusal := Some NoOwner\<rparr>), fresh_walk None)
                    else decide_from G R s (Some ([], []))
               else decide_from G R s None))"

end
