(* ===== verification/GovernanceCorrect.thy ===== *)
theory GovernanceCorrect
  imports Governance
begin

text \<open>
  Correctness of \<open>governance.Decide\<close>: the walk with its pre-gate governs exactly what the plain rule
  governs, excluded namespaces and opt-outs are final, the reader is asked nothing twice, and a
  PolicyLister's reuse of compiled selectors is invisible.
\<close>

section \<open>The plain rule\<close>

text \<open>The first level that decides, when every level has been read.\<close>

fun first_optin :: "(level \<times> str_map) list \<Rightarrow> refusal + string \<times> level" where
  "first_optin [] = Inl NotOptedIn"
| "first_optin ((lev, ann) # ls) =
     (if lookup_or [] ann OptOutAnnotation = ''true'' then Inl OptedOut
      else if lookup_or [] ann PolicyAnnotation \<noteq> [] then Inr (lookup_or [] ann PolicyAnnotation, lev)
      else first_optin ls)"

definition plain_governs ::
  "('sel, 'm) gov_env \<Rightarrow> ('q, 'sel, 'm) policies \<Rightarrow> 'q subject \<Rightarrow> string \<times> string \<Rightarrow> (level \<times> str_map) list \<Rightarrow>
   (('q, 'sel) policy \<times> update_mode) option" where
  "plain_governs G ps s owner levels =
     (case first_optin levels of
        Inl r \<Rightarrow> None
      | Inr (name, _) \<Rightarrow>
          (case consent G ps name (s_namespace s) (s_labels s) of
             Inl r \<Rightarrow> None
           | Inr p \<Rightarrow> map_option (\<lambda>mode. (p, mode))
               (ModeForKind (us_Types (rs_Update (p_RightSizing p))) (OwnerKind (identity_of G s owner)))))"

text \<open>The owner and the levels of a subject, given what its reader answers.\<close>

definition controlled :: "'q subject \<Rightarrow> bool" where
  "controlled s \<longleftrightarrow> GetControllerOf (case s_pod s of Some p \<Rightarrow> pod_OwnerReferences p | None \<Rightarrow> []) \<noteq> None"

definition subject_owner :: "'q subject \<Rightarrow> string \<times> string \<Rightarrow> string \<times> string" where
  "subject_owner s ow =
     (case s_workload s of Some m \<Rightarrow> (wm_kind m, wm_name m) | None \<Rightarrow> if controlled s then ow else ([], []))"

definition subject_levels :: "'q subject \<Rightarrow> str_map \<Rightarrow> str_map \<Rightarrow> (level \<times> str_map) list" where
  "subject_levels s wann nann =
     [(LevelPodTemplate, s_annotations s),
      (LevelWorkload, case s_workload s of Some m \<Rightarrow> wm_annotations m | None \<Rightarrow> if controlled s then wann else []),
      (LevelNamespace, nann)]"

text \<open>The reader answers every question about the subject.\<close>

definition answers ::
  "('q, 'sel, 'm, 'e) reader \<Rightarrow> 'q subject \<Rightarrow> ('q, 'sel, 'm) policies \<Rightarrow> string \<times> string \<Rightarrow> str_map \<Rightarrow> str_map \<Rightarrow> bool"
where
  "answers R s ps ow wann nann \<longleftrightarrow>
     rd_Policies R = Inr ps \<and> rd_PodOwner R (the (s_pod s)) = Inr ow \<and>
     rd_WorkloadAnnotations R (s_namespace s) (fst ow) (snd ow) = Inr wann \<and>
     rd_NamespaceAnnotations R (s_namespace s) = Inr nann"

lemma gate_refuses_consent:
  assumes "gateRefusal G ps ns labels = Some r"
  shows "\<exists>r. consent G ps name ns labels = Inl r"
proof (cases "map_of (byName ps) name")
  case None
  then show ?thesis by (simp add: consent_def namespaceConsent_def)
next
  case (Some c)
  then have c: "(name, c) \<in> set (byName ps)" by (rule map_of_SomeD)
  show ?thesis
  proof (cases "namespaceRefusal ps c ns")
    case None
    then have "ns \<notin> set (ps_excluded ps)" by (simp add: namespaceRefusal_def Let_def split: if_splits)
    with assms c None have "labelRefusal G c labels = Some LabelsNotSelected"
      by (auto simp: gateRefusal_def list_ex_iff split: if_splits)
    with Some None show ?thesis by (simp add: consent_def namespaceConsent_def)
  qed (use Some in \<open>simp add: consent_def namespaceConsent_def\<close>)
qed

lemma gate_refuses_plain:
  assumes "gateRefusal G ps (s_namespace s) (s_labels s) = Some r"
  shows "plain_governs G ps s owner levels = None"
proof (cases "first_optin levels")
  case (Inr nl)
  then show ?thesis
    using gate_refuses_consent [OF assms, of "fst nl"]
    by (auto simp: plain_governs_def split: prod.splits)
qed (simp add: plain_governs_def)

lemma managedBy_governs [simp]:
  "d_Governs (managedBy d p kind) =
     (case ModeForKind (us_Types (rs_Update (p_RightSizing p))) kind of
        None \<Rightarrow> d_Governs d | Some m \<Rightarrow> Some (p, m))"
  by (simp add: managedBy_def split: option.splits)

section \<open>Reads of a walk\<close>

text \<open>What the walk has cached agrees with what its reader answers.\<close>

definition walk_ok ::
  "('q, 'sel, 'm, 'e) reader \<Rightarrow> 'q subject \<Rightarrow> ('q, 'sel, 'm) policies \<Rightarrow> string \<times> string \<Rightarrow> ('q, 'sel, 'm) walk \<Rightarrow> bool"
where
  "walk_ok R s ps own w \<longleftrightarrow>
     rd_Policies R = Inr ps \<and> (wk_policies w = None \<or> wk_policies w = Some ps) \<and>
     (case wk_owner w of None \<Rightarrow> rd_PodOwner R (the (s_pod s)) = Inr own | Some x \<Rightarrow> x = own)"

lemma readPolicies_ok:
  assumes "walk_ok R s ps own w"
  obtains w' where "readPolicies R w = (Inr ps, w')" "walk_ok R s ps own w'" "wk_gated w' = wk_gated w"
    "wk_owner w' = wk_owner w"
  using assms by (auto simp: walk_ok_def readPolicies_def call_def and_then_def split: option.splits)

lemma readOwner_ok:
  assumes "walk_ok R s ps own w"
  obtains w' where "readOwner R s w = (Inr own, w')" "walk_ok R s ps own w'" "wk_gated w' = wk_gated w"
  using assms by (auto simp: walk_ok_def readOwner_def call_def and_then_def split: option.splits)

lemma gate_ok:
  assumes "walk_ok R s ps own w"
  obtains w' where "gate G R s w = (Inr (if wk_gated w then None else gateRefusal G ps (s_namespace s) (s_labels s)), w')"
    "walk_ok R s ps own w'" "wk_gated w'" "wk_owner w' = wk_owner w"
proof (cases "wk_gated w")
  case True
  then show ?thesis using that [of w] assms by (simp add: gate_def)
next
  case False
  obtain w1 where w1: "readPolicies R w = (Inr ps, w1)" "walk_ok R s ps own w1" "wk_owner w1 = wk_owner w"
    using readPolicies_ok [OF assms] by metis
  with False show ?thesis
    using that [of "w1\<lparr>wk_gated := True\<rparr>"] by (simp add: gate_def and_then_def walk_ok_def)
qed

lemma call_ok:
  assumes "walk_ok R s ps own w"
  obtains w' where "call c a w = (a, w')" "walk_ok R s ps own w'" "wk_gated w' = wk_gated w"
  using assms by (simp add: call_def walk_ok_def)

text \<open>The workload level of a controlled pod is read behind the gate.\<close>

lemma workloadAnnotations_ok:
  assumes "walk_ok R s ps own w" "\<not> wk_gated w"
    and "s_workload s = None \<Longrightarrow> \<not> controlled s \<Longrightarrow> wk_owner w = Some ([], [])"
    and "s_workload s = None \<Longrightarrow> controlled s \<Longrightarrow>
           wk_owner w = None \<and> rd_WorkloadAnnotations R (s_namespace s) (fst own) (snd own) = Inr wann"
  obtains w' res where "workloadAnnotations G R s w = (Inr res, w')" "walk_ok R s ps own w'"
    "res = Inr (case s_workload s of Some m \<Rightarrow> wm_annotations m | None \<Rightarrow> if controlled s then wann else []) \<or>
     (gateRefusal G ps (s_namespace s) (s_labels s) \<noteq> None \<and> (\<exists>r. res = Inl r))"
    "wk_gated w' \<longrightarrow> (\<exists>r. res = Inl r) \<or> gateRefusal G ps (s_namespace s) (s_labels s) = None"
proof (cases "s_workload s = None \<and> controlled s")
  case False
  let ?ann = "case s_workload s of Some m \<Rightarrow> wm_annotations m | None \<Rightarrow> if controlled s then wann else []"
  have "workloadAnnotations G R s w = (Inr (Inr ?ann), w)"
    using False assms(3) by (cases "s_workload s") (simp_all add: workloadAnnotations_def)
  then show ?thesis using that [of "Inr ?ann" w] assms(1,2) by blast
next
  case True
  with assms(4) have own: "wk_owner w = None" "rd_WorkloadAnnotations R (s_namespace s) (fst own) (snd own) = Inr wann"
    by auto
  obtain w1 where w1: "gate G R s w = (Inr (gateRefusal G ps (s_namespace s) (s_labels s)), w1)" "walk_ok R s ps own w1"
    using gate_ok [OF assms(1)] assms(2) by metis
  show ?thesis
  proof (cases "gateRefusal G ps (s_namespace s) (s_labels s)")
    case (Some r)
    with True own w1 that [of "Inl r" w1] show ?thesis
      by (simp add: workloadAnnotations_def and_then_def yields_def)
  next
    case None
    obtain w2 where w2: "readOwner R s w1 = (Inr own, w2)" "walk_ok R s ps own w2" using readOwner_ok [OF w1(2)] .
    obtain w3 where w3: "call ReadWorkloadAnnotations (rd_WorkloadAnnotations R (s_namespace s) (fst own) (snd own)) w2 =
        (Inr wann, w3)" "walk_ok R s ps own w3"
      using call_ok [OF w2(2)] own(2) by metis
    from True own(1) None w1 w2 w3 show ?thesis
      using that [of "Inr wann" w3]
      by (simp add: workloadAnnotations_def and_then_def yields_def case_prod_unfold)
  qed
qed

lemma namespaceAnnotations_ok:
  assumes "walk_ok R s ps own w" "rd_NamespaceAnnotations R (s_namespace s) = Inr nann"
  obtains w' res where "namespaceAnnotations G R s w = (Inr res, w')" "walk_ok R s ps own w'"
    "res = Inr nann \<or> (gateRefusal G ps (s_namespace s) (s_labels s) \<noteq> None \<and> (\<exists>r. res = Inl r))"
proof -
  obtain w1 g where w1: "gate G R s w = (Inr g, w1)" "walk_ok R s ps own w1"
    "g \<noteq> None \<longrightarrow> g = gateRefusal G ps (s_namespace s) (s_labels s)"
    using gate_ok [OF assms(1), of G] by (metis (full_types))
  obtain w2 where w2: "call ReadNamespaceAnnotations (rd_NamespaceAnnotations R (s_namespace s)) w1 = (Inr nann, w2)"
    "walk_ok R s ps own w2"
    using call_ok [OF w1(2)] assms(2) by metis
  show ?thesis
  proof (cases g)
    case (Some r)
    then have "namespaceAnnotations G R s w = (Inr (Inl r), w1)"
      using w1(1) by (simp add: namespaceAnnotations_def and_then_def yields_def)
    with that [of "Inl r" w1] w1(2,3) Some show ?thesis by auto
  next
    case None
    then have "namespaceAnnotations G R s w = (Inr (Inr nann), w2)"
      using w1(1) w2(1) by (simp add: namespaceAnnotations_def and_then_def yields_def)
    with that [of "Inr nann" w2] w2(2) show ?thesis by simp
  qed
qed

lemma optIn_levels_step:
  assumes "rd w = (Inr r, w1)" "P w1" "r = Inr ann \<or> (g \<and> (\<exists>x. r = Inl x))"
    and "\<exists>res w2. optIn_levels ls w1 = (Inr res, w2) \<and> P w2 \<and> (res = first_optin fl \<or> (g \<and> (\<exists>x. res = Inl x)))"
  shows "\<exists>res w2. optIn_levels ((lev, rd) # ls) w = (Inr res, w2) \<and> P w2 \<and>
           (res = first_optin ((lev, ann) # fl) \<or> (g \<and> (\<exists>x. res = Inl x)))"
proof (cases r)
  case (Inl x)
  with assms show ?thesis by (simp add: and_then_def yields_def)
next
  case (Inr a)
  with assms have "a = ann" by simp
  with Inr assms show ?thesis by (auto simp: and_then_def yields_def)
qed

lemma optIn_ok:
  assumes "answers R s ps ow wann nann" "own = subject_owner s ow"
    and "o' = (if s_workload s = None \<and> controlled s then None else Some own)"
  obtains w' res where "optIn G R s (fresh_walk o') = (Inr res, w')" "walk_ok R s ps own w'"
    "res = first_optin (subject_levels s wann nann) \<or>
     (gateRefusal G ps (s_namespace s) (s_labels s) \<noteq> None \<and> (\<exists>r. res = Inl r))"
proof -
  let ?w = "fresh_walk o' :: (_, _, _) walk"
  let ?wl = "case s_workload s of Some m \<Rightarrow> wm_annotations m | None \<Rightarrow> if controlled s then wann else []"
  have ok: "walk_ok R s ps own ?w"
    using assms by (auto simp: walk_ok_def fresh_walk_def answers_def subject_owner_def)
  obtain w1 r1 where w1: "workloadAnnotations G R s ?w = (Inr r1, w1)" "walk_ok R s ps own w1"
    "r1 = Inr ?wl \<or> (gateRefusal G ps (s_namespace s) (s_labels s) \<noteq> None \<and> (\<exists>r. r1 = Inl r))"
  proof (rule workloadAnnotations_ok [OF ok, of wann G])
    show "\<not> wk_gated ?w" by (simp add: fresh_walk_def)
    show "wk_owner ?w = Some ([], [])" if "s_workload s = None" "\<not> controlled s"
      using that assms(2,3) by (simp add: fresh_walk_def subject_owner_def)
    show "wk_owner ?w = None \<and> rd_WorkloadAnnotations R (s_namespace s) (fst own) (snd own) = Inr wann"
      if "s_workload s = None" "controlled s"
      using that assms by (simp add: fresh_walk_def subject_owner_def answers_def)
  qed blast
  obtain w2 r2 where w2: "namespaceAnnotations G R s w1 = (Inr r2, w2)" "walk_ok R s ps own w2"
    "r2 = Inr nann \<or> (gateRefusal G ps (s_namespace s) (s_labels s) \<noteq> None \<and> (\<exists>r. r2 = Inl r))"
    using namespaceAnnotations_ok [OF w1(2)] assms(1) unfolding answers_def by metis
  let ?g = "gateRefusal G ps (s_namespace s) (s_labels s) \<noteq> None"
  have "\<exists>res w. optIn G R s ?w = (Inr res, w) \<and> walk_ok R s ps own w \<and>
      (res = first_optin (subject_levels s wann nann) \<or> (?g \<and> (\<exists>x. res = Inl x)))"
    unfolding optIn_def subject_levels_def
  proof (rule optIn_levels_step [where P = "walk_ok R s ps own" and w = ?w and ?w1.0 = ?w and r = "Inr (s_annotations s)"])
    show "\<exists>res w. optIn_levels [(LevelWorkload, workloadAnnotations G R s), (LevelNamespace, namespaceAnnotations G R s)] ?w =
          (Inr res, w) \<and> walk_ok R s ps own w \<and>
          (res = first_optin [(LevelWorkload, ?wl), (LevelNamespace, nann)] \<or> (?g \<and> (\<exists>x. res = Inl x)))"
      by (rule optIn_levels_step [where P = "walk_ok R s ps own" and rd = "workloadAnnotations G R s" and w = ?w, OF w1(1-3)],
          rule optIn_levels_step [where P = "walk_ok R s ps own" and rd = "namespaceAnnotations G R s" and w = w1, OF w2(1-3)]) (simp add: w2)
  qed (simp_all add: yields_def ok)
  with that show ?thesis by blast
qed

lemma walk_decide_ok:
  assumes "answers R s ps ow wann nann" "own = subject_owner s ow"
    and "o' = (if s_workload s = None \<and> controlled s then None else Some own)"
  obtains d w' where "walk_decide G R s (fresh_walk o') = (Inr d, w')"
    "d_Governs d = plain_governs G ps s own (subject_levels s wann nann)"
proof -
  obtain w1 res where w1: "optIn G R s (fresh_walk o') = (Inr res, w1)" "walk_ok R s ps own w1"
    "res = first_optin (subject_levels s wann nann) \<or>
     (gateRefusal G ps (s_namespace s) (s_labels s) \<noteq> None \<and> (\<exists>r. res = Inl r))"
    using optIn_ok [OF assms] .
  show ?thesis
  proof (cases res)
    case (Inl r)
    then have "plain_governs G ps s own (subject_levels s wann nann) = None"
    proof (cases "res = first_optin (subject_levels s wann nann)")
      case True
      then have "first_optin (subject_levels s wann nann) = Inl r" using Inl by metis
      then show ?thesis by (simp add: plain_governs_def)
    next
      case False
      then obtain x where "gateRefusal G ps (s_namespace s) (s_labels s) = Some x" using w1(3) by auto
      then show ?thesis by (rule gate_refuses_plain)
    qed
    moreover have "walk_decide G R s (fresh_walk o') = (Inr (zero_decision\<lparr>d_Refusal := Some r\<rparr>), w1)"
      unfolding walk_decide_def and_then_Inr [where m = "optIn G R s", OF w1(1)] Inl by (simp add: yields_def)
    ultimately show ?thesis using that by (simp add: zero_decision_def)
  next
    case (Inr nl)
    obtain name lev where nl: "nl = (name, lev)" by (cases nl)
    have first: "first_optin (subject_levels s wann nann) = Inr (name, lev)" using w1(3) Inr nl by auto
    obtain w2 where w2: "readPolicies R w1 = (Inr ps, w2)" "walk_ok R s ps own w2" using readPolicies_ok [OF w1(2)] .
    obtain w3 where w3: "readOwner R s w2 = (Inr own, w3)" using readOwner_ok [OF w2(2)] .
    let ?d0 = "zero_decision\<lparr>d_OptIn := name, d_Level := lev\<rparr>"
    have step: "walk_decide G R s (fresh_walk o') =
        (case consent G ps name (s_namespace s) (s_labels s) of
           Inl r \<Rightarrow> (Inr (?d0\<lparr>d_Refusal := Some r\<rparr>), w2)
         | Inr p \<Rightarrow> (Inr (managedBy ?d0 p (OwnerKind (identity_of G s own))), w3))"
      unfolding walk_decide_def and_then_Inr [where m = "optIn G R s", OF w1(1)] Inr nl
      by (simp add: and_then_Inr [where m = "readPolicies R", OF w2(1)]
          and_then_Inr [where m = "readOwner R s", OF w3] yields_def Let_def split: sum.split)
    have none: "d_Governs ?d0 = None" by (simp add: zero_decision_def)
    show ?thesis
    proof (cases "consent G ps name (s_namespace s) (s_labels s)")
      case (Inl r)
      with step none first that [of "?d0\<lparr>d_Refusal := Some r\<rparr>" w2] show ?thesis by (simp add: plain_governs_def)
    next
      case (Inr p)
      with step none first that [of "managedBy ?d0 p (OwnerKind (identity_of G s own))" w3] show ?thesis
        by (cases "ModeForKind (us_Types (rs_Update (p_RightSizing p))) (OwnerKind (identity_of G s own))")
           (simp_all add: plain_governs_def)
    qed
  qed
qed

text \<open>C5. The walk is faithful to the plain rule: when its reads succeed, \<open>Decide\<close> answers with the
  Policy and mode that reading every level and applying consent would give, for pod templates,
  controlled pods and bare pods alike. The pre-gate that spares reads never changes who governs.\<close>

theorem decide_follows_plain_rule:
  assumes "answers R s ps ow wann nann" "s_departed s = None"
  shows "\<exists>d. fst (Decide G R s) = Inr d \<and>
             d_Governs d = plain_governs G ps s (subject_owner s ow) (subject_levels s wann nann)"
proof -
  let ?own = "subject_owner s ow"
  define o' where "o' = (if s_workload s = None \<and> controlled s then None else Some ?own)"
  obtain d w where d: "walk_decide G R s (fresh_walk o') = (Inr d, w)"
    "d_Governs d = plain_governs G ps s ?own (subject_levels s wann nann)"
    using walk_decide_ok [OF assms(1) refl o'_def] .
  then have df: "\<exists>d. fst (decide_from G R s o') = Inr d \<and>
      d_Governs d = plain_governs G ps s ?own (subject_levels s wann nann)"
    by (auto simp: decide_from_def and_then_def split: option.split)
  show ?thesis
  proof (cases "s_workload s = None \<and> \<not> controlled s \<and> OwnerKind (identity_of G s ([], [])) = []")
    case True
    then have "plain_governs G ps s ?own (subject_levels s wann nann) = None"
      by (auto simp: plain_governs_def subject_owner_def ModeForKind_def split: sum.splits prod.splits)
    with True assms(2) show ?thesis by (simp add: Decide_def controlled_def zero_decision_def)
  next
    case False
    then have "Decide G R s = decide_from G R s o'"
      using assms(2) by (auto simp: Decide_def o'_def subject_owner_def controlled_def split: option.splits)
    with df show ?thesis by simp
  qed
qed

section \<open>Exclusions, opt-outs and reads\<close>

lemma namespaceConsent_excluded:
  "ns \<in> set (ps_excluded ps) \<Longrightarrow> \<exists>r. namespaceConsent ps name ns = Inl r"
  by (auto simp: namespaceConsent_def namespaceRefusal_def Let_def split: option.splits)

lemma consent_excluded: "ns \<in> set (ps_excluded ps) \<Longrightarrow> \<exists>r. consent G ps name ns labels = Inl r"
  using namespaceConsent_excluded [of ns ps name] by (auto simp: consent_def)

lemma departedConsent_excluded: "ns \<in> set (ps_excluded ps) \<Longrightarrow> \<exists>r. departedConsent ps name ns = Inl r"
  using namespaceConsent_excluded [of ns ps name] by (auto simp: departedConsent_def)

lemma and_then_InrE:
  assumes "and_then m f w = (Inr b, w2)"
  obtains a w1 where "m w = (Inr a, w1)" "f a w1 = (Inr b, w2)"
  using assms by (auto simp: and_then_def split: prod.splits sum.splits)

text \<open>Whatever policies a walk works with, they are the reader's.\<close>

definition policies_from :: "('q, 'sel, 'm) policies \<Rightarrow> ('q, 'sel, 'm) walk \<Rightarrow> bool" where
  "policies_from ps w \<longleftrightarrow> (wk_policies w = None \<or> wk_policies w = Some ps)"

lemma readPolicies_from:
  "readPolicies R w = (Inr x, w') \<Longrightarrow> rd_Policies R = Inr ps \<Longrightarrow> policies_from ps w \<Longrightarrow> x = ps \<and> policies_from ps w'"
  by (auto simp: readPolicies_def policies_from_def call_def and_then_def split: option.splits)

lemma gate_from:
  "gate G R s w = (Inr x, w') \<Longrightarrow> rd_Policies R = Inr ps \<Longrightarrow> policies_from ps w \<Longrightarrow> policies_from ps w'"
  by (auto simp: gate_def policies_from_def elim!: and_then_InrE split: if_splits
      dest: readPolicies_from [unfolded policies_from_def])

lemma readOwner_from:
  "readOwner R s w = (Inr x, w') \<Longrightarrow> policies_from ps w \<Longrightarrow> policies_from ps w'"
  by (auto simp: readOwner_def policies_from_def call_def and_then_def split: option.splits sum.splits)

lemma call_from: "call c a w = (x, w') \<Longrightarrow> policies_from ps w \<Longrightarrow> policies_from ps w'"
  by (auto simp: call_def policies_from_def)

lemma workloadAnnotations_from:
  "workloadAnnotations G R s w = (Inr x, w') \<Longrightarrow> rd_Policies R = Inr ps \<Longrightarrow> policies_from ps w \<Longrightarrow> policies_from ps w'"
  by (auto simp: workloadAnnotations_def yields_def elim!: and_then_InrE split: option.splits if_splits prod.splits
      dest!: gate_from readOwner_from call_from)

lemma namespaceAnnotations_from:
  "namespaceAnnotations G R s w = (Inr x, w') \<Longrightarrow> rd_Policies R = Inr ps \<Longrightarrow> policies_from ps w \<Longrightarrow> policies_from ps w'"
  by (auto simp: namespaceAnnotations_def yields_def elim!: and_then_InrE split: option.splits
      dest!: gate_from call_from)

lemma optIn_levels_from:
  assumes "optIn_levels ls w = (Inr x, w')" "policies_from ps w"
    and "\<And>lev rd w x w'. (lev, rd) \<in> set ls \<Longrightarrow> rd w = (Inr x, w') \<Longrightarrow> policies_from ps w \<Longrightarrow> policies_from ps w'"
  shows "policies_from ps w'"
  using assms
proof (induction ls arbitrary: w x w')
  case (Cons l ls)
  obtain lev rd where l: "l = (lev, rd)" by (cases l)
  from Cons.prems(1) obtain a w1 where a: "rd w = (Inr a, w1)"
    "(case a of Inl r \<Rightarrow> yields (Inl r) | Inr ann \<Rightarrow>
        if lookup_or [] ann OptOutAnnotation = ''true'' then yields (Inl OptedOut)
        else if lookup_or [] ann PolicyAnnotation \<noteq> [] then yields (Inr (lookup_or [] ann PolicyAnnotation, lev))
        else optIn_levels ls) w1 = (Inr x, w')"
    unfolding l by (auto elim!: and_then_InrE)
  have w1: "policies_from ps w1" using Cons.prems(2,3) a(1) l by (meson list.set_intros(1))
  have "policies_from ps w'" if "optIn_levels ls w1 = (Inr x, w')"
    using Cons.IH [OF that w1] Cons.prems(3) by (meson list.set_intros(2))
  with a(2) w1 show ?case by (auto simp: yields_def split: sum.splits if_splits)
qed simp

lemma optIn_from:
  "optIn G R s w = (Inr x, w') \<Longrightarrow> rd_Policies R = Inr ps \<Longrightarrow> policies_from ps w \<Longrightarrow> policies_from ps w'"
  unfolding optIn_def
  by (erule optIn_levels_from)
     (auto simp: yields_def dest: workloadAnnotations_from namespaceAnnotations_from)

lemma walk_decide_excluded:
  assumes "walk_decide G R s w = (Inr d, w')" "rd_Policies R = Inr ps" "policies_from ps w"
    and "s_namespace s \<in> set (ps_excluded ps)"
  shows "d_Governs d = None"
proof -
  from assms(1) obtain res w1 where res: "optIn G R s w = (Inr res, w1)"
    "(case res of Inl r \<Rightarrow> yields (zero_decision\<lparr>d_Refusal := Some r\<rparr>)
      | Inr (name, lev) \<Rightarrow>
          let d = zero_decision\<lparr>d_OptIn := name, d_Level := lev\<rparr>
          in and_then (readPolicies R)
               (\<lambda>ps. case consent G ps name (s_namespace s) (s_labels s) of
                  Inl r \<Rightarrow> yields (d\<lparr>d_Refusal := Some r\<rparr>)
                | Inr p \<Rightarrow> and_then (readOwner R s)
                    (\<lambda>owner. yields (managedBy d p (OwnerKind (identity_of G s owner)))))) w1 = (Inr d, w')"
    unfolding walk_decide_def by (elim and_then_InrE)
  have w1: "policies_from ps w1" using optIn_from [OF res(1) assms(2,3)] .
  show ?thesis
  proof (cases res)
    case (Inl r)
    with res(2) show ?thesis by (auto simp: yields_def zero_decision_def)
  next
    case (Inr nl)
    obtain name lev where nl: "nl = (name, lev)" by (cases nl)
    obtain r where r: "consent G ps name (s_namespace s) (s_labels s) = Inl r"
      using consent_excluded [OF assms(4)] by blast
    from res(2) Inr nl obtain x w2 where x: "readPolicies R w1 = (Inr x, w2)"
      "(case consent G x name (s_namespace s) (s_labels s) of
          Inl r \<Rightarrow> yields (zero_decision\<lparr>d_OptIn := name, d_Level := lev, d_Refusal := Some r\<rparr>)
        | Inr p \<Rightarrow> and_then (readOwner R s)
            (\<lambda>owner. yields (managedBy (zero_decision\<lparr>d_OptIn := name, d_Level := lev\<rparr>) p
               (OwnerKind (identity_of G s owner))))) w2 = (Inr d, w')"
      by (auto simp: Let_def elim!: and_then_InrE)
    with readPolicies_from [OF x(1) assms(2) w1] r show ?thesis by (auto simp: yields_def zero_decision_def)
  qed
qed

text \<open>C6. No Policy governs anything in an excluded namespace, whatever a pod, a workload, a
  Namespace or a departed identity's record asks for.\<close>

theorem excluded_namespace_never_governed:
  assumes "Decide G R s = (Inr d, w)" "rd_Policies R = Inr ps" "s_namespace s \<in> set (ps_excluded ps)"
  shows "\<not> Governed d"
proof -
  have ok: "policies_from ps (fresh_walk o')" for o' by (simp add: policies_from_def fresh_walk_def)
  have from_None: "d_Governs d = None" if df: "decide_from G R s o' = (Inr d, w)" for o'
  proof -
    from df obtain d1 w1 where "walk_decide G R s (fresh_walk o') = (Inr d1, w1)"
      "d = (case wk_owner w1 of Some x \<Rightarrow> d1\<lparr>d_Identity := identity_of G s x\<rparr> | None \<Rightarrow> d1)"
      unfolding decide_from_def by (auto elim!: and_then_InrE)
    with walk_decide_excluded [OF _ assms(2) ok assms(3)] show ?thesis by (auto split: option.splits)
  qed
  have departed: "d_Governs d = None" if dd: "departedDecision R s dep (fresh_walk None) = (Inr d, w)" for dep
  proof -
    obtain r where "departedConsent ps (dep_policy dep) (s_namespace s) = Inl r"
      using departedConsent_excluded [OF assms(3)] by blast
    with dd assms(2) show ?thesis
      by (auto simp: departedDecision_def Let_def readPolicies_def fresh_walk_def call_def and_then_def yields_def
          zero_decision_def)
  qed
  show ?thesis
    using assms(1) from_None departed
    by (auto simp: Decide_def Governed_def zero_decision_def split: option.splits if_splits)
qed

text \<open>A pod or pod template that opts out itself is not governed, whatever the workload and the
  Namespace say, and nothing is read to decide it.\<close>

theorem opt_out_is_final:
  assumes "s_departed s = None" "lookup_or [] (s_annotations s) OptOutAnnotation = ''true''"
  shows "\<exists>d. fst (Decide G R s) = Inr d \<and> \<not> Governed d \<and> d_Refusal d \<in> {Some OptedOut, Some NoOwner} \<and>
             wk_calls (snd (Decide G R s)) = []"
proof -
  have df: "\<exists>d. decide_from G R s o' = (Inr d, fresh_walk o') \<and> d_Governs d = None \<and> d_Refusal d = Some OptedOut" for o'
    using assms(2)
    by (auto simp: decide_from_def walk_decide_def optIn_def and_then_def yields_def fresh_walk_def zero_decision_def
        split: option.splits)
  show ?thesis
  proof (cases "\<exists>o'. Decide G R s = decide_from G R s o'")
    case True
    then obtain o' where "Decide G R s = decide_from G R s o'" ..
    with df [of o'] show ?thesis by (auto simp: Governed_def fresh_walk_def)
  next
    case False
    then have "Decide G R s = (Inr (zero_decision\<lparr>d_Refusal := Some NoOwner\<rparr>), fresh_walk None)"
      using assms(1) by (auto simp: Decide_def split: option.splits if_splits)
    then show ?thesis by (simp add: Governed_def zero_decision_def fresh_walk_def)
  qed
qed

section \<open>The reader is asked nothing twice\<close>

text \<open>A call the walk has not made, and whose answer it has not cached.\<close>

definition asked :: "('q, 'sel, 'm) walk \<Rightarrow> bool" where
  "asked w \<longleftrightarrow> distinct (wk_calls w) \<and> (ReadPolicies \<in> set (wk_calls w) \<longrightarrow> wk_policies w \<noteq> None) \<and>
     (ReadPodOwner \<in> set (wk_calls w) \<longrightarrow> wk_owner w \<noteq> None)"

text \<open>One more step: distinct calls, and the caches of a step that succeeded hold its answer. \<open>C\<close> are
  the calls of the levels, which the step may add.\<close>

definition asks :: "read_call set \<Rightarrow> (('q, 'sel, 'm) walk \<Rightarrow> ('e + 'a) \<times> ('q, 'sel, 'm) walk) \<Rightarrow> bool" where
  "asks C m \<longleftrightarrow> (\<forall>w r w'. asked w \<longrightarrow> set (wk_calls w) \<inter> C = {} \<longrightarrow> m w = (r, w') \<longrightarrow>
     distinct (wk_calls w') \<and>
     set (wk_calls w') \<subseteq> set (wk_calls w) \<union> C \<union> {ReadPolicies, ReadPodOwner} \<and>
     ((\<exists>a. r = Inr a) \<longrightarrow> asked w'))"

lemma asks_yields [intro]: "asks C (yields a)"
  by (auto simp: asks_def yields_def asked_def)

lemma asks_and_then:
  assumes "asks C m" "\<And>a. asks D (f a)" "C \<inter> D = {}" "D \<inter> {ReadPolicies, ReadPodOwner} = {}"
  shows "asks (C \<union> D) (and_then m f)"
  unfolding asks_def
proof (intro allI impI)
  fix w r w' assume w: "asked w" "set (wk_calls w) \<inter> (C \<union> D) = {}" "and_then m f w = (r, w')"
  obtain x w1 where x: "m w = (x, w1)" by (cases "m w")
  have w1: "distinct (wk_calls w1)" "set (wk_calls w1) \<subseteq> set (wk_calls w) \<union> C \<union> {ReadPolicies, ReadPodOwner}"
    "(\<exists>a. x = Inr a) \<longrightarrow> asked w1"
    using assms(1) w(1,2) x unfolding asks_def by blast+
  show "distinct (wk_calls w') \<and>
     set (wk_calls w') \<subseteq> set (wk_calls w) \<union> (C \<union> D) \<union> {ReadPolicies, ReadPodOwner} \<and>
     ((\<exists>a. r = Inr a) \<longrightarrow> asked w')"
  proof (cases x)
    case (Inl e)
    with w(3) x w1 show ?thesis by (auto simp: and_then_def)
  next
    case (Inr a)
    then have f: "f a w1 = (r, w')" using w(3) x by (simp add: and_then_def)
    have "set (wk_calls w1) \<inter> D = {}" using w1(2) w(2) assms(3,4) by blast
    with assms(2) [of a] w1(3) Inr f have
      "distinct (wk_calls w')" "set (wk_calls w') \<subseteq> set (wk_calls w1) \<union> D \<union> {ReadPolicies, ReadPodOwner}"
      "(\<exists>a. r = Inr a) \<longrightarrow> asked w'"
      unfolding asks_def by blast+
    with w1(2) show ?thesis by blast
  qed
qed

lemma asks_call: "asks {c} (call c a)" if "c \<noteq> ReadPolicies" "c \<noteq> ReadPodOwner"
  using that by (auto simp: asks_def call_def asked_def)

lemma asks_readPolicies: "asks {} (readPolicies R)"
  by (auto simp: asks_def asked_def readPolicies_def call_def and_then_def split: option.splits sum.splits)

lemma asks_readOwner: "asks {} (readOwner R s)"
  by (auto simp: asks_def asked_def readOwner_def call_def and_then_def split: option.splits sum.splits)

lemma asks_cases:
  assumes "\<And>x. asks C (f x)" "asks C g"
  shows "asks C (case r of None \<Rightarrow> g | Some x \<Rightarrow> f x)"
  using assms by (cases r) simp_all

lemma asks_mono: "asks C m \<Longrightarrow> C \<subseteq> D \<Longrightarrow> asks D m"
  unfolding asks_def by blast

lemma asks_seq: "asks C m \<Longrightarrow> (\<And>a. asks D (f a)) \<Longrightarrow> C \<inter> D = {} \<Longrightarrow> D \<inter> {ReadPolicies, ReadPodOwner} = {} \<Longrightarrow>
    C \<union> D \<subseteq> B \<Longrightarrow> asks B (and_then m f)"
  using asks_and_then asks_mono by metis

lemma asks_guard:
  assumes "asks C m"
  shows "asks C (\<lambda>w. if P w then (Inr (a w), w) else m w)"
  unfolding asks_def
proof (intro allI impI)
  fix w r w' assume w: "asked w" "set (wk_calls w) \<inter> C = {}" "(if P w then (Inr (a w), w) else m w) = (r, w')"
  show "distinct (wk_calls w') \<and>
     set (wk_calls w') \<subseteq> set (wk_calls w) \<union> C \<union> {ReadPolicies, ReadPodOwner} \<and>
     ((\<exists>a. r = Inr a) \<longrightarrow> asked w')"
  proof (cases "P w")
    case True
    with w have "w' = w" "asked w" by auto
    then show ?thesis by (auto simp: asked_def)
  next
    case False
    with w have "m w = (r, w')" by simp
    with assms w(1,2) show ?thesis unfolding asks_def by blast
  qed
qed

lemma asks_gated: "asks {} (\<lambda>w. (Inr a, w\<lparr>wk_gated := True\<rparr>))"
  by (auto simp: asks_def asked_def)

lemma asks_gate: "asks {} (gate G R s)"
proof -
  have "asks {} (and_then (readPolicies R)
      (\<lambda>ps w'. (Inr (gateRefusal G ps (s_namespace s) (s_labels s)), w'\<lparr>wk_gated := True\<rparr>)))"
    by (rule asks_seq [OF asks_readPolicies asks_gated]) simp_all
  from asks_guard [OF this, of wk_gated "\<lambda>_. None"] show ?thesis
    unfolding gate_def by (rule back_subst [of "asks {}"]) (simp add: fun_eq_iff gate_def)
qed

lemma asks_workloadAnnotations: "asks {ReadWorkloadAnnotations} (workloadAnnotations G R s)"
proof -
  have inner: "asks {ReadWorkloadAnnotations}
      (and_then (call ReadWorkloadAnnotations (rd_WorkloadAnnotations R (s_namespace s) kind name))
        (\<lambda>ann. yields (Inr ann :: refusal + str_map)))" for kind name
    by (rule asks_seq [of "{ReadWorkloadAnnotations}" _ "{}"]) (auto intro: asks_call)
  have "asks {ReadWorkloadAnnotations} (and_then (readOwner R s)
      (\<lambda>(kind, name). and_then (call ReadWorkloadAnnotations (rd_WorkloadAnnotations R (s_namespace s) kind name))
        (\<lambda>ann. yields (Inr ann :: refusal + str_map))))"
    by (rule asks_seq [OF asks_readOwner, of "{ReadWorkloadAnnotations}"]) (auto intro: inner)
  then have "asks {ReadWorkloadAnnotations} (and_then (gate G R s)
       (\<lambda>refused. case refused of
          Some r \<Rightarrow> yields (Inl r)
        | None \<Rightarrow> and_then (readOwner R s)
            (\<lambda>(kind, name). and_then (call ReadWorkloadAnnotations (rd_WorkloadAnnotations R (s_namespace s) kind name))
              (\<lambda>ann. yields (Inr ann)))))"
    by (intro asks_seq [OF asks_gate, of "{ReadWorkloadAnnotations}"] asks_cases) auto
  note deep = this
  show ?thesis
  proof (cases "s_workload s")
    case (Some m)
    then have "workloadAnnotations G R s = yields (Inr (wm_annotations m))"
      by (simp add: workloadAnnotations_def yields_def fun_eq_iff)
    then show ?thesis by auto
  next
    case None
    from asks_guard [OF deep, of "\<lambda>w. case wk_owner w of Some (kind, _) \<Rightarrow> kind = [] | None \<Rightarrow> False" "\<lambda>_. Inr []"]
    show ?thesis
      by (rule back_subst [of "asks {ReadWorkloadAnnotations}"]) (simp add: fun_eq_iff workloadAnnotations_def None)
  qed
qed

lemma asks_namespaceAnnotations: "asks {ReadNamespaceAnnotations} (namespaceAnnotations G R s)"
  unfolding namespaceAnnotations_def
  by (intro asks_seq [OF asks_gate, of "{ReadNamespaceAnnotations}"] asks_cases
        asks_seq [of "{ReadNamespaceAnnotations}" _ "{}"]) (auto intro: asks_call)

lemma asks_level:
  assumes "asks C rd" "asks D (optIn_levels ls)" "C \<inter> D = {}" "D \<inter> {ReadPolicies, ReadPodOwner} = {}" "C \<union> D \<subseteq> B"
  shows "asks B (optIn_levels ((lev, rd) # ls))"
proof -
  have "asks D (case res of Inl r \<Rightarrow> yields (Inl r)
        | Inr ann \<Rightarrow>
            if lookup_or [] ann OptOutAnnotation = ''true'' then yields (Inl OptedOut)
            else if lookup_or [] ann PolicyAnnotation \<noteq> []
            then yields (Inr (lookup_or [] ann PolicyAnnotation, lev))
            else optIn_levels ls)" for res
    using assms(2) by (cases res) auto
  moreover have "optIn_levels ((lev, rd) # ls) = and_then rd
      (\<lambda>res. case res of Inl r \<Rightarrow> yields (Inl r)
        | Inr ann \<Rightarrow>
            if lookup_or [] ann OptOutAnnotation = ''true'' then yields (Inl OptedOut)
            else if lookup_or [] ann PolicyAnnotation \<noteq> []
            then yields (Inr (lookup_or [] ann PolicyAnnotation, lev))
            else optIn_levels ls)"
    by (simp add: fun_eq_iff)
  ultimately show ?thesis by (simp only:) (rule asks_seq [OF assms(1) _ assms(3-5)])
qed

lemma asks_optIn: "asks {ReadWorkloadAnnotations, ReadNamespaceAnnotations} (optIn G R s)"
proof -
  have "asks {} (optIn_levels [] :: ('a, 'b, 'c) walk \<Rightarrow> ('d + refusal + string \<times> level) \<times> ('a, 'b, 'c) walk)"
    by (auto simp: asks_def asked_def)
  from asks_level [OF asks_namespaceAnnotations this, of "{ReadNamespaceAnnotations}"]
  have "asks {ReadNamespaceAnnotations} (optIn_levels [(LevelNamespace, namespaceAnnotations G R s)])" by simp
  from asks_level [OF asks_workloadAnnotations this, of "{ReadWorkloadAnnotations, ReadNamespaceAnnotations}"]
  have "asks {ReadWorkloadAnnotations, ReadNamespaceAnnotations}
      (optIn_levels [(LevelWorkload, workloadAnnotations G R s), (LevelNamespace, namespaceAnnotations G R s)])" by simp
  from asks_level [OF asks_yields [of "{}"] this, of "{ReadWorkloadAnnotations, ReadNamespaceAnnotations}"]
  show ?thesis unfolding optIn_def by simp
qed

lemma asks_walk_decide: "asks {ReadWorkloadAnnotations, ReadNamespaceAnnotations} (walk_decide G R s)"
proof -
  have owner: "asks {} (and_then (readOwner R s) (\<lambda>owner. yields (f owner)))" for f
    by (rule asks_seq [OF asks_readOwner asks_yields]) simp_all
  have "asks {} (case res of Inl r \<Rightarrow> yields (f r) | Inr p \<Rightarrow> and_then (readOwner R s) (\<lambda>owner. yields (g p owner)))" for res f g
    using owner by (cases res) auto
  then have "asks {} (and_then (readPolicies R)
      (\<lambda>ps. case h ps of Inl r \<Rightarrow> yields (f r) | Inr p \<Rightarrow> and_then (readOwner R s) (\<lambda>owner. yields (g p owner))))" for h f g
    by (rule asks_seq [OF asks_readPolicies]) simp_all
  then have rest: "asks {} (case res of
          Inl r \<Rightarrow> yields (zero_decision\<lparr>d_Refusal := Some r\<rparr>)
        | Inr (name, lev) \<Rightarrow>
            let d = zero_decision\<lparr>d_OptIn := name, d_Level := lev\<rparr>
            in and_then (readPolicies R)
                 (\<lambda>ps. case consent G ps name (s_namespace s) (s_labels s) of
                    Inl r \<Rightarrow> yields (d\<lparr>d_Refusal := Some r\<rparr>)
                  | Inr p \<Rightarrow> and_then (readOwner R s)
                               (\<lambda>owner. yields (managedBy d p (OwnerKind (identity_of G s owner))))))" for res
    unfolding Let_def by (cases res) (auto split: prod.split)
  show ?thesis unfolding walk_decide_def by (rule asks_seq [OF asks_optIn rest]) simp_all
qed

text \<open>\<open>Decide\<close> asks its reader each question at most once, whatever the answers, errors included:
  no path lists the Policies, resolves the owner or reads a level's annotations twice.\<close>

theorem decide_reads_once: "distinct (wk_calls (snd (Decide G R s)))"
proof -
  have fresh: "asked (fresh_walk o')" "set (wk_calls (fresh_walk o')) = {}" for o'
    by (simp_all add: asked_def fresh_walk_def)
  have df: "distinct (wk_calls (snd (decide_from G R s o')))" for o'
  proof -
    obtain r w where w: "walk_decide G R s (fresh_walk o') = (r, w)" by (cases "walk_decide G R s (fresh_walk o')")
    then have "distinct (wk_calls w)"
      using asks_walk_decide [of G R s, unfolded asks_def, rule_format, OF fresh(1) _ w]
      by (simp add: fresh_walk_def)
    with w show ?thesis by (cases r) (simp_all add: decide_from_def and_then_def)
  qed
  have "distinct (wk_calls (snd (departedDecision R s dep (fresh_walk None))))" for dep
    by (auto simp: departedDecision_def Let_def readPolicies_def call_def fresh_walk_def and_then_def yields_def
        split: sum.splits)
  with df fresh show ?thesis by (auto simp: Decide_def fresh_walk_def split: option.splits)
qed

section \<open>The PolicyLister's cache\<close>

text \<open>What a lister keeps was compiled from the Policy it is kept with.\<close>

definition last_ok :: "('sel, 'm) gov_env \<Rightarrow> (string, ('q, 'sel, 'm) compiled) gomap \<Rightarrow> bool" where
  "last_ok G prev \<longleftrightarrow> (\<forall>n c. map_of prev n = Some c \<longrightarrow> c = compile_policy G (cp_policy c))"

text \<open>A stored version identifies the content, as Kubernetes documents for \<open>metadata.uid\<close> and
  \<open>metadata.resourceVersion\<close>.\<close>

definition versions_identify :: "('q, 'sel) policy list \<Rightarrow> bool" where
  "versions_identify seen \<longleftrightarrow>
     (\<forall>p\<in>set seen. \<forall>p'\<in>set seen. p_UID p = p_UID p' \<and> p_ResourceVersion p = p_ResourceVersion p' \<and>
        p_ResourceVersion p \<noteq> [] \<longrightarrow> p = p')"

lemma cp_policy_compile [simp]: "cp_policy (compile_policy G p) = p"
  by (simp add: compile_policy_def split: option.splits)

lemma index_step_fresh:
  assumes "last_ok G prev" "\<And>n c. map_of prev n = Some c \<Longrightarrow> cp_policy c \<in> set seen" "p \<in> set seen" "versions_identify seen"
  shows "index_step G prev p = compile_policy G p"
proof (cases "map_of prev (p_Name p)")
  case (Some c)
  then have "c = compile_policy G (cp_policy c)" "cp_policy c \<in> set seen" using assms by (auto simp: last_ok_def)
  with Some assms(3,4) show ?thesis
    by (auto simp: index_step_def versions_identify_def)
qed (simp add: index_step_def)

lemma map_by_cong: "(\<And>x. x \<in> set xs \<Longrightarrow> f x = g x) \<Longrightarrow> map_by k f xs = map_by k g xs"
  unfolding map_by_def by (rule fold_cong) auto

text \<open>A run of \<open>List\<close> calls, each with what the client answered.\<close>

fun list_calls ::
  "('sel, 'm) gov_env \<Rightarrow> ('e + ('q, 'sel) policy list) list \<Rightarrow> ('q, 'sel, 'm) policy_lister \<Rightarrow>
   ('e list_error + ('q, 'sel, 'm) policies) list" where
  "list_calls G [] l = []"
| "list_calls G (a # as) l = (let (r, l') = lister_List G a l in r # list_calls G as l')"

definition answered :: "('e + ('q, 'sel) policy list) list \<Rightarrow> ('q, 'sel) policy list" where
  "answered as = concat (map (\<lambda>a. case a of Inl _ \<Rightarrow> [] | Inr items \<Rightarrow> items) as)"

lemma list_calls_fresh:
  assumes "last_ok G (pl_last l)" "\<And>n c. map_of (pl_last l) n = Some c \<Longrightarrow> cp_policy c \<in> set seen"
    "set (answered as) \<subseteq> set seen" "versions_identify seen" "pl_built l"
  shows "list_calls G as l = map (\<lambda>a. case a of Inl e \<Rightarrow> Inl (ListingPolicies e) | Inr items \<Rightarrow> Inr (index G items (pl_excluded l) [])) as"
  using assms
proof (induction as arbitrary: l)
  case (Cons a as)
  show ?case
  proof (cases a)
    case (Inl e)
    with Cons show ?thesis by (simp add: lister_List_def answered_def)
  next
    case (Inr items)
    have step: "index_step G (pl_last l) p = compile_policy G p" if "p \<in> set items" for p
      using index_step_fresh [OF Cons.prems(1,2) _ Cons.prems(4)] that Inr Cons.prems(3) by (auto simp: answered_def)
    have eq: "index G items (pl_excluded l) (pl_last l) = index G items (pl_excluded l) []"
      unfolding index_def using step by (auto intro!: map_by_cong simp: index_step_def)
    let ?l = "l\<lparr>pl_last := byName (index G items (pl_excluded l) [])\<rparr>"
    have bn: "byName (index G items (pl_excluded l) []) = map_by p_Name (compile_policy G) items"
      by (auto simp: index_def index_step_def intro!: map_by_cong)
    have "list_calls G as ?l = map (\<lambda>a. case a of Inl e \<Rightarrow> Inl (ListingPolicies e)
        | Inr items \<Rightarrow> Inr (index G items (pl_excluded ?l) [])) as"
    proof (rule Cons.IH)
      show "last_ok G (pl_last ?l)" by (auto simp: bn last_ok_def map_of_map_by)
      show "cp_policy c \<in> set seen" if "map_of (pl_last ?l) n = Some c" for n c
        using that Cons.prems(3) Inr by (auto simp: bn map_of_map_by answered_def dest!: find_Some_set)
    qed (use Cons.prems in \<open>auto simp: answered_def\<close>)
    with Inr eq Cons.prems(5) show ?thesis by (simp add: lister_List_def Let_def split: sum.split)
  qed
qed simp

text \<open>Reusing compiled selectors is invisible: over any sequence of \<open>List\<close> calls, errors
  included, a PolicyLister answers each as if it compiled every Policy anew, provided a stored
  version identifies its content. A lister \<open>NewPolicyLister\<close> did not build answers none.\<close>

theorem lister_cache_invisible:
  assumes "versions_identify (answered as)"
  shows "list_calls G as (NewPolicyLister excluded) =
           map (\<lambda>a. case a of Inl e \<Rightarrow> Inl (ListingPolicies e) | Inr items \<Rightarrow> Inr (index G items excluded [])) as \<and>
         (\<forall>l. \<not> pl_built l \<longrightarrow> fst (lister_List G a l) = Inl ErrNoPolicyLister)"
  using list_calls_fresh [of G "NewPolicyLister excluded" "answered as" as] assms
  by (simp add: NewPolicyLister_def last_ok_def lister_List_def)

section \<open>An example\<close>

text \<open>One Policy that manages Deployments ongoing, in a cluster that excludes \<open>kube-system\<close>.\<close>

definition ex_gov :: "(unit, unit) gov_env" where
  "ex_gov = \<lparr> compile_selector = Some, selector_matches = (\<lambda>_ _. True), valid_label_value = (\<lambda>_. True) \<rparr>"

definition ex_resource_config :: "fixed resource_config" where
  "ex_resource_config =
     \<lparr> Window = [], rc_Requests = \<lparr> Headroom = None, KeepRequest = False, MaxAllowed = None, MinAllowed = None,
         Percentile = None \<rparr>,
       rc_Limits = \<lparr> EqualsToRequest = False, KeepLimit = False, KeepLimitRequestRatio = False, NoLimit = False,
         RequestsLimitsRatio = None \<rparr>, DownsizeThreshold = None \<rparr>"

definition ex_policy :: "(fixed, unit) policy" where
  "ex_policy =
     \<lparr> p_Name = ''web'', p_UID = ''u1'', p_ResourceVersion = ''7'',
       p_Selector = \<lparr> ps_Namespaces = [], ps_LabelSelector = None \<rparr>,
       p_RightSizing =
         \<lparr> rs_Update = \<lparr> us_Types = \<lparr> ut_Deployment = Some UpdateModeOngoing, ut_StatefulSet = None, ut_DaemonSet = None,
             ut_CronJob = None, ut_Job = None, ut_ArgoRollout = None, ut_Pod = None \<rparr>, IgnoreSafeToEvict = False \<rparr>,
           ResourcesConfigs = \<lparr> rs_CPU = ex_resource_config, rs_Memory = ex_resource_config \<rparr>,
           AutoscalerCoordination = \<lparr> ac_Enabled = False, ReplicaBudgetAnchor = None \<rparr>,
           ExcludeInitContainers = False, RecommendOnly = False \<rparr> \<rparr>"

definition ex_policies :: "(fixed, unit, unit) policies" where
  "ex_policies = index ex_gov [ex_policy] [''kube-system''] []"

definition ex_reader :: "(fixed, unit, unit, unit) reader" where
  "ex_reader = \<lparr> rd_Policies = Inr ex_policies, rd_PodOwner = (\<lambda>_. Inr (''Deployment'', ''api'')),
                 rd_WorkloadAnnotations = (\<lambda>_ _ _. Inr []), rd_NamespaceAnnotations = (\<lambda>_. Inr [(PolicyAnnotation, ''web'')]) \<rparr>"

definition ex_subject :: "string \<Rightarrow> str_map \<Rightarrow> fixed subject" where
  "ex_subject ns ann = PodTemplate ns ''api'' [] ''Deployment'' [] ann"

lemma ex_policies_eq: "ex_policies = \<lparr> byName = [(''web'', compile_policy ex_gov ex_policy)], ps_excluded = [''kube-system''] \<rparr>"
  by (simp add: ex_policies_def index_def map_by_def index_step_def ex_policy_def)

theorem decide_follows_plain_rule_witness:
  "\<exists>d. fst (Decide ex_gov ex_reader (ex_subject ''shop'' [])) = Inr d \<and> d_Governs d = Some (ex_policy, UpdateModeOngoing)"
proof -
  have "answers ex_reader (ex_subject ''shop'' []) ex_policies (''Deployment'', ''api'') [] [(PolicyAnnotation, ''web'')]"
    by (simp add: answers_def ex_reader_def)
  moreover have "s_departed (ex_subject ''shop'' []) = None" by (simp add: ex_subject_def PodTemplate_def)
  moreover have "plain_governs ex_gov ex_policies (ex_subject ''shop'' []) (subject_owner (ex_subject ''shop'' []) (''Deployment'', ''api''))
      (subject_levels (ex_subject ''shop'' []) [] [(PolicyAnnotation, ''web'')]) = Some (ex_policy, UpdateModeOngoing)"
    by (simp add: plain_governs_def subject_owner_def subject_levels_def ex_subject_def PodTemplate_def lookup_or_def
        consent_def namespaceConsent_def namespaceRefusal_def labelRefusal_def compile_policy_def ex_policies_eq
        identity_of_def ApplyOwnerNameOverride_def ModeForKind_def ex_policy_def Let_def)
  ultimately show ?thesis using decide_follows_plain_rule [of ex_reader "ex_subject ''shop'' []"] by metis
qed

theorem excluded_namespace_never_governed_witness:
  "\<exists>d w. Decide ex_gov ex_reader (ex_subject ''kube-system'' []) = (Inr d, w) \<and> \<not> Governed d"
proof -
  let ?s = "ex_subject ''kube-system'' []"
  have "\<exists>d. fst (Decide ex_gov ex_reader ?s) = Inr d"
    by (simp add: Decide_def ex_subject_def PodTemplate_def decide_from_def walk_decide_def optIn_def and_then_def yields_def
        workloadAnnotations_def namespaceAnnotations_def gate_def readPolicies_def call_def fresh_walk_def ex_reader_def
        lookup_or_def gateRefusal_def ex_policies_eq)
  then obtain d w where d: "Decide ex_gov ex_reader ?s = (Inr d, w)" by (metis prod.collapse)
  then show ?thesis
    using excluded_namespace_never_governed [OF d, of ex_policies]
    by (auto simp: ex_reader_def ex_policies_eq ex_subject_def PodTemplate_def)
qed

theorem opt_out_is_final_witness:
  "\<exists>d. fst (Decide ex_gov ex_reader (ex_subject ''shop'' [(OptOutAnnotation, ''true''), (PolicyAnnotation, ''web'')])) = Inr d \<and>
       \<not> Governed d"
  using opt_out_is_final [of "ex_subject ''shop'' [(OptOutAnnotation, ''true''), (PolicyAnnotation, ''web'')]" ex_gov ex_reader]
  by (auto simp: ex_subject_def PodTemplate_def lookup_or_def)

theorem lister_cache_invisible_witness:
  "list_calls ex_gov [Inr [ex_policy], Inl (), Inr [ex_policy]] (NewPolicyLister [''kube-system'']) =
     [Inr ex_policies, Inl (ListingPolicies ()), Inr ex_policies]"
  using lister_cache_invisible [of "[Inr [ex_policy], Inl (), Inr [ex_policy]]" ex_gov "[''kube-system'']",
      THEN conjunct1]
  by (simp add: versions_identify_def answered_def ex_policies_def del: list_calls.simps)

end
