(* ===== verification/WlrCache.thy ===== *)
theory WlrCache
  imports Inject
begin

text \<open>
  The lifecycle of a stored WorkloadRecommendation (\<open>internal/wlrcache\<close>): its name and snapshot
  (\<open>wlrcache.go\<close>), what it means to an admitted pod (\<open>read.go\<close>), the three writers (\<open>write.go\<close>) and
  the three deletes (\<open>delete.go\<close>).

  The Kubernetes client is the record \<open>wlr_client\<close> over a state \<open>'st\<close>, what the client and the API
  server behind it remember. A call that fails gives the client's error, which only the three
  predicates of the record read; the code wraps it in one of \<open>wlr_error\<close>. The object a \<open>Create\<close> or a
  \<open>Patch\<close> writes its response into is the value it gives. SHA-256 in hexadecimal is the argument
  \<open>sha\<close> of the definitions that name an object.
\<close>

section \<open>Names and snapshots\<close>

text \<open>\<open>strings.ToLower\<close> on the ASCII text a kind is.\<close>

definition lower_char :: "char \<Rightarrow> char" where
  "lower_char c = (let n = of_char c :: nat in if 65 \<le> n \<and> n \<le> 90 then char_of (n + 32) else c)"

definition maxNameLength :: nat where "maxNameLength = 253"

definition Name :: "(string \<Rightarrow> string) \<Rightarrow> string \<Rightarrow> string \<Rightarrow> string" where
  "Name sha kind name =
     (let n = map lower_char kind @ ''-'' @ name
      in if length n \<le> maxNameLength then n
         else let hash = take 10 (sha n)
              in take (maxNameLength - length hash - 1) n @ ''-'' @ hash)"

definition WorkloadRef :: "workload_identity \<Rightarrow> workload_reference" where
  "WorkloadRef i = \<lparr> wr_Kind = OwnerKind i, wr_Namespace = id_Namespace i, wr_Name = OwnerName i \<rparr>"

text \<open>A \<open>types.NamespacedName\<close>: the namespace and the name.\<close>

type_synonym namespaced_name = "string \<times> string"

definition keyOf :: "(string \<Rightarrow> string) \<Rightarrow> workload_reference \<Rightarrow> namespaced_name" where
  "keyOf sha ref = (wr_Namespace ref, Name sha (wr_Kind ref) (wr_Name ref))"

definition Key :: "(string \<Rightarrow> string) \<Rightarrow> workload_identity \<Rightarrow> namespaced_name" where
  "Key sha i = keyOf sha (WorkloadRef i)"

definition identityOf :: "workload_reference \<Rightarrow> workload_identity" where
  "identityOf ref = \<lparr> id_Namespace = wr_Namespace ref, OwnerKind = wr_Kind ref, OwnerName = wr_Name ref \<rparr>"

definition quantityFrom :: "'q resource_list \<Rightarrow> string \<Rightarrow> 'q option" where
  "quantityFrom rl name = map_of rl name"

definition observe_container :: "bool \<Rightarrow> 'q container \<Rightarrow> 'q observed_container_resources" where
  "observe_container init c =
     \<lparr> oc_Init = init,
       oc_CPURequest = quantityFrom (Requests (c_Resources c)) ResourceCPU,
       oc_MemoryRequest = quantityFrom (Requests (c_Resources c)) ResourceMemory,
       oc_CPULimit = quantityFrom (Limits (c_Resources c)) ResourceCPU,
       oc_MemoryLimit = quantityFrom (Limits (c_Resources c)) ResourceMemory \<rparr>"

type_synonym 'q snapshot = "(string, 'q observed_container_resources) gomap"

text \<open>The closure \<open>add\<close> of \<open>BuildObservedResources\<close>.\<close>

definition observe_add :: "'q container list \<Rightarrow> bool \<Rightarrow> 'q snapshot \<Rightarrow> 'q snapshot" where
  "observe_add cs init out = fold (\<lambda>c m. AList.update (c_Name c) (observe_container init c) m) cs out"

definition BuildObservedResources :: "'q container list \<Rightarrow> 'q container list \<Rightarrow> 'q snapshot" where
  "BuildObservedResources containers initContainers =
     observe_add initContainers True (observe_add containers False [])"

text \<open>This package's \<open>setQuantity\<close>, which compares nothing.\<close>

definition setObserved :: "'q resource_list \<Rightarrow> string \<Rightarrow> 'q option \<Rightarrow> 'q resource_list" where
  "setObserved rl name q = (case q of None \<Rightarrow> rl | Some v \<Rightarrow> AList.update name v rl)"

definition rebuild_container :: "string \<Rightarrow> 'q observed_container_resources \<Rightarrow> 'q container" where
  "rebuild_container name o' =
     \<lparr> c_Name = name,
       c_Resources =
         \<lparr> Requests = setObserved (setObserved [] ResourceCPU (oc_CPURequest o')) ResourceMemory (oc_MemoryRequest o'),
           Limits = setObserved (setObserved [] ResourceCPU (oc_CPULimit o')) ResourceMemory (oc_MemoryLimit o') \<rparr>,
       c_RestartPolicy = None \<rparr>"

definition ContainersFromObserved :: "'q snapshot \<Rightarrow> 'q container list \<times> 'q container list" where
  "ContainersFromObserved obs =
     (sort_key c_Name (map (\<lambda>(n, o'). rebuild_container n o') (filter (\<lambda>(n, o'). \<not> oc_Init o') obs)),
      sort_key c_Name (map (\<lambda>(n, o'). rebuild_container n o') (filter (\<lambda>(n, o'). oc_Init o') obs)))"

section \<open>Comparing statuses\<close>

definition quantityEqual :: "'q env \<Rightarrow> 'q option \<Rightarrow> 'q option \<Rightarrow> bool" where
  "quantityEqual E a b =
     (let aZero = (case a of None \<Rightarrow> True | Some x \<Rightarrow> q_is_zero E x);
          bZero = (case b of None \<Rightarrow> True | Some x \<Rightarrow> q_is_zero E x)
      in if aZero \<or> bZero then aZero = bZero
         else (case (a, b) of (Some x, Some y) \<Rightarrow> q_cmp E x y = 0 | _ \<Rightarrow> False))"

definition observed_same ::
  "'q env \<Rightarrow> 'q observed_container_resources \<Rightarrow> 'q observed_container_resources \<Rightarrow> bool" where
  "observed_same E av bv \<longleftrightarrow>
     oc_Init av = oc_Init bv \<and>
     quantityEqual E (oc_CPURequest av) (oc_CPURequest bv) \<and>
     quantityEqual E (oc_MemoryRequest av) (oc_MemoryRequest bv) \<and>
     quantityEqual E (oc_CPULimit av) (oc_CPULimit bv) \<and>
     quantityEqual E (oc_MemoryLimit av) (oc_MemoryLimit bv)"

definition rec_same ::
  "'q env \<Rightarrow> 'q container_recommendation \<Rightarrow> 'q container_recommendation \<Rightarrow> bool" where
  "rec_same E av bv \<longleftrightarrow>
     quantityEqual E (CPURequest av) (CPURequest bv) \<and>
     quantityEqual E (MemoryRequest av) (MemoryRequest bv) \<and>
     quantityEqual E (CPULimit av) (CPULimit bv) \<and>
     quantityEqual E (MemoryLimit av) (MemoryLimit bv) \<and>
     RemoveCPULimit av = RemoveCPULimit bv \<and> RemoveMemoryLimit av = RemoveMemoryLimit bv"

text \<open>The loop both comparisons share: as many entries, and each of the first in the second.\<close>

definition maps_agree :: "('v \<Rightarrow> 'v \<Rightarrow> bool) \<Rightarrow> ('k, 'v) gomap \<Rightarrow> ('k, 'v) gomap \<Rightarrow> bool" where
  "maps_agree same a b \<longleftrightarrow> length a = length b \<and>
     list_all (\<lambda>(name, av). case map_of b name of None \<Rightarrow> False | Some bv \<Rightarrow> same av bv) a"

definition observedEqual :: "'q env \<Rightarrow> 'q snapshot \<Rightarrow> 'q snapshot \<Rightarrow> bool" where
  "observedEqual E a b \<longleftrightarrow> maps_agree (observed_same E) a b"

definition statusEquivalent :: "'q env \<Rightarrow> 'q wlr_status \<Rightarrow> 'q wlr_status \<Rightarrow> bool" where
  "statusEquivalent E a b \<longleftrightarrow>
     Outcome a = Outcome b \<and> ComputedBy a = ComputedBy b \<and> Departed a = Departed b \<and>
     maps_agree (rec_same E) (Containers a) (Containers b) \<and>
     observedEqual E (ObservedResources a) (ObservedResources b)"

section \<open>How long a Recommendation is served\<close>

abbreviation RefreshInterval :: duration where "RefreshInterval \<equiv> 600000000000"
abbreviation MinStalenessBudget :: duration where "MinStalenessBudget \<equiv> 1800000000000"

record lifetimes =
  ReconcileInterval :: duration
  Retention :: duration

definition StalenessBudget :: "lifetimes \<Rightarrow> duration" where
  "StalenessBudget l = max MinStalenessBudget (wrap64 (3 * ReconcileInterval l))"

definition lastComputed :: "time \<Rightarrow> time \<Rightarrow> time" where
  "lastComputed created observedAt = (if created > observedAt then created else observedAt)"

definition servableUntil :: "lifetimes \<Rightarrow> time \<Rightarrow> 'q wlr_status \<Rightarrow> time" where
  "servableUntil l created status =
     (if Containers status = [] then 0
      else let last' = lastComputed created (ObservedAt status);
               window = (if Departed status \<or> Outcome status = OutcomeConflicted then Retention l
                         else StalenessBudget l)
           in rfc3339 (rfc3339 last' + window))"

definition stamp :: "lifetimes \<Rightarrow> 'q workload_recommendation \<Rightarrow> 'q wlr_status \<Rightarrow> bool \<Rightarrow> time" where
  "stamp l known status computed =
     (if ServableUntil (w_Status known) = 0 \<and> \<not> computed then 0
      else servableUntil l (w_CreationTimestamp known) status)"

section \<open>Reading\<close>

datatype verdict = Absent | Undecided | VerdictNoData | Withheld | Stale | Fresh | Retained

definition Injects :: "verdict \<Rightarrow> bool" where
  "Injects v \<longleftrightarrow> v = Fresh \<or> v = Retained"

definition verdict_String :: "verdict \<Rightarrow> string" where
  "verdict_String v =
     (case v of Absent \<Rightarrow> ''absent'' | Undecided \<Rightarrow> ''undecided'' | VerdictNoData \<Rightarrow> ''nodata''
      | Withheld \<Rightarrow> ''withheld'' | Stale \<Rightarrow> ''stale'' | Fresh \<Rightarrow> ''fresh'' | Retained \<Rightarrow> ''retained'')"

record 'q reading =
  r_Verdict :: verdict
  r_Recs :: "'q recs"

definition recsFromStatus :: "'q wlr_status \<Rightarrow> 'q recs" where
  "recsFromStatus status = map_by fst snd (Containers status)"

definition Read :: "'q workload_recommendation option \<Rightarrow> string \<Rightarrow> time \<Rightarrow> 'q reading" where
  "Read known policy now =
     (case known of
        None \<Rightarrow> \<lparr> r_Verdict = Absent, r_Recs = [] \<rparr>
      | Some k \<Rightarrow>
          if w_Policy k \<noteq> policy then \<lparr> r_Verdict = Withheld, r_Recs = [] \<rparr>
          else if Containers (w_Status k) = []
          then (if Outcome (w_Status k) = OutcomeUnset then \<lparr> r_Verdict = Undecided, r_Recs = [] \<rparr>
                else \<lparr> r_Verdict = VerdictNoData, r_Recs = [] \<rparr>)
          else if ComputedBy (w_Status k) \<noteq> policy then \<lparr> r_Verdict = Withheld, r_Recs = [] \<rparr>
          else if \<not> now < ServableUntil (w_Status k) then \<lparr> r_Verdict = Stale, r_Recs = [] \<rparr>
          else if Departed (w_Status k) \<or> Outcome (w_Status k) = OutcomeConflicted
          then \<lparr> r_Verdict = Retained, r_Recs = recsFromStatus (w_Status k) \<rparr>
          else \<lparr> r_Verdict = Fresh, r_Recs = recsFromStatus (w_Status k) \<rparr>)"

text \<open>A nil map is the empty one: no caller tells them apart.\<close>

definition Held :: "'q workload_recommendation option \<Rightarrow> string \<Rightarrow> 'q recs" where
  "Held known policy =
     (case known of
        None \<Rightarrow> []
      | Some k \<Rightarrow> if ComputedBy (w_Status k) \<noteq> policy \<or> Containers (w_Status k) = [] then []
                  else recsFromStatus (w_Status k))"

section \<open>The client\<close>

record ('q, 'sel, 'e, 'st) wlr_client =
  cl_Get :: "namespaced_name \<Rightarrow> 'st \<Rightarrow> ('e + 'q workload_recommendation) \<times> 'st"
  cl_Create :: "'q workload_recommendation \<Rightarrow> 'st \<Rightarrow> ('e + 'q workload_recommendation) \<times> 'st"
  cl_Patch :: "'q workload_recommendation \<Rightarrow> 'q workload_recommendation \<Rightarrow> 'st \<Rightarrow>
               ('e + 'q workload_recommendation) \<times> 'st"
  cl_StatusPatch :: "'q workload_recommendation \<Rightarrow> 'q workload_recommendation \<Rightarrow> 'st \<Rightarrow>
                     ('e + 'q workload_recommendation) \<times> 'st"
  cl_List :: "(string \<times> string) option \<Rightarrow> 'st \<Rightarrow> ('e + 'q workload_recommendation list) \<times> 'st"
  cl_ListPolicies :: "'st \<Rightarrow> ('e + ('q, 'sel) policy list) \<times> 'st"
  cl_Delete :: "'q workload_recommendation \<Rightarrow> string \<times> string \<Rightarrow> 'st \<Rightarrow> ('e + unit) \<times> 'st"
  is_not_found :: "'e \<Rightarrow> bool"
  is_already_exists :: "'e \<Rightarrow> bool"
  is_conflict :: "'e \<Rightarrow> bool"

datatype 'e wlr_error =
    ErrNotEnsured | CreatingStub 'e | WritingObserved 'e | ReadingWLR 'e | PatchingStatus 'e
  | CreatingWLR 'e | ClaimingWLR 'e | RecordingWLR 'e | ListingReapPolicies 'e | ListingWLRs 'e
  | DeletingWLR 'e

text \<open>A call whose error is wrapped.\<close>

definition wrapped :: "('e \<Rightarrow> 'f) \<Rightarrow> ('st \<Rightarrow> ('e + 'a) \<times> 'st) \<Rightarrow> 'st \<Rightarrow> ('f + 'a) \<times> 'st" where
  "wrapped f c s = (case c s of (Inl e, s') \<Rightarrow> (Inl (f e), s') | (Inr a, s') \<Rightarrow> (Inr a, s'))"

section \<open>Writing\<close>

definition ShouldRequest ::
  "'q workload_recommendation option \<Rightarrow> string \<Rightarrow> 'q snapshot \<Rightarrow> bool" where
  "ShouldRequest known policy observed =
     (case known of
        None \<Rightarrow> True
      | Some k \<Rightarrow>
          if w_Policy k \<noteq> policy \<or> observed = [] then False
          else if \<not> Departed (w_Status k) \<and> ObservedResources (w_Status k) \<noteq> [] then False
          else list_ex (\<lambda>(name, _). map_of (ObservedResources (w_Status k)) name = None) observed)"

definition empty_status :: "'q wlr_status" where
  "empty_status = \<lparr> ObservedAt = 0, Outcome = OutcomeUnset, ComputedBy = [], Departed = False,
                    ServableUntil = 0, Containers = [], Trace = [], ObservedResources = [] \<rparr>"

definition newObject ::
  "(string \<Rightarrow> string) \<Rightarrow> workload_reference \<Rightarrow> string \<Rightarrow> 'q workload_recommendation" where
  "newObject sha ref policy =
     (let (ns, name) = keyOf sha ref
      in \<lparr> w_Name = name, w_Namespace = ns, w_Labels = [(WLRPolicyLabel, policy)], w_UID = [],
           w_ResourceVersion = [], w_CreationTimestamp = 0, w_WorkloadRef = ref, w_Policy = policy,
           w_Status = empty_status \<rparr>)"

definition writeSnapshot ::
  "('q, 'sel, 'e, 'st) wlr_client \<Rightarrow> 'q workload_recommendation \<Rightarrow> 'q snapshot \<Rightarrow> 'st \<Rightarrow>
   ('e wlr_error + unit) \<times> 'st" where
  "writeSnapshot C known observed =
     and_then (wrapped WritingObserved
                 (cl_StatusPatch C known
                    (known\<lparr>w_Status := (w_Status known)\<lparr>ObservedResources := observed\<rparr>\<rparr>)))
       (\<lambda>_. yields ())"

definition Request ::
  "(string \<Rightarrow> string) \<Rightarrow> ('q, 'sel, 'e, 'st) wlr_client \<Rightarrow> 'q workload_recommendation option \<Rightarrow>
   workload_reference \<Rightarrow> string \<Rightarrow> 'q snapshot \<Rightarrow> 'st \<Rightarrow> ('e wlr_error + unit) \<times> 'st" where
  "Request sha C known ref policy observed s =
     (case known of
        Some k \<Rightarrow>
          if \<not> ShouldRequest (Some k) policy observed then (Inr (), s)
          else writeSnapshot C k
                 (maps_copy (maps_copy [] observed) (ObservedResources (w_Status k))) s
      | None \<Rightarrow>
          let obj0 = newObject sha ref policy;
              obj = obj0\<lparr>w_Labels := AList.update WLRStubLabel ''true'' (w_Labels obj0)\<rparr>
          in case cl_Create C obj s of
               (Inl e, s') \<Rightarrow> if is_already_exists C e then (Inr (), s') else (Inl (CreatingStub e), s')
             | (Inr stored, s') \<Rightarrow> if observed = [] then (Inr (), s') else writeSnapshot C stored observed s')"

definition claim ::
  "('q, 'sel, 'e, 'st) wlr_client \<Rightarrow> 'q workload_recommendation \<Rightarrow> workload_reference \<Rightarrow> string \<Rightarrow>
   'st \<Rightarrow> ('e wlr_error + 'q workload_recommendation) \<times> 'st" where
  "claim C known ref policy =
     wrapped ClaimingWLR
       (cl_Patch C known
          (known\<lparr>w_WorkloadRef := ref, w_Policy := policy,
                 w_Labels := AList.update WLRPolicyLabel policy (w_Labels known)\<rparr>))"

text \<open>The object a blind claim patches off: nothing but the name.\<close>

definition named_only :: "(string \<Rightarrow> string) \<Rightarrow> workload_reference \<Rightarrow> 'q workload_recommendation" where
  "named_only sha ref =
     (let (ns, name) = keyOf sha ref
      in \<lparr> w_Name = name, w_Namespace = ns, w_Labels = [], w_UID = [], w_ResourceVersion = [],
           w_CreationTimestamp = 0,
           w_WorkloadRef = \<lparr> wr_Kind = [], wr_Namespace = [], wr_Name = [] \<rparr>, w_Policy = [],
           w_Status = empty_status \<rparr>)"

definition create ::
  "(string \<Rightarrow> string) \<Rightarrow> ('q, 'sel, 'e, 'st) wlr_client \<Rightarrow> workload_reference \<Rightarrow> string \<Rightarrow> 'st \<Rightarrow>
   ('e wlr_error + 'q workload_recommendation) \<times> 'st" where
  "create sha C ref policy s =
     (case cl_Create C (newObject sha ref policy) s of
        (Inr stored, s') \<Rightarrow> (Inr stored, s')
      | (Inl e, s') \<Rightarrow> if is_already_exists C e then claim C (named_only sha ref) ref policy s'
                       else (Inl (CreatingWLR e), s'))"

text \<open>The switch \<open>Ensure\<close> opens with: the object of the identity, claimed for \<open>policy\<close>.\<close>

definition ensure_object ::
  "(string \<Rightarrow> string) \<Rightarrow> ('q, 'sel, 'e, 'st) wlr_client \<Rightarrow> workload_reference \<Rightarrow> string \<Rightarrow> 'st \<Rightarrow>
   ('e wlr_error + 'q workload_recommendation) \<times> 'st" where
  "ensure_object sha C ref policy s =
     (case cl_Get C (keyOf sha ref) s of
        (Inl e, s') \<Rightarrow> if is_not_found C e then create sha C ref policy s' else (Inl (ReadingWLR e), s')
      | (Inr known, s') \<Rightarrow>
          if w_WorkloadRef known \<noteq> ref \<or> w_Policy known \<noteq> policy \<or>
             lookup_or [] (w_Labels known) WLRPolicyLabel \<noteq> policy
          then claim C known ref policy s'
          else (Inr known, s'))"

text \<open>The status \<open>Ensure\<close> writes; \<open>observed\<close> is \<open>None\<close> for a nil map, which leaves the snapshot.\<close>

definition ensure_status ::
  "lifetimes \<Rightarrow> 'q snapshot option \<Rightarrow> 'q workload_recommendation \<Rightarrow> 'q wlr_status" where
  "ensure_status l observed known =
     (let s1 = (w_Status known)\<lparr>Departed := False\<rparr>;
          s2 = (case observed of Some o' \<Rightarrow> s1\<lparr>ObservedResources := o'\<rparr> | None \<Rightarrow> s1)
      in s2\<lparr>ServableUntil := stamp l known s2 False\<rparr>)"

definition Ensure ::
  "'q env \<Rightarrow> (string \<Rightarrow> string) \<Rightarrow> ('q, 'sel, 'e, 'st) wlr_client \<Rightarrow> workload_reference \<Rightarrow> string \<Rightarrow>
   'q snapshot option \<Rightarrow> lifetimes \<Rightarrow> 'st \<Rightarrow> ('e wlr_error + 'q workload_recommendation) \<times> 'st" where
  "Ensure E sha C ref policy observed l =
     and_then (ensure_object sha C ref policy)
       (\<lambda>known.
          if \<not> Departed (w_Status known) \<and>
             (case observed of None \<Rightarrow> True | Some o' \<Rightarrow> observedEqual E (ObservedResources (w_Status known)) o')
          then yields known
          else wrapped PatchingStatus
                 (cl_StatusPatch C known (known\<lparr>w_Status := ensure_status l observed known\<rparr>)))"

record 'q pass_decision =
  pd_Outcome :: recommendation_outcome
  pd_Recs :: "'q recs"
  pd_Traces :: "(string, 'q container_trace) gomap"
  pd_Departed :: bool

text \<open>The status \<open>Record\<close> wants stored.\<close>

definition record_desired ::
  "'q env \<Rightarrow> 'q workload_recommendation \<Rightarrow> 'q pass_decision \<Rightarrow> time \<Rightarrow> lifetimes \<Rightarrow> 'q wlr_status" where
  "record_desired E known d now l =
     (let computed = (pd_Outcome d = OutcomeComputed);
          s1 = (w_Status known)\<lparr>Outcome := pd_Outcome d, Departed := pd_Departed d\<rparr>;
          s2 = (if computed
                then let c = s1\<lparr>ComputedBy := w_Policy known, Trace := pd_Traces d,
                                 Containers := map_by fst snd (pd_Recs d)\<rparr>
                     in if \<not> statusEquivalent E (w_Status known) c \<or>
                           time_sub now (ObservedAt (w_Status known)) \<ge> RefreshInterval
                        then c\<lparr>ObservedAt := now\<rparr> else c
                else s1)
      in s2\<lparr>ServableUntil := stamp l known s2 computed\<rparr>)"

definition Record ::
  "'q env \<Rightarrow> ('q, 'sel, 'e, 'st) wlr_client \<Rightarrow> 'q workload_recommendation option \<Rightarrow> 'q pass_decision \<Rightarrow>
   time \<Rightarrow> lifetimes \<Rightarrow> 'st \<Rightarrow> ('e wlr_error + unit) \<times> 'st" where
  "Record E C known d now l s =
     (case known of
        None \<Rightarrow> (Inl ErrNotEnsured, s)
      | Some k \<Rightarrow>
          let desired = record_desired E k d now l
          in if statusEquivalent E (w_Status k) desired \<and>
                ObservedAt desired = ObservedAt (w_Status k) \<and>
                ServableUntil desired = ServableUntil (w_Status k)
             then (Inr (), s)
             else and_then (wrapped RecordingWLR (cl_StatusPatch C k (k\<lparr>w_Status := desired\<rparr>)))
                    (\<lambda>_. yields ()) s)"

section \<open>Deleting\<close>

datatype standing = StandingUngoverned | StandingGoverned | StandingDeparted | StandingConflicted

abbreviation sweepGrace :: duration where "sweepGrace \<equiv> 600000000000"

definition Expired ::
  "'q workload_recommendation \<Rightarrow> string \<Rightarrow> standing \<Rightarrow> time \<Rightarrow> lifetimes \<Rightarrow> bool" where
  "Expired known policy st t l =
     (if w_Policy known \<noteq> policy then False
      else if time_sub t (w_CreationTimestamp known) < sweepGrace then False
      else (case st of
              StandingUngoverned \<Rightarrow> True
            | StandingDeparted \<Rightarrow>
                time_sub t (lastComputed (w_CreationTimestamp known) (ObservedAt (w_Status known))) > Retention l
            | StandingConflicted \<Rightarrow>
                time_sub t (lastComputed (w_CreationTimestamp known) (ObservedAt (w_Status known))) > Retention l
            | StandingGoverned \<Rightarrow> False))"

datatype on_conflict = JudgeNextTime | FailRelease

text \<open>The loop of \<open>deleteWhere\<close> over the objects left: the count, the first failure and the state.\<close>

fun delete_loop ::
  "('q, 'sel, 'e, 'st) wlr_client \<Rightarrow> on_conflict \<Rightarrow> ('q workload_recommendation \<Rightarrow> bool) \<Rightarrow>
   'q workload_recommendation list \<Rightarrow> nat \<Rightarrow> 'e wlr_error option \<Rightarrow> 'st \<Rightarrow>
   nat \<times> 'e wlr_error option \<times> 'st" where
  "delete_loop C conflict expired [] deleted failed s = (deleted, failed, s)"
| "delete_loop C conflict expired (known # items) deleted failed s =
     (if \<not> expired known then delete_loop C conflict expired items deleted failed s
      else case cl_Delete C known (w_UID known, w_ResourceVersion known) s of
             (Inr _, s') \<Rightarrow> delete_loop C conflict expired items (deleted + 1) failed s'
           | (Inl e, s') \<Rightarrow>
               if is_not_found C e then delete_loop C conflict expired items (deleted + 1) failed s'
               else if is_conflict C e \<and> conflict = JudgeNextTime
               then delete_loop C conflict expired items deleted failed s'
               else delete_loop C conflict expired items deleted
                      (case failed of None \<Rightarrow> Some (DeletingWLR e) | Some f \<Rightarrow> Some f) s')"

definition deleteWhere ::
  "('q, 'sel, 'e, 'st) wlr_client \<Rightarrow> on_conflict \<Rightarrow> (string \<times> string) option \<Rightarrow>
   ('q workload_recommendation \<Rightarrow> bool) \<Rightarrow> 'st \<Rightarrow> nat \<times> 'e wlr_error option \<times> 'st" where
  "deleteWhere C conflict opts expired s =
     (case cl_List C opts s of
        (Inl e, s') \<Rightarrow> (0, Some (ListingWLRs e), s')
      | (Inr items, s') \<Rightarrow> delete_loop C conflict expired items 0 None s')"

definition Sweep ::
  "('q, 'sel, 'e, 'st) wlr_client \<Rightarrow> string \<Rightarrow> (workload_identity \<Rightarrow> standing) \<Rightarrow> time \<Rightarrow> lifetimes \<Rightarrow>
   'st \<Rightarrow> nat \<times> 'e wlr_error option \<times> 'st" where
  "Sweep C policy standing t l =
     deleteWhere C JudgeNextTime (Some (WLRPolicyLabel, policy))
       (\<lambda>known. Expired known policy (standing (identityOf (w_WorkloadRef known))) t l)"

definition Release ::
  "('q, 'sel, 'e, 'st) wlr_client \<Rightarrow> string \<Rightarrow> 'st \<Rightarrow> nat \<times> 'e wlr_error option \<times> 'st" where
  "Release C policy =
     deleteWhere C FailRelease (Some (WLRPolicyLabel, policy)) (\<lambda>known. w_Policy known = policy)"

definition Reap :: "('q, 'sel, 'e, 'st) wlr_client \<Rightarrow> 'st \<Rightarrow> nat \<times> 'e wlr_error option \<times> 'st" where
  "Reap C s =
     (case cl_ListPolicies C s of
        (Inl e, s') \<Rightarrow> (0, Some (ListingReapPolicies e), s')
      | (Inr ps, s') \<Rightarrow>
          let exists = map_by p_Name (\<lambda>_. True) ps
          in deleteWhere C JudgeNextTime None
               (\<lambda>known. w_Policy known \<noteq> [] \<and> \<not> lookup_or False exists (w_Policy known)) s')"

end
