(* ===== verification/WlrCacheCorrect.thy ===== *)
theory WlrCacheCorrect
  imports WlrCache
begin

text \<open>
  What \<open>internal/wlrcache\<close> promises: how long a stored Recommendation is served and to whom, what each
  writer leaves alone, that an unchanged decision costs no write, and that a delete never takes an
  object its judgement did not see. The API server is a hypothesis, \<open>wlr_store_laws\<close>, over a view
  \<open>stored\<close> of its state; \<open>mem_client\<close> is a store that satisfies it.
\<close>

named_theorems wlr_simps \<open>fields of the statuses the writers build\<close>

section \<open>Comparisons\<close>

lemma quantityEqual_refl: "quantity_laws E amt \<Longrightarrow> quantityEqual E a a"
  by (auto simp: quantityEqual_def q_simps split: option.splits)

lemma quantityEqual_amount:
  assumes "quantity_laws E amt"
  shows "quantityEqual E a b \<longleftrightarrow>
    (case a of None \<Rightarrow> 0 | Some x \<Rightarrow> amt x) = (case b of None \<Rightarrow> 0 | Some y \<Rightarrow> amt y)"
  by (auto simp: quantityEqual_def Let_def q_simps [OF assms] split: option.splits)

lemma rec_same_refl: "quantity_laws E amt \<Longrightarrow> rec_same E a a"
  by (simp add: rec_same_def quantityEqual_refl)

lemma observed_same_refl: "quantity_laws E amt \<Longrightarrow> observed_same E a a"
  by (simp add: observed_same_def quantityEqual_refl)

lemma maps_agree_refl: "wf_map a \<Longrightarrow> (\<And>v. same v v) \<Longrightarrow> maps_agree same a a"
  by (auto simp: maps_agree_def list_all_iff wf_map_def map_of_eq_Some_iff)

lemma maps_agree_Nil: "maps_agree same a b \<Longrightarrow> a = [] \<longleftrightarrow> b = []"
  by (auto simp: maps_agree_def)

lemma maps_agree_lookup:
  assumes "maps_agree same a b" "map_of a k = Some v"
  shows "\<exists>v'. map_of b k = Some v' \<and> same v v'"
proof -
  have "(k, v) \<in> set a" using assms(2) by (rule map_of_SomeD)
  with assms(1) have "case map_of b k of None \<Rightarrow> False | Some bv \<Rightarrow> same v bv"
    by (auto simp: maps_agree_def list_all_iff)
  then show ?thesis by (auto split: option.splits)
qed

lemma observedEqual_refl:
  "quantity_laws E amt \<Longrightarrow> wf_map a \<Longrightarrow> observedEqual E a a"
  by (simp add: observedEqual_def maps_agree_refl observed_same_refl)

lemma fold_update_fresh:
  "distinct (map fst xs) \<Longrightarrow> set (map fst xs) \<inter> set (gkeys m) = {} \<Longrightarrow>
   fold (\<lambda>x m. AList.update (fst x) (snd x) m) xs m = m @ xs"
proof (induction xs arbitrary: m)
  case Nil
  then show ?case by simp
next
  case (Cons x xs)
  have fresh: "fst x \<notin> set (gkeys m)" using Cons.prems(2) by auto
  have upd: "AList.update (fst x) (snd x) m = m @ [x]"
    using fresh by (induction m) auto
  have "fold (\<lambda>x m. AList.update (fst x) (snd x) m) xs (m @ [x]) = (m @ [x]) @ xs"
    using Cons.prems by (intro Cons.IH) auto
  then show ?case by (simp add: upd)
qed

lemma map_by_id: "wf_map m \<Longrightarrow> map_by fst snd m = m"
  using fold_update_fresh [of m "[]"] by (simp add: map_by_def wf_map_def)

section \<open>Stamps\<close>

text \<open>What the API keeps of a status: the same values, the times to the second.\<close>

definition api_stored :: "'q env \<Rightarrow> 'q wlr_status \<Rightarrow> 'q wlr_status \<Rightarrow> bool" where
  "api_stored E written readb \<longleftrightarrow>
     statusEquivalent E readb written \<and> ObservedAt readb = rfc3339 (ObservedAt written) \<and>
     ServableUntil readb = rfc3339 (ServableUntil written) \<and>
     wf_map (Containers readb) \<and> wf_map (ObservedResources readb)"

lemma lastComputed_max: "lastComputed c t = max c t"
  by (simp add: lastComputed_def max_def)

lemma rfc3339_max: "rfc3339 (max a b) = max (rfc3339 a) (rfc3339 b)"
  using rfc3339_mono [of a b] rfc3339_mono [of b a] by (auto simp: max_def)

lemma rfc3339_zero [simp]: "rfc3339 0 = 0"
  by (simp add: rfc3339_def)

lemma servableUntil_seconds: "rfc3339 (servableUntil l c st) = servableUntil l c st"
  by (simp add: servableUntil_def Let_def)

text \<open>Restamping what the API stored reproduces the stored value.\<close>

lemma servableUntil_stored:
  assumes "api_stored E written readb"
  shows "servableUntil l c readb = servableUntil l c written"
proof -
  have "Containers readb = [] \<longleftrightarrow> Containers written = []" "Departed readb = Departed written"
    "Outcome readb = Outcome written" "ObservedAt readb = rfc3339 (ObservedAt written)"
    using assms maps_agree_Nil by (auto simp: api_stored_def statusEquivalent_def)
  then show ?thesis
    by (simp add: servableUntil_def Let_def lastComputed_max rfc3339_max)
qed

text \<open>The window a status is served for past its last computation.\<close>

definition window_of :: "lifetimes \<Rightarrow> 'q wlr_status \<Rightarrow> duration" where
  "window_of l st = (if Departed st \<or> Outcome st = OutcomeConflicted then Retention l else StalenessBudget l)"

lemma servableUntil_bounds:
  assumes "Containers st \<noteq> []"
  shows "servableUntil l c st \<le> max c (ObservedAt st) + window_of l st"
    and "max c (ObservedAt st) + window_of l st - 2 * second < servableUntil l c st"
proof -
  let ?m = "max c (ObservedAt st)"
  have eq: "servableUntil l c st = rfc3339 (rfc3339 ?m + window_of l st)"
    using assms by (simp add: servableUntil_def window_of_def Let_def lastComputed_max)
  show "servableUntil l c st \<le> ?m + window_of l st"
    using rfc3339_le [of ?m] rfc3339_le [of "rfc3339 ?m + window_of l st"] unfolding eq by linarith
  show "?m + window_of l st - 2 * second < servableUntil l c st"
    using rfc3339_gt [of ?m] rfc3339_gt [of "rfc3339 ?m + window_of l st"] unfolding eq by linarith
qed

lemma StalenessBudget_ge: "MinStalenessBudget \<le> StalenessBudget l"
  by (simp add: StalenessBudget_def)

section \<open>The statuses a record writes\<close>

abbreviation (input) computed_status ::
  "'q workload_recommendation \<Rightarrow> 'q pass_decision \<Rightarrow> 'q wlr_status" where
  "computed_status k d \<equiv>
     (w_Status k)\<lparr>Outcome := pd_Outcome d, Departed := pd_Departed d, ComputedBy := w_Policy k,
       Trace := pd_Traces d, Containers := map_by fst snd (pd_Recs d)\<rparr>"

lemma desired_fields [wlr_simps]:
  "Outcome (record_desired E k d now l) = pd_Outcome d"
  "Departed (record_desired E k d now l) = pd_Departed d"
  "ObservedResources (record_desired E k d now l) = ObservedResources (w_Status k)"
  by (auto simp: record_desired_def Let_def)

lemma desired_computed [wlr_simps]:
  assumes "pd_Outcome d = OutcomeComputed"
  shows "ComputedBy (record_desired E k d now l) = w_Policy k"
    and "Containers (record_desired E k d now l) = map_by fst snd (pd_Recs d)"
    and "Trace (record_desired E k d now l) = pd_Traces d"
    and "ServableUntil (record_desired E k d now l) =
           servableUntil l (w_CreationTimestamp k) (record_desired E k d now l)"
    and "ObservedAt (record_desired E k d now l) =
           (if \<not> statusEquivalent E (w_Status k) (computed_status k d) \<or>
               time_sub now (ObservedAt (w_Status k)) \<ge> RefreshInterval
            then now else ObservedAt (w_Status k))"
  using assms by (auto simp: record_desired_def Let_def stamp_def servableUntil_def)

lemma desired_kept [wlr_simps]:
  assumes "pd_Outcome d \<noteq> OutcomeComputed"
  shows "ComputedBy (record_desired E k d now l) = ComputedBy (w_Status k)"
    and "Containers (record_desired E k d now l) = Containers (w_Status k)"
    and "Trace (record_desired E k d now l) = Trace (w_Status k)"
    and "ObservedAt (record_desired E k d now l) = ObservedAt (w_Status k)"
    and "ServableUntil (record_desired E k d now l) =
           (if ServableUntil (w_Status k) = 0 then 0
            else servableUntil l (w_CreationTimestamp k) (record_desired E k d now l))"
  using assms by (auto simp: record_desired_def Let_def stamp_def servableUntil_def)

section \<open>The API server\<close>

abbreviation (input) key_of :: "'q workload_recommendation \<Rightarrow> namespaced_name" where
  "key_of w \<equiv> (w_Namespace w, w_Name w)"

text \<open>A field of a merge patch: what the patch changes, else what is stored.\<close>

definition merged :: "'a \<Rightarrow> 'a \<Rightarrow> 'a \<Rightarrow> 'a" where
  "merged here base new = (if new = base then here else new)"

text \<open>
  What the code relies on of the client, the reads lagging by nothing worse than not seeing an object
  yet: a read gives the stored object or an error and stores nothing; a create that succeeds stores the
  object under its name, which was free, with a UID, a version and a creation time; a create refused
  because the name is taken stores nothing; a patch of the object itself merges the spec and leaves the
  status; a patch of the status off the stored one stores it as \<open>api_stored\<close> says and leaves the rest.
\<close>

definition get_laws :: "('q, 'sel, 'e, 'st) wlr_client \<Rightarrow> ('st \<Rightarrow> namespaced_name \<Rightarrow> 'q workload_recommendation option) \<Rightarrow> bool" where
  "get_laws C stored \<longleftrightarrow>
     (\<forall>s n w. stored s n = Some w \<longrightarrow> key_of w = n) \<and>
     (\<forall>n s r s'. cl_Get C n s = (r, s') \<longrightarrow> stored s' = stored s \<and> (\<forall>k. r = Inr k \<longrightarrow> stored s n = Some k))"

definition create_laws :: "('q, 'sel, 'e, 'st) wlr_client \<Rightarrow> ('st \<Rightarrow> namespaced_name \<Rightarrow> 'q workload_recommendation option) \<Rightarrow> bool" where
  "create_laws C stored \<longleftrightarrow>
     (\<forall>w s out s'. cl_Create C w s = (Inr out, s') \<longrightarrow>
        stored s (key_of w) = None \<and> stored s' = (stored s)(key_of w \<mapsto> out) \<and>
        w_Policy out = w_Policy w \<and> w_WorkloadRef out = w_WorkloadRef w \<and> w_Status out = empty_status) \<and>
     (\<forall>w s e s'. cl_Create C w s = (Inl e, s') \<and> is_already_exists C e \<longrightarrow> stored s' = stored s)"

definition patch_laws :: "('q, 'sel, 'e, 'st) wlr_client \<Rightarrow> ('st \<Rightarrow> namespaced_name \<Rightarrow> 'q workload_recommendation option) \<Rightarrow> bool" where
  "patch_laws C stored \<longleftrightarrow>
     (\<forall>base new s out s'. cl_Patch C base new s = (Inr out, s') \<longrightarrow>
        (\<exists>b. stored s (key_of new) = Some b \<and> stored s' = (stored s)(key_of new \<mapsto> out) \<and>
             w_Status out = w_Status b \<and>
             w_Policy out = merged (w_Policy b) (w_Policy base) (w_Policy new) \<and>
             w_WorkloadRef out =
               \<lparr> wr_Kind = merged (wr_Kind (w_WorkloadRef b)) (wr_Kind (w_WorkloadRef base)) (wr_Kind (w_WorkloadRef new)),
                 wr_Namespace = merged (wr_Namespace (w_WorkloadRef b)) (wr_Namespace (w_WorkloadRef base)) (wr_Namespace (w_WorkloadRef new)),
                 wr_Name = merged (wr_Name (w_WorkloadRef b)) (wr_Name (w_WorkloadRef base)) (wr_Name (w_WorkloadRef new)) \<rparr>))"

definition status_laws ::
  "'q env \<Rightarrow> ('q, 'sel, 'e, 'st) wlr_client \<Rightarrow> ('st \<Rightarrow> namespaced_name \<Rightarrow> 'q workload_recommendation option) \<Rightarrow> bool" where
  "status_laws E C stored \<longleftrightarrow>
     (\<forall>base new s out s'. cl_StatusPatch C base new s = (Inr out, s') \<and> stored s (key_of base) = Some base \<longrightarrow>
        stored s' = (stored s)(key_of base \<mapsto> out) \<and> api_stored E (w_Status new) (w_Status out) \<and>
        w_Policy out = w_Policy base \<and> w_WorkloadRef out = w_WorkloadRef base \<and>
        w_CreationTimestamp out = w_CreationTimestamp base)"

definition wlr_store_laws ::
  "'q env \<Rightarrow> ('q, 'sel, 'e, 'st) wlr_client \<Rightarrow> ('st \<Rightarrow> namespaced_name \<Rightarrow> 'q workload_recommendation option) \<Rightarrow> bool" where
  "wlr_store_laws E C stored \<longleftrightarrow>
     get_laws C stored \<and> create_laws C stored \<and> patch_laws C stored \<and> status_laws E C stored"

lemma wrapped_Inr: "wrapped f c s = (Inr a, s') \<longleftrightarrow> c s = (Inr a, s')"
  by (auto simp: wrapped_def split: prod.splits sum.splits)

lemma status_patch_stored:
  assumes "wlr_store_laws E C stored" "cl_StatusPatch C base new s = (Inr out, s')"
    and "stored s (key_of base) = Some base"
  shows "stored s' = (stored s)(key_of base \<mapsto> out)" "api_stored E (w_Status new) (w_Status out)"
    "w_Policy out = w_Policy base" "w_WorkloadRef out = w_WorkloadRef base"
    "w_CreationTimestamp out = w_CreationTimestamp base"
  using assms unfolding wlr_store_laws_def status_laws_def by blast+

lemma Record_cases:
  assumes "Record E C (Some k) d now l s = (Inr (), s')"
  obtains (same) "s' = s" "statusEquivalent E (w_Status k) (record_desired E k d now l)"
      "ObservedAt (record_desired E k d now l) = ObservedAt (w_Status k)"
      "ServableUntil (record_desired E k d now l) = ServableUntil (w_Status k)"
    | (wrote) out where
      "cl_StatusPatch C k (k\<lparr>w_Status := record_desired E k d now l\<rparr>) s = (Inr out, s')"
proof -
  let ?q = "statusEquivalent E (w_Status k) (record_desired E k d now l) \<and>
    ObservedAt (record_desired E k d now l) = ObservedAt (w_Status k) \<and>
    ServableUntil (record_desired E k d now l) = ServableUntil (w_Status k)"
  show thesis
  proof (cases ?q)
    case True
    with assms have "s' = s" by (simp add: Record_def Let_def)
    with True show thesis using same by blast
  next
    case False
    with assms have "\<exists>out. cl_StatusPatch C k (k\<lparr>w_Status := record_desired E k d now l\<rparr>) s = (Inr out, s')"
      by (auto simp: Record_def Let_def and_then_def wrapped_def yields_def split: prod.splits sum.splits if_splits)
    then show thesis using wrote by blast
  qed
qed

text \<open>C7. A Computed record of a live identity is served at once: every pod of the Policy the object
  names that is admitted before the staleness budget, less one refresh interval and two seconds, has
  run out gets the Recommendation just recorded, value for value, whether the record wrote or found
  nothing to write.\<close>

theorem record_then_read:
  assumes "quantity_laws E amt" "wlr_store_laws E C stored"
    and "stored s (key_of k) = Some k"
    and "Record E C (Some k) d now l s = (Inr (), s')"
    and "pd_Outcome d = OutcomeComputed" "\<not> pd_Departed d" "pd_Recs d \<noteq> []" "wf_map (pd_Recs d)"
    and "wf_map (Containers (w_Status k))"
    and "t \<le> now + StalenessBudget l - RefreshInterval - 2 * second"
  shows "\<exists>k'. stored s' (key_of k) = Some k' \<and>
    r_Verdict (Read (Some k') (w_Policy k) t) = Fresh \<and>
    maps_agree (rec_same E) (r_Recs (Read (Some k') (w_Policy k) t)) (pd_Recs d)"
proof -
  let ?D = "record_desired E k d now l"
  have D: "Containers ?D = pd_Recs d" "ComputedBy ?D = w_Policy k" "Outcome ?D = OutcomeComputed" "\<not> Departed ?D"
    using assms(5,6,8) by (auto simp: wlr_simps map_by_id)
  have recent: "now - RefreshInterval < ObservedAt ?D"
  proof (cases "ObservedAt ?D = now")
    case False
    then have "time_sub now (ObservedAt (w_Status k)) < RefreshInterval" "ObservedAt ?D = ObservedAt (w_Status k)"
      using assms(5) by (auto simp: desired_computed split: if_splits)
    then show ?thesis using time_sub_less_iff [of RefreshInterval now "ObservedAt (w_Status k)"]
      by (simp add: in_int64_def)
  qed simp
  have until: "t < ServableUntil ?D"
    using servableUntil_bounds(2) [of ?D "w_CreationTimestamp k" l] D assms(5,7,10) recent
    by (simp add: desired_computed(4) window_of_def)
  have serves: "r_Verdict (Read (Some k') (w_Policy k) t) = Fresh \<and>
      maps_agree (rec_same E) (r_Recs (Read (Some k') (w_Policy k) t)) (pd_Recs d)"
    if "statusEquivalent E (w_Status k') ?D" "w_Policy k' = w_Policy k" "ServableUntil (w_Status k') = ServableUntil ?D"
      "wf_map (Containers (w_Status k'))" for k'
  proof -
    have "maps_agree (rec_same E) (Containers (w_Status k')) (pd_Recs d)" "\<not> Departed (w_Status k')"
      "Outcome (w_Status k') = OutcomeComputed" "ComputedBy (w_Status k') = w_Policy k"
      using that(1) D by (auto simp: statusEquivalent_def)
    then show ?thesis
      using that until maps_agree_Nil assms(7)
      by (auto simp: Read_def recsFromStatus_def map_by_id)
  qed
  from assms(4) show ?thesis
  proof (cases rule: Record_cases)
    case same
    then show ?thesis using assms(3,9) serves by auto
  next
    case (wrote out)
    note st = status_patch_stored [OF assms(2) wrote assms(3)]
    have "api_stored E ?D (w_Status out)" using st(2) by simp
    then have "statusEquivalent E (w_Status out) ?D" "ServableUntil (w_Status out) = ServableUntil ?D"
      "wf_map (Containers (w_Status out))"
      using desired_computed(4) [OF assms(5), of E k now l]
      by (auto simp: api_stored_def) (metis servableUntil_seconds)
    then show ?thesis using st(1,3) serves by auto
  qed
qed

text \<open>Recording the same decision again costs no write: an object that holds what a record stored,
  its times cut to the second by the API, makes the next record of the same decision a no-op, for a
  Computed decision until the refresh interval has passed.\<close>

theorem record_settles:
  assumes "quantity_laws E amt"
    and "api_stored E (record_desired E k d now l) (w_Status k')"
    and "w_Policy k' = w_Policy k" "w_CreationTimestamp k' = w_CreationTimestamp k"
    and "wf_map (pd_Recs d)"
    and "pd_Outcome d = OutcomeComputed \<Longrightarrow> time_sub now' (ObservedAt (w_Status k')) < RefreshInterval"
  shows "Record E C (Some k') d now' l s = (Inr (), s)"
proof -
  let ?D = "record_desired E k d now l" and ?D' = "record_desired E k' d now' l"
  have wf: "wf_map (Containers (w_Status k'))" "wf_map (ObservedResources (w_Status k'))"
    and eqv: "statusEquivalent E (w_Status k') ?D"
    and su: "ServableUntil (w_Status k') = rfc3339 (ServableUntil ?D)"
    using assms(2) by (auto simp: api_stored_def)
  have st: "Outcome (w_Status k') = pd_Outcome d" "Departed (w_Status k') = pd_Departed d"
    using eqv by (auto simp: statusEquivalent_def wlr_simps)
  have obs: "observedEqual E (ObservedResources (w_Status k')) (ObservedResources (w_Status k'))"
    using assms(1) wf by (simp add: observedEqual_refl)
  show ?thesis
  proof (cases "pd_Outcome d = OutcomeComputed")
    case True
    have "ComputedBy (w_Status k') = w_Policy k'"
      "maps_agree (rec_same E) (Containers (w_Status k')) (map_by fst snd (pd_Recs d))"
      using eqv True assms(3) by (auto simp: statusEquivalent_def wlr_simps)
    then have same: "statusEquivalent E (w_Status k') (computed_status k' d)" "statusEquivalent E (w_Status k') ?D'"
      using st obs True by (auto simp: statusEquivalent_def wlr_simps)
    then have at: "ObservedAt ?D' = ObservedAt (w_Status k')"
      using True assms(6) by (auto simp: desired_computed)
    have "servableUntil l (w_CreationTimestamp k) ?D' = servableUntil l (w_CreationTimestamp k) (w_Status k')"
      using same(2) at maps_agree_Nil by (auto simp: servableUntil_def statusEquivalent_def)
    then have "ServableUntil ?D' = ServableUntil (w_Status k')"
      using servableUntil_stored [OF assms(2), of l "w_CreationTimestamp k"] assms(4) su True
      by (simp add: desired_computed(4) servableUntil_seconds)
    then show ?thesis using same at by (simp add: Record_def)
  next
    case False
    have same: "statusEquivalent E (w_Status k') ?D'"
      using st obs wf(1) assms(1) False by (auto simp: statusEquivalent_def wlr_simps maps_agree_refl rec_same_refl)
    have at: "ObservedAt ?D' = ObservedAt (w_Status k')" using False by (simp add: desired_kept)
    have "servableUntil l (w_CreationTimestamp k) ?D' = servableUntil l (w_CreationTimestamp k) (w_Status k')"
      using same at maps_agree_Nil by (auto simp: servableUntil_def statusEquivalent_def)
    then have "ServableUntil ?D' = ServableUntil (w_Status k')"
      using servableUntil_stored [OF assms(2), of l "w_CreationTimestamp k"] assms(4) su False
      by (auto simp: desired_kept(5) servableUntil_seconds)
    then show ?thesis using same at by (simp add: Record_def)
  qed
qed

section \<open>What is served\<close>

lemma Read_injects:
  "Injects (r_Verdict (Read known policy now)) \<longleftrightarrow>
     (\<exists>k. known = Some k \<and> w_Policy k = policy \<and> ComputedBy (w_Status k) = policy \<and>
          Containers (w_Status k) \<noteq> [] \<and> now < ServableUntil (w_Status k))"
  by (auto simp: Read_def Injects_def split: option.splits)

text \<open>A stamp no writer leaves behind on its own account: none, or the one of the formula.\<close>

definition stamp_ok :: "lifetimes \<Rightarrow> 'q workload_recommendation \<Rightarrow> bool" where
  "stamp_ok l k \<longleftrightarrow> ServableUntil (w_Status k) = 0 \<or>
     ServableUntil (w_Status k) = servableUntil l (w_CreationTimestamp k) (w_Status k)"

text \<open>A record other than Computed keeps the last Recommendation with its trace, its age and the
  Policy it is served to; it gives no object its first stamp, and the stamp it leaves never reaches
  further than the last computation plus the window of what it records. The status it stores carries
  the stamp of the formula again.\<close>

theorem record_keeps_last_recommendation:
  fixes k :: "'q workload_recommendation"
  assumes "pd_Outcome d \<noteq> OutcomeComputed" "api_stored E (record_desired E k d now l) st'"
  shows "let D = record_desired E k d now l in
     Containers D = Containers (w_Status k) \<and> Trace D = Trace (w_Status k) \<and>
     ObservedAt D = ObservedAt (w_Status k) \<and> ComputedBy D = ComputedBy (w_Status k) \<and>
     (ServableUntil (w_Status k) = 0 \<longrightarrow> ServableUntil D = 0) \<and>
     (Containers (w_Status k) \<noteq> [] \<longrightarrow> 0 < ServableUntil D \<longrightarrow>
        ServableUntil D \<le> lastComputed (w_CreationTimestamp k) (ObservedAt (w_Status k)) +
          (if pd_Departed d \<or> pd_Outcome d = OutcomeConflicted then Retention l else StalenessBudget l)) \<and>
     stamp_ok l (k\<lparr>w_Status := st'\<rparr>)"
proof -
  let ?D = "record_desired E k d now l"
  have "stamp_ok l (k\<lparr>w_Status := st'\<rparr>)"
    using servableUntil_stored [OF assms(2), of l "w_CreationTimestamp k"] assms
    by (auto simp: stamp_ok_def api_stored_def desired_kept(5) servableUntil_seconds)
  moreover have "ServableUntil ?D \<le> lastComputed (w_CreationTimestamp k) (ObservedAt (w_Status k)) +
      (if pd_Departed d \<or> pd_Outcome d = OutcomeConflicted then Retention l else StalenessBudget l)"
    if "Containers (w_Status k) \<noteq> []" "0 < ServableUntil ?D"
    using servableUntil_bounds(1) [of ?D l "w_CreationTimestamp k"] that assms(1)
    by (simp add: wlr_simps window_of_def lastComputed_max split: if_splits)
  ultimately show ?thesis using assms(1) by (simp add: Let_def desired_kept)
qed


section \<open>Claiming an identity\<close>

lemma merged_self [simp]: "merged b b new = new"
  by (simp add: merged_def)

lemma claim_stored:
  assumes "wlr_store_laws E C stored" "claim C known ref policy s = (Inr out, s')"
    and "known = named_only sha ref \<and> wr_Kind ref \<noteq> [] \<and> wr_Namespace ref \<noteq> [] \<and> wr_Name ref \<noteq> [] \<and> policy \<noteq> [] \<or>
         stored s (key_of known) = Some known"
  shows "\<exists>b. stored s (key_of known) = Some b \<and> stored s' = (stored s)(key_of known \<mapsto> out) \<and>
    w_Status out = w_Status b \<and> w_Policy out = policy \<and> w_WorkloadRef out = ref"
proof -
  let ?new = "known\<lparr>w_WorkloadRef := ref, w_Policy := policy,
    w_Labels := AList.update WLRPolicyLabel policy (w_Labels known)\<rparr>"
  have "cl_Patch C known ?new s = (Inr out, s')"
    using assms(2) by (simp add: claim_def wrapped_Inr)
  then obtain b where b: "stored s (key_of known) = Some b" "stored s' = (stored s)(key_of known \<mapsto> out)"
    "w_Status out = w_Status b" "w_Policy out = merged (w_Policy b) (w_Policy known) policy"
    "w_WorkloadRef out =
       \<lparr> wr_Kind = merged (wr_Kind (w_WorkloadRef b)) (wr_Kind (w_WorkloadRef known)) (wr_Kind ref),
         wr_Namespace = merged (wr_Namespace (w_WorkloadRef b)) (wr_Namespace (w_WorkloadRef known)) (wr_Namespace ref),
         wr_Name = merged (wr_Name (w_WorkloadRef b)) (wr_Name (w_WorkloadRef known)) (wr_Name ref) \<rparr>"
    using assms(1) unfolding wlr_store_laws_def patch_laws_def by fastforce
  have "w_Policy out = policy \<and> w_WorkloadRef out = ref"
    using assms(3)
  proof
    assume "stored s (key_of known) = Some known"
    then have "b = known" using b(1) by simp
    then show ?thesis using b(4,5) by simp
  next
    assume "known = named_only sha ref \<and> wr_Kind ref \<noteq> [] \<and> wr_Namespace ref \<noteq> [] \<and> wr_Name ref \<noteq> [] \<and> policy \<noteq> []"
    then show ?thesis using b(4,5) by (simp add: named_only_def merged_def split: prod.splits)
  qed
  then show ?thesis using b by blast
qed

text \<open>The status an identity's object has before a writer touches it.\<close>

definition status_before ::
  "('st \<Rightarrow> namespaced_name \<Rightarrow> 'q workload_recommendation option) \<Rightarrow> 'st \<Rightarrow> namespaced_name \<Rightarrow> 'q wlr_status" where
  "status_before stored s n = (case stored s n of None \<Rightarrow> empty_status | Some w \<Rightarrow> w_Status w)"

lemma key_named_only: "key_of (named_only sha ref) = keyOf sha ref"
  by (simp add: named_only_def split: prod.splits)

lemma key_newObject: "key_of (newObject sha ref policy) = keyOf sha ref"
  by (simp add: newObject_def split: prod.splits)

lemma ensure_object_stored:
  assumes "wlr_store_laws E C stored" "ensure_object sha C ref policy s = (Inr known, s')"
    and ne: "wr_Kind ref \<noteq> []" "wr_Namespace ref \<noteq> []" "wr_Name ref \<noteq> []" "policy \<noteq> []"
  shows "stored s' (keyOf sha ref) = Some known \<and> w_Policy known = policy \<and> w_WorkloadRef known = ref \<and>
    w_Status known = status_before stored s (keyOf sha ref)"
proof -
  let ?n = "keyOf sha ref"
  obtain r s1 where g: "cl_Get C ?n s = (r, s1)" by fastforce
  have own: "\<And>s n w. stored s n = Some w \<Longrightarrow> key_of w = n"
    and get: "stored s1 = stored s" "\<And>k. r = Inr k \<Longrightarrow> stored s ?n = Some k"
    using assms(1) g unfolding wlr_store_laws_def get_laws_def by blast+
  show ?thesis
  proof (cases r)
    case (Inr k)
    then have k: "stored s1 ?n = Some k" "key_of k = ?n" using get own by auto
    show ?thesis
    proof (cases "w_WorkloadRef k \<noteq> ref \<or> w_Policy k \<noteq> policy \<or> lookup_or [] (w_Labels k) WLRPolicyLabel \<noteq> policy")
      case True
      then have "claim C k ref policy s1 = (Inr known, s')"
        using assms(2) g Inr by (auto simp: ensure_object_def)
      from claim_stored [OF assms(1) this, of sha] k show ?thesis
        using get by (auto simp: status_before_def)
    next
      case False
      then have "known = k" "s' = s1" using assms(2) g Inr by (auto simp: ensure_object_def)
      then show ?thesis using k get False by (auto simp: status_before_def)
    qed
  next
    case (Inl e)
    then have cr: "create sha C ref policy s1 = (Inr known, s')"
      using assms(2) g by (auto simp: ensure_object_def split: if_splits)
    obtain q s2 where c: "cl_Create C (newObject sha ref policy) s1 = (q, s2)" by fastforce
    show ?thesis
    proof (cases q)
      case (Inr out)
      then have eq: "known = out" "s' = s2" using cr c by (auto simp: create_def)
      have "stored s1 ?n = None \<and> stored s2 = (stored s1)(?n \<mapsto> out) \<and>
        w_Policy out = policy \<and> w_WorkloadRef out = ref \<and> w_Status out = empty_status"
        using assms(1) c Inr key_newObject [of sha ref policy]
        unfolding wlr_store_laws_def create_laws_def by (fastforce simp: newObject_def split: prod.splits)
      then show ?thesis using eq get by (simp add: status_before_def)
    next
      case (Inl e')
      then have ae: "is_already_exists C e'" and cl: "claim C (named_only sha ref) ref policy s2 = (Inr known, s')"
        using cr c by (auto simp: create_def split: if_splits)
      have "stored s2 = stored s1"
        using assms(1) c Inl ae unfolding wlr_store_laws_def create_laws_def by blast
      then show ?thesis
        using claim_stored [OF assms(1) cl, of sha, unfolded key_named_only] ne get
        by (auto simp: status_before_def)
    qed
  qed
qed

text \<open>Ensure hands back the identity's object, stored under its name, claimed for the Policy, not
  departed and holding the snapshot it was given, even when the object was created, adopted from another
  Policy or claimed blind after a lost race. It leaves the outcome, the Recommendation and the Policy
  that computed it as they were, and gives no object its first stamp, so an object another Policy
  computed is served to no pod of the adopting one.\<close>

theorem ensure_claims:
  assumes "quantity_laws E amt" "wlr_store_laws E C stored"
    and "Ensure E sha C ref policy observed l s = (Inr k, s')"
    and "wr_Kind ref \<noteq> []" "wr_Namespace ref \<noteq> []" "wr_Name ref \<noteq> []" "policy \<noteq> []"
    and "wf_map (Containers (status_before stored s (keyOf sha ref)))"
  shows "stored s' (keyOf sha ref) = Some k \<and> w_Policy k = policy \<and> w_WorkloadRef k = ref \<and>
    \<not> Departed (w_Status k) \<and>
    (case observed of None \<Rightarrow> True | Some o' \<Rightarrow> observedEqual E (ObservedResources (w_Status k)) o') \<and>
    Outcome (w_Status k) = Outcome (status_before stored s (keyOf sha ref)) \<and>
    ComputedBy (w_Status k) = ComputedBy (status_before stored s (keyOf sha ref)) \<and>
    maps_agree (rec_same E) (Containers (w_Status k)) (Containers (status_before stored s (keyOf sha ref))) \<and>
    (ServableUntil (status_before stored s (keyOf sha ref)) = 0 \<longrightarrow> ServableUntil (w_Status k) = 0) \<and>
    (ComputedBy (status_before stored s (keyOf sha ref)) \<noteq> policy \<longrightarrow> \<not> Injects (r_Verdict (Read (Some k) policy t)))"
proof -
  let ?B = "status_before stored s (keyOf sha ref)"
  obtain known s1 where eo: "ensure_object sha C ref policy s = (Inr known, s1)"
    using assms(3) by (auto simp: Ensure_def and_then_def split: prod.splits sum.splits)
  note known = ensure_object_stored [OF assms(2) eo assms(4-7)]
  let ?quiet = "\<not> Departed (w_Status known) \<and>
     (case observed of None \<Rightarrow> True | Some o' \<Rightarrow> observedEqual E (ObservedResources (w_Status known)) o')"
  show ?thesis
  proof (cases ?quiet)
    case True
    then have "k = known" "s' = s1"
      using assms(3) eo by (auto simp: Ensure_def and_then_def yields_def)
    then show ?thesis
      using known True assms(1,8) by (auto simp: maps_agree_refl rec_same_refl Read_injects)
  next
    case False
    let ?S = "ensure_status l observed known"
    have p: "cl_StatusPatch C known (known\<lparr>w_Status := ?S\<rparr>) s1 = (Inr k, s')"
      using assms(3) eo False by (simp add: Ensure_def and_then_Inr wrapped_Inr split del: if_split)
    have own: "key_of known = keyOf sha ref"
      using known assms(2) unfolding wlr_store_laws_def get_laws_def by blast
    note st = status_patch_stored [OF assms(2) p]
    have eqv: "statusEquivalent E (w_Status k) ?S" "ServableUntil (w_Status k) = rfc3339 (ServableUntil ?S)"
      using st(2) known own by (auto simp: api_stored_def)
    have S: "Outcome ?S = Outcome ?B" "ComputedBy ?S = ComputedBy ?B" "Containers ?S = Containers ?B" "\<not> Departed ?S"
      "ServableUntil ?B = 0 \<Longrightarrow> ServableUntil ?S = 0"
      "\<And>o'. observed = Some o' \<Longrightarrow> ObservedResources ?S = o'"
      using known by (auto simp: ensure_status_def stamp_def Let_def split: option.splits)
    have "\<not> Departed (w_Status k)" "Outcome (w_Status k) = Outcome ?B" "ComputedBy (w_Status k) = ComputedBy ?B"
      "maps_agree (rec_same E) (Containers (w_Status k)) (Containers ?B)"
      "observedEqual E (ObservedResources (w_Status k)) (ObservedResources ?S)"
      using eqv(1) S by (auto simp: statusEquivalent_def)
    then show ?thesis
      using st known own S eqv(2) by (auto simp: Read_injects split: option.splits)
  qed
qed

section \<open>Deleting\<close>

text \<open>
  A list stores nothing and gives no copy that differs from a stored object of its UID and version,
  though it may give copies of objects rewritten or gone since. A delete takes at most the object it
  names, and only while that has the UID and version of the precondition.
\<close>

definition delete_laws :: "('q, 'sel, 'e, 'st) wlr_client \<Rightarrow> ('st \<Rightarrow> namespaced_name \<Rightarrow> 'q workload_recommendation option) \<Rightarrow> bool" where
  "delete_laws C stored \<longleftrightarrow>
     (\<forall>opts s r s'. cl_List C opts s = (r, s') \<longrightarrow> stored s' = stored s \<and>
        (\<forall>items. r = Inr items \<longrightarrow> (\<forall>w\<in>set items. \<forall>x. stored s (key_of w) = Some x \<and>
           w_UID x = w_UID w \<and> w_ResourceVersion x = w_ResourceVersion w \<longrightarrow> x = w))) \<and>
     (\<forall>s r s'. cl_ListPolicies C s = (r, s') \<longrightarrow> stored s' = stored s) \<and>
     (\<forall>w uid rv s r s'. cl_Delete C w (uid, rv) s = (r, s') \<longrightarrow> stored s' = stored s \<or>
        (\<exists>x. stored s (key_of w) = Some x \<and> w_UID x = uid \<and> w_ResourceVersion x = rv \<and>
             stored s' = (stored s)(key_of w := None)))"

definition shrinks_by ::
  "('q workload_recommendation \<Rightarrow> bool) \<Rightarrow> (namespaced_name \<Rightarrow> 'q workload_recommendation option) \<Rightarrow>
   (namespaced_name \<Rightarrow> 'q workload_recommendation option) \<Rightarrow> bool" where
  "shrinks_by expired m m' \<longleftrightarrow> (\<forall>n. m' n = m n \<or> m' n = None \<and> (\<exists>x. m n = Some x \<and> expired x))"

lemma shrinks_by_refl: "shrinks_by expired m m"
  by (simp add: shrinks_by_def)

lemma shrinks_by_trans: "shrinks_by expired a b \<Longrightarrow> shrinks_by expired b c \<Longrightarrow> shrinks_by expired a c"
  unfolding shrinks_by_def by (metis option.distinct(1))

lemma shrinks_byD: "shrinks_by expired m m' \<Longrightarrow> m n = Some w \<Longrightarrow> m' n = Some w \<or> m' n = None \<and> expired w"
  unfolding shrinks_by_def by (metis option.inject)

lemma delete_step_shrinks:
  assumes "delete_laws C stored" "cl_Delete C w (w_UID w, w_ResourceVersion w) s = (r, s')" "expired w"
    and "\<And>x. stored s (key_of w) = Some x \<Longrightarrow> w_UID x = w_UID w \<Longrightarrow>
           w_ResourceVersion x = w_ResourceVersion w \<Longrightarrow> x = w"
  shows "shrinks_by expired (stored s) (stored s')"
proof -
  have "stored s' = stored s \<or>
      (\<exists>x. stored s (key_of w) = Some x \<and> w_UID x = w_UID w \<and> w_ResourceVersion x = w_ResourceVersion w \<and>
           stored s' = (stored s)(key_of w := None))"
    using assms(1,2) unfolding delete_laws_def by blast
  then show ?thesis
  proof
    assume "\<exists>x. stored s (key_of w) = Some x \<and> w_UID x = w_UID w \<and>
      w_ResourceVersion x = w_ResourceVersion w \<and> stored s' = (stored s)(key_of w := None)"
    then have "stored s (key_of w) = Some w" "stored s' = (stored s)(key_of w := None)"
      using assms(4) by blast+
    then show ?thesis using assms(3) by (simp add: shrinks_by_def)
  qed (simp add: shrinks_by_refl)
qed

lemma delete_loop_shrinks:
  assumes "delete_laws C stored"
    and "\<forall>w\<in>set items. \<forall>x. stored s (key_of w) = Some x \<and> w_UID x = w_UID w \<and>
           w_ResourceVersion x = w_ResourceVersion w \<longrightarrow> x = w"
  shows "shrinks_by expired (stored s) (stored (snd (snd (delete_loop C conflict expired items deleted failed s))))"
  using assms(2)
proof (induction items arbitrary: deleted failed s)
  case Nil
  then show ?case by (simp add: shrinks_by_refl)
next
  case (Cons w items)
  show ?case
  proof (cases "expired w")
    case False
    then show ?thesis using Cons by simp
  next
    case True
    obtain r s1 where d: "cl_Delete C w (w_UID w, w_ResourceVersion w) s = (r, s1)" by fastforce
    have sh: "shrinks_by expired (stored s) (stored s1)"
      using delete_step_shrinks [where expired = expired, OF assms(1) d True] Cons.prems by simp
    then have "\<forall>v\<in>set items. \<forall>x. stored s1 (key_of v) = Some x \<and> w_UID x = w_UID v \<and>
        w_ResourceVersion x = w_ResourceVersion v \<longrightarrow> x = v"
      using Cons.prems unfolding shrinks_by_def by (metis list.set_intros(2) option.distinct(1))
    then have "shrinks_by expired (stored s) (stored (snd (snd (delete_loop C conflict expired items n f s1))))" for n f
      using Cons.IH shrinks_by_trans [OF sh] by blast
    then show ?thesis using True d by (cases r) auto
  qed
qed

lemma deleteWhere_shrinks:
  assumes "delete_laws C stored"
  shows "shrinks_by expired (stored s) (stored (snd (snd (deleteWhere C conflict opts expired s))))"
proof -
  obtain r s1 where li: "cl_List C opts s = (r, s1)" by fastforce
  have st: "stored s1 = stored s" and
    items: "\<forall>items. r = Inr items \<longrightarrow> (\<forall>w\<in>set items. \<forall>x. stored s (key_of w) = Some x \<and>
      w_UID x = w_UID w \<and> w_ResourceVersion x = w_ResourceVersion w \<longrightarrow> x = w)"
    using assms li unfolding delete_laws_def by blast+
  show ?thesis
  proof (cases r)
    case (Inl e)
    then show ?thesis using li st by (simp add: deleteWhere_def shrinks_by_refl)
  next
    case (Inr ws)
    then have "\<forall>w\<in>set ws. \<forall>x. stored s1 (key_of w) = Some x \<and>
      w_UID x = w_UID w \<and> w_ResourceVersion x = w_ResourceVersion w \<longrightarrow> x = w"
      using items st by simp
    from delete_loop_shrinks [OF assms this] show ?thesis
      using li Inr st by (simp add: deleteWhere_def)
  qed
qed

lemma Reap_shrinks:
  assumes "delete_laws C stored"
  shows "shrinks_by (\<lambda>w. w_Policy w \<noteq> [] \<and>
      (\<forall>ps s1. cl_ListPolicies C s = (Inr ps, s1) \<longrightarrow> w_Policy w \<notin> p_Name ` set ps))
    (stored s) (stored (snd (snd (Reap C s))))"
proof -
  obtain r s1 where lp: "cl_ListPolicies C s = (r, s1)" by fastforce
  have st: "stored s1 = stored s" using assms lp unfolding delete_laws_def by blast
  show ?thesis
  proof (cases r)
    case (Inl e)
    then show ?thesis using lp st by (simp add: Reap_def shrinks_by_refl)
  next
    case (Inr ps)
    have ex: "lookup_or False (map_by p_Name (\<lambda>_. True) ps) x \<longleftrightarrow> x \<in> p_Name ` set ps" for x
      by (auto simp: lookup_or_def map_of_map_by image_iff find_None_all split: option.splits dest!: find_Some_set)
    from deleteWhere_shrinks [OF assms, of "\<lambda>w. w_Policy w \<noteq> [] \<and> w_Policy w \<notin> p_Name ` set ps" s1 JudgeNextTime None]
    show ?thesis using lp Inr st by (simp add: Reap_def Let_def ex)
  qed
qed

text \<open>C9. Whatever copies a cache hands to a sweep, a release or a reap, an object is either left in the
  store as it was or gone because the very version that was stored is one the operation is to delete:
  one of the sweeping Policy's that expired, one of the released Policy's, one naming a Policy that does
  not exist. In particular none of them deletes an object another Policy adopted since it was listed.\<close>

theorem deletes_only_what_was_judged:
  assumes "delete_laws C stored" "stored s n = Some w"
  shows "(let m = stored (snd (snd (Sweep C policy standing t l s))) n in
            m = Some w \<or> m = None \<and> Expired w policy (standing (identityOf (w_WorkloadRef w))) t l) \<and>
         (let m = stored (snd (snd (Release C policy s))) n in
            m = Some w \<or> m = None \<and> w_Policy w = policy) \<and>
         (let m = stored (snd (snd (Reap C s))) n in
            m = Some w \<or> m = None \<and> w_Policy w \<noteq> [] \<and>
              (\<forall>ps s1. cl_ListPolicies C s = (Inr ps, s1) \<longrightarrow> w_Policy w \<notin> p_Name ` set ps))"
proof -
  have sh: "m' n = Some w \<or> m' n = None \<and> expired w" if "shrinks_by expired (stored s) m'" for expired m'
    using shrinks_byD [OF that assms(2)] .
  show ?thesis
    unfolding Let_def Sweep_def Release_def
    by (intro conjI sh [OF deleteWhere_shrinks [OF assms(1)]] sh [OF Reap_shrinks [OF assms(1)]])
qed

text \<open>What a delete loop counts: the objects it judged expired, less the ones that failed.\<close>

lemma delete_loop_count:
  "delete_loop C FailRelease expired items deleted failed s = (n, f, s') \<Longrightarrow>
   deleted \<le> n \<and> n \<le> deleted + length (filter expired items) \<and>
   (f = None \<longrightarrow> failed = None \<and> n = deleted + length (filter expired items))"
proof (induction items arbitrary: deleted failed s)
  case Nil
  then show ?case by simp
next
  case (Cons w items)
  show ?case
  proof (cases "expired w")
    case False
    then have "delete_loop C FailRelease expired items deleted failed s = (n, f, s')" using Cons.prems by simp
    from Cons.IH [OF this] False show ?thesis by simp
  next
    case True
    obtain r s1 where d: "cl_Delete C w (w_UID w, w_ResourceVersion w) s = (r, s1)" by fastforce
    show ?thesis
    proof (cases "case r of Inr _ \<Rightarrow> True | Inl e \<Rightarrow> is_not_found C e")
      case gone: True
      then have "delete_loop C FailRelease expired items (deleted + 1) failed s1 = (n, f, s')"
        using Cons.prems True d by (simp split: sum.splits)
      from Cons.IH [OF this] True show ?thesis by auto
    next
      case kept: False
      then obtain e where "r = Inl e" "\<not> is_not_found C e" by (auto split: sum.splits)
      then have "delete_loop C FailRelease expired items deleted
          (case failed of None \<Rightarrow> Some (DeletingWLR e) | Some g \<Rightarrow> Some g) s1 = (n, f, s')"
        using Cons.prems True d by simp
      from Cons.IH [OF this] True show ?thesis by (auto split: option.splits)
    qed
  qed
qed

text \<open>A release that reports no failure has finished: it listed, and every object still naming the
  Policy that it listed was deleted or found gone, a conflict never passing for one.\<close>

theorem release_reports_every_survivor:
  assumes "Release C policy s = (n, None, s')"
  shows "\<exists>items s1. cl_List C (Some (WLRPolicyLabel, policy)) s = (Inr items, s1) \<and>
     n = length (filter (\<lambda>w. w_Policy w = policy) items)"
proof -
  obtain items s1 where li: "cl_List C (Some (WLRPolicyLabel, policy)) s = (Inr items, s1)"
    using assms by (auto simp: Release_def deleteWhere_def split: prod.splits sum.splits)
  then have "delete_loop C FailRelease (\<lambda>w. w_Policy w = policy) items 0 None s1 = (n, None, s')"
    using assms by (simp add: Release_def deleteWhere_def)
  from delete_loop_count [OF this] li show ?thesis by auto
qed

section \<open>Names and snapshots\<close>

text \<open>An object name is never longer than the API allows, for any kind and name, and is the plain
  \<open>kind-name\<close> whenever that fits.\<close>

theorem Name_fits:
  assumes "10 \<le> length (sha (map lower_char kind @ ''-'' @ name))"
  shows "length (Name sha kind name) \<le> 253 \<and>
    (length kind + length name \<le> 252 \<longrightarrow> Name sha kind name = map lower_char kind @ ''-'' @ name)"
  using assms by (auto simp: Name_def maxNameLength_def Let_def)

lemma quantityFrom_rebuilt:
  "quantityFrom (setObserved (setObserved [] ResourceCPU c) ResourceMemory m) ResourceCPU = c"
  "quantityFrom (setObserved (setObserved [] ResourceCPU c) ResourceMemory m) ResourceMemory = m"
  by (auto simp: quantityFrom_def setObserved_def split: option.splits)

lemma observe_rebuilt: "observe_container (oc_Init o') (rebuild_container n o') = o'"
  by (cases o') (simp add: observe_container_def rebuild_container_def quantityFrom_rebuilt)

lemma observe_rebuilt_init: "oc_Init o' \<Longrightarrow> observe_container True (rebuild_container n o') = o'"
  using observe_rebuilt [of o' n] by simp

lemma observe_rebuilt_plain: "\<not> oc_Init o' \<Longrightarrow> observe_container False (rebuild_container n o') = o'"
  using observe_rebuilt [of o' n] by simp

lemma find_sorted_rebuilt:
  assumes "wf_map obs"
  shows "find (\<lambda>c. c_Name c = k) (rev (sort_key c_Name (map (\<lambda>(n, o'). rebuild_container n o') (filter (\<lambda>(n, o'). P o') obs)))) =
    (case map_of obs k of Some o' \<Rightarrow> if P o' then Some (rebuild_container k o') else None | None \<Rightarrow> None)"
    (is "find ?q ?cs = ?r")
proof -
  have mem: "c \<in> set ?cs \<longleftrightarrow> (\<exists>o'. map_of obs (c_Name c) = Some o' \<and> P o' \<and> c = rebuild_container (c_Name c) o')" for c
    using assms by (force simp: wf_map_mem rebuild_container_def)
  show ?thesis
  proof (cases "find ?q ?cs")
    case None
    have "?r = None"
    proof (rule ccontr)
      assume "?r \<noteq> None"
      then obtain o' where "map_of obs k = Some o'" "P o'" by (auto split: option.splits if_splits)
      then have "rebuild_container k o' \<in> set ?cs"
        unfolding mem by (simp add: rebuild_container_def)
      with None show False by (auto simp: find_None_all rebuild_container_def)
    qed
    with None show ?thesis by simp
  next
    case (Some c)
    then have "c \<in> set ?cs" "c_Name c = k" using find_Some_set by fast+
    with Some show ?thesis unfolding mem by auto
  qed
qed

text \<open>A snapshot survives the round trip through container lists: snapshotting the containers
  rebuilt from it gives it back, entry for entry, init containers included.\<close>

theorem snapshot_roundtrip:
  assumes "wf_map obs"
  shows "map_of (BuildObservedResources (fst (ContainersFromObserved obs)) (snd (ContainersFromObserved obs))) = map_of obs"
proof
  fix k
  show "map_of (BuildObservedResources (fst (ContainersFromObserved obs)) (snd (ContainersFromObserved obs))) k = map_of obs k"
    using find_sorted_rebuilt [OF assms, of k "\<lambda>o'. \<not> oc_Init o'"] find_sorted_rebuilt [OF assms, of k oc_Init]
    by (cases "map_of obs k")
       (auto simp: BuildObservedResources_def observe_add_def ContainersFromObserved_def map_of_fold_update
                   observe_rebuilt_init observe_rebuilt_plain)
qed

lemma maps_agree_keys:
  assumes "maps_agree same a b" "wf_map a" "wf_map b"
  shows "set (gkeys a) = set (gkeys b)"
proof (rule card_subset_eq)
  show "set (gkeys a) \<subseteq> set (gkeys b)"
    using assms(1) by (force simp: maps_agree_def list_all_iff split: option.splits dest: map_of_SomeD)
  show "card (set (gkeys a)) = card (set (gkeys b))"
    using assms by (simp add: maps_agree_def wf_map_def distinct_card del: set_map)
qed simp

lemma ShouldRequest_wants:
  "ShouldRequest (Some k) policy observed \<Longrightarrow> \<exists>name. name \<in> set (gkeys observed) - set (gkeys (ObservedResources (w_Status k)))"
  by (auto simp: ShouldRequest_def list_ex_iff map_of_None_key split: if_splits) force

text \<open>One request settles: after the webhook's request for a pod has gone through, no pod running the
  same containers has anything left to request. The Recommendation, its outcome and its Policy are what
  they were, it is served no longer than before, and no container the snapshot already described is
  described differently.\<close>

theorem request_settles:
  assumes "quantity_laws E amt" "wlr_store_laws E C stored" "stored s (key_of k) = Some k"
    and "Request sha C (Some k) ref policy observed s = (Inr (), s')"
    and "wf_map observed" "wf_map (ObservedResources (w_Status k))" "wf_map (Containers (w_Status k))"
  shows "\<exists>k'. stored s' (key_of k) = Some k' \<and> \<not> ShouldRequest (Some k') policy observed \<and>
    Outcome (w_Status k') = Outcome (w_Status k) \<and> ComputedBy (w_Status k') = ComputedBy (w_Status k) \<and>
    maps_agree (rec_same E) (Containers (w_Status k')) (Containers (w_Status k)) \<and>
    ServableUntil (w_Status k') \<le> ServableUntil (w_Status k) \<and>
    (\<forall>name v'. map_of (ObservedResources (w_Status k')) name = Some v' \<longrightarrow>
       (\<forall>v. map_of (ObservedResources (w_Status k)) name = Some v \<longrightarrow> observed_same E v' v))"
proof (cases "ShouldRequest (Some k) policy observed")
  case False
  then have "s' = s" using assms(4) by (simp add: Request_def)
  then show ?thesis
    using False assms(1,3,7) by (auto simp: maps_agree_refl rec_same_refl observed_same_refl)
next
  case True
  let ?m = "maps_copy (maps_copy [] observed) (ObservedResources (w_Status k))"
  obtain out where p: "cl_StatusPatch C k (k\<lparr>w_Status := (w_Status k)\<lparr>ObservedResources := ?m\<rparr>\<rparr>) s = (Inr out, s')"
    using assms(4) True
    by (auto simp: Request_def writeSnapshot_def and_then_def wrapped_def yields_def split: prod.splits sum.splits)
  note st = status_patch_stored [OF assms(2) p assms(3)]
  have look: "map_of ?m name =
      (case map_of (ObservedResources (w_Status k)) name of Some v \<Rightarrow> Some v | None \<Rightarrow> map_of observed name)" for name
    using assms(5,6) by (simp add: map_of_maps_copy split: option.splits)
  have wf: "wf_map ?m" "wf_map (ObservedResources (w_Status out))"
    and agree: "maps_agree (observed_same E) (ObservedResources (w_Status out)) ?m"
    and rest: "Outcome (w_Status out) = Outcome (w_Status k)" "ComputedBy (w_Status out) = ComputedBy (w_Status k)"
      "maps_agree (rec_same E) (Containers (w_Status out)) (Containers (w_Status k))"
      "ServableUntil (w_Status out) = rfc3339 (ServableUntil (w_Status k))"
    using st(2) by (auto simp: api_stored_def statusEquivalent_def observedEqual_def)
  have "set (gkeys observed) \<subseteq> set (gkeys ?m)"
    using look by (metis map_of_None_key option.case_eq_if option.distinct(1) subsetI)
  then have settled: "\<not> ShouldRequest (Some out) policy observed"
    using ShouldRequest_wants [of out policy observed] maps_agree_keys [OF agree wf(2,1)] by auto
  have "observed_same E v' v"
    if "map_of (ObservedResources (w_Status out)) name = Some v'" "map_of (ObservedResources (w_Status k)) name = Some v" for name v v'
    using maps_agree_lookup [OF agree that(1)] look [of name] that(2) by auto
  then show ?thesis using st(1) settled rest rfc3339_le by auto
qed

section \<open>A store that keeps the laws\<close>

text \<open>The objects, the latest version of each first.\<close>

type_synonym mem = "fixed workload_recommendation list"

definition mem_stored :: "mem \<Rightarrow> namespaced_name \<Rightarrow> fixed workload_recommendation option" where
  "mem_stored s n = find (\<lambda>w. key_of w = n) s"

definition mem_answer :: "'e \<Rightarrow> 'a option \<Rightarrow> 'e + 'a" where
  "mem_answer e r = (case r of None \<Rightarrow> Inl e | Some x \<Rightarrow> Inr x)"

definition mem_create :: "fixed workload_recommendation \<Rightarrow> mem \<Rightarrow> (string + fixed workload_recommendation) \<times> mem" where
  "mem_create w s =
     (if mem_stored s (key_of w) \<noteq> None then (Inl ''exists'', s)
      else let out = w\<lparr>w_UID := ''uid'', w_ResourceVersion := ''1'', w_Status := empty_status\<rparr> in (Inr out, out # s))"

definition mem_patch ::
  "fixed workload_recommendation \<Rightarrow> fixed workload_recommendation \<Rightarrow> mem \<Rightarrow>
   (string + fixed workload_recommendation) \<times> mem" where
  "mem_patch base new s =
     (case mem_stored s (key_of new) of
        None \<Rightarrow> (Inl ''notfound'', s)
      | Some b \<Rightarrow>
          let out = b\<lparr>w_ResourceVersion := w_ResourceVersion b @ ''1'',
            w_Policy := merged (w_Policy b) (w_Policy base) (w_Policy new),
            w_WorkloadRef :=
              \<lparr> wr_Kind = merged (wr_Kind (w_WorkloadRef b)) (wr_Kind (w_WorkloadRef base)) (wr_Kind (w_WorkloadRef new)),
                wr_Namespace = merged (wr_Namespace (w_WorkloadRef b)) (wr_Namespace (w_WorkloadRef base)) (wr_Namespace (w_WorkloadRef new)),
                wr_Name = merged (wr_Name (w_WorkloadRef b)) (wr_Name (w_WorkloadRef base)) (wr_Name (w_WorkloadRef new)) \<rparr>\<rparr>
          in (Inr out, out # s))"

definition mem_status_patch ::
  "fixed workload_recommendation \<Rightarrow> fixed workload_recommendation \<Rightarrow> mem \<Rightarrow>
   (string + fixed workload_recommendation) \<times> mem" where
  "mem_status_patch base new s =
     (case mem_stored s (key_of base) of
        None \<Rightarrow> (Inl ''notfound'', s)
      | Some b \<Rightarrow>
          if \<not> wf_map (Containers (w_Status new)) \<or> \<not> wf_map (ObservedResources (w_Status new))
          then (Inl ''invalid'', s)
          else let out = b\<lparr>w_ResourceVersion := w_ResourceVersion b @ ''1'',
                 w_Status := (w_Status new)\<lparr>ObservedAt := rfc3339 (ObservedAt (w_Status new)),
                   ServableUntil := rfc3339 (ServableUntil (w_Status new))\<rparr>\<rparr>
               in (Inr out, out # s))"

definition mem_delete ::
  "fixed workload_recommendation \<Rightarrow> string \<times> string \<Rightarrow> mem \<Rightarrow> (string + unit) \<times> mem" where
  "mem_delete w pre s =
     (case mem_stored s (key_of w) of
        None \<Rightarrow> (Inl ''notfound'', s)
      | Some x \<Rightarrow> if (w_UID x, w_ResourceVersion x) \<noteq> pre then (Inl ''conflict'', s)
                  else (Inr (), filter (\<lambda>v. key_of v \<noteq> key_of w) s))"

definition mem_client :: "(fixed, unit) policy list \<Rightarrow> (fixed, unit, string, mem) wlr_client" where
  "mem_client ps =
     \<lparr> cl_Get = (\<lambda>n s. (mem_answer ''notfound'' (mem_stored s n), s)),
       cl_Create = mem_create, cl_Patch = mem_patch, cl_StatusPatch = mem_status_patch,
       cl_List = (\<lambda>opts s. (Inr (filter (\<lambda>w. mem_stored s (key_of w) = Some w \<and>
                    (case opts of None \<Rightarrow> True | Some (label, v) \<Rightarrow> map_of (w_Labels w) label = Some v)) s), s)),
       cl_ListPolicies = (\<lambda>s. (Inr ps, s)), cl_Delete = mem_delete,
       is_not_found = (\<lambda>e. e = ''notfound''), is_already_exists = (\<lambda>e. e = ''exists''),
       is_conflict = (\<lambda>e. e = ''conflict'') \<rparr>"

lemma mem_stored_key: "mem_stored s n = Some w \<Longrightarrow> key_of w = n"
  unfolding mem_stored_def using find_Some_set by fast

lemma mem_stored_Cons: "mem_stored (w # s) = (mem_stored s)(key_of w \<mapsto> w)"
  by (auto simp: mem_stored_def)

lemma mem_stored_filter: "mem_stored (filter (\<lambda>v. key_of v \<noteq> n) s) = (mem_stored s)(n := None)"
  unfolding mem_stored_def by (induction s) (auto simp: fun_eq_iff)

lemma mem_status_laws: "status_laws fixed_env (mem_client ps) mem_stored"
proof -
  have "statusEquivalent fixed_env (st\<lparr>ObservedAt := a, ServableUntil := b\<rparr>) st"
    if "wf_map (Containers st)" "wf_map (ObservedResources st)" for st :: "fixed wlr_status" and a b
    using that by (simp add: statusEquivalent_def maps_agree_refl rec_same_refl [OF fixed_env_laws]
      observedEqual_refl [OF fixed_env_laws])
  then show ?thesis
    by (auto simp: status_laws_def mem_client_def mem_status_patch_def Let_def mem_stored_Cons api_stored_def
             split: option.splits if_splits)
qed

lemma mem_laws: "wlr_store_laws fixed_env (mem_client ps) mem_stored"
proof -
  have "get_laws (mem_client ps) mem_stored"
    by (auto simp: get_laws_def mem_client_def mem_answer_def split: option.splits dest: mem_stored_key)
  moreover have "create_laws (mem_client ps) mem_stored"
    by (auto simp: create_laws_def mem_client_def mem_create_def Let_def mem_stored_Cons split: if_splits)
  moreover have "patch_laws (mem_client ps) mem_stored"
    by (auto simp: patch_laws_def mem_client_def mem_patch_def Let_def mem_stored_Cons
             split: option.splits dest!: mem_stored_key)
  ultimately show ?thesis using mem_status_laws by (simp add: wlr_store_laws_def)
qed

lemma mem_delete_laws: "delete_laws (mem_client ps) mem_stored"
  unfolding delete_laws_def
proof (intro conjI allI impI)
  fix w uid rv s r s'
  assume "cl_Delete (mem_client ps) w (uid, rv) s = (r, s')"
  then show "mem_stored s' = mem_stored s \<or>
      (\<exists>x. mem_stored s (key_of w) = Some x \<and> w_UID x = uid \<and> w_ResourceVersion x = rv \<and>
           mem_stored s' = (mem_stored s)(key_of w := None))"
    by (auto simp: mem_client_def mem_delete_def mem_stored_filter [where n = "key_of w", simplified]
             split: option.splits if_splits)
qed (auto simp: mem_client_def)

section \<open>Witnesses\<close>

definition ex_wlr :: "string \<Rightarrow> fixed wlr_status \<Rightarrow> fixed workload_recommendation" where
  "ex_wlr policy st =
     \<lparr> w_Name = ''deployment-web'', w_Namespace = ''shop'', w_Labels = [(WLRPolicyLabel, policy)], w_UID = ''u'',
       w_ResourceVersion = ''7'', w_CreationTimestamp = 0,
       w_WorkloadRef = \<lparr> wr_Kind = ''Deployment'', wr_Namespace = ''shop'', wr_Name = ''web'' \<rparr>,
       w_Policy = policy, w_Status = st \<rparr>"

definition ex_recs :: "fixed recs" where
  "ex_recs = [(''app'', empty_recommendation\<lparr>CPURequest := Some (1 / 2, DecimalSI)\<rparr>)]"

definition ex_computed :: "fixed pass_decision" where
  "ex_computed = \<lparr> pd_Outcome = OutcomeComputed, pd_Recs = ex_recs, pd_Traces = [], pd_Departed = False \<rparr>"

definition ex_life :: lifetimes where
  "ex_life = \<lparr> ReconcileInterval = 5 * minute, Retention = 168 * hour \<rparr>"

definition ex_observed :: "fixed snapshot" where
  "ex_observed = [(''app'', \<lparr> oc_Init = False, oc_CPURequest = Some (1, DecimalSI), oc_MemoryRequest = None,
                             oc_CPULimit = None, oc_MemoryLimit = None \<rparr>)]"

abbreviation (input) ex_sha :: "string \<Rightarrow> string" where "ex_sha \<equiv> \<lambda>_. ''0123456789''"
abbreviation (input) ex_ref :: workload_reference where
  "ex_ref \<equiv> \<lparr> wr_Kind = ''Deployment'', wr_Namespace = ''shop'', wr_Name = ''web'' \<rparr>"

lemmas ex_defs = ex_wlr_def ex_recs_def ex_computed_def ex_life_def ex_observed_def empty_status_def
  mem_client_def mem_stored_def wf_map_def

lemma ex_budget: "StalenessBudget ex_life = 30 * minute"
  by (simp add: StalenessBudget_def ex_life_def wrap64_def)

theorem record_then_read_witness:
  "\<exists>s' k'. Record fixed_env (mem_client []) (Some (ex_wlr ''web'' empty_status)) ex_computed (60 * minute) ex_life
       [ex_wlr ''web'' empty_status] = (Inr (), s') \<and>
     mem_stored s' (''shop'', ''deployment-web'') = Some k' \<and> r_Verdict (Read (Some k') ''web'' (70 * minute)) = Fresh"
proof -
  let ?k = "ex_wlr ''web'' empty_status"
  have r: "fst (Record fixed_env (mem_client []) (Some ?k) ex_computed (60 * minute) ex_life [?k]) = Inr ()"
    by (simp add: Record_def Let_def record_desired_def statusEquivalent_def maps_agree_def and_then_def wrapped_def
      yields_def mem_status_patch_def map_by_def ex_defs)
  then obtain s' where s': "Record fixed_env (mem_client []) (Some ?k) ex_computed (60 * minute) ex_life [?k] = (Inr (), s')"
    by (metis prod.collapse)
  have "mem_stored [?k] (key_of ?k) = Some ?k" by (simp add: ex_defs)
  from record_then_read [OF fixed_env_laws mem_laws this s', of "70 * minute"]
  show ?thesis using s' by (simp add: ex_budget) (auto simp: ex_defs)
qed

theorem record_settles_witness:
  "\<exists>st'. api_stored fixed_env (record_desired fixed_env (ex_wlr ''web'' empty_status) ex_computed (60 * minute) ex_life) st' \<and>
     Record fixed_env (mem_client []) (Some (ex_wlr ''web'' st')) ex_computed (65 * minute) ex_life [] = (Inr (), [])"
proof -
  let ?k = "ex_wlr ''web'' empty_status"
  let ?D = "record_desired fixed_env ?k ex_computed (60 * minute) ex_life"
  have D: "Containers ?D = ex_recs" "ObservedResources ?D = []" "ObservedAt ?D = 60 * minute"
    by (simp_all add: record_desired_def Let_def statusEquivalent_def maps_agree_def map_by_def ex_defs)
  let ?st = "?D\<lparr>ObservedAt := rfc3339 (ObservedAt ?D), ServableUntil := rfc3339 (ServableUntil ?D)\<rparr>"
  have st: "api_stored fixed_env ?D ?st"
    using D by (simp add: api_stored_def statusEquivalent_def maps_agree_refl rec_same_refl [OF fixed_env_laws]
      observedEqual_refl [OF fixed_env_laws] wf_map_def ex_recs_def)
  have ob: "ObservedAt ?st = 60 * minute" using D(3) by (simp add: rfc3339_def)
  have "Record fixed_env (mem_client []) (Some (ex_wlr ''web'' ?st)) ex_computed (65 * minute) ex_life [] = (Inr (), [])"
    using ob
    by (intro record_settles [OF fixed_env_laws, of ?k ex_computed "60 * minute" ex_life "ex_wlr ''web'' ?st"])
       (use st in \<open>simp_all add: ex_wlr_def ex_computed_def ex_recs_def wf_map_def time_sub_def sat64_def\<close>)
  with st show ?thesis by blast
qed

definition ex_status :: "string \<Rightarrow> bool \<Rightarrow> fixed wlr_status" where
  "ex_status policy departed = empty_status\<lparr>Outcome := OutcomeComputed, ComputedBy := policy, Departed := departed,
     ObservedAt := 60 * minute, ServableUntil := 90 * minute, Containers := ex_recs\<rparr>"

theorem record_keeps_last_recommendation_witness:
  "let D = record_desired fixed_env (ex_wlr ''web'' (ex_status ''web'' False))
             \<lparr> pd_Outcome = OutcomeNoData, pd_Recs = [], pd_Traces = [], pd_Departed = False \<rparr> (80 * minute) ex_life
   in Containers D = ex_recs \<and> ObservedAt D = 60 * minute \<and> 0 < ServableUntil D \<and> ServableUntil D \<le> 90 * minute"
proof -
  let ?k = "ex_wlr ''web'' (ex_status ''web'' False)"
  let ?d = "\<lparr> pd_Outcome = OutcomeNoData, pd_Recs = [], pd_Traces = [], pd_Departed = False \<rparr> :: fixed pass_decision"
  let ?D = "record_desired fixed_env ?k ?d (80 * minute) ex_life"
  let ?st = "?D\<lparr>ObservedAt := rfc3339 (ObservedAt ?D), ServableUntil := rfc3339 (ServableUntil ?D)\<rparr>"
  have D: "Containers ?D = ex_recs" "ObservedResources ?D = []" "ObservedAt ?D = 60 * minute"
    by (simp_all add: desired_kept desired_fields ex_defs ex_status_def)
  have pos: "0 < ServableUntil ?D"
    using servableUntil_bounds(2) [of ?D 0 ex_life] D
    by (simp add: desired_kept(5) desired_fields window_of_def ex_budget ex_wlr_def ex_status_def ex_recs_def)
  have "api_stored fixed_env ?D ?st"
    using D by (simp add: api_stored_def statusEquivalent_def maps_agree_refl rec_same_refl [OF fixed_env_laws]
      observedEqual_refl [OF fixed_env_laws] wf_map_def ex_recs_def)
  from record_keeps_last_recommendation [OF _ this] D pos show ?thesis
    by (simp add: Let_def ex_budget lastComputed_def ex_wlr_def ex_status_def ex_recs_def empty_status_def)
qed


theorem ensure_claims_witness:
  "\<exists>k s'. Ensure fixed_env ex_sha (mem_client []) ex_ref ''web'' (Some ex_observed) ex_life
       [ex_wlr ''old'' (ex_status ''old'' False)] = (Inr k, s') \<and>
     w_Policy k = ''web'' \<and> ComputedBy (w_Status k) = ''old'' \<and> \<not> Injects (r_Verdict (Read (Some k) ''web'' (61 * minute)))"
proof -
  let ?w = "ex_wlr ''old'' (ex_status ''old'' False)"
  let ?r = "Ensure fixed_env ex_sha (mem_client []) ex_ref ''web'' (Some ex_observed) ex_life [?w]"
  have key: "keyOf ex_sha ex_ref = (''shop'', ''deployment-web'')"
    by (simp add: keyOf_def Name_def lower_char_def maxNameLength_def char_of_def bit_0)
  have "\<exists>k s'. ?r = (Inr k, s')"
    by (simp add: Ensure_def ensure_object_def key claim_def and_then_def wrapped_def yields_def mem_patch_def
      mem_status_patch_def mem_answer_def lookup_or_def ensure_status_def observedEqual_def maps_agree_def Let_def
      ex_defs ex_status_def)
  then obtain k s' where r: "?r = (Inr k, s')" by blast
  have B: "status_before mem_stored [?w] (keyOf ex_sha ex_ref) = ex_status ''old'' False"
    by (simp add: status_before_def key ex_defs)
  from ensure_claims [OF fixed_env_laws mem_laws r, of "61 * minute"] r show ?thesis
    unfolding B by (simp add: ex_status_def ex_recs_def empty_status_def wf_map_def)
qed

theorem deletes_only_what_was_judged_witness:
  "mem_stored (snd (snd (Sweep (mem_client []) ''web'' (\<lambda>_. StandingGoverned) (200 * hour) ex_life
      [ex_wlr ''web'' (ex_status ''web'' False)]))) (''shop'', ''deployment-web'') = Some (ex_wlr ''web'' (ex_status ''web'' False))"
proof -
  let ?w = "ex_wlr ''web'' (ex_status ''web'' False)"
  have "mem_stored [?w] (''shop'', ''deployment-web'') = Some ?w" by (simp add: ex_defs)
  note d = deletes_only_what_was_judged [OF mem_delete_laws [of "[]"], OF this, unfolded Let_def, THEN conjunct1]
  have "\<not> Expired ?w ''web'' StandingGoverned (200 * hour) ex_life" by (simp add: Expired_def)
  with d [of "''web''" "\<lambda>_. StandingGoverned" "200 * hour" ex_life] show ?thesis by blast
qed

theorem release_reports_every_survivor_witness:
  "\<exists>n s'. Release (mem_client []) ''web'' [ex_wlr ''web'' (ex_status ''web'' False)] = (n, None, s') \<and> n = 1"
proof -
  let ?w = "ex_wlr ''web'' (ex_status ''web'' False)"
  have "fst (snd (Release (mem_client []) ''web'' [?w])) = None"
    by (simp add: Release_def deleteWhere_def mem_delete_def ex_defs)
  then obtain n s' where r: "Release (mem_client []) ''web'' [?w] = (n, None, s')"
    by (metis prod.collapse)
  from release_reports_every_survivor [OF r] r show ?thesis by (auto simp: ex_defs)
qed

theorem Name_fits_witness:
  "length (Name ex_sha ''Deployment'' (replicate 300 (CHR ''a''))) \<le> 253 \<and> Name ex_sha ''Job'' ''etl'' = ''job-etl''"
  using Name_fits [of ex_sha "''Deployment''" "replicate 300 (CHR ''a'')"] Name_fits [of ex_sha "''Job''" "''etl''"]
  by (simp add: lower_char_def char_of_def bit_0)

theorem snapshot_roundtrip_witness:
  "map_of (BuildObservedResources (fst (ContainersFromObserved ex_observed)) (snd (ContainersFromObserved ex_observed))) ''app'' =
   Some (snd (hd ex_observed))"
  using snapshot_roundtrip [of ex_observed] by (simp add: ex_observed_def wf_map_def)

theorem request_settles_witness:
  "\<exists>s' k'. Request ex_sha (mem_client []) (Some (ex_wlr ''web'' empty_status)) ex_ref ''web'' ex_observed
       [ex_wlr ''web'' empty_status] = (Inr (), s') \<and>
     mem_stored s' (''shop'', ''deployment-web'') = Some k' \<and>
     ShouldRequest (Some (ex_wlr ''web'' empty_status)) ''web'' ex_observed \<and> \<not> ShouldRequest (Some k') ''web'' ex_observed"
proof -
  let ?k = "ex_wlr ''web'' empty_status"
  have want: "ShouldRequest (Some ?k) ''web'' ex_observed" by (simp add: ShouldRequest_def ex_defs)
  have "fst (Request ex_sha (mem_client []) (Some ?k) ex_ref ''web'' ex_observed [?k]) = Inr ()"
    using want by (simp add: Request_def writeSnapshot_def and_then_def wrapped_def yields_def mem_status_patch_def
      maps_copy_def Let_def ex_defs)
  then obtain s' where r: "Request ex_sha (mem_client []) (Some ?k) ex_ref ''web'' ex_observed [?k] = (Inr (), s')"
    by (metis prod.collapse)
  have "mem_stored [?k] (key_of ?k) = Some ?k" by (simp add: ex_defs)
  from request_settles [OF fixed_env_laws mem_laws this r] r want show ?thesis
    by (auto simp: ex_wlr_def ex_observed_def empty_status_def wf_map_def)
qed

end
