(* ===== verification/Lru.thy ===== *)
theory Lru
  imports Prelude
begin

text \<open>
  The expiring LRU the webhook and the dashboard share (\<open>internal/cache/lru.go\<close>). Its two structures
  are kept as the code has them: \<open>order\<close>, the list from the most to the least recently used, an element
  named by the key of its entry, and \<open>entries\<close>, the map from keys to elements, here to the element's
  value and the time it was stored. The clock is read once per call, the argument \<open>now\<close>; an operation
  holds the lock throughout, so it is one step. \<open>recency\<close> is the abstract cache, one list of entries by
  recency, that every operation refines.
\<close>

record ('k, 'v) lru =
  maxEntries :: nat
  ttl :: duration
  order :: "'k list"
  entries :: "('k, 'v \<times> time) gomap"

text \<open>\<open>NewLRU\<close> panics when \<open>maxEntries < 1\<close>: \<open>None\<close>.\<close>

definition NewLRU :: "int \<Rightarrow> duration \<Rightarrow> ('k, 'v) lru option" where
  "NewLRU n d = (if n < 1 then None
                 else Some \<lparr> maxEntries = nat n, ttl = d, order = [], entries = [] \<rparr>)"

text \<open>\<open>list.MoveToFront\<close> of the element with key \<open>k\<close>.\<close>

definition moveToFront :: "'k \<Rightarrow> 'k list \<Rightarrow> 'k list" where
  "moveToFront k ks = k # removeAll k ks"

definition lru_Get :: "time \<Rightarrow> ('k, 'v) lru \<Rightarrow> 'k \<Rightarrow> 'v option \<times> ('k, 'v) lru" where
  "lru_Get now c k =
     (case map_of (entries c) k of
        None \<Rightarrow> (None, c)
      | Some (v, storedAt) \<Rightarrow>
          if time_sub now storedAt > ttl c then (None, c)
          else (Some v, c\<lparr>order := moveToFront k (order c)\<rparr>))"

definition LastGoodWithin :: "time \<Rightarrow> ('k, 'v) lru \<Rightarrow> 'k \<Rightarrow> duration \<Rightarrow> 'v option" where
  "LastGoodWithin now c k maxAge =
     (case map_of (entries c) k of
        None \<Rightarrow> None
      | Some (v, storedAt) \<Rightarrow> if time_sub now storedAt > maxAge then None else Some v)"

definition setLocked :: "time \<Rightarrow> ('k, 'v) lru \<Rightarrow> 'k \<Rightarrow> 'v \<Rightarrow> ('k, 'v) lru" where
  "setLocked now c k v =
     (if map_of (entries c) k \<noteq> None
      then c\<lparr>entries := AList.update k (v, now) (entries c), order := moveToFront k (order c)\<rparr>
      else let c' = c\<lparr>order := k # order c, entries := AList.update k (v, now) (entries c)\<rparr>
           in if length (order c') > maxEntries c'
              then c'\<lparr>order := butlast (order c'), entries := AList.delete (last (order c')) (entries c')\<rparr>
              else c')"

definition lru_Set :: "time \<Rightarrow> ('k, 'v) lru \<Rightarrow> 'k \<Rightarrow> 'v \<Rightarrow> ('k, 'v) lru" where
  "lru_Set now c k v = setLocked now c k v"

definition SetIfAbsent :: "time \<Rightarrow> ('k, 'v) lru \<Rightarrow> 'k \<Rightarrow> 'v \<Rightarrow> bool \<times> ('k, 'v) lru" where
  "SetIfAbsent now c k v =
     (case map_of (entries c) k of
        Some (_, storedAt) \<Rightarrow>
          if time_sub now storedAt \<le> ttl c then (False, c\<lparr>order := moveToFront k (order c)\<rparr>)
          else (True, setLocked now c k v)
      | None \<Rightarrow> (True, setLocked now c k v))"

definition DeleteIf :: "('k, 'v) lru \<Rightarrow> 'k \<Rightarrow> ('v \<Rightarrow> bool) \<Rightarrow> bool \<times> ('k, 'v) lru" where
  "DeleteIf c k match =
     (case map_of (entries c) k of
        None \<Rightarrow> (False, c)
      | Some (v, _) \<Rightarrow>
          if \<not> match v then (False, c)
          else (True, c\<lparr>order := removeAll k (order c), entries := AList.delete k (entries c)\<rparr>))"

section \<open>The invariant\<close>

definition lru_ok :: "('k, 'v) lru \<Rightarrow> bool" where
  "lru_ok c \<longleftrightarrow> distinct (order c) \<and> wf_map (entries c) \<and> set (order c) = set (gkeys (entries c)) \<and>
     length (order c) \<le> maxEntries c \<and> 1 \<le> maxEntries c"

lemma lru_ok_key: "lru_ok c \<Longrightarrow> map_of (entries c) k \<noteq> None \<longleftrightarrow> k \<in> set (order c)"
  by (auto simp: lru_ok_def map_of_None_key)

lemma moveToFront_facts:
  assumes "distinct ks" "k \<in> set ks"
  shows "distinct (moveToFront k ks)" "set (moveToFront k ks) = set ks" "length (moveToFront k ks) = length ks"
proof -
  show "distinct (moveToFront k ks)" using assms by (simp add: moveToFront_def distinct_removeAll)
  show "set (moveToFront k ks) = set ks" using assms by (auto simp: moveToFront_def)
  show "length (moveToFront k ks) = length ks"
    using assms length_pos_if_in_set [OF assms(2)]
    by (simp add: moveToFront_def distinct_remove1_removeAll [symmetric] length_remove1)
qed

lemma lru_ok_New: "NewLRU n d = Some c \<Longrightarrow> lru_ok c"
  by (auto simp: NewLRU_def lru_ok_def split: if_splits)

lemma lru_ok_touch: "lru_ok c \<Longrightarrow> k \<in> set (order c) \<Longrightarrow> lru_ok (c\<lparr>order := moveToFront k (order c)\<rparr>)"
  by (auto simp: lru_ok_def moveToFront_facts)

lemma lru_ok_Get: "lru_ok c \<Longrightarrow> lru_ok (snd (lru_Get now c k))"
  using lru_ok_key [of c k] by (auto simp: lru_Get_def lru_ok_touch split: option.splits)

section \<open>Refinement\<close>

definition recency :: "('k, 'v) lru \<Rightarrow> ('k \<times> 'v \<times> time) list" where
  "recency c = map (\<lambda>k. (k, the (map_of (entries c) k))) (order c)"

definition touched :: "'k \<Rightarrow> ('k \<times> 'a) list \<Rightarrow> ('k \<times> 'a) list" where
  "touched k xs = (case map_of xs k of None \<Rightarrow> xs | Some a \<Rightarrow> (k, a) # filter (\<lambda>p. fst p \<noteq> k) xs)"

lemma map_of_recency: "lru_ok c \<Longrightarrow> map_of (recency c) k = map_of (entries c) k"
proof -
  assume ok: "lru_ok c"
  have "map_of (map (\<lambda>k. (k, g k)) ks) k = (if k \<in> set ks then Some (g k) else None)" for g :: "'a \<Rightarrow> 'b \<times> time" and ks
    by (induction ks) auto
  then show ?thesis
    using lru_ok_key [OF ok, of k] by (cases "map_of (entries c) k") (auto simp: recency_def)
qed

lemma recency_others:
  assumes "\<And>x. x \<noteq> k \<Longrightarrow> m x = m' x"
  shows "map (\<lambda>x. (x, m x)) (removeAll k ks) = filter (\<lambda>p. fst p \<noteq> k) (map (\<lambda>x. (x, m' x)) ks)"
  using assms by (induction ks) auto

lemma recency_touch:
  assumes "lru_ok c" "map_of (entries c) k = Some a"
  shows "recency (c\<lparr>order := moveToFront k (order c)\<rparr>) = touched k (recency c)"
  using assms map_of_recency [OF assms(1), of k]
  by (simp add: touched_def recency_def moveToFront_def recency_others [where m' = "\<lambda>k. the (map_of (entries c) k)"])

lemma setLocked_old:
  assumes "lru_ok c" "map_of (entries c) k \<noteq> None"
  shows "lru_ok (setLocked now c k v)"
    and "recency (setLocked now c k v) = (k, v, now) # filter (\<lambda>p. fst p \<noteq> k) (recency c)"
proof -
  have k: "k \<in> set (order c)" using assms lru_ok_key by fast
  show "lru_ok (setLocked now c k v)"
    using assms k by (auto simp: setLocked_def lru_ok_def moveToFront_facts keys_update insert_absorb simp del: set_map)
  show "recency (setLocked now c k v) = (k, v, now) # filter (\<lambda>p. fst p \<noteq> k) (recency c)"
    using assms(2) recency_others [of k "\<lambda>x. the (map_of (AList.update k (v, now) (entries c)) x)" "\<lambda>x. the (map_of (entries c) x)" "order c"]
    by (simp add: setLocked_def recency_def moveToFront_def)
qed

lemma setLocked_new:
  assumes "lru_ok c" "map_of (entries c) k = None"
  shows "lru_ok (setLocked now c k v)"
    and "recency (setLocked now c k v) = take (maxEntries c) ((k, v, now) # recency c)"
proof -
  have k: "k \<notin> set (order c)" using assms(2) lru_ok_key [OF assms(1), of k] by simp
  let ?e = "AList.update k (v, now) (entries c)"
  have same: "map (\<lambda>x. (x, the (map_of ?e x))) (order c) = recency c"
    using k by (auto simp: recency_def)
  have len: "length (order c) \<le> maxEntries c" "1 \<le> maxEntries c" using assms(1) by (auto simp: lru_ok_def)
  show "recency (setLocked now c k v) = take (maxEntries c) ((k, v, now) # recency c)"
  proof (cases "length (order c) = maxEntries c")
    case False
    then show ?thesis
      using assms(2) len same by (simp add: setLocked_def Let_def recency_def)
  next
    case True
    then have ne: "order c \<noteq> []" using len by auto
    let ?l = "last (order c)"
    have d: "distinct (order c)" using assms(1) by (simp add: lru_ok_def)
    have notin: "?l \<notin> set (butlast (order c))" "?l \<noteq> k"
      using d ne k by (metis append_butlast_last_id distinct_append disjoint_iff list.set_intros(1)) (use ne k last_in_set in blast)
    have "recency (setLocked now c k v) = map (\<lambda>x. (x, the (map_of (AList.delete ?l ?e) x))) (k # butlast (order c))"
      using True assms(2) ne by (simp add: setLocked_def Let_def recency_def)
    also have "\<dots> = (k, v, now) # map (\<lambda>x. (x, the (map_of (entries c) x))) (butlast (order c))"
    proof -
      have "x \<noteq> ?l \<and> x \<noteq> k" if "x \<in> set (butlast (order c))" for x
        using that notin k in_set_butlastD by metis
      then show ?thesis using notin by auto
    qed
    also have "\<dots> = take (maxEntries c) ((k, v, now) # recency c)"
      using True ne len
      by (cases "maxEntries c") (simp_all add: recency_def map_butlast butlast_conv_take take_map)
    finally show ?thesis .
  qed
  show "lru_ok (setLocked now c k v)"
  proof (cases "length (order c) = maxEntries c")
    case False
    then show ?thesis using assms k len by (auto simp: setLocked_def Let_def lru_ok_def keys_update simp del: set_map)
  next
    case True
    then have ne: "order c \<noteq> []" using len by auto
    have d: "distinct (order c)" using assms(1) by (simp add: lru_ok_def)
    obtain xs x where ox: "order c = xs @ [x]" using ne by (cases "order c" rule: rev_cases) auto
    then have "set (gkeys (AList.delete x ?e)) = insert k (set xs)"
      using assms(1) d k by (auto simp: keys_delete keys_update lru_ok_def simp del: set_map)
    then show ?thesis
      using True assms k d ox by (auto simp: setLocked_def Let_def lru_ok_def simp del: set_map)
  qed
qed

lemma setLocked_refines:
  assumes "lru_ok c"
  shows "lru_ok (setLocked now c k v)"
    and "recency (setLocked now c k v) = take (maxEntries c) ((k, v, now) # filter (\<lambda>p. fst p \<noteq> k) (recency c))"
proof -
  have len: "length (recency c) \<le> maxEntries c" using assms by (simp add: recency_def lru_ok_def)
  show "lru_ok (setLocked now c k v)"
    using setLocked_old(1) [OF assms, of k now v] setLocked_new(1) [OF assms, of k now v]
    by (cases "map_of (entries c) k") auto
  show "recency (setLocked now c k v) = take (maxEntries c) ((k, v, now) # filter (\<lambda>p. fst p \<noteq> k) (recency c))"
  proof (cases "map_of (entries c) k")
    case None
    then have "filter (\<lambda>p. fst p \<noteq> k) (recency c) = recency c"
      using assms lru_ok_key [OF assms, of k] by (auto simp: recency_def filter_id_conv)
    then show ?thesis using setLocked_new(2) [OF assms None] by simp
  next
    case (Some a)
    then have "k \<in> set (order c)" using assms lru_ok_key by fast
    then have "length (filter (\<lambda>p. fst p \<noteq> k) (recency c)) < length (recency c)"
      by (intro length_filter_less [of "(k, the (map_of (entries c) k))"]) (auto simp: recency_def)
    then show ?thesis using setLocked_old(2) [OF assms] Some len by (simp add: take_all)
  qed
qed

lemma lru_Get_refines:
  assumes "lru_ok c" "lru_Get now c k = (r, c')"
  shows "lru_ok c' \<and>
    r = (case map_of (recency c) k of Some (v, t) \<Rightarrow> if time_sub now t \<le> ttl c then Some v else None | None \<Rightarrow> None) \<and>
    recency c' = (if r = None then recency c else touched k (recency c))"
  using assms lru_ok_Get [OF assms(1), of now k] recency_touch [OF assms(1), of k] map_of_recency [OF assms(1), of k]
  by (auto simp: lru_Get_def split: option.splits if_splits)

lemma SetIfAbsent_refines:
  assumes "lru_ok c" "SetIfAbsent now c k v = (b, c')"
  shows "lru_ok c' \<and> (b \<longleftrightarrow> fst (lru_Get now c k) = None) \<and>
    recency c' = (if b then recency (lru_Set now c k v) else touched k (recency c))"
  using assms setLocked_refines(1) [OF assms(1), of now k v] recency_touch [OF assms(1), of k]
    lru_ok_key [OF assms(1), of k] lru_ok_touch [OF assms(1), of k]
  by (auto simp: SetIfAbsent_def lru_Get_def lru_Set_def split: option.splits if_splits)

lemma DeleteIf_refines:
  assumes "lru_ok c" "DeleteIf c k match = (b, c')"
  shows "lru_ok c' \<and> (b \<longleftrightarrow> (\<exists>v t. map_of (recency c) k = Some (v, t) \<and> match v)) \<and>
    recency c' = (if b then filter (\<lambda>p. fst p \<noteq> k) (recency c) else recency c)"
proof -
  let ?d = "c\<lparr>order := removeAll k (order c), entries := AList.delete k (entries c)\<rparr>"
  have "length (removeAll k (order c)) \<le> maxEntries c"
    using assms(1) order_trans [OF length_filter_le] by (fastforce simp: lru_ok_def removeAll_filter_not_eq)
  then have "lru_ok ?d"
    using assms(1) by (auto simp: lru_ok_def keys_delete distinct_removeAll simp del: set_map)
  moreover have "recency ?d = filter (\<lambda>p. fst p \<noteq> k) (recency c)"
    by (simp add: recency_def recency_others [where m' = "\<lambda>x. the (map_of (entries c) x)"])
  ultimately show ?thesis
    using assms map_of_recency [OF assms(1), of k] by (auto simp: DeleteIf_def split: option.splits if_splits)
qed

text \<open>C10. The LRU is the cache of its recency list: from a well-formed cache, every operation leaves a
  well-formed one, never over its size, whose list is what the operation does to the plain list of
  entries by recency: a store puts its entry first and drops what falls off the end, a hit moves its
  entry first, a miss and a fallback read change nothing, a conditional delete removes its entry.\<close>

theorem lru_refines_recency:
  assumes "lru_ok c"
  shows "(let c' = lru_Set now c k v in lru_ok c' \<and> length (order c') \<le> maxEntries c \<and>
        recency c' = take (maxEntries c) ((k, v, now) # filter (\<lambda>p. fst p \<noteq> k) (recency c))) \<and>
    (let (r, c') = lru_Get now c k in lru_ok c' \<and>
        r = (case map_of (recency c) k of Some (v, t) \<Rightarrow> if time_sub now t \<le> ttl c then Some v else None | None \<Rightarrow> None) \<and>
        recency c' = (if r = None then recency c else touched k (recency c))) \<and>
    LastGoodWithin now c k maxAge =
      (case map_of (recency c) k of Some (v, t) \<Rightarrow> if time_sub now t \<le> maxAge then Some v else None | None \<Rightarrow> None) \<and>
    (let (b, c') = SetIfAbsent now c k v in lru_ok c' \<and> (b \<longleftrightarrow> fst (lru_Get now c k) = None) \<and>
        recency c' = (if b then recency (lru_Set now c k v) else touched k (recency c))) \<and>
    (let (b, c') = DeleteIf c k match in lru_ok c' \<and>
        (b \<longleftrightarrow> (\<exists>v t. map_of (recency c) k = Some (v, t) \<and> match v)) \<and>
        recency c' = (if b then filter (\<lambda>p. fst p \<noteq> k) (recency c) else recency c))"
proof (intro conjI)
  show "let c' = lru_Set now c k v in lru_ok c' \<and> length (order c') \<le> maxEntries c \<and>
        recency c' = take (maxEntries c) ((k, v, now) # filter (\<lambda>p. fst p \<noteq> k) (recency c))"
  proof -
    have "length (order (lru_Set now c k v)) = length (recency (lru_Set now c k v))" by (simp add: recency_def)
    then show ?thesis using setLocked_refines [OF assms, of now k v] by (simp add: lru_Set_def Let_def)
  qed
  show "LastGoodWithin now c k maxAge =
      (case map_of (recency c) k of Some (v, t) \<Rightarrow> if time_sub now t \<le> maxAge then Some v else None | None \<Rightarrow> None)"
    using map_of_recency [OF assms, of k] by (auto simp: LastGoodWithin_def split: option.splits)
qed (use lru_Get_refines [OF assms, of now k] SetIfAbsent_refines [OF assms, of now k v] DeleteIf_refines [OF assms, of k match] in
      \<open>simp_all split: prod.splits\<close>)

theorem lru_refines_recency_witness:
  "let c = lru_Set 7 (lru_Set 5 \<lparr> maxEntries = 2, ttl = 10, order = [''a'', ''b''], entries = [(''b'', (1::nat, 0)), (''a'', (2, 3))] \<rparr>
             ''c'' 3) ''a'' 4
   in recency c = [(''a'', 4, 7), (''c'', 3, 5)]"
proof -
  let ?c = "\<lparr> maxEntries = 2, ttl = 10, order = [''a'', ''b''], entries = [(''b'', (1::nat, 0)), (''a'', (2, 3))] \<rparr> :: (string, nat) lru"
  have ok: "lru_ok ?c" by (auto simp: lru_ok_def wf_map_def)
  note one = lru_refines_recency [OF ok, THEN conjunct1, of 5 "''c''" 3, unfolded Let_def]
  then have "lru_ok (lru_Set 5 ?c ''c'' 3)" "recency (lru_Set 5 ?c ''c'' 3) = [(''c'', 3, 5), (''a'', 2, 3)]"
    by (auto simp: recency_def)
  with lru_refines_recency [of "lru_Set 5 ?c ''c'' 3", THEN conjunct1, of 7 "''a''" 4, unfolded Let_def]
  show ?thesis by (simp add: Let_def lru_Set_def setLocked_def)
qed

section \<open>The interface\<close>

text \<open>What a reader over an expiring cache relies on: reads change nothing but recency and give exactly
  the fresh entries, a store is seen, and another key's entry is at most lost to it.\<close>

locale expiring_cache =
  fixes get :: "time \<Rightarrow> 'c \<Rightarrow> 'k \<Rightarrow> 'v option \<times> 'c"
    and put :: "time \<Rightarrow> 'c \<Rightarrow> 'k \<Rightarrow> 'v \<Rightarrow> 'c"
    and ok :: "'c \<Rightarrow> bool"
    and holds :: "'c \<Rightarrow> 'k \<Rightarrow> ('v \<times> time) option"
    and life :: "'c \<Rightarrow> duration"
  assumes get_keeps: "ok c \<Longrightarrow> get now c k = (r, c') \<Longrightarrow> ok c' \<and> holds c' = holds c \<and> life c' = life c"
    and get_fresh: "ok c \<Longrightarrow> get now c k = (Some v, c') \<Longrightarrow>
      \<exists>t. holds c k = Some (v, t) \<and> time_sub now t \<le> life c"
    and get_hit: "ok c \<Longrightarrow> holds c k = Some (v, t) \<Longrightarrow> time_sub now t \<le> life c \<Longrightarrow> fst (get now c k) = Some v"
    and put_keeps: "ok c \<Longrightarrow> ok (put now c k v) \<and> life (put now c k v) = life c"
    and put_seen: "ok c \<Longrightarrow> holds (put now c k v) k = Some (v, now)"
    and put_others: "ok c \<Longrightarrow> k' \<noteq> k \<Longrightarrow> holds (put now c k v) k' = holds c k' \<or> holds (put now c k v) k' = None"
begin

lemma put_then_get: "ok c \<Longrightarrow> 0 \<le> life c \<Longrightarrow> fst (get now (put now c k v) k) = Some v"
  using get_hit [of "put now c k v" k v now now] put_keeps [of c now k v] put_seen [of c now k v]
  by (simp add: time_sub_def sat64_def)

lemma put_sources:
  assumes "ok c" "holds (put now c k v) k' = Some (v', t)"
  shows "k' = k \<and> v' = v \<or> holds c k' = Some (v', t)"
  using assms put_seen [OF assms(1), of now k v] put_others [OF assms(1), of k' k now v] by (cases "k' = k") auto

end

lemma entries_setLocked:
  assumes "lru_ok c"
  shows "map_of (entries (setLocked now c k v)) k = Some (v, now)"
    and "k' \<noteq> k \<Longrightarrow> map_of (entries (setLocked now c k v)) k' = map_of (entries c) k' \<or>
         map_of (entries (setLocked now c k v)) k' = None"
proof -
  have "map_of (recency (setLocked now c k v)) k = Some (v, now)"
    using setLocked_refines(2) [OF assms] assms by (cases "maxEntries c") (auto simp: lru_ok_def)
  then show "map_of (entries (setLocked now c k v)) k = Some (v, now)"
    by (simp add: map_of_recency setLocked_refines(1) [OF assms])
qed (auto simp: setLocked_def Let_def)

lemma lru_Get_entries: "entries (snd (lru_Get now c k)) = entries c" "ttl (snd (lru_Get now c k)) = ttl c"
  by (auto simp: lru_Get_def split: option.splits)

lemma ttl_setLocked: "ttl (setLocked now c k v) = ttl c"
  by (simp add: setLocked_def Let_def)

interpretation lru: expiring_cache lru_Get lru_Set lru_ok "\<lambda>c. map_of (entries c)" ttl
proof
  fix c :: "('a, 'b) lru" and now k r c'
  assume a: "lru_ok c" "lru_Get now c k = (r, c')"
  show "lru_ok c' \<and> map_of (entries c') = map_of (entries c) \<and> ttl c' = ttl c"
    using lru_ok_Get [OF a(1), of now k] lru_Get_entries [of now c k] a(2) by simp
next
  fix c :: "('a, 'b) lru" and now k v c'
  assume "lru_Get now c k = (Some v, c')"
  then show "\<exists>t. map_of (entries c) k = Some (v, t) \<and> time_sub now t \<le> ttl c"
    by (auto simp: lru_Get_def split: option.splits if_splits)
next
  fix c :: "('a, 'b) lru" and k v t now
  assume "map_of (entries c) k = Some (v, t)" "time_sub now t \<le> ttl c"
  then show "fst (lru_Get now c k) = Some v" by (simp add: lru_Get_def)
next
  fix c :: "('a, 'b) lru" and now and k :: 'a and v :: 'b
  assume "lru_ok c"
  then show "lru_ok (lru_Set now c k v) \<and> ttl (lru_Set now c k v) = ttl c"
    using setLocked_refines(1) by (simp add: lru_Set_def ttl_setLocked)
next
  fix c :: "('a, 'b) lru" and now and k :: 'a and v :: 'b
  assume "lru_ok c"
  then show "map_of (entries (lru_Set now c k v)) k = Some (v, now)"
    using entries_setLocked(1) by (simp add: lru_Set_def)
next
  fix c :: "('a, 'b) lru" and k' k :: 'a and now and v :: 'b
  assume "lru_ok c" "k' \<noteq> k"
  then show "map_of (entries (lru_Set now c k v)) k' = map_of (entries c) k' \<or>
      map_of (entries (lru_Set now c k v)) k' = None"
    using entries_setLocked(2) by (simp add: lru_Set_def)
qed

end
