(* ===== verification/ReadThrough.thy ===== *)
theory ReadThrough
  imports Lru
begin

text \<open>
  The read-through over the LRU (\<open>internal/cache/readthrough.go\<close>): at most one fetch of a key at a time,
  shared by every caller that misses meanwhile. Callers and fetches interleave, so the model is a step
  relation: each step is what one goroutine does while it holds a lock, or one communication. The
  cache's \<open>Get\<close> and \<open>Set\<close> are arguments of the operations, so the invariant is proved once for every
  cache that keeps the laws of \<open>expiring_cache\<close>; the properties are about the LRU.

  A flight goes through the phases of \<open>lead\<close>: its fetch runs, it has a result, the result is cached
  (an error is not stored, but the phase is passed), it is retired from the map, its channel is closed.
  A panic of the fetch is the result \<open>Inl (Panicked e)\<close> that \<open>fetchRecovered\<close> makes of it.
\<close>

datatype ('e, 'p) fetch_error = FetchFailed 'e | Panicked 'p

type_synonym ('e, 'p, 'v) fetch_result = "('e, 'p) fetch_error + 'v"

datatype ('e, 'p, 'v) phase =
    Fetching
  | Fetched "('e, 'p, 'v) fetch_result"
  | Cached "('e, 'p, 'v) fetch_result"
  | Retired "('e, 'p, 'v) fetch_result"
  | Closed "('e, 'p, 'v) fetch_result"

record ('k, 'e, 'p, 'v) flight =
  fl_key :: 'k
  fl_phase :: "('e, 'p, 'v) phase"

text \<open>What a caller of \<open>Get\<close> has come to: it missed, it waits on a flight, it returned.\<close>

datatype ('k, 'e, 'p, 'v) caller =
    Missed 'k
  | Waiting 'k nat
  | Returned 'k "('e, 'p, 'v) fetch_result"
  | GaveUp 'k

text \<open>\<open>rt_flights\<close> maps a key to the index of its flight in \<open>rt_all\<close>, which keeps every flight ever
  started; \<open>rt_callers\<close> keeps every caller.\<close>

record ('c, 'k, 'e, 'p, 'v) read_through =
  rt_entries :: 'c
  rt_flights :: "('k, nat) gomap"
  rt_all :: "('k, 'e, 'p, 'v) flight list"
  rt_callers :: "('k, 'e, 'p, 'v) caller list"

definition NewReadThrough :: "'c \<Rightarrow> ('c, 'k, 'e, 'p, 'v) read_through" where
  "NewReadThrough c = \<lparr> rt_entries = c, rt_flights = [], rt_all = [], rt_callers = [] \<rparr>"

text \<open>The first lines of \<open>Get\<close>: a hit returns, a miss goes on to \<open>join\<close>.\<close>

definition rt_Get ::
  "(time \<Rightarrow> 'c \<Rightarrow> 'k \<Rightarrow> 'v option \<times> 'c) \<Rightarrow> time \<Rightarrow> 'k \<Rightarrow>
   ('c, 'k, 'e, 'p, 'v) read_through \<Rightarrow> ('c, 'k, 'e, 'p, 'v) read_through" where
  "rt_Get get now k s =
     (case get now (rt_entries s) k of
        (Some v, c) \<Rightarrow> s\<lparr>rt_entries := c, rt_callers := rt_callers s @ [Returned k (Inr v)]\<rparr>
      | (None, c) \<Rightarrow> s\<lparr>rt_entries := c, rt_callers := rt_callers s @ [Missed k]\<rparr>)"

text \<open>\<open>join\<close> by caller \<open>i\<close>: the flight running for its key, or a new one.\<close>

definition join :: "nat \<Rightarrow> 'k \<Rightarrow> ('c, 'k, 'e, 'p, 'v) read_through \<Rightarrow> ('c, 'k, 'e, 'p, 'v) read_through" where
  "join i k s =
     (case map_of (rt_flights s) k of
        Some f \<Rightarrow> s\<lparr>rt_callers := (rt_callers s)[i := Waiting k f]\<rparr>
      | None \<Rightarrow>
          let f = length (rt_all s)
          in s\<lparr>rt_all := rt_all s @ [\<lparr> fl_key = k, fl_phase = Fetching \<rparr>],
               rt_flights := AList.update k f (rt_flights s),
               rt_callers := (rt_callers s)[i := Waiting k f]\<rparr>)"

definition set_phase :: "nat \<Rightarrow> ('e, 'p, 'v) phase \<Rightarrow> ('c, 'k, 'e, 'p, 'v) read_through \<Rightarrow> ('c, 'k, 'e, 'p, 'v) read_through" where
  "set_phase f p s = s\<lparr>rt_all := (rt_all s)[f := (rt_all s ! f)\<lparr>fl_phase := p\<rparr>]\<rparr>"

text \<open>The steps of \<open>lead\<close>: caching what was fetched, and retiring the flight.\<close>

definition lead_cache ::
  "(time \<Rightarrow> 'c \<Rightarrow> 'k \<Rightarrow> 'v \<Rightarrow> 'c) \<Rightarrow> time \<Rightarrow> nat \<Rightarrow> ('e, 'p, 'v) fetch_result \<Rightarrow>
   ('c, 'k, 'e, 'p, 'v) read_through \<Rightarrow> ('c, 'k, 'e, 'p, 'v) read_through" where
  "lead_cache put now f r s =
     (let s' = set_phase f (Cached r) s
      in case r of
           Inr v \<Rightarrow> s'\<lparr>rt_entries := put now (rt_entries s) (fl_key (rt_all s ! f)) v\<rparr>
         | Inl _ \<Rightarrow> s')"

definition lead_retire ::
  "nat \<Rightarrow> ('e, 'p, 'v) fetch_result \<Rightarrow> ('c, 'k, 'e, 'p, 'v) read_through \<Rightarrow> ('c, 'k, 'e, 'p, 'v) read_through" where
  "lead_retire f r s =
     (set_phase f (Retired r) s)\<lparr>rt_flights := AList.delete (fl_key (rt_all s ! f)) (rt_flights s)\<rparr>"

definition caller_return ::
  "nat \<Rightarrow> ('k, 'e, 'p, 'v) caller \<Rightarrow> ('c, 'k, 'e, 'p, 'v) read_through \<Rightarrow> ('c, 'k, 'e, 'p, 'v) read_through" where
  "caller_return i out s = s\<lparr>rt_callers := (rt_callers s)[i := out]\<rparr>"

inductive rt_step ::
  "(time \<Rightarrow> 'c \<Rightarrow> 'k \<Rightarrow> 'v option \<times> 'c) \<Rightarrow> (time \<Rightarrow> 'c \<Rightarrow> 'k \<Rightarrow> 'v \<Rightarrow> 'c) \<Rightarrow>
   ('c, 'k, 'e, 'p, 'v) read_through \<Rightarrow> ('c, 'k, 'e, 'p, 'v) read_through \<Rightarrow> bool"
  for get and put where
  step_get: "rt_step get put s (rt_Get get now k s)"
| step_join: "i < length (rt_callers s) \<Longrightarrow> rt_callers s ! i = Missed k \<Longrightarrow> rt_step get put s (join i k s)"
| step_fetched: "f < length (rt_all s) \<Longrightarrow> fl_phase (rt_all s ! f) = Fetching \<Longrightarrow>
    rt_step get put s (set_phase f (Fetched r) s)"
| step_cache: "f < length (rt_all s) \<Longrightarrow> fl_phase (rt_all s ! f) = Fetched r \<Longrightarrow>
    rt_step get put s (lead_cache put now f r s)"
| step_retire: "f < length (rt_all s) \<Longrightarrow> fl_phase (rt_all s ! f) = Cached r \<Longrightarrow>
    rt_step get put s (lead_retire f r s)"
| step_close: "f < length (rt_all s) \<Longrightarrow> fl_phase (rt_all s ! f) = Retired r \<Longrightarrow>
    rt_step get put s (set_phase f (Closed r) s)"
| step_deliver: "i < length (rt_callers s) \<Longrightarrow> rt_callers s ! i = Waiting k f \<Longrightarrow> f < length (rt_all s) \<Longrightarrow>
    fl_phase (rt_all s ! f) = Closed r \<Longrightarrow> rt_step get put s (caller_return i (Returned k r) s)"
| step_give_up: "i < length (rt_callers s) \<Longrightarrow> rt_callers s ! i = Waiting k f \<Longrightarrow>
    rt_step get put s (caller_return i (GaveUp k) s)"

inductive rt_reachable ::
  "(time \<Rightarrow> 'c \<Rightarrow> 'k \<Rightarrow> 'v option \<times> 'c) \<Rightarrow> (time \<Rightarrow> 'c \<Rightarrow> 'k \<Rightarrow> 'v \<Rightarrow> 'c) \<Rightarrow> 'c \<Rightarrow>
   ('c, 'k, 'e, 'p, 'v) read_through \<Rightarrow> bool"
  for get and put and c where
  start: "rt_reachable get put c (NewReadThrough c)"
| step: "rt_reachable get put c s \<Longrightarrow> rt_step get put s s' \<Longrightarrow> rt_reachable get put c s'"

section \<open>The invariant\<close>

fun result_of :: "('e, 'p, 'v) phase \<Rightarrow> ('e, 'p, 'v) fetch_result option" where
  "result_of Fetching = None"
| "result_of (Fetched r) = Some r"
| "result_of (Cached r) = Some r"
| "result_of (Retired r) = Some r"
| "result_of (Closed r) = Some r"

fun airborne :: "('e, 'p, 'v) phase \<Rightarrow> bool" where
  "airborne Fetching = True"
| "airborne (Fetched r) = True"
| "airborne (Cached r) = True"
| "airborne (Retired r) = False"
| "airborne (Closed r) = False"

text \<open>Some fetch of \<open>k\<close> gave \<open>r\<close>.\<close>

definition fetch_gave :: "('c, 'k, 'e, 'p, 'v) read_through \<Rightarrow> 'k \<Rightarrow> ('e, 'p, 'v) fetch_result \<Rightarrow> bool" where
  "fetch_gave s k r \<longleftrightarrow> (\<exists>f < length (rt_all s). fl_key (rt_all s ! f) = k \<and> result_of (fl_phase (rt_all s ! f)) = Some r)"

definition flights_ok :: "('c, 'k, 'e, 'p, 'v) read_through \<Rightarrow> bool" where
  "flights_ok s \<longleftrightarrow> (\<forall>k f. map_of (rt_flights s) k = Some f \<longleftrightarrow>
     f < length (rt_all s) \<and> fl_key (rt_all s ! f) = k \<and> airborne (fl_phase (rt_all s ! f)))"

fun caller_ok :: "('c, 'k, 'e, 'p, 'v) read_through \<Rightarrow> ('k, 'e, 'p, 'v) caller \<Rightarrow> bool" where
  "caller_ok s (Missed k) = True"
| "caller_ok s (Waiting k f) = (f < length (rt_all s) \<and> fl_key (rt_all s ! f) = k)"
| "caller_ok s (Returned k r) = fetch_gave s k r"
| "caller_ok s (GaveUp k) = True"

text \<open>What a step keeps of the flights: they are only added to, keep their keys, and keep a result.\<close>

definition extends :: "('c, 'k, 'e, 'p, 'v) read_through \<Rightarrow> ('c, 'k, 'e, 'p, 'v) read_through \<Rightarrow> bool" where
  "extends s s' \<longleftrightarrow> length (rt_all s) \<le> length (rt_all s') \<and>
     (\<forall>f < length (rt_all s). fl_key (rt_all s' ! f) = fl_key (rt_all s ! f) \<and>
        (\<forall>r. result_of (fl_phase (rt_all s ! f)) = Some r \<longrightarrow> result_of (fl_phase (rt_all s' ! f)) = Some r))"

lemma extends_gave: "extends s s' \<Longrightarrow> fetch_gave s k r \<Longrightarrow> fetch_gave s' k r"
  unfolding extends_def fetch_gave_def by (meson order_less_le_trans)

lemma extends_caller: "extends s s' \<Longrightarrow> caller_ok s x \<Longrightarrow> caller_ok s' x"
  using extends_gave [of s s'] by (cases x) (simp_all add: extends_def)

lemma extends_same: "rt_all s' = rt_all s \<Longrightarrow> extends s s'"
  by (simp add: extends_def)

lemma extends_phase:
  assumes "f < length (rt_all s)" "rt_all s' = (rt_all s)[f := (rt_all s ! f)\<lparr>fl_phase := p\<rparr>]"
    and "\<And>r. result_of (fl_phase (rt_all s ! f)) = Some r \<Longrightarrow> result_of p = Some r"
  shows "extends s s'"
  using assms by (auto simp: extends_def nth_list_update)

lemma flights_phase:
  assumes "flights_ok s" "f < length (rt_all s)" "rt_all s' = (rt_all s)[f := (rt_all s ! f)\<lparr>fl_phase := p\<rparr>]"
    and "rt_flights s' = rt_flights s" "airborne p \<longleftrightarrow> airborne (fl_phase (rt_all s ! f))"
  shows "flights_ok s'"
  using assms by (auto simp: flights_ok_def nth_list_update)

lemma flights_retire:
  assumes "flights_ok s" "f < length (rt_all s)" "rt_all s' = (rt_all s)[f := (rt_all s ! f)\<lparr>fl_phase := p\<rparr>]"
    and "rt_flights s' = AList.delete (fl_key (rt_all s ! f)) (rt_flights s)"
    and "airborne (fl_phase (rt_all s ! f))" "\<not> airborne p"
  shows "flights_ok s'"
proof -
  have own: "map_of (rt_flights s) (fl_key (rt_all s ! f)) = Some f"
    using assms(1,2,5) unfolding flights_ok_def by blast
  have uniq: "g = f" if "g < length (rt_all s)" "fl_key (rt_all s ! g) = fl_key (rt_all s ! f)" "airborne (fl_phase (rt_all s ! g))" for g
    using assms(1) own that unfolding flights_ok_def by (metis option.inject)
  have "map_of (rt_flights s') k = Some g \<longleftrightarrow>
      g < length (rt_all s') \<and> fl_key (rt_all s' ! g) = k \<and> airborne (fl_phase (rt_all s' ! g))" for k g
  proof (cases "g = f")
    case True
    then show ?thesis
      using assms own by (auto simp: flights_ok_def nth_list_update)
  next
    case False
    then show ?thesis
      using assms uniq [of g] by (auto simp: flights_ok_def nth_list_update)
  qed
  then show ?thesis by (simp add: flights_ok_def)
qed

lemma flights_join:
  assumes "flights_ok s"
  shows "flights_ok (join i k s)"
proof (cases "map_of (rt_flights s) k")
  case (Some f)
  then have "rt_flights (join i k s) = rt_flights s" "rt_all (join i k s) = rt_all s" by (simp_all add: join_def)
  then show ?thesis using assms by (simp add: flights_ok_def)
next
  case None
  have "g < length (rt_all s) \<Longrightarrow> fl_key (rt_all s ! g) = k \<Longrightarrow> \<not> airborne (fl_phase (rt_all s ! g))" for g
    using assms None unfolding flights_ok_def by (metis option.distinct(1))
  moreover have "rt_flights (join i k s) = AList.update k (length (rt_all s)) (rt_flights s)"
    "rt_all (join i k s) = rt_all s @ [\<lparr> fl_key = k, fl_phase = Fetching \<rparr>]"
    using None by (simp_all add: join_def Let_def)
  ultimately show ?thesis using assms
    by (auto simp: flights_ok_def nth_append less_Suc_eq)
qed

lemma extends_join: "extends s (join i k s)"
  by (auto simp: join_def Let_def extends_def nth_append split: option.splits)

context expiring_cache
begin

definition rt_inv :: "('c, 'k, 'e, 'p, 'v) read_through \<Rightarrow> bool" where
  "rt_inv s \<longleftrightarrow> flights_ok s \<and> (\<forall>x \<in> set (rt_callers s). caller_ok s x) \<and> ok (rt_entries s) \<and>
     (\<forall>k v t. holds (rt_entries s) k = Some (v, t) \<longrightarrow> fetch_gave s k (Inr v))"

lemma rt_inv_start: "ok c \<Longrightarrow> holds c = (\<lambda>_. None) \<Longrightarrow> rt_inv (NewReadThrough c)"
  by (simp add: rt_inv_def NewReadThrough_def flights_ok_def)

text \<open>A step that leaves the cache as it was.\<close>

lemma rt_inv_step:
  assumes "rt_inv s" "extends s s'" "flights_ok s'" "rt_entries s' = rt_entries s"
    and "set (rt_callers s') \<subseteq> insert x (set (rt_callers s))" "caller_ok s' x"
  shows "rt_inv s'"
  using assms extends_gave [OF assms(2)] extends_caller [OF assms(2)] by (fastforce simp: rt_inv_def)

lemma rt_inv_quiet:
  assumes "rt_inv s" "extends s s'" "flights_ok s'" "rt_entries s' = rt_entries s" "rt_callers s' = rt_callers s"
  shows "rt_inv s'"
  using assms(1,3-5) extends_gave [OF assms(2)] extends_caller [OF assms(2)] unfolding rt_inv_def by metis

lemma rt_inv_get: "rt_inv s \<Longrightarrow> rt_inv (rt_Get get now k s)"
proof -
  assume inv: "rt_inv s"
  obtain r c where g: "get now (rt_entries s) k = (r, c)" by fastforce
  have kept: "ok c" "holds c = holds (rt_entries s)"
    using get_keeps [OF _ g] inv by (auto simp: rt_inv_def)
  let ?s' = "rt_Get get now k s"
  have ext: "extends s ?s'" and all: "rt_all ?s' = rt_all s" "rt_flights ?s' = rt_flights s" "rt_entries ?s' = c"
    using g by (auto simp: rt_Get_def extends_same split: option.splits)
  have "caller_ok ?s' x" if "x \<in> set (rt_callers ?s')" for x
  proof (cases "x \<in> set (rt_callers s)")
    case True
    then show ?thesis using inv extends_caller [OF ext] by (simp add: rt_inv_def)
  next
    case False
    then show ?thesis
      using that g get_fresh [of "rt_entries s" now k _ c] inv extends_gave [OF ext]
      by (auto simp: rt_Get_def rt_inv_def split: option.splits)
  qed
  then show ?thesis
    using inv kept all extends_gave [OF ext] by (simp add: rt_inv_def flights_ok_def)
qed

lemma rt_inv_cache:
  assumes "rt_inv s" "f < length (rt_all s)" "fl_phase (rt_all s ! f) = Fetched r"
  shows "rt_inv (lead_cache put now f r s)"
proof -
  let ?s' = "lead_cache put now f r s" and ?k = "fl_key (rt_all s ! f)"
  have sh: "rt_all ?s' = (rt_all s)[f := (rt_all s ! f)\<lparr>fl_phase := Cached r\<rparr>]" "rt_flights ?s' = rt_flights s"
    "rt_callers ?s' = rt_callers s"
    by (auto simp: lead_cache_def set_phase_def Let_def split: sum.splits)
  have ext: "extends s ?s'" using assms(3) by (intro extends_phase [OF assms(2) sh(1)]) simp
  have fl: "flights_ok ?s'"
    by (rule flights_phase [OF _ assms(2) sh(1,2)]) (use assms(1) in \<open>simp_all add: rt_inv_def assms(3)\<close>)
  have gave: "fetch_gave s ?k r" using assms(2,3) unfolding fetch_gave_def by (intro exI [of _ f]) simp
  have "ok (rt_entries ?s') \<and> (\<forall>k v t. holds (rt_entries ?s') k = Some (v, t) \<longrightarrow> fetch_gave s k (Inr v))"
  proof (cases r)
    case (Inl e)
    then show ?thesis using assms(1) by (simp add: lead_cache_def set_phase_def rt_inv_def)
  next
    case (Inr v)
    then have "rt_entries ?s' = put now (rt_entries s) ?k v" by (simp add: lead_cache_def set_phase_def)
    then show ?thesis
      using assms(1) gave Inr put_keeps put_sources by (fastforce simp: rt_inv_def)
  qed
  then show ?thesis
    using assms(1) fl sh(3) extends_gave [OF ext] extends_caller [OF ext] by (auto simp: rt_inv_def)
qed

lemma rt_inv_phase:
  assumes "rt_inv s" "f < length (rt_all s)" "result_of (fl_phase (rt_all s ! f)) = None \<or> result_of (fl_phase (rt_all s ! f)) = result_of p"
    and "airborne p \<longleftrightarrow> airborne (fl_phase (rt_all s ! f))"
  shows "rt_inv (set_phase f p s)"
proof (rule rt_inv_quiet [OF assms(1)])
  show "extends s (set_phase f p s)"
    using assms(3) by (intro extends_phase [OF assms(2), where p = p]) (auto simp: set_phase_def)
  show "flights_ok (set_phase f p s)"
    by (rule flights_phase [OF _ assms(2), where p = p])
       (use assms(1,4) in \<open>simp_all add: set_phase_def rt_inv_def\<close>)
qed (simp_all add: set_phase_def)

lemma rt_inv_retire:
  assumes "rt_inv s" "f < length (rt_all s)" "fl_phase (rt_all s ! f) = Cached r"
  shows "rt_inv (lead_retire f r s)"
proof (rule rt_inv_quiet [OF assms(1)])
  show "extends s (lead_retire f r s)"
    using assms(3) by (intro extends_phase [OF assms(2), where p = "Retired r"]) (simp_all add: set_phase_def lead_retire_def)
  show "flights_ok (lead_retire f r s)"
    by (rule flights_retire [OF _ assms(2), where p = "Retired r"])
       (use assms(1,3) in \<open>simp_all add: set_phase_def lead_retire_def rt_inv_def\<close>)
qed (simp_all add: set_phase_def lead_retire_def)

lemma rt_inv_return:
  assumes "rt_inv s" "caller_ok s x"
  shows "rt_inv (caller_return i x s)"
proof (rule rt_inv_step [OF assms(1)])
  show ext: "extends s (caller_return i x s)" by (simp add: extends_same caller_return_def)
  show "flights_ok (caller_return i x s)" using assms(1) by (simp add: rt_inv_def flights_ok_def caller_return_def)
  show "caller_ok (caller_return i x s) x" using extends_caller [OF ext assms(2)] .
qed (auto simp: caller_return_def dest: subsetD [OF set_update_subset_insert])

lemma rt_inv_join:
  assumes "rt_inv s" "i < length (rt_callers s)"
  shows "rt_inv (join i k s)"
proof (rule rt_inv_step [OF assms(1) extends_join])
  show fl: "flights_ok (join i k s)" using assms(1) flights_join [of s] by (simp add: rt_inv_def)
  let ?f = "the (map_of (rt_flights (join i k s)) k)"
  have f: "map_of (rt_flights (join i k s)) k = Some ?f"
    and callers: "rt_callers (join i k s) = (rt_callers s)[i := Waiting k ?f]"
    by (auto simp: join_def Let_def split: option.splits)
  show "caller_ok (join i k s) (Waiting k ?f)" using fl f unfolding flights_ok_def by simp
  show "set (rt_callers (join i k s)) \<subseteq> insert (Waiting k ?f) (set (rt_callers s))"
    unfolding callers by (rule set_update_subset_insert)
  show "rt_entries (join i k s) = rt_entries s" by (simp add: join_def Let_def split: option.splits)
qed

lemma rt_inv_reachable:
  assumes "rt_reachable get put c s" "ok c" "holds c = (\<lambda>_. None)"
  shows "rt_inv s"
  using assms(1)
proof induction
  case start
  then show ?case using rt_inv_start assms by blast
next
  case (step s s')
  note inv = step.IH
  from step.hyps(2) show ?case
  proof cases
    case (step_get now k)
    then show ?thesis using rt_inv_get [OF inv] by simp
  next
    case (step_join i k)
    then show ?thesis using rt_inv_join [OF inv] by simp
  next
    case (step_fetched f r)
    then show ?thesis using rt_inv_phase [OF inv, of f "Fetched r"] by simp
  next
    case (step_cache f r now)
    then show ?thesis using rt_inv_cache [OF inv] by simp
  next
    case (step_retire f r)
    then show ?thesis using rt_inv_retire [OF inv] by simp
  next
    case (step_close f r)
    then show ?thesis using rt_inv_phase [OF inv, of f "Closed r"] by simp
  next
    case (step_deliver i k f r)
    have "rt_callers s ! i \<in> set (rt_callers s)" using step_deliver nth_mem by blast
    then have "caller_ok s (Waiting k f)" using inv step_deliver unfolding rt_inv_def by metis
    then have "fetch_gave s k r" using step_deliver unfolding fetch_gave_def by (intro exI [of _ f]) simp
    then show ?thesis using rt_inv_return [OF inv, of "Returned k r"] step_deliver by simp
  next
    case (step_give_up i k f)
    then show ?thesis using rt_inv_return [OF inv, of "GaveUp k"] by simp
  qed
qed

end

text \<open>C11. In every interleaving of callers and fetches over an initially empty LRU: at most one fetch of
  a key is in flight at a time; a caller waits only on a flight of its own key; every answer a caller
  gets, value or error, is one that some fetch of its key gave; and the LRU never holds anything but a
  value a fetch of that key gave without error, so an error or a panic is never cached.\<close>

theorem read_through_single_flight:
  assumes "rt_reachable lru_Get lru_Set c s" "NewLRU n d = Some c"
  shows "(\<forall>f g. f < length (rt_all s) \<and> g < length (rt_all s) \<and> fl_key (rt_all s ! f) = fl_key (rt_all s ! g) \<and>
            fl_phase (rt_all s ! f) = Fetching \<and> fl_phase (rt_all s ! g) = Fetching \<longrightarrow> f = g) \<and>
    (\<forall>k f. Waiting k f \<in> set (rt_callers s) \<longrightarrow> fl_key (rt_all s ! f) = k) \<and>
    (\<forall>k r. Returned k r \<in> set (rt_callers s) \<longrightarrow> fetch_gave s k r) \<and>
    (\<forall>k v t. map_of (entries (rt_entries s)) k = Some (v, t) \<longrightarrow> fetch_gave s k (Inr v)) \<and>
    length (order (rt_entries s)) \<le> maxEntries (rt_entries s)"
proof -
  have "map_of (entries c) = (\<lambda>_. None)" using assms(2) by (auto simp: NewLRU_def split: if_splits)
  then have inv: "lru.rt_inv s"
    using lru.rt_inv_reachable [OF assms(1) lru_ok_New [OF assms(2)]] by blast
  then have fl: "\<And>k f. map_of (rt_flights s) k = Some f \<longleftrightarrow>
      f < length (rt_all s) \<and> fl_key (rt_all s ! f) = k \<and> airborne (fl_phase (rt_all s ! f))"
    unfolding lru.rt_inv_def flights_ok_def by blast
  have "f = g" if "f < length (rt_all s)" "g < length (rt_all s)" "fl_key (rt_all s ! f) = fl_key (rt_all s ! g)"
    "fl_phase (rt_all s ! f) = Fetching" "fl_phase (rt_all s ! g) = Fetching" for f g
    using fl [of "fl_key (rt_all s ! f)" f] fl [of "fl_key (rt_all s ! f)" g] that by simp
  moreover have "fl_key (rt_all s ! f) = k" if "Waiting k f \<in> set (rt_callers s)" for k f
    using inv that unfolding lru.rt_inv_def by fastforce
  moreover have "fetch_gave s k r" if "Returned k r \<in> set (rt_callers s)" for k r
    using inv that unfolding lru.rt_inv_def by fastforce
  moreover have "fetch_gave s k (Inr v)" if "map_of (entries (rt_entries s)) k = Some (v, t)" for k v t
    using inv that unfolding lru.rt_inv_def by blast
  moreover have "length (order (rt_entries s)) \<le> maxEntries (rt_entries s)"
    using inv unfolding lru.rt_inv_def lru_ok_def by blast
  ultimately show ?thesis by blast
qed

lemma join_starts:
  "map_of (rt_flights s) k = None \<Longrightarrow>
     rt_callers (join i k s) = (rt_callers s)[i := Waiting k (length (rt_all s))] \<and>
     rt_flights (join i k s) = AList.update k (length (rt_all s)) (rt_flights s) \<and>
     rt_all (join i k s) = rt_all s @ [\<lparr> fl_key = k, fl_phase = Fetching \<rparr>]"
  by (simp add: join_def Let_def)

lemma join_shares:
  "map_of (rt_flights s) k = Some f \<Longrightarrow>
     rt_callers (join i k s) = (rt_callers s)[i := Waiting k f] \<and> rt_all (join i k s) = rt_all s"
  by (simp add: join_def)

text \<open>Two callers of one key: both miss, the second joins the flight of the first.\<close>

theorem read_through_single_flight_witness:
  "\<exists>(c :: (string, nat) lru) (s :: ((string, nat) lru, string, string, string, nat) read_through).
     NewLRU 2 10 = Some c \<and> rt_reachable lru_Get lru_Set c s \<and>
     rt_callers s = [Waiting ''a'' 0, Waiting ''a'' 0] \<and> length (rt_all s) = 1 \<and> fl_key (rt_all s ! 0) = ''a''"
proof -
  obtain c :: "(string, nat) lru" where c: "NewLRU 2 10 = Some c" "entries c = []" by (auto simp: NewLRU_def)
  obtain s0 :: "((string, nat) lru, string, string, string, nat) read_through"
    where s0: "s0 = NewReadThrough c" by blast
  obtain s2 where s2: "s2 = rt_Get lru_Get 0 ''a'' (rt_Get lru_Get 0 ''a'' s0)" by blast
  have f2: "rt_callers s2 = [Missed ''a'', Missed ''a'']" "rt_flights s2 = []" "rt_all s2 = []"
    using c(2) by (simp_all add: s2 s0 NewReadThrough_def rt_Get_def lru_Get_def)
  have r2: "rt_reachable lru_Get lru_Set c s2"
    unfolding s2 s0
    by (rule rt_reachable.step [OF rt_reachable.step [OF rt_reachable.start rt_step.step_get] rt_step.step_get])
  obtain s3 where s3: "s3 = join 0 ''a'' s2" by blast
  have f3: "rt_callers s3 = [Waiting ''a'' 0, Missed ''a'']" "map_of (rt_flights s3) ''a'' = Some 0"
    "rt_all s3 = [\<lparr> fl_key = ''a'', fl_phase = Fetching \<rparr>]"
    using join_starts [of s2 "''a''" 0] f2 by (simp_all add: s3)
  have r3: "rt_reachable lru_Get lru_Set c s3"
    unfolding s3 by (rule rt_reachable.step [OF r2], rule rt_step.step_join) (simp_all add: f2)
  obtain s4 where s4: "s4 = join 1 ''a'' s3" by blast
  have r4: "rt_reachable lru_Get lru_Set c s4"
    unfolding s4 by (rule rt_reachable.step [OF r3], rule rt_step.step_join) (simp_all add: f3)
  have f4: "rt_callers s4 = [Waiting ''a'' 0, Waiting ''a'' 0]" "length (rt_all s4) = 1"
    using join_shares [OF f3(2), of 1] f3 by (simp_all add: s4)
  have "Waiting ''a'' 0 \<in> set (rt_callers s4)" using f4(1) by simp
  with read_through_single_flight [OF r4 c(1), THEN conjunct2, THEN conjunct1]
  have "fl_key (rt_all s4 ! 0) = ''a''" by metis
  with r4 c(1) f4 show ?thesis by (intro exI conjI)
qed

end
