(* ===== verification/Breaker.thy ===== *)
theory Breaker
  imports Prelude
begin

text \<open>
  The circuit breaker in front of Prometheus (\<open>internal/prometheus/breaker.go\<close>). The clock is the
  argument \<open>now\<close>; an operation holds the lock throughout. A nil breaker is \<open>None\<close>. An opened breaker has
  a non-zero \<open>openUntil\<close>. The failure counter is a Go \<open>int\<close> and wraps. The calls made of a breaker, in
  the order its lock serialises them, are a list of \<open>breaker_call\<close>.
\<close>

record breaker =
  maxFailures :: int
  cooldown :: duration
  failures :: int
  openUntil :: time

definition newBreaker :: "int \<Rightarrow> duration \<Rightarrow> breaker" where
  "newBreaker m d = \<lparr> maxFailures = m, cooldown = d, failures = 0, openUntil = 0 \<rparr>"

definition disabled :: "breaker option \<Rightarrow> bool" where
  "disabled b = (case b of None \<Rightarrow> True | Some x \<Rightarrow> maxFailures x \<le> 0)"

text \<open>Whether the call may proceed, whether it consumed the probe, and the breaker after it.\<close>

definition allow :: "time \<Rightarrow> breaker option \<Rightarrow> (bool \<times> bool) \<times> breaker option" where
  "allow now b =
     (if disabled b then ((True, False), b)
      else let x = the b
           in if openUntil x = 0 then ((True, False), b)
              else if now < openUntil x then ((False, False), b)
              else ((True, True), Some (x\<lparr>openUntil := now + cooldown x\<rparr>)))"

definition isOpen :: "time \<Rightarrow> breaker option \<Rightarrow> bool" where
  "isOpen now b = (if disabled b then False else openUntil (the b) \<noteq> 0 \<and> now < openUntil (the b))"

definition success :: "breaker option \<Rightarrow> breaker option" where
  "success b = (if disabled b then b else Some ((the b)\<lparr>failures := 0, openUntil := 0\<rparr>))"

definition failure :: "time \<Rightarrow> breaker option \<Rightarrow> breaker option" where
  "failure now b =
     (if disabled b then b
      else let x = (the b)\<lparr>failures := wrap64 (failures (the b) + 1)\<rparr>
           in if failures x \<ge> maxFailures x then Some (x\<lparr>openUntil := now + cooldown x\<rparr>) else Some x)"

section \<open>Runs\<close>

datatype breaker_call = Allow time | Success | Failure time

fun breaker_step :: "breaker_call \<Rightarrow> breaker option \<Rightarrow> breaker option" where
  "breaker_step (Allow t) b = snd (allow t b)"
| "breaker_step Success b = success b"
| "breaker_step (Failure t) b = failure t b"

definition breaker_run :: "breaker_call list \<Rightarrow> breaker option \<Rightarrow> breaker option" where
  "breaker_run es b = fold breaker_step es b"

fun call_time :: "breaker_call \<Rightarrow> time option" where
  "call_time (Allow t) = Some t"
| "call_time Success = None"
| "call_time (Failure t) = Some t"

text \<open>No call was made before \<open>t\<close>.\<close>

definition not_before :: "time \<Rightarrow> breaker_call list \<Rightarrow> bool" where
  "not_before t es \<longleftrightarrow> list_all (\<lambda>e. case call_time e of None \<Rightarrow> True | Some u \<Rightarrow> t \<le> u) es"

text \<open>The failures since the last success.\<close>

fun streak_step :: "breaker_call \<Rightarrow> int \<Rightarrow> int" where
  "streak_step (Allow t) n = n"
| "streak_step Success n = 0"
| "streak_step (Failure t) n = n + 1"

definition streak :: "breaker_call list \<Rightarrow> int" where
  "streak es = fold streak_step es 0"

lemma streak_snoc: "streak (es @ [e]) = streak_step e (streak es)"
  by (simp add: streak_def)

lemma streak_bounds: "0 \<le> streak es \<and> streak es \<le> int (length es)"
proof (induction es rule: rev_induct)
  case (snoc e es)
  then show ?case by (cases e) (auto simp: streak_snoc)
qed (simp add: streak_def)

text \<open>The circuit is open exactly after \<open>maxFailures\<close> failures without a success in between: however
  calls, successes and failures interleave, the breaker of a run is open (in cooldown, or awaiting its
  probe) if and only if the failures since the last success number at least \<open>maxFailures\<close>.\<close>

theorem breaker_opens_exactly_on_streak:
  assumes "0 < m" "0 \<le> d" "not_before 1 es" "length es < 2 ^ 63 - 1"
  shows "\<exists>b. breaker_run es (Some (newBreaker m d)) = Some b \<and> maxFailures b = m \<and> cooldown b = d \<and>
    failures b = streak es \<and> (openUntil b \<noteq> 0 \<longleftrightarrow> m \<le> streak es)"
  using assms(3,4)
proof (induction es rule: rev_induct)
  case Nil
  then show ?case using assms(1) by (simp add: breaker_run_def newBreaker_def streak_def)
next
  case (snoc e es)
  then obtain b where b: "breaker_run es (Some (newBreaker m d)) = Some b" "maxFailures b = m" "cooldown b = d"
    "failures b = streak es" "openUntil b \<noteq> 0 \<longleftrightarrow> m \<le> streak es"
    by (auto simp: not_before_def)
  have en: "\<not> disabled (Some b)" using b(2) assms(1) by (simp add: disabled_def)
  have run: "breaker_run (es @ [e]) (Some (newBreaker m d)) = breaker_step e (Some b)"
    using b(1) by (simp add: breaker_run_def)
  have "in_int64 (streak es + 1)" using streak_bounds [of es] snoc.prems(2) by (simp add: in_int64_def)
  then show ?case
    using run b en assms(1,2) snoc.prems(1) streak_bounds [of es]
    by (cases e) (auto simp: allow_def success_def failure_def Let_def streak_snoc not_before_def wrap64_id)
qed

theorem breaker_opens_exactly_on_streak_witness:
  "\<exists>b. breaker_run [Failure 1, Success, Failure 2, Allow 3, Failure 4] (Some (newBreaker 2 10)) = Some b \<and> openUntil b \<noteq> 0"
  using breaker_opens_exactly_on_streak [of 2 10 "[Failure 1, Success, Failure 2, Allow 3, Failure 4]"]
  by (auto simp: not_before_def streak_def)

section \<open>Probes\<close>

lemma step_keeps_open:
  assumes "0 < maxFailures b" "0 \<le> cooldown b" "t + cooldown b \<le> openUntil b" "openUntil b \<noteq> 0" "0 < t" "e \<noteq> Success"
    and "case call_time e of None \<Rightarrow> True | Some u \<Rightarrow> t \<le> u"
  shows "\<exists>b'. breaker_step e (Some b) = Some b' \<and> maxFailures b' = maxFailures b \<and> cooldown b' = cooldown b \<and>
    t + cooldown b \<le> openUntil b' \<and> openUntil b' \<noteq> 0"
  using assms by (cases e) (auto simp: allow_def failure_def disabled_def Let_def)

lemma run_keeps_open:
  assumes "0 < maxFailures b" "0 \<le> cooldown b" "t + cooldown b \<le> openUntil b" "openUntil b \<noteq> 0" "0 < t"
    and "Success \<notin> set es" "not_before t es"
  shows "\<exists>b'. breaker_run es (Some b) = Some b' \<and> maxFailures b' = maxFailures b \<and>
    t + cooldown b \<le> openUntil b' \<and> openUntil b' \<noteq> 0"
  using assms
proof (induction es arbitrary: b)
  case Nil
  then show ?case by (simp add: breaker_run_def)
next
  case (Cons e es)
  obtain b' where b': "breaker_step e (Some b) = Some b'" "maxFailures b' = maxFailures b" "cooldown b' = cooldown b"
    "t + cooldown b \<le> openUntil b'" "openUntil b' \<noteq> 0"
    using step_keeps_open [of b t e] Cons.prems by (auto simp: not_before_def)
  from Cons.IH [of b'] b' Cons.prems show ?case by (auto simp: breaker_run_def not_before_def)
qed

text \<open>C12. One probe per cooldown, and the circuit heals itself: once a probe is handed out, no call is let
  through for a whole cooldown unless a success is reported, whatever failures and refused calls come in
  between and even if the probe's holder never reports at all; and a call made once \<open>openUntil\<close> has passed
  is always let through, so the circuit never stays open for want of a report.\<close>

theorem one_probe_per_cooldown:
  assumes "allow t (Some b) = ((True, True), b1)" "0 \<le> cooldown b" "0 < t"
    and "Success \<notin> set es" "not_before t es" "t \<le> t'"
  shows "(fst (fst (allow t' (breaker_run es b1))) \<longrightarrow> t + cooldown b \<le> t') \<and>
    (\<exists>b2. breaker_run es b1 = Some b2 \<and> (openUntil b2 \<le> t' \<longrightarrow> fst (allow t' (Some b2)) = (True, True)))"
proof -
  have en: "0 < maxFailures b" and b1: "b1 = Some (b\<lparr>openUntil := t + cooldown b\<rparr>)"
    using assms(1) by (auto simp: allow_def disabled_def Let_def split: if_splits)
  obtain b2 where b2: "breaker_run es b1 = Some b2" "maxFailures b2 = maxFailures b"
    "t + cooldown b \<le> openUntil b2" "openUntil b2 \<noteq> 0"
    using run_keeps_open [of "b\<lparr>openUntil := t + cooldown b\<rparr>" t es] assms(2-5) en by (auto simp: b1)
  then show ?thesis using en by (auto simp: allow_def disabled_def Let_def)
qed

theorem one_probe_per_cooldown_witness:
  "\<not> fst (fst (allow 14 (breaker_run [Failure 12, Allow 13]
      (snd (allow 11 (Some \<lparr> maxFailures = 1, cooldown = 10, failures = 1, openUntil = 11 \<rparr>))))))"
proof -
  let ?b = "\<lparr> maxFailures = 1, cooldown = 10, failures = 1, openUntil = 11 \<rparr>"
  have "allow 11 (Some ?b) = ((True, True), snd (allow 11 (Some ?b)))" by (simp add: allow_def disabled_def)
  from one_probe_per_cooldown [OF this, of "[Failure 12, Allow 13]" 14] show ?thesis
    by (auto simp: not_before_def)
qed

end
