(* ===== verification/OomCache.thy ===== *)
theory OomCache
  imports Api
begin

text \<open>
  The in-memory store of OOM kills (\<open>internal/oomwatch/cache.go\<close>), written by the watcher and read by the
  recommender: the entries by workload and container, the index by workload, and the marks of events
  already resolved. The clock is the argument \<open>now\<close>. Every operation holds the lock for one step, but
  \<open>ByWorkload\<close>, which reads under one lock and drops what it found stale under another: its two halves
  are two definitions. The size observer, a gauge, is left out, and so are \<open>Run\<close>'s ticker and
  \<open>runOnce\<close>, which only call \<open>sweep\<close>. The default limits are those of the file.
\<close>

record resolved_event_key =
  re_PodUID :: string
  re_Container :: string
  re_RestartCount :: int
  re_TerminatedAt :: time

record oom_cache =
  oc_ttl :: duration
  oc_max :: nat
  oc_entries :: "(oom_key, oom_record) gomap"
  byWorkload :: "(workload_identity, (string, unit) gomap) gomap"
  resolved :: "(resolved_event_key, time) gomap"

definition NewCacheWithLimit :: "duration \<Rightarrow> int \<Rightarrow> oom_cache" where
  "NewCacheWithLimit t n =
     \<lparr> oc_ttl = (if t \<le> 0 then 30 * minute else t), oc_max = (if n \<le> 0 then 5000 else nat n),
       oc_entries = [], byWorkload = [], resolved = [] \<rparr>"

definition NewCache :: "duration \<Rightarrow> oom_cache" where
  "NewCache t = NewCacheWithLimit t 5000"

definition addIndexLocked :: "oom_key \<Rightarrow> oom_cache \<Rightarrow> oom_cache" where
  "addIndexLocked key c =
     (let wk = k_Identity key; s = lookup_or [] (byWorkload c) wk
      in c\<lparr>byWorkload := AList.update wk (AList.update (k_Container key) () s) (byWorkload c)\<rparr>)"

definition removeIndexLocked :: "oom_key \<Rightarrow> oom_cache \<Rightarrow> oom_cache" where
  "removeIndexLocked key c =
     (let wk = k_Identity key
      in case map_of (byWorkload c) wk of
           None \<Rightarrow> c
         | Some s \<Rightarrow>
             let s' = AList.delete (k_Container key) s
             in if s' = [] then c\<lparr>byWorkload := AList.delete wk (byWorkload c)\<rparr>
                else c\<lparr>byWorkload := AList.update wk s' (byWorkload c)\<rparr>)"

definition deleteEntryLocked :: "oom_key \<Rightarrow> oom_cache \<Rightarrow> oom_cache" where
  "deleteEntryLocked key c = removeIndexLocked key (c\<lparr>oc_entries := AList.delete key (oc_entries c)\<rparr>)"

text \<open>The scan both evictions make: the first key whose instant no later one precedes.\<close>

fun oldest :: "('k \<times> time) list \<Rightarrow> ('k \<times> time) option \<Rightarrow> ('k \<times> time) option" where
  "oldest [] best = best"
| "oldest ((k, t) # es) best =
     oldest es (case best of None \<Rightarrow> Some (k, t) | Some (k', t') \<Rightarrow> if t < t' then Some (k, t) else Some (k', t'))"

definition evictOldestLocked :: "oom_cache \<Rightarrow> oom_cache" where
  "evictOldestLocked c =
     (case oldest (map (\<lambda>(k, e). (k, or_ObservedAt e)) (oc_entries c)) None of
        None \<Rightarrow> c | Some (k, _) \<Rightarrow> deleteEntryLocked k c)"

definition evictOldestResolvedLocked :: "oom_cache \<Rightarrow> oom_cache" where
  "evictOldestResolvedLocked c =
     (case oldest (resolved c) None of
        None \<Rightarrow> c | Some (k, _) \<Rightarrow> c\<lparr>resolved := AList.delete k (resolved c)\<rparr>)"

definition deleteIfStaleLocked :: "time \<Rightarrow> oom_key \<Rightarrow> oom_cache \<Rightarrow> oom_cache" where
  "deleteIfStaleLocked now key c =
     (case map_of (oc_entries c) key of
        None \<Rightarrow> c
      | Some e \<Rightarrow> if time_sub now (or_ObservedAt e) > oc_ttl c then deleteEntryLocked key c else c)"

definition laterOf :: "time \<Rightarrow> time \<Rightarrow> time" where
  "laterOf a b = (if b > a then b else a)"

definition newerThan :: "oom_record \<Rightarrow> oom_record \<Rightarrow> bool" where
  "newerThan a b =
     (if or_TerminatedAt a = or_TerminatedAt b then or_RestartCount a > or_RestartCount b
      else or_TerminatedAt a > or_TerminatedAt b)"

definition same_kill :: "oom_record \<Rightarrow> oom_record \<Rightarrow> bool" where
  "same_kill a b \<longleftrightarrow> or_RestartCount a = or_RestartCount b \<and> or_TerminatedAt a = or_TerminatedAt b"

definition merge_kill :: "oom_record \<Rightarrow> oom_record \<Rightarrow> oom_record" where
  "merge_kill rec existing =
     (if newerThan rec existing then rec else existing)
       \<lparr>or_OOMLimitBytes := max (or_OOMLimitBytes rec) (or_OOMLimitBytes existing),
        or_ObservedAt := laterOf (or_ObservedAt rec) (or_ObservedAt existing)\<rparr>"

definition oom_Record :: "oom_key \<Rightarrow> oom_record \<Rightarrow> oom_cache \<Rightarrow> bool \<times> oom_cache" where
  "oom_Record key rec c =
     (case map_of (oc_entries c) key of
        Some existing \<Rightarrow>
          if same_kill existing rec
          then (False, if or_OOMLimitBytes rec > or_OOMLimitBytes existing
                       then c\<lparr>oc_entries := AList.update key
                                (existing\<lparr>or_OOMLimitBytes := or_OOMLimitBytes rec\<rparr>) (oc_entries c)\<rparr>
                       else c)
          else (True, addIndexLocked key
                        (c\<lparr>oc_entries := AList.update key (merge_kill rec existing) (oc_entries c)\<rparr>))
      | None \<Rightarrow>
          let c' = (if length (oc_entries c) \<ge> oc_max c then evictOldestLocked c else c)
          in (True, addIndexLocked key (c'\<lparr>oc_entries := AList.update key rec (oc_entries c')\<rparr>)))"

definition event_key :: "string \<Rightarrow> string \<Rightarrow> int \<Rightarrow> time \<Rightarrow> resolved_event_key" where
  "event_key uid container count t =
     \<lparr> re_PodUID = uid, re_Container = container, re_RestartCount = count, re_TerminatedAt = t \<rparr>"

definition alreadyResolvedAt :: "time \<Rightarrow> string \<Rightarrow> string \<Rightarrow> int \<Rightarrow> time \<Rightarrow> oom_cache \<Rightarrow> bool" where
  "alreadyResolvedAt now uid container count t c =
     (case map_of (resolved c) (event_key uid container count t) of
        None \<Rightarrow> False | Some at' \<Rightarrow> time_sub now at' \<le> oc_ttl c)"

definition markResolvedAt :: "time \<Rightarrow> string \<Rightarrow> string \<Rightarrow> int \<Rightarrow> time \<Rightarrow> oom_cache \<Rightarrow> oom_cache" where
  "markResolvedAt now uid container count t c =
     (let key = event_key uid container count t;
          c' = (if map_of (resolved c) key = None \<and> length (resolved c) \<ge> oc_max c
                then evictOldestResolvedLocked c else c)
      in c'\<lparr>resolved := AList.update key now (resolved c')\<rparr>)"

text \<open>The read half of \<open>ByWorkload\<close>: the records, and the keys it found stale.\<close>

fun by_workload_read ::
  "time \<Rightarrow> oom_cache \<Rightarrow> workload_identity \<Rightarrow> string list \<Rightarrow> (string, oom_record) gomap \<times> oom_key list" where
  "by_workload_read now c i [] = ([], [])"
| "by_workload_read now c i (container # cs) =
     (let (out, stale) = by_workload_read now c i cs;
          key = \<lparr> k_Identity = i, k_Container = container \<rparr>
      in case map_of (oc_entries c) key of
           None \<Rightarrow> (out, stale)
         | Some e \<Rightarrow> if time_sub now (or_ObservedAt e) > oc_ttl c then (out, key # stale)
                     else ((container, e) # out, stale))"

definition drop_stale :: "time \<Rightarrow> oom_key list \<Rightarrow> oom_cache \<Rightarrow> oom_cache" where
  "drop_stale now keys c = fold (deleteIfStaleLocked now) keys c"

definition ByWorkload ::
  "time \<Rightarrow> workload_identity \<Rightarrow> oom_cache \<Rightarrow> (string, oom_record) gomap \<times> oom_cache" where
  "ByWorkload now i c =
     (let (out, stale) = by_workload_read now c i (gkeys (lookup_or [] (byWorkload c) i))
      in (out, drop_stale now stale c))"

definition oom_Size :: "oom_cache \<Rightarrow> nat" where
  "oom_Size c = length (oc_entries c)"

definition oom_sweep :: "time \<Rightarrow> oom_cache \<Rightarrow> oom_cache" where
  "oom_sweep now c =
     (let c' = drop_stale now (gkeys (oc_entries c)) c
      in c'\<lparr>resolved := filter (\<lambda>(k, at'). \<not> time_sub now at' > oc_ttl c') (resolved c')\<rparr>)"

section \<open>The invariant\<close>

text \<open>The index lists exactly the containers with an entry, and no map exceeds the limit.\<close>

definition indexed :: "oom_cache \<Rightarrow> workload_identity \<Rightarrow> string set" where
  "indexed c i = set (gkeys (lookup_or [] (byWorkload c) i))"

definition index_ok :: "oom_cache \<Rightarrow> bool" where
  "index_ok c \<longleftrightarrow>
     (\<forall>i n. n \<in> indexed c i \<longleftrightarrow> map_of (oc_entries c) \<lparr> k_Identity = i, k_Container = n \<rparr> \<noteq> None) \<and>
     (\<forall>i. wf_map (lookup_or [] (byWorkload c) i)) \<and> (\<forall>i. map_of (byWorkload c) i \<noteq> Some [])"

definition cache_ok :: "oom_cache \<Rightarrow> bool" where
  "cache_ok c \<longleftrightarrow> wf_map (oc_entries c) \<and> wf_map (resolved c) \<and> index_ok c \<and>
     length (oc_entries c) \<le> oc_max c \<and> length (resolved c) \<le> oc_max c \<and> 1 \<le> oc_max c \<and> 0 < oc_ttl c"

lemma cache_ok_New: "cache_ok (NewCacheWithLimit t n)"
  by (auto simp: cache_ok_def index_ok_def NewCacheWithLimit_def indexed_def lookup_or_def)

lemma oom_key_eq: "key = \<lparr> k_Identity = i, k_Container = n \<rparr> \<longleftrightarrow> k_Identity key = i \<and> k_Container key = n"
  by (cases key) auto

lemma add_other [simp]:
  "oc_entries (addIndexLocked key c) = oc_entries c" "resolved (addIndexLocked key c) = resolved c"
  "oc_max (addIndexLocked key c) = oc_max c" "oc_ttl (addIndexLocked key c) = oc_ttl c"
  by (simp_all add: addIndexLocked_def Let_def)

lemma remove_other [simp]:
  "oc_entries (removeIndexLocked key c) = oc_entries c" "resolved (removeIndexLocked key c) = resolved c"
  "oc_max (removeIndexLocked key c) = oc_max c" "oc_ttl (removeIndexLocked key c) = oc_ttl c"
  by (simp_all add: removeIndexLocked_def Let_def split: option.splits)

lemma indexed_add:
  "indexed (addIndexLocked key c) i =
     (if i = k_Identity key then insert (k_Container key) (indexed c i) else indexed c i)"
  by (simp add: indexed_def addIndexLocked_def Let_def lookup_or_def keys_update del: set_map)

lemma indexed_remove:
  "indexed (removeIndexLocked key c) i =
     (if i = k_Identity key then indexed c i - {k_Container key} else indexed c i)"
proof -
  have "set (gkeys (AList.delete (k_Container key) m)) = {} \<longleftrightarrow> AList.delete (k_Container key) m = []"
    for m :: "(string, unit) gomap" by simp
  then show ?thesis
    by (auto simp: indexed_def removeIndexLocked_def Let_def lookup_or_def keys_delete simp del: set_map split: option.splits)
qed

lemma wf_index_add: "wf_map (lookup_or [] (byWorkload c) i) \<Longrightarrow> wf_map (lookup_or [] (byWorkload c) (k_Identity key)) \<Longrightarrow>
    wf_map (lookup_or [] (byWorkload (addIndexLocked key c)) i)"
  by (simp add: addIndexLocked_def Let_def lookup_or_def)

lemma wf_index_remove: "wf_map (lookup_or [] (byWorkload c) i) \<Longrightarrow>
    wf_map (lookup_or [] (byWorkload (removeIndexLocked key c)) i)"
  by (auto simp: removeIndexLocked_def Let_def lookup_or_def split: option.splits)

lemma nonempty_add: "map_of (byWorkload c) i \<noteq> Some [] \<Longrightarrow> map_of (byWorkload (addIndexLocked key c)) i \<noteq> Some []"
  by (simp add: addIndexLocked_def Let_def)

lemma nonempty_remove: "map_of (byWorkload c) i \<noteq> Some [] \<Longrightarrow> map_of (byWorkload (removeIndexLocked key c)) i \<noteq> Some []"
  by (auto simp: removeIndexLocked_def Let_def split: option.splits)

lemma indexed_entries [simp]:
  "indexed (c\<lparr>oc_entries := es\<rparr>) = indexed c" "byWorkload (c\<lparr>oc_entries := es\<rparr>) = byWorkload c"
  by (simp_all add: indexed_def fun_eq_iff)

lemma index_ok_delete: "index_ok c \<Longrightarrow> index_ok (deleteEntryLocked key c)"
  unfolding index_ok_def deleteEntryLocked_def
  by (cases key) (simp add: indexed_remove wf_index_remove nonempty_remove)

lemma index_ok_store: "index_ok c \<Longrightarrow> index_ok (addIndexLocked key (c\<lparr>oc_entries := AList.update key r (oc_entries c)\<rparr>))"
  unfolding index_ok_def
  by (cases key) (simp add: indexed_add wf_index_add nonempty_add)

lemma cache_ok_delete: "cache_ok c \<Longrightarrow> cache_ok (deleteEntryLocked key c)"
  using index_ok_delete [of c key] order_trans [OF length_delete_le [of key "oc_entries c"]]
  by (simp add: cache_ok_def) (simp add: deleteEntryLocked_def)

lemma cache_ok_stale: "cache_ok c \<Longrightarrow> cache_ok (deleteIfStaleLocked now key c)"
  by (simp add: deleteIfStaleLocked_def cache_ok_delete split: option.splits)

lemma cache_ok_drop: "cache_ok c \<Longrightarrow> cache_ok (drop_stale now keys c)"
  unfolding drop_stale_def by (rule fold_invariant_set) (auto intro: cache_ok_stale)

text \<open>The scan finds an entry no other precedes, when there is one.\<close>

lemma oldest_spec:
  "oldest es best = None \<longleftrightarrow> es = [] \<and> best = None"
  "oldest es best = Some (k, t) \<Longrightarrow> ((k, t) \<in> set es \<or> best = Some (k, t)) \<and>
     (\<forall>(k', t') \<in> set es. t \<le> t') \<and> (\<forall>k' t'. best = Some (k', t') \<longrightarrow> t \<le> t')"
proof (induction es best rule: oldest.induct)
  case (2 k' t' es best)
  {
    case 1
    show ?case using "2.IH"(1) by (simp split: option.splits)
  next
    case 2
    then show ?case using "2.IH"(2) by (fastforce split: option.splits if_splits)
  }
qed auto

lemma evict_spec:
  assumes "cache_ok c" "oc_entries c \<noteq> []"
  obtains key e where "map_of (oc_entries c) key = Some e" "evictOldestLocked c = deleteEntryLocked key c"
    "\<And>k' e'. map_of (oc_entries c) k' = Some e' \<Longrightarrow> or_ObservedAt e \<le> or_ObservedAt e'"
proof -
  let ?es = "map (\<lambda>(k, e). (k, or_ObservedAt e)) (oc_entries c)"
  obtain key t where o': "oldest ?es None = Some (key, t)"
    using assms(2) oldest_spec(1) [of ?es None] by (cases "oldest ?es None") auto
  obtain e where e: "(key, e) \<in> set (oc_entries c)" "t = or_ObservedAt e"
    using oldest_spec(2) [OF o'] by auto
  show thesis
  proof (rule that)
    show "map_of (oc_entries c) key = Some e"
      using e(1) assms(1) by (simp add: cache_ok_def wf_map_mem)
    show "evictOldestLocked c = deleteEntryLocked key c" using o' by (simp add: evictOldestLocked_def)
    show "or_ObservedAt e \<le> or_ObservedAt e'" if "map_of (oc_entries c) k' = Some e'" for k' e'
      using oldest_spec(2) [OF o'] e(2) map_of_SomeD [OF that] by force
  qed
qed

lemma evict_room:
  assumes "cache_ok c" "oc_max c \<le> length (oc_entries c)"
  shows "cache_ok (evictOldestLocked c)" "length (oc_entries (evictOldestLocked c)) < oc_max c"
    "oc_max (evictOldestLocked c) = oc_max c"
proof -
  have "oc_entries c \<noteq> []" using assms by (auto simp: cache_ok_def)
  with assms(1) obtain key e where ev: "map_of (oc_entries c) key = Some e" "evictOldestLocked c = deleteEntryLocked key c"
    by (rule evict_spec)
  show "cache_ok (evictOldestLocked c)" using ev assms(1) cache_ok_delete by simp
  show "length (oc_entries (evictOldestLocked c)) < oc_max c"
    using length_delete_key [of "oc_entries c" key] map_of_Some_key [OF ev(1)] assms(1) ev(2)
    by (simp add: deleteEntryLocked_def cache_ok_def)
  show "oc_max (evictOldestLocked c) = oc_max c" using ev(2) by (simp add: deleteEntryLocked_def)
qed

lemma cache_ok_store:
  assumes "cache_ok c" "map_of (oc_entries c) key \<noteq> None \<or> length (oc_entries c) < oc_max c"
  shows "cache_ok (addIndexLocked key (c\<lparr>oc_entries := AList.update key r (oc_entries c)\<rparr>))"
proof -
  have "length (AList.update key r (oc_entries c)) \<le> oc_max c"
    using assms by (auto simp: length_update_key map_of_None_key cache_ok_def simp del: set_map)
  then show ?thesis using assms(1) index_ok_store [of c key r] by (simp add: cache_ok_def)
qed

lemma cache_ok_Record: "cache_ok c \<Longrightarrow> cache_ok (snd (oom_Record key r c))"
proof (cases "map_of (oc_entries c) key")
  case None
  assume ok: "cache_ok c"
  let ?c = "if length (oc_entries c) \<ge> oc_max c then evictOldestLocked c else c"
  have "cache_ok ?c" "length (oc_entries ?c) < oc_max ?c" using evict_room [OF ok] ok by auto
  then show ?thesis using None cache_ok_store [of ?c key r] by (simp add: oom_Record_def Let_def)
next
  case (Some e)
  assume ok: "cache_ok c"
  have "index_ok (c\<lparr>oc_entries := AList.update key r' (oc_entries c)\<rparr>)" for r'
    using ok Some by (cases key) (auto simp: cache_ok_def index_ok_def)
  then have "cache_ok (c\<lparr>oc_entries := AList.update key r' (oc_entries c)\<rparr>)" for r'
    using ok Some map_of_Some_key [OF Some] by (simp add: cache_ok_def length_update_key)
  then show ?thesis using ok Some cache_ok_store [OF ok] by (simp add: oom_Record_def)
qed

lemma cache_ok_mark: "cache_ok c \<Longrightarrow> cache_ok (markResolvedAt now u n r t c)"
proof -
  assume ok: "cache_ok c"
  let ?k = "event_key u n r t"
  let ?full = "map_of (resolved c) ?k = None \<and> oc_max c \<le> length (resolved c)"
  let ?c = "if ?full then evictOldestResolvedLocked c else c"
  have room: "cache_ok ?c \<and> length (AList.update ?k now (resolved ?c)) \<le> oc_max ?c"
  proof (cases ?full)
    case True
    then have "resolved c \<noteq> []" using ok by (auto simp: cache_ok_def)
    then obtain k at' where o': "oldest (resolved c) None = Some (k, at')"
      using oldest_spec(1) [of "resolved c" None] by (cases "oldest (resolved c) None") auto
    then have "k \<in> set (gkeys (resolved c))" using oldest_spec(2) [OF o'] by force
    then have "Suc (length (AList.delete k (resolved c))) = length (resolved c)"
      using ok by (intro length_delete_key) (simp_all add: cache_ok_def)
    then show ?thesis
      using True ok o' by (auto simp: evictOldestResolvedLocked_def cache_ok_def index_ok_def indexed_def length_update_key)
  next
    case False
    then show ?thesis using ok by (auto simp: length_update_key map_of_None_key cache_ok_def)
  qed
  then show ?thesis
    by (simp add: markResolvedAt_def Let_def cache_ok_def index_ok_def indexed_def del: if_split)
qed

lemma cache_ok_sweep: "cache_ok c \<Longrightarrow> cache_ok (oom_sweep now c)"
proof -
  assume "cache_ok c"
  then have ok: "cache_ok (drop_stale now (gkeys (oc_entries c)) c)" by (rule cache_ok_drop)
  then show ?thesis
    using order_trans [OF length_filter_le]
    by (fastforce simp: oom_sweep_def Let_def cache_ok_def index_ok_def indexed_def wf_map_filter)
qed

section \<open>What readers see\<close>

datatype oom_op =
    OpRecord oom_key oom_record
  | OpMark time string string int time
  | OpByWorkload time workload_identity
  | OpSweep time

fun oom_apply :: "oom_op \<Rightarrow> oom_cache \<Rightarrow> oom_cache" where
  "oom_apply (OpRecord key r) c = snd (oom_Record key r c)"
| "oom_apply (OpMark now u n r t) c = markResolvedAt now u n r t c"
| "oom_apply (OpByWorkload now i) c = snd (ByWorkload now i c)"
| "oom_apply (OpSweep now) c = oom_sweep now c"

definition oom_run :: "oom_op list \<Rightarrow> oom_cache \<Rightarrow> oom_cache" where
  "oom_run ops c = fold oom_apply ops c"

lemma cache_ok_apply: "cache_ok c \<Longrightarrow> cache_ok (oom_apply x c)"
  by (cases x) (auto simp: cache_ok_Record cache_ok_mark cache_ok_sweep ByWorkload_def cache_ok_drop split: prod.splits)

lemma cache_ok_run: "cache_ok c \<Longrightarrow> cache_ok (oom_run ops c)"
  unfolding oom_run_def by (rule fold_invariant_set) (auto intro: cache_ok_apply)

lemma max_other [simp]:
  "oc_max (deleteEntryLocked key c) = oc_max c" "oc_max (deleteIfStaleLocked now key c) = oc_max c"
  "oc_max (evictOldestLocked c) = oc_max c" "oc_max (evictOldestResolvedLocked c) = oc_max c"
  by (simp_all add: deleteEntryLocked_def deleteIfStaleLocked_def evictOldestLocked_def evictOldestResolvedLocked_def
    split: option.splits prod.splits)

lemma max_drop [simp]: "oc_max (drop_stale now keys c) = oc_max c"
  unfolding drop_stale_def by (rule fold_invariant_set [where I = "\<lambda>x. oc_max x = oc_max c"]) auto

lemma max_run: "oc_max (oom_run ops c) = oc_max c"
proof -
  have "oc_max (oom_apply x c) = oc_max c" for x c
    by (cases x) (auto simp: oom_Record_def markResolvedAt_def ByWorkload_def oom_sweep_def Let_def split: option.splits prod.splits)
  then show ?thesis
    unfolding oom_run_def by (intro fold_invariant_set [where I = "\<lambda>x. oc_max x = oc_max c"]) auto
qed

lemma by_workload_lookup:
  "map_of (fst (by_workload_read now c i ns)) n =
     (if n \<in> set ns
      then case map_of (oc_entries c) \<lparr> k_Identity = i, k_Container = n \<rparr> of
             Some e \<Rightarrow> if time_sub now (or_ObservedAt e) \<le> oc_ttl c then Some e else None
           | None \<Rightarrow> None
      else None)"
  by (induction ns) (auto simp: Let_def split: prod.splits option.splits)

text \<open>C13. Whatever was recorded, marked, read and swept before, the cache never exceeds its limit, and a
  read of a workload sees exactly its entries that are within the TTL: the index neither misses an entry
  nor names a dropped one.\<close>

theorem oom_cache_reads_complete:
  "let c = oom_run ops (NewCacheWithLimit t cap) in
     oom_Size c \<le> (if cap \<le> 0 then 5000 else nat cap) \<and>
     map_of (fst (ByWorkload now i c)) n =
       (case map_of (oc_entries c) \<lparr> k_Identity = i, k_Container = n \<rparr> of
          Some e \<Rightarrow> if time_sub now (or_ObservedAt e) \<le> oc_ttl c then Some e else None
        | None \<Rightarrow> None)"
proof -
  let ?c = "oom_run ops (NewCacheWithLimit t cap)"
  have ok: "cache_ok ?c" using cache_ok_run [OF cache_ok_New] .
  have "oom_Size ?c \<le> (if cap \<le> 0 then 5000 else nat cap)"
    using ok max_run [of ops "NewCacheWithLimit t cap"] by (simp add: cache_ok_def oom_Size_def NewCacheWithLimit_def)
  moreover have "n \<in> set (gkeys (lookup_or [] (byWorkload ?c) i)) \<longleftrightarrow>
      map_of (oc_entries ?c) \<lparr> k_Identity = i, k_Container = n \<rparr> \<noteq> None"
    using ok by (simp add: cache_ok_def index_ok_def indexed_def)
  ultimately show ?thesis
    using by_workload_lookup [of now ?c i "gkeys (lookup_or [] (byWorkload ?c) i)" n]
    by (auto simp: Let_def ByWorkload_def split: prod.splits option.splits)
qed

section \<open>Concurrent kills\<close>

lemma merge_commutes: "\<not> same_kill a b \<Longrightarrow> merge_kill a b = merge_kill b a"
  by (auto simp: merge_kill_def same_kill_def newerThan_def laterOf_def max.commute)

lemma merge_left_commutes:
  assumes "\<not> same_kill a b" "\<not> same_kill a e" "\<not> same_kill b e"
  shows "merge_kill b (merge_kill a e) = merge_kill a (merge_kill b e)"
  using assms by (auto simp: merge_kill_def same_kill_def newerThan_def laterOf_def max.left_commute split: if_splits)

lemma same_kill_merge:
  "\<not> same_kill a r \<Longrightarrow> \<not> same_kill e r \<Longrightarrow> \<not> same_kill (merge_kill a e) r"
  by (auto simp: merge_kill_def same_kill_def)

lemma same_kill_sym: "same_kill a b \<longleftrightarrow> same_kill b a"
  by (auto simp: same_kill_def)

lemma Record_known:
  assumes "map_of (oc_entries c) key = Some e" "\<not> same_kill e r"
  shows "map_of (oc_entries (snd (oom_Record key r c))) = (map_of (oc_entries c))(key \<mapsto> merge_kill r e)"
  using assms by (auto simp: oom_Record_def)

lemma Record_new:
  assumes "map_of (oc_entries c) key = None"
  obtains c' where "map_of (oc_entries (snd (oom_Record key r c))) = (map_of (oc_entries c'))(key \<mapsto> r)"
    "c' = (if length (oc_entries c) \<ge> oc_max c then evictOldestLocked c else c)"
  using assms that by (auto simp: oom_Record_def Let_def fun_eq_iff)

text \<open>The order in which two pods' kills reach the cache does not matter: recorded one way or the
  other, two different kills of a container leave the same entries, whether the container had an entry
  already or is new. The entry's anchor is the largest limit that was killed and its age that of the
  latest observation.\<close>

theorem oom_records_commute:
  assumes "\<not> same_kill a b"
    and "\<And>e. map_of (oc_entries c) key = Some e \<Longrightarrow> \<not> same_kill a e \<and> \<not> same_kill b e"
  shows "let ab = snd (oom_Record key b (snd (oom_Record key a c)));
             ba = snd (oom_Record key a (snd (oom_Record key b c)))
         in map_of (oc_entries ab) = map_of (oc_entries ba) \<and>
            (\<exists>e'. map_of (oc_entries ab) key = Some e' \<and>
               or_OOMLimitBytes a \<le> or_OOMLimitBytes e' \<and> or_OOMLimitBytes b \<le> or_OOMLimitBytes e' \<and>
               or_ObservedAt a \<le> or_ObservedAt e' \<and> or_ObservedAt b \<le> or_ObservedAt e')"
proof (cases "map_of (oc_entries c) key")
  case (Some e)
  have d: "\<not> same_kill e a" "\<not> same_kill e b" using assms(2) [OF Some] same_kill_sym by auto
  have "map_of (oc_entries (snd (oom_Record key y (snd (oom_Record key x c))))) =
      (map_of (oc_entries c))(key \<mapsto> merge_kill y (merge_kill x e))"
    if "\<not> same_kill e x" "\<not> same_kill e y" "\<not> same_kill x y" for x y
    using Record_known [OF Some that(1)] same_kill_merge [OF that(3,2)]
    by (subst Record_known [of _ _ "merge_kill x e"]) auto
  from this [of a b] this [of b a] d assms(1) show ?thesis
    using merge_left_commutes [of a b e] same_kill_sym
    by (auto simp: Let_def merge_kill_def laterOf_def)
next
  case None
  let ?c = "if length (oc_entries c) \<ge> oc_max c then evictOldestLocked c else c"
  have "map_of (oc_entries (snd (oom_Record key y (snd (oom_Record key x c))))) =
      (map_of (oc_entries ?c))(key \<mapsto> merge_kill y x)" if "\<not> same_kill x y" for x y
  proof -
    have one: "map_of (oc_entries (snd (oom_Record key x c))) = (map_of (oc_entries ?c))(key \<mapsto> x)"
      by (rule Record_new [OF None, of x]) simp
    then show ?thesis by (subst Record_known [of _ _ x]) (auto simp: that)
  qed
  from this [of a b] this [of b a] assms(1) show ?thesis
    using merge_commutes [of a b] same_kill_sym by (auto simp: Let_def merge_kill_def laterOf_def)
qed

theorem oom_records_commute_witness:
  "let key = \<lparr> k_Identity = \<lparr> id_Namespace = ''shop'', OwnerKind = ''Deployment'', OwnerName = ''web'' \<rparr>, k_Container = ''app'' \<rparr>;
       kill = (\<lambda>t cap. \<lparr> or_Container = ''app'', or_PolicyName = ''web'', or_ObservedAt = t, or_TerminatedAt = t, or_RestartCount = 1,
         or_PodName = ''p'', or_PodUID = ''u'', or_OOMLimitBytes = cap \<rparr>);
       c = NewCache 0
   in map_of (oc_entries (snd (oom_Record key (kill 1 64) (snd (oom_Record key (kill 2 128) c))))) =
      map_of (oc_entries (snd (oom_Record key (kill 2 128) (snd (oom_Record key (kill 1 64) c)))))"
proof -
  let ?kill = "\<lambda>t cap. \<lparr> or_Container = ''app'', or_PolicyName = ''web'', or_ObservedAt = t, or_TerminatedAt = t, or_RestartCount = 1,
    or_PodName = ''p'', or_PodUID = ''u'', or_OOMLimitBytes = cap \<rparr>"
  have "\<not> same_kill (?kill 2 128) (?kill 1 64)" "oc_entries (NewCache 0) = []"
    by (simp_all add: same_kill_def NewCache_def NewCacheWithLimit_def)
  then show ?thesis
    unfolding Let_def by (intro oom_records_commute [unfolded Let_def, THEN conjunct1]) auto
qed

end
