(* ===== verification/Shard.thy ===== *)
theory Shard
  imports Api "HOL-Library.Multiset" "HOL-Library.Product_Lexorder"
begin

text \<open>
  How the workloads of a batched Prometheus query are packed (\<open>internal/prometheus/shard.go\<close>): one shard
  names workloads of one namespace and one owner kind, within a budget of samples and names. Costs are Go
  \<open>int\<close> and wrap. \<open>slices.SortFunc\<close> may order members of one name either way; the model keeps them in
  candidate order. The selectors' PromQL text and \<open>WindowMinutes\<close> are left out.
\<close>

record shard_candidate =
  sc_Identity :: workload_identity
  sc_Containers :: int

record shard =
  sh_Namespace :: string
  sh_OwnerKind :: string
  sh_Names :: "string list"

definition Identities :: "shard \<Rightarrow> workload_identity list" where
  "Identities s = map (\<lambda>name. \<lparr> id_Namespace = sh_Namespace s, OwnerKind = sh_OwnerKind s, OwnerName = name \<rparr>) (sh_Names s)"

text \<open>A member of a group: its name and its cost; a group's key: its namespace and owner kind.\<close>

type_synonym member = "string \<times> int"
type_synonym group_key = "string \<times> string"

abbreviation maxShardMembers :: nat where "maxShardMembers \<equiv> 1000"

definition unnamed :: "shard_candidate \<Rightarrow> bool" where
  "unnamed c \<longleftrightarrow> id_Namespace (sc_Identity c) = [] \<or> OwnerKind (sc_Identity c) = [] \<or> OwnerName (sc_Identity c) = []"

definition member_of :: "int \<Rightarrow> shard_candidate \<Rightarrow> member" where
  "member_of samplesPerContainer c =
     (OwnerName (sc_Identity c),
      wrap64 ((if sc_Containers c \<le> 0 then 1 else sc_Containers c) * samplesPerContainer))"

definition group_of :: "shard_candidate \<Rightarrow> group_key" where
  "group_of c = (id_Namespace (sc_Identity c), OwnerKind (sc_Identity c))"

text \<open>The first loop: the groups with their order of appearance, and the candidates dropped.\<close>

fun collect_groups ::
  "int \<Rightarrow> shard_candidate list \<Rightarrow> group_key list \<Rightarrow> (group_key, member list) gomap \<Rightarrow> shard_candidate list \<Rightarrow>
   group_key list \<times> (group_key, member list) gomap \<times> shard_candidate list" where
  "collect_groups spc [] groupOrder groups dropped = (groupOrder, groups, dropped)"
| "collect_groups spc (c # cs) groupOrder groups dropped =
     (if unnamed c then collect_groups spc cs groupOrder groups (dropped @ [c])
      else let key = group_of c
           in collect_groups spc cs
                (if map_of groups key = None then groupOrder @ [key] else groupOrder)
                (AList.update key (lookup_or [] groups key @ [member_of spc c]) groups) dropped)"

text \<open>The second loop over a group's members: the open shard's names and its samples, and the shards closed.\<close>

fun pack :: "group_key \<Rightarrow> int \<Rightarrow> member list \<Rightarrow> string list \<Rightarrow> int \<Rightarrow> shard list" where
  "pack key maxSamples [] names used =
     (if names = [] then [] else [\<lparr> sh_Namespace = fst key, sh_OwnerKind = snd key, sh_Names = names \<rparr>])"
| "pack key maxSamples ((name, cost) # ms) names used =
     (if names \<noteq> [] \<and> (wrap64 (used + cost) > maxSamples \<or> length names \<ge> maxShardMembers)
      then \<lparr> sh_Namespace = fst key, sh_OwnerKind = snd key, sh_Names = names \<rparr> # pack key maxSamples ms [name] (wrap64 (0 + cost))
      else pack key maxSamples ms (names @ [name]) (wrap64 (used + cost)))"

definition BuildShards :: "shard_candidate list \<Rightarrow> int \<Rightarrow> int \<Rightarrow> shard list \<times> shard_candidate list" where
  "BuildShards cands samplesPerContainer maxSamples =
     (let spc = (if samplesPerContainer \<le> 0 then 1 else samplesPerContainer);
          (groupOrder, groups, dropped) = collect_groups spc cands [] [] []
      in (concat (map (\<lambda>key. pack key maxSamples (sort_key fst (lookup_or [] groups key)) [] 0) (sort groupOrder)),
          dropped))"

section \<open>The groups\<close>

lemma collect_groups_spec:
  assumes "set order = set (gkeys groups)" "distinct order"
    and "collect_groups spc cs order groups dropped = (order', groups', dropped')"
  shows "distinct order' \<and> set order' = set order \<union> group_of ` set (filter (Not \<circ> unnamed) cs) \<and>
    dropped' = dropped @ filter unnamed cs \<and>
    (\<forall>key. lookup_or [] groups' key =
       lookup_or [] groups key @ map (member_of spc) (filter (\<lambda>c. \<not> unnamed c \<and> group_of c = key) cs))"
  using assms
proof (induction cs arbitrary: order groups dropped)
  case Nil
  then show ?case by simp
next
  case (Cons c cs)
  show ?case
  proof (cases "unnamed c")
    case True
    then have "collect_groups spc cs order groups (dropped @ [c]) = (order', groups', dropped')"
      using Cons.prems(3) by simp
    from Cons.IH [OF Cons.prems(1,2) this] True show ?thesis by simp
  next
    case False
    let ?k = "group_of c"
    let ?o = "if map_of groups ?k = None then order @ [?k] else order"
    let ?g = "AList.update ?k (lookup_or [] groups ?k @ [member_of spc c]) groups"
    have seto: "set ?o = insert ?k (set order)" "distinct ?o"
      using Cons.prems(1,2) map_of_None_key [of groups ?k] by (auto simp del: set_map)
    then have "set ?o = set (gkeys ?g)" "distinct ?o"
      using Cons.prems(1) by (simp_all only: keys_update)
    from Cons.IH [OF this] Cons.prems(3) False
    have IH: "distinct order' \<and> set order' = set ?o \<union> group_of ` set (filter (Not \<circ> unnamed) cs) \<and>
      dropped' = dropped @ filter unnamed cs \<and>
      (\<forall>key. lookup_or [] groups' key =
         lookup_or [] ?g key @ map (member_of spc) (filter (\<lambda>c. \<not> unnamed c \<and> group_of c = key) cs))"
      by (simp add: Let_def)
    have "lookup_or [] ?g key = (if key = ?k then lookup_or [] groups ?k @ [member_of spc c] else lookup_or [] groups key)" for key
      by (simp add: lookup_or_def)
    then show ?thesis using IH False seto(1) by simp
  qed
qed

section \<open>Packing\<close>

lemma pack_names:
  "concat (map sh_Names (pack key m ms names used)) = names @ map fst ms"
  by (induction key m ms names used rule: pack.induct) auto

lemma pack_key: "s \<in> set (pack key m ms names used) \<Longrightarrow> sh_Namespace s = fst key \<and> sh_OwnerKind s = snd key"
  by (induction key m ms names used rule: pack.induct) (auto split: if_splits)

lemma identities_one_group:
  "\<forall>s\<in>set ss. sh_Namespace s = fst key \<and> sh_OwnerKind s = snd key \<Longrightarrow>
   concat (map Identities ss) =
     map (\<lambda>n. \<lparr> id_Namespace = fst key, OwnerKind = snd key, OwnerName = n \<rparr>) (concat (map sh_Names ss))"
proof (induction ss)
  case (Cons s ss)
  have "Identities s = map (\<lambda>n. \<lparr> id_Namespace = fst key, OwnerKind = snd key, OwnerName = n \<rparr>) (sh_Names s)"
    using Cons.prems unfolding Identities_def by (metis list.set_intros(1))
  moreover have "concat (map Identities ss) =
      map (\<lambda>n. \<lparr> id_Namespace = fst key, OwnerKind = snd key, OwnerName = n \<rparr>) (concat (map sh_Names ss))"
    by (rule Cons.IH) (use Cons.prems in \<open>blast intro: list.set_intros(2)\<close>)
  ultimately show ?case by (simp only: list.map concat.simps map_append)
qed simp

lemma pack_identities:
  "concat (map Identities (pack key m ms names used)) =
     map (\<lambda>n. \<lparr> id_Namespace = fst key, OwnerKind = snd key, OwnerName = n \<rparr>) (names @ map fst ms)"
proof -
  have "\<forall>s\<in>set (pack key m ms names used). sh_Namespace s = fst key \<and> sh_OwnerKind s = snd key"
    using pack_key by blast
  then show ?thesis by (simp only: identities_one_group pack_names)
qed

lemma mset_by_group:
  "distinct keys \<Longrightarrow> mset (filter (\<lambda>x. g x \<in> set keys) xs) = (\<Sum>k\<leftarrow>keys. mset (filter (\<lambda>x. g x = k) xs))"
proof (induction keys)
  case Nil
  then show ?case by simp
next
  case (Cons k keys)
  have "mset (filter (\<lambda>x. g x = k \<or> g x \<in> set keys) xs) =
      mset (filter (\<lambda>x. g x = k) xs) + mset (filter (\<lambda>x. g x \<in> set keys) xs)"
    using Cons.prems by (induction xs) auto
  with Cons show ?case by simp
qed

lemma mset_concat_sum: "mset (concat (map f ks)) = (\<Sum>k\<leftarrow>ks. mset (f k))"
  by (induction ks) auto

lemma member_identity:
  "group_of c = key \<Longrightarrow>
   \<lparr> id_Namespace = fst key, OwnerKind = snd key, OwnerName = fst (member_of spc c) \<rparr> = sc_Identity c"
  by (auto simp: group_of_def member_of_def)

lemma sum_list_image_mset: "(\<Sum>k\<leftarrow>ks. image_mset f (g k)) = image_mset f (\<Sum>k\<leftarrow>ks. g k)"
  by (induction ks) auto

text \<open>The shards partition the workloads: the identities the shards select are, each as often as it was
  a candidate, exactly those of the candidates with a namespace, a kind and a name; the others are the
  ones reported dropped. No workload is queried twice for one candidate, and none is lost, whatever the
  budgets, costs that wrap included.\<close>

lemma shards_partition_candidates:
  "let (shards, dropped) = BuildShards cands samplesPerContainer maxSamples in
     mset (concat (map Identities shards)) = mset (map sc_Identity (filter (\<lambda>c. \<not> unnamed c) cands)) \<and>
     dropped = filter unnamed cands"
proof -
  let ?spc = "if samplesPerContainer \<le> 0 then 1 else samplesPerContainer"
  obtain ord groups dropped where cg: "collect_groups ?spc cands [] [] [] = (ord, groups, dropped)"
    by (cases "collect_groups ?spc cands [] [] []") auto
  have ord: "distinct ord" "set ord = group_of ` set (filter (\<lambda>c. \<not> unnamed c) cands)"
    and drop: "dropped = filter unnamed cands"
    and look: "\<And>key. lookup_or [] groups key =
      map (member_of ?spc) (filter (\<lambda>c. \<not> unnamed c \<and> group_of c = key) cands)"
    using collect_groups_spec [OF _ _ cg] by (auto simp: comp_def lookup_or_def [of "[]" "[]"])
  let ?mk = "\<lambda>key n. \<lparr> id_Namespace = fst key, OwnerKind = snd key, OwnerName = n \<rparr>"
  have grp: "mset (map (?mk key \<circ> fst) (sort_key fst (lookup_or [] groups key))) =
      image_mset sc_Identity (mset (filter (\<lambda>c. group_of c = key) (filter (\<lambda>c. \<not> unnamed c) cands)))" for key
  proof -
    have "mset (map (?mk key \<circ> fst) (sort_key fst (lookup_or [] groups key))) =
        mset (map (\<lambda>c. ?mk key (fst (member_of ?spc c))) (filter (\<lambda>c. \<not> unnamed c \<and> group_of c = key) cands))"
      unfolding look by (simp add: image_mset.compositionality comp_def)
    also have "\<dots> = mset (map sc_Identity (filter (\<lambda>c. \<not> unnamed c \<and> group_of c = key) cands))"
      by (intro arg_cong [where f = mset] map_cong) (auto simp: member_identity)
    finally show ?thesis by (simp add: conj_commute filter_filter)
  qed
  have "concat (map Identities (concat (map (\<lambda>key. pack key maxSamples (sort_key fst (lookup_or [] groups key)) [] 0) ks))) =
      concat (map (\<lambda>key. map (?mk key \<circ> fst) (sort_key fst (lookup_or [] groups key))) ks)" for ks
    by (induction ks) (simp_all add: pack_identities)
  then have "mset (concat (map Identities (fst (BuildShards cands samplesPerContainer maxSamples)))) =
      (\<Sum>key\<leftarrow>sort ord. image_mset sc_Identity (mset (filter (\<lambda>c. group_of c = key) (filter (\<lambda>c. \<not> unnamed c) cands))))"
    using cg by (simp only: BuildShards_def Let_def split_conv fst_conv mset_concat_sum grp)
  also have "\<dots> = image_mset sc_Identity (mset (filter (\<lambda>c. group_of c \<in> set (sort ord)) (filter (\<lambda>c. \<not> unnamed c) cands)))"
    using ord(1) by (subst mset_by_group) (simp_all add: distinct_sort sum_list_image_mset)
  also have "filter (\<lambda>c. group_of c \<in> set (sort ord)) (filter (\<lambda>c. \<not> unnamed c) cands) = filter (\<lambda>c. \<not> unnamed c) cands"
    using ord(2) by (intro filter_True) simp
  finally show ?thesis using cg drop by (simp add: BuildShards_def Let_def)
qed

section \<open>Budgets\<close>

text \<open>A shard of the members \<open>chunk\<close> that keeps both budgets, or is a single workload.\<close>

definition within_budget :: "int \<Rightarrow> member list \<Rightarrow> bool" where
  "within_budget maxSamples chunk \<longleftrightarrow> chunk \<noteq> [] \<and> length chunk \<le> maxShardMembers \<and>
     (length chunk = 1 \<or> (\<Sum>m\<leftarrow>chunk. snd m) \<le> maxSamples)"

lemma pack_budget:
  assumes "\<forall>m\<in>set (chunk @ ms). 0 \<le> snd m \<and> snd m < 2 ^ 62" "maxSamples < 2 ^ 62"
    and "chunk = [] \<or> within_budget maxSamples chunk"
    and "s \<in> set (pack key maxSamples ms (map fst chunk) (\<Sum>m\<leftarrow>chunk. snd m))"
  shows "\<exists>c. sh_Names s = map fst c \<and> within_budget maxSamples c \<and> set c \<subseteq> set (chunk @ ms)"
  using assms
proof (induction ms arbitrary: chunk)
  case Nil
  then show ?case by (auto split: if_splits)
next
  case (Cons m ms)
  let ?used = "\<Sum>m\<leftarrow>chunk. snd m"
  have used: "0 \<le> ?used" "?used < 2 ^ 62"
  proof -
    show "0 \<le> ?used" using Cons.prems(1) by (intro sum_list_nonneg) auto
    have "length chunk = 1 \<Longrightarrow> ?used < 2 ^ 62" using Cons.prems(1) by (cases chunk) auto
    then show "?used < 2 ^ 62" using Cons.prems(2,3) by (auto simp: within_budget_def)
  qed
  have cost: "0 \<le> snd m" "snd m < 2 ^ 62" using Cons.prems(1) by auto
  have w: "wrap64 (?used + snd m) = ?used + snd m" "wrap64 (0 + snd m) = snd m"
    using used cost by (auto intro!: wrap64_id simp: in_int64_def)
  show ?case
  proof (cases "chunk \<noteq> [] \<and> (?used + snd m > maxSamples \<or> length chunk \<ge> maxShardMembers)")
    case True
    then have "sh_Names s = map fst chunk \<or> s \<in> set (pack key maxSamples ms (map fst [m]) (\<Sum>m\<leftarrow>[m]. snd m))"
      using Cons.prems(4) w by (cases m) auto
    then show ?thesis
    proof
      assume "sh_Names s = map fst chunk"
      then show ?thesis using Cons.prems(3) True by (intro exI [of _ chunk]) auto
    next
      assume "s \<in> set (pack key maxSamples ms (map fst [m]) (\<Sum>m\<leftarrow>[m]. snd m))"
      from Cons.IH [OF _ Cons.prems(2) _ this] Cons.prems(1)
      obtain c where "sh_Names s = map fst c" "within_budget maxSamples c" "set c \<subseteq> set ([m] @ ms)"
        by (auto simp: within_budget_def)
      then show ?thesis by (intro exI [of _ c]) auto
    qed
  next
    case False
    then have "s \<in> set (pack key maxSamples ms (map fst (chunk @ [m])) (\<Sum>m\<leftarrow>chunk @ [m]. snd m))"
      using Cons.prems(4) w by (cases m) auto
    moreover have "within_budget maxSamples (chunk @ [m])"
      using False Cons.prems(3) by (auto simp: within_budget_def)
    ultimately obtain c where "sh_Names s = map fst c" "within_budget maxSamples c" "set c \<subseteq> set ((chunk @ [m]) @ ms)"
      using Cons.IH [of "chunk @ [m]"] Cons.prems(1,2) by auto
    then show ?thesis by (intro exI [of _ c]) auto
  qed
qed

lemma preimage_list: "set ys \<subseteq> f ` A \<Longrightarrow> \<exists>xs. ys = map f xs \<and> set xs \<subseteq> A"
proof (induction ys)
  case (Cons y ys)
  then obtain x xs where "y = f x" "x \<in> A" "ys = map f xs" "set xs \<subseteq> A" by auto
  then show ?case by (intro exI [of _ "x # xs"]) simp
qed simp

text \<open>No shard exceeds its budgets: each names workloads of one namespace and kind, at most a thousand,
  whose samples together stay within \<open>maxSamples\<close>, a shard of a single over-budget workload apart.\<close>

theorem shards_within_budget:
  assumes "\<forall>c\<in>set cands. max 1 (sc_Containers c) * max 1 samplesPerContainer < 2 ^ 62" "maxSamples < 2 ^ 62"
    and "s \<in> set (fst (BuildShards cands samplesPerContainer maxSamples))"
  shows "\<exists>cs. set cs \<subseteq> set cands \<and> sh_Names s = map (OwnerName \<circ> sc_Identity) cs \<and>
    (\<forall>c\<in>set cs. group_of c = (sh_Namespace s, sh_OwnerKind s)) \<and> cs \<noteq> [] \<and> length cs \<le> 1000 \<and>
    (length cs = 1 \<or> (\<Sum>c\<leftarrow>cs. max 1 (sc_Containers c) * max 1 samplesPerContainer) \<le> maxSamples)"
proof -
  let ?spc = "if samplesPerContainer \<le> 0 then 1 else samplesPerContainer"
  let ?cost = "\<lambda>c. max 1 (sc_Containers c) * max 1 samplesPerContainer"
  obtain ord groups dropped where cg: "collect_groups ?spc cands [] [] [] = (ord, groups, dropped)"
    by (cases "collect_groups ?spc cands [] [] []") auto
  have look: "\<And>key. lookup_or [] groups key =
      map (member_of ?spc) (filter (\<lambda>c. \<not> unnamed c \<and> group_of c = key) cands)"
    using collect_groups_spec [OF _ _ cg] by (auto simp: lookup_or_def [of "[]" "[]"])
  have member: "member_of ?spc c = (OwnerName (sc_Identity c), ?cost c) \<and> 0 \<le> ?cost c \<and> ?cost c < 2 ^ 62"
    if "c \<in> set cands" for c
  proof -
    have one: "1 \<le> max 1 (sc_Containers c)" "1 \<le> max 1 samplesPerContainer" by auto
    have pos: "0 \<le> ?cost c" using one by (intro mult_nonneg_nonneg) linarith+
    have small: "?cost c < 2 ^ 62" using assms(1) that by blast
    have "wrap64 (?cost c) = ?cost c" using pos order_less_trans [OF small, of "2 ^ 63"] by (intro wrap64_id in_int64_nonneg) simp_all
    moreover have "(if sc_Containers c \<le> 0 then 1 else sc_Containers c) = max 1 (sc_Containers c)"
      "?spc = max 1 samplesPerContainer" by auto
    ultimately show ?thesis using pos small by (simp only: member_of_def simp_thms)
  qed
  obtain key where s: "s \<in> set (pack key maxSamples (sort_key fst (lookup_or [] groups key)) [] 0)"
    using assms(3) cg by (auto simp: BuildShards_def Let_def)
  have costs: "\<forall>m\<in>set ([] @ sort_key fst (lookup_or [] groups key)). 0 \<le> snd m \<and> snd m < 2 ^ 62"
    using member by (auto simp: look)
  obtain chunk where chunk: "sh_Names s = map fst chunk" "within_budget maxSamples chunk"
    "set chunk \<subseteq> member_of ?spc ` {c \<in> set cands. group_of c = key}"
  proof -
    obtain c where c: "sh_Names s = map fst c" "within_budget maxSamples c" "set c \<subseteq> set (lookup_or [] groups key)"
      using pack_budget [of "[]" "sort_key fst (lookup_or [] groups key)" maxSamples s key] costs assms(2) s by auto
    have "set (lookup_or [] groups key) \<subseteq> member_of ?spc ` {c \<in> set cands. group_of c = key}"
      unfolding look by auto
    then have "set c \<subseteq> member_of ?spc ` {c \<in> set cands. group_of c = key}" by (rule subset_trans [OF c(3)])
    with c(1,2) show thesis by (rule that)
  qed
  obtain cs where cs: "chunk = map (member_of ?spc) cs" "set cs \<subseteq> {c \<in> set cands. group_of c = key}"
    using preimage_list [OF chunk(3)] by blast
  have "chunk = map (\<lambda>c. (OwnerName (sc_Identity c), ?cost c)) cs"
    unfolding cs(1) by (rule map_cong [OF refl]) (use cs(2) member in blast)
  then have names: "map fst chunk = map (OwnerName \<circ> sc_Identity) cs" "map snd chunk = map ?cost cs"
    by (simp_all add: comp_def)
  have "sh_Namespace s = fst key \<and> sh_OwnerKind s = snd key" using pack_key s by blast
  then have "\<forall>c\<in>set cs. group_of c = (sh_Namespace s, sh_OwnerKind s)" using cs(2) by force
  moreover have "set cs \<subseteq> set cands" using cs(2) by blast
  moreover have "length chunk = length cs" by (simp add: cs(1))
  ultimately show ?thesis
    using chunk(1,2) unfolding within_budget_def names by (intro exI [of _ cs]) fastforce
qed

theorem shards_within_budget_witness:
  "let cand = (\<lambda>name. \<lparr> sc_Identity = \<lparr> id_Namespace = ''shop'', OwnerKind = ''Deployment'', OwnerName = name \<rparr>, sc_Containers = 2 \<rparr>);
       shards = fst (BuildShards [cand ''c'', cand ''a'', cand ''b''] 10 40)
   in map sh_Names shards = [[''a'', ''b''], [''c'']] \<and> (\<forall>s\<in>set shards. \<exists>cs :: shard_candidate list. sh_Names s = map (OwnerName \<circ> sc_Identity) cs \<and>
        (length cs = 1 \<or> (\<Sum>c\<leftarrow>cs. max 1 (sc_Containers c) * 10) \<le> 40))"
proof -
  let ?cand = "\<lambda>name. \<lparr> sc_Identity = \<lparr> id_Namespace = ''shop'', OwnerKind = ''Deployment'', OwnerName = name \<rparr>, sc_Containers = 2 \<rparr>"
  let ?cs = "[?cand ''c'', ?cand ''a'', ?cand ''b'']"
  have "map sh_Names (fst (BuildShards ?cs 10 40)) = [[''a'', ''b''], [''c'']]"
    by (simp add: BuildShards_def unnamed_def group_of_def member_of_def lookup_or_def wrap64_def sort_key_def insort_key_def Let_def)
  moreover have "\<exists>cs :: shard_candidate list. sh_Names s = map (OwnerName \<circ> sc_Identity) cs \<and>
        (length cs = 1 \<or> (\<Sum>c\<leftarrow>cs. max 1 (sc_Containers c) * 10) \<le> 40)" if mem: "s \<in> set (fst (BuildShards ?cs 10 40))" for s
  proof -
    have "\<forall>c\<in>set ?cs. max 1 (sc_Containers c) * max 1 10 < 2 ^ 62" "(40::int) < 2 ^ 62" by simp_all
    from shards_within_budget [OF this mem]
    obtain cs :: "shard_candidate list" where "sh_Names s = map (OwnerName \<circ> sc_Identity) cs"
      "length cs = 1 \<or> (\<Sum>c\<leftarrow>cs. max 1 (sc_Containers c) * max 1 10) \<le> 40" by blast
    then show ?thesis by (intro exI [of _ cs]) simp
  qed
  ultimately show ?thesis by (simp add: Let_def)
qed

end
