(* ===== verification/Errors.thy ===== *)
theory Errors
  imports Api
begin

text \<open>
  Go error values as the apply path and the ledger tell them apart, and the small types both share
  (\<open>internal/workload/apply.go\<close>, \<open>patcher.go\<close>): the step that failed and the pod counts. An error is a
  tree: a sentinel, a plain error, an API status with its code, an error wrapping one other
  (\<open>fmt.Errorf\<close> with one \<open>%w\<close>) or several (\<open>errors.Join\<close>, several \<open>%w\<close>). The text of an error is
  left out but for a plain one.
\<close>

datatype sentinel = ErrRefused | ErrCrashLoopBackOff | CtxErr

datatype go_error =
    Sentinel sentinel
  | Plain string
  | ApiStatus int
  | Wrap go_error
  | Joined "go_error list"

text \<open>\<open>errors.Is\<close> of the standard library.\<close>

fun errors_Is :: "go_error \<Rightarrow> sentinel \<Rightarrow> bool" where
  "errors_Is (Sentinel s) t = (s = t)"
| "errors_Is (Plain _) t = False"
| "errors_Is (ApiStatus _) t = False"
| "errors_Is (Wrap e) t = errors_Is e t"
| "errors_Is (Joined es) t = list_ex (\<lambda>e. errors_Is e t) es"

text \<open>\<open>errors.Join\<close>: nil for no error.\<close>

definition errors_Join :: "go_error list \<Rightarrow> go_error option" where
  "errors_Join es = (if es = [] then None else Some (Joined es))"

datatype apply_step = StepPrometheus | StepPatch | StepResize | StepStore

record pod_counts =
  pc_Total :: int
  pc_Stale :: int

end
