(* ===== verification/Ledger.thy ===== *)
theory Ledger
  imports Errors
begin

text \<open>
  The controller's memory of applying each member (\<open>internal/ledger\<close>): results of a pass go in, verdicts
  come out. The clock is the argument \<open>now\<close>; every method holds the lock throughout. A member's entry is
  a record in the map, an absent one \<open>None\<close>. An event keeps what its message says, typed: the step, the
  error, the attempt and the time of the retry.
\<close>

definition BaseRetryDelay :: duration where "BaseRetryDelay = 30 * second"
definition MaxRetryDelay :: duration where "MaxRetryDelay = 5 * minute"

record member_key =
  mk_Kind :: string
  mk_Namespace :: string
  mk_Name :: string

datatype result_kind = Done | Idle | Uncounted | Skipped | Failed

record pass_result =
  res_Member :: member_key
  res_Kind :: result_kind
  res_Pods :: pod_counts
  res_Step :: apply_step
  res_Err :: go_error

datatype event =
    ReconciliationFailed apply_step go_error
  | ReconciliationRetryScheduled apply_step go_error int time

record health =
  h_Pods :: pod_counts
  h_Measured :: bool
  h_BlockedOn :: "apply_step option"
  h_Attempts :: int

definition zero_counts :: pod_counts where
  "zero_counts = \<lparr> pc_Total = 0, pc_Stale = 0 \<rparr>"

definition zero_health :: health where
  "zero_health = \<lparr> h_Pods = zero_counts, h_Measured = False, h_BlockedOn = None, h_Attempts = 0 \<rparr>"

definition health_Blocked :: "health \<Rightarrow> bool" where
  "health_Blocked h \<longleftrightarrow> h_BlockedOn h \<noteq> None"

definition health_Failed :: "health \<Rightarrow> bool" where
  "health_Failed h \<longleftrightarrow> h_Attempts h > 0"

record ledger_verdict =
  v_Identities :: "(workload_identity, health) gomap"
  v_Events :: "(member_key, event) gomap"

definition verdict_Blocked :: "ledger_verdict \<Rightarrow> nat" where
  "verdict_Blocked v = length (filter (\<lambda>(_, h). health_Blocked h) (v_Identities v))"

record member_failure =
  f_step :: apply_step
  f_permanent :: bool
  f_attempts :: int
  f_due :: time

record member_entry =
  e_pods :: pod_counts
  e_measured :: bool
  e_failure :: "member_failure option"

definition zero_entry :: member_entry where
  "zero_entry = \<lparr> e_pods = zero_counts, e_measured = False, e_failure = None \<rparr>"

type_synonym claim_map = "(workload_identity, member_key list) gomap"

record ledger =
  members :: "(member_key, member_entry) gomap"
  claims :: "(string, claim_map) gomap"

definition NewLedger :: ledger where
  "NewLedger = \<lparr> members = [], claims = [] \<rparr>"

section \<open>Errors\<close>

text \<open>The loop over a joined error stops at the first rejection; any other error is unwrapped.\<close>

fun rejected :: "go_error \<Rightarrow> bool" where
  "rejected (Sentinel s) = False"
| "rejected (Plain t) = False"
| "rejected (ApiStatus code) = (code \<ge> 400 \<and> code < 500 \<and> code \<noteq> 404 \<and> code \<noteq> 409 \<and> code \<noteq> 429)"
| "rejected (Wrap e) = rejected e"
| "rejected (Joined es) = list_ex rejected es"

definition permanentError :: "go_error \<Rightarrow> bool" where
  "permanentError e \<longleftrightarrow> errors_Is e ErrRefused \<or> rejected e"

section \<open>Recording\<close>

definition MayRun :: "time \<Rightarrow> ledger \<Rightarrow> member_key \<Rightarrow> bool" where
  "MayRun now l m =
     (case map_of (members l) m of
        None \<Rightarrow> True
      | Some e \<Rightarrow> (case e_failure e of None \<Rightarrow> True | Some f \<Rightarrow> f_permanent f \<or> \<not> now < f_due f))"

definition entryLocked :: "ledger \<Rightarrow> member_key \<Rightarrow> member_entry" where
  "entryLocked l m = lookup_or zero_entry (members l) m"

text \<open>How long the backoff holds a member after its \<open>n\<close>th consecutive transient failure.\<close>

definition retry_delay :: "int \<Rightarrow> duration" where
  "retry_delay n = min (BaseRetryDelay * 2 ^ nat (min (n - 1) 16)) MaxRetryDelay"

definition failLocked :: "time \<Rightarrow> ledger \<Rightarrow> pass_result \<Rightarrow> event option \<times> ledger" where
  "failLocked now l res =
     (let e = entryLocked l (res_Member res);
          prev = e_failure e;
          store = (\<lambda>f. l\<lparr>members := AList.update (res_Member res) (e\<lparr>e_failure := Some f\<rparr>) (members l)\<rparr>)
      in if permanentError (res_Err res)
         then (case prev of
                 Some p \<Rightarrow> if f_permanent p then None else Some (ReconciliationFailed (res_Step res) (res_Err res))
               | None \<Rightarrow> Some (ReconciliationFailed (res_Step res) (res_Err res)),
               store \<lparr> f_step = res_Step res, f_permanent = True, f_attempts = 0, f_due = 0 \<rparr>)
         else let n = 1 + (case prev of Some p \<Rightarrow> f_attempts p | None \<Rightarrow> 0);
                  due = now + retry_delay n
              in (Some (ReconciliationRetryScheduled (res_Step res) (res_Err res) n due),
                  store \<lparr> f_step = res_Step res, f_permanent = False, f_attempts = n, f_due = due \<rparr>))"

text \<open>The event a result calls for, whether it failed, and the ledger after it.\<close>

definition recordLocked :: "time \<Rightarrow> ledger \<Rightarrow> pass_result \<Rightarrow> event option \<times> bool \<times> ledger" where
  "recordLocked now l res =
     (if res_Kind res = Skipped then (None, False, l)
      else if res_Kind res = Failed then (let (ev, l') = failLocked now l res in (ev, True, l'))
      else let e = (entryLocked l (res_Member res))\<lparr>e_failure := None\<rparr>;
               e' = (case res_Kind res of
                       Done \<Rightarrow> e\<lparr>e_pods := res_Pods res, e_measured := True\<rparr>
                     | Idle \<Rightarrow> e\<lparr>e_measured := False\<rparr>
                     | _ \<Rightarrow> e)
           in (None, False,
               if \<not> e_measured e' then l\<lparr>members := AList.delete (res_Member res) (members l)\<rparr>
               else l\<lparr>members := AList.update (res_Member res) e' (members l)\<rparr>))"

section \<open>Claims and health\<close>

definition all_claimed :: "(string, claim_map) gomap \<Rightarrow> member_key list" where
  "all_claimed cs = concat (map (\<lambda>(_, ids). concat (map snd ids)) cs)"

text \<open>\<open>None\<close> is a nil map of claims.\<close>

definition claimLocked :: "ledger \<Rightarrow> string \<Rightarrow> claim_map option \<Rightarrow> ledger" where
  "claimLocked l policy cs =
     (let prev = lookup_or [] (claims l) policy;
          claims' = (case cs of None \<Rightarrow> AList.delete policy (claims l) | Some c \<Rightarrow> AList.update policy c (claims l));
          claimed = all_claimed claims'
      in l\<lparr>claims := claims',
           members := fold (\<lambda>m ms. if m \<in> set claimed then ms else AList.delete m ms) (concat (map snd prev)) (members l)\<rparr>)"

text \<open>The members every Policy claims for an identity, each once, by kind, namespace and name.\<close>

definition claimed_once :: "ledger \<Rightarrow> workload_identity \<Rightarrow> member_key list" where
  "claimed_once l i =
     fold (\<lambda>m out. if m \<in> set out then out else out @ [m]) (concat (map (\<lambda>(_, ids). lookup_or [] ids i) (claims l))) []"

definition claimedLocked :: "ledger \<Rightarrow> workload_identity \<Rightarrow> member_key list" where
  "claimedLocked l i = sort_key (\<lambda>m. [mk_Kind m, mk_Namespace m, mk_Name m]) (claimed_once l i)"

definition health_step :: "ledger \<Rightarrow> member_key \<Rightarrow> health \<Rightarrow> health" where
  "health_step l m h =
     (case map_of (members l) m of
        None \<Rightarrow> h
      | Some e \<Rightarrow>
          let h1 = (if e_measured e
                    then h\<lparr>h_Pods := \<lparr> pc_Total = pc_Total (h_Pods h) + pc_Total (e_pods e),
                                       pc_Stale = pc_Stale (h_Pods h) + pc_Stale (e_pods e) \<rparr>,
                           h_Measured := True\<rparr>
                    else h)
          in if h_BlockedOn h1 = None \<and> e_failure e \<noteq> None
             then h1\<lparr>h_BlockedOn := Some (f_step (the (e_failure e)))\<rparr> else h1)"

definition healthLocked :: "ledger \<Rightarrow> workload_identity \<Rightarrow> health" where
  "healthLocked l i = fold (health_step l) (claimedLocked l i) zero_health"

section \<open>Settling a pass\<close>

text \<open>The results of one identity: the events so far, its failures and the ledger.\<close>

fun settle_results ::
  "time \<Rightarrow> pass_result list \<Rightarrow> (member_key, event) gomap \<times> int \<times> ledger \<Rightarrow> (member_key, event) gomap \<times> int \<times> ledger" where
  "settle_results now [] st = st"
| "settle_results now (res # rs) (evs, n, l) =
     (let (ev, failed, l') = recordLocked now l res
      in settle_results now rs
           (if \<not> failed then (evs, n, l')
            else (case ev of Some x \<Rightarrow> AList.update (res_Member res) x evs | None \<Rightarrow> evs, n + 1, l')))"

fun settle_identities ::
  "time \<Rightarrow> (workload_identity \<times> pass_result list) list \<Rightarrow>
   (member_key, event) gomap \<times> (workload_identity, int) gomap \<times> claim_map \<times> ledger \<Rightarrow>
   (member_key, event) gomap \<times> (workload_identity, int) gomap \<times> claim_map \<times> ledger" where
  "settle_identities now [] st = st"
| "settle_identities now ((i, results) # rest) (evs, att, cs, l) =
     (let (evs', n, l') = settle_results now results (evs, 0, l)
      in settle_identities now rest
           (evs', if n = 0 then att else AList.update i n att, AList.update i (map res_Member results) cs, l'))"

definition Settle ::
  "time \<Rightarrow> ledger \<Rightarrow> string \<Rightarrow> (workload_identity, pass_result list) gomap \<Rightarrow> ledger_verdict \<times> ledger" where
  "Settle now l policy pass =
     (let (evs, att, cs, l1) = settle_identities now pass ([], [], [], l);
          l2 = claimLocked l1 policy (Some cs)
      in (\<lparr> v_Identities = map_by fst (\<lambda>(i, _). (healthLocked l2 i)\<lparr>h_Attempts := lookup_or 0 att i\<rparr>) pass,
            v_Events = evs \<rparr>, l2))"

definition Forget :: "ledger \<Rightarrow> string \<Rightarrow> ledger" where
  "Forget l policy = claimLocked l policy None"

section \<open>When the next pass runs\<close>

definition earliest_step :: "ledger \<Rightarrow> member_key \<Rightarrow> time \<Rightarrow> time" where
  "earliest_step l m earliest =
     (case map_of (members l) m of
        None \<Rightarrow> earliest
      | Some e \<Rightarrow> (case e_failure e of
                     None \<Rightarrow> earliest
                   | Some f \<Rightarrow> if f_permanent f then earliest
                               else if earliest = 0 \<or> f_due f < earliest then f_due f else earliest))"

definition requeueAfter :: "time \<Rightarrow> ledger \<Rightarrow> string \<Rightarrow> duration \<Rightarrow> duration \<Rightarrow> duration" where
  "requeueAfter now l policy interval floor' =
     (let earliest = fold (earliest_step l) (concat (map snd (lookup_or [] (claims l) policy))) 0
      in if earliest = 0 then interval else min interval (max (time_sub earliest now) floor'))"

definition RequeueAfter :: "time \<Rightarrow> ledger \<Rightarrow> string \<Rightarrow> duration \<Rightarrow> duration" where
  "RequeueAfter now l policy interval = requeueAfter now l policy interval second"

definition RequeueAfterListFailure :: "time \<Rightarrow> ledger \<Rightarrow> string \<Rightarrow> duration \<Rightarrow> duration" where
  "RequeueAfterListFailure now l policy interval = requeueAfter now l policy interval BaseRetryDelay"

end
