(* ===== verification/LedgerCorrect.thy ===== *)
theory LedgerCorrect
  imports Ledger
begin

text \<open>
  What \<open>internal/ledger\<close> promises: how long a failing member is held back, that the next pass runs when
  a retry falls due, that the ledger remembers no member nobody claims, and the health it reports.
\<close>

section \<open>Backoff\<close>

lemma retry_delay_spec:
  assumes "1 \<le> n"
  shows "retry_delay n = min (BaseRetryDelay * 2 ^ nat (n - 1)) MaxRetryDelay"
proof (cases "n - 1 \<le> 16")
  case True
  then show ?thesis by (simp add: retry_delay_def)
next
  case False
  then have "(2::int) ^ 16 \<le> 2 ^ nat (n - 1)" by (intro power_increasing) auto
  then have "MaxRetryDelay \<le> BaseRetryDelay * 2 ^ nat (n - 1)"
    by (simp add: BaseRetryDelay_def MaxRetryDelay_def)
  then show ?thesis using False by (simp add: retry_delay_def BaseRetryDelay_def MaxRetryDelay_def)
qed

lemma retry_delay_bounds: "1 \<le> n \<Longrightarrow> BaseRetryDelay \<le> retry_delay n \<and> retry_delay n \<le> MaxRetryDelay"
proof -
  assume n: "1 \<le> n"
  have "(1::int) \<le> 2 ^ nat (n - 1)" by simp
  then have "BaseRetryDelay * 1 \<le> BaseRetryDelay * 2 ^ nat (n - 1)"
    by (intro mult_left_mono) (auto simp: BaseRetryDelay_def)
  then show ?thesis using retry_delay_spec [OF n] by (simp add: BaseRetryDelay_def MaxRetryDelay_def)
qed

definition transient_failure :: "member_key \<Rightarrow> pass_result \<Rightarrow> bool" where
  "transient_failure m r \<longleftrightarrow> res_Member r = m \<and> res_Kind r = Failed \<and> \<not> permanentError (res_Err r)"

definition failure_of :: "ledger \<Rightarrow> member_key \<Rightarrow> member_failure option" where
  "failure_of l m = (case map_of (members l) m of None \<Rightarrow> None | Some e \<Rightarrow> e_failure e)"

definition record_all :: "(time \<times> pass_result) list \<Rightarrow> ledger \<Rightarrow> ledger" where
  "record_all rs l = fold (\<lambda>(t, r) l. snd (snd (recordLocked t l r))) rs l"

lemma failure_of_entry: "e_failure (entryLocked l m) = failure_of l m"
  by (simp add: entryLocked_def failure_of_def lookup_or_def zero_entry_def split: option.splits)

lemma record_transient:
  assumes "transient_failure m r"
  shows "failure_of (snd (snd (recordLocked t l r))) m =
    Some (let n = 1 + (case failure_of l m of Some p \<Rightarrow> f_attempts p | None \<Rightarrow> 0)
          in \<lparr> f_step = res_Step r, f_permanent = False, f_attempts = n, f_due = t + retry_delay n \<rparr>)"
  using assms failure_of_entry [of l m]
  by (simp add: transient_failure_def recordLocked_def failLocked_def Let_def failure_of_def split: option.splits)

text \<open>C14. A member that keeps failing transiently is held back exactly as long as promised: after any
  number of consecutive transient failures it may run again from 30 seconds after the last one, doubled
  for each failure before it and never more than five minutes, and not earlier. The shift the code caps
  at 16 never shows.\<close>

theorem backoff_doubles_up_to_cap:
  assumes "rs \<noteq> []" "\<forall>(t, r)\<in>set rs. transient_failure m r" "failure_of l m = None"
  shows "MayRun now (record_all rs l) m \<longleftrightarrow>
    fst (last rs) + min (30 * second * 2 ^ (length rs - 1)) (5 * minute) \<le> now"
proof -
  have run: "\<exists>f. failure_of (record_all rs l) m = Some f \<and> \<not> f_permanent f \<and> f_attempts f = int (length rs) \<and>
      f_due f = fst (last rs) + retry_delay (int (length rs))"
    using assms(1,2)
  proof (induction rs rule: rev_induct)
    case (snoc x rs)
    obtain t r where x: "x = (t, r)" by fastforce
    have step: "record_all (rs @ [(t, r)]) l = snd (snd (recordLocked t (record_all rs l) r))"
      by (simp add: record_all_def)
    have tr: "transient_failure m r" using snoc.prems x by simp
    have "(case failure_of (record_all rs l) m of Some p \<Rightarrow> f_attempts p | None \<Rightarrow> 0) = int (length rs)"
    proof (cases "rs = []")
      case True
      then show ?thesis using assms(3) by (simp add: record_all_def)
    next
      case False
      then show ?thesis using snoc by auto
    qed
    then show ?case using record_transient [OF tr, of t "record_all rs l"] by (simp add: step x Let_def)
  qed simp
  have "retry_delay (int (length rs)) = min (30 * second * 2 ^ (length rs - 1)) (5 * minute)"
    using retry_delay_spec [of "int (length rs)"] assms(1)
    by (cases rs) (simp_all add: BaseRetryDelay_def MaxRetryDelay_def)
  with run show ?thesis
    by (auto simp: MayRun_def failure_of_def not_less split: option.splits)
qed

theorem backoff_doubles_up_to_cap_witness:
  "let m = \<lparr> mk_Kind = ''Deployment'', mk_Namespace = ''shop'', mk_Name = ''web'' \<rparr>;
       r = \<lparr> res_Member = m, res_Kind = Failed, res_Pods = zero_counts, res_Step = StepPatch, res_Err = Wrap (ApiStatus 503) \<rparr>;
       l = record_all [(0, r), (40 * second, r), (110 * second, r)] NewLedger
   in \<not> MayRun (229 * second) l m \<and> MayRun (230 * second) l m"
proof -
  let ?m = "\<lparr> mk_Kind = ''Deployment'', mk_Namespace = ''shop'', mk_Name = ''web'' \<rparr>"
  let ?r = "\<lparr> res_Member = ?m, res_Kind = Failed, res_Pods = zero_counts, res_Step = StepPatch, res_Err = Wrap (ApiStatus 503) \<rparr>"
  have "transient_failure ?m ?r" "failure_of NewLedger ?m = None"
    by (simp_all add: transient_failure_def permanentError_def failure_of_def NewLedger_def)
  then show ?thesis
    using backoff_doubles_up_to_cap [of "[(0, ?r), (40 * second, ?r), (110 * second, ?r)]" ?m NewLedger]
    by (simp add: Let_def)
qed

section \<open>The next pass\<close>

definition retries :: "ledger \<Rightarrow> member_key \<Rightarrow> time \<Rightarrow> bool" where
  "retries l m due \<longleftrightarrow> (\<exists>f. failure_of l m = Some f \<and> \<not> f_permanent f \<and> f_due f = due)"

lemma earliest_step_cases:
  "earliest_step l m t =
     (case failure_of l m of
        None \<Rightarrow> t
      | Some f \<Rightarrow> if f_permanent f then t else if t = 0 \<or> f_due f < t then f_due f else t)"
  by (simp add: earliest_step_def failure_of_def split: option.splits)

lemma earliest_fold:
  assumes "\<And>m due. retries l m due \<Longrightarrow> 0 < due" "0 \<le> t"
  shows "(fold (earliest_step l) ms t = 0 \<longleftrightarrow> t = 0 \<and> (\<forall>m\<in>set ms. \<forall>due. \<not> retries l m due)) \<and>
    0 \<le> fold (earliest_step l) ms t \<and> (t \<noteq> 0 \<longrightarrow> fold (earliest_step l) ms t \<le> t) \<and>
    (\<forall>m\<in>set ms. \<forall>due. retries l m due \<longrightarrow> fold (earliest_step l) ms t \<le> due)"
  using assms(2)
proof (induction ms arbitrary: t)
  case Nil
  then show ?case by simp
next
  case (Cons m ms)
  have step: "(earliest_step l m t = 0 \<longleftrightarrow> t = 0 \<and> (\<forall>due. \<not> retries l m due)) \<and> 0 \<le> earliest_step l m t \<and>
      (t \<noteq> 0 \<longrightarrow> earliest_step l m t \<le> t) \<and> (\<forall>due. retries l m due \<longrightarrow> earliest_step l m t \<noteq> 0 \<and> earliest_step l m t \<le> due)"
  proof (cases "failure_of l m")
    case None
    then show ?thesis using Cons.prems by (simp add: earliest_step_cases retries_def)
  next
    case (Some f)
    have "\<not> f_permanent f \<Longrightarrow> 0 < f_due f" using assms(1) [of m "f_due f"] Some by (simp add: retries_def)
    then show ?thesis using Some Cons.prems by (simp add: earliest_step_cases retries_def) linarith
  qed
  from Cons.IH [of "earliest_step l m t"] step show ?case by (auto intro: order_trans)
qed



section \<open>What the ledger remembers\<close>

lemma record_members:
  "set (gkeys (members (snd (snd (recordLocked now l r))))) \<subseteq> insert (res_Member r) (set (gkeys (members l)))"
  by (auto simp: recordLocked_def failLocked_def Let_def keys_update keys_delete simp del: set_map split: prod.splits)

lemma record_claims: "claims (snd (snd (recordLocked now l r))) = claims l"
  by (auto simp: recordLocked_def failLocked_def Let_def split: prod.splits)

lemma settle_results_members:
  "settle_results now rs (evs, n, l) = (evs', n', l') \<Longrightarrow>
     set (gkeys (members l')) \<subseteq> set (gkeys (members l)) \<union> res_Member ` set rs \<and> claims l' = claims l"
proof (induction rs arbitrary: evs n l)
  case (Cons r rs)
  obtain ev failed l1 where r: "recordLocked now l r = (ev, failed, l1)" by (cases "recordLocked now l r") auto
  have "\<exists>evs1 n1. settle_results now rs (evs1, n1, l1) = (evs', n', l')"
    using Cons.prems r by (cases failed) (auto split: option.splits)
  then have "set (gkeys (members l')) \<subseteq> set (gkeys (members l1)) \<union> res_Member ` set rs" "claims l' = claims l1"
    using Cons.IH by blast+
  then show ?case using record_members [of now l r] record_claims [of now l r] r by auto
qed simp

lemma settle_identities_members:
  "settle_identities now pass (evs, att, cs, l) = (evs', att', cs', l') \<Longrightarrow> wf_map pass \<Longrightarrow>
   set (gkeys pass) \<inter> set (gkeys cs) = {} \<Longrightarrow>
     set (gkeys (members l')) \<subseteq> set (gkeys (members l)) \<union> set (concat (map snd cs')) \<and> claims l' = claims l \<and>
     set (concat (map snd cs)) \<subseteq> set (concat (map snd cs'))"
proof (induction pass arbitrary: evs att cs l)
  case (Cons x pass)
  obtain i rs where x: "x = (i, rs)" by fastforce
  obtain evs1 n l1 where r: "settle_results now rs (evs, 0, l) = (evs1, n, l1)"
    by (cases "settle_results now rs (evs, 0, l)") auto
  let ?cs = "AList.update i (map res_Member rs) cs"
  have fresh: "?cs = cs @ [(i, map res_Member rs)]"
    using Cons.prems(3) x by (induction cs) auto
  have "set (gkeys pass) \<inter> set (gkeys ?cs) = {}"
    using Cons.prems(2,3) x by (auto simp: fresh wf_map_def)
  then have disj: "set (gkeys pass) \<inter> set (gkeys ?cs) = {}" .
  obtain att1 where eq: "settle_identities now pass (evs1, att1, ?cs, l1) = (evs', att', cs', l')"
    using Cons.prems(1) x r by auto
  have wf: "wf_map pass" using Cons.prems(2) by (simp add: wf_map_def)
  note ih = Cons.IH [OF eq wf disj]
  then have "set (gkeys (members l')) \<subseteq> set (gkeys (members l1)) \<union> set (concat (map snd cs'))" "claims l' = claims l1"
    "set (concat (map snd ?cs)) \<subseteq> set (concat (map snd cs'))" by blast+
  moreover have "set (concat (map snd ?cs)) = set (concat (map snd cs)) \<union> res_Member ` set rs" by (simp add: fresh)
  ultimately show ?case using settle_results_members [OF r] by (simp del: set_map) blast
qed simp

definition claimed_anywhere :: "ledger \<Rightarrow> member_key set" where
  "claimed_anywhere l = set (all_claimed (claims l))"

definition ledger_ok :: "ledger \<Rightarrow> bool" where
  "ledger_ok l \<longleftrightarrow> wf_map (claims l) \<and> set (gkeys (members l)) \<subseteq> claimed_anywhere l"

lemma all_claimed_iff:
  "wf_map cs \<Longrightarrow> m \<in> set (all_claimed cs) \<longleftrightarrow> (\<exists>p ids. map_of cs p = Some ids \<and> m \<in> set (concat (map snd ids)))"
  by (force simp: all_claimed_def wf_map_mem)

lemma fold_forget:
  "set (gkeys (fold (\<lambda>m ms. if m \<in> A then ms else AList.delete m ms) xs ms)) = set (gkeys ms) - (set xs - A)"
  by (induction xs arbitrary: ms) (auto simp: keys_delete simp del: set_map)

lemma claim_ok:
  assumes "wf_map (claims l)"
    and "set (gkeys (members l)) \<subseteq> claimed_anywhere l \<union> (case cs of None \<Rightarrow> {} | Some c \<Rightarrow> set (concat (map snd c)))"
  shows "ledger_ok (claimLocked l policy cs)"
proof -
  let ?l' = "claimLocked l policy cs"
  have wf: "wf_map (claims ?l')" using assms(1) by (simp add: claimLocked_def Let_def split: option.splits)
  have look: "map_of (claims ?l') p = (if p = policy then cs else map_of (claims l) p)" for p
    by (simp add: claimLocked_def Let_def split: option.splits)
  have mem: "set (gkeys (members ?l')) =
      set (gkeys (members l)) - (set (concat (map snd (lookup_or [] (claims l) policy))) - claimed_anywhere ?l')"
    by (simp add: claimLocked_def Let_def fold_forget claimed_anywhere_def del: set_map)
  have "m \<in> claimed_anywhere ?l'" if m: "m \<in> set (gkeys (members ?l'))" for m
  proof (cases "m \<in> claimed_anywhere l")
    case True
    then obtain p ids where p: "map_of (claims l) p = Some ids" "m \<in> set (concat (map snd ids))"
      using all_claimed_iff [OF assms(1)] unfolding claimed_anywhere_def by blast
    show ?thesis
    proof (cases "p = policy")
      case True
      then have "m \<in> set (concat (map snd (lookup_or [] (claims l) policy)))" using p by (simp add: lookup_or_def)
      then show ?thesis using m mem by blast
    next
      case False
      then show ?thesis using p look [of p] all_claimed_iff [OF wf] unfolding claimed_anywhere_def by auto
    qed
  next
    case False
    have "m \<in> set (gkeys (members l))" using m mem by blast
    with False assms(2) have "m \<in> (case cs of None \<Rightarrow> {} | Some c \<Rightarrow> set (concat (map snd c)))" by blast
    then obtain c where c: "cs = Some c" "m \<in> set (concat (map snd c))" by (cases cs) auto
    then show ?thesis using look [of policy] all_claimed_iff [OF wf] unfolding claimed_anywhere_def by auto
  qed
  then show ?thesis using wf by (auto simp: ledger_ok_def)
qed

datatype ledger_op = OpSettle time string "(workload_identity, pass_result list) gomap" | OpForget string

fun ledger_apply :: "ledger_op \<Rightarrow> ledger \<Rightarrow> ledger" where
  "ledger_apply (OpSettle now policy pass) l = snd (Settle now l policy pass)"
| "ledger_apply (OpForget policy) l = Forget l policy"

fun op_wf :: "ledger_op \<Rightarrow> bool" where
  "op_wf (OpSettle now policy pass) = wf_map pass"
| "op_wf (OpForget policy) = True"

lemma ledger_ok_apply: "ledger_ok l \<Longrightarrow> op_wf x \<Longrightarrow> ledger_ok (ledger_apply x l)"
proof (cases x)
  case (OpSettle now policy pass)
  assume ok: "ledger_ok l" and wf: "op_wf x"
  obtain evs att cs l1 where si: "settle_identities now pass ([], [], [], l) = (evs, att, cs, l1)"
    by (cases "settle_identities now pass ([], [], [], l)") auto
  have "set (gkeys (members l1)) \<subseteq> set (gkeys (members l)) \<union> set (concat (map snd cs))" "claims l1 = claims l"
    using settle_identities_members [OF si] wf OpSettle by auto
  then have "ledger_ok (claimLocked l1 policy (Some cs))"
    using ok by (intro claim_ok) (auto simp: ledger_ok_def claimed_anywhere_def)
  then show ?thesis using si OpSettle by (simp add: Settle_def Let_def)
next
  case (OpForget policy)
  assume "ledger_ok l"
  then have "ledger_ok (claimLocked l policy None)"
    by (intro claim_ok) (use \<open>ledger_ok l\<close> in \<open>auto simp: ledger_ok_def\<close>)
  then show ?thesis using OpForget by (simp add: Forget_def)
qed

text \<open>The ledger forgets: after any passes and any deleted Policies, every member it still remembers is
  one some Policy claimed in its last pass.\<close>

theorem ledger_remembers_only_claimed:
  assumes "\<forall>x\<in>set ops. op_wf x"
    and "map_of (members (fold ledger_apply ops NewLedger)) m = Some e"
  shows "\<exists>policy ids i. map_of (claims (fold ledger_apply ops NewLedger)) policy = Some ids \<and>
    (\<exists>ms. (i, ms) \<in> set ids \<and> m \<in> set ms)"
proof -
  let ?l = "fold ledger_apply ops NewLedger"
  have "ledger_ok ?l"
    by (rule fold_invariant_set)
       (use assms(1) ledger_ok_apply in \<open>auto simp: ledger_ok_def NewLedger_def\<close>)
  then have "m \<in> set (all_claimed (claims ?l))" "wf_map (claims ?l)"
    using map_of_Some_key [OF assms(2)] by (auto simp: ledger_ok_def claimed_anywhere_def)
  then show ?thesis using all_claimed_iff by fastforce
qed

theorem ledger_remembers_only_claimed_witness:
  "let m = \<lparr> mk_Kind = ''Deployment'', mk_Namespace = ''shop'', mk_Name = ''web'' \<rparr>;
       i = \<lparr> id_Namespace = ''shop'', OwnerKind = ''Deployment'', OwnerName = ''web'' \<rparr>;
       r = \<lparr> res_Member = m, res_Kind = Done, res_Pods = \<lparr> pc_Total = 3, pc_Stale = 1 \<rparr>, res_Step = StepPatch, res_Err = Plain [] \<rparr>;
       ops = [OpSettle 1 ''old'' [(i, [r])], OpSettle 2 ''new'' [(i, [r])], OpForget ''old'']
   in \<exists>policy ids i. map_of (claims (fold ledger_apply ops NewLedger)) policy = Some ids \<and> (\<exists>ms. (i, ms) \<in> set ids \<and> m \<in> set ms)"
proof -
  let ?m = "\<lparr> mk_Kind = ''Deployment'', mk_Namespace = ''shop'', mk_Name = ''web'' \<rparr>"
  let ?i = "\<lparr> id_Namespace = ''shop'', OwnerKind = ''Deployment'', OwnerName = ''web'' \<rparr>"
  let ?r = "\<lparr> res_Member = ?m, res_Kind = Done, res_Pods = \<lparr> pc_Total = 3, pc_Stale = 1 \<rparr>, res_Step = StepPatch, res_Err = Plain [] \<rparr>"
  let ?ops = "[OpSettle 1 ''old'' [(?i, [?r])], OpSettle 2 ''new'' [(?i, [?r])], OpForget ''old'']"
  have "\<forall>x\<in>set ?ops. op_wf x" by (simp add: wf_map_def)
  moreover have "\<exists>e. map_of (members (fold ledger_apply ?ops NewLedger)) ?m = Some e"
    by (simp add: Settle_def Forget_def claimLocked_def recordLocked_def entryLocked_def Let_def NewLedger_def
      lookup_or_def zero_entry_def all_claimed_def)
  ultimately show ?thesis using ledger_remembers_only_claimed [of ?ops ?m] unfolding Let_def by blast
qed

section \<open>Health\<close>

lemma fold_once: "set (fold (\<lambda>m out. if m \<in> set out then out else out @ [m]) xs out) = set out \<union> set xs \<and>
    (distinct out \<longrightarrow> distinct (fold (\<lambda>m out. if m \<in> set out then out else out @ [m]) xs out))"
  by (induction xs arbitrary: out) auto

lemma claimedLocked_spec:
  "distinct (claimedLocked l i) \<and> set (claimedLocked l i) = (\<Union>(p, ids)\<in>set (claims l). set (lookup_or [] ids i))"
  using fold_once [of "concat (map (\<lambda>(_, ids). lookup_or [] ids i) (claims l))" "[]"]
  by (auto simp: claimedLocked_def claimed_once_def)

definition counts_of :: "ledger \<Rightarrow> member_key \<Rightarrow> pod_counts" where
  "counts_of l m = (case map_of (members l) m of Some e \<Rightarrow> if e_measured e then e_pods e else zero_counts | None \<Rightarrow> zero_counts)"

lemma health_fold:
  "let h' = fold (health_step l) ms h in
     pc_Total (h_Pods h') = pc_Total (h_Pods h) + (\<Sum>m\<leftarrow>ms. pc_Total (counts_of l m)) \<and>
     pc_Stale (h_Pods h') = pc_Stale (h_Pods h) + (\<Sum>m\<leftarrow>ms. pc_Stale (counts_of l m)) \<and>
     (h_BlockedOn h' \<noteq> None \<longleftrightarrow> h_BlockedOn h \<noteq> None \<or> (\<exists>m\<in>set ms. failure_of l m \<noteq> None))"
proof (induction ms arbitrary: h)
  case (Cons m ms)
  have "pc_Total (h_Pods (health_step l m h)) = pc_Total (h_Pods h) + pc_Total (counts_of l m)"
    "pc_Stale (h_Pods (health_step l m h)) = pc_Stale (h_Pods h) + pc_Stale (counts_of l m)"
    "h_BlockedOn (health_step l m h) \<noteq> None \<longleftrightarrow> h_BlockedOn h \<noteq> None \<or> failure_of l m \<noteq> None"
    by (auto simp: health_step_def counts_of_def failure_of_def zero_counts_def Let_def split: option.splits)
  with Cons.IH [of "health_step l m h"] show ?case by (auto simp: Let_def)
qed simp

text \<open>The health of an identity is that of its members, each counted once however many Policies claim
  it: its pods are the sums of its members' last counts, and it is Blocked exactly when a member some
  Policy claims for it has a failure standing.\<close>

theorem health_sums_members_once:
  "let h = healthLocked l i; ms = claimedLocked l i in
     distinct ms \<and> (\<forall>m. m \<in> set ms \<longleftrightarrow> (\<exists>p ids. (p, ids) \<in> set (claims l) \<and> m \<in> set (lookup_or [] ids i))) \<and>
     pc_Total (h_Pods h) = (\<Sum>m\<leftarrow>ms. pc_Total (counts_of l m)) \<and>
     pc_Stale (h_Pods h) = (\<Sum>m\<leftarrow>ms. pc_Stale (counts_of l m)) \<and>
     (health_Blocked h \<longleftrightarrow> (\<exists>m\<in>set ms. failure_of l m \<noteq> None))"
  using claimedLocked_spec [of l i] health_fold [of l "claimedLocked l i" zero_health]
  by (auto simp: Let_def healthLocked_def health_Blocked_def zero_health_def zero_counts_def)

end
