(* ===== verification/Patcher.thy ===== *)
theory Patcher
  imports Inject Errors
begin

text \<open>
  Driving running pods to a Recommendation (\<open>internal/workload/patcher.go\<close>): the resize in place, the
  eviction with its gate, the wait for a replacement, and the two loops over a member's pods.

  The Kubernetes client, the clock and the context are the record \<open>pod_client\<close> over a state \<open>'st\<close>, what
  they and the cluster behind them remember. A pod is a value: a function that writes to the pod its
  argument points to gives the pod back, and a \<open>Patch\<close> that succeeds gives the pod the response holds.
  The wait polls until the cluster is quiet, so it may not return: it is \<open>None\<close> then, and so is the
  loop that calls it. Log lines are left out.
\<close>

text \<open>\<open>cl_Resize pod base\<close> is the patch of the resize subresource with the difference of the two, \<open>cl_Wait\<close>
  the select on the context and a timer: the context's error, if it came first. The three predicates are
  those of \<open>apierrors\<close>.\<close>

record ('q, 'sel, 'st) pod_client =
  cl_ListPods :: "string \<Rightarrow> 'sel \<Rightarrow> 'st \<Rightarrow> (go_error + 'q pod list) \<times> 'st"
  cl_Resize :: "'q pod \<Rightarrow> 'q pod \<Rightarrow> 'st \<Rightarrow> (go_error + 'q pod) \<times> 'st"
  cl_Evict :: "'q pod \<Rightarrow> 'st \<Rightarrow> go_error option \<times> 'st"
  cl_Now :: "'st \<Rightarrow> time \<times> 'st"
  cl_CtxErr :: "'st \<Rightarrow> go_error option \<times> 'st"
  cl_Wait :: "duration \<Rightarrow> 'st \<Rightarrow> go_error option \<times> 'st"
  cl_IsNotFound :: "go_error \<Rightarrow> bool"
  cl_IsInvalid :: "go_error \<Rightarrow> bool"
  cl_IsTooManyRequests :: "go_error \<Rightarrow> bool"

record patcher =
  pt_inPlace :: bool
  pt_readyPollInterval :: duration
  pt_readyTimeout :: duration

datatype patcher_option = WithReadyPollInterval duration | WithReadyTimeout duration

fun apply_option :: "patcher_option \<Rightarrow> patcher \<Rightarrow> patcher" where
  "apply_option (WithReadyPollInterval d) p = (if d > 0 then p\<lparr>pt_readyPollInterval := d\<rparr> else p)"
| "apply_option (WithReadyTimeout d) p = (if d > 0 then p\<lparr>pt_readyTimeout := d\<rparr> else p)"

definition NewPatcher :: "bool \<Rightarrow> patcher_option list \<Rightarrow> patcher" where
  "NewPatcher inPlace opts =
     fold apply_option opts
       \<lparr> pt_inPlace = inPlace, pt_readyPollInterval = 2 * second, pt_readyTimeout = 5 * minute \<rparr>"

section \<open>Reading a pod\<close>

definition countable_pod :: "'q pod \<Rightarrow> bool" where
  "countable_pod pod \<longleftrightarrow> \<not> pod_Deleting pod \<and> pod_Phase pod \<noteq> ''Succeeded'' \<and> pod_Phase pod \<noteq> ''Failed''"

definition count_step ::
  "'q env \<Rightarrow> 'q recs \<Rightarrow> 'q tolerance \<Rightarrow> string list \<Rightarrow> 'q pod \<Rightarrow> pod_counts \<Rightarrow> pod_counts" where
  "count_step E recs tol fixed pod n =
     (if \<not> countable_pod pod then n
      else \<lparr> pc_Total = pc_Total n + 1,
             pc_Stale = (if pod_UID pod \<notin> set fixed \<and> stale (planFor E pod recs tol)
                         then pc_Stale n + 1 else pc_Stale n) \<rparr>)"

definition countPods :: "'q env \<Rightarrow> 'q pod list \<Rightarrow> 'q recs \<Rightarrow> 'q tolerance \<Rightarrow> string list \<Rightarrow> pod_counts" where
  "countPods E pods recs tol fixed = fold (count_step E recs tol fixed) pods \<lparr> pc_Total = 0, pc_Stale = 0 \<rparr>"

text \<open>A pending verdict is returned at once; an error of a resize in progress only if none follows.\<close>

fun pending_loop :: "pod_condition list \<Rightarrow> bool \<Rightarrow> string" where
  "pending_loop [] errored = (if errored then ''Error'' else [])"
| "pending_loop (c # cs) errored =
     (if pc_Type c = ''PodResizePending'' \<and> pc_Status c = ''True'' then pc_Reason c
      else pending_loop cs
             (errored \<or> (pc_Type c = ''PodResizeInProgress'' \<and> pc_Status c = ''True'' \<and> pc_Reason c = ''Error'')))"

definition resizePendingReason :: "'q pod \<Rightarrow> string" where
  "resizePendingReason pod = pending_loop (pod_Conditions pod) False"

definition isPodReady :: "'q pod \<Rightarrow> bool" where
  "isPodReady pod \<longleftrightarrow> pod_Phase pod = ''Running'' \<and>
     list_ex (\<lambda>c. pc_Type c = ''Ready'' \<and> pc_Status c = ''True'') (pod_Conditions pod)"

definition isProgressing :: "'q pod \<Rightarrow> bool" where
  "isProgressing pod =
     (if pod_Deleting pod then False
      else if pod_Phase pod = ''Succeeded'' \<or> pod_Phase pod = ''Failed'' then False
      else if pod_Phase pod = ''Pending'' then True
      else \<not> isPodReady pod)"

definition containersCrashing :: "'q container_status list \<Rightarrow> bool" where
  "containersCrashing cs = list_ex (\<lambda>c. cs_Waiting c = Some ''CrashLoopBackOff'') cs"

definition hasCrashLoopBackOff :: "'q pod \<Rightarrow> bool" where
  "hasCrashLoopBackOff pod \<longleftrightarrow> containersCrashing (pod_ContainerStatuses pod) \<or>
     containersCrashing (pod_InitContainerStatuses pod) \<or> containersCrashing (pod_EphemeralContainerStatuses pod)"

definition enactedResources :: "'q pod \<Rightarrow> (string, 'q resource_requirements) gomap" where
  "enactedResources pod =
     fold (\<lambda>s out. case cs_Resources s of Some r \<Rightarrow> AList.update (cs_Name s) r out | None \<Rightarrow> out)
       (pod_ContainerStatuses pod @ pod_InitContainerStatuses pod) []"

definition withEnacted :: "(string, 'q resource_requirements) gomap \<Rightarrow> 'q container list \<Rightarrow> 'q container list" where
  "withEnacted enacted cs =
     map (\<lambda>c. case map_of enacted (c_Name c) of Some r \<Rightarrow> c\<lparr>c_Resources := r\<rparr> | None \<Rightarrow> c) cs"

definition running :: "'q pod \<Rightarrow> 'q container list \<times> 'q container list" where
  "running pod =
     (let enacted = enactedResources pod
      in (withEnacted enacted (pod_Containers pod), withEnacted enacted (pod_InitContainers pod)))"

definition staged :: "'q env \<Rightarrow> (string, 'q resource_requirements) gomap \<Rightarrow> 'q container \<Rightarrow> bool" where
  "staged E enacted c =
     (case map_of enacted (c_Name c) of None \<Rightarrow> True | Some r \<Rightarrow> \<not> requestsEqual E (c_Resources c) r)"

definition stagedRequests :: "'q env \<Rightarrow> 'q pod \<Rightarrow> bool" where
  "stagedRequests E pod =
     (let enacted = enactedResources pod
      in list_ex (staged E enacted) (pod_Containers pod) \<or>
         list_ex (\<lambda>c. isRestartableInitContainer c \<and> staged E enacted c) (pod_InitContainers pod))"

section \<open>The sort\<close>

text \<open>\<open>slices.SortStableFunc\<close> as an insertion sort from the left, what the library runs on up to 20
  elements; on more it merges, with the same result for any comparison that orders.\<close>

fun insert_left :: "('a \<Rightarrow> 'a \<Rightarrow> int) \<Rightarrow> 'a \<Rightarrow> 'a list \<Rightarrow> 'a list" where
  "insert_left c x [] = [x]"
| "insert_left c x (y # ys) = (if c x y < 0 then y # insert_left c x ys else x # y # ys)"

definition SortStableFunc :: "('a \<Rightarrow> 'a \<Rightarrow> int) \<Rightarrow> 'a list \<Rightarrow> 'a list" where
  "SortStableFunc c xs = rev (fold (insert_left c) xs [])"

definition Compare :: "'a::linorder \<Rightarrow> 'a \<Rightarrow> int" where
  "Compare a b = (if a < b then -1 else if b < a then 1 else 0)"

definition digit :: "char \<Rightarrow> int option" where
  "digit c = (let n = of_char c :: int in if 48 \<le> n \<and> n \<le> 57 then Some (n - 48) else None)"

fun digits :: "string \<Rightarrow> int \<Rightarrow> int option" where
  "digits [] n = Some n"
| "digits (c # cs) n = (case digit c of None \<Rightarrow> None | Some d \<Rightarrow> digits cs (10 * n + d))"

text \<open>\<open>strconv.Atoi\<close>: an optional sign, at least one digit, within 64 bits.\<close>

definition Atoi :: "string \<Rightarrow> int option" where
  "Atoi s =
     (let neg = (case s of c # _ \<Rightarrow> c = CHR ''-'' | [] \<Rightarrow> False);
          body = (case s of c # cs \<Rightarrow> if c = CHR ''-'' \<or> c = CHR ''+'' then cs else s | [] \<Rightarrow> [])
      in if body = [] then None
         else case digits body 0 of
           None \<Rightarrow> None
         | Some n \<Rightarrow> let v = (if neg then - n else n) in if in_int64 v then Some v else None)"

text \<open>The text after the last dash, none when there is no dash.\<close>

definition after_last_dash :: "string \<Rightarrow> string option" where
  "after_last_dash s =
     (if CHR ''-'' \<in> set s then Some (rev (takeWhile (\<lambda>c. c \<noteq> CHR ''-'') (rev s))) else None)"

definition podOrdinal :: "'q pod \<Rightarrow> int option" where
  "podOrdinal pod =
     (case after_last_dash (pod_Name pod) of
        None \<Rightarrow> None
      | Some suffix \<Rightarrow> if suffix = [] then None else Atoi suffix)"

definition IsOwnedBy :: "owner_reference list \<Rightarrow> string \<Rightarrow> bool" where
  "IsOwnedBy refs uid = list_ex (\<lambda>r. ref_Controller r = Some True \<and> ref_UID r = uid) refs"

definition IsOwnedByKind :: "owner_reference list \<Rightarrow> string \<Rightarrow> bool" where
  "IsOwnedByKind refs kind = list_ex (\<lambda>r. ref_Controller r = Some True \<and> ref_Kind r = kind) refs"

definition anyOwnedByStatefulSet :: "'q pod list \<Rightarrow> bool" where
  "anyOwnedByStatefulSet pods = list_ex (\<lambda>p. IsOwnedByKind (pod_OwnerReferences p) ''StatefulSet'') pods"

definition by_ordinal :: "'q pod \<Rightarrow> 'q pod \<Rightarrow> int" where
  "by_ordinal a b =
     (case (podOrdinal a, podOrdinal b) of
        (Some oa, Some ob) \<Rightarrow> Compare ob oa
      | _ \<Rightarrow> Compare (pod_Name b) (pod_Name a))"

definition sortPodsForRecycle :: "'q pod list \<Rightarrow> 'q pod list" where
  "sortPodsForRecycle pods =
     (if anyOwnedByStatefulSet pods then SortStableFunc by_ordinal pods
      else SortStableFunc (\<lambda>a b. Compare (pod_Name a) (pod_Name b)) pods)"

section \<open>Results\<close>

datatype apply_result_kind = ResultDone | ResultIdle | ResultCountedOnly | ResultFailed

record apply_result =
  ar_Kind :: apply_result_kind
  ar_Step :: "apply_step option"
  ar_Err :: "go_error option"
  ar_Pods :: pod_counts
  ar_Counted :: bool
  ar_Resized :: "string list"
  ar_Evicted :: "string list"
  ar_Containers :: "string list"
  ar_Suppressed :: "(string, int) gomap"

definition zero_result :: apply_result where
  "zero_result =
     \<lparr> ar_Kind = ResultDone, ar_Step = None, ar_Err = None, ar_Pods = \<lparr> pc_Total = 0, pc_Stale = 0 \<rparr>,
       ar_Counted = False, ar_Resized = [], ar_Evicted = [], ar_Containers = [], ar_Suppressed = [] \<rparr>"

definition Changed :: "apply_result \<Rightarrow> nat" where
  "Changed r = length (ar_Resized r) + length (ar_Evicted r)"

definition countSuppressed :: "string \<Rightarrow> apply_result \<Rightarrow> apply_result" where
  "countSuppressed rn r =
     r\<lparr>ar_Suppressed := AList.update rn (lookup_or 0 (ar_Suppressed r) rn + 1) (ar_Suppressed r)\<rparr>"

text \<open>The two maps used as sets are lists of their keys.\<close>

record pass_changes =
  ch_res :: apply_result
  ch_fixed :: "string list"
  ch_containers :: "string list"

definition newChanges :: pass_changes where
  "newChanges = \<lparr> ch_res = zero_result, ch_fixed = [], ch_containers = [] \<rparr>"

definition changes_resized :: "'q pod \<Rightarrow> string list \<Rightarrow> pass_changes \<Rightarrow> pass_changes" where
  "changes_resized pod containers c =
     c\<lparr>ch_res := (ch_res c)\<lparr>ar_Resized := ar_Resized (ch_res c) @ [pod_Name pod]\<rparr>,
       ch_fixed := List.insert (pod_UID pod) (ch_fixed c),
       ch_containers := fold List.insert containers (ch_containers c)\<rparr>"

definition changes_evicted :: "'q env \<Rightarrow> 'q pod \<Rightarrow> 'q recs \<Rightarrow> pass_changes \<Rightarrow> pass_changes" where
  "changes_evicted E pod recs c =
     (let (containers, initContainers) = running pod
      in c\<lparr>ch_res := (ch_res c)\<lparr>ar_Evicted := ar_Evicted (ch_res c) @ [pod_Name pod]\<rparr>,
           ch_fixed := List.insert (pod_UID pod) (ch_fixed c),
           ch_containers :=
             fold List.insert (map cw_Name (inj_Writes (Inject E containers initContainers False recs))) (ch_containers c)\<rparr>)"

definition changes_suppressed :: "string list \<Rightarrow> pass_changes \<Rightarrow> pass_changes" where
  "changes_suppressed rns c = c\<lparr>ch_res := fold countSuppressed rns (ch_res c)\<rparr>"

definition changes_result ::
  "'q env \<Rightarrow> pass_changes \<Rightarrow> 'q pod list \<Rightarrow> 'q recs \<Rightarrow> 'q tolerance \<Rightarrow> go_error option \<Rightarrow>
   apply_result \<times> go_error option" where
  "changes_result E c pods recs tol err =
     (let r = (ch_res c)\<lparr>ar_Containers := sort (ch_containers c)\<rparr>
      in (if err = None then r\<lparr>ar_Pods := countPods E pods recs tol (ch_fixed c), ar_Counted := True\<rparr> else r, err))"

section \<open>Resizing in place\<close>

record 'q pod_resize =
  rz_containers :: "'q container list"
  rz_initContainers :: "'q container list"
  rz_regular :: "string list"
  rz_sidecars :: "string list"

definition resize_write :: "'q container_write \<Rightarrow> 'q pod_resize \<Rightarrow> 'q pod_resize" where
  "resize_write w r =
     (let i = cw_Index w
      in if \<not> cw_Init w
         then r\<lparr>rz_containers := (rz_containers r)[i := (rz_containers r ! i)\<lparr>c_Resources := cw_Resources w\<rparr>],
                rz_regular := rz_regular r @ [cw_Name w]\<rparr>
         else if isRestartableInitContainer (rz_initContainers r ! i)
         then r\<lparr>rz_initContainers := (rz_initContainers r)[i := (rz_initContainers r ! i)\<lparr>c_Resources := cw_Resources w\<rparr>],
                rz_sidecars := rz_sidecars r @ [cw_Name w]\<rparr>
         else r)"

definition resized :: "'q env \<Rightarrow> 'q pod \<Rightarrow> 'q recs \<Rightarrow> 'q pod_resize" where
  "resized E pod recs =
     fold resize_write (inj_Writes (Inject E (pod_Containers pod) (pod_InitContainers pod) False recs))
       \<lparr> rz_containers = pod_Containers pod, rz_initContainers = pod_InitContainers pod,
         rz_regular = [], rz_sidecars = [] \<rparr>"

datatype resize_answer = ResizeAccepted | ResizeInvalid | ResizeGone | ResizeFailed go_error

definition revertStagedResize :: "'q pod \<Rightarrow> 'q pod \<Rightarrow> 'q pod" where
  "revertStagedResize pod base =
     pod\<lparr>pod_Containers := pod_Containers base, pod_InitContainers := pod_InitContainers base\<rparr>"

definition submitInPlaceResize ::
  "('q, 'sel, 'st) pod_client \<Rightarrow> 'q pod \<Rightarrow> 'q pod \<Rightarrow> 'st \<Rightarrow> resize_answer \<times> 'q pod \<times> 'st" where
  "submitInPlaceResize cl pod base st =
     (case cl_Resize cl pod base st of
        (Inr pod', st') \<Rightarrow> (ResizeAccepted, pod', st')
      | (Inl err, st') \<Rightarrow>
          if cl_IsInvalid cl err then (ResizeInvalid, revertStagedResize pod base, st')
          else if cl_IsNotFound cl err then (ResizeGone, pod, st')
          else (ResizeFailed err, pod, st'))"

definition applySidecarResize ::
  "('q, 'sel, 'st) pod_client \<Rightarrow> 'q pod \<Rightarrow> 'q pod \<Rightarrow> 'q container list \<Rightarrow> 'st \<Rightarrow> bool \<times> 'q pod \<times> 'st" where
  "applySidecarResize cl pod base initContainers st =
     (let sidecarBase = pod\<lparr>pod_InitContainers := pod_InitContainers base\<rparr>;
          pod1 = pod\<lparr>pod_InitContainers := initContainers\<rparr>
      in case cl_Resize cl pod1 sidecarBase st of
           (Inl err, st') \<Rightarrow> (False, pod1\<lparr>pod_InitContainers := pod_InitContainers base\<rparr>, st')
         | (Inr pod', st') \<Rightarrow> (True, pod', st'))"

text \<open>\<open>unapplyStrategy\<close>: each hook gives whether it evicted the pod, and its error.\<close>

record ('q, 'st) unapply_strategy =
  onUnsatisfiable :: "'q pod \<Rightarrow> string \<Rightarrow> 'st \<Rightarrow> (bool \<times> go_error option) \<times> 'st"
  onUnapplied :: "'q pod \<Rightarrow> 'st \<Rightarrow> (bool \<times> go_error option) \<times> 'st"

text \<open>What a resize gives: the containers it changed, whether the pod was evicted, the error, the pod.\<close>

type_synonym 'q resize_outcome = "string list \<times> bool \<times> go_error option \<times> 'q pod"

definition resizePodInPlaceWith ::
  "'q env \<Rightarrow> ('q, 'sel, 'st) pod_client \<Rightarrow> ('q, 'st) unapply_strategy \<Rightarrow> 'q pod \<Rightarrow> 'q recs \<Rightarrow> 'st \<Rightarrow>
   'q resize_outcome \<times> 'st" where
  "resizePodInPlaceWith E cl strat pod recs st =
     (let base = pod; r = resized E pod recs;
          sidecars = (\<lambda>written pod1 st1.
            if rz_sidecars r \<noteq> [] then
              (case applySidecarResize cl pod1 base (rz_initContainers r) st1 of
                 (ok, pod2, st2) \<Rightarrow> ((if ok then written @ rz_sidecars r else written, False, None, pod2), st2))
            else ((written, False, None, pod1), st1))
      in if rz_regular r = [] \<and> rz_sidecars r = [] then
           (let verdict = resizePendingReason pod
            in if verdict = ''Infeasible'' \<or> verdict = ''Error''
               then (case onUnsatisfiable strat pod verdict st of ((evicted, err), st') \<Rightarrow> (([], evicted, err, pod), st'))
               else (([], False, None, pod), st))
         else if rz_regular r \<noteq> [] then
           (case submitInPlaceResize cl (pod\<lparr>pod_Containers := rz_containers r\<rparr>) base st of
              (ResizeFailed err, pod1, st1) \<Rightarrow> (([], False, Some err, pod1), st1)
            | (ResizeGone, pod1, st1) \<Rightarrow> (([], False, None, pod1), st1)
            | (ResizeInvalid, pod1, st1) \<Rightarrow>
                (case onUnapplied strat pod1 st1 of ((evicted, err), st2) \<Rightarrow> (([], evicted, err, pod1), st2))
            | (ResizeAccepted, pod1, st1) \<Rightarrow> sidecars (rz_regular r) pod1 st1)
         else sidecars [] pod st)"

definition never_evict :: "('q, 'st) unapply_strategy" where
  "never_evict = \<lparr> onUnsatisfiable = \<lambda>_ _ st. ((False, None), st), onUnapplied = \<lambda>_ st. ((False, None), st) \<rparr>"

definition resizePodInPlaceNoEvict ::
  "'q env \<Rightarrow> ('q, 'sel, 'st) pod_client \<Rightarrow> 'q pod \<Rightarrow> 'q recs \<Rightarrow> 'st \<Rightarrow> 'q resize_outcome \<times> 'st" where
  "resizePodInPlaceNoEvict E cl pod recs st = resizePodInPlaceWith E cl never_evict pod recs st"

section \<open>Evicting\<close>

record eviction_gate =
  eg_ignoreSafeToEvict :: bool
  eg_halted :: "go_error option"

abbreviation SafeToEvictAnnotation :: string where
  "SafeToEvictAnnotation \<equiv> ''cluster-autoscaler.kubernetes.io/safe-to-evict''"

definition submitEviction ::
  "('q, 'sel, 'st) pod_client \<Rightarrow> eviction_gate \<Rightarrow> 'q pod \<Rightarrow> 'st \<Rightarrow> (bool \<times> go_error option) \<times> 'st" where
  "submitEviction cl gate pod st =
     (if \<not> eg_ignoreSafeToEvict gate \<and> lookup_or [] (pod_Annotations pod) SafeToEvictAnnotation = ''false''
      then ((False, None), st)
      else case eg_halted gate of
        Some err \<Rightarrow> ((False, Some err), st)
      | None \<Rightarrow>
          (case cl_Evict cl pod st of
             (None, st') \<Rightarrow> ((True, None), st')
           | (Some err, st') \<Rightarrow>
               if cl_IsNotFound cl err then ((False, None), st')
               else if cl_IsTooManyRequests cl err then ((False, None), st')
               else ((False, Some err), st')))"

definition evict_instead ::
  "'q env \<Rightarrow> ('q, 'sel, 'st) pod_client \<Rightarrow> eviction_gate \<Rightarrow> ('q, 'st) unapply_strategy" where
  "evict_instead E cl gate =
     \<lparr> onUnsatisfiable = \<lambda>pod verdict st.
         if \<not> stagedRequests E pod then ((False, None), st) else submitEviction cl gate pod st,
       onUnapplied = \<lambda>pod st. submitEviction cl gate pod st \<rparr>"

definition patchPodInPlace ::
  "'q env \<Rightarrow> ('q, 'sel, 'st) pod_client \<Rightarrow> eviction_gate \<Rightarrow> 'q pod \<Rightarrow> 'q recs \<Rightarrow> 'st \<Rightarrow> 'q resize_outcome \<times> 'st" where
  "patchPodInPlace E cl gate pod recs st = resizePodInPlaceWith E cl (evict_instead E cl gate) pod recs st"

definition errCrashLoopBackOff :: go_error where
  "errCrashLoopBackOff = Sentinel ErrCrashLoopBackOff"

definition updatedPodCrashLooping :: "'q env \<Rightarrow> 'q pod list \<Rightarrow> 'q recs \<Rightarrow> 'q tolerance \<Rightarrow> go_error option" where
  "updatedPodCrashLooping E pods recs tol =
     (if list_ex (\<lambda>pod. countable_pod pod \<and> hasCrashLoopBackOff pod \<and> \<not> stale (planFor E pod recs tol)) pods
      then Some (Wrap errCrashLoopBackOff) else None)"

section \<open>Waiting for the replacement\<close>

text \<open>One look at the selector's pods: the error of a crash loop, or whether the evicted pod is gone and how
  many pods are on their way.\<close>

fun wait_scan :: "string \<Rightarrow> string \<Rightarrow> 'q pod list \<Rightarrow> bool \<times> int \<Rightarrow> go_error + bool \<times> int" where
  "wait_scan name uid [] (gone, pending) = Inr (gone, pending)"
| "wait_scan name uid (pod # pods) (gone, pending) =
     (if hasCrashLoopBackOff pod then Inl (Wrap errCrashLoopBackOff)
      else if pod_UID pod = uid \<and> uid \<noteq> [] then wait_scan name uid pods (False, pending)
      else if uid = [] \<and> pod_Name pod = name then wait_scan name uid pods (False, pending)
      else wait_scan name uid pods (gone, if isProgressing pod then pending + 1 else pending))"

partial_function (option) wait_loop ::
  "patcher \<Rightarrow> ('q, 'sel, 'st) pod_client \<Rightarrow> string \<Rightarrow> 'sel \<Rightarrow> string \<Rightarrow> string \<Rightarrow> time \<Rightarrow> 'st \<Rightarrow>
   (go_error option \<times> 'st) option" where
  "wait_loop p cl namespace selector name uid deadline st =
     (case cl_ListPods cl namespace selector st of
        (Inl err, st1) \<Rightarrow> Some (Some (Wrap err), st1)
      | (Inr pods, st1) \<Rightarrow>
          (case wait_scan name uid pods (True, 0) of
             Inl err \<Rightarrow> Some (Some err, st1)
           | Inr (gone, pending) \<Rightarrow>
               if gone \<and> pending = 0 then Some (None, st1)
               else (case cl_Now cl st1 of
                       (now, st2) \<Rightarrow>
                         if deadline < now then Some (Some (Plain ''timed out''), st2)
                         else (case cl_Wait cl (pt_readyPollInterval p) st2 of
                                 (Some err, st3) \<Rightarrow> Some (Some err, st3)
                               | (None, st3) \<Rightarrow> wait_loop p cl namespace selector name uid deadline st3))))"

definition waitForReplacement ::
  "patcher \<Rightarrow> ('q, 'sel, 'st) pod_client \<Rightarrow> string \<Rightarrow> 'sel \<Rightarrow> string \<Rightarrow> string \<Rightarrow> 'st \<Rightarrow> (go_error option \<times> 'st) option" where
  "waitForReplacement p cl namespace selector name uid st =
     (case cl_Now cl st of (now, st1) \<Rightarrow> wait_loop p cl namespace selector name uid (now + pt_readyTimeout p) st1)"

section \<open>The two loops\<close>

datatype recommend_only = RecommendOnlyFlag | RecommendOnlyPolicy

record 'q apply_settings =
  as_RecommendOnly :: "recommend_only option"
  as_DryRun :: bool
  as_Tolerance :: "'q tolerance"
  as_IgnoreSafeToEvict :: bool

text \<open>A member's pods as one pass found them; the selector of an in-place-only kind is nil.\<close>

record ('q, 'sel) pod_set =
  set_pods :: "'q pod list"
  set_namespace :: string
  set_selector :: "'sel"

text \<open>The loop of \<open>resizeInPlaceOnly\<close> over the pods left: the changes, the errors, the pods behind, and
  the context's error when that ended it.\<close>

fun resize_only_loop ::
  "'q env \<Rightarrow> ('q, 'sel, 'st) pod_client \<Rightarrow> 'q recs \<Rightarrow> 'q apply_settings \<Rightarrow> 'q pod list \<Rightarrow>
   pass_changes \<times> go_error list \<times> 'q pod list \<Rightarrow> 'st \<Rightarrow>
   (pass_changes \<times> go_error list \<times> 'q pod list \<times> go_error option) \<times> 'st" where
  "resize_only_loop E cl recs s [] (c, errs, seen) st = ((c, errs, seen, None), st)"
| "resize_only_loop E cl recs s (pod # pods) (c, errs, seen) st =
     (case cl_CtxErr cl st of
        (Some err, st1) \<Rightarrow> ((c, errs, seen @ pod # pods, Some err), st1)
      | (None, st1) \<Rightarrow>
          if pod_Deleting pod \<or> pod_Phase pod \<noteq> ''Running''
          then resize_only_loop E cl recs s pods (c, errs, seen @ [pod]) st1
          else let plan = planFor E pod recs (as_Tolerance s);
                   c1 = changes_suppressed (observeSuppressed recs (pl_recs plan)) c
               in case resizePodInPlaceNoEvict E cl pod (pl_recs plan) st1 of
                    ((written, _, err, pod'), st2) \<Rightarrow>
                      resize_only_loop E cl recs s pods
                        (if written \<noteq> [] then changes_resized pod' written c1 else c1,
                         case err of Some e \<Rightarrow> errs @ [Wrap e] | None \<Rightarrow> errs, seen @ [pod']) st2)"

definition resizeInPlaceOnly ::
  "'q env \<Rightarrow> patcher \<Rightarrow> ('q, 'sel, 'st) pod_client \<Rightarrow> 'q pod list \<Rightarrow> 'q recs \<Rightarrow> 'q apply_settings \<Rightarrow> 'st \<Rightarrow>
   (apply_result \<times> go_error option) \<times> 'st" where
  "resizeInPlaceOnly E p cl pods recs s st =
     (if \<not> pt_inPlace p then (changes_result E newChanges pods recs (as_Tolerance s) None, st)
      else case resize_only_loop E cl recs s pods (newChanges, [], []) st of
        ((c, errs, pods', ctx), st') \<Rightarrow>
          (changes_result E c pods' recs (as_Tolerance s)
             (case ctx of Some e \<Rightarrow> Some e | None \<Rightarrow> errors_Join errs), st'))"

text \<open>What a pass does with one live pod.\<close>

definition recycle_pod ::
  "'q env \<Rightarrow> patcher \<Rightarrow> ('q, 'sel, 'st) pod_client \<Rightarrow> eviction_gate \<Rightarrow> 'q pod \<Rightarrow> 'q pod_plan \<Rightarrow> 'st \<Rightarrow>
   'q resize_outcome \<times> 'st" where
  "recycle_pod E p cl gate pod plan st =
     (let inPlace = (pt_inPlace p \<and> pod_Phase pod = ''Running'')
      in if inPlace \<and> pl_change plan = LimitChange
         then (case resizePodInPlaceNoEvict E cl pod (pl_recs plan) st of
                 ((written, _, err, pod'), st') \<Rightarrow> ((written, False, err, pod'), st'))
         else if inPlace then patchPodInPlace E cl gate pod (pl_recs plan) st
         else if stale plan
         then (case submitEviction cl gate pod st of ((evicted, err), st') \<Rightarrow> (([], evicted, err, pod), st'))
         else (([], False, None, pod), st))"

definition is_crash_loop :: "go_error option \<Rightarrow> bool" where
  "is_crash_loop err = (case err of Some e \<Rightarrow> errors_Is e ErrCrashLoopBackOff | None \<Rightarrow> False)"

fun recycle_loop ::
  "'q env \<Rightarrow> patcher \<Rightarrow> ('q, 'sel, 'st) pod_client \<Rightarrow> string \<Rightarrow> 'sel \<Rightarrow> eviction_gate \<Rightarrow> 'q recs \<Rightarrow>
   'q apply_settings \<Rightarrow> 'q pod list \<Rightarrow> pass_changes \<times> go_error list \<times> 'q pod list \<Rightarrow> 'st \<Rightarrow>
   ((pass_changes \<times> go_error list \<times> 'q pod list \<times> go_error option) \<times> 'st) option" where
  "recycle_loop E p cl namespace selector gate recs s [] (c, errs, seen) st = Some ((c, errs, seen, None), st)"
| "recycle_loop E p cl namespace selector gate recs s (pod # pods) (c, errs, seen) st =
     (case cl_CtxErr cl st of
        (Some err, st1) \<Rightarrow> Some ((c, errs, seen @ pod # pods, Some err), st1)
      | (None, st1) \<Rightarrow>
          if \<not> countable_pod pod
          then recycle_loop E p cl namespace selector gate recs s pods (c, errs, seen @ [pod]) st1
          else let plan = planFor E pod recs (as_Tolerance s);
                   c1 = changes_suppressed (observeSuppressed recs (pl_recs plan)) c
               in case recycle_pod E p cl gate pod plan st1 of
                    ((written, evicted, err, pod'), st2) \<Rightarrow>
                      let errs1 = (case err of Some e \<Rightarrow> errs @ [Wrap e] | None \<Rightarrow> errs);
                          c2 = (if written \<noteq> [] then changes_resized pod' written c1 else c1)
                      in if is_crash_loop err then Some ((c1, errs1, seen @ pod' # pods, None), st2)
                         else if \<not> evicted
                         then recycle_loop E p cl namespace selector gate recs s pods (c2, errs1, seen @ [pod']) st2
                         else let c3 = changes_evicted E pod' recs c2
                              in case waitForReplacement p cl namespace selector (pod_Name pod') (pod_UID pod') st2 of
                                   None \<Rightarrow> None
                                 | Some (Some e, st3) \<Rightarrow> Some ((c3, errs1 @ [Wrap e], seen @ pod' # pods, None), st3)
                                 | Some (None, st3) \<Rightarrow>
                                     recycle_loop E p cl namespace selector gate recs s pods (c3, errs1, seen @ [pod']) st3)"

definition recycle_gate :: "'q env \<Rightarrow> 'q pod list \<Rightarrow> 'q recs \<Rightarrow> 'q apply_settings \<Rightarrow> eviction_gate" where
  "recycle_gate E pods recs s =
     \<lparr> eg_ignoreSafeToEvict = as_IgnoreSafeToEvict s, eg_halted = updatedPodCrashLooping E pods recs (as_Tolerance s) \<rparr>"

definition recycle ::
  "'q env \<Rightarrow> patcher \<Rightarrow> ('q, 'sel, 'st) pod_client \<Rightarrow> ('q, 'sel) pod_set \<Rightarrow> 'q recs \<Rightarrow> 'q apply_settings \<Rightarrow> 'st \<Rightarrow>
   ((apply_result \<times> go_error option) \<times> 'st) option" where
  "recycle E p cl ps recs s st =
     (let pods = sortPodsForRecycle (set_pods ps)
      in case recycle_loop E p cl (set_namespace ps) (set_selector ps) (recycle_gate E pods recs s) recs s pods (newChanges, [], []) st of
           None \<Rightarrow> None
         | Some ((c, errs, pods', ctx), st') \<Rightarrow>
             Some (changes_result E c pods' recs (as_Tolerance s)
                     (case ctx of Some e \<Rightarrow> Some e | None \<Rightarrow> errors_Join errs), st'))"

end
