(* ===== verification/Apply.thy ===== *)
theory Apply
  imports Patcher Governance
begin

text \<open>
  Applying a Recommendation to a member (\<open>internal/workload/apply.go\<close>): its settings, the rule of its kind,
  finding its pods, and \<open>Apply\<close> itself; with the owner references it reads (\<open>ownerref.go\<close>).

  The reads of the client that find pods are the record \<open>member_reader\<close>. A workload object keeps the Go
  type it has, since a member is refused when that is not its kind's; \<open>'ls\<close> is a label selector as the API
  has it, \<open>'sel\<close> a parsed one.
\<close>

section \<open>Owner references\<close>

record job =
  job_Name :: string
  job_Namespace :: string
  job_UID :: string
  job_OwnerReferences :: "owner_reference list"
  job_Conditions :: "pod_condition list"

text \<open>\<open>mr_GetReplicaSet\<close> and \<open>mr_GetJob\<close> give the owner references of the object.\<close>

record ('q, 'ls, 'sel, 'st) member_reader =
  mr_GetReplicaSet :: "string \<Rightarrow> string \<Rightarrow> 'st \<Rightarrow> (go_error + owner_reference list) \<times> 'st"
  mr_GetJob :: "string \<Rightarrow> string \<Rightarrow> 'st \<Rightarrow> (go_error + owner_reference list) \<times> 'st"
  mr_ListJobs :: "string \<Rightarrow> 'st \<Rightarrow> (go_error + job list) \<times> 'st"
  mr_ListLabelled :: "string \<Rightarrow> str_map \<Rightarrow> 'st \<Rightarrow> (go_error + 'q pod list) \<times> 'st"
  mr_AsSelector :: "'ls \<Rightarrow> go_error + 'sel"

definition JobFinished :: "job \<Rightarrow> bool" where
  "JobFinished j = list_ex (\<lambda>c. pc_Status c = ''True'' \<and> (pc_Type c = ''Complete'' \<or> pc_Type c = ''Failed'')) (job_Conditions j)"

definition controller_of_kind :: "string list \<Rightarrow> owner_reference list \<Rightarrow> owner_reference option" where
  "controller_of_kind kinds refs = find (\<lambda>r. ref_Controller r = Some True \<and> ref_Kind r \<in> set kinds) refs"

definition ResolveControllerOwner ::
  "('q, 'ls, 'sel, 'st) member_reader \<Rightarrow> string \<Rightarrow> owner_reference \<Rightarrow> 'st \<Rightarrow> (go_error + string \<times> string) \<times> 'st" where
  "ResolveControllerOwner mr namespace ref st =
     (if ref_Kind ref = ''ReplicaSet'' then
        (case mr_GetReplicaSet mr namespace (ref_Name ref) st of
           (Inl err, st') \<Rightarrow> (Inl (Wrap err), st')
         | (Inr refs, st') \<Rightarrow>
             (Inr (case controller_of_kind [''Deployment'', ''Rollout''] refs of
                     Some r \<Rightarrow> (ref_Kind r, ref_Name r) | None \<Rightarrow> (''ReplicaSet'', ref_Name ref)), st'))
      else if ref_Kind ref = ''Job'' then
        (case mr_GetJob mr namespace (ref_Name ref) st of
           (Inl err, st') \<Rightarrow> (Inl (Wrap err), st')
         | (Inr refs, st') \<Rightarrow>
             (Inr (case controller_of_kind [''CronJob''] refs of
                     Some r \<Rightarrow> (''CronJob'', ref_Name r) | None \<Rightarrow> (''Job'', ref_Name ref)), st'))
      else (Inr (ref_Kind ref, ref_Name ref), st))"

definition ResolvePodOwner ::
  "('q, 'ls, 'sel, 'st) member_reader \<Rightarrow> 'q pod \<Rightarrow> 'st \<Rightarrow> (go_error + string \<times> string) \<times> 'st" where
  "ResolvePodOwner mr pod st =
     (case GetControllerOf (pod_OwnerReferences pod) of
        None \<Rightarrow> (Inr ([], []), st)
      | Some ref \<Rightarrow> ResolveControllerOwner mr (pod_Namespace pod) ref st)"

text \<open>\<open>rsOwned\<close> is the memo of the pass, by the name of the ReplicaSet.\<close>

definition PodOwnedByWorkload ::
  "(go_error \<Rightarrow> bool) \<Rightarrow> ('q, 'ls, 'sel, 'st) member_reader \<Rightarrow> 'q pod \<Rightarrow> string \<Rightarrow> (string, bool) gomap \<Rightarrow> 'st \<Rightarrow>
   (go_error + bool) \<times> (string, bool) gomap \<times> 'st" where
  "PodOwnedByWorkload isNotFound mr pod uid rsOwned st =
     (case GetControllerOf (pod_OwnerReferences pod) of
        None \<Rightarrow> (Inr False, rsOwned, st)
      | Some ref \<Rightarrow>
          if ref_UID ref = uid then (Inr True, rsOwned, st)
          else if ref_Kind ref \<noteq> ''ReplicaSet'' then (Inr False, rsOwned, st)
          else case map_of rsOwned (ref_Name ref) of
            Some owned \<Rightarrow> (Inr owned, rsOwned, st)
          | None \<Rightarrow>
              (case mr_GetReplicaSet mr (pod_Namespace pod) (ref_Name ref) st of
                 (Inl err, st') \<Rightarrow>
                   if isNotFound err then (Inr False, AList.update (ref_Name ref) False rsOwned, st')
                   else (Inl (Wrap err), rsOwned, st')
               | (Inr refs, st') \<Rightarrow>
                   (Inr (IsOwnedBy refs uid), AList.update (ref_Name ref) (IsOwnedBy refs uid) rsOwned, st')))"

definition activeJobsOf ::
  "('q, 'ls, 'sel, 'st) member_reader \<Rightarrow> string \<Rightarrow> string \<Rightarrow> 'st \<Rightarrow> (go_error + job list) \<times> 'st" where
  "activeJobsOf mr namespace uid st =
     (case mr_ListJobs mr namespace st of
        (Inl err, st') \<Rightarrow> (Inl err, st')
      | (Inr jobs, st') \<Rightarrow> (Inr (filter (\<lambda>j. IsOwnedBy (job_OwnerReferences j) uid \<and> \<not> JobFinished j) jobs), st'))"

abbreviation JobNameLabel :: string where "JobNameLabel \<equiv> ''batch.kubernetes.io/job-name''"

definition podsOfJob ::
  "('q, 'ls, 'sel, 'st) member_reader \<Rightarrow> string \<Rightarrow> string \<Rightarrow> string \<Rightarrow> 'st \<Rightarrow> (go_error + 'q pod list) \<times> 'st" where
  "podsOfJob mr namespace name uid st =
     (case mr_ListLabelled mr namespace [(JobNameLabel, name)] st of
        (Inl err, st') \<Rightarrow> (Inl err, st')
      | (Inr pods, st') \<Rightarrow> (Inr (filter (\<lambda>p. IsOwnedBy (pod_OwnerReferences p) uid) pods), st'))"

section \<open>Members and settings\<close>

text \<open>\<open>wo_Type\<close> is the Go type of the object, by its name; a member without an object has \<open>None\<close>.\<close>

record 'ls workload_object =
  wo_Type :: string
  wo_Namespace :: string
  wo_Name :: string
  wo_UID :: string
  wo_Selector :: "'ls option"

record ('q, 'ls) member =
  mem_Kind :: string
  mem_Object :: "'ls workload_object option"
  mem_Pods :: "'q pod list"
  mem_Containers :: "'q container list"
  mem_InitContainers :: "'q container list"

definition ApplySettingsFor :: "'q env \<Rightarrow> ('q, 'sel) policy \<Rightarrow> string \<Rightarrow> bool \<Rightarrow> 'q apply_settings" where
  "ApplySettingsFor E policy kind recommendOnly =
     (let rs = p_RightSizing policy; mode = ModeForKind (us_Types (rs_Update rs)) kind
      in \<lparr> as_RecommendOnly =
             (if recommendOnly then Some RecommendOnlyFlag
              else if RecommendOnly rs then Some RecommendOnlyPolicy else None),
           as_DryRun = (mode \<noteq> Some UpdateModeOngoing),
           as_Tolerance = toleranceOf E (ResourcesConfigs rs),
           as_IgnoreSafeToEvict = IgnoreSafeToEvict (rs_Update rs) \<rparr>)"

section \<open>Finding a member's pods\<close>

definition refused :: go_error where
  "refused = Wrap (Sentinel ErrRefused)"

definition memberObject :: "string \<Rightarrow> ('q, 'ls) member \<Rightarrow> go_error + 'ls workload_object" where
  "memberObject t m =
     (case mem_Object m of
        None \<Rightarrow> Inl refused
      | Some obj \<Rightarrow> if wo_Type obj \<noteq> t then Inl refused
                    else if wo_UID obj = [] then Inl refused else Inr obj)"

fun owned_pods ::
  "(go_error \<Rightarrow> bool) \<Rightarrow> ('q, 'ls, 'sel, 'st) member_reader \<Rightarrow> string \<Rightarrow> 'q pod list \<Rightarrow> 'q pod list \<Rightarrow>
   (string, bool) gomap \<Rightarrow> 'st \<Rightarrow> (go_error + 'q pod list) \<times> 'st" where
  "owned_pods isNotFound mr uid [] out rsOwned st = (Inr out, st)"
| "owned_pods isNotFound mr uid (pod # pods) out rsOwned st =
     (case PodOwnedByWorkload isNotFound mr pod uid rsOwned st of
        (Inl err, _, st') \<Rightarrow> (Inl (Wrap err), st')
      | (Inr owned, rsOwned', st') \<Rightarrow>
          owned_pods isNotFound mr uid pods (if owned then out @ [pod] else out) rsOwned' st')"

type_synonym ('q, 'sel, 'st) find_pods = "'st \<Rightarrow> (go_error + ('q, 'sel option) pod_set) \<times> 'st"

definition selectedPods ::
  "('q, 'sel option, 'st) pod_client \<Rightarrow> ('q, 'ls, 'sel, 'st) member_reader \<Rightarrow> string \<Rightarrow> ('q, 'ls) member \<Rightarrow>
   ('q, 'sel, 'st) find_pods" where
  "selectedPods cl mr t m st =
     (case memberObject t m of
        Inl err \<Rightarrow> (Inl err, st)
      | Inr obj \<Rightarrow>
          (case wo_Selector obj of
             None \<Rightarrow> (Inl refused, st)
           | Some ls \<Rightarrow>
               (case mr_AsSelector mr ls of
                  Inl err \<Rightarrow> (Inl (Joined [Sentinel ErrRefused, err]), st)
                | Inr sel \<Rightarrow>
                    (case cl_ListPods cl (wo_Namespace obj) (Some sel) st of
                       (Inl err, st1) \<Rightarrow> (Inl (Wrap err), st1)
                     | (Inr pods, st1) \<Rightarrow>
                         (case owned_pods (cl_IsNotFound cl) mr (wo_UID obj) pods [] [] st1 of
                            (Inl err, st2) \<Rightarrow> (Inl err, st2)
                          | (Inr out, st2) \<Rightarrow>
                              (Inr \<lparr> set_pods = out, set_namespace = wo_Namespace obj, set_selector = Some sel \<rparr>, st2))))))"

fun pods_of_jobs ::
  "('q, 'ls, 'sel, 'st) member_reader \<Rightarrow> job list \<Rightarrow> 'q pod list \<Rightarrow> 'st \<Rightarrow> (go_error + 'q pod list) \<times> 'st" where
  "pods_of_jobs mr [] out st = (Inr out, st)"
| "pods_of_jobs mr (j # js) out st =
     (case podsOfJob mr (job_Namespace j) (job_Name j) (job_UID j) st of
        (Inl err, st') \<Rightarrow> (Inl (Wrap err), st')
      | (Inr pods, st') \<Rightarrow> pods_of_jobs mr js (out @ pods) st')"

definition only_pods :: "'q pod list \<Rightarrow> ('q, 'sel option) pod_set" where
  "only_pods pods = \<lparr> set_pods = pods, set_namespace = [], set_selector = None \<rparr>"

definition cronJobPods ::
  "('q, 'ls, 'sel, 'st) member_reader \<Rightarrow> ('q, 'ls) member \<Rightarrow> ('q, 'sel, 'st) find_pods" where
  "cronJobPods mr m st =
     (case memberObject ''CronJob'' m of
        Inl err \<Rightarrow> (Inl err, st)
      | Inr cj \<Rightarrow>
          (case activeJobsOf mr (wo_Namespace cj) (wo_UID cj) st of
             (Inl err, st1) \<Rightarrow> (Inl (Wrap err), st1)
           | (Inr jobs, st1) \<Rightarrow>
               (case pods_of_jobs mr jobs [] st1 of
                  (Inl err, st2) \<Rightarrow> (Inl err, st2) | (Inr pods, st2) \<Rightarrow> (Inr (only_pods pods), st2))))"

definition jobPods ::
  "('q, 'ls, 'sel, 'st) member_reader \<Rightarrow> ('q, 'ls) member \<Rightarrow> ('q, 'sel, 'st) find_pods" where
  "jobPods mr m st =
     (case memberObject ''Job'' m of
        Inl err \<Rightarrow> (Inl err, st)
      | Inr job \<Rightarrow>
          (case podsOfJob mr (wo_Namespace job) (wo_Name job) (wo_UID job) st of
             (Inl err, st') \<Rightarrow> (Inl (Wrap err), st') | (Inr pods, st') \<Rightarrow> (Inr (only_pods pods), st')))"

fun bare_loop :: "'q pod list \<Rightarrow> 'q pod list \<Rightarrow> go_error + 'q pod list" where
  "bare_loop [] out = Inr out"
| "bare_loop (pod # pods) out =
     (if pod_UID pod = [] then Inl refused
      else if GetControllerOf (pod_OwnerReferences pod) \<noteq> None then bare_loop pods out
      else bare_loop pods (out @ [pod]))"

definition barePods :: "('q, 'ls) member \<Rightarrow> ('q, 'sel, 'st) find_pods" where
  "barePods m st =
     (case bare_loop (mem_Pods m) [] of Inl err \<Rightarrow> (Inl err, st) | Inr pods \<Rightarrow> (Inr (only_pods pods), st))"

section \<open>Rules and Apply\<close>

datatype pods_of = Selected string | CronJobPods | JobPods | BarePods

record apply_rule =
  inPlaceOnly :: bool
  podsOf :: pods_of

definition applyRules :: "(string, apply_rule) gomap" where
  "applyRules =
     [(''Deployment'', \<lparr> inPlaceOnly = False, podsOf = Selected ''Deployment'' \<rparr>),
      (''StatefulSet'', \<lparr> inPlaceOnly = False, podsOf = Selected ''StatefulSet'' \<rparr>),
      (''DaemonSet'', \<lparr> inPlaceOnly = False, podsOf = Selected ''DaemonSet'' \<rparr>),
      (''Rollout'', \<lparr> inPlaceOnly = False, podsOf = Selected ''Rollout'' \<rparr>),
      (''CronJob'', \<lparr> inPlaceOnly = True, podsOf = CronJobPods \<rparr>),
      (''Job'', \<lparr> inPlaceOnly = True, podsOf = JobPods \<rparr>),
      (''Pod'', \<lparr> inPlaceOnly = True, podsOf = BarePods \<rparr>)]"

definition InPlaceOnly :: "string \<Rightarrow> bool" where
  "InPlaceOnly kind = (case map_of applyRules kind of Some r \<Rightarrow> inPlaceOnly r | None \<Rightarrow> False)"

fun find_pods_of ::
  "('q, 'sel option, 'st) pod_client \<Rightarrow> ('q, 'ls, 'sel, 'st) member_reader \<Rightarrow> pods_of \<Rightarrow> ('q, 'ls) member \<Rightarrow>
   ('q, 'sel, 'st) find_pods" where
  "find_pods_of cl mr (Selected t) m = selectedPods cl mr t m"
| "find_pods_of cl mr CronJobPods m = cronJobPods mr m"
| "find_pods_of cl mr JobPods m = jobPods mr m"
| "find_pods_of cl mr BarePods m = barePods m"

definition settle_result :: "apply_step \<Rightarrow> apply_result \<times> go_error option \<Rightarrow> apply_result" where
  "settle_result step out =
     (case out of
        (res, Some err) \<Rightarrow> res\<lparr>ar_Kind := ResultFailed, ar_Step := Some step, ar_Err := Some err\<rparr>
      | (res, None) \<Rightarrow> res\<lparr>ar_Kind := ResultDone\<rparr>)"

definition failed_result :: "apply_step \<Rightarrow> go_error \<Rightarrow> apply_result" where
  "failed_result step err = zero_result\<lparr>ar_Kind := ResultFailed, ar_Step := Some step, ar_Err := Some err\<rparr>"

definition Apply ::
  "'q env \<Rightarrow> patcher \<Rightarrow> ('q, 'sel option, 'st) pod_client \<Rightarrow> ('q, 'ls, 'sel, 'st) member_reader \<Rightarrow> ('q, 'ls) member \<Rightarrow>
   'q recs \<Rightarrow> 'q apply_settings \<Rightarrow> 'st \<Rightarrow> (apply_result \<times> 'st) option" where
  "Apply E p cl mr m recs0 s st =
     (let recs = inj_Recs (Inject E (mem_Containers m) (mem_InitContainers m) False recs0)
      in if recs = [] then Some (zero_result\<lparr>ar_Kind := ResultIdle\<rparr>, st)
         else if as_RecommendOnly s \<noteq> None then Some (zero_result\<lparr>ar_Kind := ResultIdle\<rparr>, st)
         else case map_of applyRules (mem_Kind m) of
           None \<Rightarrow> Some (failed_result StepPatch refused, st)
         | Some rule \<Rightarrow>
             (let step = (if inPlaceOnly rule then StepResize else StepPatch)
              in case find_pods_of cl mr (podsOf rule) m st of
                   (Inl err, st1) \<Rightarrow>
                     Some (if as_DryRun s then zero_result\<lparr>ar_Kind := ResultCountedOnly\<rparr> else failed_result step err, st1)
                 | (Inr ps, st1) \<Rightarrow>
                     if as_DryRun s
                     then Some (zero_result\<lparr>ar_Kind := ResultCountedOnly,
                                  ar_Pods := countPods E (set_pods ps) recs (as_Tolerance s) [], ar_Counted := True\<rparr>, st1)
                     else if inPlaceOnly rule
                     then (case resizeInPlaceOnly E p cl (set_pods ps) recs s st1 of
                             (out, st2) \<Rightarrow> Some (settle_result step out, st2))
                     else (case recycle E p cl ps recs s st1 of
                             None \<Rightarrow> None
                           | Some (out, st2) \<Rightarrow> Some (settle_result step out, st2))))"

end
