(* ===== verification/PatcherCorrect.thy ===== *)
theory PatcherCorrect
  imports Apply InjectCorrect "HOL-Library.Multiset"
begin

text \<open>
  What driving pods promises (\<open>internal/workload/patcher.go\<close>, \<open>apply.go\<close>): that \<open>Apply\<close> returns, which
  pods an eviction may hit and that some members are never touched, that a crash loop stops a pass, and
  that accepted resizes leave nothing stale.

  That a call is not made is said by the calls' answers: the outcome is the same whatever that call
  would do.
\<close>

section \<open>Waiting\<close>

lemma wait_loop_transfer:
  assumes "wait_loop p cl namespace selector name uid deadline st = Some y"
    and "cl_ListPods cl' = cl_ListPods cl" "cl_Now cl' = cl_Now cl" "cl_Wait cl' = cl_Wait cl"
  shows "wait_loop p cl' namespace selector name uid deadline st = Some y"
  using assms
proof (induction rule: wait_loop.raw_induct [rotated, consumes 1])
  case (1 f p cl namespace selector name uid deadline st y)
  note ih = 1(1)
  from 1(2-) show ?case
    by (subst wait_loop.simps)
       (auto split: prod.splits sum.splits option.splits if_splits intro: ih)
qed

lemma wait_loop_cong:
  assumes "cl_ListPods cl' = cl_ListPods cl" "cl_Now cl' = cl_Now cl" "cl_Wait cl' = cl_Wait cl"
  shows "wait_loop p cl' namespace selector name uid deadline st = wait_loop p cl namespace selector name uid deadline st"
proof (cases "wait_loop p cl namespace selector name uid deadline st")
  case None
  then have "wait_loop p cl' namespace selector name uid deadline st \<noteq> Some y" for y
    using wait_loop_transfer [of p cl' namespace selector name uid deadline st y cl] assms by auto
  with None show ?thesis by (cases "wait_loop p cl' namespace selector name uid deadline st") auto
next
  case (Some y)
  then show ?thesis using wait_loop_transfer [OF Some assms] by simp
qed

lemma wait_calls_no_write [simp]:
  "waitForReplacement p (cl\<lparr>cl_Evict := ev\<rparr>) = waitForReplacement p cl"
  "waitForReplacement p (cl\<lparr>cl_Resize := rz\<rparr>) = waitForReplacement p cl"
  by (simp_all add: fun_eq_iff waitForReplacement_def wait_loop_cong split: prod.split)

text \<open>\<open>clock\<close> is the time of a state: reading it or listing does not turn it back, and a wait that was not
  cut short lasts as long as it was told to.\<close>

definition clock_advances :: "('q, 'sel, 'st) pod_client \<Rightarrow> ('st \<Rightarrow> time) \<Rightarrow> bool" where
  "clock_advances cl clock \<longleftrightarrow>
     (\<forall>st now st'. cl_Now cl st = (now, st') \<longrightarrow> clock st \<le> now \<and> now \<le> clock st') \<and>
     (\<forall>namespace selector st r st'. cl_ListPods cl namespace selector st = (r, st') \<longrightarrow> clock st \<le> clock st') \<and>
     (\<forall>d st st'. cl_Wait cl d st = (None, st') \<longrightarrow> clock st + d \<le> clock st')"

lemma wait_loop_returns:
  assumes "clock_advances cl clock" "0 < pt_readyPollInterval p"
  shows "\<exists>y. wait_loop p cl namespace selector name uid deadline st = Some y"
proof (induction "nat (deadline + 1 - clock st)" arbitrary: st rule: less_induct)
  case less
  obtain r st1 where l: "cl_ListPods cl namespace selector st = (r, st1)" by fastforce
  obtain now st2 where n: "cl_Now cl st1 = (now, st2)" by fastforce
  have t: "clock st \<le> now" "now \<le> clock st2"
    using assms(1) l n unfolding clock_advances_def by (blast intro: order_trans)+
  have "\<exists>y. wait_loop p cl namespace selector name uid deadline st3 = Some y"
    if "\<not> deadline < now" "cl_Wait cl (pt_readyPollInterval p) st2 = (None, st3)" for st3
  proof (rule less.hyps)
    have "clock st2 + pt_readyPollInterval p \<le> clock st3"
      using assms(1) that(2) unfolding clock_advances_def by blast
    then show "nat (deadline + 1 - clock st3) < nat (deadline + 1 - clock st)" using t that(1) assms(2) by simp
  qed
  then show ?case
    by (subst wait_loop.simps) (auto simp: l n split: prod.splits sum.splits option.splits)
qed

lemma recycle_loop_returns:
  assumes "clock_advances cl clock" "0 < pt_readyPollInterval p"
  shows "recycle_loop E p cl namespace selector eg recs s pods acc st \<noteq> None"
proof (induction pods arbitrary: acc st)
  case Nil
  then show ?case by (cases acc) auto
next
  case (Cons pod pods)
  have "\<exists>y. waitForReplacement p cl namespace selector name uid st = Some y" for name uid st
    using wait_loop_returns [OF assms] by (auto simp: waitForReplacement_def split: prod.split)
  then have w: "waitForReplacement p cl namespace selector name uid st \<noteq> None" for name uid st by fastforce
  show ?case
    by (cases acc) (simp add: Let_def w Cons.IH del: not_None_eq split: prod.split option.split)
qed

lemma recycle_returns:
  assumes "clock_advances cl clock" "0 < pt_readyPollInterval p"
  shows "\<exists>out st'. recycle E p cl ps recs s st = Some (out, st')"
proof -
  let ?pods = "sortPodsForRecycle (set_pods ps)"
  obtain y where "recycle_loop E p cl (set_namespace ps) (set_selector ps) (recycle_gate E ?pods recs s) recs s ?pods
      (newChanges, [], []) st = Some y"
    using recycle_loop_returns [OF assms] by blast
  then show ?thesis by (cases y) (auto simp: recycle_def Let_def split: prod.split)
qed

text \<open>C17. \<open>Apply\<close> returns. The wait for a replacement polls for as long as the workload is not quiet, yet
  wherever the clock advances with the poll interval, whatever the cluster answers to every call, every
  member and every Recommendation get a result.\<close>

theorem apply_returns:
  assumes "clock_advances cl clock" "0 < pt_readyPollInterval p"
  shows "\<exists>res st'. Apply E p cl mr m recs s st = Some (res, st')"
proof -
  have "recycle E p cl ps recs s st \<noteq> None" for ps recs s st
    using recycle_returns [OF assms, of E ps recs s st] by auto
  then have "Apply E p cl mr m recs s st \<noteq> None"
    by (auto simp: Apply_def Let_def simp del: not_None_eq split: option.splits prod.splits sum.splits)
  then show ?thesis by auto
qed

text \<open>A cluster to evaluate on: a clock in seconds, pods that never leave, an apiserver that takes nothing.\<close>

definition stuck_cluster :: "'q pod list \<Rightarrow> ('q, 'sel, time) pod_client" where
  "stuck_cluster pods =
     \<lparr> cl_ListPods = \<lambda>_ _ st. (Inr pods, st), cl_Resize = \<lambda>_ _ st. (Inl (ApiStatus 422), st),
       cl_Evict = \<lambda>_ st. (None, st), cl_Now = \<lambda>st. (st, st), cl_CtxErr = \<lambda>st. (None, st),
       cl_Wait = \<lambda>d st. (None, st + d), cl_IsNotFound = \<lambda>e. e = ApiStatus 404,
       cl_IsInvalid = \<lambda>e. e = ApiStatus 422, cl_IsTooManyRequests = \<lambda>e. e = ApiStatus 429 \<rparr>"

lemma stuck_cluster_clock: "clock_advances (stuck_cluster pods) (\<lambda>st. st)"
  by (simp add: clock_advances_def stuck_cluster_def)

text \<open>A StatefulSet's pod whose CPU request of 1 the Recommendation halves, as the witnesses apply it.\<close>

definition demo_pod :: "string \<Rightarrow> string \<Rightarrow> fixed pod" where
  "demo_pod name phase =
     \<lparr> pod_Name = name, pod_Namespace = ''shop'', pod_UID = name, pod_Labels = [], pod_Annotations = [],
       pod_OwnerReferences = [\<lparr> ref_Kind = ''StatefulSet'', ref_Name = ''web'', ref_UID = ''u'', ref_Controller = Some True \<rparr>],
       pod_Deleting = False, pod_RestartPolicy = ''Always'', pod_Phase = phase, pod_Conditions = [],
       pod_Containers = [\<lparr> c_Name = ''app'', c_Resources = \<lparr> Requests = [(''cpu'', (1, DecimalSI))], Limits = [] \<rparr>, c_RestartPolicy = None \<rparr>],
       pod_InitContainers = [], pod_ContainerStatuses = [], pod_InitContainerStatuses = [], pod_EphemeralContainerStatuses = [] \<rparr>"

definition demo_recs :: "fixed recs" where
  "demo_recs = [(''app'', empty_recommendation\<lparr>CPURequest := Some (1 / 2, DecimalSI)\<rparr>)]"

definition demo_settings :: "fixed apply_settings" where
  "demo_settings = \<lparr> as_RecommendOnly = None, as_DryRun = False,
     as_Tolerance = \<lparr> CPUPercent = 5, CPUFloor = (1 / 100, DecimalSI), MemPercent = 5, MemFloor = (0, BinarySI) \<rparr>,
     as_IgnoreSafeToEvict = False \<rparr>"

definition demo_member :: "string \<Rightarrow> fixed pod list \<Rightarrow> (fixed, unit) member" where
  "demo_member kind pods =
     \<lparr> mem_Kind = kind,
       mem_Object = Some \<lparr> wo_Type = kind, wo_Namespace = ''shop'', wo_Name = ''web'', wo_UID = ''u'', wo_Selector = Some () \<rparr>,
       mem_Pods = pods, mem_Containers = pod_Containers (demo_pod [] []), mem_InitContainers = [] \<rparr>"

definition demo_reader :: "fixed pod list \<Rightarrow> (fixed, unit, unit, time) member_reader" where
  "demo_reader pods =
     \<lparr> mr_GetReplicaSet = \<lambda>_ _ st. (Inl (ApiStatus 404), st), mr_GetJob = \<lambda>_ _ st. (Inl (ApiStatus 404), st),
       mr_ListJobs = \<lambda>_ st. (Inr [], st), mr_ListLabelled = \<lambda>_ _ st. (Inr pods, st), mr_AsSelector = \<lambda>_. Inr () \<rparr>"

theorem apply_returns_witness:
  "let pods = [demo_pod ''web-0'' ''Pending'', demo_pod ''web-1'' ''Running'']
   in \<exists>res st'. Apply fixed_env (NewPatcher True []) (stuck_cluster pods) (demo_reader pods) (demo_member ''StatefulSet'' [])
        demo_recs demo_settings 0 = Some (res, st')"
  unfolding Let_def by (rule apply_returns [OF stuck_cluster_clock]) (simp add: NewPatcher_def)

section \<open>Who is never touched\<close>

lemmas into_cases = prod.case_cong option.case_cong sum.case_cong resize_answer.case_cong if_cong let_weak_cong

lemma evict_irrelevant [simp]:
  "submitInPlaceResize (cl\<lparr>cl_Evict := ev\<rparr>) = submitInPlaceResize cl"
  "applySidecarResize (cl\<lparr>cl_Evict := ev\<rparr>) = applySidecarResize cl"
  "resizePodInPlaceWith E (cl\<lparr>cl_Evict := ev\<rparr>) = resizePodInPlaceWith E cl"
proof -
  show a: "submitInPlaceResize (cl\<lparr>cl_Evict := ev\<rparr>) = submitInPlaceResize cl"
    by (simp add: fun_eq_iff submitInPlaceResize_def cong: into_cases)
  show b: "applySidecarResize (cl\<lparr>cl_Evict := ev\<rparr>) = applySidecarResize cl"
    by (simp add: fun_eq_iff applySidecarResize_def cong: into_cases)
  show "resizePodInPlaceWith E (cl\<lparr>cl_Evict := ev\<rparr>) = resizePodInPlaceWith E cl"
    unfolding resizePodInPlaceWith_def a b by (rule refl)
qed

lemma never_evict_cong [simp]:
  "resizePodInPlaceNoEvict E (cl\<lparr>cl_Evict := ev\<rparr>) = resizePodInPlaceNoEvict E cl"
  by (simp add: fun_eq_iff resizePodInPlaceNoEvict_def)

lemma resize_only_loop_cong:
  "resize_only_loop E (cl\<lparr>cl_Evict := ev\<rparr>) recs s pods (c, errs, seen) st = resize_only_loop E cl recs s pods (c, errs, seen) st"
proof (induction pods arbitrary: c errs seen st)
  case (Cons pod pods)
  then show ?case by (simp cong: into_cases)
qed simp

lemma resizeInPlaceOnly_cong: "resizeInPlaceOnly E p (cl\<lparr>cl_Evict := ev\<rparr>) pods recs s st = resizeInPlaceOnly E p cl pods recs s st"
  by (simp add: resizeInPlaceOnly_def resize_only_loop_cong)

lemma find_pods_cong:
  assumes "cl_ListPods cl' = cl_ListPods cl" "cl_IsNotFound cl' = cl_IsNotFound cl"
  shows "find_pods_of cl' mr f m = find_pods_of cl mr f m"
proof -
  have "selectedPods cl' mr t m = selectedPods cl mr t m" for t
    unfolding selectedPods_def assms by (rule refl)
  then show ?thesis by (cases f) simp_all
qed

text \<open>A pod whose work nothing redoes is never evicted: for a member of a CronJob, a Job or a bare-pod
  identity the eviction call is not made, whatever the pods, the Recommendation and the answers of the
  cluster.\<close>

theorem in_place_only_never_evicts:
  assumes "mem_Kind m \<in> {''CronJob'', ''Job'', ''Pod''}"
  shows "Apply E p (cl\<lparr>cl_Evict := ev\<rparr>) mr m recs s st = Apply E p cl mr m recs s st"
proof -
  obtain rule where "map_of applyRules (mem_Kind m) = Some rule" "inPlaceOnly rule"
    using assms by (auto simp: applyRules_def)
  moreover obtain r st1 where "find_pods_of cl mr (podsOf rule) m st = (r, st1)" by fastforce
  ultimately show ?thesis by (cases r) (simp_all add: Apply_def Let_def resizeInPlaceOnly_cong find_pods_cong [of "cl\<lparr>cl_Evict := ev\<rparr>" cl])
qed

theorem in_place_only_never_evicts_witness:
  "let pods = [demo_pod ''job-1'' ''Running'']
   in Apply fixed_env (NewPatcher True []) ((stuck_cluster pods)\<lparr>cl_Evict := \<lambda>_ _. undefined\<rparr>) (demo_reader pods) (demo_member ''Job'' [])
        demo_recs demo_settings 0
      = Apply fixed_env (NewPatcher True []) (stuck_cluster pods) (demo_reader pods) (demo_member ''Job'' []) demo_recs demo_settings 0"
  unfolding Let_def by (rule in_place_only_never_evicts) (simp add: demo_member_def InPlaceOnly_def applyRules_def)

text \<open>A member whose Policy is not Ongoing, or that is recommend-only, has no pod touched: neither the resize
  nor the eviction call is made.\<close>

theorem dry_run_touches_no_pod:
  assumes "as_DryRun s \<or> as_RecommendOnly s \<noteq> None"
  shows "Apply E p (cl\<lparr>cl_Resize := rz, cl_Evict := ev\<rparr>) mr m recs s st = Apply E p cl mr m recs s st"
proof (cases "map_of applyRules (mem_Kind m)")
  case None
  then show ?thesis by (simp add: Apply_def Let_def)
next
  case (Some rule)
  obtain r st1 where "find_pods_of cl mr (podsOf rule) m st = (r, st1)" by fastforce
  then show ?thesis using assms Some by (cases r) (auto simp: Apply_def Let_def find_pods_cong [of "cl\<lparr>cl_Resize := rz, cl_Evict := ev\<rparr>" cl])
qed

theorem dry_run_touches_no_pod_witness:
  "let pods = [demo_pod ''web-0'' ''Running'']; s = demo_settings\<lparr>as_DryRun := True\<rparr>
   in Apply fixed_env (NewPatcher True []) ((stuck_cluster pods)\<lparr>cl_Resize := \<lambda>_ _ _. undefined, cl_Evict := \<lambda>_ _. undefined\<rparr>)
        (demo_reader pods) (demo_member ''StatefulSet'' []) demo_recs s 0
      = Apply fixed_env (NewPatcher True []) (stuck_cluster pods) (demo_reader pods) (demo_member ''StatefulSet'' []) demo_recs s 0"
  unfolding Let_def by (rule dry_run_touches_no_pod) (simp add: demo_settings_def)

section \<open>What a resize writes\<close>

lemma resize_write_fold:
  "rz_regular (fold resize_write ws r) = rz_regular r @ map cw_Name (filter (\<lambda>w. \<not> cw_Init w) ws) \<and>
   length (rz_initContainers (fold resize_write ws r)) = length (rz_initContainers r) \<and>
   (\<forall>i < length (rz_initContainers r). isRestartableInitContainer (rz_initContainers (fold resize_write ws r) ! i) =
      isRestartableInitContainer (rz_initContainers r ! i))"
proof (induction ws arbitrary: r)
  case (Cons w ws)
  have "isRestartableInitContainer (rz_initContainers (resize_write w r) ! i) = isRestartableInitContainer (rz_initContainers r ! i)"
    if "i < length (rz_initContainers r)" for i
    using that by (cases "i = cw_Index w") (simp_all add: resize_write_def Let_def isRestartableInitContainer_def)
  moreover have "rz_regular (resize_write w r) = rz_regular r @ map cw_Name (filter (\<lambda>w. \<not> cw_Init w) [w])"
    "length (rz_initContainers (resize_write w r)) = length (rz_initContainers r)"
    by (simp_all add: resize_write_def Let_def)
  ultimately show ?case using Cons.IH [of "resize_write w r"] by auto
qed simp

lemma resize_sidecars_fold:
  "rz_sidecars (fold resize_write ws r) \<noteq> [] \<longleftrightarrow> rz_sidecars r \<noteq> [] \<or>
     (\<exists>w\<in>set ws. cw_Init w \<and> isRestartableInitContainer (rz_initContainers r ! cw_Index w))"
  if "\<forall>w\<in>set ws. cw_Init w \<longrightarrow> cw_Index w < length (rz_initContainers r)"
  using that
proof (induction ws arbitrary: r)
  case (Cons w ws)
  have len: "length (rz_initContainers (resize_write w r)) = length (rz_initContainers r)"
    using resize_write_fold [of "[w]" r] by simp
  have keep: "isRestartableInitContainer (rz_initContainers (resize_write w r) ! cw_Index v) =
      isRestartableInitContainer (rz_initContainers r ! cw_Index v)" if "v \<in> set ws" "cw_Init v" for v
    using resize_write_fold [of "[w]" r] Cons.prems that by simp
  have "rz_sidecars (resize_write w r) \<noteq> [] \<longleftrightarrow> rz_sidecars r \<noteq> [] \<or> cw_Init w \<and> isRestartableInitContainer (rz_initContainers r ! cw_Index w)"
    by (simp add: resize_write_def Let_def)
  with Cons.IH [of "resize_write w r"] Cons.prems keep show ?case by (auto simp: len)
qed simp

lemma inject_add_complete:
  "set (inj_Writes acc) \<subseteq> set (inj_Writes (inject_add E recs init i cs acc)) \<and>
   (\<forall>j < length cs. \<forall>rec. map_of recs (c_Name (cs ! j)) = Some rec \<longrightarrow> snd (snd (applyTo E (c_Resources (cs ! j)) rec)) \<longrightarrow>
      (\<exists>w\<in>set (inj_Writes (inject_add E recs init i cs acc)). cw_Init w = init \<and> cw_Index w = i + j))"
proof (induction cs arbitrary: i acc)
  case (Cons c cs)
  define acc1 where "acc1 = (case map_of recs (c_Name c) of
          None \<Rightarrow> acc
        | Some rec \<Rightarrow>
            let (res, raised, changed) = applyTo E (c_Resources c) rec;
                acc' = acc\<lparr>inj_Recs := AList.update (c_Name c) rec (inj_Recs acc)\<rparr>
            in if changed
               then acc'\<lparr>inj_Writes := inj_Writes acc' @
                 [\<lparr> cw_Name = c_Name c, cw_Init = init, cw_Index = i, cw_Resources = res,
                    cw_RaisedLimits = raised \<rparr>]\<rparr>
               else acc')"
  have step: "inject_add E recs init i (c # cs) acc = inject_add E recs init (Suc i) cs acc1"
    by (simp add: acc1_def)
  have sub: "set (inj_Writes acc) \<subseteq> set (inj_Writes acc1)"
    by (auto simp: acc1_def Let_def split: option.splits prod.splits)
  have here: "\<exists>w\<in>set (inj_Writes acc1). cw_Init w = init \<and> cw_Index w = i"
    if "map_of recs (c_Name c) = Some rec" "snd (snd (applyTo E (c_Resources c) rec))" for rec
    using that by (auto simp: acc1_def Let_def split: prod.splits)
  note ih = Cons.IH [of acc1 "Suc i"]
  have "\<exists>w\<in>set (inj_Writes (inject_add E recs init (Suc i) cs acc1)). cw_Init w = init \<and> cw_Index w = i + j"
    if "j < length (c # cs)" "map_of recs (c_Name ((c # cs) ! j)) = Some rec" "snd (snd (applyTo E (c_Resources ((c # cs) ! j)) rec))"
    for j rec
  proof (cases j)
    case 0
    then show ?thesis using here that ih by fastforce
  next
    case (Suc k)
    then show ?thesis using ih that by auto
  qed
  then show ?case using sub ih unfolding step by blast
qed simp

definition changes_container :: "'q env \<Rightarrow> 'q recs \<Rightarrow> 'q container \<Rightarrow> bool" where
  "changes_container E recs c \<longleftrightarrow> (\<exists>rec. map_of recs (c_Name c) = Some rec \<and> snd (snd (applyTo E (c_Resources c) rec)))"

lemma plan_change_none:
  "fold (plan_change E recs) cs ch = NoChange \<longleftrightarrow> ch = NoChange \<and> (\<forall>c\<in>set cs. \<not> changes_container E recs c)"
  "fold (\<lambda>c ch. if isRestartableInitContainer c then plan_change E recs c ch else ch) cs ch = NoChange \<longleftrightarrow>
     ch = NoChange \<and> (\<forall>c\<in>set cs. isRestartableInitContainer c \<longrightarrow> \<not> changes_container E recs c)"
proof -
  have mx: "max a b = NoChange \<longleftrightarrow> a = NoChange \<and> b = NoChange" for a b :: pod_change
    by (cases a; cases b) (simp_all add: max_def less_eq_pod_change_def rank_pod_change_def)
  have step: "plan_change E recs c ch = NoChange \<longleftrightarrow> ch = NoChange \<and> \<not> changes_container E recs c" for c ch
  proof -
    have "containerChange E (c_Resources c) rec = NoChange \<longleftrightarrow> \<not> snd (snd (applyTo E (c_Resources c) rec))" for rec
      by (auto simp: containerChange_def Let_def split: prod.splits)
    then show ?thesis
      by (simp add: plan_change_def changes_container_def mx split: option.split)
  qed
  show "fold (plan_change E recs) cs ch = NoChange \<longleftrightarrow> ch = NoChange \<and> (\<forall>c\<in>set cs. \<not> changes_container E recs c)"
    by (induction cs arbitrary: ch) (auto simp: step)
  show "fold (\<lambda>c ch. if isRestartableInitContainer c then plan_change E recs c ch else ch) cs ch = NoChange \<longleftrightarrow>
     ch = NoChange \<and> (\<forall>c\<in>set cs. isRestartableInitContainer c \<longrightarrow> \<not> changes_container E recs c)"
    by (induction cs arbitrary: ch) (auto simp: step)
qed

lemma Inject_writes_iff:
  "(\<exists>w\<in>set (inj_Writes (Inject E cs ics False recs)). \<not> cw_Init w) \<longleftrightarrow> (\<exists>c\<in>set cs. changes_container E recs c)"
  "(\<exists>w\<in>set (inj_Writes (Inject E cs ics False recs)). cw_Init w \<and> P (ics ! cw_Index w)) \<longleftrightarrow>
     (\<exists>c\<in>set ics. P c \<and> changes_container E recs c)"
proof -
  let ?acc = "inject_add E recs False 0 cs \<lparr> inj_Recs = [], inj_Writes = [] \<rparr>"
  have eq: "Inject E cs ics False recs = inject_add E recs True 0 ics ?acc" by (simp add: Inject_def Let_def)
  have sub: "set (inj_Writes ?acc) \<subseteq> set (inj_Writes (Inject E cs ics False recs))"
    unfolding eq using inject_add_complete by blast
  show "(\<exists>w\<in>set (inj_Writes (Inject E cs ics False recs)). \<not> cw_Init w) \<longleftrightarrow> (\<exists>c\<in>set cs. changes_container E recs c)"
  proof
    assume "\<exists>w\<in>set (inj_Writes (Inject E cs ics False recs)). \<not> cw_Init w"
    then obtain w where w: "w \<in> set (inj_Writes (Inject E cs ics False recs))" "\<not> cw_Init w" by blast
    from Inject_writes [OF w(1)] obtain c where "changes_container E recs c" "c \<in> set cs"
      using w(2) unfolding changes_container_def by (metis nth_mem)
    then show "\<exists>c\<in>set cs. changes_container E recs c" by blast
  next
    assume "\<exists>c\<in>set cs. changes_container E recs c"
    then obtain j where "j < length cs" "changes_container E recs (cs ! j)" by (auto simp: in_set_conv_nth)
    then have "\<exists>w\<in>set (inj_Writes ?acc). \<not> cw_Init w"
      using inject_add_complete [of "\<lparr> inj_Recs = [], inj_Writes = [] \<rparr>" E recs False 0 cs]
      unfolding changes_container_def by blast
    then show "\<exists>w\<in>set (inj_Writes (Inject E cs ics False recs)). \<not> cw_Init w" using sub by blast
  qed
  show "(\<exists>w\<in>set (inj_Writes (Inject E cs ics False recs)). cw_Init w \<and> P (ics ! cw_Index w)) \<longleftrightarrow>
     (\<exists>c\<in>set ics. P c \<and> changes_container E recs c)"
  proof
    assume "\<exists>w\<in>set (inj_Writes (Inject E cs ics False recs)). cw_Init w \<and> P (ics ! cw_Index w)"
    then obtain w where w: "w \<in> set (inj_Writes (Inject E cs ics False recs))" "cw_Init w" "P (ics ! cw_Index w)" by blast
    from Inject_writes [OF w(1)] obtain c where "changes_container E recs c" "c \<in> set ics" "P c"
      using w(2,3) unfolding changes_container_def by (metis nth_mem)
    then show "\<exists>c\<in>set ics. P c \<and> changes_container E recs c" by blast
  next
    assume "\<exists>c\<in>set ics. P c \<and> changes_container E recs c"
    then obtain j where "j < length ics" "P (ics ! j)" "changes_container E recs (ics ! j)" by (auto simp: in_set_conv_nth)
    then show "\<exists>w\<in>set (inj_Writes (Inject E cs ics False recs)). cw_Init w \<and> P (ics ! cw_Index w)"
      using inject_add_complete [of ?acc E recs True 0 ics] unfolding eq changes_container_def by fastforce
  qed
qed

lemma resized_none_iff:
  "rz_regular (resized E pod (pl_recs (planFor E pod recs tol))) = [] \<and>
   rz_sidecars (resized E pod (pl_recs (planFor E pod recs tol))) = [] \<longleftrightarrow> pl_change (planFor E pod recs tol) = NoChange"
proof -
  let ?recs = "pl_recs (planFor E pod recs tol)"
  let ?ws = "inj_Writes (Inject E (pod_Containers pod) (pod_InitContainers pod) False ?recs)"
  let ?r = "\<lparr> rz_containers = pod_Containers pod, rz_initContainers = pod_InitContainers pod, rz_regular = [], rz_sidecars = [] \<rparr>"
  have idx: "\<forall>w\<in>set ?ws. cw_Init w \<longrightarrow> cw_Index w < length (rz_initContainers ?r)"
    by (metis Inject_writes pod_resize.select_convs(2))
  have "rz_regular (resized E pod ?recs) = [] \<longleftrightarrow> \<not> (\<exists>w\<in>set ?ws. \<not> cw_Init w)"
    using resize_write_fold [of ?ws ?r] by (auto simp: resized_def filter_empty_conv)
  moreover have "rz_sidecars (resized E pod ?recs) = [] \<longleftrightarrow>
      \<not> (\<exists>w\<in>set ?ws. cw_Init w \<and> isRestartableInitContainer (pod_InitContainers pod ! cw_Index w))"
    using resize_sidecars_fold [OF idx] unfolding resized_def by auto
  ultimately show ?thesis
    unfolding Inject_writes_iff by (auto simp: planFor_def Let_def plan_change_none)
qed

section \<open>Who may be evicted\<close>

definition gate_open :: "eviction_gate \<Rightarrow> 'q pod \<Rightarrow> bool" where
  "gate_open eg pod \<longleftrightarrow> (eg_ignoreSafeToEvict eg \<or> lookup_or [] (pod_Annotations pod) SafeToEvictAnnotation \<noteq> ''false'') \<and>
     eg_halted eg = None"

definition needs_eviction :: "'q env \<Rightarrow> 'q recs \<Rightarrow> 'q tolerance \<Rightarrow> 'q pod \<Rightarrow> bool" where
  "needs_eviction E recs tol pod \<longleftrightarrow> stale (planFor E pod recs tol) \<or>
     (resizePendingReason pod = ''Infeasible'' \<or> resizePendingReason pod = ''Error'') \<and> stagedRequests E pod"

lemma submitEviction_cong:
  "(gate_open eg pod \<Longrightarrow> ev pod = cl_Evict cl pod) \<Longrightarrow>
     submitEviction (cl\<lparr>cl_Evict := ev\<rparr>) eg pod = submitEviction cl eg pod"
  by (auto simp: fun_eq_iff submitEviction_def gate_open_def split: option.split prod.split)

lemma resizeWith_cong:
  assumes "rz_regular (resized E pod recs) = [] \<and> rz_sidecars (resized E pod recs) = [] \<Longrightarrow>
        resizePendingReason pod = ''Infeasible'' \<or> resizePendingReason pod = ''Error'' \<Longrightarrow>
        onUnsatisfiable s' pod = onUnsatisfiable s pod"
    and "rz_regular (resized E pod recs) \<noteq> [] \<Longrightarrow> onUnapplied s' pod = onUnapplied s pod"
  shows "resizePodInPlaceWith E cl s' pod recs st = resizePodInPlaceWith E cl s pod recs st"
proof (cases "rz_regular (resized E pod recs) = []")
  case True
  then show ?thesis using assms(1) by (simp add: resizePodInPlaceWith_def Let_def)
next
  case False
  let ?pod = "pod\<lparr>pod_Containers := rz_containers (resized E pod recs)\<rparr>"
  obtain a pod1 st1 where sub: "submitInPlaceResize cl ?pod pod st = (a, pod1, st1)" by (rule prod_cases3)
  have "a = ResizeInvalid \<Longrightarrow> pod1 = pod"
    using sub by (auto simp: submitInPlaceResize_def revertStagedResize_def split: prod.splits sum.splits if_splits)
  then show ?thesis
    using False sub assms(2) [OF False] by (cases a) (simp_all add: resizePodInPlaceWith_def Let_def)
qed

lemma recycle_pod_cong:
  assumes "gate_open eg pod \<and> needs_eviction E recs tol pod \<Longrightarrow> ev pod = cl_Evict cl pod"
  shows "recycle_pod E p (cl\<lparr>cl_Evict := ev\<rparr>) eg pod (planFor E pod recs tol) st =
         recycle_pod E p cl eg pod (planFor E pod recs tol) st"
proof -
  let ?plan = "planFor E pod recs tol" and ?cl = "cl\<lparr>cl_Evict := ev\<rparr>"
  have sub: "submitEviction ?cl eg pod = submitEviction cl eg pod" if "needs_eviction E recs tol pod"
    using assms that by (intro submitEviction_cong) blast
  have patch: "patchPodInPlace E ?cl eg pod (pl_recs ?plan) st = patchPodInPlace E cl eg pod (pl_recs ?plan) st"
    if "pl_change ?plan \<noteq> LimitChange"
    unfolding patchPodInPlace_def evict_irrelevant
  proof (rule resizeWith_cong)
    assume "resizePendingReason pod = ''Infeasible'' \<or> resizePendingReason pod = ''Error''"
    then show "onUnsatisfiable (evict_instead E ?cl eg) pod = onUnsatisfiable (evict_instead E cl eg) pod"
      using sub by (cases "stagedRequests E pod") (simp_all add: evict_instead_def needs_eviction_def)
  next
    assume "rz_regular (resized E pod (pl_recs ?plan)) \<noteq> []"
    then have "pl_change ?plan \<noteq> NoChange" using resized_none_iff by blast
    then have "stale ?plan" using that by (cases "pl_change ?plan") (simp_all add: stale_def)
    then show "onUnapplied (evict_instead E ?cl eg) pod = onUnapplied (evict_instead E cl eg) pod"
      using sub by (simp add: evict_instead_def needs_eviction_def)
  qed
  show ?thesis
    using sub patch by (simp add: recycle_pod_def Let_def needs_eviction_def)
qed

lemma recycle_loop_cong:
  assumes "\<And>pod. pod \<in> set pods \<Longrightarrow> countable_pod pod \<Longrightarrow> gate_open eg pod \<Longrightarrow>
      needs_eviction E recs (as_Tolerance s) pod \<Longrightarrow> ev pod = cl_Evict cl pod"
  shows "recycle_loop E p (cl\<lparr>cl_Evict := ev\<rparr>) namespace selector eg recs s pods (c, errs, seen) st =
         recycle_loop E p cl namespace selector eg recs s pods (c, errs, seen) st"
  using assms
proof (induction pods arbitrary: c errs seen st)
  case (Cons pod pods)
  have ih: "recycle_loop E p (cl\<lparr>cl_Evict := ev\<rparr>) namespace selector eg recs s pods (c, errs, seen) st =
         recycle_loop E p cl namespace selector eg recs s pods (c, errs, seen) st" for c errs seen st
    by (rule Cons.IH) (simp add: Cons.prems)
  have "recycle_pod E p (cl\<lparr>cl_Evict := ev\<rparr>) eg pod (planFor E pod recs (as_Tolerance s)) st1 =
      recycle_pod E p cl eg pod (planFor E pod recs (as_Tolerance s)) st1" if "countable_pod pod" for st1
    by (rule recycle_pod_cong) (simp add: Cons.prems that)
  then show ?case by (cases "countable_pod pod") (simp_all add: ih cong: into_cases)
qed simp

lemma insert_left_mset: "mset (insert_left c x xs) = add_mset x (mset xs)"
  by (induction xs) auto

lemma SortStableFunc_mset: "mset (SortStableFunc c xs) = mset xs"
proof -
  have "mset (fold (insert_left c) xs ys) = mset xs + mset ys" for ys
    by (induction xs arbitrary: ys) (auto simp: insert_left_mset)
  then show ?thesis by (simp add: SortStableFunc_def)
qed

lemma sortPods_mset: "mset (sortPodsForRecycle pods) = mset pods"
  by (simp add: sortPodsForRecycle_def SortStableFunc_mset)

lemma sortPods_set [simp]: "set (sortPodsForRecycle pods) = set pods"
  using sortPods_mset [of pods] by (rule mset_eq_setD)

text \<open>C16. A pass evicts only what it may: every eviction call is for a pod of the set that is live, whose
  requests the Recommendation changes beyond the tolerance or whose staged resize of a request the kubelet
  could not carry out, that is not marked unsafe to evict unless the Policy overrides it, and only while no
  live pod that already runs the Recommendation crash-loops. For any other pod, whatever the call would do,
  the pass goes the same.\<close>

theorem evicts_only_when_due:
  assumes "\<And>pod. pod \<in> set (set_pods ps) \<Longrightarrow> countable_pod pod \<Longrightarrow> needs_eviction E recs (as_Tolerance s) pod \<Longrightarrow>
      as_IgnoreSafeToEvict s \<or> lookup_or [] (pod_Annotations pod) SafeToEvictAnnotation \<noteq> ''false'' \<Longrightarrow>
      \<not> (\<exists>q\<in>set (set_pods ps). countable_pod q \<and> hasCrashLoopBackOff q \<and> \<not> stale (planFor E q recs (as_Tolerance s))) \<Longrightarrow>
      ev pod = cl_Evict cl pod"
  shows "recycle E p (cl\<lparr>cl_Evict := ev\<rparr>) ps recs s st = recycle E p cl ps recs s st"
proof -
  let ?pods = "sortPodsForRecycle (set_pods ps)"
  have "ev pod = cl_Evict cl pod" if "pod \<in> set ?pods" "countable_pod pod" "gate_open (recycle_gate E ?pods recs s) pod"
    "needs_eviction E recs (as_Tolerance s) pod" for pod
    using that by (intro assms) (auto simp: gate_open_def recycle_gate_def updatedPodCrashLooping_def list_ex_iff split: if_splits)
  then show ?thesis unfolding recycle_def Let_def by (subst recycle_loop_cong) simp_all
qed

theorem evicts_only_when_due_witness:
  "let safe = (demo_pod ''web-1'' ''Pending'')\<lparr>pod_Annotations := [(SafeToEvictAnnotation, ''false'')]\<rparr>;
       pods = [demo_pod ''web-0'' ''Pending'', safe];
       ps = \<lparr> set_pods = pods, set_namespace = ''shop'', set_selector = Some () \<rparr>;
       cl = stuck_cluster pods
   in recycle fixed_env (NewPatcher True []) (cl\<lparr>cl_Evict := \<lambda>pod. if pod = safe then (\<lambda>st. (Some (ApiStatus 500), st)) else cl_Evict cl pod\<rparr>)
        ps demo_recs demo_settings 0
      = recycle fixed_env (NewPatcher True []) cl ps demo_recs demo_settings 0"
  unfolding Let_def
proof (rule evicts_only_when_due)
  let ?safe = "(demo_pod ''web-1'' ''Pending'')\<lparr>pod_Annotations := [(SafeToEvictAnnotation, ''false'')]\<rparr>"
  fix pod :: "fixed pod"
  assume "as_IgnoreSafeToEvict demo_settings \<or> lookup_or [] (pod_Annotations pod) SafeToEvictAnnotation \<noteq> ''false''"
  then have "pod \<noteq> ?safe" by (auto simp: demo_settings_def lookup_or_def)
  then show "(if pod = ?safe then \<lambda>st. (Some (ApiStatus 500), st) else cl_Evict (stuck_cluster [demo_pod ''web-0'' ''Pending'', ?safe] :: (fixed, unit option, time) pod_client) pod)
      = cl_Evict (stuck_cluster [demo_pod ''web-0'' ''Pending'', ?safe] :: (fixed, unit option, time) pod_client) pod" by simp
qed

section \<open>One at a time\<close>

definition quiet :: "'q pod list \<Rightarrow> bool" where
  "quiet pods \<longleftrightarrow> (\<forall>q\<in>set pods. \<not> hasCrashLoopBackOff q \<and> \<not> isProgressing q)"

lemma wait_scan_quiet: "wait_scan name uid pods (g, n) = Inr (True, 0) \<Longrightarrow> 0 \<le> n \<Longrightarrow> g \<and> n = 0 \<and> quiet pods"
proof (induction pods arbitrary: g n)
  case (Cons q pods)
  from Cons.prems(1) have no: "\<not> hasCrashLoopBackOff q" by (auto split: if_splits)
  consider "wait_scan name uid pods (False, n) = Inr (True, 0)" |
    "wait_scan name uid pods (g, if isProgressing q then n + 1 else n) = Inr (True, 0)"
    using Cons.prems(1) no by (auto split: if_splits)
  then show ?case
  proof cases
    case 1
    then show ?thesis using Cons.IH [OF 1 Cons.prems(2)] by simp
  next
    case 2
    then have "g \<and> (if isProgressing q then n + 1 else n) = 0 \<and> quiet pods"
      by (rule Cons.IH) (use Cons.prems(2) in simp)
    then show ?thesis using no Cons.prems(2) by (auto simp: quiet_def split: if_splits)
  qed
qed (simp add: quiet_def)

lemma wait_loop_quiet:
  assumes "wait_loop p cl namespace selector name uid deadline st = Some y" "fst y = None"
  shows "\<exists>st0 pods st1. cl_ListPods cl namespace selector st0 = (Inr pods, st1) \<and> quiet pods"
  using assms
proof (induction rule: wait_loop.raw_induct [rotated, consumes 1])
  case (1 f p cl namespace selector name uid deadline st y)
  obtain r st1 where l: "cl_ListPods cl namespace selector st = (r, st1)" by fastforce
  obtain sy where y: "y = (None, sy)" using 1(3) by (cases y) auto
  from l 1(2) y obtain pods where r: "r = Inr pods" by (cases r) auto
  show ?case
  proof (cases "wait_scan name uid pods (True, 0) = Inr (True, 0)")
    case True
    then show ?thesis using wait_scan_quiet [OF True] l r by auto
  next
    case False
    with 1(2) l r y obtain st3 where "f p cl namespace selector name uid deadline st3 = Some y"
      by (auto split: sum.splits prod.splits option.splits if_splits)
    then show ?thesis using 1(1) 1(3) by blast
  qed
qed

lemma changes_keep_evicted [simp]:
  "ar_Evicted (ch_res (changes_resized pod ws c)) = ar_Evicted (ch_res c)"
  "ar_Evicted (ch_res (changes_suppressed rns c)) = ar_Evicted (ch_res c)"
  "ar_Evicted (ch_res (changes_evicted E pod recs c)) = ar_Evicted (ch_res c) @ [pod_Name pod]"
proof -
  have "ar_Evicted (fold countSuppressed rns r) = ar_Evicted r" for r
    by (induction rns arbitrary: r) (simp_all add: countSuppressed_def)
  then show "ar_Evicted (ch_res (changes_suppressed rns c)) = ar_Evicted (ch_res c)" by (simp add: changes_suppressed_def)
qed (simp_all add: changes_resized_def changes_evicted_def Let_def split: prod.split)

lemma recycle_loop_evicts_once:
  assumes "\<And>st0 pods st1. cl_ListPods cl namespace selector st0 = (Inr pods, st1) \<Longrightarrow> \<not> quiet pods"
  shows "recycle_loop E p cl namespace selector eg recs s pods (c, errs, seen) st = Some ((c', errs', seen', ctx), st') \<Longrightarrow>
    ar_Evicted (ch_res c') = ar_Evicted (ch_res c) \<or>
    length (ar_Evicted (ch_res c')) = Suc (length (ar_Evicted (ch_res c))) \<and> errs' \<noteq> []"
proof (induction pods arbitrary: c errs seen st)
  case (Cons pod pods)
  let ?c1 = "changes_suppressed (observeSuppressed recs (pl_recs (planFor E pod recs (as_Tolerance s)))) c"
  have wait: "\<exists>e st3. waitForReplacement p cl namespace selector name uid st2 = Some (Some e, st3)"
    if "waitForReplacement p cl namespace selector name uid st2 = Some y" for name uid st2 y
  proof -
    obtain now st3 where "cl_Now cl st2 = (now, st3)" by fastforce
    with that have w: "wait_loop p cl namespace selector name uid (now + pt_readyTimeout p) st3 = Some y"
      by (simp add: waitForReplacement_def)
    have "fst y \<noteq> None" using wait_loop_quiet [OF w] assms by blast
    with that show ?thesis by (cases y) auto
  qed
  obtain ctx0 st1 where ctx0: "cl_CtxErr cl st = (ctx0, st1)" by fastforce
  obtain written evicted err pod' st2 where
    rp: "recycle_pod E p cl eg pod (planFor E pod recs (as_Tolerance s)) st1 = ((written, evicted, err, pod'), st2)"
    by (cases "recycle_pod E p cl eg pod (planFor E pod recs (as_Tolerance s)) st1") auto
  consider (ctx) e where "ctx0 = Some e" | (skip) "ctx0 = None" "\<not> countable_pod pod" |
    (halt) "ctx0 = None" "countable_pod pod" "is_crash_loop err" |
    (kept) "ctx0 = None" "countable_pod pod" "\<not> is_crash_loop err" "\<not> evicted" |
    (gone) "ctx0 = None" "countable_pod pod" "\<not> is_crash_loop err" "evicted" by (cases ctx0) auto
  then show ?case
  proof cases
    case ctx
    then show ?thesis using Cons.prems ctx0 by simp
  next
    case skip
    then show ?thesis using Cons.prems ctx0 by (intro Cons.IH) simp
  next
    case halt
    then show ?thesis using Cons.prems ctx0 rp by (auto simp: Let_def)
  next
    case kept
    then have "recycle_loop E p cl namespace selector eg recs s pods
        (if written \<noteq> [] then changes_resized pod' written ?c1 else ?c1, case err of Some e \<Rightarrow> errs @ [Wrap e] | None \<Rightarrow> errs, seen @ [pod']) st2
      = Some ((c', errs', seen', ctx), st')" using Cons.prems ctx0 rp by (simp add: Let_def)
    from Cons.IH [OF this] show ?thesis by (simp split: if_splits)
  next
    case gone
    obtain y where y: "waitForReplacement p cl namespace selector (pod_Name pod') (pod_UID pod') st2 = Some y"
      using gone Cons.prems ctx0 rp by (cases "waitForReplacement p cl namespace selector (pod_Name pod') (pod_UID pod') st2") (simp_all add: Let_def)
    from wait [OF y] obtain e st3 where "waitForReplacement p cl namespace selector (pod_Name pod') (pod_UID pod') st2 = Some (Some e, st3)"
      by blast
    then show ?thesis using gone Cons.prems ctx0 rp by (auto simp: Let_def)
  qed
qed auto

text \<open>A pass evicts one pod at a time: as long as every look at the workload's pods shows one that
  crash-loops or is still on its way to being ready, the pass evicts at most one pod, and having evicted one
  it reports an error.\<close>

theorem one_eviction_until_quiet:
  assumes "\<And>st0 pods st1. cl_ListPods cl (set_namespace ps) (set_selector ps) st0 = (Inr pods, st1) \<Longrightarrow>
      \<exists>q\<in>set pods. hasCrashLoopBackOff q \<or> isProgressing q"
    and "recycle E p cl ps recs s st = Some ((res, err), st')"
  shows "length (ar_Evicted res) \<le> 1 \<and> (ar_Evicted res \<noteq> [] \<longrightarrow> err \<noteq> None)"
proof -
  let ?pods = "sortPodsForRecycle (set_pods ps)"
  obtain c errs seen ctx where
    loop: "recycle_loop E p cl (set_namespace ps) (set_selector ps) (recycle_gate E ?pods recs s) recs s ?pods (newChanges, [], []) st =
      Some ((c, errs, seen, ctx), st')"
    and res: "(res, err) = changes_result E c seen recs (as_Tolerance s) (case ctx of Some e \<Rightarrow> Some e | None \<Rightarrow> errors_Join errs)"
    using assms(2) by (auto simp: recycle_def Let_def split: option.splits)
  have "ar_Evicted (ch_res c) = [] \<or> length (ar_Evicted (ch_res c)) = 1 \<and> errs \<noteq> []"
    using recycle_loop_evicts_once [OF _ loop] assms(1) by (fastforce simp: quiet_def newChanges_def zero_result_def)
  then show ?thesis
    using res by (auto simp: changes_result_def Let_def errors_Join_def split: option.splits if_splits)
qed

theorem one_eviction_until_quiet_witness:
  "let pods = [demo_pod ''web-0'' ''Pending'', demo_pod ''web-1'' ''Pending''];
       ps = \<lparr> set_pods = pods, set_namespace = ''shop'', set_selector = () \<rparr>
   in \<exists>res err st'. recycle fixed_env (NewPatcher False []) (stuck_cluster pods) ps demo_recs demo_settings 0 = Some ((res, err), st') \<and>
        length (ar_Evicted res) \<le> 1"
proof -
  let ?pods = "[demo_pod ''web-0'' ''Pending'', demo_pod ''web-1'' ''Pending'']"
  let ?ps = "\<lparr> set_pods = ?pods, set_namespace = ''shop'', set_selector = () \<rparr>"
  obtain res err st' where r: "recycle fixed_env (NewPatcher False []) (stuck_cluster ?pods) ?ps demo_recs demo_settings 0 = Some ((res, err), st')"
    using recycle_returns [OF stuck_cluster_clock, of "NewPatcher False []" fixed_env ?pods ?ps demo_recs demo_settings 0]
    by (auto simp: NewPatcher_def)
  have busy: "\<exists>q\<in>set pods. hasCrashLoopBackOff q \<or> isProgressing q"
    if "cl_ListPods (stuck_cluster ?pods) (set_namespace ?ps) (set_selector ?ps) st0 = (Inr pods, st1)" for st0 pods st1
    using that by (auto simp: stuck_cluster_def demo_pod_def isProgressing_def)
  have "length (ar_Evicted res) \<le> 1 \<and> (ar_Evicted res \<noteq> [] \<longrightarrow> err \<noteq> None)"
    by (rule one_eviction_until_quiet [OF _ r]) (rule busy)
  then show ?thesis using r unfolding Let_def by blast
qed

section \<open>Accepted resizes\<close>

text \<open>An API server that takes every resize and answers with the pod it was sent, and a context that lives.\<close>

definition accepts_resizes :: "('q, 'sel, 'st) pod_client \<Rightarrow> bool" where
  "accepts_resizes cl \<longleftrightarrow> (\<forall>pod base st. \<exists>st'. cl_Resize cl pod base st = (Inr pod, st')) \<and> (\<forall>st. fst (cl_CtxErr cl st) = None)"

definition same_pod :: "'q pod \<Rightarrow> 'q pod \<Rightarrow> bool" where
  "same_pod a b \<longleftrightarrow> pod_Name a = pod_Name b \<and> pod_UID a = pod_UID b \<and> pod_Deleting a = pod_Deleting b \<and> pod_Phase a = pod_Phase b"

lemma accepted_resize:
  assumes "accepts_resizes cl"
    and "resizePodInPlaceNoEvict E cl pod (pl_recs (planFor E pod recs tol)) st = ((written, evicted, err, pod'), st')"
  shows "err = None \<and> same_pod pod' pod \<and> (written = [] \<longleftrightarrow> pl_change (planFor E pod recs tol) = NoChange) \<and> (written = [] \<longrightarrow> pod' = pod)"
proof -
  let ?r = "resized E pod (pl_recs (planFor E pod recs tol))"
  have ex: "\<exists>st'. cl_Resize cl pod base st = (Inr pod, st')" for pod base st
    using assms(1) by (simp add: accepts_resizes_def)
  show ?thesis
  proof (cases "rz_regular ?r = []")
    case True
    obtain st1 where "cl_Resize cl (pod\<lparr>pod_InitContainers := rz_initContainers ?r\<rparr>) (pod\<lparr>pod_InitContainers := pod_InitContainers pod\<rparr>) st =
        (Inr (pod\<lparr>pod_InitContainers := rz_initContainers ?r\<rparr>), st1)" using ex by blast
    then show ?thesis
      using assms(2) True resized_none_iff [of E pod recs tol]
      by (auto simp: resizePodInPlaceNoEvict_def resizePodInPlaceWith_def never_evict_def applySidecarResize_def Let_def
        same_pod_def split: if_splits)
  next
    case False
    let ?pod = "pod\<lparr>pod_Containers := rz_containers ?r\<rparr>"
    obtain st1 where 1: "cl_Resize cl ?pod pod st = (Inr ?pod, st1)" using ex by blast
    obtain st2 where 2: "cl_Resize cl (?pod\<lparr>pod_InitContainers := rz_initContainers ?r\<rparr>) (?pod\<lparr>pod_InitContainers := pod_InitContainers pod\<rparr>) st1 =
        (Inr (?pod\<lparr>pod_InitContainers := rz_initContainers ?r\<rparr>), st2)" using ex by blast
    show ?thesis
      using assms(2) False 1 2 resized_none_iff [of E pod recs tol]
      by (auto simp: resizePodInPlaceNoEvict_def resizePodInPlaceWith_def never_evict_def submitInPlaceResize_def
        applySidecarResize_def Let_def same_pod_def split: if_splits)
  qed
qed

lemma changes_keep [simp]:
  "ch_fixed (changes_suppressed rns c) = ch_fixed c"
  "ch_fixed (changes_resized pod ws c) = List.insert (pod_UID pod) (ch_fixed c)"
  "ar_Resized (ch_res (changes_resized pod ws c)) = ar_Resized (ch_res c) @ [pod_Name pod]"
  "ar_Resized (ch_res (changes_suppressed rns c)) = ar_Resized (ch_res c)"
proof -
  have "ar_Resized (fold countSuppressed rns r) = ar_Resized r" for r
    by (induction rns arbitrary: r) (simp_all add: countSuppressed_def)
  then show "ar_Resized (ch_res (changes_suppressed rns c)) = ar_Resized (ch_res c)" by (simp add: changes_suppressed_def)
qed (simp_all add: changes_resized_def changes_suppressed_def)

definition resizable :: "'q env \<Rightarrow> 'q recs \<Rightarrow> 'q tolerance \<Rightarrow> 'q pod \<Rightarrow> bool" where
  "resizable E recs tol pod \<longleftrightarrow> \<not> pod_Deleting pod \<and> pod_Phase pod = ''Running'' \<and> pl_change (planFor E pod recs tol) \<noteq> NoChange"

definition converged :: "'q env \<Rightarrow> 'q recs \<Rightarrow> 'q tolerance \<Rightarrow> string list \<Rightarrow> 'q pod \<Rightarrow> bool" where
  "converged E recs tol fixed pod \<longleftrightarrow> (countable_pod pod \<longrightarrow> pod_UID pod \<in> set fixed \<or> \<not> stale (planFor E pod recs tol))"

lemma resize_only_accepted:
  assumes "accepts_resizes cl" "\<forall>pod\<in>set pods. countable_pod pod \<longrightarrow> pod_Phase pod = ''Running''"
    and "resize_only_loop E cl recs s pods (c, errs, seen) st = ((c', errs', seen', ctx), st')"
    and "\<forall>pod\<in>set seen. converged E recs (as_Tolerance s) (ch_fixed c) pod"
  shows "errs' = errs \<and> ctx = None \<and> (\<forall>pod\<in>set seen'. converged E recs (as_Tolerance s) (ch_fixed c') pod) \<and>
    length (filter countable_pod seen') = length (filter countable_pod seen) + length (filter countable_pod pods) \<and>
    ar_Resized (ch_res c') = ar_Resized (ch_res c) @ map pod_Name (filter (resizable E recs (as_Tolerance s)) pods)"
  using assms(2-)
proof (induction pods arbitrary: c errs seen st)
  case (Cons pod pods)
  let ?tol = "as_Tolerance s"
  obtain ctx0 st1 where "cl_CtxErr cl st = (ctx0, st1)" by fastforce
  moreover have "fst (cl_CtxErr cl st) = None" using assms(1) by (simp add: accepts_resizes_def)
  ultimately have ctx: "cl_CtxErr cl st = (None, st1)" by simp
  have run: "\<forall>q\<in>set pods. countable_pod q \<longrightarrow> pod_Phase q = ''Running''" using Cons.prems(1) by simp
  show ?case
  proof (cases "pod_Deleting pod \<or> pod_Phase pod \<noteq> ''Running''")
    case True
    have "countable_pod pod \<longrightarrow> pod_Phase pod = ''Running''" using Cons.prems(1) by simp
    then have un: "\<not> countable_pod pod" "\<not> resizable E recs ?tol pod" using True by (auto simp: countable_pod_def resizable_def)
    have loop: "resize_only_loop E cl recs s pods (c, errs, seen @ [pod]) st1 = ((c', errs', seen', ctx), st')"
      using Cons.prems(2) True by (simp add: ctx)
    have keep: "\<forall>q\<in>set (seen @ [pod]). converged E recs ?tol (ch_fixed c) q"
      using Cons.prems(3) un by (simp add: converged_def)
    show ?thesis using Cons.IH [OF run loop keep] un by simp
  next
    case False
    let ?plan = "planFor E pod recs ?tol"
    let ?c1 = "changes_suppressed (observeSuppressed recs (pl_recs ?plan)) c"
    obtain written evicted err pod' st2 where r: "resizePodInPlaceNoEvict E cl pod (pl_recs ?plan) st1 = ((written, evicted, err, pod'), st2)"
      by (cases "resizePodInPlaceNoEvict E cl pod (pl_recs ?plan) st1") auto
    note a = accepted_resize [OF assms(1) r]
    let ?c2 = "if written \<noteq> [] then changes_resized pod' written ?c1 else ?c1"
    have loop: "resize_only_loop E cl recs s pods (?c2, errs, seen @ [pod']) st2 = ((c', errs', seen', ctx), st')"
      using Cons.prems(2) False r a by (simp add: ctx Let_def)
    have here: "converged E recs ?tol (ch_fixed ?c2) pod'"
      using a unfolding converged_def stale_def by (cases "written = []") simp_all
    have keep: "\<forall>q\<in>set (seen @ [pod']). converged E recs ?tol (ch_fixed ?c2) q"
      using Cons.prems(3) here unfolding converged_def by auto
    have names: "pod_Name pod' = pod_Name pod" "countable_pod pod' = countable_pod pod" "resizable E recs ?tol pod \<longleftrightarrow> written \<noteq> []"
      using a False by (auto simp: same_pod_def countable_pod_def resizable_def)
    have "ar_Resized (ch_res ?c2) = ar_Resized (ch_res c) @ map pod_Name (filter (resizable E recs ?tol) [pod])"
      using names by simp
    then show ?thesis using Cons.IH [OF run loop keep] names(2) by simp
  qed
qed simp

lemma countPods_eq:
  "countPods E pods recs tol fixed =
     \<lparr> pc_Total = int (length (filter countable_pod pods)),
       pc_Stale = int (length (filter (\<lambda>pod. \<not> converged E recs tol fixed pod) pods)) \<rparr>"
proof -
  have "fold (count_step E recs tol fixed) pods n =
     \<lparr> pc_Total = pc_Total n + int (length (filter countable_pod pods)),
       pc_Stale = pc_Stale n + int (length (filter (\<lambda>pod. \<not> converged E recs tol fixed pod) pods)) \<rparr>" for n
    by (induction pods arbitrary: n) (auto simp: count_step_def converged_def)
  then show ?thesis by (simp add: countPods_def)
qed

text \<open>C18. Accepted resizes converge: where the API server takes every resize and all live pods run, a pass over
  an in-place-only member's pods succeeds, resizes exactly the pods the Recommendation changes, once each,
  and counts all live pods, none stale.\<close>

theorem accepted_resizes_converge:
  assumes "pt_inPlace p" "accepts_resizes cl" "\<forall>pod\<in>set pods. countable_pod pod \<longrightarrow> pod_Phase pod = ''Running''"
  shows "\<exists>res st'. resizeInPlaceOnly E p cl pods recs s st = ((res, None), st') \<and>
    ar_Resized res = map pod_Name (filter (resizable E recs (as_Tolerance s)) pods) \<and>
    ar_Counted res \<and> ar_Pods res = \<lparr> pc_Total = int (length (filter countable_pod pods)), pc_Stale = 0 \<rparr>"
proof -
  obtain c errs seen ctx st' where
    loop: "resize_only_loop E cl recs s pods (newChanges, [], []) st = ((c, errs, seen, ctx), st')"
    by (cases "resize_only_loop E cl recs s pods (newChanges, [], []) st") auto
  note r = resize_only_accepted [OF assms(2,3) loop]
  have "filter (\<lambda>pod. \<not> converged E recs (as_Tolerance s) (ch_fixed c) pod) seen = []"
    using r by (simp add: filter_empty_conv)
  then show ?thesis
    using r loop assms(1)
    by (simp add: resizeInPlaceOnly_def changes_result_def errors_Join_def countPods_eq Let_def newChanges_def zero_result_def)
qed

theorem accepted_resizes_converge_witness:
  "let pods = [demo_pod ''job-1'' ''Running'', demo_pod ''job-0'' ''Succeeded''];
       cl = (stuck_cluster pods :: (fixed, unit, time) pod_client)\<lparr>cl_Resize := \<lambda>pod _ st. (Inr pod, st)\<rparr>
   in \<exists>res st'. resizeInPlaceOnly fixed_env (NewPatcher True []) cl pods demo_recs demo_settings 0 = ((res, None), st') \<and>
        ar_Pods res = \<lparr> pc_Total = 1, pc_Stale = 0 \<rparr>"
proof -
  let ?pods = "[demo_pod ''job-1'' ''Running'', demo_pod ''job-0'' ''Succeeded'']"
  let ?cl = "(stuck_cluster ?pods :: (fixed, unit, time) pod_client)\<lparr>cl_Resize := \<lambda>pod _ st. (Inr pod, st)\<rparr>"
  have acc: "accepts_resizes ?cl" by (simp add: accepts_resizes_def stuck_cluster_def)
  have run: "\<forall>pod\<in>set ?pods. countable_pod pod \<longrightarrow> pod_Phase pod = ''Running''"
    by (simp add: countable_pod_def demo_pod_def)
  have inpl: "pt_inPlace (NewPatcher True [])" by (simp add: NewPatcher_def)
  obtain res st' where "resizeInPlaceOnly fixed_env (NewPatcher True []) ?cl ?pods demo_recs demo_settings 0 = ((res, None), st')"
    "ar_Pods res = \<lparr> pc_Total = int (length (filter countable_pod ?pods)), pc_Stale = 0 \<rparr>"
    using accepted_resizes_converge [OF inpl acc run, of fixed_env demo_recs demo_settings 0] by (elim exE conjE) (rule that)
  moreover have "length (filter countable_pod ?pods) = 1" by (simp add: countable_pod_def demo_pod_def)
  ultimately show ?thesis unfolding Let_def by auto
qed

section \<open>Whose pods\<close>

text \<open>\<open>rs\<close> are the ReplicaSets the client reads, which hold still for the pass.\<close>

definition reads_replicasets ::
  "('q, 'ls, 'sel, 'st) member_reader \<Rightarrow> (string \<Rightarrow> string \<Rightarrow> go_error + owner_reference list) \<Rightarrow> bool" where
  "reads_replicasets mr rs \<longleftrightarrow> (\<forall>ns n st. fst (mr_GetReplicaSet mr ns n st) = rs ns n)"

definition replicaset_owned :: "(string \<Rightarrow> string \<Rightarrow> go_error + owner_reference list) \<Rightarrow> string \<Rightarrow> string \<Rightarrow> string \<Rightarrow> bool" where
  "replicaset_owned rs uid ns n = (case rs ns n of Inr refs \<Rightarrow> IsOwnedBy refs uid | Inl _ \<Rightarrow> False)"

definition controlled_by :: "(string \<Rightarrow> string \<Rightarrow> go_error + owner_reference list) \<Rightarrow> string \<Rightarrow> 'q pod \<Rightarrow> bool" where
  "controlled_by rs uid pod =
     (case GetControllerOf (pod_OwnerReferences pod) of
        None \<Rightarrow> False
      | Some ref \<Rightarrow> ref_UID ref = uid \<or> ref_Kind ref = ''ReplicaSet'' \<and> replicaset_owned rs uid (pod_Namespace pod) (ref_Name ref))"

lemma PodOwned_spec:
  assumes "reads_replicasets mr rs" "PodOwnedByWorkload nf mr pod uid memo st = (Inr owned, memo', st')"
    and "\<forall>n b. map_of memo n = Some b \<longrightarrow> b = replicaset_owned rs uid (pod_Namespace pod) n"
  shows "owned = controlled_by rs uid pod \<and> (\<forall>n b. map_of memo' n = Some b \<longrightarrow> b = replicaset_owned rs uid (pod_Namespace pod) n)"
proof (cases "GetControllerOf (pod_OwnerReferences pod)")
  case None
  then show ?thesis using assms(2,3) by (simp add: PodOwnedByWorkload_def controlled_by_def)
next
  case (Some ref)
  obtain r st1 where g: "mr_GetReplicaSet mr (pod_Namespace pod) (ref_Name ref) st = (r, st1)" by fastforce
  moreover have "fst (mr_GetReplicaSet mr (pod_Namespace pod) (ref_Name ref) st) = rs (pod_Namespace pod) (ref_Name ref)"
    using assms(1) by (simp add: reads_replicasets_def)
  ultimately have "rs (pod_Namespace pod) (ref_Name ref) = r" by simp
  then have "replicaset_owned rs uid (pod_Namespace pod) (ref_Name ref) = (case r of Inr refs \<Rightarrow> IsOwnedBy refs uid | Inl _ \<Rightarrow> False)"
    by (simp add: replicaset_owned_def)
  then show ?thesis
    using Some assms(2,3) g
    by (auto simp: PodOwnedByWorkload_def controlled_by_def split: if_splits option.splits sum.splits)
qed

lemma owned_pods_spec:
  assumes "reads_replicasets mr rs" "owned_pods nf mr uid pods out memo st = (Inr out', st')"
    and "\<forall>pod\<in>set pods. pod_Namespace pod = ns" "\<forall>n b. map_of memo n = Some b \<longrightarrow> b = replicaset_owned rs uid ns n"
  shows "out' = out @ filter (controlled_by rs uid) pods"
  using assms(2-)
proof (induction pods arbitrary: out memo st)
  case (Cons pod pods)
  obtain r memo1 st1 where p: "PodOwnedByWorkload nf mr pod uid memo st = (r, memo1, st1)" by (rule prod_cases3)
  with Cons.prems(1) obtain owned where r: "r = Inr owned" by (cases r) auto
  have ns: "pod_Namespace pod = ns" using Cons.prems(2) by simp
  have o: "owned = controlled_by rs uid pod" "\<forall>n b. map_of memo1 n = Some b \<longrightarrow> b = replicaset_owned rs uid ns n"
    using PodOwned_spec [OF assms(1) p [unfolded r]] Cons.prems(3) unfolding ns by blast+
  have "owned_pods nf mr uid pods (if owned then out @ [pod] else out) memo1 st1 = (Inr out', st')"
    using Cons.prems(1) p r by simp
  from Cons.IH [OF this _ o(2)] show ?case using Cons.prems(2) o(1) by simp
qed simp

text \<open>A bystander that merely shares a workload's labels is never touched: the pods found for a member are,
  of those its selector lists, exactly those whose controller is the workload, or a ReplicaSet the workload
  controls. The memo of ReplicaSets does not show.\<close>

theorem selects_exactly_controlled:
  assumes "reads_replicasets mr rs" "selectedPods cl mr t m st = (Inr ps, st')"
    and "\<And>ns sel st pods st'. cl_ListPods cl ns sel st = (Inr pods, st') \<Longrightarrow> \<forall>pod\<in>set pods. pod_Namespace pod = ns"
  shows "\<exists>obj sel pods st1. mem_Object m = Some obj \<and> wo_UID obj \<noteq> [] \<and>
    cl_ListPods cl (wo_Namespace obj) (Some sel) st = (Inr pods, st1) \<and>
    set_pods ps = filter (controlled_by rs (wo_UID obj)) pods"
proof -
  obtain obj where obj: "memberObject t m = Inr obj" using assms(2) by (cases "memberObject t m") (simp_all add: selectedPods_def)
  then have o: "mem_Object m = Some obj" "wo_UID obj \<noteq> []"
    by (auto simp: memberObject_def split: option.splits if_splits)
  from assms(2) obj obtain sel pods st1 out where
    l: "cl_ListPods cl (wo_Namespace obj) (Some sel) st = (Inr pods, st1)"
    and out: "owned_pods (cl_IsNotFound cl) mr (wo_UID obj) pods [] [] st1 = (Inr out, st')" "set_pods ps = out"
    by (auto simp: selectedPods_def split: option.splits sum.splits prod.splits)
  have "out = filter (controlled_by rs (wo_UID obj)) pods"
    using owned_pods_spec [OF assms(1) out(1) assms(3) [OF l]] by simp
  then show ?thesis using o l out(2) by blast
qed

theorem selects_exactly_controlled_witness:
  "let stray = (demo_pod ''debug'' ''Running'')\<lparr>pod_OwnerReferences := []\<rparr>;
       pods = [demo_pod ''web-0'' ''Running'', stray]
   in \<exists>ps. selectedPods (stuck_cluster pods\<lparr>cl_ListPods := \<lambda>ns _ st. (if ns = ''shop'' then Inr pods else Inr [], st)\<rparr>) (demo_reader pods) ''StatefulSet''
          (demo_member ''StatefulSet'' []) 0 = (Inr ps, 0) \<and> set_pods ps = [demo_pod ''web-0'' ''Running'']"
proof -
  let ?stray = "(demo_pod ''debug'' ''Running'')\<lparr>pod_OwnerReferences := []\<rparr>"
  let ?pods = "[demo_pod ''web-0'' ''Running'', ?stray]"
  let ?cl = "stuck_cluster ?pods\<lparr>cl_ListPods := \<lambda>ns (_ :: unit option) st. (if ns = ''shop'' then Inr ?pods else Inr [], st)\<rparr>"
  have rd: "reads_replicasets (demo_reader ?pods) (\<lambda>_ _. Inl (ApiStatus 404))"
    by (simp add: reads_replicasets_def demo_reader_def)
  have owned: "controlled_by rs ''u'' (demo_pod ''web-0'' ''Running'')" "\<not> controlled_by rs ''u'' ?stray" for rs
    by (simp_all add: controlled_by_def demo_pod_def GetControllerOf_def)
  obtain ps where ps: "selectedPods ?cl (demo_reader ?pods) ''StatefulSet'' (demo_member ''StatefulSet'' []) 0 = (Inr ps, 0)"
    by (simp add: selectedPods_def memberObject_def demo_member_def demo_reader_def stuck_cluster_def PodOwnedByWorkload_def
      demo_pod_def GetControllerOf_def)
  have here: "\<forall>pod\<in>set pods. pod_Namespace pod = ns" if "cl_ListPods ?cl ns sel st = (Inr pods, st')" for ns sel st pods st'
    using that by (auto simp: demo_pod_def split: if_splits)
  have "set_pods ps = filter (controlled_by (\<lambda>_ _. Inl (ApiStatus 404)) ''u'') ?pods"
    using selects_exactly_controlled [OF rd ps here] by (auto simp: demo_member_def)
  then have "set_pods ps = [demo_pod ''web-0'' ''Running'']" using owned by simp
  with ps show ?thesis unfolding Let_def by blast
qed

end
