(* ===== verification/Kinds.thy ===== *)
theory Kinds
  imports Apply
begin

text \<open>
  The table of workload kinds (\<open>internal/workload/kindobjects.go\<close>) and the annotations read from an owner
  or a Namespace (\<open>annotations.go\<close>). Of a kind's entry the group and resource are kept; a fresh object and a
  fresh list are named by the kind.
\<close>

record group_resource =
  gr_Group :: string
  gr_Resource :: string

record kind_spec =
  ks_Object :: string
  ks_List :: string
  ks_GroupResource :: group_resource

definition kind_entry :: "string \<Rightarrow> string \<Rightarrow> string \<Rightarrow> string \<times> kind_spec" where
  "kind_entry kind grp rsc =
     (kind, \<lparr> ks_Object = kind, ks_List = kind @ ''List'', ks_GroupResource = \<lparr> gr_Group = grp, gr_Resource = rsc \<rparr> \<rparr>)"

definition ownerKinds :: "(string, kind_spec) gomap" where
  "ownerKinds =
     [kind_entry ''Deployment'' ''apps'' ''deployments'', kind_entry ''StatefulSet'' ''apps'' ''statefulsets'',
      kind_entry ''DaemonSet'' ''apps'' ''daemonsets'', kind_entry ''ReplicaSet'' ''apps'' ''replicasets'',
      kind_entry ''CronJob'' ''batch'' ''cronjobs'', kind_entry ''Job'' ''batch'' ''jobs'',
      kind_entry ''Rollout'' ''argoproj.io'' ''rollouts'']"

definition SupportedKinds :: "string list" where
  "SupportedKinds = [''Deployment'', ''StatefulSet'', ''DaemonSet'', ''Rollout'', ''CronJob'', ''Job'', ''Pod'']"

definition ObjectForKind :: "string \<Rightarrow> string option" where
  "ObjectForKind kind = map_option ks_Object (map_of ownerKinds kind)"

definition ListForKind :: "string \<Rightarrow> string option" where
  "ListForKind kind = map_option ks_List (map_of ownerKinds kind)"

definition GroupResourceForKind :: "string \<Rightarrow> group_resource" where
  "GroupResourceForKind kind =
     (case map_of ownerKinds kind of Some s \<Rightarrow> ks_GroupResource s | None \<Rightarrow> \<lparr> gr_Group = [], gr_Resource = ''pods'' \<rparr>)"

definition OwnerChainKinds :: "string list" where
  "OwnerChainKinds = sort (gkeys ownerKinds)"

text \<open>\<open>applyRules\<close> and \<open>ownerKinds\<close> cover the supported kinds.\<close>

lemma supported_kinds_ruled: "set (gkeys applyRules) = set SupportedKinds"
  by (auto simp: applyRules_def SupportedKinds_def)

lemma supported_kinds_owned: "kind \<in> set SupportedKinds \<Longrightarrow> kind = ''Pod'' \<or> ObjectForKind kind = Some kind"
  by (auto simp: SupportedKinds_def ObjectForKind_def ownerKinds_def kind_entry_def)

section \<open>Annotations of owners\<close>

text \<open>\<open>get\<close> reads the annotations of an object of a kind; a kind nobody knows, and an object not found, have none.\<close>

definition OwnerAnnotations ::
  "(go_error \<Rightarrow> bool) \<Rightarrow> (string \<Rightarrow> string \<Rightarrow> string \<Rightarrow> go_error + str_map) \<Rightarrow> string \<Rightarrow> string \<Rightarrow> string \<Rightarrow> go_error + str_map" where
  "OwnerAnnotations isNotFound get namespace kind name =
     (case ObjectForKind kind of
        None \<Rightarrow> Inr []
      | Some obj \<Rightarrow>
          (case get obj namespace name of
             Inl err \<Rightarrow> if isNotFound err then Inr [] else Inl (Wrap err)
           | Inr ann \<Rightarrow> Inr ann))"

definition NamespaceAnnotations :: "(go_error \<Rightarrow> bool) \<Rightarrow> (string \<Rightarrow> go_error + str_map) \<Rightarrow> string \<Rightarrow> go_error + str_map" where
  "NamespaceAnnotations isNotFound get name =
     (case get name of
        Inl err \<Rightarrow> if isNotFound err then Inr [] else Inl (Wrap err)
      | Inr ann \<Rightarrow> Inr ann)"

end
