(* ===== verification/Webhook.thy ===== *)
theory Webhook
  imports Kinds WlrCache
begin

text \<open>
  The admission webhook (\<open>internal/webhook\<close>): the reader governance decides with (\<open>optin.go\<close>), the stored
  Recommendation (\<open>recommendations.go\<close>), the decision (\<open>decide.go\<close>) and the response (\<open>handler.go\<close>).

  A handler's environment is the record \<open>handler\<close>: what listing the Policies gives, what the two
  read-through caches of the owner chain answer, and what the informer cache answers for a Namespace and a
  WorkloadRecommendation, errors of a deadline included. A decoded request is the pod; an undecodable one is
  \<open>None\<close>. A panic while deciding is \<open>None\<close> for the decision. Logs and counters are left out.
\<close>

section \<open>The reader of one admission\<close>

record controller_ref =
  cr_Namespace :: string
  cr_Kind :: string
  cr_Name :: string
  cr_UID :: string

record workload_ref =
  wf_Namespace :: string
  wf_Kind :: string
  wf_Name :: string

record ('q, 'sel, 'm) handler =
  h_RecommendOnly :: bool
  h_Policies :: "go_error + ('q, 'sel, 'm) policies"
  h_podOwners :: "controller_ref \<Rightarrow> go_error + string \<times> string"
  h_annotations :: "workload_ref \<Rightarrow> go_error + str_map"
  h_Namespace :: "string \<Rightarrow> go_error + str_map"
  h_Get :: "namespaced_name \<Rightarrow> go_error + 'q workload_recommendation"
  h_IsNotFound :: "go_error \<Rightarrow> bool"

definition admission_PodOwner :: "('q, 'sel, 'm) handler \<Rightarrow> 'q pod \<Rightarrow> go_error + string \<times> string" where
  "admission_PodOwner h pod =
     (case GetControllerOf (pod_OwnerReferences pod) of
        None \<Rightarrow> Inr ([], [])
      | Some ref \<Rightarrow> h_podOwners h \<lparr> cr_Namespace = pod_Namespace pod, cr_Kind = ref_Kind ref, cr_Name = ref_Name ref,
                                   cr_UID = ref_UID ref \<rparr>)"

definition admission_WorkloadAnnotations ::
  "('q, 'sel, 'm) handler \<Rightarrow> string \<Rightarrow> string \<Rightarrow> string \<Rightarrow> go_error + str_map" where
  "admission_WorkloadAnnotations h namespace kind name =
     (if ObjectForKind kind = None then Inr []
      else h_annotations h \<lparr> wf_Namespace = namespace, wf_Kind = kind, wf_Name = name \<rparr>)"

definition admissionReader :: "('q, 'sel, 'm) handler \<Rightarrow> ('q, 'sel, 'm, go_error) reader" where
  "admissionReader h =
     \<lparr> rd_Policies = h_Policies h,
       rd_PodOwner = admission_PodOwner h,
       rd_WorkloadAnnotations = admission_WorkloadAnnotations h,
       rd_NamespaceAnnotations = NamespaceAnnotations (h_IsNotFound h) (h_Namespace h) \<rparr>"

text \<open>What the two caches fetch on a miss.\<close>

definition fetchPodOwner ::
  "('q, 'ls, 'sel, 'st) member_reader \<Rightarrow> controller_ref \<Rightarrow> 'st \<Rightarrow> (go_error + string \<times> string) \<times> 'st" where
  "fetchPodOwner mr ref st =
     ResolveControllerOwner mr (cr_Namespace ref)
       \<lparr> ref_Kind = cr_Kind ref, ref_Name = cr_Name ref, ref_UID = cr_UID ref, ref_Controller = None \<rparr> st"

definition cacheableOwnerAnnotations :: "str_map \<Rightarrow> str_map" where
  "cacheableOwnerAnnotations ann =
     fold (\<lambda>k out. case map_of ann k of Some v \<Rightarrow> AList.update k v out | None \<Rightarrow> out) [PolicyAnnotation, OptOutAnnotation] []"

definition fetchOwnerAnnotations ::
  "(go_error \<Rightarrow> bool) \<Rightarrow> (string \<Rightarrow> string \<Rightarrow> string \<Rightarrow> go_error + str_map) \<Rightarrow> workload_ref \<Rightarrow> go_error + str_map" where
  "fetchOwnerAnnotations isNotFound get ref =
     (case OwnerAnnotations isNotFound get (wf_Namespace ref) (wf_Kind ref) (wf_Name ref) of
        Inl err \<Rightarrow> Inl err
      | Inr raw \<Rightarrow> Inr (cacheableOwnerAnnotations raw))"

section \<open>The stored Recommendation\<close>

definition storedRecommendation ::
  "(string \<Rightarrow> string) \<Rightarrow> ('q, 'sel, 'm) handler \<Rightarrow> workload_identity \<Rightarrow> go_error + 'q workload_recommendation option" where
  "storedRecommendation sha h i =
     (case h_Get h (Key sha i) of
        Inr wlr \<Rightarrow> Inr (Some wlr)
      | Inl err \<Rightarrow> if h_IsNotFound h err then Inr None else Inl (Wrap err))"

definition recommendationSource :: "verdict \<Rightarrow> string" where
  "recommendationSource v =
     (case v of Absent \<Rightarrow> ''missing'' | Undecided \<Rightarrow> ''undecided'' | VerdictNoData \<Rightarrow> ''nodata'' | Withheld \<Rightarrow> ''other-policy''
      | Stale \<Rightarrow> ''stale'' | Retained \<Rightarrow> ''retained'' | Fresh \<Rightarrow> ''hit'')"

section \<open>The decision\<close>

datatype admit_reason =
    ReasonUndecodable | ReasonPanic | ReasonGovernanceFailed | ReasonRecommendationUnreadable
  | ReasonNoContainerMatches | ReasonRecommendOnly | ReasonAtRecommendation | ReasonInjected
  | ReasonRefusal "refusal option" | ReasonSource string

record 'q stub_request =
  sr_known :: "'q workload_recommendation option"
  sr_identity :: workload_identity
  sr_policy :: string
  sr_observed :: "'q snapshot"

record 'q admission =
  a_reason :: admit_reason
  a_identity :: workload_identity
  a_optIn :: string
  a_level :: level
  a_policy :: string
  a_mode :: "update_mode option"
  a_source :: string
  a_verdict :: string
  a_held :: "'q recs"
  a_recs :: "'q recs"
  a_writes :: "'q container_write list"
  a_stub :: "'q stub_request option"
  a_err :: "go_error option"

definition admission_for :: "admit_reason \<Rightarrow> 'q admission" where
  "admission_for r =
     \<lparr> a_reason = r, a_identity = zero_identity, a_optIn = [], a_level = LevelNone, a_policy = [], a_mode = None,
       a_source = [], a_verdict = [], a_held = [], a_recs = [], a_writes = [], a_stub = None, a_err = None \<rparr>"

definition stub_for ::
  "'q workload_recommendation option \<Rightarrow> workload_identity \<Rightarrow> string \<Rightarrow> 'q pod \<Rightarrow> 'q stub_request option" where
  "stub_for known i policy pod =
     (let observed = BuildObservedResources (pod_Containers pod) (pod_InitContainers pod)
      in if ShouldRequest known policy observed
         then Some \<lparr> sr_known = known, sr_identity = i, sr_policy = policy, sr_observed = observed \<rparr>
         else None)"

definition injection_outcome ::
  "bool \<Rightarrow> 'q injection \<Rightarrow> 'q admission \<Rightarrow> 'q admission" where
  "injection_outcome recommendOnly j a =
     (if inj_Recs j = [] then a\<lparr>a_reason := ReasonNoContainerMatches\<rparr>
      else if recommendOnly then a\<lparr>a_reason := ReasonRecommendOnly\<rparr>
      else if inj_Writes j = [] then a\<lparr>a_reason := ReasonAtRecommendation\<rparr>
      else a\<lparr>a_reason := ReasonInjected, a_writes := inj_Writes j\<rparr>)"

definition decide ::
  "'q env \<Rightarrow> ('sel, 'm) gov_env \<Rightarrow> (string \<Rightarrow> string) \<Rightarrow> ('q, 'sel, 'm) handler \<Rightarrow> time \<Rightarrow> 'q pod \<Rightarrow> 'q admission" where
  "decide E G sha h now pod =
     (case fst (Decide G (admissionReader h) (Pod pod)) of
        Inl err \<Rightarrow> (admission_for ReasonGovernanceFailed)\<lparr>a_err := Some err\<rparr>
      | Inr g \<Rightarrow>
          let a0 = (admission_for (ReasonRefusal (d_Refusal g)))\<lparr>a_identity := d_Identity g, a_optIn := d_OptIn g, a_level := d_Level g\<rparr>
          in case d_Governs g of
               None \<Rightarrow> a0
             | Some (policy, mode) \<Rightarrow>
                 let a1 = a0\<lparr>a_policy := p_Name policy, a_mode := Some mode\<rparr>
                 in case storedRecommendation sha h (d_Identity g) of
                      Inl err \<Rightarrow> a1\<lparr>a_reason := ReasonRecommendationUnreadable, a_source := ''error'', a_err := Some err\<rparr>
                    | Inr known \<Rightarrow>
                        let reading = Read known (p_Name policy) now;
                            a2 = a1\<lparr>a_source := recommendationSource (r_Verdict reading),
                                    a_verdict := verdict_String (r_Verdict reading), a_held := r_Recs reading,
                                    a_stub := stub_for known (d_Identity g) (p_Name policy) pod\<rparr>
                        in if \<not> Injects (r_Verdict reading) then a2\<lparr>a_reason := ReasonSource (a_source a2)\<rparr>
                           else let j = Inject E (pod_Containers pod) (pod_InitContainers pod)
                                          (ExcludeInitContainers (p_RightSizing policy)) (r_Recs reading)
                                in injection_outcome (EffectiveRecommendOnly policy (h_RecommendOnly h)) j (a2\<lparr>a_recs := inj_Recs j\<rparr>))"

section \<open>The response\<close>

text \<open>\<open>strconv.Itoa\<close> of an index.\<close>

fun itoa_digits :: "nat \<Rightarrow> string" where
  "itoa_digits n = (if n < 10 then [char_of (48 + n)] else itoa_digits (n div 10) @ [char_of (48 + n mod 10)])"

declare itoa_digits.simps [simp del]

record 'q json_patch =
  jp_Op :: string
  jp_Path :: string
  jp_Value :: "'q resource_requirements"

record 'q admission_response =
  resp_Allowed :: bool
  resp_Patch :: "'q json_patch list option"

definition patch_of :: "'q container_write \<Rightarrow> 'q json_patch" where
  "patch_of w =
     \<lparr> jp_Op = ''add'',
       jp_Path = (if cw_Init w then ''/spec/initContainers/'' else ''/spec/containers/'') @ itoa_digits (cw_Index w) @ ''/resources'',
       jp_Value = cw_Resources w \<rparr>"

definition respond :: "'q admission \<Rightarrow> 'q admission_response" where
  "respond a =
     (let patches = map patch_of (a_writes a)
      in if patches = [] then \<lparr> resp_Allowed = True, resp_Patch = None \<rparr>
         else \<lparr> resp_Allowed = True, resp_Patch = Some patches \<rparr>)"

definition admitDecoded :: "'q admission option \<Rightarrow> 'q admission_response \<times> 'q stub_request option" where
  "admitDecoded outcome =
     (case outcome of
        None \<Rightarrow> (respond (admission_for ReasonPanic), None)
      | Some a \<Rightarrow> (respond a, a_stub a))"

text \<open>\<open>panics\<close> says whether deciding on a pod panics; the namespace is that of the request.\<close>

definition admit ::
  "'q env \<Rightarrow> ('sel, 'm) gov_env \<Rightarrow> (string \<Rightarrow> string) \<Rightarrow> ('q, 'sel, 'm) handler \<Rightarrow> time \<Rightarrow> ('q pod \<Rightarrow> bool) \<Rightarrow> string \<Rightarrow>
   'q pod option \<Rightarrow> 'q admission_response \<times> 'q stub_request option" where
  "admit E G sha h now panics namespace decoded =
     (case decoded of
        None \<Rightarrow> (respond (admission_for ReasonUndecodable), None)
      | Some obj \<Rightarrow>
          let pod = obj\<lparr>pod_Namespace := namespace\<rparr>
          in admitDecoded (if panics pod then None else Some (decide E G sha h now pod)))"

end
