(* ===== verification/WebhookCorrect.thy ===== *)
theory WebhookCorrect
  imports Webhook WlrCacheCorrect PatcherCorrect GovernanceCorrect
begin

text \<open>
  What the webhook promises (\<open>internal/webhook\<close>): when exactly a pod is patched and with what, that every
  request is admitted, and that an admission repeated on the patched pod changes nothing.
\<close>

section \<open>When a pod is patched\<close>

lemma Inject_writes_recs:
  assumes "inj_Writes (Inject E cs ics excl recs) \<noteq> []"
  shows "inj_Recs (Inject E cs ics excl recs) \<noteq> []"
proof -
  have keep: "inj_Recs acc \<noteq> [] \<Longrightarrow> inj_Recs (inject_add E recs init i cs acc) \<noteq> []" for init i cs acc
    by (induction cs arbitrary: i acc) (auto simp: Let_def split: option.split prod.split)
  have add: "inj_Writes (inject_add E recs init i cs acc) \<noteq> [] \<Longrightarrow> (inj_Writes acc \<noteq> [] \<longrightarrow> inj_Recs acc \<noteq> []) \<Longrightarrow>
      inj_Recs (inject_add E recs init i cs acc) \<noteq> []" for init i cs acc
  proof (induction cs arbitrary: i acc)
    case (Cons c cs)
    then show ?case
      by (cases "map_of recs (c_Name c)") (auto simp: Let_def intro!: keep split: prod.splits)
  qed simp
  let ?acc = "inject_add E recs False 0 cs \<lparr> inj_Recs = [], inj_Writes = [] \<rparr>"
  have "inj_Writes ?acc \<noteq> [] \<longrightarrow> inj_Recs ?acc \<noteq> []" using add [of False 0 cs] by simp
  then show ?thesis using assms add [of True 0 ics ?acc] by (cases excl) (simp_all add: Inject_def Let_def)
qed

lemma Read_recs: "Injects (r_Verdict (Read (Some k) policy now)) \<Longrightarrow> r_Recs (Read (Some k) policy now) = recsFromStatus (w_Status k)"
  by (auto simp: Read_def Injects_def Let_def split: if_splits)

definition injection_for ::
  "'q env \<Rightarrow> ('q, 'sel) policy \<Rightarrow> 'q pod \<Rightarrow> 'q recs \<Rightarrow> 'q injection" where
  "injection_for E policy pod recs =
     Inject E (pod_Containers pod) (pod_InitContainers pod) (ExcludeInitContainers (p_RightSizing policy)) recs"

definition serves ::
  "'q workload_recommendation \<Rightarrow> ('q, 'sel) policy \<Rightarrow> time \<Rightarrow> bool" where
  "serves k policy now \<longleftrightarrow> w_Policy k = p_Name policy \<and> ComputedBy (w_Status k) = p_Name policy \<and>
     Containers (w_Status k) \<noteq> [] \<and> now < ServableUntil (w_Status k)"

lemma decide_writes:
  "a_writes (decide E G sha h now pod) = ws \<and> ws \<noteq> [] \<longleftrightarrow>
     (\<exists>g policy mode k. fst (Decide G (admissionReader h) (Pod pod)) = Inr g \<and> d_Governs g = Some (policy, mode) \<and>
        h_Get h (Key sha (d_Identity g)) = Inr k \<and> serves k policy now \<and>
        \<not> EffectiveRecommendOnly policy (h_RecommendOnly h) \<and> ws \<noteq> [] \<and>
        ws = inj_Writes (injection_for E policy pod (recsFromStatus (w_Status k))))"
proof (cases "fst (Decide G (admissionReader h) (Pod pod))")
  case (Inl err)
  then show ?thesis by (auto simp: decide_def admission_for_def)
next
  case (Inr g)
  show ?thesis
  proof (cases "d_Governs g")
    case None
    then show ?thesis using Inr by (auto simp: decide_def admission_for_def Let_def)
  next
    case (Some pm)
    obtain policy mode where pm: "pm = (policy, mode)" by fastforce
    show ?thesis
    proof (cases "\<exists>k. h_Get h (Key sha (d_Identity g)) = Inr k \<and> serves k policy now")
      case True
      then obtain k where k: "h_Get h (Key sha (d_Identity g)) = Inr k" "serves k policy now" by blast
      then have inj: "Injects (r_Verdict (Read (Some k) (p_Name policy) now))" by (simp add: Read_injects serves_def)
      then show ?thesis
        using Inr Some pm k Read_recs [OF inj] Inject_writes_recs [of E "pod_Containers pod" "pod_InitContainers pod"]
        by (auto simp: decide_def admission_for_def storedRecommendation_def injection_outcome_def injection_for_def Let_def)
    next
      case False
      then have "known = Some k \<Longrightarrow> h_Get h (Key sha (d_Identity g)) = Inr k \<Longrightarrow> \<not> Injects (r_Verdict (Read known (p_Name policy) now))" for known k
        by (auto simp: Read_injects serves_def)
      moreover have "\<not> Injects (r_Verdict (Read None (p_Name policy) now))" by (simp add: Read_injects)
      ultimately have "a_writes (decide E G sha h now pod) = []"
        using Inr Some pm
        by (cases "h_Get h (Key sha (d_Identity g))")
           (auto simp: decide_def admission_for_def storedRecommendation_def Let_def)
      then show ?thesis using False Inr Some pm by auto
    qed
  qed
qed


section \<open>Admitting again\<close>

definition write_at :: "'q container_write \<Rightarrow> 'q container list \<Rightarrow> 'q container list" where
  "write_at w cs = cs[cw_Index w := (cs ! cw_Index w)\<lparr>c_Resources := cw_Resources w\<rparr>]"

definition patched_pod :: "'q container_write list \<Rightarrow> 'q pod \<Rightarrow> 'q pod" where
  "patched_pod ws pod =
     pod\<lparr>pod_Containers := fold write_at (filter (\<lambda>w. \<not> cw_Init w) ws) (pod_Containers pod),
         pod_InitContainers := fold write_at (filter cw_Init ws) (pod_InitContainers pod)\<rparr>"

lemma length_fold_write_at [simp]: "length (fold write_at ws cs) = length cs"
  by (induction ws arbitrary: cs) (simp_all add: write_at_def)

lemma fold_write_at:
  assumes "\<And>w. w \<in> set ws \<Longrightarrow> cw_Index w < length cs \<and> cw_Resources w = f (cs ! cw_Index w)" "j < length cs"
  shows "fold write_at ws cs ! j = (if j \<in> cw_Index ` set ws then (cs ! j)\<lparr>c_Resources := f (cs ! j)\<rparr> else cs ! j)"
  using assms(1)
proof (induction ws rule: rev_induct)
  case (snoc w ws)
  let ?cs = "fold write_at ws cs"
  have ih: "?cs ! j = (if j \<in> cw_Index ` set ws then (cs ! j)\<lparr>c_Resources := f (cs ! j)\<rparr> else cs ! j)"
    using snoc by auto
  have w: "cw_Index w < length cs" "cw_Resources w = f (cs ! cw_Index w)" using snoc.prems by auto
  have step: "fold write_at (ws @ [w]) cs = ?cs[cw_Index w := (?cs ! cw_Index w)\<lparr>c_Resources := cw_Resources w\<rparr>]"
    unfolding fold_append by (simp add: write_at_def [of w])
  show ?case
  proof (cases "cw_Index w = j")
    case True
    then show ?thesis using ih w unfolding step by simp
  next
    case False
    then show ?thesis using ih unfolding step by auto
  qed
qed simp

lemma settled_containers:
  assumes "quantity_laws E amt"
    and "\<And>w. w \<in> set ws \<Longrightarrow> cw_Index w < length cs \<and>
      (\<exists>rec. map_of recs (c_Name (cs ! cw_Index w)) = Some rec \<and> cw_Resources w = fst (applyTo E (c_Resources (cs ! cw_Index w)) rec))"
    and "\<And>j. j < length cs \<Longrightarrow> changes_container E recs (cs ! j) \<Longrightarrow> j \<in> cw_Index ` set ws"
  shows "\<forall>c\<in>set (fold write_at ws cs). \<not> changes_container E recs c"
proof
  let ?f = "\<lambda>c. fst (applyTo E (c_Resources c) (the (map_of recs (c_Name c))))"
  have vals: "cw_Index w < length cs \<and> cw_Resources w = ?f (cs ! cw_Index w)" if "w \<in> set ws" for w
    using assms(2) [OF that] by auto
  fix c
  assume "c \<in> set (fold write_at ws cs)"
  then obtain j where j: "j < length cs" "c = fold write_at ws cs ! j"
    by (auto simp: in_set_conv_nth)
  have c: "c = (if j \<in> cw_Index ` set ws then (cs ! j)\<lparr>c_Resources := ?f (cs ! j)\<rparr> else cs ! j)"
    unfolding j(2) by (rule fold_write_at [OF _ j(1)]) (rule vals)
  show "\<not> changes_container E recs c"
  proof (cases "j \<in> cw_Index ` set ws")
    case True
    then obtain rec where rec: "map_of recs (c_Name (cs ! j)) = Some rec" using assms(2) by blast
    have "\<not> snd (snd (applyTo E (fst (applyTo E (c_Resources (cs ! j)) rec)) rec))"
      using applyTo_idempotent [OF assms(1), of "c_Resources (cs ! j)" rec]
      by (auto simp: containerChange_def Let_def split: prod.splits if_splits)
    then show ?thesis using c True rec by (simp add: changes_container_def)
  next
    case False
    then show ?thesis using c assms(3) [OF j(1)] by auto
  qed
qed

lemma Inject_writes_at:
  assumes "w \<in> set (inj_Writes (Inject E cs ics excl recs))"
  shows "\<not> cw_Init w \<Longrightarrow> cw_Index w < length cs \<and> (\<exists>rec. map_of recs (c_Name (cs ! cw_Index w)) = Some rec \<and>
      cw_Resources w = fst (applyTo E (c_Resources (cs ! cw_Index w)) rec))"
    and "cw_Init w \<Longrightarrow> cw_Index w < length ics \<and> (\<exists>rec. map_of recs (c_Name (ics ! cw_Index w)) = Some rec \<and>
      cw_Resources w = fst (applyTo E (c_Resources (ics ! cw_Index w)) rec))"
proof -
  obtain c rec where "map_of recs (c_Name c) = Some rec" "cw_Resources w = fst (applyTo E (c_Resources c) rec)"
    "if cw_Init w then \<not> excl \<and> cw_Index w < length ics \<and> ics ! cw_Index w = c
     else cw_Index w < length cs \<and> cs ! cw_Index w = c"
    by (rule Inject_writes [OF assms])
  then show "\<not> cw_Init w \<Longrightarrow> cw_Index w < length cs \<and> (\<exists>rec. map_of recs (c_Name (cs ! cw_Index w)) = Some rec \<and>
      cw_Resources w = fst (applyTo E (c_Resources (cs ! cw_Index w)) rec))"
    and "cw_Init w \<Longrightarrow> cw_Index w < length ics \<and> (\<exists>rec. map_of recs (c_Name (ics ! cw_Index w)) = Some rec \<and>
      cw_Resources w = fst (applyTo E (c_Resources (ics ! cw_Index w)) rec))" by auto
qed

lemma Inject_covers:
  assumes "changes_container E recs c"
  shows "j < length cs \<Longrightarrow> c = cs ! j \<Longrightarrow> j \<in> cw_Index ` set (filter (\<lambda>w. \<not> cw_Init w) (inj_Writes (Inject E cs ics excl recs)))"
    and "j < length ics \<Longrightarrow> c = ics ! j \<Longrightarrow> \<not> excl \<Longrightarrow> j \<in> cw_Index ` set (filter cw_Init (inj_Writes (Inject E cs ics excl recs)))"
proof -
  obtain rec where rec: "map_of recs (c_Name c) = Some rec" "snd (snd (applyTo E (c_Resources c) rec))"
    using assms by (auto simp: changes_container_def)
  let ?acc = "inject_add E recs False 0 cs \<lparr> inj_Recs = [], inj_Writes = [] \<rparr>"
  have sub: "set (inj_Writes ?acc) \<subseteq> set (inj_Writes (Inject E cs ics excl recs))"
    using inject_add_complete [of ?acc E recs True 0 ics] by (simp add: Inject_def Let_def)
  show "j \<in> cw_Index ` set (filter (\<lambda>w. \<not> cw_Init w) (inj_Writes (Inject E cs ics excl recs)))" if "j < length cs" "c = cs ! j"
    using inject_add_complete [of "\<lparr> inj_Recs = [], inj_Writes = [] \<rparr>" E recs False 0 cs] rec that sub by fastforce
  show "j \<in> cw_Index ` set (filter cw_Init (inj_Writes (Inject E cs ics excl recs)))" if "j < length ics" "c = ics ! j" "\<not> excl"
    using inject_add_complete [of ?acc E recs True 0 ics] rec that by (fastforce simp: Inject_def Let_def)
qed

lemma Inject_settles:
  assumes "quantity_laws E amt" "ws = inj_Writes (Inject E (pod_Containers pod) (pod_InitContainers pod) excl recs)"
  shows "inj_Writes (Inject E (pod_Containers (patched_pod ws pod)) (pod_InitContainers (patched_pod ws pod)) excl recs) = []"
proof -
  let ?p = "patched_pod ws pod"
  have "\<forall>c\<in>set (fold write_at (filter (\<lambda>w. \<not> cw_Init w) ws) (pod_Containers pod)). \<not> changes_container E recs c"
  proof (rule settled_containers [OF assms(1)])
    fix w
    assume "w \<in> set (filter (\<lambda>w. \<not> cw_Init w) ws)"
    then show "cw_Index w < length (pod_Containers pod) \<and> (\<exists>rec. map_of recs (c_Name (pod_Containers pod ! cw_Index w)) = Some rec \<and>
        cw_Resources w = fst (applyTo E (c_Resources (pod_Containers pod ! cw_Index w)) rec))"
      unfolding assms(2) by (intro Inject_writes_at(1)) auto
  next
    fix j
    assume "j < length (pod_Containers pod)" "changes_container E recs (pod_Containers pod ! j)"
    then show "j \<in> cw_Index ` set (filter (\<lambda>w. \<not> cw_Init w) ws)"
      unfolding assms(2) by (intro Inject_covers(1)) auto
  qed
  then have plain: "\<forall>c\<in>set (pod_Containers ?p). \<not> changes_container E recs c" by (simp add: patched_pod_def)
  have "\<forall>c\<in>set (fold write_at (filter cw_Init ws) (pod_InitContainers pod)). \<not> changes_container E recs c" if "\<not> excl"
  proof (rule settled_containers [OF assms(1)])
    fix w
    assume "w \<in> set (filter cw_Init ws)"
    then show "cw_Index w < length (pod_InitContainers pod) \<and> (\<exists>rec. map_of recs (c_Name (pod_InitContainers pod ! cw_Index w)) = Some rec \<and>
        cw_Resources w = fst (applyTo E (c_Resources (pod_InitContainers pod ! cw_Index w)) rec))"
      unfolding assms(2) by (intro Inject_writes_at(2)) auto
  next
    fix j
    assume "j < length (pod_InitContainers pod)" "changes_container E recs (pod_InitContainers pod ! j)"
    then show "j \<in> cw_Index ` set (filter cw_Init ws)"
      unfolding assms(2) using that by (intro Inject_covers(2)) auto
  qed
  then have init: "\<not> excl \<Longrightarrow> \<forall>c\<in>set (pod_InitContainers ?p). \<not> changes_container E recs c" by (simp add: patched_pod_def)
  have "\<not> w \<in> set (inj_Writes (Inject E (pod_Containers ?p) (pod_InitContainers ?p) excl recs))" for w
  proof
    assume "w \<in> set (inj_Writes (Inject E (pod_Containers ?p) (pod_InitContainers ?p) excl recs))"
    then obtain c where "changes_container E recs c" "if cw_Init w then \<not> excl \<and> c \<in> set (pod_InitContainers ?p) else c \<in> set (pod_Containers ?p)"
      unfolding changes_container_def by (rule Inject_writes) (metis nth_mem)
    then show False using plain init by (auto split: if_splits)
  qed
  then show ?thesis by (metis list.set_intros(1) neq_Nil_conv)
qed

lemma Decide_reads_metadata:
  assumes "pod_Namespace p' = pod_Namespace p" "pod_Labels p' = pod_Labels p" "pod_Annotations p' = pod_Annotations p"
    "pod_OwnerReferences p' = pod_OwnerReferences p"
  shows "Decide G (admissionReader h) (Pod p') = Decide G (admissionReader h) (Pod p)"
proof -
  have "rd_PodOwner (admissionReader h) p' = rd_PodOwner (admissionReader h) p"
    unfolding admissionReader_def admission_PodOwner_def by (simp add: assms cong: option.case_cong)
  then have own: "readOwner (admissionReader h) (Pod p') = readOwner (admissionReader h) (Pod p)"
    unfolding readOwner_def by (simp add: fun_eq_iff Pod_def cong: option.case_cong)
  have same: "s_namespace (Pod p') = s_namespace (Pod p)" "s_labels (Pod p') = s_labels (Pod p)"
    "s_annotations (Pod p') = s_annotations (Pod p)" "s_workload (Pod p') = s_workload (Pod p)" "s_departed (Pod p') = s_departed (Pod p)"
    "(case s_pod (Pod p') of Some p \<Rightarrow> pod_OwnerReferences p | None \<Rightarrow> []) = (case s_pod (Pod p) of Some p \<Rightarrow> pod_OwnerReferences p | None \<Rightarrow> [])"
    by (simp_all add: Pod_def assms)
  show ?thesis
    unfolding Decide_def decide_from_def walk_decide_def optIn_def workloadAnnotations_def namespaceAnnotations_def gate_def
      identity_of_def departedDecision_def own same by (rule refl)
qed

text \<open>Admission is idempotent, as a webhook that may be called again must be: deciding on the pod with the
  patch applied writes nothing more, so the API server patches a pod once.\<close>

theorem admitting_again_writes_nothing:
  assumes "quantity_laws E amt" "a = decide E G sha h now pod"
  shows "a_writes (decide E G sha h now (patched_pod (a_writes a) pod)) = []"
proof (rule ccontr)
  let ?p = "patched_pod (a_writes a) pod"
  assume "a_writes (decide E G sha h now ?p) \<noteq> []"
  then obtain ws where "a_writes (decide E G sha h now ?p) = ws \<and> ws \<noteq> []" by blast
  then obtain g policy mode k where
    g: "fst (Decide G (admissionReader h) (Pod ?p)) = Inr g" "d_Governs g = Some (policy, mode)"
      "h_Get h (Key sha (d_Identity g)) = Inr k" "serves k policy now" "\<not> EffectiveRecommendOnly policy (h_RecommendOnly h)"
    and ws: "ws \<noteq> []" "ws = inj_Writes (injection_for E policy ?p (recsFromStatus (w_Status k)))"
    unfolding decide_writes by blast
  have same: "Decide G (admissionReader h) (Pod ?p) = Decide G (admissionReader h) (Pod pod)"
    by (rule Decide_reads_metadata) (simp_all add: patched_pod_def)
  let ?j = "inj_Writes (injection_for E policy pod (recsFromStatus (w_Status k)))"
  have "a_writes a = ?j"
  proof (cases "?j = []")
    case True
    show ?thesis
    proof (rule ccontr)
      assume ne: "a_writes a \<noteq> ?j"
      then obtain ws' where "a_writes (decide E G sha h now pod) = ws' \<and> ws' \<noteq> []" using True assms(2) by auto
      then have "ws' = ?j" "ws' \<noteq> []" unfolding decide_writes using g same by auto
      then show False using True by simp
    qed
  next
    case False
    then have "a_writes (decide E G sha h now pod) = ?j \<and> ?j \<noteq> []"
      unfolding decide_writes using g same by auto
    then show ?thesis using assms(2) by simp
  qed
  then have "inj_Writes (injection_for E policy ?p (recsFromStatus (w_Status k))) = []"
    unfolding injection_for_def by (rule Inject_settles [OF assms(1)])
  with ws show False by simp
qed

text \<open>An admission that injects: a pod of a governed Deployment, whose Recommendation is stored and servable.\<close>

definition demo_handler :: "(fixed, unit, unit) handler" where
  "demo_handler =
     \<lparr> h_RecommendOnly = False, h_Policies = Inr ex_policies, h_podOwners = \<lambda>_. Inr (''Deployment'', ''web''),
       h_annotations = \<lambda>_. Inr [], h_Namespace = \<lambda>_. Inr [],
       h_Get = \<lambda>_. Inr (ex_wlr ''web'' (empty_status\<lparr>ComputedBy := ''web'', Containers := ex_recs, ServableUntil := 10\<rparr>)),
       h_IsNotFound = \<lambda>e. e = ApiStatus 404 \<rparr>"

definition demo_admitted :: "fixed pod" where
  "demo_admitted = (demo_pod ''web-0'' ''Pending'')\<lparr>pod_Annotations := [(PolicyAnnotation, ''web'')]\<rparr>"

lemma demo_admission_writes: "a_writes (decide fixed_env ex_gov (\<lambda>s. s) demo_handler 0 demo_admitted) \<noteq> []"
proof -
  let ?g = "\<lparr> d_Identity = \<lparr> id_Namespace = ''shop'', OwnerKind = ''Deployment'', OwnerName = ''web'' \<rparr>, d_OptIn = ''web'',
    d_Level = LevelPodTemplate, d_Governs = Some (ex_policy, UpdateModeOngoing), d_Refusal = None \<rparr>"
  let ?k = "ex_wlr ''web'' (empty_status\<lparr>ComputedBy := ''web'', Containers := ex_recs, ServableUntil := 10\<rparr>)"
  have g: "fst (Decide ex_gov (admissionReader demo_handler) (Pod demo_admitted)) = Inr ?g"
    by (simp add: Decide_def decide_from_def walk_decide_def optIn_def Pod_def demo_admitted_def demo_pod_def GetControllerOf_def
      and_then_def yields_def lookup_or_def readPolicies_def readOwner_def call_def admissionReader_def demo_handler_def
      admission_PodOwner_def fresh_walk_def consent_def namespaceConsent_def namespaceRefusal_def labelRefusal_def ex_policies_eq
      compile_policy_def ex_policy_def ex_gov_def managedBy_def identity_of_def ApplyOwnerNameOverride_def zero_decision_def
      zero_identity_def ModeForKind_def Let_def)
  have w: "inj_Writes (injection_for fixed_env ex_policy demo_admitted (recsFromStatus (w_Status ?k))) \<noteq> []"
    by (simp add: injection_for_def Inject_def recsFromStatus_def map_by_def ex_wlr_def ex_recs_def demo_admitted_def demo_pod_def
      ex_policy_def applyTo_def set_recommended_def setQuantity_def applyLimit_def raise_limit_def valueEqual_def requestsEqual_def
      rl_Cpu_def rl_Memory_def lookup_or_def empty_recommendation_def fixed_env_def Let_def)
  have "serves ?k ex_policy 0" by (simp add: serves_def ex_wlr_def ex_policy_def ex_recs_def)
  then show ?thesis
    using decide_writes [of fixed_env ex_gov "\<lambda>s. s" demo_handler 0 demo_admitted
        "inj_Writes (injection_for fixed_env ex_policy demo_admitted (recsFromStatus (w_Status ?k)))"] g w
    by (auto simp: demo_handler_def EffectiveRecommendOnly_def ex_policy_def)
qed

theorem admitting_again_writes_nothing_witness:
  "let a = decide fixed_env ex_gov (\<lambda>s. s) demo_handler 0 demo_admitted
   in a_writes a \<noteq> [] \<and> a_writes (decide fixed_env ex_gov (\<lambda>s. s) demo_handler 0 (patched_pod (a_writes a) demo_admitted)) = []"
  unfolding Let_def using admitting_again_writes_nothing [OF fixed_env_laws refl] demo_admission_writes by blast

section \<open>Trimmed annotations\<close>

text \<open>Two answers of a level's annotations that governance cannot tell apart.\<close>

fun alike :: "('e + (refusal + str_map)) \<times> 'w \<Rightarrow> ('e + (refusal + str_map)) \<times> 'w \<Rightarrow> bool" where
  "alike (Inr (Inr a), w) (Inr (Inr b), v) =
     (w = v \<and> lookup_or [] a OptOutAnnotation = lookup_or [] b OptOutAnnotation \<and> lookup_or [] a PolicyAnnotation = lookup_or [] b PolicyAnnotation)"
| "alike x y = (x = y)"

lemma alike_refl [simp]: "alike x x"
  by (cases "(x, x)" rule: alike.cases) auto

lemma optIn_levels_alike:
  assumes "\<And>w. alike (rd w) (rd' w)"
  shows "optIn_levels ((lev, rd) # ls) w = optIn_levels ((lev, rd') # ls) w"
  using assms [of w]
  by (cases "(rd w, rd' w)" rule: alike.cases) (auto simp: and_then_def)

lemma lookup_cacheable:
  "k = PolicyAnnotation \<or> k = OptOutAnnotation \<Longrightarrow> lookup_or [] (cacheableOwnerAnnotations ann) k = lookup_or [] ann k"
  by (auto simp: cacheableOwnerAnnotations_def lookup_or_def split: option.split)

text \<open>The owner's annotations cut down to the two keys the cache keeps.\<close>

definition trimmed :: "('q, 'sel, 'm, 'e) reader \<Rightarrow> ('q, 'sel, 'm, 'e) reader" where
  "trimmed R = R\<lparr>rd_WorkloadAnnotations := \<lambda>ns kind name.
     case rd_WorkloadAnnotations R ns kind name of Inl e \<Rightarrow> Inl e | Inr ann \<Rightarrow> Inr (cacheableOwnerAnnotations ann)\<rparr>"

text \<open>What the webhook caches of an owner is all governance reads of it: with every owner's annotations cut
  down to the policy and opt-out keys, every decision, its reads and its errors included, stays the same.\<close>

theorem trimmed_annotations_decide_alike: "Decide G (trimmed R) s = Decide G R s"
proof -
  have reads: "readPolicies (trimmed R) = readPolicies R" "readOwner (trimmed R) s = readOwner R s"
    by (simp_all add: fun_eq_iff readPolicies_def readOwner_def trimmed_def cong: option.case_cong)
  have gt: "gate G (trimmed R) s = gate G R s" unfolding gate_def reads by (rule refl)
  have ns: "namespaceAnnotations G (trimmed R) s = namespaceAnnotations G R s"
    unfolding namespaceAnnotations_def gt by (simp add: trimmed_def)
  have wl: "alike (workloadAnnotations G (trimmed R) s w) (workloadAnnotations G R s w)" for w
    unfolding workloadAnnotations_def gt reads
    by (auto simp: and_then_def call_def yields_def trimmed_def lookup_cacheable split: option.split sum.split prod.split)
  have "optIn G (trimmed R) s w = optIn G R s w" for w
  proof -
    have "optIn_levels ((LevelWorkload, workloadAnnotations G (trimmed R) s) # ls) = optIn_levels ((LevelWorkload, workloadAnnotations G R s) # ls)" for ls
      using optIn_levels_alike [OF wl] by (simp add: fun_eq_iff)
    then show ?thesis unfolding optIn_def ns by simp
  qed
  then have wd: "walk_decide G (trimmed R) s = walk_decide G R s"
    unfolding walk_decide_def reads by (simp add: fun_eq_iff and_then_def)
  show ?thesis unfolding Decide_def decide_from_def departedDecision_def reads wd by (rule refl)
qed

end
