(* ===== verification/Stub.thy ===== *)
theory Stub
  imports Webhook Lru "HOL-Library.Word"
begin

text \<open>
  The requests for a Recommendation the webhook runs in detached goroutines (\<open>internal/webhook/stub.go\<close>): the
  claims that keep one identity from being asked for twice, the slots that bound the writes, and the drain
  of \<open>Shutdown\<close>.

  The state is the handler's stub fields with its goroutines. What holds the mutex is one step; a goroutine
  waits for a slot, writes and unwinds in steps of its own, in any interleaving with the admissions. Its
  contexts may end at any time, so it may give up its wait whenever it is queued, and whether the write
  succeeds, fails or panics, it unwinds. The channel \<open>stubInflight\<close> is the number of values in it, the
  wait group its counter. A claim is a 64-bit sequence number.
\<close>

definition stubRequestDedupTTL :: duration where "stubRequestDedupTTL = 30 * second"
definition stubRequestDedupMaxEntries :: nat where "stubRequestDedupMaxEntries = 4096"
definition stubRequestMaxInflight :: nat where "stubRequestMaxInflight = 16"

datatype stub_phase = Queued | Writing | Unwound

record stub_goroutine =
  sg_key :: string
  sg_claim :: "64 word"
  sg_phase :: stub_phase

record stub_state =
  stubClaims :: "(string, 64 word) lru"
  stubClaimSeq :: "64 word"
  stubInflight :: nat
  stubStopping :: bool
  stubWG :: int
  stub_goroutines :: "stub_goroutine list"

definition newStubClaims :: "(string, 64 word) lru" where
  "newStubClaims = \<lparr> maxEntries = stubRequestDedupMaxEntries, ttl = stubRequestDedupTTL, order = [], entries = [] \<rparr>"

definition initStubState :: stub_state where
  "initStubState = \<lparr> stubClaims = newStubClaims, stubClaimSeq = 0, stubInflight = 0, stubStopping = False, stubWG = 0,
                     stub_goroutines = [] \<rparr>"

definition beginStubRequest :: "time \<Rightarrow> string \<Rightarrow> stub_state \<Rightarrow> 64 word option \<times> stub_state" where
  "beginStubRequest now key s =
     (if stubStopping s then (None, s)
      else let sq = stubClaimSeq s + 1
           in case SetIfAbsent now (stubClaims s) key sq of
                (False, c) \<Rightarrow> (None, s\<lparr>stubClaimSeq := sq, stubClaims := c\<rparr>)
              | (True, c) \<Rightarrow> (Some sq, s\<lparr>stubClaimSeq := sq, stubClaims := c, stubWG := stubWG s + 1\<rparr>))"

definition dropStubClaim :: "string \<Rightarrow> 64 word \<Rightarrow> stub_state \<Rightarrow> stub_state" where
  "dropStubClaim key own s = s\<lparr>stubClaims := snd (DeleteIf (stubClaims s) key (\<lambda>held. held = own))\<rparr>"

definition set_goroutine :: "nat \<Rightarrow> stub_phase \<Rightarrow> stub_state \<Rightarrow> stub_state" where
  "set_goroutine g ph s = s\<lparr>stub_goroutines := (stub_goroutines s)[g := (stub_goroutines s ! g)\<lparr>sg_phase := ph\<rparr>]\<rparr>"

text \<open>\<open>requestRecommendation\<close>: the claim, and the goroutine when it is granted.\<close>

definition requestRecommendation :: "time \<Rightarrow> string \<Rightarrow> stub_state \<Rightarrow> stub_state" where
  "requestRecommendation now key s =
     (case beginStubRequest now key s of
        (None, s') \<Rightarrow> s'
      | (Some own, s') \<Rightarrow>
          s'\<lparr>stub_goroutines := stub_goroutines s' @ [\<lparr> sg_key = key, sg_claim = own, sg_phase = Queued \<rparr>]\<rparr>)"

definition stub_acquire :: "nat \<Rightarrow> stub_state \<Rightarrow> stub_state" where
  "stub_acquire g s = set_goroutine g Writing (s\<lparr>stubInflight := stubInflight s + 1\<rparr>)"

definition stub_give_up :: "nat \<Rightarrow> stub_state \<Rightarrow> stub_state" where
  "stub_give_up g s =
     (let j = stub_goroutines s ! g
      in set_goroutine g Unwound ((dropStubClaim (sg_key j) (sg_claim j) s)\<lparr>stubWG := stubWG s - 1\<rparr>))"

definition stub_release :: "nat \<Rightarrow> stub_state \<Rightarrow> stub_state" where
  "stub_release g s = set_goroutine g Unwound (s\<lparr>stubInflight := stubInflight s - 1, stubWG := stubWG s - 1\<rparr>)"

definition stub_stop :: "stub_state \<Rightarrow> stub_state" where
  "stub_stop s = s\<lparr>stubStopping := True\<rparr>"

datatype stub_label = Asks string | Acquires nat | GivesUp nat | Releases nat | Stops

inductive stub_step :: "stub_state \<Rightarrow> stub_label \<Rightarrow> stub_state \<Rightarrow> bool" where
  asks: "stub_step s (Asks key) (requestRecommendation now key s)"
| acquires: "g < length (stub_goroutines s) \<Longrightarrow> sg_phase (stub_goroutines s ! g) = Queued \<Longrightarrow>
    stubInflight s < stubRequestMaxInflight \<Longrightarrow> stub_step s (Acquires g) (stub_acquire g s)"
| gives_up: "g < length (stub_goroutines s) \<Longrightarrow> sg_phase (stub_goroutines s ! g) = Queued \<Longrightarrow>
    stub_step s (GivesUp g) (stub_give_up g s)"
| releases: "g < length (stub_goroutines s) \<Longrightarrow> sg_phase (stub_goroutines s ! g) = Writing \<Longrightarrow>
    stub_step s (Releases g) (stub_release g s)"
| stops: "stub_step s Stops (stub_stop s)"

inductive stub_run :: "stub_state \<Rightarrow> stub_label list \<Rightarrow> stub_state \<Rightarrow> bool" where
  none: "stub_run s [] s"
| more: "stub_step s l s' \<Longrightarrow> stub_run s' ls s'' \<Longrightarrow> stub_run s (l # ls) s''"

text \<open>\<open>Shutdown\<close> returns nil once the wait group is empty.\<close>

definition drained :: "stub_state \<Rightarrow> bool" where
  "drained s \<longleftrightarrow> stubWG s = 0"

inductive_cases stub_stepE: "stub_step s l s'"

section \<open>The slots and the wait group\<close>

definition in_phase :: "stub_phase \<Rightarrow> stub_state \<Rightarrow> nat" where
  "in_phase ph s = length (filter (\<lambda>j. sg_phase j = ph) (stub_goroutines s))"

definition stub_inv :: "stub_state \<Rightarrow> bool" where
  "stub_inv s \<longleftrightarrow> stubInflight s = in_phase Writing s \<and> stubInflight s \<le> stubRequestMaxInflight \<and>
     stubWG s = int (in_phase Queued s + in_phase Writing s)"

lemma in_phase_set:
  assumes "g < length (stub_goroutines s)" "sg_phase (stub_goroutines s ! g) = old"
  shows "in_phase ph (set_goroutine g new s) + (if old = ph then 1 else 0) = in_phase ph s + (if new = ph then 1 else 0)"
  using length_filter_update [OF assms(1), of "\<lambda>j. sg_phase j = ph" "(stub_goroutines s ! g)\<lparr>sg_phase := new\<rparr>"] assms(2)
  by (simp add: in_phase_def set_goroutine_def)

lemma request_phases:
  "in_phase Writing (requestRecommendation now key s) = in_phase Writing s \<and>
   stubInflight (requestRecommendation now key s) = stubInflight s \<and>
   stubWG (requestRecommendation now key s) - int (in_phase Queued (requestRecommendation now key s)) = stubWG s - int (in_phase Queued s) \<and>
   (stubStopping s \<longrightarrow> requestRecommendation now key s = s) \<and> stubStopping (requestRecommendation now key s) = stubStopping s"
  by (auto simp: requestRecommendation_def beginStubRequest_def in_phase_def Let_def split: prod.split bool.split)

text \<open>What each step does to the counts.\<close>

lemma step_counts:
  assumes "stub_step s l s'"
  shows "case l of
      Acquires g \<Rightarrow> in_phase Queued s = Suc (in_phase Queued s') \<and> in_phase Writing s' = Suc (in_phase Writing s) \<and>
        stubInflight s' = Suc (stubInflight s) \<and> stubInflight s < stubRequestMaxInflight \<and> stubWG s' = stubWG s
    | GivesUp g \<Rightarrow> in_phase Queued s = Suc (in_phase Queued s') \<and> in_phase Writing s' = in_phase Writing s \<and>
        stubInflight s' = stubInflight s \<and> stubWG s' = stubWG s - 1
    | Releases g \<Rightarrow> in_phase Queued s = in_phase Queued s' \<and> in_phase Writing s = Suc (in_phase Writing s') \<and>
        stubInflight s' = stubInflight s - 1 \<and> stubWG s' = stubWG s - 1
    | Asks k \<Rightarrow> in_phase Writing s' = in_phase Writing s \<and> stubInflight s' = stubInflight s \<and>
        stubWG s' - int (in_phase Queued s') = stubWG s - int (in_phase Queued s)
    | Stops \<Rightarrow> in_phase Queued s = in_phase Queued s' \<and> in_phase Writing s = in_phase Writing s' \<and>
        stubInflight s' = stubInflight s \<and> stubWG s' = stubWG s"
  using assms
proof cases
  case (asks now key)
  then show ?thesis using request_phases by simp
next
  case (acquires g)
  let ?s = "s\<lparr>stubInflight := stubInflight s + 1\<rparr>"
  have "in_phase ph ?s = in_phase ph s" for ph by (simp add: in_phase_def)
  then show ?thesis
    using in_phase_set [of g ?s Queued Queued Writing] in_phase_set [of g ?s Queued Writing Writing] acquires
    by (simp add: stub_acquire_def) (simp add: set_goroutine_def)
next
  case (gives_up g)
  let ?j = "stub_goroutines s ! g"
  let ?s = "(dropStubClaim (sg_key ?j) (sg_claim ?j) s)\<lparr>stubWG := stubWG s - 1\<rparr>"
  have "in_phase ph ?s = in_phase ph s" for ph by (simp add: in_phase_def dropStubClaim_def)
  then show ?thesis
    using in_phase_set [of g ?s Queued Queued Unwound] in_phase_set [of g ?s Queued Writing Unwound] gives_up
    by (simp add: stub_give_up_def Let_def) (simp add: set_goroutine_def dropStubClaim_def)
next
  case (releases g)
  let ?s = "s\<lparr>stubInflight := stubInflight s - 1, stubWG := stubWG s - 1\<rparr>"
  have "in_phase ph ?s = in_phase ph s" for ph by (simp add: in_phase_def)
  then show ?thesis
    using in_phase_set [of g ?s Writing Queued Unwound] in_phase_set [of g ?s Writing Writing Unwound] releases
    by (simp add: stub_release_def) (simp add: set_goroutine_def)
next
  case stops
  then show ?thesis by (simp add: stub_stop_def in_phase_def)
qed

lemma stub_inv_step: "stub_step s l s' \<Longrightarrow> stub_inv s \<Longrightarrow> stub_inv s'"
  using step_counts [of s l s'] by (cases l) (auto simp: stub_inv_def)

lemma stub_inv_run: "stub_run s ls s' \<Longrightarrow> stub_inv s \<Longrightarrow> stub_inv s'"
  by (induction rule: stub_run.induct) (auto intro: stub_inv_step)

lemma stub_inv_init: "stub_inv initStubState"
  by (simp add: stub_inv_def initStubState_def in_phase_def)

text \<open>C20. However admissions, goroutines and a shutdown interleave, at most sixteen writes are in flight, exactly
  the goroutines that hold a slot, and the wait group counts exactly the goroutines that have not unwound,
  so it never goes negative.\<close>

theorem stub_writes_bounded:
  assumes "stub_run initStubState ls s"
  shows "stubInflight s \<le> 16 \<and> stubInflight s = in_phase Writing s \<and> stubWG s = int (in_phase Queued s + in_phase Writing s)"
  using stub_inv_run [OF assms stub_inv_init] by (simp add: stub_inv_def stubRequestMaxInflight_def)

section \<open>Shutdown\<close>

lemma stopping_step:
  assumes "stub_step s l s'" "stubStopping s"
  shows "stubStopping s' \<and> 2 * in_phase Queued s' + in_phase Writing s' \<le> 2 * in_phase Queued s + in_phase Writing s \<and>
    (l \<noteq> Stops \<and> (\<forall>k. l \<noteq> Asks k) \<longrightarrow> 2 * in_phase Queued s' + in_phase Writing s' < 2 * in_phase Queued s + in_phase Writing s)"
proof -
  have stop: "stubStopping s'"
    using assms request_phases
    by (cases rule: stub_step.cases)
       (auto simp: stub_acquire_def stub_give_up_def stub_release_def stub_stop_def set_goroutine_def dropStubClaim_def Let_def)
  have "s' = s" if "l = Asks k" for k
    using assms that request_phases by (auto elim: stub_stepE)
  then show ?thesis using step_counts [OF assms(1)] stop by (cases l) auto
qed

definition unwinding :: "stub_label \<Rightarrow> bool" where
  "unwinding l \<longleftrightarrow> l \<noteq> Stops \<and> (\<forall>k. l \<noteq> Asks k)"

lemma stopping_run:
  assumes "stub_run s ls s'" "stubStopping s"
  shows "length (filter unwinding ls) + (2 * in_phase Queued s' + in_phase Writing s') \<le> 2 * in_phase Queued s + in_phase Writing s"
  using assms
proof (induction rule: stub_run.induct)
  case (more s l s' ls s'')
  then show ?case using stopping_step [OF more.hyps(1) more.prems] by (auto simp: unwinding_def)
qed simp

lemma stopping_run_wg:
  assumes "stub_run s ls s'" "stubStopping s"
  shows "stubWG s' \<le> stubWG s"
  using assms
proof (induction rule: stub_run.induct)
  case (more s l s' ls s'')
  have "stubWG s' \<le> stubWG s"
    using step_counts [OF more.hyps(1)] more.hyps(1) more.prems request_phases
    by (cases l) (auto elim: stub_stepE)
  then show ?case using more stopping_step [OF more.hyps(1) more.prems] by simp
qed simp

text \<open>C21. Shutdown drains: once it has stopped the handler no admission starts another goroutine, every other step
  brings the goroutines nearer to their end, in at most twice as many steps as were left, and while one is
  left it has a step to take; so the wait of Shutdown ends.\<close>

theorem shutdown_drains:
  assumes "stub_run initStubState ls s" "stub_run (stub_stop s) ls' s'"
  shows "length (filter unwinding ls') \<le> 2 * nat (stubWG s) \<and> stubWG s' \<le> stubWG s \<and>
    (\<not> drained s' \<longrightarrow> (\<exists>l s''. unwinding l \<and> stub_step s' l s''))"
proof -
  have inv: "stub_inv s" by (rule stub_inv_run [OF assms(1) stub_inv_init])
  then have "stub_inv (stub_stop s)" by (simp add: stub_inv_def stub_stop_def in_phase_def)
  with assms(2) have inv': "stub_inv s'" by (rule stub_inv_run)
  have same: "in_phase ph (stub_stop s) = in_phase ph s" for ph by (simp add: stub_stop_def in_phase_def)
  have run: "length (filter unwinding ls') + (2 * in_phase Queued s' + in_phase Writing s') \<le> 2 * in_phase Queued s + in_phase Writing s"
    using stopping_run [OF assms(2)] same by (simp add: stub_stop_def)
  have left: "\<exists>l s''. unwinding l \<and> stub_step s' l s''" if "\<not> drained s'"
  proof -
    have "\<exists>g < length (stub_goroutines s'). sg_phase (stub_goroutines s' ! g) = Queued \<or> sg_phase (stub_goroutines s' ! g) = Writing"
    proof (rule ccontr)
      assume "\<not> ?thesis"
      then have "in_phase Queued s' = 0" "in_phase Writing s' = 0"
        by (auto simp: in_phase_def filter_empty_conv in_set_conv_nth)
      then show False using that inv' by (simp add: drained_def stub_inv_def)
    qed
    then obtain g where g: "g < length (stub_goroutines s')"
      "sg_phase (stub_goroutines s' ! g) = Queued \<or> sg_phase (stub_goroutines s' ! g) = Writing" by blast
    then show ?thesis
      using stub_step.gives_up [of g s'] stub_step.releases [of g s'] by (auto simp: unwinding_def)
  qed
  have "stubWG s' \<le> stubWG s"
    using stopping_run_wg [OF assms(2)] by (simp add: stub_stop_def)
  then show ?thesis using run left inv by (simp add: stub_inv_def)
qed

section \<open>An example\<close>

text \<open>Two admissions of one identity ask at the same instant: one goroutine starts, and is writing when the
  handler stops.\<close>

definition ex_stub :: stub_state where
  "ex_stub = stub_acquire 0 (requestRecommendation 5 ''web'' (requestRecommendation 5 ''web'' initStubState))"

lemma ex_stub_run: "stub_run initStubState [Asks ''web'', Asks ''web'', Acquires 0] ex_stub"
proof -
  let ?s = "requestRecommendation 5 ''web'' (requestRecommendation 5 ''web'' initStubState)"
  have "stub_goroutines ?s = [\<lparr> sg_key = ''web'', sg_claim = 1, sg_phase = Queued \<rparr>]" "stubInflight ?s = 0"
    by (simp_all add: requestRecommendation_def beginStubRequest_def initStubState_def newStubClaims_def SetIfAbsent_def setLocked_def
      stubRequestDedupMaxEntries_def stubRequestDedupTTL_def time_sub_def sat64_def moveToFront_def Let_def)
  then have "stub_step ?s (Acquires 0) ex_stub"
    unfolding ex_stub_def by (intro stub_step.acquires) (simp_all add: stubRequestMaxInflight_def)
  note last = stub_run.more [OF this stub_run.none]
  show ?thesis by (rule stub_run.more [OF stub_step.asks stub_run.more [OF stub_step.asks last]])
qed

theorem stub_writes_bounded_witness: "stubInflight ex_stub \<le> 16"
  using stub_writes_bounded [OF ex_stub_run] by blast

theorem shutdown_drains_witness: "\<exists>s' ls'. stub_run (stub_stop ex_stub) ls' s' \<and> length (filter unwinding ls') \<le> 2 * nat (stubWG ex_stub)"
  using shutdown_drains [OF ex_stub_run stub_run.none] stub_run.none by blast

end
