(* ===== verification/Inventory.thy ===== *)
theory Inventory
  imports Kinds WlrCache
begin

text \<open>
  Identities (\<open>internal/inventory/inventory.go\<close>): the cluster's workload objects, bare pods and stored
  WorkloadRecommendations, grouped by namespace, kind and name, with what their members decide together.

  The reader is the record \<open>inv_reader\<close>. A snapshot lists every kind, namespace and object at most once, so
  each call's answer is a function of its arguments. The builder's memo of Namespace annotations is part of
  its state; a decision reads through it, and the walk \<open>Decide\<close> leaves behind tells whether it did. The
  objects of one identity have different names, so the sort by name is \<open>sort_key\<close>.
\<close>

section \<open>Objects\<close>

record 'q pod_template =
  tm_Labels :: str_map
  tm_Annotations :: str_map
  tm_Containers :: "'q container list"
  tm_InitContainers :: "'q container list"

text \<open>A workload object with its pod template; \<open>wk_Conditions\<close> are a Job's.\<close>

record ('q, 'ls) inv_workload =
  wk_Object :: "'ls workload_object"
  wk_Created :: time
  wk_Annotations :: str_map
  wk_OwnerReferences :: "owner_reference list"
  wk_Conditions :: "pod_condition list"
  wk_Template :: "'q pod_template"

datatype ('q, 'ls) inv_object = InvWorkload "('q, 'ls) inv_workload" | InvPod time "'q pod"

definition obj_Name :: "('q, 'ls) inv_object \<Rightarrow> string" where
  "obj_Name ob = (case ob of InvWorkload w \<Rightarrow> wo_Name (wk_Object w) | InvPod _ p \<Rightarrow> pod_Name p)"

definition obj_Created :: "('q, 'ls) inv_object \<Rightarrow> time" where
  "obj_Created ob = (case ob of InvWorkload w \<Rightarrow> wk_Created w | InvPod t _ \<Rightarrow> t)"

definition PodTemplateOf :: "('q, 'ls) inv_workload \<Rightarrow> 'q pod_template option" where
  "PodTemplateOf w =
     (if wo_Type (wk_Object w) \<in> {''Deployment'', ''StatefulSet'', ''DaemonSet'', ''Rollout'', ''CronJob'', ''Job''}
      then Some (wk_Template w) else None)"

record ('q, 'ls) inv_member =
  im_Object :: "('q, 'ls) inv_object"
  im_Policy :: string
  im_Containers :: "'q container list"
  im_InitContainers :: "'q container list"

record ('q, 'ls) identity =
  in_Key :: workload_identity
  in_Members :: "('q, 'ls) inv_member list"
  in_Containers :: "'q container list"
  in_InitContainers :: "'q container list"
  in_Since :: time
  in_Policy :: string
  in_Conflicted :: bool
  in_Recommendation :: "'q workload_recommendation option"

definition new_identity :: "workload_identity \<Rightarrow> ('q, 'ls) identity" where
  "new_identity key =
     \<lparr> in_Key = key, in_Members = [], in_Containers = [], in_InitContainers = [], in_Since = 0, in_Policy = [],
       in_Conflicted = False, in_Recommendation = None \<rparr>"

definition identity_Departed :: "('q, 'ls) identity \<Rightarrow> bool" where
  "identity_Departed i \<longleftrightarrow> in_Members i = []"

definition distinct_policies :: "('q, 'ls) inv_member list \<Rightarrow> string list" where
  "distinct_policies ms =
     fold (\<lambda>m out. if im_Policy m \<noteq> [] \<and> im_Policy m \<notin> set out then out @ [im_Policy m] else out) ms []"

definition MemberPolicies :: "('q, 'ls) identity \<Rightarrow> string list" where
  "MemberPolicies i = sort (distinct_policies (in_Members i))"

definition Contributors :: "('q, 'ls) identity \<Rightarrow> ('q, 'ls) inv_member list" where
  "Contributors i =
     (if in_Policy i \<noteq> [] then filter (\<lambda>m. im_Policy m = in_Policy i) (in_Members i)
      else if in_Conflicted i then filter (\<lambda>m. im_Policy m \<noteq> []) (in_Members i)
      else in_Members i)"

section \<open>What members decide together\<close>

definition appendUnseen ::
  "'q container list \<Rightarrow> 'q container list \<times> string list \<Rightarrow> 'q container list \<times> string list" where
  "appendUnseen src st =
     fold (\<lambda>c (dst, seen). if c_Name c \<in> set seen then (dst, seen) else (dst @ [c], c_Name c # seen)) src st"

definition newest_first :: "('q, 'ls) inv_member list \<Rightarrow> ('q, 'ls) inv_member list" where
  "newest_first ms = sort_key (\<lambda>m. - obj_Created (im_Object m)) ms"

definition unionContainers :: "('q, 'ls) inv_member list \<Rightarrow> 'q container list \<times> 'q container list" where
  "unionContainers ms =
     (let st = fold (\<lambda>m (c, i). (appendUnseen (im_Containers m) c, appendUnseen (im_InitContainers m) i))
                 (newest_first ms) (([], []), ([], []))
      in (fst (fst st), fst (snd st)))"

text \<open>The zero time is \<open>0\<close>.\<close>

definition earlier :: "time \<Rightarrow> time \<Rightarrow> time" where
  "earlier a b = (if b = 0 then a else if a = 0 \<or> b < a then b else a)"

definition settle_policies :: "('q, 'ls) identity \<Rightarrow> ('q, 'ls) identity" where
  "settle_policies i =
     (case MemberPolicies i of [] \<Rightarrow> i | [p] \<Rightarrow> i\<lparr>in_Policy := p\<rparr> | _ \<Rightarrow> i\<lparr>in_Conflicted := True\<rparr>)"

definition settle_identity :: "('q, 'ls) identity \<Rightarrow> ('q, 'ls) identity" where
  "settle_identity i0 =
     (let i1 = i0\<lparr>in_Members := sort_key (\<lambda>m. obj_Name (im_Object m)) (in_Members i0)\<rparr>
      in if identity_Departed i1
         then case in_Recommendation i1 of
                None \<Rightarrow> i1
              | Some k \<Rightarrow> let (cs, ics) = ContainersFromObserved (ObservedResources (w_Status k))
                          in i1\<lparr>in_Containers := cs, in_InitContainers := ics, in_Since := w_CreationTimestamp k\<rparr>
         else let i2 = settle_policies i1;
                  (cs, ics) = unionContainers (Contributors i2);
                  since0 = (case in_Recommendation i2 of Some k \<Rightarrow> w_CreationTimestamp k | None \<Rightarrow> in_Since i2)
              in i2\<lparr>in_Containers := cs, in_InitContainers := ics,
                    in_Since := fold (\<lambda>m t. earlier t (obj_Created (im_Object m))) (Contributors i2) since0\<rparr>)"

section \<open>The builder\<close>

record ('q, 'ls) inv_reader =
  ir_List :: "string \<Rightarrow> string \<Rightarrow> go_error + ('q, 'ls) inv_object list"
  ir_ListRecommendations :: "string \<Rightarrow> go_error + 'q workload_recommendation list"
  ir_ListNamespaces :: "go_error + (string \<times> str_map) list"
  ir_GetNamespace :: "string \<Rightarrow> go_error + str_map"
  ir_IsNoMatch :: "go_error \<Rightarrow> bool"
  ir_IsNotFound :: "go_error \<Rightarrow> bool"

record inv_options =
  io_Namespaces :: "string list"
  io_Kinds :: "string list"

record ('q, 'ls) inv_builder =
  bl_byKey :: "(workload_identity, ('q, 'ls) identity) gomap"
  bl_nsAnn :: "(string, str_map) gomap"
  bl_nsAnnListed :: bool

definition dedupe :: "string list \<Rightarrow> string list" where
  "dedupe nss = fold (\<lambda>ns out. if ns \<in> set out then out else out @ [ns]) nss []"

definition inScope :: "inv_options \<Rightarrow> string \<Rightarrow> bool" where
  "inScope opts kind \<longleftrightarrow> io_Kinds opts = [] \<or> kind \<in> set (io_Kinds opts)"

text \<open>One listing per namespace in scope; the empty namespace is the whole cluster.\<close>

definition list_scopes :: "inv_options \<Rightarrow> string list" where
  "list_scopes opts = (let nss = dedupe (io_Namespaces opts) in if nss = [] then [[]] else nss)"

fun each_item :: "('i \<Rightarrow> 'b \<Rightarrow> (go_error + unit) \<times> 'b) \<Rightarrow> 'i list \<Rightarrow> 'b \<Rightarrow> (go_error + unit) \<times> 'b" where
  "each_item visit [] b = (Inr (), b)"
| "each_item visit (x # xs) b = and_then (visit x) (\<lambda>_. each_item visit xs) b"

fun list_each ::
  "(go_error \<Rightarrow> bool) \<Rightarrow> (string \<Rightarrow> go_error + 'i list) \<Rightarrow> ('i \<Rightarrow> 'b \<Rightarrow> (go_error + unit) \<times> 'b) \<Rightarrow> string list \<Rightarrow> 'b \<Rightarrow>
   (go_error + unit) \<times> 'b" where
  "list_each isNoMatch lister visit [] b = (Inr (), b)"
| "list_each isNoMatch lister visit (ns # nss) b =
     (case lister ns of
        Inl err \<Rightarrow> if isNoMatch err then (Inr (), b) else (Inl err, b)
      | Inr items \<Rightarrow> and_then (each_item visit items) (\<lambda>_. list_each isNoMatch lister visit nss) b)"

definition builder_identity :: "workload_identity \<Rightarrow> ('q, 'ls) inv_builder \<Rightarrow> ('q, 'ls) identity" where
  "builder_identity key b = lookup_or (new_identity key) (bl_byKey b) key"

definition addMember :: "workload_identity \<Rightarrow> ('q, 'ls) inv_member \<Rightarrow> ('q, 'ls) inv_builder \<Rightarrow> ('q, 'ls) inv_builder" where
  "addMember key m b =
     (let i = builder_identity key b
      in b\<lparr>bl_byKey := AList.update key (i\<lparr>in_Members := in_Members i @ [m]\<rparr>) (bl_byKey b)\<rparr>)"

definition builder_NamespaceAnnotations ::
  "('q, 'ls) inv_reader \<Rightarrow> inv_options \<Rightarrow> string \<Rightarrow> ('q, 'ls) inv_builder \<Rightarrow> (go_error + str_map) \<times> ('q, 'ls) inv_builder" where
  "builder_NamespaceAnnotations r opts name b =
     (if map_of (bl_nsAnn b) name \<noteq> None \<or> bl_nsAnnListed b then (Inr (lookup_or [] (bl_nsAnn b) name), b)
      else if dedupe (io_Namespaces opts) = [] then
        (case ir_ListNamespaces r of
           Inl err \<Rightarrow> (Inl (Wrap err), b)
         | Inr items \<Rightarrow>
             let ann = fold (\<lambda>(n, a) m. AList.update n a m) items (bl_nsAnn b)
             in (Inr (lookup_or [] ann name), b\<lparr>bl_nsAnn := ann, bl_nsAnnListed := True\<rparr>))
      else
        (case ir_GetNamespace r name of
           Inl err \<Rightarrow> if ir_IsNotFound r err then (Inr [], b\<lparr>bl_nsAnn := AList.update name [] (bl_nsAnn b)\<rparr>)
                      else (Inl (Wrap err), b)
         | Inr ann \<Rightarrow> (Inr ann, b\<lparr>bl_nsAnn := AList.update name ann (bl_nsAnn b)\<rparr>)))"

text \<open>The builder as the reader of a decision.\<close>

definition builder_reader ::
  "('q, 'ls) inv_reader \<Rightarrow> inv_options \<Rightarrow> ('q, 'sel, 'm) policies \<Rightarrow> ('q, 'ls) inv_builder \<Rightarrow> ('q, 'sel, 'm, go_error) reader" where
  "builder_reader r opts ps b =
     \<lparr> rd_Policies = Inr ps,
       rd_PodOwner = \<lambda>_. Inl (Plain ''the inventory resolves no controller owner''),
       rd_WorkloadAnnotations = \<lambda>_ _ _. Inl (Plain ''the inventory reads no workload annotations''),
       rd_NamespaceAnnotations = \<lambda>ns. fst (builder_NamespaceAnnotations r opts ns b) \<rparr>"

text \<open>A decision through the builder, and the builder with the annotations it read.\<close>

definition builder_decide ::
  "('sel, 'm) gov_env \<Rightarrow> ('q, 'ls) inv_reader \<Rightarrow> inv_options \<Rightarrow> ('q, 'sel, 'm) policies \<Rightarrow> 'q subject \<Rightarrow> ('q, 'ls) inv_builder \<Rightarrow>
   (go_error + ('q, 'sel) decision) \<times> ('q, 'ls) inv_builder" where
  "builder_decide G r opts ps s b =
     (case Decide G (builder_reader r opts ps b) s of
        (d, w) \<Rightarrow> (d, if ReadNamespaceAnnotations \<in> set (wk_calls w)
                     then snd (builder_NamespaceAnnotations r opts (s_namespace s) b) else b))"

definition visit_workload ::
  "('sel, 'm) gov_env \<Rightarrow> ('q, 'ls) inv_reader \<Rightarrow> inv_options \<Rightarrow> ('q, 'sel, 'm) policies \<Rightarrow> string \<Rightarrow> ('q, 'ls) inv_object \<Rightarrow>
   ('q, 'ls) inv_builder \<Rightarrow> (go_error + unit) \<times> ('q, 'ls) inv_builder" where
  "visit_workload G r opts ps kind ob b =
     (case ob of
        InvPod _ _ \<Rightarrow> (Inr (), b)
      | InvWorkload w \<Rightarrow>
          if wo_Type (wk_Object w) = ''Job'' \<and>
             (IsOwnedByKind (wk_OwnerReferences w) ''CronJob'' \<or>
              JobFinished \<lparr> job_Name = wo_Name (wk_Object w), job_Namespace = wo_Namespace (wk_Object w), job_UID = wo_UID (wk_Object w),
                            job_OwnerReferences = wk_OwnerReferences w, job_Conditions = wk_Conditions w \<rparr>)
          then (Inr (), b)
          else case PodTemplateOf w of
            None \<Rightarrow> (Inr (), b)
          | Some tmpl \<Rightarrow>
              and_then
                (builder_decide G r opts ps
                   (PodTemplate (wo_Namespace (wk_Object w)) (wo_Name (wk_Object w)) (wk_Annotations w) kind (tm_Labels tmpl) (tm_Annotations tmpl)))
                (\<lambda>d b'. (Inr (), addMember (d_Identity d)
                    \<lparr> im_Object = ob, im_Policy = PolicyName d, im_Containers = tm_Containers tmpl,
                      im_InitContainers = tm_InitContainers tmpl \<rparr> b')) b)"

definition visit_pod ::
  "('sel, 'm) gov_env \<Rightarrow> ('q, 'ls) inv_reader \<Rightarrow> inv_options \<Rightarrow> ('q, 'sel, 'm) policies \<Rightarrow> ('q, 'ls) inv_object \<Rightarrow>
   ('q, 'ls) inv_builder \<Rightarrow> (go_error + unit) \<times> ('q, 'ls) inv_builder" where
  "visit_pod G r opts ps ob b =
     (case ob of
        InvWorkload _ \<Rightarrow> (Inr (), b)
      | InvPod _ pod \<Rightarrow>
          if GetControllerOf (pod_OwnerReferences pod) \<noteq> None then (Inr (), b)
          else and_then (builder_decide G r opts ps (Pod pod))
                 (\<lambda>d b'. if d_Refusal d = Some NoOwner then (Inr (), b')
                    else (Inr (), addMember (d_Identity d)
                            \<lparr> im_Object = ob, im_Policy = PolicyName d, im_Containers = pod_Containers pod,
                              im_InitContainers = pod_InitContainers pod \<rparr> b')) b)"

definition visit_recommendation ::
  "('sel, 'm) gov_env \<Rightarrow> ('q, 'ls) inv_reader \<Rightarrow> inv_options \<Rightarrow> ('q, 'sel, 'm) policies \<Rightarrow> 'q workload_recommendation \<Rightarrow>
   ('q, 'ls) inv_builder \<Rightarrow> (go_error + unit) \<times> ('q, 'ls) inv_builder" where
  "visit_recommendation G r opts ps wlr b =
     (if \<not> inScope opts (wr_Kind (w_WorkloadRef wlr)) then (Inr (), b)
      else let key = identityOf (w_WorkloadRef wlr);
               i = (builder_identity key b)\<lparr>in_Recommendation := Some wlr\<rparr>;
               b1 = b\<lparr>bl_byKey := AList.update key i (bl_byKey b)\<rparr>
           in if \<not> identity_Departed i then (Inr (), b1)
              else and_then (builder_decide G r opts ps (Departed_subject key (w_Policy wlr)))
                     (\<lambda>d b2. (Inr (), b2\<lparr>bl_byKey := AList.update key (i\<lparr>in_Policy := PolicyName d\<rparr>) (bl_byKey b2)\<rparr>)) b1)"

definition add_kind ::
  "('sel, 'm) gov_env \<Rightarrow> ('q, 'ls) inv_reader \<Rightarrow> inv_options \<Rightarrow> ('q, 'sel, 'm) policies \<Rightarrow> string \<Rightarrow>
   ('q, 'ls) inv_builder \<Rightarrow> (go_error + unit) \<times> ('q, 'ls) inv_builder" where
  "add_kind G r opts ps kind b =
     (if \<not> inScope opts kind then (Inr (), b)
      else case list_each (ir_IsNoMatch r) (ir_List r kind)
                  (if kind = ''Pod'' then visit_pod G r opts ps else visit_workload G r opts ps kind) (list_scopes opts) b of
             (Inl err, b') \<Rightarrow> (Inl (Wrap err), b')
           | (Inr u, b') \<Rightarrow> (Inr u, b'))"

fun add_kinds ::
  "('sel, 'm) gov_env \<Rightarrow> ('q, 'ls) inv_reader \<Rightarrow> inv_options \<Rightarrow> ('q, 'sel, 'm) policies \<Rightarrow> string list \<Rightarrow>
   ('q, 'ls) inv_builder \<Rightarrow> (go_error + unit) \<times> ('q, 'ls) inv_builder" where
  "add_kinds G r opts ps [] b = (Inr (), b)"
| "add_kinds G r opts ps (k # ks) b = and_then (add_kind G r opts ps k) (\<lambda>_. add_kinds G r opts ps ks) b"

section \<open>Snapshots\<close>

record ('q, 'ls) snapshot_of =
  sn_Identities :: "('q, 'ls) identity list"
  sn_TakenAt :: time

definition identity_order :: "workload_identity \<Rightarrow> string list" where
  "identity_order k = [id_Namespace k, OwnerKind k, OwnerName k]"

definition builder_snapshot :: "time \<Rightarrow> ('q, 'ls) inv_builder \<Rightarrow> ('q, 'ls) snapshot_of" where
  "builder_snapshot takenAt b =
     \<lparr> sn_Identities = sort_key (\<lambda>i. identity_order (in_Key i)) (map (\<lambda>(_, i). settle_identity i) (bl_byKey b)), sn_TakenAt = takenAt \<rparr>"

text \<open>The index maps each key to the place of its identity; \<open>Lookup\<close> reads through it.\<close>

definition snapshot_index :: "('q, 'ls) snapshot_of \<Rightarrow> (workload_identity, nat) gomap" where
  "snapshot_index s = map_by (\<lambda>n. in_Key (sn_Identities s ! n)) id [0..<length (sn_Identities s)]"

definition snapshot_Lookup :: "('q, 'ls) snapshot_of \<Rightarrow> workload_identity \<Rightarrow> ('q, 'ls) identity option" where
  "snapshot_Lookup s key = map_option (\<lambda>n. sn_Identities s ! n) (map_of (snapshot_index s) key)"

definition GovernedBy :: "('q, 'ls) snapshot_of \<Rightarrow> string \<Rightarrow> ('q, 'ls) identity list" where
  "GovernedBy s policy = filter (\<lambda>i. in_Policy i = policy) (sn_Identities s)"

text \<open>\<open>policies\<close> is what listing the Policies gives.\<close>

definition Take ::
  "('sel, 'm) gov_env \<Rightarrow> ('q, 'ls) inv_reader \<Rightarrow> inv_options \<Rightarrow> go_error + ('q, 'sel, 'm) policies \<Rightarrow> time \<Rightarrow>
   go_error + ('q, 'ls) snapshot_of" where
  "Take G r opts policies takenAt =
     (case policies of
        Inl err \<Rightarrow> Inl err
      | Inr ps \<Rightarrow>
          (case add_kinds G r opts ps SupportedKinds \<lparr> bl_byKey = [], bl_nsAnn = [], bl_nsAnnListed = False \<rparr> of
             (Inl err, _) \<Rightarrow> Inl err
           | (Inr _, b) \<Rightarrow>
               (case list_each (ir_IsNoMatch r) (ir_ListRecommendations r) (visit_recommendation G r opts ps) (list_scopes opts) b of
                  (Inl err, _) \<Rightarrow> Inl (Wrap err)
                | (Inr _, b') \<Rightarrow> Inr (builder_snapshot takenAt b'))))"

definition policy_options :: "('q, 'sel) policy \<Rightarrow> inv_options" where
  "policy_options p =
     \<lparr> io_Namespaces = ps_Namespaces (p_Selector p),
       io_Kinds = filter (\<lambda>kind. ModeForKind (us_Types (rs_Update (p_RightSizing p))) kind \<noteq> None) SupportedKinds \<rparr>"

definition TakeForPolicy ::
  "('sel, 'm) gov_env \<Rightarrow> ('q, 'ls) inv_reader \<Rightarrow> ('q, 'sel) policy \<Rightarrow> go_error + ('q, 'sel, 'm) policies \<Rightarrow> time \<Rightarrow>
   go_error + ('q, 'ls) snapshot_of" where
  "TakeForPolicy G r policy policies now =
     (if io_Kinds (policy_options policy) = [] then Inr \<lparr> sn_Identities = [], sn_TakenAt = now \<rparr>
      else Take G r (policy_options policy) policies now)"

end
