(* ===== verification/InventoryCorrect.thy ===== *)
theory InventoryCorrect
  imports Inventory GovernanceCorrect "HOL-Library.Multiset"
begin

text \<open>
  What a snapshot of identities promises (\<open>internal/inventory/inventory.go\<close>): which Policy governs an identity
  and when it is Conflicted, whose declaration of a container an identity takes, and that a snapshot has
  each identity once, finds it by its key, and has a Recommendation for every Departed one.
\<close>

section \<open>Policies of members\<close>

lemma distinct_policies_spec:
  "distinct (distinct_policies ms) \<and> set (distinct_policies ms) = {im_Policy m |m. m \<in> set ms} - {[]}"
proof -
  let ?f = "\<lambda>m out. if im_Policy m \<noteq> [] \<and> im_Policy m \<notin> set out then out @ [im_Policy m] else out"
  have "distinct out \<Longrightarrow> distinct (fold ?f ms out) \<and> set (fold ?f ms out) = set out \<union> ({im_Policy m |m. m \<in> set ms} - {[]})" for out
  proof (induction ms arbitrary: out)
    case (Cons m ms)
    then show ?case by (cases "im_Policy m \<noteq> [] \<and> im_Policy m \<notin> set out") auto
  qed simp
  then show ?thesis by (simp add: distinct_policies_def)
qed

lemma MemberPolicies_spec:
  "distinct (MemberPolicies i) \<and> set (MemberPolicies i) = {im_Policy m |m. m \<in> set (in_Members i)} - {[]}"
  using distinct_policies_spec [of "in_Members i"] by (simp add: MemberPolicies_def)

lemma settle_fields:
  assumes "in_Members i0 \<noteq> []"
  shows "in_Policy (settle_identity i0) = in_Policy (settle_policies (i0\<lparr>in_Members := sort_key (\<lambda>m. obj_Name (im_Object m)) (in_Members i0)\<rparr>))"
    and "in_Conflicted (settle_identity i0) = in_Conflicted (settle_policies (i0\<lparr>in_Members := sort_key (\<lambda>m. obj_Name (im_Object m)) (in_Members i0)\<rparr>))"
    and "set (in_Members (settle_identity i0)) = set (in_Members i0)"
    and "in_Key (settle_identity i0) = in_Key i0"
proof -
  let ?i = "i0\<lparr>in_Members := sort_key (\<lambda>m. obj_Name (im_Object m)) (in_Members i0)\<rparr>"
  have live: "\<not> identity_Departed ?i" using assms set_sort [of _ "in_Members i0"] by (auto simp: identity_Departed_def dest: arg_cong [of _ _ set])
  have keep: "in_Members (settle_policies ?i) = in_Members ?i" "in_Key (settle_policies ?i) = in_Key i0"
    by (auto simp: settle_policies_def split: list.split)
  show "in_Policy (settle_identity i0) = in_Policy (settle_policies ?i)"
    "in_Conflicted (settle_identity i0) = in_Conflicted (settle_policies ?i)"
    "set (in_Members (settle_identity i0)) = set (in_Members i0)" "in_Key (settle_identity i0) = in_Key i0"
    using live keep by (simp_all add: settle_identity_def Let_def split: prod.split)
qed

lemma settled_policy:
  assumes "in_Members i0 \<noteq> []" "in_Policy i0 = []" "\<not> in_Conflicted i0" "i = settle_identity i0" "p \<noteq> []"
  shows "(in_Policy i = p \<longleftrightarrow> (\<exists>m\<in>set (in_Members i). im_Policy m = p) \<and> (\<forall>m\<in>set (in_Members i). im_Policy m = p \<or> im_Policy m = [])) \<and>
    (in_Conflicted i \<longleftrightarrow> (\<exists>m\<in>set (in_Members i). \<exists>m'\<in>set (in_Members i). im_Policy m \<noteq> [] \<and> im_Policy m' \<noteq> [] \<and> im_Policy m \<noteq> im_Policy m')) \<and>
    \<not> (in_Conflicted i \<and> in_Policy i \<noteq> [])"
proof -
  let ?i = "i0\<lparr>in_Members := sort_key (\<lambda>m. obj_Name (im_Object m)) (in_Members i0)\<rparr>"
  note f = settle_fields [OF assms(1), folded assms(4)]
  have mp: "distinct (MemberPolicies ?i)" "set (MemberPolicies ?i) = {im_Policy m |m. m \<in> set (in_Members i)} - {[]}"
    using MemberPolicies_spec [of ?i] f(3) by simp_all
  consider "MemberPolicies ?i = []" | q where "MemberPolicies ?i = [q]" | q q' qs where "MemberPolicies ?i = q # q' # qs"
    by (metis neq_Nil_conv)
  then show ?thesis
  proof cases
    case 1
    then have all: "\<forall>m\<in>set (in_Members i). im_Policy m = []" using mp(2) by auto
    have none: "in_Policy i = []" "\<not> in_Conflicted i" using 1 f assms(2,3) by (simp_all add: settle_policies_def)
    have "\<not> (\<exists>m\<in>set (in_Members i). im_Policy m = p)" using all assms(5) by metis
    moreover have "\<not> (\<exists>m\<in>set (in_Members i). \<exists>m'\<in>set (in_Members i). im_Policy m \<noteq> [] \<and> im_Policy m' \<noteq> [] \<and> im_Policy m \<noteq> im_Policy m')"
      using all by metis
    ultimately show ?thesis using none by (simp add: assms(5) [symmetric])
  next
    case 2
    then have one: "in_Policy i = q" "\<not> in_Conflicted i" using f assms(3) by (simp_all add: settle_policies_def)
    have only: "{im_Policy m |m. m \<in> set (in_Members i)} - {[]} = {q}" using mp(2) 2 by simp
    then have "q \<in> {im_Policy m |m. m \<in> set (in_Members i)} - {[]}" by simp
    then obtain m where m: "m \<in> set (in_Members i)" "im_Policy m = q" "q \<noteq> []" by blast
    have other: "im_Policy m = q \<or> im_Policy m = []" if "m \<in> set (in_Members i)" for m using that only by blast
    have "(\<exists>m\<in>set (in_Members i). im_Policy m = p) \<and> (\<forall>m\<in>set (in_Members i). im_Policy m = p \<or> im_Policy m = []) \<longleftrightarrow> q = p"
      using m other assms(5) by metis
    moreover have "\<not> (\<exists>m\<in>set (in_Members i). \<exists>m'\<in>set (in_Members i). im_Policy m \<noteq> [] \<and> im_Policy m' \<noteq> [] \<and> im_Policy m \<noteq> im_Policy m')"
      using other by metis
    ultimately show ?thesis using one by simp
  next
    case 3
    then have none: "in_Policy i = []" "in_Conflicted i" using f assms(2) by (simp_all add: settle_policies_def)
    have "q \<noteq> q'" "{q, q'} \<subseteq> {im_Policy m |m. m \<in> set (in_Members i)} - {[]}"
      using mp(1) 3 by (simp, simp flip: mp(2))
    then obtain m m' where two: "m \<in> set (in_Members i)" "m' \<in> set (in_Members i)" "im_Policy m = q" "im_Policy m' = q'" "q \<noteq> []" "q' \<noteq> []" "q \<noteq> q'"
      by auto
    have "\<not> (\<forall>m\<in>set (in_Members i). im_Policy m = p \<or> im_Policy m = [])" using two by metis
    moreover have "\<exists>m\<in>set (in_Members i). \<exists>m'\<in>set (in_Members i). im_Policy m \<noteq> [] \<and> im_Policy m' \<noteq> [] \<and> im_Policy m \<noteq> im_Policy m'"
      using two by (intro bexI [of _ m] bexI [of _ m']) simp_all
    ultimately show ?thesis using none(1) none(2) assms(5) by simp
  qed
qed

section \<open>The union of containers\<close>

lemma appendUnseen_spec:
  assumes "set seen = c_Name ` set dst" "distinct (map c_Name dst)" "appendUnseen src (dst, seen) = (dst', seen')"
  shows "set seen' = c_Name ` set dst' \<and> distinct (map c_Name dst') \<and> set dst \<subseteq> set dst' \<and> set dst' \<subseteq> set dst \<union> set src \<and>
    c_Name ` set dst' = c_Name ` set dst \<union> c_Name ` set src"
  using assms
proof (induction src arbitrary: dst seen)
  case (Cons c src)
  show ?case
  proof (cases "c_Name c \<in> set seen")
    case True
    then have "appendUnseen src (dst, seen) = (dst', seen')" using Cons.prems(3) by (simp add: appendUnseen_def)
    from Cons.IH [OF Cons.prems(1,2) this] show ?thesis using True Cons.prems(1) by auto
  next
    case False
    then have step: "appendUnseen src (dst @ [c], c_Name c # seen) = (dst', seen')" using Cons.prems(3) by (simp add: appendUnseen_def)
    have "set (c_Name c # seen) = c_Name ` set (dst @ [c])" "distinct (map c_Name (dst @ [c]))"
      using Cons.prems(1,2) False by auto
    from Cons.IH [OF this step] show ?thesis by auto
  qed
qed (simp add: appendUnseen_def)

text \<open>The containers of one sort, regular or init, gathered from members in turn.\<close>

definition gather :: "(('q, 'ls) inv_member \<Rightarrow> 'q container list) \<Rightarrow> ('q, 'ls) inv_member list \<Rightarrow> 'q container list \<times> string list \<Rightarrow> 'q container list \<times> string list" where
  "gather f ms st = fold (\<lambda>m. appendUnseen (f m)) ms st"

lemma appendUnseen_keeps: "set (fst st) \<subseteq> set (fst (appendUnseen src st))"
proof (induction src arbitrary: st)
  case (Cons c src)
  obtain dst seen where st: "st = (dst, seen)" by fastforce
  let ?st = "if c_Name c \<in> set seen then (dst, seen) else (dst @ [c], c_Name c # seen)"
  have "appendUnseen (c # src) st = appendUnseen src ?st" by (simp add: appendUnseen_def st)
  moreover have "set (fst st) \<subseteq> set (fst ?st)" by (auto simp: st)
  ultimately show ?case using Cons.IH [of ?st] by auto
qed (simp add: appendUnseen_def)

lemma gather_keeps: "set (fst st) \<subseteq> set (fst (gather f ms st))"
proof (induction ms arbitrary: st)
  case (Cons m ms)
  have "gather f (m # ms) st = gather f ms (appendUnseen (f m) st)" by (simp add: gather_def)
  then show ?case using Cons.IH [of "appendUnseen (f m) st"] appendUnseen_keeps [of st "f m"] by auto
qed (simp add: gather_def)

lemma union_gather:
  "unionContainers ms = (fst (gather im_Containers (newest_first ms) ([], [])), fst (gather im_InitContainers (newest_first ms) ([], [])))"
proof -
  have "fold (\<lambda>m (c, i). (appendUnseen (im_Containers m) c, appendUnseen (im_InitContainers m) i)) xs (a, b) =
      (gather im_Containers xs a, gather im_InitContainers xs b)" for xs :: "('a, 'b) inv_member list" and a b
    by (induction xs arbitrary: a b) (simp_all add: gather_def)
  from this [of "newest_first ms" "([], [])" "([], [])"] show ?thesis by (simp add: unionContainers_def Let_def)
qed

lemma gather_spec:
  assumes "set (snd st) = c_Name ` set (fst st)" "distinct (map c_Name (fst st))"
  shows "distinct (map c_Name (fst (gather f ms st))) \<and>
    c_Name ` set (fst (gather f ms st)) = c_Name ` set (fst st) \<union> (\<Union>m\<in>set ms. c_Name ` set (f m)) \<and>
    (\<forall>c\<in>set (fst (gather f ms st)). c \<in> set (fst st) \<or>
       (\<exists>xs m ys. ms = xs @ m # ys \<and> c \<in> set (f m) \<and> (\<forall>x\<in>set xs. c_Name c \<notin> c_Name ` set (f x))))"
  using assms
proof (induction ms arbitrary: st)
  case (Cons m ms)
  obtain dst seen where st: "st = (dst, seen)" by fastforce
  obtain dst' seen' where ap: "appendUnseen (f m) st = (dst', seen')" by fastforce
  have sp: "set seen' = c_Name ` set dst'" "distinct (map c_Name dst')" "set dst' \<subseteq> set dst \<union> set (f m)"
    "c_Name ` set dst' = c_Name ` set dst \<union> c_Name ` set (f m)"
    using appendUnseen_spec [of seen dst "f m" dst' seen'] Cons.prems ap st by auto
  have ih: "distinct (map c_Name (fst (gather f ms (dst', seen')))) \<and>
    c_Name ` set (fst (gather f ms (dst', seen'))) = c_Name ` set dst' \<union> (\<Union>m\<in>set ms. c_Name ` set (f m)) \<and>
    (\<forall>c\<in>set (fst (gather f ms (dst', seen'))). c \<in> set dst' \<or>
       (\<exists>xs m ys. ms = xs @ m # ys \<and> c \<in> set (f m) \<and> (\<forall>x\<in>set xs. c_Name c \<notin> c_Name ` set (f x))))"
    using Cons.IH [of "(dst', seen')"] sp by simp
  have g: "gather f (m # ms) st = gather f ms (dst', seen')" using ap by (simp add: gather_def)
  have last: "c \<in> set (fst st) \<or> (\<exists>xs m' ys. m # ms = xs @ m' # ys \<and> c \<in> set (f m') \<and> (\<forall>x\<in>set xs. c_Name c \<notin> c_Name ` set (f x)))"
    if c: "c \<in> set (fst (gather f (m # ms) st))" for c
  proof (cases "c \<in> set dst'")
    case True
    then consider "c \<in> set dst" | "c \<in> set (f m)" using sp(3) by blast
    then show ?thesis
    proof cases
      case 2
      then show ?thesis by (intro disjI2 exI [of _ "[]"] exI [of _ m] exI [of _ ms]) simp
    qed (simp add: st)
  next
    case False
    then obtain xs m' ys where x: "ms = xs @ m' # ys" "c \<in> set (f m')" "\<forall>x\<in>set xs. c_Name c \<notin> c_Name ` set (f x)"
      using ih c unfolding g by blast
    show ?thesis
    proof (cases "c_Name c \<in> c_Name ` set (f m)")
      case True
      then have "c_Name c \<in> c_Name ` set dst'" using sp(4) by blast
      then obtain d where d: "d \<in> set dst'" "c_Name d = c_Name c" by (metis imageE)
      have "set dst' \<subseteq> set (fst (gather f ms (dst', seen')))"
        using gather_keeps [of "(dst', seen')" f ms] by simp
      then have "d \<in> set (fst (gather f ms (dst', seen')))" using d(1) by blast
      moreover have "inj_on c_Name (set (fst (gather f ms (dst', seen'))))" using ih by (simp only: distinct_map)
      ultimately have "d = c" using d(2) c unfolding g by (simp only: inj_on_eq_iff)
      then show ?thesis using False d by simp
    next
      case False
      then show ?thesis using x by (intro disjI2 exI [of _ "m # xs"] exI [of _ m'] exI [of _ ys]) auto
    qed
  qed
  have names: "c_Name ` set (fst (gather f (m # ms) st)) = c_Name ` set (fst st) \<union> (\<Union>m\<in>set (m # ms). c_Name ` set (f m))"
    unfolding g using ih sp(4) by (simp add: st Un_assoc)
  have dist: "distinct (map c_Name (fst (gather f (m # ms) st)))" using ih unfolding g by blast
  show ?case by (intro conjI ballI dist names last)
qed (simp add: gather_def)

text \<open>An identity takes every container some contributing member declares, once, and a container several
  members declare from the newest of them: no member created later declares one of that name.\<close>

theorem union_takes_newest:
  "let (cs, ics) = unionContainers ms in
     distinct (map c_Name cs) \<and> c_Name ` set cs = (\<Union>m\<in>set ms. c_Name ` set (im_Containers m)) \<and>
     (\<forall>c\<in>set cs. \<exists>m\<in>set ms. c \<in> set (im_Containers m) \<and>
        (\<forall>m'\<in>set ms. obj_Created (im_Object m) < obj_Created (im_Object m') \<longrightarrow> c_Name c \<notin> c_Name ` set (im_Containers m'))) \<and>
     distinct (map c_Name ics) \<and> c_Name ` set ics = (\<Union>m\<in>set ms. c_Name ` set (im_InitContainers m)) \<and>
     (\<forall>c\<in>set ics. \<exists>m\<in>set ms. c \<in> set (im_InitContainers m) \<and>
        (\<forall>m'\<in>set ms. obj_Created (im_Object m) < obj_Created (im_Object m') \<longrightarrow> c_Name c \<notin> c_Name ` set (im_InitContainers m')))"
proof -
  let ?ns = "newest_first ms"
  have sorted: "sorted (map (\<lambda>m. - obj_Created (im_Object m)) ?ns)" "set ?ns = set ms"
    by (simp_all add: newest_first_def)
  have newest: "\<exists>m\<in>set ms. c \<in> set (f m) \<and> (\<forall>m'\<in>set ms. obj_Created (im_Object m) < obj_Created (im_Object m') \<longrightarrow> c_Name c \<notin> c_Name ` set (f m'))"
    if "?ns = xs @ m # ys" "c \<in> set (f m)" "\<forall>x\<in>set xs. c_Name c \<notin> c_Name ` set (f x)" for f c xs m ys
  proof (intro bexI [of _ m] conjI ballI impI)
    fix m'
    assume "m' \<in> set ms" "obj_Created (im_Object m) < obj_Created (im_Object m')"
    moreover have "\<forall>y\<in>set ys. obj_Created (im_Object y) \<le> obj_Created (im_Object m)"
      using sorted(1) unfolding that(1) by (simp add: sorted_append)
    moreover have "m' \<in> set (xs @ m # ys)" using calculation(1) sorted(2) that(1) by simp
    ultimately have "m' \<in> set xs" by force
    then show "c_Name c \<notin> c_Name ` set (f m')" using that(3) by blast
  qed (use that sorted(2) in auto)
  have one: "distinct (map c_Name (fst (gather f ?ns ([], [])))) \<and>
      c_Name ` set (fst (gather f ?ns ([], []))) = (\<Union>m\<in>set ms. c_Name ` set (f m)) \<and>
      (\<forall>c\<in>set (fst (gather f ?ns ([], []))). \<exists>m\<in>set ms. c \<in> set (f m) \<and>
        (\<forall>m'\<in>set ms. obj_Created (im_Object m) < obj_Created (im_Object m') \<longrightarrow> c_Name c \<notin> c_Name ` set (f m')))" for f
  proof (intro conjI ballI)
    note sp = gather_spec [of "([], [])" f ?ns, simplified, unfolded sorted(2)]
    show "distinct (map c_Name (fst (gather f ?ns ([], []))))" "c_Name ` set (fst (gather f ?ns ([], []))) = (\<Union>m\<in>set ms. c_Name ` set (f m))"
      using sp by blast+
    fix c
    assume "c \<in> set (fst (gather f ?ns ([], [])))"
    then obtain xs m ys where "?ns = xs @ m # ys" "c \<in> set (f m)" "\<forall>x\<in>set xs. c_Name c \<notin> c_Name ` set (f x)" using sp by blast
    then show "\<exists>m\<in>set ms. c \<in> set (f m) \<and>
        (\<forall>m'\<in>set ms. obj_Created (im_Object m) < obj_Created (im_Object m') \<longrightarrow> c_Name c \<notin> c_Name ` set (f m'))"
      by (rule newest)
  qed
  show ?thesis unfolding union_gather using one [of im_Containers] one [of im_InitContainers] by simp
qed

section \<open>What the builder keeps\<close>

definition keeps :: "('b \<Rightarrow> bool) \<Rightarrow> ('b \<Rightarrow> (go_error + 'a) \<times> 'b) \<Rightarrow> bool" where
  "keeps I m \<longleftrightarrow> (\<forall>b. I b \<longrightarrow> I (snd (m b)))"

lemma keeps_and_then: "keeps I m \<Longrightarrow> (\<And>a. keeps I (f a)) \<Longrightarrow> keeps I (and_then m f)"
  by (force simp: keeps_def and_then_def split: prod.splits sum.splits)

lemma keeps_each_item: "(\<And>x. keeps I (visit x)) \<Longrightarrow> keeps I (each_item visit xs)"
proof (induction xs)
  case (Cons x xs)
  have "each_item visit (x # xs) = and_then (visit x) (\<lambda>_. each_item visit xs)" by (simp add: fun_eq_iff)
  then show ?case using keeps_and_then [OF Cons.prems Cons.IH [OF Cons.prems]] by simp
qed (simp add: keeps_def)

lemma keeps_list_each: "(\<And>x. keeps I (visit x)) \<Longrightarrow> keeps I (list_each nm lister visit nss)"
proof (induction nss)
  case (Cons ns nss)
  show ?case
  proof (cases "lister ns")
    case (Inr items)
    then have "list_each nm lister visit (ns # nss) = and_then (each_item visit items) (\<lambda>_. list_each nm lister visit nss)"
      by (simp add: fun_eq_iff)
    then show ?thesis using keeps_and_then [OF keeps_each_item [OF Cons.prems] Cons.IH [OF Cons.prems]] by simp
  qed (simp add: keeps_def)
qed (simp add: keeps_def)

lemma decide_keeps_identities: "bl_byKey (snd (builder_decide G r opts ps s b)) = bl_byKey b"
  by (simp add: builder_decide_def builder_NamespaceAnnotations_def Let_def split: prod.split sum.split)

lemma keeps_decide: "(\<And>b b'. bl_byKey b' = bl_byKey b \<Longrightarrow> I b \<Longrightarrow> I b') \<Longrightarrow> keeps I (builder_decide G r opts ps s)"
  using decide_keeps_identities unfolding keeps_def by blast

text \<open>What holds of every identity while members are added, and once Recommendations are.\<close>

definition added :: "('q, 'ls) inv_builder \<Rightarrow> bool" where
  "added b \<longleftrightarrow> wf_map (bl_byKey b) \<and>
     (\<forall>k i. map_of (bl_byKey b) k = Some i \<longrightarrow> in_Key i = k \<and> in_Members i \<noteq> [] \<and> in_Policy i = [] \<and> \<not> in_Conflicted i)"

definition attached_at :: "workload_identity \<Rightarrow> ('q, 'ls) identity \<Rightarrow> bool" where
  "attached_at k i \<longleftrightarrow> in_Key i = k \<and> \<not> in_Conflicted i \<and>
     (if in_Members i = [] then in_Recommendation i \<noteq> None else in_Policy i = [])"

definition attached :: "('q, 'ls) inv_builder \<Rightarrow> bool" where
  "attached b \<longleftrightarrow> wf_map (bl_byKey b) \<and> (\<forall>k i. map_of (bl_byKey b) k = Some i \<longrightarrow> attached_at k i)"

lemma addMember_added: "added b \<Longrightarrow> added (addMember key m b)"
  by (cases "map_of (bl_byKey b) key")
    (simp_all add: added_def addMember_def builder_identity_def lookup_or_def new_identity_def Let_def)

lemma keeps_added_member: "keeps added (\<lambda>b. (Inr (), addMember key m b))"
  by (simp add: keeps_def addMember_added)

lemma keeps_added_decide: "keeps added (builder_decide G r opts ps s)"
  by (rule keeps_decide) (simp add: added_def)

lemma keeps_skip: "keeps I (\<lambda>b. (Inr (), b))"
  by (simp add: keeps_def)

lemma keeps_if: "keeps I m \<Longrightarrow> keeps I m' \<Longrightarrow> keeps I (\<lambda>b. if c then m b else m' b)"
  by (simp add: keeps_def)

lemma keeps_added_workload: "keeps added (visit_workload G r opts ps kind ob)"
proof (cases ob)
  case (InvWorkload w)
  show ?thesis
    unfolding visit_workload_def InvWorkload
    by (cases "PodTemplateOf w") (simp_all add: keeps_skip keeps_if keeps_and_then keeps_added_decide keeps_added_member)
qed (simp add: visit_workload_def keeps_def)

lemma keeps_added_pod: "keeps added (visit_pod G r opts ps ob)"
  unfolding visit_pod_def
  by (cases ob) (simp_all add: keeps_skip keeps_if keeps_and_then keeps_added_decide keeps_added_member)

lemma keeps_added_kinds: "keeps added (add_kinds G r opts ps ks)"
proof (induction ks)
  case (Cons k ks)
  have "keeps added (add_kind G r opts ps k)"
    using keeps_list_each [of added "visit_pod G r opts ps", OF keeps_added_pod]
      keeps_list_each [of added "visit_workload G r opts ps k", OF keeps_added_workload]
    by (auto simp: keeps_def add_kind_def split: prod.split sum.split) (metis snd_conv)+
  moreover have "add_kinds G r opts ps (k # ks) = and_then (add_kind G r opts ps k) (\<lambda>_. add_kinds G r opts ps ks)"
    by (simp add: fun_eq_iff)
  ultimately show ?case using keeps_and_then [OF _ Cons.IH] by simp
qed (simp add: keeps_def)

lemma attached_update:
  "attached b \<Longrightarrow> attached_at key i \<Longrightarrow> bl_byKey b' = AList.update key i (bl_byKey b) \<Longrightarrow> attached b'"
  by (simp add: attached_def)

lemma keeps_attached_recommendation:
  fixes r :: "('q, 'ls) inv_reader"
  shows "keeps attached (visit_recommendation G r opts ps wlr)"
  unfolding keeps_def
proof (intro allI impI)
  fix b :: "('q, 'ls) inv_builder"
  assume att: "attached b"
  let ?key = "identityOf (w_WorkloadRef wlr)"
  let ?i = "(builder_identity ?key b)\<lparr>in_Recommendation := Some wlr\<rparr>"
  let ?b = "b\<lparr>bl_byKey := AList.update ?key ?i (bl_byKey b)\<rparr>"
  have i: "attached_at ?key ?i"
    using att by (cases "map_of (bl_byKey b) ?key")
      (auto simp: attached_def attached_at_def builder_identity_def lookup_or_def new_identity_def split: if_splits)
  then have b: "attached ?b" by (rule attached_update [OF att]) simp
  show "attached (snd (visit_recommendation G r opts ps wlr b))"
  proof (cases "inScope opts (wr_Kind (w_WorkloadRef wlr)) \<and> identity_Departed ?i")
    case True
    obtain d b2 where d: "builder_decide G r opts ps (Departed_subject ?key (w_Policy wlr)) ?b = (d, b2)" by fastforce
    then have b2: "bl_byKey b2 = bl_byKey ?b" using decide_keeps_identities by (metis snd_conv)
    then have ok: "attached b2" using b by (simp add: attached_def)
    show ?thesis
    proof (cases d)
      case (Inr v)
      have "attached_at ?key (?i\<lparr>in_Policy := PolicyName v\<rparr>)" using i True by (simp add: attached_at_def identity_Departed_def)
      then have "attached (b2\<lparr>bl_byKey := AList.update ?key (?i\<lparr>in_Policy := PolicyName v\<rparr>) (bl_byKey b2)\<rparr>)"
        by (rule attached_update [OF ok]) simp
      then show ?thesis using True Inr by (simp add: visit_recommendation_def Let_def and_then_def d)
    qed (use True ok in \<open>simp add: visit_recommendation_def Let_def and_then_def d\<close>)
  qed (use att b in \<open>auto simp: visit_recommendation_def Let_def\<close>)
qed

section \<open>Snapshots\<close>

lemma Take_builder:
  assumes "Take G r opts policies now = Inr s"
  obtains b where "attached b" "s = builder_snapshot now b"
proof -
  let ?b0 = "\<lparr> bl_byKey = [], bl_nsAnn = [], bl_nsAnnListed = False \<rparr>"
  obtain ps where ps: "policies = Inr ps" using assms by (cases policies) (simp_all add: Take_def)
  obtain u b where b: "add_kinds G r opts ps SupportedKinds ?b0 = (u, b)" by fastforce
  obtain u' b' where b': "list_each (ir_IsNoMatch r) (ir_ListRecommendations r) (visit_recommendation G r opts ps) (list_scopes opts) b = (u', b')"
    by fastforce
  have "added ?b0" by (simp add: added_def)
  then have "added b" using keeps_added_kinds [of G r opts ps SupportedKinds] b unfolding keeps_def by (metis snd_conv)
  then have "attached b" by (auto simp: added_def attached_def attached_at_def)
  then have "attached b'"
    using keeps_list_each [of attached "visit_recommendation G r opts ps", OF keeps_attached_recommendation] b' unfolding keeps_def by (metis snd_conv)
  moreover have "s = builder_snapshot now b'" using assms by (simp add: Take_def ps b b' split: sum.splits)
  ultimately show thesis by (rule that)
qed

lemma settle_keeps:
  "in_Key (settle_identity i) = in_Key i" "in_Recommendation (settle_identity i) = in_Recommendation i"
  "set (in_Members (settle_identity i)) = set (in_Members i)"
  by (auto simp: settle_identity_def settle_policies_def Let_def split: prod.split option.split list.split)

lemma builder_snapshot_keys:
  assumes "attached b"
  shows "distinct (map in_Key (sn_Identities (builder_snapshot now b)))"
    and "i \<in> set (sn_Identities (builder_snapshot now b)) \<longleftrightarrow> (\<exists>i0. attached_at (in_Key i) i0 \<and> map_of (bl_byKey b) (in_Key i) = Some i0 \<and> i = settle_identity i0)"
proof -
  have "map in_Key (map (\<lambda>(_, i). settle_identity i) (bl_byKey b)) = map fst (bl_byKey b)"
    using assms by (auto simp: attached_def attached_at_def settle_keeps gomap_simps)
  then have "distinct (map in_Key (map (\<lambda>(_, i). settle_identity i) (bl_byKey b)))" using assms unfolding attached_def wf_map_def by metis
  moreover have "mset (map in_Key (sn_Identities (builder_snapshot now b))) = mset (map in_Key (map (\<lambda>(_, i). settle_identity i) (bl_byKey b)))"
    by (simp add: builder_snapshot_def multiset.map_comp)
  ultimately show "distinct (map in_Key (sn_Identities (builder_snapshot now b)))" by (metis mset_eq_imp_distinct_iff)
  have "i \<in> set (sn_Identities (builder_snapshot now b)) \<longleftrightarrow> (\<exists>k i0. (k, i0) \<in> set (bl_byKey b) \<and> i = settle_identity i0)"
    by (auto simp: builder_snapshot_def)
  also have "\<dots> \<longleftrightarrow> (\<exists>k i0. map_of (bl_byKey b) k = Some i0 \<and> i = settle_identity i0)"
    using assms by (simp add: attached_def wf_map_mem)
  also have "\<dots> \<longleftrightarrow> (\<exists>i0. attached_at (in_Key i) i0 \<and> map_of (bl_byKey b) (in_Key i) = Some i0 \<and> i = settle_identity i0)"
    using assms unfolding attached_def by (metis attached_at_def settle_keeps(1))
  finally show "i \<in> set (sn_Identities (builder_snapshot now b)) \<longleftrightarrow> (\<exists>i0. attached_at (in_Key i) i0 \<and> map_of (bl_byKey b) (in_Key i) = Some i0 \<and> i = settle_identity i0)" .
qed

lemma Lookup_iff:
  assumes "distinct (map in_Key (sn_Identities s))"
  shows "snapshot_Lookup s k = Some i \<longleftrightarrow> i \<in> set (sn_Identities s) \<and> in_Key i = k"
proof
  assume "snapshot_Lookup s k = Some i"
  then obtain n where n: "find (\<lambda>n. in_Key (sn_Identities s ! n) = k) (rev [0..<length (sn_Identities s)]) = Some n" "i = sn_Identities s ! n"
    by (auto simp: snapshot_Lookup_def snapshot_index_def map_of_map_by)
  with find_Some_set [OF n(1)] show "i \<in> set (sn_Identities s) \<and> in_Key i = k" by simp
next
  assume i: "i \<in> set (sn_Identities s) \<and> in_Key i = k"
  then obtain n where n: "n < length (sn_Identities s)" "sn_Identities s ! n = i" by (auto simp: in_set_conv_nth)
  then have "find (\<lambda>n. in_Key (sn_Identities s ! n) = k) (rev [0..<length (sn_Identities s)]) \<noteq> None"
    using i by (auto simp: find_None_all)
  then obtain n' where n': "find (\<lambda>n. in_Key (sn_Identities s ! n) = k) (rev [0..<length (sn_Identities s)]) = Some n'" by blast
  with find_Some_set [OF n'] have "n' < length (sn_Identities s)" "in_Key (sn_Identities s ! n') = k" by simp_all
  then have "sn_Identities s ! n' = i" using assms i n by (metis distinct_map inj_onD nth_mem)
  then show "snapshot_Lookup s k = Some i" using n' by (simp add: snapshot_Lookup_def snapshot_index_def map_of_map_by)
qed

text \<open>C22. A snapshot has each identity once, in the order of namespace, kind and name; \<open>Lookup\<close> finds exactly
  the identities it has, and one with no live member has the Recommendation left behind for it.\<close>

theorem snapshot_identities:
  assumes "Take G r opts policies now = Inr s"
  shows "sorted (map (\<lambda>i. identity_order (in_Key i)) (sn_Identities s)) \<and> distinct (map in_Key (sn_Identities s)) \<and>
    (\<forall>k i. snapshot_Lookup s k = Some i \<longleftrightarrow> i \<in> set (sn_Identities s) \<and> in_Key i = k) \<and>
    (\<forall>i\<in>set (sn_Identities s). identity_Departed i \<longrightarrow> in_Recommendation i \<noteq> None \<and> \<not> in_Conflicted i)"
proof -
  obtain b where b: "attached b" "s = builder_snapshot now b" using Take_builder [OF assms] .
  note keys = builder_snapshot_keys [OF b(1), where now = now, folded b(2)]
  have "in_Recommendation i \<noteq> None \<and> \<not> in_Conflicted i" if i: "i \<in> set (sn_Identities s)" "identity_Departed i" for i
  proof -
    obtain i0 where i0: "attached_at (in_Key i) i0" "i = settle_identity i0" using i(1) keys(2) by blast
    have "in_Members i0 = []" using i(2) settle_keeps(3) [of i0] i0(2) by (simp add: identity_Departed_def)
    then have "in_Conflicted i = in_Conflicted i0"
      by (simp add: i0(2) settle_identity_def identity_Departed_def Let_def split: option.split prod.split)
    then show ?thesis using i0 \<open>in_Members i0 = []\<close> settle_keeps(2) [of i0] by (simp add: attached_at_def)
  qed
  moreover have "sorted (map (\<lambda>i. identity_order (in_Key i)) (sn_Identities s))" by (simp add: b(2) builder_snapshot_def)
  ultimately show ?thesis using keys(1) Lookup_iff [OF keys(1)] by blast
qed

text \<open>C23. In a snapshot a live identity is governed by a Policy exactly when that Policy governs some member and
  no other Policy governs any, and is Conflicted exactly when two Policies govern members of it; so no Policy
  governs a Conflicted identity, and members no Policy governs do not count.\<close>

theorem one_policy_or_conflicted:
  assumes "Take G r opts policies now = Inr s" "i \<in> set (sn_Identities s)" "\<not> identity_Departed i" "p \<noteq> []"
  shows "(in_Policy i = p \<longleftrightarrow> (\<exists>m\<in>set (in_Members i). im_Policy m = p) \<and> (\<forall>m\<in>set (in_Members i). im_Policy m = p \<or> im_Policy m = [])) \<and>
    (in_Conflicted i \<longleftrightarrow> (\<exists>m\<in>set (in_Members i). \<exists>m'\<in>set (in_Members i). im_Policy m \<noteq> [] \<and> im_Policy m' \<noteq> [] \<and> im_Policy m \<noteq> im_Policy m')) \<and>
    \<not> (in_Conflicted i \<and> in_Policy i \<noteq> [])"
proof -
  obtain b where b: "attached b" "s = builder_snapshot now b" using Take_builder [OF assms(1)] .
  obtain i0 where i0: "attached_at (in_Key i) i0" "i = settle_identity i0"
    using assms(2) builder_snapshot_keys(2) [OF b(1)] b(2) by blast
  have "in_Members i0 \<noteq> []" using assms(3) settle_keeps(3) [of i0] i0(2) by (auto simp: identity_Departed_def)
  moreover from this have "in_Policy i0 = []" "\<not> in_Conflicted i0" using i0(1) by (simp_all add: attached_at_def)
  ultimately show ?thesis using assms(4) i0(2) by (intro settled_policy)
qed

section \<open>Witnesses\<close>

text \<open>A cluster with one Deployment that opts into a Policy through its namespace, and a second sharing its
  identity that no Policy governs.\<close>

definition ex_deployment :: "string \<Rightarrow> str_map \<Rightarrow> (fixed, unit) inv_object" where
  "ex_deployment name ann = InvWorkload
     \<lparr> wk_Object = \<lparr> wo_Type = ''Deployment'', wo_Namespace = ''shop'', wo_Name = name, wo_UID = name, wo_Selector = None \<rparr>,
       wk_Created = 5, wk_Annotations = ann, wk_OwnerReferences = [], wk_Conditions = [],
       wk_Template = \<lparr> tm_Labels = [], tm_Annotations = [(OwnerNameAnnotation, ''api'')], tm_Containers = [], tm_InitContainers = [] \<rparr> \<rparr>"

definition ex_inv_reader :: "(fixed, unit) inv_reader" where
  "ex_inv_reader =
     \<lparr> ir_List = (\<lambda>kind ns. Inr (if kind = ''Deployment'' then [ex_deployment ''api'' [], ex_deployment ''api-v2'' [(OptOutAnnotation, ''true'')]] else [])),
       ir_ListRecommendations = (\<lambda>ns. Inr []), ir_ListNamespaces = Inr [(''shop'', [(PolicyAnnotation, ''web'')])],
       ir_GetNamespace = (\<lambda>ns. Inr []), ir_IsNoMatch = (\<lambda>_. False), ir_IsNotFound = (\<lambda>_. False) \<rparr>"

lemma ex_take:
  "case Take ex_gov ex_inv_reader \<lparr> io_Namespaces = [], io_Kinds = [] \<rparr> (Inr ex_policies) 0 of
     Inl _ \<Rightarrow> False
   | Inr s \<Rightarrow> map (\<lambda>i. (in_Policy i, map im_Policy (in_Members i))) (sn_Identities s) = [(''web'', [''web'', []])]"
  by code_simp

lemma ex_snapshot:
  obtains s i where "Take ex_gov ex_inv_reader \<lparr> io_Namespaces = [], io_Kinds = [] \<rparr> (Inr ex_policies) 0 = Inr s"
    "sn_Identities s = [i]" "in_Policy i = ''web''" "map im_Policy (in_Members i) = [''web'', []]"
proof (cases "Take ex_gov ex_inv_reader \<lparr> io_Namespaces = [], io_Kinds = [] \<rparr> (Inr ex_policies) 0")
  case (Inr s)
  then have "map (\<lambda>i. (in_Policy i, map im_Policy (in_Members i))) (sn_Identities s) = [(''web'', [''web'', []])]" using ex_take by simp
  then obtain i where "sn_Identities s = [i]" "in_Policy i = ''web''" "map im_Policy (in_Members i) = [''web'', []]" by auto
  then show thesis by (rule that [OF Inr])
qed (use ex_take in simp)

theorem snapshot_identities_witness:
  "\<exists>s i. Take ex_gov ex_inv_reader \<lparr> io_Namespaces = [], io_Kinds = [] \<rparr> (Inr ex_policies) 0 = Inr s \<and>
     sn_Identities s = [i] \<and> snapshot_Lookup s (in_Key i) = Some i"
proof -
  obtain s i where s: "Take ex_gov ex_inv_reader \<lparr> io_Namespaces = [], io_Kinds = [] \<rparr> (Inr ex_policies) 0 = Inr s"
    "sn_Identities s = [i]" by (rule ex_snapshot)
  then show ?thesis using snapshot_identities [OF s(1)] by auto
qed

theorem one_policy_or_conflicted_witness:
  "\<exists>s i. Take ex_gov ex_inv_reader \<lparr> io_Namespaces = [], io_Kinds = [] \<rparr> (Inr ex_policies) 0 = Inr s \<and>
     sn_Identities s = [i] \<and> in_Policy i = ''web'' \<and> \<not> in_Conflicted i \<and> (\<exists>m\<in>set (in_Members i). im_Policy m = ''web'')"
proof -
  obtain s i where s: "Take ex_gov ex_inv_reader \<lparr> io_Namespaces = [], io_Kinds = [] \<rparr> (Inr ex_policies) 0 = Inr s"
    "sn_Identities s = [i]" "in_Policy i = ''web''" "map im_Policy (in_Members i) = [''web'', []]" by (rule ex_snapshot)
  have "i \<in> set (sn_Identities s)" "\<not> identity_Departed i" using s(2,4) by (auto simp: identity_Departed_def)
  then have "in_Policy i = ''web'' \<longrightarrow> (\<exists>m\<in>set (in_Members i). im_Policy m = ''web'') \<and> \<not> in_Conflicted i"
    using one_policy_or_conflicted [OF s(1), of i "''web''"] by auto
  then show ?thesis using s by blast
qed

definition ex_container :: "string \<Rightarrow> string \<Rightarrow> fixed container" where
  "ex_container name policy = \<lparr> c_Name = name, c_Resources = \<lparr> Requests = [], Limits = [] \<rparr>, c_RestartPolicy = Some policy \<rparr>"

definition ex_member :: "time \<Rightarrow> fixed container list \<Rightarrow> (fixed, unit) inv_member" where
  "ex_member created cs =
     \<lparr> im_Object = (case ex_deployment ''api'' [] of InvWorkload w \<Rightarrow> InvWorkload (w\<lparr>wk_Created := created\<rparr>) | ob \<Rightarrow> ob),
       im_Policy = ''web'', im_Containers = cs, im_InitContainers = [] \<rparr>"

text \<open>Of two members that declare \<open>app\<close>, the newer one's declaration is taken; the older's own sidecar stays.\<close>

theorem union_takes_newest_witness:
  "let ms = [ex_member 1 [ex_container ''app'' ''Never'', ex_container ''proxy'' ''Always''], ex_member 2 [ex_container ''app'' ''Always'']]
   in fst (unionContainers ms) = [ex_container ''app'' ''Always'', ex_container ''proxy'' ''Always''] \<and> distinct (map c_Name (fst (unionContainers ms)))"
proof -
  let ?ms = "[ex_member 1 [ex_container ''app'' ''Never'', ex_container ''proxy'' ''Always''], ex_member 2 [ex_container ''app'' ''Always'']]"
  have "fst (unionContainers ?ms) = [ex_container ''app'' ''Always'', ex_container ''proxy'' ''Always'']" by code_simp
  moreover have "distinct (map c_Name (fst (unionContainers ?ms)))"
    using union_takes_newest [of ?ms] by (auto simp: Let_def split: prod.splits)
  ultimately show ?thesis by simp
qed

end
