(* ===== verification/Autoscaler.thy ===== *)
theory Autoscaler
  imports Patcher
begin

text \<open>
  Which autoscaler targets a workload (\<open>internal/autoscaler/autoscaler.go\<close>): HorizontalPodAutoscalers and KEDA
  ScaledObjects of a namespace, indexed by the workload they scale, and what targets the members of an
  identity together.

  The two List calls are the record \<open>autoscaler_reader\<close>. A ScaledObject is read untyped: \<open>json\<close> is what an
  \<open>any\<close> can hold, a key a map does not have reads as \<open>JNull\<close>, and \<open>JInt\<close> stands for both \<open>int64\<close> and
  \<open>int\<close>. What a conversion of a \<open>float64\<close> outside the \<open>int64\<close> range gives is the argument \<open>conv\<close>.
\<close>

section \<open>Objects\<close>

datatype json = JNull | JBool bool | JStr string | JInt int | JFloat float64 | JList "json list" | JMap "(string \<times> json) list"

record hpa_metric =
  hm_Type :: string
  hm_Resource :: "(string \<times> int option) option"

record hpa =
  hpa_Namespace :: string
  hpa_Name :: string
  hpa_TargetKind :: string
  hpa_TargetName :: string
  hpa_MinReplicas :: "int option"
  hpa_MaxReplicas :: int
  hpa_Metrics :: "hpa_metric list"
  hpa_CurrentReplicas :: int

record scaled_object =
  so_Namespace :: string
  so_Name :: string
  so_Object :: "(string \<times> json) list"

record 'st autoscaler_reader =
  ar_ListHPAs :: "string \<Rightarrow> 'st \<Rightarrow> (go_error + hpa list) \<times> 'st"
  ar_ListScaledObjects :: "string \<Rightarrow> 'st \<Rightarrow> (go_error + scaled_object list) \<times> 'st"
  ar_NotServed :: "go_error \<Rightarrow> bool"

section \<open>Untyped values\<close>

definition json_at :: "(string \<times> json) list \<Rightarrow> string \<Rightarrow> json" where
  "json_at m k = lookup_or JNull m k"

fun json_str :: "json \<Rightarrow> string" where
  "json_str (JStr s) = s"
| "json_str _ = []"

text \<open>\<open>v.(map[string]any)\<close>: a nil map, read as an empty one, when the value is no map.\<close>

fun json_map :: "json \<Rightarrow> (string \<times> json) list option" where
  "json_map (JMap m) = Some m"
| "json_map _ = None"

definition clampInt32 :: "int \<Rightarrow> int" where
  "clampInt32 v = (if v > 2 ^ 31 - 1 then 2 ^ 31 - 1 else if v < - (2 ^ 31) then - (2 ^ 31) else v)"

fun int32Or :: "(float64 \<Rightarrow> int) \<Rightarrow> json \<Rightarrow> int \<Rightarrow> int" where
  "int32Or conv (JInt t) fallback = clampInt32 t"
| "int32Or conv (JFloat t) fallback = clampInt32 (to_i64 conv t)"
| "int32Or conv _ fallback = fallback"

text \<open>\<open>strconv.ParseInt\<close> to base ten and 32 bits.\<close>

definition ParseInt32 :: "string \<Rightarrow> int option" where
  "ParseInt32 s = (case Atoi s of Some v \<Rightarrow> if in_int32 v then Some v else None | None \<Rightarrow> None)"

section \<open>What an autoscaler targets\<close>

definition no_autoscaler :: autoscaler_info where
  "no_autoscaler =
     \<lparr> ai_Kind = KindNone, ai_Namespace = [], ai_Name = [], MinReplicas = 0, MaxReplicas = 0, CurrentReplicas = 0,
       ConfiguredTargets = [], HasUnknownTrigger = False \<rparr>"

definition metric_step :: "hpa_metric \<Rightarrow> (string, int) gomap \<times> bool \<Rightarrow> (string, int) gomap \<times> bool" where
  "metric_step m acc =
     (case acc of (out, unknown) \<Rightarrow>
        if hm_Type m \<noteq> ''Resource'' then (out, True)
        else case hm_Resource m of
          None \<Rightarrow> (out, True)
        | Some (name, util) \<Rightarrow>
            (case util of
               None \<Rightarrow> (out, True)
             | Some v \<Rightarrow> if name = ''cpu'' then (AList.update ''cpu'' v out, unknown)
                         else if name = ''memory'' then (AList.update ''memory'' v out, unknown)
                         else (out, True)))"

definition extractHPATargets :: "hpa_metric list \<Rightarrow> (string, int) gomap \<times> bool" where
  "extractHPATargets metrics = fold metric_step metrics ([], False)"

definition hpaInfo :: "hpa \<Rightarrow> autoscaler_info" where
  "hpaInfo h =
     (let (targets, unknown) = extractHPATargets (hpa_Metrics h)
      in \<lparr> ai_Kind = KindHPA, ai_Namespace = hpa_Namespace h, ai_Name = hpa_Name h,
           MinReplicas = (case hpa_MinReplicas h of Some n \<Rightarrow> n | None \<Rightarrow> 1), MaxReplicas = hpa_MaxReplicas h,
           CurrentReplicas = hpa_CurrentReplicas h, ConfiguredTargets = targets, HasUnknownTrigger = unknown \<rparr>)"

definition trigger_step :: "json \<Rightarrow> (string, int) gomap \<times> bool \<Rightarrow> (string, int) gomap \<times> bool" where
  "trigger_step t acc =
     (case acc of (out, unknown) \<Rightarrow>
        (case json_map t of
           None \<Rightarrow> (out, True)
         | Some m \<Rightarrow>
             let typ = json_str (json_at m ''type'');
                 md = (case json_map (json_at m ''metadata'') of Some d \<Rightarrow> d | None \<Rightarrow> []);
                 val = json_str (json_at md ''value'')
             in if typ = ''cpu'' \<or> typ = ''memory''
                then (case ParseInt32 val of Some v \<Rightarrow> (AList.update typ v out, unknown) | None \<Rightarrow> (out, True))
                else (out, True)))"

definition extractScaledObjectTriggers :: "json \<Rightarrow> (string, int) gomap \<times> bool" where
  "extractScaledObjectTriggers raw =
     (case raw of JList triggers \<Rightarrow> fold trigger_step triggers ([], False) | _ \<Rightarrow> ([], False))"

definition scaledObjectInfo :: "(float64 \<Rightarrow> int) \<Rightarrow> scaled_object \<Rightarrow> (string \<times> json) list \<Rightarrow> autoscaler_info" where
  "scaledObjectInfo conv so spec =
     (let status = (case json_map (json_at (so_Object so) ''status'') of Some m \<Rightarrow> m | None \<Rightarrow> []);
          (targets, unknown) = extractScaledObjectTriggers (json_at spec ''triggers'')
      in \<lparr> ai_Kind = KindKEDA, ai_Namespace = so_Namespace so, ai_Name = so_Name so,
           MinReplicas = int32Or conv (json_at spec ''minReplicaCount'') 1,
           MaxReplicas = int32Or conv (json_at spec ''maxReplicaCount'') 0,
           CurrentReplicas = int32Or conv (json_at status ''currentReplicas'') 0,
           ConfiguredTargets = targets, HasUnknownTrigger = unknown \<rparr>)"

section \<open>Snapshots of a namespace\<close>

text \<open>A \<open>targetKey\<close>: the kind and name of the workload scaled.\<close>

type_synonym target_key = "string \<times> string"

record as_snapshot =
  sn_hpa :: "(target_key, autoscaler_info) gomap"
  sn_keda :: "(target_key, autoscaler_info) gomap"

definition index_hpa :: "hpa \<Rightarrow> (target_key, autoscaler_info) gomap \<Rightarrow> (target_key, autoscaler_info) gomap" where
  "index_hpa h out =
     (let key = (hpa_TargetKind h, hpa_TargetName h)
      in if map_of out key \<noteq> None then out else AList.update key (hpaInfo h) out)"

definition indexHPAs ::
  "'st autoscaler_reader \<Rightarrow> string \<Rightarrow> 'st \<Rightarrow> (go_error + (target_key, autoscaler_info) gomap) \<times> 'st" where
  "indexHPAs c namespace st =
     (case ar_ListHPAs c namespace st of
        (Inl err, st') \<Rightarrow> (Inl (Wrap err), st')
      | (Inr items, st') \<Rightarrow> (Inr (fold index_hpa items []), st'))"

text \<open>The spec and the target of a ScaledObject that has both.\<close>

definition so_target :: "scaled_object \<Rightarrow> ((string \<times> json) list \<times> target_key) option" where
  "so_target so =
     (case json_map (json_at (so_Object so) ''spec'') of
        None \<Rightarrow> None
      | Some spec \<Rightarrow>
          (case json_map (json_at spec ''scaleTargetRef'') of
             None \<Rightarrow> None
           | Some ref \<Rightarrow> Some (spec, (json_str (json_at ref ''kind''), json_str (json_at ref ''name'')))))"

definition index_so ::
  "(float64 \<Rightarrow> int) \<Rightarrow> scaled_object \<Rightarrow> (target_key, autoscaler_info) gomap \<Rightarrow> (target_key, autoscaler_info) gomap" where
  "index_so conv so out =
     (case so_target so of
        None \<Rightarrow> out
      | Some (spec, key) \<Rightarrow> if map_of out key \<noteq> None then out else AList.update key (scaledObjectInfo conv so spec) out)"

definition indexScaledObjects ::
  "(float64 \<Rightarrow> int) \<Rightarrow> 'st autoscaler_reader \<Rightarrow> string \<Rightarrow> 'st \<Rightarrow> (go_error + (target_key, autoscaler_info) gomap) \<times> 'st" where
  "indexScaledObjects conv c namespace st =
     (case ar_ListScaledObjects c namespace st of
        (Inl err, st') \<Rightarrow> if ar_NotServed c err then (Inr [], st') else (Inl (Wrap err), st')
      | (Inr items, st') \<Rightarrow> (Inr (fold (index_so conv) items []), st'))"

definition buildSnapshot ::
  "(float64 \<Rightarrow> int) \<Rightarrow> 'st autoscaler_reader \<Rightarrow> string \<Rightarrow> 'st \<Rightarrow> (go_error + as_snapshot) \<times> 'st" where
  "buildSnapshot conv c namespace =
     and_then (indexHPAs c namespace)
       (\<lambda>h. and_then (indexScaledObjects conv c namespace) (\<lambda>k. yields \<lparr> sn_hpa = h, sn_keda = k \<rparr>))"

definition as_lookup :: "as_snapshot \<Rightarrow> string \<Rightarrow> string \<Rightarrow> autoscaler_info" where
  "as_lookup s kind name =
     (case map_of (sn_keda s) (kind, name) of
        Some info \<Rightarrow> info
      | None \<Rightarrow> (case map_of (sn_hpa s) (kind, name) of Some info \<Rightarrow> info | None \<Rightarrow> no_autoscaler))"

section \<open>Identities\<close>

record autoscaler_group =
  gr_Info :: autoscaler_info
  gr_Members :: "(string, autoscaler_info) gomap"
  gr_Disagreeing :: "string list"

definition no_group :: autoscaler_group where
  "no_group = \<lparr> gr_Info = no_autoscaler, gr_Members = [], gr_Disagreeing = [] \<rparr>"

fun kind_String :: "autoscaler_kind \<Rightarrow> string" where
  "kind_String KindNone = ''None''"
| "kind_String KindHPA = ''HPA''"
| "kind_String KindKEDA = ''KEDA''"

definition group_step :: "as_snapshot \<Rightarrow> string \<Rightarrow> string \<Rightarrow> string \<Rightarrow> autoscaler_group \<Rightarrow> autoscaler_group" where
  "group_step s kind first name g =
     (let info = as_lookup s kind name;
          g1 = g\<lparr>gr_Members := AList.update name info (gr_Members g)\<rparr>;
          g2 = (if ai_Kind (gr_Info g1) = KindNone then g1\<lparr>gr_Info := info\<rparr> else g1)
      in if ai_Kind info \<noteq> ai_Kind (lookup_or no_autoscaler (gr_Members g2) first)
         then g2\<lparr>gr_Disagreeing := gr_Disagreeing g2 @ [name @ ''='' @ kind_String (ai_Kind info)]\<rparr> else g2)"

text \<open>The snapshots built so far, by namespace; a read holds its namespace's lock throughout.\<close>

type_synonym namespaced_snapshot = "(string, as_snapshot) gomap"

definition as_namespace ::
  "(float64 \<Rightarrow> int) \<Rightarrow> 'st autoscaler_reader \<Rightarrow> string \<Rightarrow> namespaced_snapshot \<times> 'st \<Rightarrow> (go_error + as_snapshot) \<times> namespaced_snapshot \<times> 'st" where
  "as_namespace conv c namespace w =
     (case w of (built, st) \<Rightarrow>
        (case map_of built namespace of
           Some s \<Rightarrow> (Inr s, built, st)
         | None \<Rightarrow>
             (case buildSnapshot conv c namespace st of
                (Inl err, st') \<Rightarrow> (Inl err, built, st')
              | (Inr s, st') \<Rightarrow> (Inr s, AList.update namespace s built, st'))))"

text \<open>The group a read gives and, when it failed, the error.\<close>

definition ForIdentity ::
  "(float64 \<Rightarrow> int) \<Rightarrow> 'st autoscaler_reader \<Rightarrow> string \<Rightarrow> string \<Rightarrow> string list \<Rightarrow> namespaced_snapshot \<times> 'st \<Rightarrow>
   (autoscaler_group \<times> go_error option) \<times> namespaced_snapshot \<times> 'st" where
  "ForIdentity conv c namespace kind members w =
     (if members = [] then ((no_group, None), w)
      else case as_namespace conv c namespace w of
        (Inl err, w') \<Rightarrow> ((no_group, Some err), w')
      | (Inr s, w') \<Rightarrow>
          (let names = sort members in ((fold (group_step s kind (hd names)) names no_group, None), w')))"

section \<open>What targets a member\<close>

text \<open>The autoscaler of a workload among those listed: the first ScaledObject that targets it, or else the
  first HorizontalPodAutoscaler that does.\<close>

definition targets_of ::
  "(float64 \<Rightarrow> int) \<Rightarrow> hpa list \<Rightarrow> scaled_object list \<Rightarrow> string \<Rightarrow> string \<Rightarrow> autoscaler_info" where
  "targets_of conv hpas sos kind name =
     (case find (\<lambda>so. map_option snd (so_target so) = Some (kind, name)) sos of
        Some so \<Rightarrow> scaledObjectInfo conv so (fst (the (so_target so)))
      | None \<Rightarrow> (case find (\<lambda>h. (hpa_TargetKind h, hpa_TargetName h) = (kind, name)) hpas of
                   Some h \<Rightarrow> hpaInfo h | None \<Rightarrow> no_autoscaler))"

lemma map_of_index_hpas:
  "map_of (fold index_hpa hpas []) (kind, name) = map_option hpaInfo (find (\<lambda>h. (hpa_TargetKind h, hpa_TargetName h) = (kind, name)) hpas)"
  using fold_first_wins [of index_hpa "\<lambda>h. Some ((hpa_TargetKind h, hpa_TargetName h), hpaInfo h)" hpas "[]" "(kind, name)"]
  by (simp add: index_hpa_def Let_def)

lemma map_of_index_sos:
  "map_of (fold (index_so conv) sos []) (kind, name) =
     map_option (\<lambda>so. scaledObjectInfo conv so (fst (the (so_target so)))) (find (\<lambda>so. map_option snd (so_target so) = Some (kind, name)) sos)"
proof -
  let ?f = "\<lambda>so. map_option (\<lambda>(spec, key). (key, scaledObjectInfo conv so spec)) (so_target so)"
  have "map_of (fold (index_so conv) sos []) (kind, name) =
      map_option (\<lambda>so. snd (the (?f so))) (find (\<lambda>so. map_option fst (?f so) = Some (kind, name)) sos)"
    using fold_first_wins [of "index_so conv" ?f sos "[]" "(kind, name)"] by (simp add: index_so_def split: option.split prod.split)
  also have "(\<lambda>so. map_option fst (?f so) = Some (kind, name)) = (\<lambda>so. map_option snd (so_target so) = Some (kind, name))"
    by (auto simp: fun_eq_iff split: prod.splits)
  also have "map_option (\<lambda>so. snd (the (?f so))) (find (\<lambda>so. map_option snd (so_target so) = Some (kind, name)) sos) =
      map_option (\<lambda>so. scaledObjectInfo conv so (fst (the (so_target so)))) (find (\<lambda>so. map_option snd (so_target so) = Some (kind, name)) sos)"
    by (cases "find (\<lambda>so. map_option snd (so_target so) = Some (kind, name)) sos") (auto dest!: find_Some_set)
  finally show ?thesis .
qed

lemma build_lookup:
  assumes "ar_ListHPAs c ns st = (Inr hpas, st1)" "ar_ListScaledObjects c ns st1 = (Inr sos, st2)"
  obtains s where "buildSnapshot conv c ns st = (Inr s, st2)" "as_lookup s = targets_of conv hpas sos"
proof
  let ?s = "\<lparr> sn_hpa = fold index_hpa hpas [], sn_keda = fold (index_so conv) sos [] \<rparr>"
  show "buildSnapshot conv c ns st = (Inr ?s, st2)"
    using assms by (simp add: buildSnapshot_def indexHPAs_def indexScaledObjects_def and_then_def yields_def)
  show "as_lookup ?s = targets_of conv hpas sos"
    by (simp add: fun_eq_iff as_lookup_def targets_of_def map_of_index_hpas map_of_index_sos split: option.split)
qed

section \<open>What targets an identity\<close>

definition shaping :: "(string \<Rightarrow> autoscaler_info) \<Rightarrow> string list \<Rightarrow> autoscaler_info" where
  "shaping lk names = (case find (\<lambda>n. ai_Kind (lk n) \<noteq> KindNone) names of Some n \<Rightarrow> lk n | None \<Rightarrow> no_autoscaler)"

lemma group_fold:
  assumes "\<And>n. ai_Kind (as_lookup s kind n) = KindNone \<Longrightarrow> as_lookup s kind n = no_autoscaler"
    and "map_of (gr_Members g) first = Some (as_lookup s kind first)"
    and "ai_Kind (gr_Info g) = KindNone \<Longrightarrow> gr_Info g = no_autoscaler"
  shows "gr_Info (fold (group_step s kind first) names g) =
      (if ai_Kind (gr_Info g) \<noteq> KindNone then gr_Info g else shaping (as_lookup s kind) names) \<and>
    map_of (gr_Members (fold (group_step s kind first) names g)) n =
      (if n \<in> set names then Some (as_lookup s kind n) else map_of (gr_Members g) n) \<and>
    gr_Disagreeing (fold (group_step s kind first) names g) = gr_Disagreeing g @
      map (\<lambda>n. n @ ''='' @ kind_String (ai_Kind (as_lookup s kind n)))
        (filter (\<lambda>n. ai_Kind (as_lookup s kind n) \<noteq> ai_Kind (as_lookup s kind first)) names)"
  using assms(2,3)
proof (induction names arbitrary: g)
  case (Cons x names)
  let ?g = "group_step s kind first x g"
  have mem: "gr_Members ?g = AList.update x (as_lookup s kind x) (gr_Members g)" by (simp add: group_step_def Let_def)
  have info: "gr_Info ?g = (if ai_Kind (gr_Info g) = KindNone then as_lookup s kind x else gr_Info g)" by (simp add: group_step_def Let_def)
  have dis: "gr_Disagreeing ?g = gr_Disagreeing g @
      (if ai_Kind (as_lookup s kind x) \<noteq> ai_Kind (as_lookup s kind first) then [x @ ''='' @ kind_String (ai_Kind (as_lookup s kind x))] else [])"
    using Cons.prems(1) by (simp add: group_step_def Let_def lookup_or_def)
  have "map_of (gr_Members ?g) first = Some (as_lookup s kind first)" "ai_Kind (gr_Info ?g) = KindNone \<Longrightarrow> gr_Info ?g = no_autoscaler"
    using Cons.prems(1) assms(1) unfolding mem info by (simp_all split: if_splits)
  note ih = Cons.IH [OF this]
  have "shaping (as_lookup s kind) (x # names) =
      (if ai_Kind (as_lookup s kind x) \<noteq> KindNone then as_lookup s kind x else shaping (as_lookup s kind) names)"
    by (simp add: shaping_def)
  then show ?case using ih mem info dis by (auto split: if_splits)
qed (auto simp: shaping_def)

lemma targets_of_none: "ai_Kind (targets_of conv hpas sos kind n) = KindNone \<Longrightarrow> targets_of conv hpas sos kind n = no_autoscaler"
  by (auto simp: targets_of_def scaledObjectInfo_def hpaInfo_def Let_def split: option.splits prod.splits)

lemma sorted_hd: "members \<noteq> [] \<Longrightarrow> sort members = hd (sort members) # tl (sort members)"
  using length_sort [of "\<lambda>x. x" members] by (cases "sort members") (auto simp del: length_sort)

lemma group_of_members:
  assumes "members \<noteq> []" "\<And>n. ai_Kind (as_lookup s kind n) = KindNone \<Longrightarrow> as_lookup s kind n = no_autoscaler"
    and "g = fold (group_step s kind (hd (sort members))) (sort members) no_group"
  shows "gr_Info g = shaping (as_lookup s kind) (sort members)"
    and "map_of (gr_Members g) n = (if n \<in> set members then Some (as_lookup s kind n) else None)"
    and "gr_Disagreeing g = map (\<lambda>n. n @ ''='' @ kind_String (ai_Kind (as_lookup s kind n)))
        (filter (\<lambda>n. ai_Kind (as_lookup s kind n) \<noteq> ai_Kind (as_lookup s kind (hd (sort members)))) (sort members))"
proof -
  obtain x xs where xs: "sort members = x # xs" using sorted_hd [OF assms(1)] by blast
  let ?g = "group_step s kind x x no_group"
  have g0: "gr_Info ?g = as_lookup s kind x" "gr_Members ?g = [(x, as_lookup s kind x)]" "gr_Disagreeing ?g = []"
    by (simp_all add: group_step_def no_group_def no_autoscaler_def lookup_or_def Let_def)
  have g: "g = fold (group_step s kind x) xs ?g" using assms(3) by (simp add: xs)
  have "map_of (gr_Members ?g) x = Some (as_lookup s kind x)" "ai_Kind (gr_Info ?g) = KindNone \<Longrightarrow> gr_Info ?g = no_autoscaler"
    using assms(2) by (simp_all add: g0)
  note f = group_fold [OF assms(2) this, of xs n, folded g]
  have "set members = insert x (set xs)" using xs by (metis list.simps(15) set_sort)
  then show "map_of (gr_Members g) n = (if n \<in> set members then Some (as_lookup s kind n) else None)"
    using f by (auto simp: g0)
  show "gr_Info g = shaping (as_lookup s kind) (sort members)" using f by (simp add: g0 xs shaping_def)
  show "gr_Disagreeing g = map (\<lambda>n. n @ ''='' @ kind_String (ai_Kind (as_lookup s kind n)))
      (filter (\<lambda>n. ai_Kind (as_lookup s kind n) \<noteq> ai_Kind (as_lookup s kind (hd (sort members)))) (sort members))"
    using f by (simp add: g0 xs)
qed

text \<open>Once a namespace's autoscalers could be listed, an identity's Recommendation is shaped against the autoscaler
  of its first member, by name, that has one; a member's own is the first ScaledObject listed that targets
  it or, without one, the first HorizontalPodAutoscaler; members are reported as disagreeing exactly when
  they have different kinds of autoscaler; and the namespace is never listed again.\<close>

theorem shaped_by_first_autoscaled:
  assumes "members \<noteq> []" "map_of built ns = None"
    and "ar_ListHPAs c ns st = (Inr hpas, st1)" "ar_ListScaledObjects c ns st1 = (Inr sos, st2)"
    and "ForIdentity conv c ns kind members (built, st) = ((g, err), built', st')"
  shows "err = None \<and> gr_Info g = shaping (targets_of conv hpas sos kind) (sort members) \<and>
    (\<forall>n. map_of (gr_Members g) n = (if n \<in> set members then Some (targets_of conv hpas sos kind n) else None)) \<and>
    (gr_Disagreeing g = [] \<longleftrightarrow>
       (\<forall>n\<in>set members. \<forall>m\<in>set members. ai_Kind (targets_of conv hpas sos kind n) = ai_Kind (targets_of conv hpas sos kind m))) \<and>
    (\<forall>kind' ms. snd (ForIdentity conv c ns kind' ms (built', st')) = (built', st'))"
proof -
  obtain s where s: "buildSnapshot conv c ns st = (Inr s, st2)" "as_lookup s = targets_of conv hpas sos"
    by (rule build_lookup [OF assms(3,4), of conv])
  have run: "err = None" "g = fold (group_step s kind (hd (sort members))) (sort members) no_group"
    "built' = AList.update ns s built" "st' = st2"
    using assms(1,2,5) s(1) by (simp_all add: ForIdentity_def as_namespace_def Let_def)
  note gm = group_of_members [OF assms(1) _ run(2), unfolded s(2), OF targets_of_none]
  have hd: "hd (sort members) \<in> set members" using sorted_hd [OF assms(1)] by (metis list.set_intros(1) set_sort)
  have "gr_Disagreeing g = [] \<longleftrightarrow>
      (\<forall>n\<in>set members. ai_Kind (targets_of conv hpas sos kind n) = ai_Kind (targets_of conv hpas sos kind (hd (sort members))))"
    by (simp add: gm(3) filter_empty_conv)
  also have "\<dots> \<longleftrightarrow>
      (\<forall>n\<in>set members. \<forall>m\<in>set members. ai_Kind (targets_of conv hpas sos kind n) = ai_Kind (targets_of conv hpas sos kind m))"
    using hd by metis
  moreover have "snd (ForIdentity conv c ns kind' ms (built', st')) = (built', st')" for kind' ms
    by (simp add: ForIdentity_def as_namespace_def run(3) Let_def)
  ultimately show ?thesis using run(1) gm(1,2) by blast
qed

section \<open>Bounds\<close>

lemma clampInt32_bounds: "in_int32 (clampInt32 v)"
  by (simp add: clampInt32_def in_int32_def)

lemma int32Or_bounds: "in_int32 fallback \<Longrightarrow> in_int32 (int32Or conv v fallback)"
  by (cases v) (simp_all add: clampInt32_bounds)

section \<open>Witnesses\<close>

text \<open>Two members, the second scaled both by KEDA and by an HPA.\<close>

definition ex_hpa :: "string \<Rightarrow> hpa" where
  "ex_hpa name = \<lparr> hpa_Namespace = ''shop'', hpa_Name = name, hpa_TargetKind = ''Deployment'', hpa_TargetName = ''api-v2'', hpa_MinReplicas = None,
     hpa_MaxReplicas = 9, hpa_Metrics = [\<lparr> hm_Type = ''Resource'', hm_Resource = Some (''cpu'', Some 80) \<rparr>], hpa_CurrentReplicas = 3 \<rparr>"

definition ex_so :: scaled_object where
  "ex_so = \<lparr> so_Namespace = ''shop'', so_Name = ''queue'', so_Object =
     [(''spec'', JMap [(''scaleTargetRef'', JMap [(''kind'', JStr ''Deployment''), (''name'', JStr ''api-v2'')]), (''maxReplicaCount'', JInt 20),
        (''triggers'', JList [JMap [(''type'', JStr ''memory''), (''metadata'', JMap [(''value'', JStr ''70'')])]])])] \<rparr>"

definition ex_autoscalers :: "unit autoscaler_reader" where
  "ex_autoscalers = \<lparr> ar_ListHPAs = (\<lambda>_ st. (Inr [ex_hpa ''a'', ex_hpa ''b''], st)),
     ar_ListScaledObjects = (\<lambda>_ st. (Inr [ex_so], st)), ar_NotServed = (\<lambda>_. False) \<rparr>"

theorem shaped_by_first_autoscaled_witness:
  "\<exists>g built. ForIdentity (\<lambda>_. 0) ex_autoscalers ''shop'' ''Deployment'' [''api-v2'', ''api''] ([], ()) = ((g, None), built, ()) \<and>
     ai_Kind (gr_Info g) = KindKEDA \<and> ConfiguredTargets (gr_Info g) = [(''memory'', 70)] \<and> MaxReplicas (gr_Info g) = 20 \<and> gr_Disagreeing g \<noteq> []"
proof -
  let ?ms = "[''api-v2'', ''api'']"
  obtain g err built' st' where run: "ForIdentity (\<lambda>_. 0) ex_autoscalers ''shop'' ''Deployment'' ?ms ([], ()) = ((g, err), built', st')"
    by (metis prod.collapse)
  have ne: "?ms \<noteq> []" "map_of ([] :: namespaced_snapshot) ''shop'' = None" by simp_all
  have lists: "ar_ListHPAs ex_autoscalers ''shop'' () = (Inr [ex_hpa ''a'', ex_hpa ''b''], ())" "ar_ListScaledObjects ex_autoscalers ''shop'' () = (Inr [ex_so], ())"
    by (simp_all add: ex_autoscalers_def)
  let ?t = "targets_of (\<lambda>_. 0) [ex_hpa ''a'', ex_hpa ''b''] [ex_so] ''Deployment''"
  have t: "err = None" "gr_Info g = shaping ?t (sort ?ms)"
    "gr_Disagreeing g = [] \<longleftrightarrow> (\<forall>n\<in>set ?ms. \<forall>m\<in>set ?ms. ai_Kind (?t n) = ai_Kind (?t m))"
    using shaped_by_first_autoscaled [OF ne lists run] by blast+
  have "ai_Kind (shaping ?t (sort ?ms)) = KindKEDA \<and> ConfiguredTargets (shaping ?t (sort ?ms)) = [(''memory'', 70)] \<and>
      MaxReplicas (shaping ?t (sort ?ms)) = 20 \<and> ai_Kind (?t ''api'') \<noteq> ai_Kind (?t ''api-v2'')"
    by code_simp
  then have "ai_Kind (gr_Info g) = KindKEDA \<and> ConfiguredTargets (gr_Info g) = [(''memory'', 70)] \<and> MaxReplicas (gr_Info g) = 20 \<and> gr_Disagreeing g \<noteq> []"
    using t(3) unfolding t(2) by (metis list.set_intros(1) list.set_intros(2))
  then show ?thesis using run t(1) by (intro exI [of _ g] exI [of _ built']) simp
qed

end
