(* ===== verification/PromInputs.thy ===== *)
theory PromInputs
  imports Shard Signals Errors
begin

text \<open>
  Reading the inputs of many identities from Prometheus (\<open>internal/recommender/prom_inputs.go\<close>) and merging
  the kills the OOM watcher saw into them (\<open>signal_oom.go\<close>): sharded queries, one retry each, and a shard
  that still fails asked for one identity at a time.

  A shard query is the argument \<open>query\<close>, from the signal, the shard and the client's state to its samples, each
  with the identity it is attributed to, or an error; \<open>cancelled\<close> is whether the context has ended. The
  goroutines of a signal run one after the other, in the order of the shards. What applies an answer is a
  function on the inputs gathered so far. A duration in Prometheus syntax is read by \<open>parse\<close>.
\<close>

section \<open>What a query costs\<close>

definition unparseableWindowMinutes :: int where "unparseableWindowMinutes = 30 * 24 * 60"

text \<open>\<open>Duration.Minutes\<close>: the whole minutes and the rest as one float.\<close>

definition duration_Minutes :: "duration \<Rightarrow> float64" where
  "duration_Minutes d = fadd (of_i64 (go_div d minute)) (fdiv (of_i64 (d - go_div d minute * minute)) (Fin 60000000000))"

definition WindowMinutes :: "(float64 \<Rightarrow> int) \<Rightarrow> (string \<Rightarrow> duration option) \<Rightarrow> string \<Rightarrow> int" where
  "WindowMinutes conv parse window =
     (case parse window of
        None \<Rightarrow> unparseableWindowMinutes
      | Some d \<Rightarrow> let minutes = to_i64 conv (duration_Minutes d) in if minutes < 1 then 1 else minutes)"

fun samplesPerContainer :: "'q env \<Rightarrow> (string \<Rightarrow> duration option) \<Rightarrow> 'q resources_configs \<Rightarrow> signal \<Rightarrow> int" where
  "samplesPerContainer E parse cfg (Usage r) = WindowMinutes (f2i64 E) parse (ResourceWindow (Window (res_config r cfg)))"
| "samplesPerContainer E parse cfg OomFloor = 3"

section \<open>Planning\<close>

record inputs_request =
  ir_Identity :: workload_identity
  ir_Containers :: int

definition candidate_of :: "inputs_request \<Rightarrow> shard_candidate" where
  "candidate_of r = \<lparr> sc_Identity = ir_Identity r, sc_Containers = ir_Containers r \<rparr>"

text \<open>The first request of each identity.\<close>

definition first_requests :: "inputs_request list \<Rightarrow> inputs_request list" where
  "first_requests reqs =
     fold (\<lambda>r out. if ir_Identity r \<in> set (map ir_Identity out) then out else out @ [r]) reqs []"

definition plan :: "int \<Rightarrow> inputs_request list \<Rightarrow> int \<Rightarrow> shard list \<times> workload_identity list" where
  "plan maxSamples reqs cost =
     (let rs = first_requests reqs;
          sized = map candidate_of (filter (\<lambda>r. ir_Containers r > 0) rs);
          unsized = map candidate_of (filter (\<lambda>r. \<not> ir_Containers r > 0) rs);
          built = BuildShards sized cost maxSamples # map (\<lambda>c. BuildShards [c] cost maxSamples) unsized
      in (concat (map fst built), map sc_Identity (concat (map snd built))))"

section \<open>Asking\<close>

type_synonym 'st shard_query = "shard \<Rightarrow> 'st \<Rightarrow> (go_error + (workload_identity \<times> shard_sample) list) \<times> 'st"

text \<open>One shard, retried once unless the context has ended: the error left, and what was gathered.\<close>

definition run_shard ::
  "('st \<Rightarrow> bool) \<Rightarrow> (shard \<Rightarrow> 'st \<Rightarrow> (go_error + ('a \<Rightarrow> 'a)) \<times> 'st) \<Rightarrow> shard \<Rightarrow> 'a \<times> 'st \<Rightarrow> go_error option \<times> 'a \<times> 'st" where
  "run_shard cancelled read sh w =
     (case w of (acc, st) \<Rightarrow>
        (case read sh st of
           (Inr apply', st1) \<Rightarrow> (None, apply' acc, st1)
         | (Inl err, st1) \<Rightarrow>
             if cancelled st1 then (Some err, acc, st1)
             else (case read sh st1 of
                     (Inr apply', st2) \<Rightarrow> (None, apply' acc, st2)
                   | (Inl err2, st2) \<Rightarrow> (Some err2, acc, st2))))"

definition single :: "workload_identity \<Rightarrow> shard" where
  "single i = \<lparr> sh_Namespace = id_Namespace i, sh_OwnerKind = OwnerKind i, sh_Names = [OwnerName i] \<rparr>"

type_synonym errs = "(workload_identity, go_error) gomap"

fun run_singles ::
  "('st \<Rightarrow> bool) \<Rightarrow> (shard \<Rightarrow> 'st \<Rightarrow> (go_error + ('a \<Rightarrow> 'a)) \<times> 'st) \<Rightarrow> workload_identity list \<Rightarrow> errs \<Rightarrow> 'a \<times> 'st \<Rightarrow> errs \<times> 'a \<times> 'st" where
  "run_singles cancelled read [] es w = (es, w)"
| "run_singles cancelled read (i # is) es w =
     (case run_shard cancelled read (single i) w of
        (None, w') \<Rightarrow> run_singles cancelled read is es w'
      | (Some err, w') \<Rightarrow> run_singles cancelled read is (AList.update i err es) w')"

definition run_or_split ::
  "('st \<Rightarrow> bool) \<Rightarrow> (shard \<Rightarrow> 'st \<Rightarrow> (go_error + ('a \<Rightarrow> 'a)) \<times> 'st) \<Rightarrow> shard \<Rightarrow> errs \<Rightarrow> 'a \<times> 'st \<Rightarrow> errs \<times> 'a \<times> 'st" where
  "run_or_split cancelled read sh es w =
     (case run_shard cancelled read sh w of
        (None, w') \<Rightarrow> (es, w')
      | (Some err, acc, st) \<Rightarrow>
          if length (sh_Names sh) = 1 \<or> cancelled st
          then (fold (\<lambda>i m. AList.update i err m) (Identities sh) es, acc, st)
          else run_singles cancelled read (Identities sh) es (acc, st))"

fun eachShard ::
  "('st \<Rightarrow> bool) \<Rightarrow> (shard \<Rightarrow> 'st \<Rightarrow> (go_error + ('a \<Rightarrow> 'a)) \<times> 'st) \<Rightarrow> shard list \<Rightarrow> errs \<Rightarrow> 'a \<times> 'st \<Rightarrow> errs \<times> 'a \<times> 'st" where
  "eachShard cancelled read [] es w = (es, w)"
| "eachShard cancelled read (sh # shs) es w =
     (case run_or_split cancelled read sh es w of (es', w') \<Rightarrow> eachShard cancelled read shs es' w')"

text \<open>The first failure of a required signal stays; a best-effort one is dropped.\<close>

definition fail_required :: "signal \<Rightarrow> errs \<Rightarrow> errs \<Rightarrow> errs" where
  "fail_required s es failed =
     (if \<not> required s then failed
      else fold (\<lambda>(i, err) f. if map_of f i = None then AList.update i (Wrap err) f else f) es failed)"

fun fetchSignals ::
  "('st \<Rightarrow> bool) \<Rightarrow> int \<Rightarrow> (signal \<Rightarrow> int) \<Rightarrow> inputs_request list \<Rightarrow> int \<Rightarrow>
   (signal \<Rightarrow> shard \<Rightarrow> 'st \<Rightarrow> (go_error + ('a \<Rightarrow> 'a)) \<times> 'st) \<Rightarrow> signal list \<Rightarrow> errs \<Rightarrow> 'a \<times> 'st \<Rightarrow> errs \<times> 'a \<times> 'st" where
  "fetchSignals cancelled maxSamples cost reqs points read [] failed w = (failed, w)"
| "fetchSignals cancelled maxSamples cost reqs points read (s # ss) failed w =
     (case eachShard cancelled (read s) (fst (plan maxSamples reqs (wrap64 (cost s * points)))) [] w of
        (es, w') \<Rightarrow> fetchSignals cancelled maxSamples cost reqs points read ss (fail_required s es failed) w')"

section \<open>Inputs\<close>

type_synonym inputs_map = "(workload_identity, workload_inputs) gomap"

definition samples_of :: "workload_identity \<Rightarrow> (workload_identity \<times> shard_sample) list \<Rightarrow> shard_sample list" where
  "samples_of i samples = map snd (filter (\<lambda>(j, _). j = i) samples)"

definition set_inputs :: "signal \<Rightarrow> (workload_identity \<times> shard_sample) list \<Rightarrow> workload_identity list \<Rightarrow> inputs_map \<Rightarrow> inputs_map" where
  "set_inputs s samples ids m =
     fold (\<lambda>i m. AList.update i (set_values s (collect s (samples_of i samples)) (lookup_or [] m i)) m) ids m"

definition read_inputs ::
  "(signal \<Rightarrow> 'st shard_query) \<Rightarrow> signal \<Rightarrow> shard \<Rightarrow> 'st \<Rightarrow> (go_error + (inputs_map \<Rightarrow> inputs_map)) \<times> 'st" where
  "read_inputs query s sh st =
     (case query s sh st of
        (Inl err, st') \<Rightarrow> (Inl err, st')
      | (Inr samples, st') \<Rightarrow> (Inr (set_inputs s samples (Identities sh)), st'))"

definition initial_inputs :: "inputs_request list \<Rightarrow> inputs_map" where
  "initial_inputs reqs = fold (\<lambda>r m. if map_of m (ir_Identity r) = None then AList.update (ir_Identity r) emptyInputs m else m) reqs []"

definition FetchInputs ::
  "('st \<Rightarrow> bool) \<Rightarrow> int \<Rightarrow> (signal \<Rightarrow> int) \<Rightarrow> (signal \<Rightarrow> 'st shard_query) \<Rightarrow> inputs_request list \<Rightarrow> 'st \<Rightarrow>
   (workload_identity, go_error + workload_inputs) gomap \<times> 'st" where
  "FetchInputs cancelled maxSamples cost query reqs st =
     (case fetchSignals cancelled maxSamples cost reqs 1 (read_inputs query) signals [] (initial_inputs reqs, st) of
        (failed, inputs, st') \<Rightarrow>
          (map (\<lambda>(i, inp). (i, case map_of failed i of Some err \<Rightarrow> Inl err | None \<Rightarrow> Inr inp)) inputs, st'))"

text \<open>The decorated fetcher: \<open>live\<close> are the kills the watcher holds of an identity.\<close>

definition liveOOM_inputs ::
  "(workload_identity \<Rightarrow> (string, oom_record option) gomap) \<Rightarrow> time \<Rightarrow>
   (workload_identity, go_error + workload_inputs) gomap \<Rightarrow> (workload_identity, go_error + workload_inputs) gomap" where
  "liveOOM_inputs live now out =
     map (\<lambda>(i, r). (i, case r of Inl err \<Rightarrow> Inl err | Inr inp \<Rightarrow> Inr (withLiveOOMs inp (live i) now))) out"

end
