(* ===== verification/PromInputsCorrect.thy ===== *)
theory PromInputsCorrect
  imports PromInputs
begin

text \<open>
  Batching is invisible (\<open>internal/recommender/prom_inputs.go\<close>, ADR 0001): wherever a shard answers for each of
  its identities what asking for that identity alone answers, every identity gets what it would get alone,
  whatever shards it was packed into and whichever of them fail.
\<close>

section \<open>The plan\<close>

lemma first_requests_spec:
  "distinct (map ir_Identity (first_requests reqs)) \<and> ir_Identity ` set (first_requests reqs) = ir_Identity ` set reqs \<and>
   set (first_requests reqs) \<subseteq> set reqs"
proof -
  let ?f = "\<lambda>r out. if ir_Identity r \<in> set (map ir_Identity out) then out else out @ [r]"
  have "distinct (map ir_Identity out) \<Longrightarrow>
      distinct (map ir_Identity (fold ?f reqs out)) \<and> ir_Identity ` set (fold ?f reqs out) = ir_Identity ` set out \<union> ir_Identity ` set reqs \<and>
      set (fold ?f reqs out) \<subseteq> set out \<union> set reqs" for out
  proof (induction reqs arbitrary: out)
    case (Cons r reqs)
    show ?case
    proof (cases "ir_Identity r \<in> set (map ir_Identity out)")
      case True
      then show ?thesis using Cons.IH [OF Cons.prems] by auto
    next
      case False
      then have "distinct (map ir_Identity (out @ [r]))" using Cons.prems by auto
      from Cons.IH [OF this] False show ?thesis by auto
    qed
  qed simp
  from this [of "[]"] show ?thesis by (simp add: first_requests_def)
qed

lemma BuildShards_identities:
  "mset (concat (map Identities (fst (BuildShards cs cost m)))) = mset (map sc_Identity (filter (\<lambda>c. \<not> unnamed c) cs))"
  using shards_partition_candidates [of cs cost m] by (simp add: Let_def case_prod_unfold)

lemma concat_map_concat: "concat (map f (concat xss)) = concat (map (\<lambda>xs. concat (map f xs)) xss)"
  by (induction xss) simp_all

abbreviation named :: "inputs_request list \<Rightarrow> inputs_request list" where
  "named rs \<equiv> filter (\<lambda>r. \<not> unnamed (candidate_of r)) rs"

lemma shards_of_sized:
  "mset (concat (map Identities (fst (BuildShards (map candidate_of rs) cost m)))) = mset (map ir_Identity (named rs))"
  unfolding BuildShards_identities by (induction rs) (simp_all add: candidate_of_def)

lemma shards_of_unsized:
  "mset (concat (map (\<lambda>r. concat (map Identities (fst (BuildShards [candidate_of r] cost m)))) rs)) = mset (map ir_Identity (named rs))"
proof (induction rs)
  case (Cons r rs)
  then show ?case using shards_of_sized [of "[r]" cost m] by auto
qed simp

lemma plan_identities:
  "mset (concat (map Identities (fst (plan m reqs cost)))) = mset (map ir_Identity (named (first_requests reqs)))"
proof -
  let ?rs = "first_requests reqs"
  have split: "mset (map ir_Identity (named (filter (\<lambda>r. ir_Containers r > 0) rs))) + mset (map ir_Identity (named (filter (\<lambda>r. \<not> ir_Containers r > 0) rs))) =
      mset (map ir_Identity (named rs))" for rs
    by (induction rs) (auto simp del: filter_filter mset_filter)
  have "mset (concat (map Identities (fst (plan m reqs cost)))) =
      mset (map ir_Identity (named (filter (\<lambda>r. ir_Containers r > 0) ?rs))) + mset (map ir_Identity (named (filter (\<lambda>r. \<not> ir_Containers r > 0) ?rs)))"
    by (simp only: plan_def Let_def fst_conv list.map concat.simps map_append concat_append mset_append shards_of_sized
        map_map concat_map_concat comp_def shards_of_unsized)
  also have "\<dots> = mset (map ir_Identity (named ?rs))" by (rule split)
  finally show ?thesis .
qed

lemma plan_covers:
  "distinct (concat (map Identities (fst (plan m reqs cost))))"
  "set (concat (map Identities (fst (plan m reqs cost)))) = {ir_Identity r |r. r \<in> set reqs \<and> \<not> unnamed (candidate_of r)}"
proof -
  let ?ids = "map ir_Identity (named (first_requests reqs))"
  have "distinct ?ids" using first_requests_spec [of reqs] by (simp add: distinct_map_filter)
  then show "distinct (concat (map Identities (fst (plan m reqs cost))))"
    using plan_identities mset_eq_imp_distinct_iff by blast
  have un: "\<not> unnamed (candidate_of r) \<longleftrightarrow> ir_Identity r \<in> {i. id_Namespace i \<noteq> [] \<and> OwnerKind i \<noteq> [] \<and> OwnerName i \<noteq> []}" for r
    by (simp add: unnamed_def candidate_of_def)
  have pick: "{ir_Identity r |r. r \<in> A \<and> \<not> unnamed (candidate_of r)} =
      ir_Identity ` A \<inter> {i. id_Namespace i \<noteq> [] \<and> OwnerKind i \<noteq> [] \<and> OwnerName i \<noteq> []}" for A
    unfolding un by blast
  have "set (concat (map Identities (fst (plan m reqs cost)))) = set ?ids"
    using plan_identities mset_eq_setD by blast
  also have "\<dots> = {ir_Identity r |r. r \<in> set (first_requests reqs) \<and> \<not> unnamed (candidate_of r)}" by auto
  also have "\<dots> = {ir_Identity r |r. r \<in> set reqs \<and> \<not> unnamed (candidate_of r)}"
    unfolding pick using first_requests_spec by metis
  finally show "set (concat (map Identities (fst (plan m reqs cost)))) = {ir_Identity r |r. r \<in> set reqs \<and> \<not> unnamed (candidate_of r)}" .
qed

section \<open>One signal\<close>

text \<open>What asking for one identity alone does to its inputs, and the error it leaves.\<close>

type_synonym answers = "shard \<Rightarrow> go_error + (workload_identity \<times> shard_sample) list"

definition alone_upd :: "signal \<Rightarrow> answers \<Rightarrow> workload_identity \<Rightarrow> workload_inputs \<Rightarrow> workload_inputs" where
  "alone_upd s ans i inp =
     (case ans (single i) of Inr samples \<Rightarrow> set_values s (collect s (samples_of i samples)) inp | Inl _ \<Rightarrow> inp)"

definition alone_err :: "answers \<Rightarrow> workload_identity \<Rightarrow> go_error option" where
  "alone_err ans i = (case ans (single i) of Inl err \<Rightarrow> Some err | Inr _ \<Rightarrow> None)"

text \<open>A shard that answers, answers for each of its identities what asking for it alone answers.\<close>

definition consistent :: "answers \<Rightarrow> shard \<Rightarrow> bool" where
  "consistent ans sh \<longleftrightarrow>
     (\<forall>samples i. ans sh = Inr samples \<longrightarrow> i \<in> set (Identities sh) \<longrightarrow>
        (\<exists>smp. ans (single i) = Inr smp \<and> samples_of i smp = samples_of i samples))"

text \<open>The inputs and errors \<open>(es, m)\<close> after the identities of \<open>A\<close> were asked for, from those before.\<close>

definition asked :: "signal \<Rightarrow> answers \<Rightarrow> workload_identity set \<Rightarrow> errs \<times> inputs_map \<Rightarrow> errs \<times> inputs_map \<Rightarrow> bool" where
  "asked s ans A before after \<longleftrightarrow>
     (\<forall>i. map_of (snd after) i = (if i \<in> A then map_option (alone_upd s ans i) (map_of (snd before) i) else map_of (snd before) i)) \<and>
     (\<forall>i. map_of (fst after) i = (if i \<in> A \<and> alone_err ans i \<noteq> None then alone_err ans i else map_of (fst before) i)) \<and>
     (wf_map (fst before) \<longrightarrow> wf_map (fst after))"

lemma asked_none: "asked s ans {} w w"
  by (simp add: asked_def)

lemma asked_trans:
  assumes "asked s ans A w w1" "asked s ans B w1 w2" "A \<inter> B = {}"
  shows "asked s ans (A \<union> B) w w2"
  using assms unfolding asked_def by (auto split: if_splits)

lemma asked_same:
  "asked s ans A w w1 \<Longrightarrow> A = B \<Longrightarrow> w1 = w2 \<Longrightarrow> asked s ans B w w2"
  by simp

lemma set_inputs_spec:
  assumes "distinct ids" "set ids \<subseteq> set (gkeys m)"
  shows "map_of (set_inputs s samples ids m) i =
    (if i \<in> set ids then map_option (set_values s (collect s (samples_of i samples))) (map_of m i) else map_of m i)"
  using assms
proof (induction ids arbitrary: m)
  case (Cons j ids)
  let ?m = "AList.update j (set_values s (collect s (samples_of j samples)) (lookup_or [] m j)) m"
  obtain inp where inp: "map_of m j = Some inp" using Cons.prems(2) map_of_None_key [of m j] by auto
  have "set ids \<subseteq> set (gkeys ?m)" using Cons.prems(2) unfolding keys_update by auto
  then have "map_of (set_inputs s samples ids ?m) i =
      (if i \<in> set ids then map_option (set_values s (collect s (samples_of i samples))) (map_of ?m i) else map_of ?m i)"
    using Cons.IH Cons.prems(1) by simp
  then show ?case using inp Cons.prems(1) by (auto simp: set_inputs_def lookup_or_def)
qed (simp add: set_inputs_def)

lemma keys_set_inputs: "set (gkeys m) \<subseteq> set (gkeys (set_inputs s samples ids m))"
  unfolding set_inputs_def by (induction ids arbitrary: m) (simp, metis (no_types, lifting) fold_simps(2) keys_update subset_insertI subset_trans)

lemma Identities_single: "Identities (single i) = [i]"
  by (simp add: Identities_def single_def)

lemma one_name: "length (sh_Names sh) = 1 \<Longrightarrow> i \<in> set (Identities sh) \<Longrightarrow> sh = single i \<and> Identities sh = [i]"
  by (cases sh) (auto simp: Identities_def single_def length_Suc_conv)

text \<open>The query answers from \<open>ans\<close>, whatever it was asked before.\<close>

lemma run_shard_answers:
  assumes "\<And>sh. query s sh st = (ans sh, st)"
  shows "run_shard cancelled (read_inputs query s) sh (m, st) =
    (case ans sh of Inr samples \<Rightarrow> (None, set_inputs s samples (Identities sh) m, st) | Inl err \<Rightarrow> (Some err, m, st))"
  using assms by (simp add: run_shard_def read_inputs_def split: sum.split)

lemma ask_single:
  assumes "\<And>sh. query s sh st = (ans sh, st)" "i \<in> set (gkeys m)"
    and "run_shard cancelled (read_inputs query s) (single i) (m, st) = (err, m', st')"
  shows "st' = st \<and> asked s ans {i} (es, m) (case err of None \<Rightarrow> es | Some e \<Rightarrow> AList.update i e es, m')"
proof (cases "ans (single i)")
  case (Inl e)
  then have idle: "alone_upd s ans i = id" by (simp add: alone_upd_def fun_eq_iff)
  show ?thesis using Inl assms(3) run_shard_answers [of query s st ans cancelled "single i" m, OF assms(1)]
    by (auto simp: asked_def alone_err_def idle option.map_id)
next
  case (Inr samples)
  then have "err = None" "m' = set_inputs s samples [i] m" "st' = st"
    using assms(3) run_shard_answers [of query s st ans cancelled "single i" m, OF assms(1)] by (auto simp: Identities_single)
  moreover have "map_of (set_inputs s samples [i] m) j =
      (if j = i then map_option (set_values s (collect s (samples_of i samples))) (map_of m i) else map_of m j)" for j
    using set_inputs_spec [of "[i]" m s samples j] assms(2) by simp
  moreover have "alone_upd s ans i = set_values s (collect s (samples_of i samples))" using Inr by (simp add: alone_upd_def fun_eq_iff)
  ultimately show ?thesis using Inr by (simp add: asked_def alone_err_def)
qed

lemma keys_asked:
  assumes "asked s ans A (es, m) (es', m')"
  shows "set (gkeys m) \<subseteq> set (gkeys m')"
proof
  fix j
  assume "j \<in> set (gkeys m)"
  then obtain inp where j: "map_of m j = Some inp" using map_of_None_key [of m j] by blast
  have "map_of m' j = (if j \<in> A then map_option (alone_upd s ans j) (map_of m j) else map_of m j)"
    using assms unfolding asked_def by simp
  then show "j \<in> set (gkeys m')" unfolding j using map_of_Some_key [of m' j] by (cases "j \<in> A") simp_all
qed

lemma ask_singles:
  assumes "\<And>sh. query s sh st = (ans sh, st)" "distinct is" "set is \<subseteq> set (gkeys m)"
    and "run_singles cancelled (read_inputs query s) is es (m, st) = (es', m', st')"
  shows "st' = st \<and> asked s ans (set is) (es, m) (es', m')"
  using assms(2-4)
proof (induction "is" arbitrary: es m)
  case (Cons i "is")
  obtain err m1 st1 where run: "run_shard cancelled (read_inputs query s) (single i) (m, st) = (err, m1, st1)" by (metis prod.collapse)
  let ?es = "case err of None \<Rightarrow> es | Some e \<Rightarrow> AList.update i e es"
  have one: "st1 = st" "asked s ans {i} (es, m) (?es, m1)"
    using ask_single [of query s st ans i m cancelled err m1 st1 es, OF assms(1)] Cons.prems(2) run by auto
  have rest: "run_singles cancelled (read_inputs query s) is ?es (m1, st) = (es', m', st')"
    using Cons.prems(3) run one(1) by (simp split: option.splits)
  have "set is \<subseteq> set (gkeys m1)" by (rule subset_trans [OF _ keys_asked [OF one(2)]]) (use Cons.prems(2) in auto)
  then have "st' = st \<and> asked s ans (set is) (?es, m1) (es', m')" using Cons.IH [OF _ _ rest] Cons.prems(1) by simp
  then show ?case using asked_trans [OF one(2), of "set is"] Cons.prems(1) by simp
qed (simp add: asked_none)

lemma ask_shard:
  assumes "\<And>sh. query s sh st = (ans sh, st)" "\<not> cancelled st" "consistent ans sh"
    and "distinct (Identities sh)" "set (Identities sh) \<subseteq> set (gkeys m)"
    and "run_or_split cancelled (read_inputs query s) sh es (m, st) = (es', m', st')"
  shows "st' = st \<and> asked s ans (set (Identities sh)) (es, m) (es', m')"
proof (cases "ans sh")
  case (Inr samples)
  then have out: "es' = es" "m' = set_inputs s samples (Identities sh) m" "st' = st"
    using assms(6) run_shard_answers [of query s st ans cancelled sh m, OF assms(1)] by (auto simp: run_or_split_def)
  have alone: "alone_err ans i = None \<and> alone_upd s ans i = set_values s (collect s (samples_of i samples))" if i: "i \<in> set (Identities sh)" for i
  proof -
    obtain smp where "ans (single i) = Inr smp" "samples_of i smp = samples_of i samples" using assms(3) Inr i unfolding consistent_def by blast
    then show ?thesis by (simp add: alone_err_def alone_upd_def fun_eq_iff)
  qed
  have "map_of m' i = (if i \<in> set (Identities sh) then map_option (alone_upd s ans i) (map_of m i) else map_of m i)" for i
    unfolding out(2) set_inputs_spec [OF assms(4,5)] using alone [of i] by (cases "i \<in> set (Identities sh)") simp_all
  moreover have "map_of es' i = (if i \<in> set (Identities sh) \<and> alone_err ans i \<noteq> None then alone_err ans i else map_of es i)" for i
    unfolding out(1) using alone [of i] by (cases "i \<in> set (Identities sh)") simp_all
  moreover have "wf_map es \<longrightarrow> wf_map es'" by (simp add: out(1))
  ultimately show ?thesis unfolding asked_def fst_conv snd_conv using out(3) by blast
next
  case (Inl err)
  then have run: "run_shard cancelled (read_inputs query s) sh (m, st) = (Some err, m, st)"
    using run_shard_answers [of query s st ans cancelled sh m, OF assms(1)] by simp
  show ?thesis
  proof (cases "length (sh_Names sh) = 1")
    case True
    then obtain i where i: "i \<in> set (Identities sh)" unfolding Identities_def by (cases "sh_Names sh") auto
    then have sh: "sh = single i" "Identities sh = [i]" using one_name [OF True] by blast+
    then have "es' = AList.update i err es" "m' = m" "st' = st" using assms(6) run True by (auto simp: run_or_split_def)
    moreover have "alone_err ans i = Some err" "alone_upd s ans i = id" using Inl sh(1) by (simp_all add: alone_err_def alone_upd_def fun_eq_iff)
    ultimately show ?thesis using sh(2) by (simp add: asked_def option.map_id)
  next
    case False
    then have "run_singles cancelled (read_inputs query s) (Identities sh) es (m, st) = (es', m', st')"
      using assms(2,6) run by (simp add: run_or_split_def)
    then show ?thesis by (rule ask_singles [of query s st ans, OF assms(1,4,5)])
  qed
qed

lemma ask_shards:
  assumes "\<And>sh. query s sh st = (ans sh, st)" "\<not> cancelled st" "\<forall>sh. consistent ans sh"
    and "distinct (concat (map Identities shs))" "set (concat (map Identities shs)) \<subseteq> set (gkeys m)"
    and "eachShard cancelled (read_inputs query s) shs es (m, st) = (es', m', st')"
  shows "st' = st \<and> asked s ans (set (concat (map Identities shs))) (es, m) (es', m')"
  using assms(4-6)
proof (induction shs arbitrary: es m)
  case (Cons sh shs)
  obtain es1 m1 st1 where run: "run_or_split cancelled (read_inputs query s) sh es (m, st) = (es1, m1, st1)" by (metis prod.collapse)
  have one: "st1 = st" "asked s ans (set (Identities sh)) (es, m) (es1, m1)"
    using ask_shard [of query s st ans cancelled sh m es es1 m1 st1, OF assms(1,2)] assms(3) Cons.prems(1,2) run by auto
  have "eachShard cancelled (read_inputs query s) shs es1 (m1, st) = (es', m', st')" using Cons.prems(3) run one(1) by simp
  moreover have "set (concat (map Identities shs)) \<subseteq> set (gkeys m1)" 
    by (rule subset_trans [OF _ keys_asked [OF one(2)]]) (use Cons.prems(2) in auto)
  ultimately have "st' = st \<and> asked s ans (set (concat (map Identities shs))) (es1, m1) (es', m')" using Cons.IH Cons.prems(1) by simp
  then show ?case using asked_trans [OF one(2), of "set (concat (map Identities shs))"] Cons.prems(1) by simp
qed (simp add: asked_none)

section \<open>All signals\<close>

lemma fold_if_new:
  "map_of (fold (\<lambda>x m. if map_of m (k x) = None then AList.update (k x) (v x) m else m) xs m) i =
     (case map_of m i of Some w \<Rightarrow> Some w | None \<Rightarrow> map_option v (find (\<lambda>x. k x = i) xs))"
proof (induction xs arbitrary: m)
  case (Cons x xs)
  let ?m = "if map_of m (k x) = None then AList.update (k x) (v x) m else m"
  show ?case using Cons.IH [of ?m] by (auto split: option.splits)
qed (simp split: option.split)

lemma map_of_fail_required:
  assumes "wf_map es"
  shows "map_of (fail_required s es failed) i =
    (case map_of failed i of Some e \<Rightarrow> Some e | None \<Rightarrow> if required s then map_option Wrap (map_of es i) else None)"
proof (cases "required s")
  case True
  have "find (\<lambda>x. fst x = i) es = map_option (\<lambda>e. (i, e)) (map_of es i)"
    using assms by (induction es) (auto simp: wf_map_def)
  then show ?thesis using True fold_if_new [of fst "\<lambda>x. Wrap (snd x)" es failed i]
    by (simp add: fail_required_def case_prod_unfold option.map_comp comp_def split: option.split)
qed (simp add: fail_required_def split: option.split)

text \<open>What asking for \<open>i\<close> alone gives, signal by signal: the first error of a required one, or the inputs.\<close>

definition alone_error :: "(signal \<Rightarrow> answers) \<Rightarrow> workload_identity \<Rightarrow> signal list \<Rightarrow> go_error option" where
  "alone_error ans i ss =
     (case find (\<lambda>s. required s \<and> alone_err (ans s) i \<noteq> None) ss of Some s \<Rightarrow> map_option Wrap (alone_err (ans s) i) | None \<Rightarrow> None)"

definition fetched_alone :: "(signal \<Rightarrow> answers) \<Rightarrow> workload_identity \<Rightarrow> go_error + workload_inputs" where
  "fetched_alone ans i =
     (case alone_error ans i signals of
        Some err \<Rightarrow> Inl err
      | None \<Rightarrow> Inr (fold (\<lambda>s. alone_upd s (ans s) i) signals emptyInputs))"

lemma fetch_signals:
  assumes "\<And>s sh. query s sh st = (ans s sh, st)" "\<not> cancelled st" "\<forall>s sh. consistent (ans s) sh"
    and "\<And>cost. set (concat (map Identities (fst (plan maxSamples reqs cost)))) = A" "A \<subseteq> set (gkeys m)"
    and "fetchSignals cancelled maxSamples cost reqs points (read_inputs query) ss failed (m, st) = (failed', m', st')"
  shows "map_of m' i = (if i \<in> A then map_option (fold (\<lambda>s. alone_upd s (ans s) i) ss) (map_of m i) else map_of m i) \<and>
    map_of failed' i = (case map_of failed i of Some e \<Rightarrow> Some e | None \<Rightarrow> if i \<in> A then alone_error ans i ss else None)"
  using assms(5,6)
proof (induction ss arbitrary: failed m)
  case Nil
  then show ?case by (auto simp: alone_error_def option.map_ident split: option.split)
next
  case (Cons s ss)
  let ?shs = "fst (plan maxSamples reqs (wrap64 (cost s * points)))"
  obtain es m1 st1 where run: "eachShard cancelled (read_inputs query s) ?shs [] (m, st) = (es, m1, st1)" by (metis prod.collapse)
  have one: "st1 = st" "asked s (ans s) A ([], m) (es, m1)"
    using ask_shards [of query s st "ans s" cancelled ?shs m "[]" es m1 st1, OF assms(1,2)] assms(3,4) plan_covers(1) Cons.prems(1) run by auto
  have rest: "fetchSignals cancelled maxSamples cost reqs points (read_inputs query) ss (fail_required s es failed) (m1, st) = (failed', m', st')"
    using Cons.prems(2) run one(1) by simp
  note ih = Cons.IH [OF subset_trans [OF Cons.prems(1) keys_asked [OF one(2)]] rest]
  have es: "wf_map es" "map_of es i = (if i \<in> A then alone_err (ans s) i else None)"
    and m1: "map_of m1 i = (if i \<in> A then map_option (alone_upd s (ans s) i) (map_of m i) else map_of m i)"
    using one(2) unfolding asked_def by simp_all
  have "map_of m' i = (if i \<in> A then map_option (fold (\<lambda>s. alone_upd s (ans s) i) (s # ss)) (map_of m i) else map_of m i)"
    using ih m1 by (simp add: option.map_comp comp_def)
  moreover have "map_of failed' i = (case map_of failed i of Some e \<Rightarrow> Some e | None \<Rightarrow> if i \<in> A then alone_error ans i (s # ss) else None)"
    using ih es(2) by (auto simp: map_of_fail_required [OF es(1)] alone_error_def split: option.splits)
  ultimately show ?case by blast
qed

lemma map_of_initial: "map_of (initial_inputs reqs) i = (if i \<in> ir_Identity ` set reqs then Some emptyInputs else None)"
proof -
  have "map_of (initial_inputs reqs) i = map_option (\<lambda>r. emptyInputs) (find (\<lambda>r. ir_Identity r = i) reqs)"
    by (simp add: initial_inputs_def fold_if_new)
  then show ?thesis by (cases "find (\<lambda>r. ir_Identity r = i) reqs") (auto simp: find_None_all dest: find_Some_set)
qed

text \<open>C24. Batching is invisible: where a shard that answers gives each of its identities what asking for that
  identity alone gives, every requested identity gets exactly what it would get alone (its inputs, or the
  error of its first required signal that fails alone), whatever shards it is packed into and whichever of
  them fail; one that cannot be queried, lacking a namespace, kind or name, gets empty inputs.\<close>

theorem fetched_as_if_alone:
  assumes "\<And>s sh. query s sh st = (ans s sh, st)" "\<not> cancelled st" "\<forall>s sh. consistent (ans s) sh" "r \<in> set reqs"
  shows "map_of (fst (FetchInputs cancelled maxSamples cost query reqs st)) (ir_Identity r) =
    Some (if unnamed (candidate_of r) then Inr emptyInputs else fetched_alone ans (ir_Identity r))"
proof -
  let ?i = "ir_Identity r" and ?A = "{ir_Identity r |r. r \<in> set reqs \<and> \<not> unnamed (candidate_of r)}"
  obtain failed m st' where run: "fetchSignals cancelled maxSamples cost reqs 1 (read_inputs query) signals [] (initial_inputs reqs, st) = (failed, m, st')"
    by (metis prod.collapse)
  have "?A \<subseteq> set (gkeys (initial_inputs reqs))"
  proof
    fix j
    assume "j \<in> ?A"
    then have "map_of (initial_inputs reqs) j = Some emptyInputs" unfolding map_of_initial by auto
    then show "j \<in> set (gkeys (initial_inputs reqs))" by (rule map_of_Some_key)
  qed
  note f = fetch_signals [of query st ans cancelled maxSamples reqs ?A "initial_inputs reqs" cost 1 signals "[]" failed m st' ?i, OF assms(1-3) plan_covers(2) this run]
  have A: "?i \<in> ?A \<longleftrightarrow> \<not> unnamed (candidate_of r)"
    using assms(4) by (auto simp: unnamed_def candidate_of_def)
  have "map_of (fst (FetchInputs cancelled maxSamples cost query reqs st)) ?i =
      map_option (\<lambda>inp. case map_of failed ?i of Some err \<Rightarrow> Inl err | None \<Rightarrow> Inr inp) (map_of m ?i)"
    by (simp add: FetchInputs_def run map_of_map_value)
  moreover have "map_of (initial_inputs reqs) ?i = Some emptyInputs" using assms(4) by (simp add: map_of_initial)
  ultimately show ?thesis using f unfolding A
    by (cases "unnamed (candidate_of r)") (simp_all add: fetched_alone_def split: option.split)
qed

section \<open>Witness\<close>

text \<open>A Prometheus that refuses every shard of several identities and always fails for \<open>b\<close>.\<close>

definition ex_answers :: answers where
  "ex_answers sh =
     (if length (sh_Names sh) = 1 \<and> sh_Names sh \<noteq> [''b''] then Inr (map (\<lambda>i. (i, \<lparr> ss_Container = ''app'', ss_Metric = [], ss_Value = Fin 2 \<rparr>)) (Identities sh))
      else Inl (Plain ''over budget''))"

definition ex_request :: "string \<Rightarrow> inputs_request" where
  "ex_request name = \<lparr> ir_Identity = \<lparr> id_Namespace = ''shop'', OwnerKind = ''Deployment'', OwnerName = name \<rparr>, ir_Containers = 1 \<rparr>"

lemma ex_consistent: "consistent ex_answers sh"
  unfolding consistent_def
proof (intro allI impI)
  fix samples i
  assume a: "ex_answers sh = Inr samples" "i \<in> set (Identities sh)"
  then have "length (sh_Names sh) = 1" by (simp add: ex_answers_def split: if_splits)
  then have "sh = single i" using one_name a(2) by blast
  then show "\<exists>smp. ex_answers (single i) = Inr smp \<and> samples_of i smp = samples_of i samples" using a(1) by blast
qed

theorem fetched_as_if_alone_witness:
  "let out = fst (FetchInputs (\<lambda>_. False) 1000 (\<lambda>_. 1) (\<lambda>s sh st. (ex_answers sh, st)) [ex_request ''a'', ex_request ''b''] ()) in
     (\<exists>inp. map_of out (ir_Identity (ex_request ''a'')) = Some (Inr inp) \<and> usage_values_of inp cpuUsage = [(''app'', Fin 2)]) \<and>
     map_of out (ir_Identity (ex_request ''b'')) = Some (Inl (Wrap (Plain ''over budget'')))"
proof -
  let ?out = "fst (FetchInputs (\<lambda>_. False) 1000 (\<lambda>_. 1) (\<lambda>s sh st. (ex_answers sh, st)) [ex_request ''a'', ex_request ''b''] ())"
  have get: "map_of ?out (ir_Identity r) = Some (if unnamed (candidate_of r) then Inr emptyInputs else fetched_alone (\<lambda>_. ex_answers) (ir_Identity r))"
    if "r \<in> set [ex_request ''a'', ex_request ''b'']" for r
    by (rule fetched_as_if_alone [OF _ _ _ that]) (simp_all add: ex_consistent)
  have a: "case (if unnamed (candidate_of (ex_request ''a'')) then Inr emptyInputs else fetched_alone (\<lambda>_. ex_answers) (ir_Identity (ex_request ''a''))) of
      Inl _ \<Rightarrow> False | Inr inp \<Rightarrow> usage_values_of inp cpuUsage = [(''app'', Fin 2)]"
    by code_simp
  have b: "(if unnamed (candidate_of (ex_request ''b'')) then Inr emptyInputs else fetched_alone (\<lambda>_. ex_answers) (ir_Identity (ex_request ''b''))) =
      Inl (Wrap (Plain ''over budget''))"
    by code_simp
  show ?thesis using get [of "ex_request ''a''"] get [of "ex_request ''b''"] a b
    by (simp only: Let_def list.set_intros) (auto split: sum.splits)
qed

end
