(* ===== verification/History.thy ===== *)
theory History
  imports PromInputs Recommender
begin

text \<open>
  Reading inputs over a span of instants and computing at each (\<open>internal/recommender/history.go\<close>, and
  \<open>FetchHistory\<close> of \<open>prom_inputs.go\<close>). Durations are \<open>int64\<close> and wrap; \<open>query\<close> and \<open>hquery\<close> are the two range
  queries of a shard, \<open>hquery\<close> being asked only for a signal with a history query.
\<close>

section \<open>Spans\<close>

record span =
  sp_Start :: time
  sp_End :: time
  sp_Step :: duration

definition maxHistoryPoints :: int where "maxHistoryPoints = 300"

definition SpanOf :: "time \<Rightarrow> time \<Rightarrow> duration \<Rightarrow> span" where
  "SpanOf start end' hint =
     (let unit = max hint second;
          d = time_sub end' start;
          units = (if d > 0
                   then let finest = go_div (wrap64 (d + maxHistoryPoints - 2)) (maxHistoryPoints - 1)
                        in max (go_div (wrap64 (finest + unit - 1)) unit) 1
                   else 1);
          step = wrap64 (units * unit);
          steps = max (go_div (time_sub end' start) step) 0
      in \<lparr> sp_Start = end' + wrap64 (wrap64 (- steps) * step), sp_End = end', sp_Step = step \<rparr>)"

definition instants :: "span \<Rightarrow> int" where
  "instants s = wrap64 (go_div (time_sub (sp_End s) (sp_Start s)) (sp_Step s) + 1)"

definition instant :: "span \<Rightarrow> int \<Rightarrow> time" where
  "instant s i = sp_Start s + wrap64 (i * sp_Step s)"

definition span_index :: "span \<Rightarrow> time \<Rightarrow> int \<times> bool" where
  "span_index s t =
     (let i = go_div (wrap64 (time_sub t (sp_Start s) + go_div (sp_Step s) 2)) (sp_Step s)
      in (i, sp_Start s + go_div (wrap64 (- sp_Step s)) 2 \<le> t \<and> i < instants s))"

section \<open>Histories\<close>

type_synonym history_points = "(time \<times> workload_inputs) list"

record shard_series =
  se_Identity :: workload_identity
  se_Container :: string
  se_Metric :: string
  se_Points :: "(time \<times> float64) list"

type_synonym 'st range_query = "shard \<Rightarrow> 'st \<Rightarrow> (go_error + shard_series list) \<times> 'st"
type_synonym history_map = "(workload_identity, workload_inputs list) gomap"

text \<open>The samples of \<open>i\<close> at the \<open>k\<close>th instant, in the order of the series and of their points.\<close>

definition samples_at :: "span \<Rightarrow> shard_series list \<Rightarrow> workload_identity \<Rightarrow> nat \<Rightarrow> shard_sample list" where
  "samples_at sp series i k =
     concat (map (\<lambda>sr. map (\<lambda>(t, v). \<lparr> ss_Container = se_Container sr, ss_Metric = se_Metric sr, ss_Value = v \<rparr>)
                         (filter (\<lambda>(t, v). span_index sp t = (int k, True)) (se_Points sr)))
              (filter (\<lambda>sr. se_Identity sr = i) series))"

definition set_history :: "span \<Rightarrow> signal \<Rightarrow> shard_series list \<Rightarrow> workload_identity list \<Rightarrow> history_map \<Rightarrow> history_map" where
  "set_history sp s series ids m =
     fold (\<lambda>i m. AList.update i
        (map (\<lambda>(k, inp). set_values s (collect s (samples_at sp series i k)) inp) (enumerate 0 (lookup_or [] m i))) m) ids m"

fun has_history_query :: "signal \<Rightarrow> bool" where
  "has_history_query (Usage r) = False"
| "has_history_query OomFloor = True"

definition read_history ::
  "(signal \<Rightarrow> 'st range_query) \<Rightarrow> (signal \<Rightarrow> 'st range_query) \<Rightarrow> span \<Rightarrow> signal \<Rightarrow> shard \<Rightarrow> 'st \<Rightarrow>
   (go_error + (history_map \<Rightarrow> history_map)) \<times> 'st" where
  "read_history query hquery sp s sh =
     and_then (query s sh)
       (\<lambda>series. if has_history_query s
                 then and_then (hquery s sh) (\<lambda>extra. yields (set_history sp s (series @ extra) (Identities sh)))
                 else yields (set_history sp s series (Identities sh)))"

definition initial_history :: "int \<Rightarrow> inputs_request list \<Rightarrow> history_map" where
  "initial_history n reqs =
     fold (\<lambda>r m. if map_of m (ir_Identity r) = None then AList.update (ir_Identity r) (replicate (nat n) emptyInputs) m else m) reqs []"

definition FetchHistory ::
  "('st \<Rightarrow> bool) \<Rightarrow> int \<Rightarrow> (signal \<Rightarrow> int) \<Rightarrow> (signal \<Rightarrow> 'st range_query) \<Rightarrow> (signal \<Rightarrow> 'st range_query) \<Rightarrow> span \<Rightarrow>
   inputs_request list \<Rightarrow> 'st \<Rightarrow> (workload_identity, go_error + history_points) gomap \<times> 'st" where
  "FetchHistory cancelled maxSamples cost query hquery sp reqs st =
     (case fetchSignals cancelled maxSamples cost reqs (instants sp) (read_history query hquery sp) signals []
             (initial_history (instants sp) reqs, st) of
        (failed, hist, st') \<Rightarrow>
          (map (\<lambda>(i, inputs). (i, case map_of failed i of
                 Some err \<Rightarrow> Inl err
               | None \<Rightarrow> Inr (map (\<lambda>(k, inp). (instant sp (int k), inp)) (enumerate 0 inputs)))) hist, st'))"

definition liveOOM_history ::
  "(workload_identity \<Rightarrow> (string, oom_record option) gomap) \<Rightarrow> (workload_identity, go_error + history_points) gomap \<Rightarrow>
   (workload_identity, go_error + history_points) gomap" where
  "liveOOM_history live out =
     map (\<lambda>(i, r). (i, case r of Inl err \<Rightarrow> Inl err
                     | Inr pts \<Rightarrow> Inr (map (\<lambda>(t, inp). (t, withLiveOOMs inp (live i) t)) pts))) out"

section \<open>Ranges\<close>

record resource_range =
  rr_Usage :: "(time \<times> float64) list"
  rr_Request :: "(time \<times> float64) list"
  rr_Limit :: "(time \<times> float64) list"

type_synonym container_range = "(resource_kind, resource_range) gomap"
type_synonym containers_range = "(string, container_range) gomap"

definition empty_range :: resource_range where
  "empty_range = \<lparr> rr_Usage = [], rr_Request = [], rr_Limit = [] \<rparr>"

definition range_update :: "string \<Rightarrow> resource_kind \<Rightarrow> (resource_range \<Rightarrow> resource_range) \<Rightarrow> containers_range \<Rightarrow> containers_range" where
  "range_update name res f r =
     (let c = lookup_or [] r name in AList.update name (AList.update res (f (lookup_or empty_range c res)) c) r)"

definition range_add :: "'q env \<Rightarrow> resource_kind \<Rightarrow> 'q container \<Rightarrow> 'q request \<Rightarrow> resource_range \<Rightarrow> resource_range" where
  "range_add E res c req rr =
     (let rr1 = (case inputs_usage (rq_inputs req) (c_Name c) res of
                   Some v \<Rightarrow> rr\<lparr>rr_Usage := rr_Usage rr @ [(rq_now req, v)]\<rparr> | None \<Rightarrow> rr)
      in case fst (size_of_resource E res c req) of
           None \<Rightarrow> rr1
         | Some s \<Rightarrow>
             let rr2 = rr1\<lparr>rr_Request := rr_Request rr1 @ [(rq_now req, res_value E res (sz_request s))]\<rparr>
             in case l_value (sz_limit s) of
                  Some l \<Rightarrow> rr2\<lparr>rr_Limit := rr_Limit rr2 @ [(rq_now req, res_value E res l)]\<rparr>
                | None \<Rightarrow> rr2)"

definition range_at :: "'q env \<Rightarrow> 'q request \<Rightarrow> time \<times> workload_inputs \<Rightarrow> containers_range \<Rightarrow> containers_range" where
  "range_at E req p r =
     (let at' = req\<lparr>rq_inputs := snd p, rq_now := fst p\<rparr>
      in fold (\<lambda>(c, res). range_update (c_Name c) res (range_add E res c at')) (List.product (rq_containers req) resourceKinds) r)"

definition computeRange :: "'q env \<Rightarrow> 'q request \<Rightarrow> history_points \<Rightarrow> containers_range" where
  "computeRange E req h = fold (range_at E req) h []"

definition ComputeRange :: "'q env \<Rightarrow> 'q request \<Rightarrow> (go_error + history_points) option \<Rightarrow> go_error + containers_range \<times> history_points" where
  "ComputeRange E req fetched =
     (case fetched of
        Some (Inl err) \<Rightarrow> Inl err
      | Some (Inr h) \<Rightarrow> Inr (computeRange E req h, h)
      | None \<Rightarrow> Inr ([], []))"

definition read_at ::
  "'q env \<Rightarrow> 'q resources_configs \<Rightarrow> 'q container list \<Rightarrow> time \<times> workload_inputs \<Rightarrow> containers_range \<Rightarrow> containers_range" where
  "read_at E resources cs p r =
     fold (\<lambda>(c, res) r.
        case inputs_usage (snd p) (c_Name c) res of
          None \<Rightarrow> r
        | Some v \<Rightarrow> if KeepRequest (rc_Requests (res_config res resources)) then r
                    else range_update (c_Name c) res (\<lambda>rr. rr\<lparr>rr_Usage := rr_Usage rr @ [(fst p, v)]\<rparr>) r)
       (List.product cs resourceKinds) r"

text \<open>The kills a history recorded, each dated at the end of its step.\<close>

definition OOMKills :: "'q env \<Rightarrow> history_points \<Rightarrow> (time \<times> string) list" where
  "OOMKills E h =
     concat (map (\<lambda>(t, inp).
       let ooms = oom_values_of inp OomFloor
       in concat (map (\<lambda>name. replicate (nat (to_i64 (f2i64 E) (fround_int (KillsInStep (lookup_or zero_oom ooms name))))) (t, name))
                    (sort (gkeys ooms)))) h)"

end
