(* ===== verification/HistoryCorrect.thy ===== *)
theory HistoryCorrect
  imports History RecommenderCorrect
begin

text \<open>
  What a span and a range promise (\<open>internal/recommender/history.go\<close>): the number of instants and where they
  lie, that an instant is found again from its time, and that a range charts at each instant what a
  computation on the inputs as of it recommends.
\<close>

section \<open>Spans\<close>

lemma div_le_self:
  fixes a b :: int
  shows "0 \<le> a \<Longrightarrow> 0 < b \<Longrightarrow> a div b \<le> a"
  using zdiv_mono2 [of a 1 b] by simp

lemma sat64_below: "0 \<le> x \<Longrightarrow> x < 2 ^ 61 \<Longrightarrow> sat64 x = x"
  by (simp add: sat64_def)

lemma ceil_div:
  fixes a b :: int
  assumes "0 < b"
  shows "a \<le> b * ((a + b - 1) div b)" "b * ((a + b - 1) div b) < a + b"
proof -
  have "b * ((a + b - 1) div b) = a + b - 1 - (a + b - 1) mod b" by (simp add: minus_mod_eq_mult_div)
  then show "a \<le> b * ((a + b - 1) div b)" "b * ((a + b - 1) div b) < a + b"
    using pos_mod_bound [OF assms, of "a + b - 1"] pos_mod_sign [OF assms, of "a + b - 1"] by linarith+
qed

definition span_units :: "duration \<Rightarrow> duration \<Rightarrow> int" where
  "span_units d unit = (if d > 0 then max (((d + 298) div 299 + unit - 1) div unit) 1 else 1)"

lemma units_arith:
  fixes U f d unit :: int
  assumes "f \<le> U" "U < f + unit" "d \<le> 299 * f" "299 * f < d + 299" "0 < d"
  shows "d \<le> 299 * U \<and> 299 * (U - unit) < d \<and> U \<le> d + unit"
proof (intro conjI)
  show "d \<le> 299 * U" using assms(1,3) by linarith
  have v: "U - unit \<le> f - 1" and f: "299 * f \<le> d + 298" using assms(2,4) by simp_all
  have "299 * (U - unit) \<le> 299 * (f - 1)" by (rule mult_left_mono [OF v]) simp
  also have "299 * (f - 1) = 299 * f - 299" by simp
  finally show "299 * (U - unit) < d" using assms(4) by linarith
  have "299 * f \<le> 299 * d" using f assms(5) by linarith
  then show "U \<le> d + unit" using v by simp
qed

lemma span_units_bounds:
  assumes "0 \<le> d" "0 < unit"
  shows "1 \<le> span_units d unit" "d \<le> 299 * (span_units d unit * unit)"
    "span_units d unit * unit = unit \<or> 299 * (span_units d unit * unit - unit) < d" "span_units d unit * unit \<le> d + unit"
proof -
  let ?f = "(d + 298) div 299"
  have f: "d \<le> 299 * ?f" "299 * ?f < d + 299" using ceil_div [of 299 d] by simp_all
  have u: "?f \<le> unit * ((?f + unit - 1) div unit)" "unit * ((?f + unit - 1) div unit) < ?f + unit"
    using ceil_div [OF assms(2), of ?f] by simp_all
  show one: "1 \<le> span_units d unit" by (simp add: span_units_def)
  consider "span_units d unit = 1" "d \<le> 0 \<or> (?f + unit - 1) div unit \<le> 1" | "d > 0" "span_units d unit = (?f + unit - 1) div unit" "(?f + unit - 1) div unit > 1"
    by (cases "d > 0"; cases "(?f + unit - 1) div unit > 1") (simp_all add: span_units_def)
  then have "d \<le> 299 * (span_units d unit * unit) \<and>
    (span_units d unit * unit = unit \<or> 299 * (span_units d unit * unit - unit) < d) \<and> span_units d unit * unit \<le> d + unit"
  proof cases
    case 1
    have "?f \<le> unit"
    proof (cases "d \<le> 0")
      case True
      then show ?thesis using assms by simp
    next
      case False
      then have "unit * ((?f + unit - 1) div unit) \<le> unit * 1" using 1(2) assms(2) by (intro mult_left_mono) simp_all
      then show ?thesis using u(1) by linarith
    qed
    then show ?thesis using f(1) 1(1) assms by simp
  next
    case 2
    then have "span_units d unit * unit = unit * ((?f + unit - 1) div unit)" by (simp add: mult.commute)
    moreover have "d \<le> 299 * U \<and> 299 * (U - unit) < d \<and> U \<le> d + unit" if "?f \<le> U" "U < ?f + unit" for U
      by (rule units_arith [OF that f 2(1)])
    ultimately show ?thesis using u by metis
  qed
  then show "d \<le> 299 * (span_units d unit * unit)"
    "span_units d unit * unit = unit \<or> 299 * (span_units d unit * unit - unit) < d" "span_units d unit * unit \<le> d + unit" by blast+
qed

lemma SpanOf_plain:
  assumes "start \<le> end'" "end' - start < 2 ^ 61" "hint < 2 ^ 61"
  defines "unit \<equiv> max hint second" and "d \<equiv> end' - start"
  defines "step \<equiv> span_units d unit * unit"
  shows "SpanOf start end' hint = \<lparr> sp_Start = end' - d div step * step, sp_End = end', sp_Step = step \<rparr>"
    and "0 < step" "step < 2 ^ 62"
proof -
  have unit: "0 < unit" "unit < 2 ^ 61" using assms(3) by (simp_all add: unit_def max_def)
  have d: "0 \<le> d" "d < 2 ^ 61" using assms(1,2) by (simp_all add: d_def)
  note b = span_units_bounds [OF d(1) unit(1)]
  show step: "0 < step" "step < 2 ^ 62"
    using b(1,4) unit d by (simp_all add: step_def zero_less_mult_iff)
  have sub: "time_sub end' start = d" using d by (simp add: time_sub_def sat64_def d_def)
  have "wrap64 (d + maxHistoryPoints - 2) = d + 298" using d by (intro wrap64_id [THEN trans]) (simp_all add: in_int64_def maxHistoryPoints_def)
  moreover have f: "0 \<le> (d + 298) div 299" "(d + 298) div 299 < 2 ^ 61" using d by (simp_all add: pos_imp_zdiv_nonneg_iff)
  moreover have "wrap64 ((d + 298) div 299 + unit - 1) = (d + 298) div 299 + unit - 1"
    using f unit by (intro wrap64_id) (simp add: in_int64_def)
  ultimately have units: "(if d > 0 then let finest = go_div (wrap64 (d + maxHistoryPoints - 2)) (maxHistoryPoints - 1) in max (go_div (wrap64 (finest + unit - 1)) unit) 1 else 1) =
      span_units d unit"
    using d unit by (simp add: span_units_def go_div_nonneg maxHistoryPoints_def Let_def)
  have ws: "wrap64 (span_units d unit * unit) = step" using step by (simp add: step_def [symmetric] wrap64_id in_int64_def)
  have steps: "0 \<le> d div step" "0 \<le> d div step * step" using d(1) step(1) by (simp_all add: pos_imp_zdiv_nonneg_iff)
  have stepd: "d div step * step \<le> d" using minus_mod_eq_div_mult [of d step] pos_mod_sign [OF step(1), of d] by linarith
  have "d div step \<le> d div step * step" using steps(1) step(1) mult_left_mono [of 1 step "d div step"] by simp
  then have "d div step \<le> d" using stepd by linarith
  then have "wrap64 (- (d div step)) = - (d div step)" using steps d by (intro wrap64_id) (simp add: in_int64_def)
  moreover have "wrap64 (- (d div step) * step) = - (d div step * step)" using steps stepd d by (intro wrap64_id [THEN trans]) (simp_all add: in_int64_def)
  ultimately show "SpanOf start end' hint = \<lparr> sp_Start = end' - d div step * step, sp_End = end', sp_Step = step \<rparr>"
    using units ws sub steps(1) d step by (simp add: SpanOf_def Let_def unit_def [symmetric] go_div_nonneg max_absorb1)
qed

text \<open>A span of \<open>[start, end]\<close> ends at \<open>end\<close> and reads it at no more than 300 instants, at least one, a whole number
  of steps apart, the earliest less than a step after \<open>start\<close>. Its step is a whole multiple of the hint, or
  of a second, and the smallest one 299 of which cover the range.\<close>

theorem span_covers_range:
  assumes "start \<le> end'" "end' - start < 2 ^ 61" "hint < 2 ^ 61" "s = SpanOf start end' hint"
  shows "sp_End s = end' \<and> start \<le> sp_Start s \<and> sp_Start s - start < sp_Step s \<and> max hint second dvd sp_Step s \<and>
    instants s = (end' - start) div sp_Step s + 1 \<and> 1 \<le> instants s \<and> instants s \<le> maxHistoryPoints \<and>
    instant s 0 = sp_Start s \<and> instant s (instants s - 1) = end' \<and>
    end' - start \<le> 299 * sp_Step s \<and> (sp_Step s = max hint second \<or> 299 * (sp_Step s - max hint second) < end' - start)"
proof -
  let ?unit = "max hint second" and ?d = "end' - start"
  let ?step = "span_units ?d ?unit * ?unit"
  note sp = SpanOf_plain [OF assms(1-3)]
  have d: "0 \<le> ?d" "0 < ?unit" using assms(1) by simp_all
  note b = span_units_bounds [OF d]
  let ?n = "?d div ?step"
  have n: "0 \<le> ?n" "?n * ?step = ?d - ?d mod ?step" using d(1) sp(2) by (simp_all add: pos_imp_zdiv_nonneg_iff minus_mod_eq_div_mult)
  have m: "0 \<le> ?d mod ?step" "?d mod ?step < ?step" using sp(2) by simp_all
  have n299: "?n \<le> 299"
  proof (rule ccontr)
    assume "\<not> ?n \<le> 299"
    then have "300 * ?step \<le> ?n * ?step" using sp(2) by (intro mult_right_mono) simp_all
    then show False using b(2) n(2) m(1) sp(2) by linarith
  qed
  have f: "sp_Start s = end' - ?n * ?step" "sp_End s = end'" "sp_Step s = ?step" by (simp_all add: assms(4) sp(1))
  have small: "0 \<le> ?n * ?step" "?n * ?step < 2 ^ 61"
    by (rule mult_nonneg_nonneg [OF n(1) less_imp_le [OF sp(2)]]) (use n(2) m(1) assms(2) in linarith)
  have "time_sub (sp_End s) (sp_Start s) = sat64 (?n * ?step)" by (simp add: time_sub_def f)
  then have sub: "time_sub (sp_End s) (sp_Start s) = ?n * ?step" using sat64_below [OF small] by simp
  have inst: "instants s = ?n + 1"
  proof -
    have "go_div (?n * ?step) ?step = ?n" 
      using sp(2) by (intro trans [OF go_div_nonneg [OF small(1) sp(2)] nonzero_mult_div_cancel_right]) linarith
    moreover have "wrap64 (?n + 1) = ?n + 1" using n(1) n299 by (intro wrap64_id) (simp add: in_int64_def)
    ultimately show ?thesis by (simp add: instants_def sub f(3))
  qed
  have "wrap64 (?n * ?step) = ?n * ?step" using small by (intro wrap64_id in_int64_nonneg) simp_all
  then have last: "instant s (instants s - 1) = end'" by (simp add: instant_def inst f)
  have "start \<le> sp_Start s" "sp_Start s - start < sp_Step s" using n(2) m by (simp_all add: f)
  moreover have "?unit dvd sp_Step s" by (simp add: f)
  moreover have "instant s 0 = sp_Start s" by (simp add: instant_def wrap64_def)
  moreover have "instants s = ?d div sp_Step s + 1" unfolding inst f(3) by (rule refl)
  moreover have "1 \<le> instants s" "instants s \<le> maxHistoryPoints" using n(1) n299 inst by (simp_all only: maxHistoryPoints_def)
  moreover have "?d \<le> 299 * sp_Step s" "sp_Step s = ?unit \<or> 299 * (sp_Step s - ?unit) < ?d" using b(2,3) unfolding f(3) by blast+
  ultimately show ?thesis using f(2) last by blast
qed

text \<open>A finer step than the one chosen can stay within 300 instants: over 299.5 seconds, a step of one second
  reads 300 instants, and the span steps by two.\<close>

theorem span_not_always_finest:
  "let s = SpanOf 0 299500000000 0 in sp_Step s = 2 * second \<and> 299500000000 div second + 1 = maxHistoryPoints"
  by code_simp

text \<open>Every instant of a span is found again from its time, and a time that is found belongs to an instant of
  the span at most half a step away.\<close>

theorem span_index_nearest:
  assumes "sp_Start s \<le> sp_End s" "sp_End s - sp_Start s < 2 ^ 61" "0 < sp_Step s" "sp_Step s < 2 ^ 61"
  shows "(\<forall>i. 0 \<le> i \<and> i < instants s \<longrightarrow> span_index s (instant s i) = (i, True)) \<and>
    (\<forall>t i. \<bar>t - sp_Start s\<bar> < 2 ^ 62 \<and> span_index s t = (i, True) \<longrightarrow> 0 \<le> i \<and> i < instants s \<and> \<bar>t - instant s i\<bar> \<le> sp_Step s div 2)"
proof -
  let ?step = "sp_Step s" and ?h = "sp_Step s div 2" and ?r = "sp_End s - sp_Start s"
  have inst: "instants s = ?r div ?step + 1"
  proof -
    have "?r div ?step \<le> ?r" using assms(1,3) by (intro div_le_self) simp_all
    moreover have "0 \<le> ?r div ?step" using assms(1,3) by (simp add: pos_imp_zdiv_nonneg_iff)
    ultimately have "wrap64 (?r div ?step + 1) = ?r div ?step + 1" using assms(2) by (intro wrap64_id) (simp add: in_int64_def)
    moreover have "time_sub (sp_End s) (sp_Start s) = ?r" using assms(1,2) by (simp add: time_sub_def sat64_def)
    ultimately show ?thesis using assms(1,3) by (simp add: instants_def go_div_nonneg)
  qed
  have h: "0 \<le> ?h" "?step \<le> 2 * ?h + 1" "2 * ?h \<le> ?step" "go_div ?step 2 = ?h" using assms(3) by (simp_all add: go_div_nonneg)
  have low: "go_div (wrap64 (- ?step)) 2 = - ?h"
    using assms(3,4) by (simp add: wrap64_id in_int64_def go_div_def sgn_if)
  have at: "instant s i = sp_Start s + i * ?step" "0 \<le> i * ?step" "i * ?step \<le> ?r" if "0 \<le> i" "i < instants s" for i
  proof -
    have "i \<le> ?r div ?step" using that(2) inst by simp
    then have "i * ?step \<le> ?r div ?step * ?step" using assms(3) by (intro mult_right_mono) simp_all
    also have "\<dots> \<le> ?r" using pos_mod_sign [OF assms(3), of ?r] by (simp add: minus_mod_eq_div_mult [symmetric])
    finally show "i * ?step \<le> ?r" .
    moreover show "0 \<le> i * ?step" using that(1) assms(3) by simp
    ultimately show "instant s i = sp_Start s + i * ?step" using assms(2) by (simp add: instant_def wrap64_id in_int64_def)
  qed
  have idx: "span_index s t = ((t - sp_Start s + ?h) div ?step, sp_Start s - ?h \<le> t \<and> (t - sp_Start s + ?h) div ?step < instants s)"
    if "\<bar>t - sp_Start s\<bar> < 2 ^ 62" "sp_Start s - ?h \<le> t" for t
  proof -
    have "time_sub t (sp_Start s) = t - sp_Start s" using that(1) by (simp add: time_sub_def sat64_def)
    moreover have "wrap64 (t - sp_Start s + ?h) = t - sp_Start s + ?h" 
    proof (rule wrap64_id)
      have "?h < 2 ^ 61" "- (2 ^ 62) < t - sp_Start s" "t - sp_Start s < 2 ^ 62" using h(1,3) assms(4) that(1) by (linarith, simp_all add: abs_less_iff)
      then show "in_int64 (t - sp_Start s + ?h)" using h(1) by (simp add: in_int64_def)
    qed
    ultimately show ?thesis using that(2) assms(3) by (simp add: span_index_def Let_def h(4) low go_div_nonneg)
  qed
  have "span_index s (instant s i) = (i, True)" if i: "0 \<le> i" "i < instants s" for i
  proof -
    have "\<bar>instant s i - sp_Start s\<bar> < 2 ^ 62" "sp_Start s - ?h \<le> instant s i" using at [OF i] assms(2) h(1) by simp_all
    note x = idx [OF this]
    have "(i * ?step + ?h) div ?step = i" using h assms(3) by (simp add: div_pos_pos_trivial)
    then show ?thesis using x at [OF i] h(1) i(2) by simp
  qed
  moreover have "0 \<le> i \<and> i < instants s \<and> \<bar>t - instant s i\<bar> \<le> ?h" if t: "\<bar>t - sp_Start s\<bar> < 2 ^ 62" "span_index s t = (i, True)" for t i
  proof -
    have ge: "sp_Start s - ?h \<le> t" using t(2) by (simp add: span_index_def Let_def low)
    have i: "i = (t - sp_Start s + ?h) div ?step" "i < instants s" using idx [OF t(1) ge] t(2) by simp_all
    have "0 \<le> i" using ge assms(3) by (simp add: i(1) pos_imp_zdiv_nonneg_iff)
    moreover have "i * ?step = t - sp_Start s + ?h - (t - sp_Start s + ?h) mod ?step" by (simp add: i(1) minus_mod_eq_div_mult)
    moreover have "0 \<le> (t - sp_Start s + ?h) mod ?step" "(t - sp_Start s + ?h) mod ?step \<le> ?step - 1" using assms(3) by simp_all
    ultimately have "\<bar>t - instant s i\<bar> \<le> ?h" using at(1) [OF \<open>0 \<le> i\<close> i(2)] h(2) by linarith
    then show ?thesis using \<open>0 \<le> i\<close> i(2) by blast
  qed
  ultimately show ?thesis by blast
qed

section \<open>Ranges\<close>

definition series_of :: "containers_range \<Rightarrow> string \<Rightarrow> resource_kind \<Rightarrow> resource_range" where
  "series_of r name res = lookup_or empty_range (lookup_or [] r name) res"

lemma series_of_update:
  "series_of (range_update name res f r) n k = (if n = name \<and> k = res then f (series_of r name res) else series_of r n k)"
  by (simp add: series_of_def range_update_def lookup_or_def Let_def split: option.split)

lemma series_of_fold:
  assumes "distinct (map (\<lambda>(c, res). (c_Name c, res)) xs)"
  shows "series_of (fold (\<lambda>(c, res). range_update (c_Name c) res (g c res)) xs r) n k =
    (case find (\<lambda>(c, res). (c_Name c, res) = (n, k)) xs of Some (c, res) \<Rightarrow> g c res (series_of r n k) | None \<Rightarrow> series_of r n k)"
  using assms
proof (induction xs arbitrary: r)
  case (Cons x xs)
  obtain c res where x: "x = (c, res)" by fastforce
  have none: "find (\<lambda>(c', res'). (c_Name c', res') = (c_Name c, res)) xs = None"
    using Cons.prems unfolding x find_None_all by (force simp: image_iff)
  show ?case
  proof (cases "n = c_Name c \<and> k = res")
    case True
    then show ?thesis using Cons.IH [of "range_update (c_Name c) res (g c res) r"] Cons.prems none
      by (simp add: x series_of_update)
  next
    case False
    then have same: "series_of (range_update (c_Name c) res (g c res) r) n k = series_of r n k" by (auto simp: series_of_update)
    have "find (\<lambda>(c, res). (c_Name c, res) = (n, k)) (x # xs) = find (\<lambda>(c, res). (c_Name c, res) = (n, k)) xs" using False by (auto simp: x)
    then show ?thesis using Cons.IH [of "range_update (c_Name c) res (g c res) r", unfolded same] Cons.prems False by (auto simp: x)
  qed
qed simp

lemma product_names:
  "distinct (map c_Name cs) \<Longrightarrow> distinct (map (\<lambda>(c, res). (c_Name c, res)) (List.product cs resourceKinds))"
  by (induction cs) (auto simp: resourceKinds_def image_iff)

lemma find_product:
  assumes "distinct (map c_Name cs)" "c \<in> set cs" "res \<in> set resourceKinds"
  shows "find (\<lambda>(c', res'). (c_Name c', res') = (c_Name c, res)) (List.product cs resourceKinds) = Some (c, res)"
proof (cases "find (\<lambda>(c', res'). (c_Name c', res') = (c_Name c, res)) (List.product cs resourceKinds)")
  case None
  then show ?thesis using assms(2,3) unfolding find_None_all by auto
next
  case (Some x)
  then obtain c' where "x = (c', res)" "c' \<in> set cs" "c_Name c' = c_Name c" using find_Some_set [OF Some] by auto
  then show ?thesis using Some assms(1,2) by (auto simp: distinct_map inj_on_def)
qed

lemma series_at:
  assumes "distinct (map c_Name (rq_containers req))" "c \<in> set (rq_containers req)" "res \<in> set resourceKinds"
  shows "series_of (range_at E req p r) (c_Name c) res = range_add E res c (req\<lparr>rq_inputs := snd p, rq_now := fst p\<rparr>) (series_of r (c_Name c) res)"
  using series_of_fold [OF product_names [OF assms(1)], of "\<lambda>c res. range_add E res c (req\<lparr>rq_inputs := snd p, rq_now := fst p\<rparr>)" r "c_Name c" res]
    find_product [OF assms] by (simp add: range_at_def Let_def)

text \<open>What a computation recommends of a resource.\<close>

definition recommended :: "resource_kind \<Rightarrow> 'q container_recommendation \<Rightarrow> 'q option" where
  "recommended res rec = (if res = cpuResource then CPURequest rec else MemoryRequest rec)"

lemma computed_request:
  assumes "distinct (map c_Name (rq_containers req))" "c \<in> set (rq_containers req)" "res \<in> set resourceKinds"
  shows "map_option sz_request (fst (size_of_resource E res c req)) =
    (case map_of (rs_Recs (Compute E req)) (c_Name c) of None \<Rightarrow> None | Some rec \<Rightarrow> recommended res rec)"
proof -
  have just: "fst (size_of_resource E res' c req) = None" if "\<not> snd (size_of_resource E res' c req)" for res'
    using that by (auto simp: size_of_resource_def Let_def split: prod.splits if_splits)
  let ?P = "\<lambda>d. c_Name d = c_Name c \<and> computeContainer E d req \<noteq> None"
  have uniq: "d = c" if "d \<in> set (rq_containers req)" "c_Name d = c_Name c" for d
    using that assms(1,2) by (auto simp: distinct_map inj_on_def)
  have look: "map_of (rs_Recs (Compute E req)) (c_Name c) = map_option fst (computeContainer E c req)"
  proof (cases "find ?P (rev (rq_containers req))")
    case None
    then have "computeContainer E c req = None" using assms(2) unfolding find_None_all by (metis set_rev)
    then show ?thesis using None by (simp add: Compute_recs)
  next
    case (Some d)
    then have "d = c" using find_Some_set [OF Some] uniq by auto
    then show ?thesis using Some by (simp add: Compute_recs)
  qed
  show ?thesis
  proof (cases "computeContainer E c req")
    case None
    then have "fst (size_of_resource E res c req) = None" using just assms(3) by (auto simp: computeContainer_None resourceKinds_def)
    then show ?thesis using None look by simp
  next
    case (Some rt)
    then have "recommended res (fst rt) = map_option sz_request (fst (size_of_resource E res c req))" using assms(3)
      by (auto simp: computeContainer_def recommended_def resourceKinds_def empty_recommendation_def Let_def split: prod.splits option.splits if_splits)
    then show ?thesis using Some look by simp
  qed
qed

text \<open>C25. A range charts, for every container and resource, at each instant of the history exactly the request a
  computation on the inputs as of that instant recommends, in cores or bytes, and nothing where it
  recommends none; and the usage its signal read there.\<close>

theorem range_charts_computations:
  assumes "distinct (map c_Name (rq_containers req))" "c \<in> set (rq_containers req)" "res \<in> set resourceKinds"
  shows "rr_Request (series_of (computeRange E req h) (c_Name c) res) =
      concat (map (\<lambda>(t, inp). case map_of (rs_Recs (Compute E (req\<lparr>rq_inputs := inp, rq_now := t\<rparr>))) (c_Name c) of
                     None \<Rightarrow> []
                   | Some rec \<Rightarrow> (case recommended res rec of None \<Rightarrow> [] | Some q \<Rightarrow> [(t, res_value E res q)])) h) \<and>
    rr_Usage (series_of (computeRange E req h) (c_Name c) res) =
      concat (map (\<lambda>(t, inp). case inputs_usage inp (c_Name c) res of None \<Rightarrow> [] | Some v \<Rightarrow> [(t, v)]) h)"
proof -
  let ?at = "\<lambda>p. req\<lparr>rq_inputs := snd p, rq_now := fst p\<rparr>"
  let ?rq = "\<lambda>p. case map_of (rs_Recs (Compute E (?at p))) (c_Name c) of None \<Rightarrow> []
                   | Some rec \<Rightarrow> (case recommended res rec of None \<Rightarrow> [] | Some q \<Rightarrow> [(fst p, res_value E res q)])"
  let ?us = "\<lambda>p. case inputs_usage (snd p) (c_Name c) res of None \<Rightarrow> [] | Some v \<Rightarrow> [(fst p, v)]"
  have add: "rr_Request (range_add E res c (?at p) rr) = rr_Request rr @ ?rq p \<and> rr_Usage (range_add E res c (?at p) rr) = rr_Usage rr @ ?us p" for p rr
  proof -
    have "map_option sz_request (fst (size_of_resource E res c (?at p))) =
        (case map_of (rs_Recs (Compute E (?at p))) (c_Name c) of None \<Rightarrow> None | Some rec \<Rightarrow> recommended res rec)"
      by (rule computed_request) (use assms in simp_all)
    then show ?thesis
      by (cases "fst (size_of_resource E res c (?at p))") (auto simp: range_add_def Let_def split: option.splits)
  qed
  have "rr_Request (series_of (fold (range_at E req) h r) (c_Name c) res) = rr_Request (series_of r (c_Name c) res) @ concat (map ?rq h) \<and>
      rr_Usage (series_of (fold (range_at E req) h r) (c_Name c) res) = rr_Usage (series_of r (c_Name c) res) @ concat (map ?us h)" for r
    by (induction h arbitrary: r) (simp_all add: series_at [OF assms] add)
  from this [of "[]"] show ?thesis
    by (simp add: computeRange_def series_of_def lookup_or_def empty_range_def case_prod_unfold)
qed

section \<open>Witnesses\<close>

theorem span_covers_range_witness:
  "let s = SpanOf 0 (1000 * second) (2 * second) in instants s = 1000 * second div sp_Step s + 1 \<and> sp_Step s = 4 * second \<and> instants s \<le> maxHistoryPoints"
proof -
  have "(0::int) \<le> 1000 * second" "1000 * second - 0 < (2::int) ^ 61" "2 * second < (2::int) ^ 61" by simp_all
  from span_covers_range [OF this refl] have "instants (SpanOf 0 (1000 * second) (2 * second)) = 1000 * second div sp_Step (SpanOf 0 (1000 * second) (2 * second)) + 1"
    "instants (SpanOf 0 (1000 * second) (2 * second)) \<le> maxHistoryPoints" by simp_all
  moreover have "sp_Step (SpanOf 0 (1000 * second) (2 * second)) = 4 * second" by code_simp
  ultimately show ?thesis by (simp only: Let_def simp_thms)
qed

theorem span_index_nearest_witness:
  "let s = \<lparr> sp_Start = 0, sp_End = 10 * second, sp_Step = second \<rparr> in span_index s (instant s 3) = (3, True) \<and> span_index s (3400000000) = (3, True)"
proof -
  let ?s = "\<lparr> sp_Start = 0, sp_End = 10 * second, sp_Step = second \<rparr>"
  have "0 \<le> (3::int) \<and> 3 < instants ?s" by code_simp
  then have "span_index ?s (instant ?s 3) = (3, True)" using span_index_nearest [of ?s] by simp
  moreover have "span_index ?s 3400000000 = (3, True)" by code_simp
  ultimately show ?thesis by (simp only: Let_def simp_thms)
qed

theorem range_charts_computations_witness:
  "rr_Usage (series_of (computeRange fixed_env RecommenderCorrect.ex_request [(7, rq_inputs RecommenderCorrect.ex_request), (9, [])]) ''app'' memoryResource) = [(7, Fin 52428800)]"
proof -
  have "distinct (map c_Name (rq_containers RecommenderCorrect.ex_request))" "RecommenderCorrect.ex_container \<in> set (rq_containers RecommenderCorrect.ex_request)"
    "memoryResource \<in> set resourceKinds" "c_Name RecommenderCorrect.ex_container = ''app''"
    by (simp_all add: RecommenderCorrect.ex_request_def RecommenderCorrect.ex_container_def resourceKinds_def)
  note t = range_charts_computations [OF this(1-3), of fixed_env "[(7, rq_inputs RecommenderCorrect.ex_request), (9, [])]", THEN conjunct2, unfolded this(4)]
  show ?thesis unfolding t
    by (simp add: RecommenderCorrect.ex_request_def inputs_usage_def usageOf_def usage_values_of_def memoryUsage_def)
qed

end
