(* ===== verification/Assemble.thy ===== *)
theory Assemble
  imports Autoscaler Inventory HistoryCorrect PromInputsCorrect
begin

text \<open>
  Turning identities into Requests (\<open>internal/recommender/assemble.go\<close>): what each is sized for, the
  autoscaler it is shaped against and the inputs it is computed from, all as of one instant; and reading a
  range without computing (\<open>ReadRange\<close> of \<open>history.go\<close>).

  A fetcher of inputs is the interface \<open>inputs_fetcher\<close>, which Prometheus and its decoration with live kills
  both implement. The goroutines of \<open>readAutoscalers\<close>, one per namespace, run one after the other before the
  fetch; only reads of one namespace share state.
\<close>

section \<open>Containers\<close>

definition ContainersOf :: "'q right_sizing_spec \<Rightarrow> ('q, 'ls) identity \<Rightarrow> 'q container list" where
  "ContainersOf spec i =
     (if ExcludeInitContainers spec then in_Containers i else in_Containers i @ in_InitContainers i)"

definition sizedContainers :: "'q right_sizing_spec \<Rightarrow> ('q, 'ls) identity \<Rightarrow> workload_inputs \<Rightarrow> 'q container list" where
  "sizedContainers spec i inp =
     (if in_Containers i = [] \<and> in_InitContainers i = [] then observedContainers inp else ContainersOf spec i)"

section \<open>Autoscalers\<close>

definition autoscalerOf ::
  "(float64 \<Rightarrow> int) \<Rightarrow> 'st autoscaler_reader \<Rightarrow> ('q, 'ls) identity \<Rightarrow> namespaced_snapshot \<times> 'st \<Rightarrow>
   (autoscaler_group \<times> go_error option) \<times> namespaced_snapshot \<times> 'st" where
  "autoscalerOf conv c i w =
     (let members = Contributors i
      in if members = [] then ((no_group, None), w)
         else ForIdentity conv c (id_Namespace (in_Key i)) (OwnerKind (in_Key i)) (map (\<lambda>m. obj_Name (im_Object m)) members) w)"

text \<open>The identities at the places \<open>at\<close>, all of one namespace: after a failed read the others get its group.\<close>

fun readNamespace ::
  "(float64 \<Rightarrow> int) \<Rightarrow> 'st autoscaler_reader \<Rightarrow> ('q, 'ls) identity list \<Rightarrow> nat list \<Rightarrow> autoscaler_group option \<Rightarrow>
   autoscaler_group list \<Rightarrow> namespaced_snapshot \<times> 'st \<Rightarrow> autoscaler_group list \<times> namespaced_snapshot \<times> 'st" where
  "readNamespace conv c ids [] failed groups w = (groups, w)"
| "readNamespace conv c ids (k # ks) (Some g) groups w = readNamespace conv c ids ks (Some g) (groups[k := g]) w"
| "readNamespace conv c ids (k # ks) None groups w =
     (case autoscalerOf conv c (ids ! k) w of
        ((g, err), w') \<Rightarrow> readNamespace conv c ids ks (if err \<noteq> None then Some g else None) (groups[k := g]) w')"

definition places :: "('q, 'ls) identity list \<Rightarrow> string \<Rightarrow> nat list" where
  "places ids ns = filter (\<lambda>k. id_Namespace (in_Key (ids ! k)) = ns) [0..<length ids]"

definition readAutoscalers ::
  "(float64 \<Rightarrow> int) \<Rightarrow> 'st autoscaler_reader \<Rightarrow> ('q, 'ls) identity list \<Rightarrow> namespaced_snapshot \<times> 'st \<Rightarrow>
   autoscaler_group list \<times> namespaced_snapshot \<times> 'st" where
  "readAutoscalers conv c ids w =
     fold (\<lambda>ns (groups, w). readNamespace conv c ids (places ids ns) None groups w)
       (dedupe (map (\<lambda>i. id_Namespace (in_Key i)) ids)) (replicate (length ids) no_group, w)"

section \<open>Requests\<close>

type_synonym fetched = "(workload_identity, go_error + workload_inputs) gomap"
type_synonym ('q, 'st) fetch = "time \<Rightarrow> 'q resources_configs \<Rightarrow> inputs_request list \<Rightarrow> 'st \<Rightarrow> fetched \<times> 'st"

record 'q assembled =
  ab_Request :: "go_error + 'q request"
  ab_Autoscaler :: autoscaler_group

definition assemble_one ::
  "'q right_sizing_spec \<Rightarrow> 'q resources_configs \<Rightarrow> time \<Rightarrow> fetched \<Rightarrow> ('q, 'ls) identity \<Rightarrow> autoscaler_group \<Rightarrow> 'q assembled" where
  "assemble_one spec resources now out i g =
     (case lookup_or (Inr []) out (in_Key i) of
        Inl err \<Rightarrow> \<lparr> ab_Request = Inl err, ab_Autoscaler = g \<rparr>
      | Inr inp \<Rightarrow>
          \<lparr> ab_Request = Inr \<lparr> rq_containers = sizedContainers spec i inp, rq_resources = resources,
                               rq_coordination = AutoscalerCoordination spec, rq_autoInfo = gr_Info g, rq_inputs = inp,
                               rq_since = in_Since i, rq_now = now \<rparr>,
            ab_Autoscaler = g \<rparr>)"

definition request_for :: "'q right_sizing_spec \<Rightarrow> ('q, 'ls) identity \<Rightarrow> inputs_request" where
  "request_for spec i = \<lparr> ir_Identity = in_Key i, ir_Containers = int (length (ContainersOf spec i)) \<rparr>"

definition Assemble ::
  "'q env \<Rightarrow> ('q, 'st) fetch \<Rightarrow> 'st autoscaler_reader \<Rightarrow> ('st \<Rightarrow> time) \<Rightarrow> 'q right_sizing_spec \<Rightarrow> ('q, 'ls) identity list \<Rightarrow>
   'st \<Rightarrow> 'q assembled list \<times> 'st" where
  "Assemble E fetch c clock spec ids st =
     (let resources = WithDefaults E (ResourcesConfigs spec);
          now = clock st;
          (groups, built, st1) = readAutoscalers (f2i64 E) c ids ([], st);
          (out, st2) = fetch now resources (map (request_for spec) ids) st1
      in (map (\<lambda>(i, g). assemble_one spec resources now out i g) (zip ids groups), st2))"

definition ReadRange ::
  "'q env \<Rightarrow> 'q right_sizing_spec \<Rightarrow> ('q, 'ls) identity \<Rightarrow> (go_error + history_points) option \<Rightarrow> go_error + containers_range \<times> history_points" where
  "ReadRange E spec i fetched =
     (case fetched of
        Some (Inl err) \<Rightarrow> Inl err
      | Some (Inr h) \<Rightarrow>
          Inr (fold (\<lambda>p. read_at E (WithDefaults E (ResourcesConfigs spec)) (sizedContainers spec i (snd p)) p) h [], h)
      | None \<Rightarrow> Inr ([], []))"

text \<open>The two fetchers: Prometheus, and one with the kills the watcher holds merged in.\<close>

definition prom_fetch ::
  "'q env \<Rightarrow> (string \<Rightarrow> duration option) \<Rightarrow> ('st \<Rightarrow> bool) \<Rightarrow> int \<Rightarrow>
   (time \<Rightarrow> 'q resources_configs \<Rightarrow> signal \<Rightarrow> 'st shard_query) \<Rightarrow> ('q, 'st) fetch" where
  "prom_fetch E parse cancelled maxSamples query now cfg reqs =
     FetchInputs cancelled maxSamples (samplesPerContainer E parse cfg) (query now cfg) reqs"

definition live_fetch ::
  "('st \<Rightarrow> workload_identity \<Rightarrow> (string, oom_record option) gomap) \<Rightarrow> ('q, 'st) fetch \<Rightarrow> ('q, 'st) fetch" where
  "live_fetch live fetch now cfg reqs st =
     (case fetch now cfg reqs st of (out, st') \<Rightarrow> (liveOOM_inputs (live st') now out, st'))"

section \<open>Autoscalers keep their places\<close>

lemma length_readNamespace: "length (fst (readNamespace conv c ids ks failed groups w)) = length groups"
  by (induction conv c ids ks failed groups w rule: readNamespace.induct) (simp_all split: prod.split)

lemma length_readAutoscalers: "length (fst (readAutoscalers conv c ids w)) = length ids"
proof -
  have "length (fst (fold (\<lambda>ns (groups, w). readNamespace conv c ids (places ids ns) None groups w) nss gw)) = length (fst gw)" for nss gw
  proof (induction nss arbitrary: gw)
    case (Cons ns nss)
    then show ?case by (simp add: case_prod_unfold length_readNamespace)
  qed simp
  then show ?thesis by (simp add: readAutoscalers_def)
qed

section \<open>The fetcher's contract\<close>

text \<open>Every identity asked for is answered, whatever else is asked with it.\<close>

locale inputs_fetcher =
  fixes fetch :: "('q, 'st) fetch"
  assumes one_answer: "r \<in> set reqs \<Longrightarrow> \<exists>a. map_of (fst (fetch now cfg reqs st)) (ir_Identity r) = Some a"
begin

text \<open>An identity is assembled from the answer it got, never from another's or from none.\<close>

lemma assembled_from_answer:
  assumes "Assemble E fetch c clock spec ids st = (out, st')"
  defines "res \<equiv> WithDefaults E (ResourcesConfigs spec)"
  shows "length out = length ids \<and>
    (\<exists>groups st1. length groups = length ids \<and>
      (\<forall>k < length ids. \<exists>a.
        map_of (fst (fetch (clock st) res (map (request_for spec) ids) st1)) (in_Key (ids ! k)) = Some a \<and>
        out ! k = \<lparr> ab_Request = map_sum id (\<lambda>inp.
            \<lparr> rq_containers = sizedContainers spec (ids ! k) inp, rq_resources = res, rq_coordination = AutoscalerCoordination spec,
              rq_autoInfo = gr_Info (groups ! k), rq_inputs = inp, rq_since = in_Since (ids ! k), rq_now = clock st \<rparr>) a,
          ab_Autoscaler = groups ! k \<rparr>))"
proof -
  let ?reqs = "map (request_for spec) ids"
  obtain groups built st1 where ra: "readAutoscalers (f2i64 E) c ids ([], st) = (groups, built, st1)" by (metis prod.collapse)
  obtain f st2 where f: "fetch (clock st) res ?reqs st1 = (f, st2)" by fastforce
  have len: "length groups = length ids" using length_readAutoscalers [of "f2i64 E" c ids "([], st)"] ra by simp
  have out: "out = map (\<lambda>(i, g). assemble_one spec res (clock st) f i g) (zip ids groups)"
    using assms(1) ra f by (simp add: Assemble_def Let_def res_def)
  have "\<exists>a. map_of f (in_Key (ids ! k)) = Some a \<and>
      out ! k = \<lparr> ab_Request = map_sum id (\<lambda>inp.
            \<lparr> rq_containers = sizedContainers spec (ids ! k) inp, rq_resources = res, rq_coordination = AutoscalerCoordination spec,
              rq_autoInfo = gr_Info (groups ! k), rq_inputs = inp, rq_since = in_Since (ids ! k), rq_now = clock st \<rparr>) a,
          ab_Autoscaler = groups ! k \<rparr>" if k: "k < length ids" for k
  proof -
    have "request_for spec (ids ! k) \<in> set ?reqs" using k by simp
    then obtain a where a: "map_of f (in_Key (ids ! k)) = Some a"
      using one_answer [of "request_for spec (ids ! k)" ?reqs "clock st" res st1] f by (auto simp: request_for_def)
    have "out ! k = assemble_one spec res (clock st) f (ids ! k) (groups ! k)" using k out len by simp
    then show ?thesis using a by (simp add: assemble_one_def lookup_or_def split: sum.split)
  qed
  then show ?thesis using len out f by (intro conjI exI [of _ groups] exI [of _ st1]) simp_all
qed

end

section \<open>The fetchers implement it\<close>

lemma run_shard_keeps_keys:
  assumes "run_shard cancelled (read_inputs query s) sh (m, st) = (err, m', st')"
  shows "set (gkeys m) \<subseteq> set (gkeys m')"
proof -
  have "m' = m \<or> (\<exists>samples. m' = set_inputs s samples (Identities sh) m)"
    using assms unfolding run_shard_def read_inputs_def by (auto split: prod.splits sum.splits if_splits)
  then show ?thesis using keys_set_inputs by blast
qed

lemma run_singles_keeps_keys:
  "run_singles cancelled (read_inputs query s) is es (m, st) = (es', m', st') \<Longrightarrow> set (gkeys m) \<subseteq> set (gkeys m')"
proof (induction "is" arbitrary: es m st)
  case (Cons i "is")
  obtain err m1 st1 where run: "run_shard cancelled (read_inputs query s) (single i) (m, st) = (err, m1, st1)" by (metis prod.collapse)
  then have "run_singles cancelled (read_inputs query s) is (case err of None \<Rightarrow> es | Some e \<Rightarrow> AList.update i e es) (m1, st1) = (es', m', st')"
    using Cons.prems by (cases err) simp_all
  from subset_trans [OF run_shard_keeps_keys [OF run] Cons.IH [OF this]] show ?case .
qed simp

lemma run_or_split_keeps_keys:
  assumes "run_or_split cancelled (read_inputs query s) sh es (m, st) = (es', m', st')"
  shows "set (gkeys m) \<subseteq> set (gkeys m')"
proof -
  obtain err m1 st1 where run: "run_shard cancelled (read_inputs query s) sh (m, st) = (err, m1, st1)" by (metis prod.collapse)
  note first = run_shard_keeps_keys [OF run]
  consider (whole) "m' = m1" | (split) "run_singles cancelled (read_inputs query s) (Identities sh) es (m1, st1) = (es', m', st')"
    using assms unfolding run_or_split_def run by (cases err) (simp_all split: if_splits)
  then show ?thesis
  proof cases
    case split
    from subset_trans [OF first run_singles_keeps_keys [OF split]] show ?thesis .
  qed (use first in \<open>simp only:\<close>)
qed

lemma eachShard_keeps_keys:
  "eachShard cancelled (read_inputs query s) shs es (m, st) = (es', m', st') \<Longrightarrow> set (gkeys m) \<subseteq> set (gkeys m')"
proof (induction shs arbitrary: es m st)
  case (Cons sh shs)
  obtain es1 m1 st1 where run: "run_or_split cancelled (read_inputs query s) sh es (m, st) = (es1, m1, st1)" by (metis prod.collapse)
  then have "eachShard cancelled (read_inputs query s) shs es1 (m1, st1) = (es', m', st')" using Cons.prems by simp
  from subset_trans [OF run_or_split_keeps_keys [OF run] Cons.IH [OF this]] show ?case .
qed simp

lemma fetchSignals_keeps_keys:
  "fetchSignals cancelled maxSamples cost reqs points (read_inputs query) ss failed (m, st) = (failed', m', st') \<Longrightarrow>
   set (gkeys m) \<subseteq> set (gkeys m')"
proof (induction ss arbitrary: failed m st)
  case (Cons s ss)
  let ?shs = "fst (plan maxSamples reqs (wrap64 (cost s * points)))"
  obtain es1 m1 st1 where run: "eachShard cancelled (read_inputs query s) ?shs [] (m, st) = (es1, m1, st1)" by (metis prod.collapse)
  then have "fetchSignals cancelled maxSamples cost reqs points (read_inputs query) ss (fail_required s es1 failed) (m1, st1) = (failed', m', st')"
    using Cons.prems by simp
  from subset_trans [OF eachShard_keeps_keys [OF run] Cons.IH [OF this]] show ?case .
qed simp

lemma FetchInputs_answers:
  assumes "r \<in> set reqs"
  shows "\<exists>a. map_of (fst (FetchInputs cancelled maxSamples cost query reqs st)) (ir_Identity r) = Some a"
proof -
  obtain failed m st' where run: "fetchSignals cancelled maxSamples cost reqs 1 (read_inputs query) signals [] (initial_inputs reqs, st) = (failed, m, st')"
    by (metis prod.collapse)
  have "map_of (initial_inputs reqs) (ir_Identity r) = Some emptyInputs" using assms by (simp add: map_of_initial)
  then have "ir_Identity r \<in> set (gkeys m)"
    by (rule subsetD [OF fetchSignals_keeps_keys [OF run] map_of_Some_key])
  then obtain inp where "map_of m (ir_Identity r) = Some inp" using map_of_None_key [of m "ir_Identity r"] by blast
  then show ?thesis by (simp add: FetchInputs_def run map_of_map_value)
qed

lemma live_answers:
  "map_of (fst (live_fetch live fetch now cfg reqs st)) i =
   map_option (map_sum id (\<lambda>inp. withLiveOOMs inp (live (snd (fetch now cfg reqs st)) i) now)) (map_of (fst (fetch now cfg reqs st)) i)"
proof -
  have "map_sum (id :: go_error \<Rightarrow> go_error) f = (\<lambda>r. case r of Inl err \<Rightarrow> Inl err | Inr inp \<Rightarrow> Inr (f inp))" for f :: "workload_inputs \<Rightarrow> workload_inputs"
    by (auto simp: fun_eq_iff split: sum.split)
  then show ?thesis by (cases "fetch now cfg reqs st") (simp add: live_fetch_def liveOOM_inputs_def map_of_map_value)
qed

interpretation prom: inputs_fetcher "prom_fetch E parse cancelled maxSamples query"
  for E parse cancelled maxSamples query
  by unfold_locales (simp add: prom_fetch_def FetchInputs_answers)

interpretation live: inputs_fetcher "live_fetch live (prom_fetch E parse cancelled maxSamples query)"
  for live E parse cancelled maxSamples query
  by unfold_locales (use prom.one_answer in \<open>fastforce simp: live_answers\<close>)

section \<open>What is assembled\<close>

text \<open>C26. Every identity gets one Assembled, in its place: the error of its own fetch, or a Request as of the
  one instant of the call, with the Policy's resources defaulted, the containers the Policy has it sized for
  and the inputs of its own answer with the kills the watcher holds of it merged in.\<close>

theorem assembled_from_own_answer:
  fixes prom :: "('q, 'st) fetch"
  assumes "Assemble E (live_fetch live prom) c clock spec ids st = (out, st')"
    and prom: "prom = prom_fetch E parse cancelled maxSamples query"
  shows "length out = length ids \<and>
    (\<exists>groups st1. let (answers, st2) = prom (clock st) (WithDefaults E (ResourcesConfigs spec)) (map (request_for spec) ids) st1 in
      \<forall>k < length ids. \<exists>a. map_of answers (in_Key (ids ! k)) = Some a \<and>
        out ! k = \<lparr> ab_Request = map_sum id (\<lambda>inp.
            (let seen = withLiveOOMs inp (live st2 (in_Key (ids ! k))) (clock st) in
              \<lparr> rq_containers = sizedContainers spec (ids ! k) seen, rq_resources = WithDefaults E (ResourcesConfigs spec),
                rq_coordination = AutoscalerCoordination spec, rq_autoInfo = gr_Info (groups ! k), rq_inputs = seen,
                rq_since = in_Since (ids ! k), rq_now = clock st \<rparr>)) a,
          ab_Autoscaler = groups ! k \<rparr>)"
proof -
  let ?res = "WithDefaults E (ResourcesConfigs spec)" and ?reqs = "map (request_for spec) ids"
  from live.assembled_from_answer [OF assms(1) [unfolded prom]]
  obtain groups st1 where len: "length out = length ids" and all: "\<And>k. k < length ids \<Longrightarrow> \<exists>a.
        map_of (fst (live_fetch live prom (clock st) ?res ?reqs st1)) (in_Key (ids ! k)) = Some a \<and>
        out ! k = \<lparr> ab_Request = map_sum id (\<lambda>inp.
            \<lparr> rq_containers = sizedContainers spec (ids ! k) inp, rq_resources = ?res, rq_coordination = AutoscalerCoordination spec,
              rq_autoInfo = gr_Info (groups ! k), rq_inputs = inp, rq_since = in_Since (ids ! k), rq_now = clock st \<rparr>) a,
          ab_Autoscaler = groups ! k \<rparr>"
    unfolding prom by blast
  obtain answers st2 where p: "prom (clock st) ?res ?reqs st1 = (answers, st2)" by fastforce
  have "\<exists>a. map_of answers (in_Key (ids ! k)) = Some a \<and>
        out ! k = \<lparr> ab_Request = map_sum id (\<lambda>inp.
            (let seen = withLiveOOMs inp (live st2 (in_Key (ids ! k))) (clock st) in
              \<lparr> rq_containers = sizedContainers spec (ids ! k) seen, rq_resources = ?res,
                rq_coordination = AutoscalerCoordination spec, rq_autoInfo = gr_Info (groups ! k), rq_inputs = seen,
                rq_since = in_Since (ids ! k), rq_now = clock st \<rparr>)) a,
          ab_Autoscaler = groups ! k \<rparr>" if "k < length ids" for k
    using all [OF that] unfolding live_answers p fst_conv snd_conv map_option_eq_Some
    by (auto simp: Let_def sum.map_comp comp_def id_def)
  then show ?thesis using p by (intro conjI [OF len] exI [of _ groups] exI [of _ st1]) simp
qed

section \<open>Witness\<close>

definition ex_update_types :: update_types where
  "ex_update_types = \<lparr> ut_Deployment = None, ut_StatefulSet = None, ut_DaemonSet = None, ut_CronJob = None, ut_Job = None,
     ut_ArgoRollout = None, ut_Pod = None \<rparr>"

definition ex_spec :: "fixed right_sizing_spec" where
  "ex_spec = \<lparr> rs_Update = \<lparr> us_Types = ex_update_types, IgnoreSafeToEvict = False \<rparr>,
     ResourcesConfigs = \<lparr> rs_CPU = ex_resource, rs_Memory = ex_resource \<rparr>,
     AutoscalerCoordination = \<lparr> ac_Enabled = False, ReplicaBudgetAnchor = None \<rparr>, ExcludeInitContainers = True, RecommendOnly = False \<rparr>"

definition ex_identity :: "string \<Rightarrow> (fixed, unit) identity" where
  "ex_identity name = (new_identity (ir_Identity (PromInputsCorrect.ex_request name)))\<lparr>in_Containers := [RecommenderCorrect.ex_container],
     in_InitContainers := [RecommenderCorrect.ex_container\<lparr>c_Name := ''setup''\<rparr>]\<rparr>"

definition ex_no_autoscalers :: "unit autoscaler_reader" where
  "ex_no_autoscalers = \<lparr> ar_ListHPAs = (\<lambda>_ st. (Inr [], st)), ar_ListScaledObjects = (\<lambda>_ st. (Inr [], st)), ar_NotServed = (\<lambda>_. False) \<rparr>"

abbreviation ex_prom :: "(fixed, unit) fetch" where
  "ex_prom \<equiv> prom_fetch fixed_env (\<lambda>_. None) (\<lambda>_. False) 50000000 (\<lambda>now cfg s sh st. (ex_answers sh, st))"

text \<open>Prometheus fails for \<open>b\<close>: \<open>a\<close> is assembled all the same, without its init container.\<close>

theorem assembled_from_own_answer_witness:
  "\<exists>ra rb. fst (Assemble fixed_env (live_fetch (\<lambda>_ _. []) ex_prom) ex_no_autoscalers (\<lambda>_. 7) ex_spec [ex_identity ''a'', ex_identity ''b''] ()) = [ra, rb] \<and>
     ab_Request rb = Inl (Wrap (Plain ''over budget'')) \<and>
     (\<exists>q. ab_Request ra = Inr q \<and> map c_Name (rq_containers q) = [''app''] \<and> rq_now q = 7)"
proof -
  let ?ids = "[ex_identity ''a'', ex_identity ''b'']"
  let ?res = "WithDefaults fixed_env (ResourcesConfigs ex_spec)" and ?reqs = "map (request_for ex_spec) ?ids"
  obtain out where out: "Assemble fixed_env (live_fetch (\<lambda>_ _. []) ex_prom) ex_no_autoscalers (\<lambda>_. 7) ex_spec ?ids () = (out, ())"
    by (rule that [of "fst _"]) (simp add: prod_eq_iff)
  have b: "case map_of (fst (ex_prom 7 ?res ?reqs ())) (in_Key (ex_identity ''b'')) of
      Some (Inl e) \<Rightarrow> e = Wrap (Plain ''over budget'') | _ \<Rightarrow> False" by code_simp
  have a: "case map_of (fst (ex_prom 7 ?res ?reqs ())) (in_Key (ex_identity ''a'')) of Some (Inr inp) \<Rightarrow> True | _ \<Rightarrow> False" by code_simp
  obtain answers st2 where p: "ex_prom 7 ?res ?reqs () = (answers, st2)" by (rule prod.exhaust)
  from assembled_from_own_answer [OF out refl] obtain groups st1 where len: "length out = length ?ids"
    and all: "let (answers, st2) = ex_prom 7 ?res ?reqs st1 in \<forall>k < length ?ids. \<exists>x. map_of answers (in_Key (?ids ! k)) = Some x \<and>
        out ! k = \<lparr> ab_Request = map_sum id (\<lambda>inp.
            (let seen = withLiveOOMs inp [] 7 in
              \<lparr> rq_containers = sizedContainers ex_spec (?ids ! k) seen, rq_resources = ?res,
                rq_coordination = AutoscalerCoordination ex_spec, rq_autoInfo = gr_Info (groups ! k), rq_inputs = seen,
                rq_since = in_Since (?ids ! k), rq_now = 7 \<rparr>)) x,
          ab_Autoscaler = groups ! k \<rparr>" by blast
  have one: "st1 = ()" by simp
  obtain inp where in_a: "map_of answers (in_Key (ex_identity ''a'')) = Some (Inr inp)"
    using a [unfolded p fst_conv] by (auto split: option.splits sum.splits)
  have in_b: "map_of answers (in_Key (ex_identity ''b'')) = Some (Inl (Wrap (Plain ''over budget'')))"
    using b [unfolded p fst_conv] by (auto split: option.splits sum.splits)
  from len obtain ra rb where two: "out = [ra, rb]" by (auto simp: length_Suc_conv)
  have "map c_Name (sizedContainers ex_spec (ex_identity ''a'') inp) = [''app'']" for inp
    by (simp add: sizedContainers_def ContainersOf_def ex_spec_def ex_identity_def RecommenderCorrect.ex_container_def)
  then show ?thesis using all [unfolded one p Let_def prod.case, rule_format, of 0] all [unfolded one p Let_def prod.case, rule_format, of 1]
      in_a in_b
    unfolding out fst_conv two by auto
qed

end
