(* ===== verification/Publisher.thy ===== *)
theory Publisher
  imports Ledger Autoscaler
begin

text \<open>
  The series the controller exposes (\<open>internal/controller/publisher.go\<close> and the vectors of \<open>metrics.go\<close>):
  every pass publishes what it desires and deletes what it published before that nothing desires any more.

  The registry maps a series, a vector and its label values, to its value; a method holds the lock
  throughout. A set of series is a HOL set; what the code deletes one by one is one restriction of the
  registry. Maps are read in the order of their association list.
\<close>

section \<open>Vectors and series\<close>

datatype metric_vec =
    reconcileTotal | reconcileDuration | recommendedCPUCores | recommendedMemoryBytes | templateCPUCores
  | templateMemoryBytes | workloadPods | workloadStalePods | workloadRetryState | workloadRetryAttempts
  | policyWorkloadCount | policyBlockedCount | autoscalerPresent | autoscalerTargetConfigured
  | recommendationSkipped | oomFloorApplied | oomObservedTotal | oomReactionLatencySeconds
  | recycleSuppressedTotal | policyBatchRequested | policyBatchResolved | policyBatchFailuresTotal
  | groupAutoscalerMismatchTotal

record series =
  sr_vec :: metric_vec
  sr_values :: "string list"

datatype metric_value = Gauge float64 | Counter float64 | Histogram "float64 list"

type_synonym registry = "(series, metric_value) gomap"
type_synonym series_set = "series set"

definition series_delete :: "series_set \<Rightarrow> registry \<Rightarrow> registry" where
  "series_delete xs reg = filter (\<lambda>(x, _). x \<notin> xs) reg"

definition track :: "metric_vec \<Rightarrow> string list \<Rightarrow> series_set \<Rightarrow> series_set" where
  "track vec lv s = insert \<lparr> sr_vec = vec, sr_values = lv \<rparr> s"

definition ss_set :: "metric_vec \<Rightarrow> float64 \<Rightarrow> string list \<Rightarrow> series_set \<times> registry \<Rightarrow> series_set \<times> registry" where
  "ss_set vec v lv w = (track vec lv (fst w), AList.update \<lparr> sr_vec = vec, sr_values = lv \<rparr> (Gauge v) (snd w))"

definition ss_add :: "metric_vec \<Rightarrow> float64 \<Rightarrow> string list \<Rightarrow> series_set \<times> registry \<Rightarrow> series_set \<times> registry" where
  "ss_add vec v lv w =
     (let x = \<lparr> sr_vec = vec, sr_values = lv \<rparr>;
          old = (case map_of (snd w) x of Some (Counter c) \<Rightarrow> c | _ \<Rightarrow> Fin 0)
      in (track vec lv (fst w), AList.update x (Counter (fadd old v)) (snd w)))"

definition ss_observe :: "metric_vec \<Rightarrow> float64 \<Rightarrow> string list \<Rightarrow> series_set \<times> registry \<Rightarrow> series_set \<times> registry" where
  "ss_observe vec v lv w =
     (let x = \<lparr> sr_vec = vec, sr_values = lv \<rparr>;
          old = (case map_of (snd w) x of Some (Histogram vs) \<Rightarrow> vs | _ \<Rightarrow> [])
      in (track vec lv (fst w), AList.update x (Histogram (old @ [v])) (snd w)))"

definition ss_replace :: "series_set \<Rightarrow> series_set \<Rightarrow> registry \<Rightarrow> series_set \<times> registry" where
  "ss_replace s prev reg = (s, series_delete (prev - s) reg)"

section \<open>Publications\<close>

record 'q container_series =
  cs_name :: string
  cs_kind :: string
  cs_rec :: "'q container_recommendation"
  cs_template :: "'q resource_list"

record 'q member_series =
  ms_kind :: string
  ms_name :: string
  ms_containers :: "'q container_series list"
  ms_suppressed :: "(string, int) gomap"

record oom_floor_applied =
  of_container :: string
  of_reaction :: duration
  of_live :: bool

record computed =
  cm_autoscaler :: "autoscaler_info option"
  cm_mismatch :: bool
  cm_oomFloors :: "oom_floor_applied list"

record 'q identity_series =
  is_key :: workload_identity
  is_health :: health
  is_computed :: computed
  is_tooYoung :: bool
  is_members :: "'q member_series list"

record 'q publication =
  pb_live :: int
  pb_blocked :: int
  pb_requested :: int
  pb_resolved :: int
  pb_fetchFailed :: int
  pb_identities :: "'q identity_series list"

section \<open>The publisher\<close>

record published =
  pu_gauges :: series_set
  pu_counters :: series_set

record policy_published = published +
  po_identities :: "workload_identity set"

record publisher =
  pr_policies :: "(string, policy_published) gomap"
  pr_identities :: "(workload_identity, published) gomap"
  pr_registry :: registry

definition new_published :: published where "new_published = \<lparr> pu_gauges = {}, pu_counters = {} \<rparr>"

definition policyLocked :: "publisher \<Rightarrow> string \<Rightarrow> policy_published" where
  "policyLocked p policy = lookup_or \<lparr> pu_gauges = {}, pu_counters = {}, po_identities = {} \<rparr> (pr_policies p) policy"

definition identityLocked :: "publisher \<Rightarrow> workload_identity \<Rightarrow> published" where
  "identityLocked p key = lookup_or new_published (pr_identities p) key"

definition includedLocked :: "publisher \<Rightarrow> workload_identity \<Rightarrow> bool" where
  "includedLocked p key = list_ex (\<lambda>(_, pol). key \<in> po_identities pol) (pr_policies p)"

text \<open>The identities of \<open>ids\<close> no Policy includes any more lose their series and their entry.\<close>

definition dropLocked :: "workload_identity set \<Rightarrow> publisher \<Rightarrow> publisher" where
  "dropLocked ids p =
     (let gone = filter (\<lambda>(key, _). key \<in> ids \<and> \<not> includedLocked p key) (pr_identities p)
      in p\<lparr>pr_identities := filter (\<lambda>(key, _). \<not> (key \<in> ids \<and> \<not> includedLocked p key)) (pr_identities p),
           pr_registry := fold (\<lambda>(_, i) reg. series_delete (pu_counters i) (series_delete (pu_gauges i) reg)) gone (pr_registry p)\<rparr>)"

definition cores :: "'q env \<Rightarrow> 'q \<Rightarrow> float64" where
  "cores E q = fdiv (of_i64 (q_milli_value E q)) (Fin 1000)"

text \<open>\<open>Duration.Seconds\<close>.\<close>

definition duration_Seconds :: "duration \<Rightarrow> float64" where
  "duration_Seconds d = fadd (of_i64 (go_div d second)) (fdiv (of_i64 (d - go_div d second * second)) (Fin 1000000000))"

definition step_String :: "apply_step \<Rightarrow> string" where
  "step_String s =
     (case s of StepPrometheus \<Rightarrow> ''prometheus'' | StepPatch \<Rightarrow> ''patch'' | StepResize \<Rightarrow> ''resize'' | StepStore \<Rightarrow> ''store'')"

definition set_if :: "bool \<Rightarrow> metric_vec \<Rightarrow> float64 \<Rightarrow> string list \<Rightarrow> series_set \<times> registry \<Rightarrow> series_set \<times> registry" where
  "set_if b vec v lv w = (if b then ss_set vec v lv w else w)"

definition publish_container ::
  "'q env \<Rightarrow> string \<Rightarrow> string \<Rightarrow> 'q member_series \<Rightarrow> 'q container_series \<Rightarrow> series_set \<times> registry \<Rightarrow> series_set \<times> registry" where
  "publish_container E policy ns m c w0 =
     (let lv = [ns, ms_kind m, ms_name m, cs_name c, cs_kind c, policy];
          w1 = (case CPURequest (cs_rec c) of Some q \<Rightarrow> ss_set recommendedCPUCores (cores E q) lv w0 | None \<Rightarrow> w0);
          w2 = (case MemoryRequest (cs_rec c) of Some q \<Rightarrow> ss_set recommendedMemoryBytes (of_i64 (q_value E q)) lv w1 | None \<Rightarrow> w1);
          w3 = (case map_of (cs_template c) ResourceCPU of
                  Some q \<Rightarrow> set_if (\<not> q_is_zero E q) templateCPUCores (cores E q) lv w2 | None \<Rightarrow> w2)
      in case map_of (cs_template c) ResourceMemory of
           Some q \<Rightarrow> set_if (\<not> q_is_zero E q) templateMemoryBytes (of_i64 (q_value E q)) lv w3 | None \<Rightarrow> w3)"

definition identity_gauges :: "'q identity_series \<Rightarrow> published \<Rightarrow> registry \<Rightarrow> series_set \<times> registry" where
  "identity_gauges s i reg =
     (let lv = [id_Namespace (is_key s), OwnerKind (is_key s), OwnerName (is_key s)]; h = is_health s;
          w1 = (if h_Measured h
                then ss_set workloadStalePods (of_i64 (pc_Stale (h_Pods h))) lv (ss_set workloadPods (of_i64 (pc_Total (h_Pods h))) lv ({}, reg))
                else ({}, reg));
          w2 = (case h_BlockedOn h of Some step \<Rightarrow> ss_set workloadRetryState (Fin 1) (lv @ [step_String step]) w1 | None \<Rightarrow> w1)
      in case cm_autoscaler (is_computed s) of
           None \<Rightarrow> (fst w2 \<union> Set.filter (\<lambda>x. sr_vec x = autoscalerPresent \<or> sr_vec x = autoscalerTargetConfigured) (pu_gauges i), snd w2)
         | Some a \<Rightarrow>
             if ai_Kind a \<noteq> KindNone
             then fold (\<lambda>(res, v). ss_set autoscalerTargetConfigured (of_i64 v) (lv @ [kind_String (ai_Kind a), res])) (ConfiguredTargets a)
                    (ss_set autoscalerPresent (Fin 1) (lv @ [kind_String (ai_Kind a)]) w2)
             else w2)"

definition identity_counters :: "'q identity_series \<Rightarrow> series_set \<times> registry \<Rightarrow> series_set \<times> registry" where
  "identity_counters s w0 =
     (let lv = [id_Namespace (is_key s), OwnerKind (is_key s), OwnerName (is_key s)];
          w1 = (if health_Failed (is_health s) then ss_add workloadRetryAttempts (of_i64 (h_Attempts (is_health s))) lv w0 else w0);
          w2 = fold (\<lambda>(res, n). ss_add recycleSuppressedTotal (of_i64 n) (lv @ [res])) (concat (map ms_suppressed (is_members s))) w1;
          w3 = (if is_tooYoung s then ss_add recommendationSkipped (Fin 1) (lv @ [''workload_too_young'']) w2 else w2);
          w4 = fold (\<lambda>f w. let w' = ss_add oomFloorApplied (Fin 1) (lv @ [of_container f]) w
                           in if of_live f then ss_observe oomReactionLatencySeconds (duration_Seconds (of_reaction f)) lv w' else w')
                 (cm_oomFloors (is_computed s)) w3
      in if cm_mismatch (is_computed s) then ss_add groupAutoscalerMismatchTotal (Fin 1) lv w4 else w4)"

definition publishIdentity :: "'q identity_series \<Rightarrow> publisher \<Rightarrow> publisher" where
  "publishIdentity s p =
     (let i = identityLocked p (is_key s);
          (g, reg1) = identity_gauges s i (pr_registry p);
          (g', reg2) = ss_replace g (pu_gauges i) reg1;
          (cs, reg3) = identity_counters s (pu_counters i, reg2)
      in p\<lparr>pr_identities := AList.update (is_key s) \<lparr> pu_gauges = g', pu_counters = cs \<rparr> (pr_identities p), pr_registry := reg3\<rparr>)"

text \<open>What one identity adds: its members' gauges, which are the Policy's, and its own series.\<close>

definition publish_one :: "'q env \<Rightarrow> string \<Rightarrow> 'q identity_series \<Rightarrow> series_set \<times> publisher \<Rightarrow> series_set \<times> publisher" where
  "publish_one E policy s w =
     (case w of (g, p) \<Rightarrow>
        (case fold (\<lambda>(m, c). publish_container E policy (id_Namespace (is_key s)) m c)
                (concat (map (\<lambda>m. map (\<lambda>c. (m, c)) (ms_containers m)) (is_members s))) (g, pr_registry p) of
           (g', reg) \<Rightarrow> (g', publishIdentity s (p\<lparr>pr_registry := reg\<rparr>))))"

definition publish :: "'q env \<Rightarrow> string \<Rightarrow> 'q publication \<Rightarrow> publisher \<Rightarrow> publisher" where
  "publish E policy pub p =
     (let pol = policyLocked p policy;
          (g1, reg1) = ss_set policyBatchResolved (of_i64 (pb_resolved pub)) [policy]
                         (ss_set policyBatchRequested (of_i64 (pb_requested pub)) [policy]
                           (ss_set policyBlockedCount (of_i64 (pb_blocked pub)) [policy]
                             (ss_set policyWorkloadCount (of_i64 (pb_live pub)) [policy] ({}, pr_registry p))));
          (cs, reg2) = (if pb_fetchFailed pub > 0
                        then ss_add policyBatchFailuresTotal (of_i64 (pb_fetchFailed pub)) [policy] (pu_counters pol, reg1)
                        else (pu_counters pol, reg1));
          (g2, p1) = fold (publish_one E policy) (pb_identities pub) (g1, p\<lparr>pr_registry := reg2\<rparr>);
          (g3, reg3) = ss_replace g2 (pu_gauges pol) (pr_registry p1);
          pol' = \<lparr> pu_gauges = g3, pu_counters = cs, po_identities = set (map is_key (pb_identities pub)) \<rparr>
      in dropLocked (po_identities pol) (p1\<lparr>pr_policies := AList.update policy pol' (pr_policies p1), pr_registry := reg3\<rparr>))"

definition reconciled :: "string \<Rightarrow> string \<Rightarrow> duration \<Rightarrow> publisher \<Rightarrow> publisher" where
  "reconciled policy result took p =
     (let pol = policyLocked p policy;
          (cs, reg) = ss_observe reconcileDuration (duration_Seconds took) [policy]
                        (ss_add reconcileTotal (Fin 1) [policy, result] (pu_counters pol, pr_registry p))
      in p\<lparr>pr_policies := AList.update policy (pol\<lparr>pu_counters := cs\<rparr>) (pr_policies p), pr_registry := reg\<rparr>)"

definition observedOOM :: "string \<Rightarrow> workload_identity \<Rightarrow> string \<Rightarrow> publisher \<Rightarrow> publisher" where
  "observedOOM policy key container p =
     (let pol = policyLocked p policy; i = identityLocked p key;
          (cs, reg) = ss_add oomObservedTotal (Fin 1) [id_Namespace key, OwnerKind key, OwnerName key, container] (pu_counters i, pr_registry p)
      in p\<lparr>pr_policies := AList.update policy (pol\<lparr>po_identities := insert key (po_identities pol)\<rparr>) (pr_policies p),
           pr_identities := AList.update key (i\<lparr>pu_counters := cs\<rparr>) (pr_identities p), pr_registry := reg\<rparr>)"

definition forget :: "string \<Rightarrow> publisher \<Rightarrow> publisher" where
  "forget policy p =
     (case map_of (pr_policies p) policy of
        None \<Rightarrow> p
      | Some pol \<Rightarrow>
          dropLocked (po_identities pol)
            (p\<lparr>pr_policies := AList.delete policy (pr_policies p),
               pr_registry := series_delete (pu_counters pol) (series_delete (pu_gauges pol) (pr_registry p))\<rparr>))"

definition no_series :: publisher where
  "no_series = \<lparr> pr_policies = [], pr_identities = [], pr_registry = [] \<rparr>"

end
