(* ===== verification/PublisherCorrect.thy ===== *)
theory PublisherCorrect
  imports Publisher
begin

text \<open>
  No series outlives what it describes: after any passes, kills and deleted Policies, the series exposed are
  exactly those some Policy or identity published last, and an identity has series exactly while some Policy
  includes it.
\<close>

section \<open>Whose series\<close>

text \<open>A vector's series are a Policy's, whose name is a label, or an identity's, named by the first three.\<close>

definition series_owner :: "series \<Rightarrow> workload_identity + string" where
  "series_owner x =
     (if sr_vec x \<in> {reconcileTotal, reconcileDuration, policyWorkloadCount, policyBlockedCount, policyBatchRequested,
                     policyBatchResolved, policyBatchFailuresTotal} then Inr (sr_values x ! 0)
      else if sr_vec x \<in> {recommendedCPUCores, recommendedMemoryBytes, templateCPUCores, templateMemoryBytes} then Inr (sr_values x ! 5)
      else Inl \<lparr> id_Namespace = sr_values x ! 0, OwnerKind = sr_values x ! 1, OwnerName = sr_values x ! 2 \<rparr>)"

definition is_gauge :: "metric_vec \<Rightarrow> bool" where
  "is_gauge v \<longleftrightarrow> v \<in> {recommendedCPUCores, recommendedMemoryBytes, templateCPUCores, templateMemoryBytes, workloadPods, workloadStalePods,
     workloadRetryState, policyWorkloadCount, policyBlockedCount, autoscalerPresent, autoscalerTargetConfigured, policyBatchRequested,
     policyBatchResolved}"

definition owner_series :: "workload_identity + string \<Rightarrow> bool \<Rightarrow> series set" where
  "owner_series o' b = {x. series_owner x = o' \<and> is_gauge (sr_vec x) = b}"

definition exposed :: "registry \<Rightarrow> series set" where
  "exposed reg = set (gkeys reg)"

definition pick :: "bool \<Rightarrow> 'z published_scheme option \<Rightarrow> series set" where
  "pick b o' = (case o' of None \<Rightarrow> {} | Some p \<Rightarrow> if b then pu_gauges p else pu_counters p)"

text \<open>The series an owner is recorded to have published.\<close>

definition owned :: "publisher \<Rightarrow> workload_identity + string \<Rightarrow> bool \<Rightarrow> series set" where
  "owned p o' b = (case o' of Inl key \<Rightarrow> pick b (map_of (pr_identities p) key) | Inr policy \<Rightarrow> pick b (map_of (pr_policies p) policy))"

definition all_included :: "publisher \<Rightarrow> workload_identity set" where
  "all_included p = {key. \<exists>policy pol. map_of (pr_policies p) policy = Some pol \<and> key \<in> po_identities pol}"

definition other_included :: "string \<Rightarrow> publisher \<Rightarrow> workload_identity set" where
  "other_included policy p = {key. \<exists>q pol. q \<noteq> policy \<and> map_of (pr_policies p) q = Some pol \<and> key \<in> po_identities pol}"

lemma all_included_split: "all_included p = po_identities (policyLocked p policy) \<union> other_included policy p"
proof
  show "all_included p \<subseteq> po_identities (policyLocked p policy) \<union> other_included policy p"
  proof
    fix key
    assume "key \<in> all_included p"
    then obtain q pol where q: "map_of (pr_policies p) q = Some pol" "key \<in> po_identities pol" by (auto simp: all_included_def)
    show "key \<in> po_identities (policyLocked p policy) \<union> other_included policy p"
    proof (cases "q = policy")
      case True
      then show ?thesis using q by (simp add: policyLocked_def lookup_or_def)
    next
      case False
      then show ?thesis using q unfolding other_included_def by blast
    qed
  qed
  show "po_identities (policyLocked p policy) \<union> other_included policy p \<subseteq> all_included p"
    by (auto simp: all_included_def other_included_def policyLocked_def lookup_or_def split: option.splits)
qed

lemma all_included_update:
  "pr_policies p' = AList.update policy pol (pr_policies p) \<Longrightarrow> all_included p' = po_identities pol \<union> other_included policy p"
  by (auto simp: all_included_def other_included_def)

definition pub_inv :: "publisher \<Rightarrow> bool" where
  "pub_inv p \<longleftrightarrow> wf_map (pr_policies p) \<and> wf_map (pr_identities p) \<and>
     (\<forall>o' b. exposed (pr_registry p) \<inter> owner_series o' b = owned p o' b) \<and>
     set (gkeys (pr_identities p)) = all_included p"

section \<open>Writing series of one owner\<close>

text \<open>From \<open>w\<close> to \<open>w'\<close> only series of \<open>X\<close> were written, each tracked.\<close>

definition writes :: "series set \<Rightarrow> series_set \<times> registry \<Rightarrow> series_set \<times> registry \<Rightarrow> bool" where
  "writes X w w' \<longleftrightarrow> (\<exists>D \<subseteq> X. fst w' = fst w \<union> D \<and> exposed (snd w') = exposed (snd w) \<union> D)"

lemma writes_refl [simp]: "writes X w w"
  unfolding writes_def by (rule exI [of _ "{}"]) simp

lemma writes_trans: "writes X w w' \<Longrightarrow> writes X w' w'' \<Longrightarrow> writes X w w''"
  unfolding writes_def by (elim exE conjE) (rule_tac x = "D \<union> Da" in exI, auto)

lemma writes_fold: "(\<And>x w. x \<in> set xs \<Longrightarrow> writes X w (f x w)) \<Longrightarrow> writes X w (fold f xs w)"
  by (induction xs arbitrary: w) (simp_all, metis writes_trans)

lemma writes_one: "x \<in> X \<Longrightarrow> fst w' = insert x (fst w) \<Longrightarrow> exposed (snd w') = insert x (exposed (snd w)) \<Longrightarrow> writes X w w'"
  unfolding writes_def by (rule exI [of _ "{x}"]) auto

lemma writes_ops:
  assumes "\<lparr> sr_vec = vec, sr_values = lv \<rparr> \<in> X"
  shows "writes X w (ss_set vec v lv w)" "writes X w (ss_add vec v lv w)" "writes X w (ss_observe vec v lv w)" "writes X w (set_if c vec v lv w)"
  using assms by (auto intro!: writes_one simp: ss_set_def ss_add_def ss_observe_def set_if_def track_def Let_def exposed_def keys_update simp del: set_map)

lemma exposed_delete: "exposed (series_delete xs reg) = exposed reg - xs"
  by (auto simp: series_delete_def exposed_def)

section \<open>Each operation's writes\<close>

lemma publish_container_writes:
  "writes (owner_series (Inr policy) True) w (publish_container E policy ns m c w)"
proof -
  let ?lv = "[ns, ms_kind m, ms_name m, cs_name c, cs_kind c, policy]" and ?X = "owner_series (Inr policy) True"
  have in_X: "\<lparr> sr_vec = vec, sr_values = ?lv \<rparr> \<in> ?X"
    if "vec \<in> {recommendedCPUCores, recommendedMemoryBytes, templateCPUCores, templateMemoryBytes}" for vec
    using that by (auto simp: owner_series_def series_owner_def is_gauge_def)
  note ops = writes_ops [OF in_X]
  show ?thesis unfolding publish_container_def Let_def
    by (auto split: option.split intro!: ops ops [THEN writes_trans [rotated]] writes_trans [OF writes_trans [OF writes_trans]])
qed

abbreviation identity_labels :: "workload_identity \<Rightarrow> string list" where
  "identity_labels key \<equiv> [id_Namespace key, OwnerKind key, OwnerName key]"

lemma identity_series_in:
  "vec \<in> {workloadPods, workloadStalePods, workloadRetryState, workloadRetryAttempts, autoscalerPresent, autoscalerTargetConfigured,
     recommendationSkipped, oomFloorApplied, oomObservedTotal, oomReactionLatencySeconds, recycleSuppressedTotal, groupAutoscalerMismatchTotal} \<Longrightarrow>
   \<lparr> sr_vec = vec, sr_values = id_Namespace key # OwnerKind key # OwnerName key # rest \<rparr> \<in> owner_series (Inl key) (is_gauge vec)"
  by (cases key) (auto simp: owner_series_def series_owner_def)

lemma identity_gauges_writes:
  fixes s :: "'q identity_series"
  assumes "pu_gauges i \<subseteq> exposed reg \<inter> owner_series (Inl (is_key s)) True"
  shows "writes (owner_series (Inl (is_key s)) True) ({}, reg) (identity_gauges s i reg)"
proof -
  let ?X = "owner_series (Inl (is_key s)) True" and ?lv = "identity_labels (is_key s)"
  define w2 where "w2 = (let h = is_health s; w1 = (if h_Measured h
                then ss_set workloadStalePods (of_i64 (pc_Stale (h_Pods h))) ?lv (ss_set workloadPods (of_i64 (pc_Total (h_Pods h))) ?lv ({}, reg))
                else ({}, reg))
      in case h_BlockedOn h of Some step \<Rightarrow> ss_set workloadRetryState (Fin 1) (?lv @ [step_String step]) w1 | None \<Rightarrow> w1)"
  have in_X: "\<lparr> sr_vec = vec, sr_values = id_Namespace (is_key s) # OwnerKind (is_key s) # OwnerName (is_key s) # rest \<rparr> \<in> ?X"
    if "vec \<in> {workloadPods, workloadStalePods, workloadRetryState, autoscalerPresent, autoscalerTargetConfigured}" for vec rest
    using that identity_series_in [of vec "is_key s" rest] by (auto simp: is_gauge_def)
  note set = writes_ops(1) [OF in_X]
  have base: "writes ?X ({}, reg) w2" unfolding w2_def Let_def
    by (auto split: option.split intro: writes_trans [OF writes_trans [OF set set] set] writes_trans [OF set set] set)
  show ?thesis
  proof (cases "cm_autoscaler (is_computed s)")
    case None
    let ?kept = "Set.filter (\<lambda>x. sr_vec x = autoscalerPresent \<or> sr_vec x = autoscalerTargetConfigured) (pu_gauges i)"
    have eq: "identity_gauges s i reg = (fst w2 \<union> ?kept, snd w2)" by (simp add: identity_gauges_def None w2_def Let_def)
    from base obtain D where "D \<subseteq> ?X" "fst w2 = D" "exposed (snd w2) = exposed reg \<union> D" by (auto simp: writes_def)
    then show ?thesis unfolding eq writes_def using assms by (intro exI [of _ "D \<union> ?kept"]) auto
  next
    case (Some a)
    have "writes ?X w2 (fold (\<lambda>(res, v). ss_set autoscalerTargetConfigured (of_i64 v) (?lv @ [kind_String (ai_Kind a), res])) (ConfiguredTargets a)
        (ss_set autoscalerPresent (Fin 1) (?lv @ [kind_String (ai_Kind a)]) w2))"
      unfolding append.simps by (rule writes_trans [OF set writes_fold]) (auto intro: set)
    then show ?thesis using base by (auto simp: identity_gauges_def Some w2_def Let_def intro: writes_trans)
  qed
qed

lemma identity_counters_writes: "writes (owner_series (Inl (is_key s)) False) w (identity_counters s w)"
proof -
  let ?X = "owner_series (Inl (is_key s)) False" and ?lv = "identity_labels (is_key s)"
  have in_X: "\<lparr> sr_vec = vec, sr_values = id_Namespace (is_key s) # OwnerKind (is_key s) # OwnerName (is_key s) # rest \<rparr> \<in> ?X"
    if "vec \<in> {workloadRetryAttempts, recommendationSkipped, oomFloorApplied, oomReactionLatencySeconds, recycleSuppressedTotal,
      groupAutoscalerMismatchTotal}" for vec rest
    using that identity_series_in [of vec "is_key s" rest] by (auto simp: is_gauge_def)
  note add = writes_ops(2) [OF in_X] and observe = writes_ops(3) [OF in_X]
  have floors: "writes ?X w (fold (\<lambda>f w. let w' = ss_add oomFloorApplied (Fin 1) (?lv @ [of_container f]) w
      in if of_live f then ss_observe oomReactionLatencySeconds (duration_Seconds (of_reaction f)) ?lv w' else w') fs w)" for fs w
    by (rule writes_fold) (auto simp: Let_def intro: writes_trans [OF add observe] add)
  have supp: "writes ?X w (fold (\<lambda>(res, n). ss_add recycleSuppressedTotal (of_i64 n) (?lv @ [res])) rs w)" for rs w
    by (rule writes_fold) (auto intro: add)
  have first: "writes ?X w (if c then ss_add workloadRetryAttempts v ?lv w else w)" for c v w by (simp add: add)
  have young: "writes ?X w (if c then ss_add recommendationSkipped v (?lv @ [r]) w else w)" for c v r w by (simp add: add)
  have last: "writes ?X w (if c then ss_add groupAutoscalerMismatchTotal v ?lv w else w)" for c v w by (simp add: add)
  show ?thesis unfolding identity_counters_def Let_def
    by (rule writes_trans [OF writes_trans [OF writes_trans [OF writes_trans [OF first supp] young] floors [unfolded Let_def]] last])
qed

section \<open>Replacing an owner's series\<close>

lemma owner_series_disjoint: "(o1, b1) \<noteq> (o2, b2) \<Longrightarrow> owner_series o1 b1 \<inter> owner_series o2 b2 = {}"
  by (auto simp: owner_series_def)

lemma writes_elsewhere:
  assumes "writes (owner_series o1 b1) w w'" "(o1, b1) \<noteq> (o2, b2)"
  shows "exposed (snd w') \<inter> owner_series o2 b2 = exposed (snd w) \<inter> owner_series o2 b2"
proof -
  from assms(1) obtain D where "D \<subseteq> owner_series o1 b1" "exposed (snd w') = exposed (snd w) \<union> D" by (auto simp: writes_def)
  then show ?thesis using owner_series_disjoint [OF assms(2)] by auto
qed

lemma writes_here:
  assumes "writes (owner_series o1 b1) w w'" "exposed (snd w) \<inter> owner_series o1 b1 = fst w"
  shows "exposed (snd w') \<inter> owner_series o1 b1 = fst w'"
proof -
  from assms(1) obtain D where "D \<subseteq> owner_series o1 b1" "fst w' = fst w \<union> D" "exposed (snd w') = exposed (snd w) \<union> D"
    by (auto simp: writes_def)
  then show ?thesis using assms(2) by auto
qed

lemma writes_replace:
  assumes "writes (owner_series o1 b1) ({}, reg) w'" "exposed reg \<inter> owner_series o1 b1 = prev"
  shows "exposed (snd (ss_replace (fst w') prev (snd w'))) \<inter> owner_series o2 b2 =
    (if (o2, b2) = (o1, b1) then fst w' else exposed reg \<inter> owner_series o2 b2)"
proof (cases "(o2, b2) = (o1, b1)")
  case True
  from assms(1) obtain D where "D \<subseteq> owner_series o1 b1" "fst w' = D" "exposed (snd w') = exposed reg \<union> D" by (auto simp: writes_def)
  then show ?thesis using True assms(2) unfolding ss_replace_def snd_conv exposed_delete by auto
next
  case False
  then have "prev \<inter> owner_series o2 b2 = {}" using assms(2) owner_series_disjoint [of o1 b1 o2 b2] by auto
  then have "exposed (snd (ss_replace (fst w') prev (snd w'))) \<inter> owner_series o2 b2 = exposed (snd w') \<inter> owner_series o2 b2"
    unfolding ss_replace_def snd_conv exposed_delete by blast
  then show ?thesis using False writes_elsewhere [OF assms(1), of o2 b2] by auto
qed

text \<open>\<open>f\<close> is what the owners other than the identity are to have exposed.\<close>

lemma publishIdentity_agrees:
  fixes s :: "'q identity_series"
  assumes "\<And>o' b. exposed (pr_registry p) \<inter> owner_series o' b = f o' b" "\<And>b. f (Inl (is_key s)) b = owned p (Inl (is_key s)) b"
  defines "p' \<equiv> publishIdentity s p"
  shows "exposed (pr_registry p') \<inter> owner_series o' b = (if o' = Inl (is_key s) then owned p' o' b else f o' b)"
    and "pr_policies p' = pr_policies p"
    and "o' \<noteq> Inl (is_key s) \<Longrightarrow> owned p' o' b = owned p o' b"
    and "set (gkeys (pr_identities p')) = insert (is_key s) (set (gkeys (pr_identities p)))"
    and "wf_map (pr_identities p) \<Longrightarrow> wf_map (pr_identities p')"
proof -
  let ?me = "Inl (is_key s) :: workload_identity + string"
  define i where "i = identityLocked p (is_key s)"
  define w1 where "w1 = identity_gauges s i (pr_registry p)"
  define w2 where "w2 = ss_replace (fst w1) (pu_gauges i) (snd w1)"
  define w3 where "w3 = identity_counters s (pu_counters i, snd w2)"
  have i: "pu_gauges i = f ?me True" "pu_counters i = f ?me False"
    using assms(2) by (auto simp: i_def identityLocked_def owned_def pick_def lookup_or_def new_published_def split: option.splits)
  have p': "p' = p\<lparr>pr_identities := AList.update (is_key s) \<lparr> pu_gauges = fst w2, pu_counters = fst w3 \<rparr> (pr_identities p), pr_registry := snd w3\<rparr>"
    by (simp add: p'_def publishIdentity_def w1_def w2_def w3_def i_def Let_def case_prod_unfold)
  have g: "fst w2 = fst w1" by (simp add: w2_def ss_replace_def)
  have one: "writes (owner_series ?me True) ({}, pr_registry p) w1"
    unfolding w1_def by (rule identity_gauges_writes) (use assms(1) [of ?me True] i in auto)
  have two: "exposed (snd w2) \<inter> owner_series o2 b2 = (if (o2, b2) = (?me, True) then fst w1 else f o2 b2)" for o2 b2
    using writes_replace [OF one, of "pu_gauges i" o2 b2] assms(1) i by (simp add: w2_def)
  have three: "writes (owner_series ?me False) (pu_counters i, snd w2) w3" unfolding w3_def by (rule identity_counters_writes)
  have counters: "exposed (snd w3) \<inter> owner_series ?me False = fst w3"
    using writes_here [OF three] two [of ?me False] i by simp
  have gauges: "exposed (snd w3) \<inter> owner_series ?me True = fst w1"
    using writes_elsewhere [OF three, of ?me True] two [of ?me True] by simp
  have rest: "exposed (snd w3) \<inter> owner_series o2 b2 = f o2 b2" if "o2 \<noteq> ?me" for o2 b2
    using writes_elsewhere [OF three, of o2 b2] two [of o2 b2] that by simp
  show "exposed (pr_registry p') \<inter> owner_series o' b = (if o' = ?me then owned p' o' b else f o' b)"
    using counters gauges rest g by (cases b) (auto simp: p' owned_def pick_def)
  show "pr_policies p' = pr_policies p" by (simp add: p')
  show "o' \<noteq> ?me \<Longrightarrow> owned p' o' b = owned p o' b" by (cases o') (auto simp: p' owned_def)
  show "set (gkeys (pr_identities p')) = insert (is_key s) (set (gkeys (pr_identities p)))" unfolding p' by (simp add: keys_update del: set_map)
  show "wf_map (pr_identities p) \<Longrightarrow> wf_map (pr_identities p')" by (simp add: p')
qed

section \<open>Dropping identities\<close>

lemma included_iff: "wf_map (pr_policies p) \<Longrightarrow> includedLocked p key \<longleftrightarrow> key \<in> all_included p"
  by (auto simp: includedLocked_def all_included_def list_ex_iff wf_map_mem)

lemma exposed_drop:
  "exposed (fold (\<lambda>(_, i) reg. series_delete (pu_counters i) (series_delete (pu_gauges i) reg)) gone reg) =
   exposed reg - (\<Union>(_, i)\<in>set gone. pu_gauges i \<union> pu_counters i)"
  by (induction gone arbitrary: reg) (auto simp: exposed_delete)

lemma map_of_filter_key: "map_of (filter (\<lambda>(k, _). P k) m) k = (if P k then map_of m k else None)"
  by (induction m) auto

lemma dropLocked_inv:
  assumes "wf_map (pr_policies p)" "wf_map (pr_identities p)" "\<And>o' b. exposed (pr_registry p) \<inter> owner_series o' b = owned p o' b"
    and "set (gkeys (pr_identities p)) = all_included p \<union> X" "X \<subseteq> ids"
  shows "pub_inv (dropLocked ids p)"
proof -
  let ?gone = "\<lambda>key. key \<in> ids \<and> \<not> includedLocked p key"
  let ?lost = "filter (\<lambda>(key, _). ?gone key) (pr_identities p)"
  define p' where "p' = dropLocked ids p"
  have p': "pr_policies p' = pr_policies p" "pr_identities p' = filter (\<lambda>(key, _). \<not> ?gone key) (pr_identities p)"
    by (simp_all add: p'_def dropLocked_def Let_def)
  have reg: "exposed (pr_registry p') = exposed (pr_registry p) - (\<Union>(_, i)\<in>set ?lost. pu_gauges i \<union> pu_counters i)"
    unfolding exposed_drop [symmetric] p'_def dropLocked_def Let_def by simp
  have lost: "x \<in> (\<Union>(_, i)\<in>set ?lost. pu_gauges i \<union> pu_counters i) \<longleftrightarrow> (\<exists>key b. ?gone key \<and> x \<in> owned p (Inl key) b)" for x
  proof -
    have "(\<exists>key i. (key, i) \<in> set (pr_identities p) \<and> ?gone key \<and> (x \<in> pu_gauges i \<or> x \<in> pu_counters i)) \<longleftrightarrow>
        (\<exists>key. ?gone key \<and> (x \<in> owned p (Inl key) True \<or> x \<in> owned p (Inl key) False))"
      by (auto simp: owned_def pick_def wf_map_mem [OF assms(2), symmetric] split: option.splits)
    then show ?thesis by (auto simp: ex_bool_eq)
  qed
  have mine: "x \<in> owner_series o' b" if "x \<in> owned p o' b" for x o' b using assms(3) [of o' b] that by blast
  have "exposed (pr_registry p') \<inter> owner_series o' b = owned p' o' b" for o' b
  proof (cases "\<exists>key. o' = Inl key \<and> ?gone key")
    case True
    then obtain key where key: "o' = Inl key" "?gone key" by blast
    then have "owned p' o' b = {}" by (simp add: owned_def p' map_of_filter_key pick_def)
    then show ?thesis unfolding reg using key lost assms(3) [of o' b] by blast
  next
    case False
    then have same: "owned p' o' b = owned p o' b" by (cases o') (auto simp: owned_def p' map_of_filter_key)
    have "x \<notin> (\<Union>(_, i)\<in>set ?lost. pu_gauges i \<union> pu_counters i)" if x: "x \<in> owner_series o' b" for x
    proof
      assume "x \<in> (\<Union>(_, i)\<in>set ?lost. pu_gauges i \<union> pu_counters i)"
      then obtain key b2 where "?gone key" "x \<in> owner_series (Inl key) b2" using lost mine by blast
      then show False using x False by (auto simp: owner_series_def)
    qed
    then show ?thesis unfolding reg same using assms(3) [of o' b] by blast
  qed
  moreover have "set (gkeys (pr_identities p')) = all_included p'"
  proof -
    have "all_included p' = all_included p" by (simp add: all_included_def p')
    moreover have "set (gkeys (pr_identities p')) = {k \<in> set (gkeys (pr_identities p)). \<not> ?gone k}" by (auto simp: p' image_iff)
    ultimately show ?thesis using assms(4,5) included_iff [OF assms(1)] by auto
  qed
  ultimately show ?thesis unfolding p'_def [symmetric] pub_inv_def using assms(1,2) by (simp add: p' wf_map_filter)
qed

section \<open>Every operation keeps the invariant\<close>

lemma publish_one_agrees:
  fixes s :: "'q identity_series"
  assumes "\<And>o' b. exposed (pr_registry p) \<inter> owner_series o' b =
      (if o' = Inr policy then (if b then prev \<union> g else cs) else owned p o' b)"
    and "publish_one E policy s (g, p) = (g', p')"
  shows "exposed (pr_registry p') \<inter> owner_series o' b =
      (if o' = Inr policy then (if b then prev \<union> g' else cs) else owned p' o' b) \<and>
    pr_policies p' = pr_policies p \<and> set (gkeys (pr_identities p')) = insert (is_key s) (set (gkeys (pr_identities p))) \<and>
    (wf_map (pr_identities p) \<longrightarrow> wf_map (pr_identities p'))"
proof -
  obtain reg where w: "fold (\<lambda>(m, c). publish_container E policy (id_Namespace (is_key s)) m c)
      (concat (map (\<lambda>m. map (\<lambda>c. (m, c)) (ms_containers m)) (is_members s))) (g, pr_registry p) = (g', reg)"
    and p': "p' = publishIdentity s (p\<lparr>pr_registry := reg\<rparr>)"
    using assms(2) by (auto simp: publish_one_def split: prod.splits)
  have "writes (owner_series (Inr policy) True) (g, pr_registry p) (g', reg)"
    unfolding w [symmetric] by (rule writes_fold) (auto intro: publish_container_writes)
  then obtain D where D: "D \<subseteq> owner_series (Inr policy) True" "g' = g \<union> D" "exposed reg = exposed (pr_registry p) \<union> D"
    by (auto simp: writes_def)
  let ?p = "p\<lparr>pr_registry := reg\<rparr>" and ?f = "\<lambda>o' b. if o' = Inr policy then (if b then prev \<union> g' else cs) else owned p o' b"
  have same: "owned ?p o' b = owned p o' b" for o' b by (cases o') (simp_all add: owned_def)
  have agree: "exposed (pr_registry ?p) \<inter> owner_series o' b = ?f o' b" for o' b
  proof -
    have "D \<inter> owner_series o' b = (if (o', b) = (Inr policy, True) then D else {})"
      using D(1) owner_series_disjoint [of "Inr policy" True o' b] by auto
    then have "exposed reg \<inter> owner_series o' b =
        exposed (pr_registry p) \<inter> owner_series o' b \<union> (if (o', b) = (Inr policy, True) then D else {})"
      unfolding D(3) by blast
    then show ?thesis using assms(1) [of o' b] D(2) by auto
  qed
  note I = publishIdentity_agrees [of ?p ?f s, OF agree, unfolded same]
  have "exposed (pr_registry p') \<inter> owner_series o' b = (if o' = Inr policy then (if b then prev \<union> g' else cs) else owned p' o' b)"
    using I(1) [of o' b] I(3) [of o' b] by (auto simp: p')
  then show ?thesis using I(2,4,5) by (simp add: p' del: set_map)
qed

lemma publish_all_agree:
  fixes ss :: "'q identity_series list"
  assumes "\<And>o' b. exposed (pr_registry p) \<inter> owner_series o' b =
      (if o' = Inr policy then (if b then prev \<union> g else cs) else owned p o' b)"
    and "fold (publish_one E policy) ss (g, p) = (g', p')"
  shows "(\<forall>o' b. exposed (pr_registry p') \<inter> owner_series o' b =
      (if o' = Inr policy then (if b then prev \<union> g' else cs) else owned p' o' b)) \<and>
    pr_policies p' = pr_policies p \<and> set (gkeys (pr_identities p')) = is_key ` set ss \<union> set (gkeys (pr_identities p)) \<and>
    (wf_map (pr_identities p) \<longrightarrow> wf_map (pr_identities p'))"
  using assms
proof (induction ss arbitrary: g p)
  case Nil
  then show ?case by simp
next
  case (Cons s ss)
  obtain g1 p1 where one: "publish_one E policy s (g, p) = (g1, p1)" by (rule prod.exhaust)
  note first = publish_one_agrees [OF Cons.prems(1) one]
  have "fold (publish_one E policy) ss (g1, p1) = (g', p')" using Cons.prems(2) one by simp
  from Cons.IH [OF first [THEN conjunct1] this] first show ?case by (simp del: set_map)
qed

lemma owned_policyLocked: "pub_inv p \<Longrightarrow> pu_gauges (policyLocked p policy) = owned p (Inr policy) True \<and>
    pu_counters (policyLocked p policy) = owned p (Inr policy) False"
  by (simp add: policyLocked_def owned_def pick_def lookup_or_def split: option.split)

lemma policy_series_in:
  "vec \<in> {reconcileTotal, reconcileDuration, policyWorkloadCount, policyBlockedCount, policyBatchRequested, policyBatchResolved,
     policyBatchFailuresTotal} \<Longrightarrow>
   \<lparr> sr_vec = vec, sr_values = policy # rest \<rparr> \<in> owner_series (Inr policy) (is_gauge vec)"
  by (auto simp: owner_series_def series_owner_def)

lemma policy_head_writes:
  "writes (owner_series (Inr policy) True) w (ss_set policyBatchResolved a [policy] (ss_set policyBatchRequested b [policy]
     (ss_set policyBlockedCount c [policy] (ss_set policyWorkloadCount d [policy] w))))"
  "writes (owner_series (Inr policy) False) w (if f then ss_add policyBatchFailuresTotal e [policy] w else w)"
  "writes (owner_series (Inr policy) False) w (ss_observe reconcileDuration e [policy] (ss_add reconcileTotal a [policy, result] w))"
proof -
  have g: "\<lparr> sr_vec = vec, sr_values = [policy] \<rparr> \<in> owner_series (Inr policy) True"
    if "vec \<in> {policyWorkloadCount, policyBlockedCount, policyBatchRequested, policyBatchResolved}" for vec
    using that policy_series_in [of vec policy "[]"] by (auto simp: is_gauge_def)
  have c: "\<lparr> sr_vec = vec, sr_values = policy # rest \<rparr> \<in> owner_series (Inr policy) False"
    if "vec \<in> {policyBatchFailuresTotal, reconcileTotal, reconcileDuration}" for vec rest
    using that policy_series_in [of vec policy rest] by (auto simp: is_gauge_def)
  note set = writes_ops(1) [OF g]
  show "writes (owner_series (Inr policy) True) w (ss_set policyBatchResolved a [policy] (ss_set policyBatchRequested b [policy]
     (ss_set policyBlockedCount c [policy] (ss_set policyWorkloadCount d [policy] w))))"
    by (rule writes_trans [OF writes_trans [OF writes_trans [OF set set] set] set]) simp_all
  show "writes (owner_series (Inr policy) False) w (if f then ss_add policyBatchFailuresTotal e [policy] w else w)"
    by (simp add: writes_ops(2) [OF c])
  show "writes (owner_series (Inr policy) False) w (ss_observe reconcileDuration e [policy] (ss_add reconcileTotal a [policy, result] w))"
    by (rule writes_trans [OF writes_ops(2) [OF c] writes_ops(3) [OF c]]) simp_all
qed

text \<open>The Policy's head: its new gauges beside the last pass's, its counters, and nothing else.\<close>

lemma publish_head_agrees:
  assumes "\<And>o' b. exposed reg \<inter> owner_series o' b = f o' b"
    and one: "writes (owner_series (Inr policy) True) ({}, reg) w1"
    and two: "writes (owner_series (Inr policy) False) (f (Inr policy) False, snd w1) w2"
  shows "exposed (snd w2) \<inter> owner_series o' b =
    (if o' = Inr policy then (if b then f (Inr policy) True \<union> fst w1 else fst w2) else f o' b)"
proof -
  let ?me = "Inr policy :: workload_identity + string"
  from one obtain D where D: "D \<subseteq> owner_series ?me True" "fst w1 = D" "exposed (snd w1) = exposed reg \<union> D"
    by (auto simp: writes_def)
  then have g: "exposed (snd w1) \<inter> owner_series ?me True = f ?me True \<union> fst w1" using assms(1) [of ?me True] by blast
  have rest: "exposed (snd w1) \<inter> owner_series o' b = f o' b" if "(o', b) \<noteq> (?me, True)" for o' b
    using writes_elsewhere [OF one, of o' b] that assms(1) by auto
  have c: "exposed (snd w2) \<inter> owner_series ?me False = fst w2" using writes_here [OF two] rest [of ?me False] by simp
  have "exposed (snd w2) \<inter> owner_series o' b = exposed (snd w1) \<inter> owner_series o' b" if "(o', b) \<noteq> (?me, False)"
    using writes_elsewhere [OF two, of o' b] that by auto
  then show ?thesis using g rest [of o' b] c by (cases b) auto
qed

text \<open>Its tail: the last pass's gauges are replaced and the identities only it included dropped.\<close>

lemma publish_tail_inv:
  assumes "\<And>o' b. exposed (pr_registry p1) \<inter> owner_series o' b = (if o' = Inr policy then (if b then prev \<union> g else cs) else owned p1 o' b)"
    and "prev \<subseteq> owner_series (Inr policy) True" "wf_map (pr_policies p1)" "wf_map (pr_identities p1)"
    and "set (gkeys (pr_identities p1)) = keys \<union> all_included p1"
  defines "pol \<equiv> \<lparr> pu_gauges = g, pu_counters = cs, po_identities = keys \<rparr>"
  shows "pub_inv (dropLocked (po_identities (policyLocked p1 policy))
    (p1\<lparr>pr_policies := AList.update policy pol (pr_policies p1), pr_registry := snd (ss_replace g prev (pr_registry p1))\<rparr>))" (is "pub_inv (dropLocked ?ids ?p)")
proof (rule dropLocked_inv)
  let ?me = "Inr policy :: workload_identity + string"
  show "wf_map (pr_policies ?p)" "wf_map (pr_identities ?p)" using assms by simp_all
  show "exposed (pr_registry ?p) \<inter> owner_series o' b = owned ?p o' b" for o' b
  proof -
    have "exposed (pr_registry ?p) \<inter> owner_series o' b = exposed (pr_registry p1) \<inter> owner_series o' b - (prev - g)"
      by (auto simp: ss_replace_def exposed_delete)
    also have "\<dots> = (if o' = ?me then (if b then g else cs) else owned p1 o' b)"
    proof (cases "(o', b) = (?me, True)")
      case False
      then have "prev \<inter> owner_series o' b = {}" using assms(2) owner_series_disjoint [of ?me True o' b] by auto
      then show ?thesis using assms(1) [of o' b] False by auto
    qed (use assms(1) [of o' b] in auto)
    also have "\<dots> = owned ?p o' b" by (cases o') (auto simp: owned_def pick_def pol_def)
    finally show ?thesis .
  qed
  have "all_included ?p = keys \<union> other_included policy p1" using all_included_update [of ?p policy pol p1] by (simp add: pol_def)
  then show "set (gkeys (pr_identities ?p)) = all_included ?p \<union> (all_included p1 \<inter> ?ids)"
    using assms(5) all_included_split [of p1 policy] by (simp del: set_map) blast
qed simp

lemma publish_inv:
  assumes inv: "pub_inv p"
  shows "pub_inv (publish E policy pub p)"
proof -
  let ?me = "Inr policy :: workload_identity + string"
  define pol where "pol = policyLocked p policy"
  have pol: "pu_gauges pol = owned p ?me True" "pu_counters pol = owned p ?me False"
    using owned_policyLocked [OF inv] by (simp_all add: pol_def)
  define w1 where "w1 = ss_set policyBatchResolved (of_i64 (pb_resolved pub)) [policy]
      (ss_set policyBatchRequested (of_i64 (pb_requested pub)) [policy]
        (ss_set policyBlockedCount (of_i64 (pb_blocked pub)) [policy]
          (ss_set policyWorkloadCount (of_i64 (pb_live pub)) [policy] ({}, pr_registry p))))"
  define w2 where "w2 = (if pb_fetchFailed pub > 0
      then ss_add policyBatchFailuresTotal (of_i64 (pb_fetchFailed pub)) [policy] (pu_counters pol, snd w1) else (pu_counters pol, snd w1))"
  obtain g2 p1 where p1: "fold (publish_one E policy) (pb_identities pub) (fst w1, p\<lparr>pr_registry := snd w2\<rparr>) = (g2, p1)" by (rule prod.exhaust)
  let ?pol = "\<lparr> pu_gauges = g2, pu_counters = fst w2, po_identities = set (map is_key (pb_identities pub)) \<rparr>"
  have wf: "wf_map (pr_policies p)" "wf_map (pr_identities p)" and agree: "\<And>o' b. exposed (pr_registry p) \<inter> owner_series o' b = owned p o' b"
    and keys: "set (gkeys (pr_identities p)) = all_included p" using inv by (simp_all add: pub_inv_def del: set_map)
  have one: "writes (owner_series ?me True) ({}, pr_registry p) w1" unfolding w1_def by (rule policy_head_writes)
  have two: "writes (owner_series ?me False) (owned p ?me False, snd w1) w2" unfolding w2_def pol by (rule policy_head_writes)
  have same: "owned (p\<lparr>pr_registry := snd w2\<rparr>) o' b = owned p o' b" for o' b by (cases o') (simp_all add: owned_def)
  have start: "exposed (pr_registry (p\<lparr>pr_registry := snd w2\<rparr>)) \<inter> owner_series o' b =
      (if o' = ?me then (if b then pu_gauges pol \<union> fst w1 else fst w2) else owned (p\<lparr>pr_registry := snd w2\<rparr>) o' b)" for o' b
    using publish_head_agrees [OF agree one two, of o' b] unfolding same pol by simp
  note all = publish_all_agree [OF start p1]
  have pub: "publish E policy pub p = dropLocked (po_identities (policyLocked p1 policy))
      (p1\<lparr>pr_policies := AList.update policy ?pol (pr_policies p1), pr_registry := snd (ss_replace g2 (pu_gauges pol) (pr_registry p1))\<rparr>)"
    using p1 all unfolding w1_def w2_def pol_def publish_def Let_def by (simp add: case_prod_unfold ss_replace_def policyLocked_def)
  show ?thesis unfolding pub
  proof (rule publish_tail_inv)
    show "exposed (pr_registry p1) \<inter> owner_series o' b = (if o' = ?me then (if b then pu_gauges pol \<union> g2 else fst w2) else owned p1 o' b)" for o' b
      using all by blast
    show "pu_gauges pol \<subseteq> owner_series ?me True" using agree [of ?me True] pol by blast
    show "wf_map (pr_policies p1)" "wf_map (pr_identities p1)" using all wf by simp_all
    show "set (gkeys (pr_identities p1)) = set (map is_key (pb_identities pub)) \<union> all_included p1"
      using all keys by (simp add: all_included_def)
  qed
qed

text \<open>Counters written by one owner, which keeps its gauges.\<close>

lemma count_agrees:
  assumes "pub_inv p" "writes (owner_series me False) (owned p me False, pr_registry p) (cs, reg)"
    and "\<And>o' b. owned p' o' b = (if (o', b) = (me, False) then cs else owned p o' b)" "pr_registry p' = reg"
  shows "exposed (pr_registry p') \<inter> owner_series o' b = owned p' o' b"
proof (cases "(o', b) = (me, False)")
  case True
  then show ?thesis using writes_here [OF assms(2)] assms(1,3,4) by (simp add: pub_inv_def)
next
  case False
  then have other: "(me, False) \<noteq> (o', b)" by auto
  show ?thesis using writes_elsewhere [OF assms(2) other] assms(1,4) False
    unfolding assms(3) by (auto simp: pub_inv_def)
qed

lemma reconciled_inv:
  assumes inv: "pub_inv p"
  shows "pub_inv (reconciled policy result took p)"
proof -
  let ?pol = "policyLocked p policy"
  obtain cs reg where w: "ss_observe reconcileDuration (duration_Seconds took) [policy]
      (ss_add reconcileTotal (Fin 1) [policy, result] (pu_counters ?pol, pr_registry p)) = (cs, reg)" by (rule prod.exhaust)
  have p': "reconciled policy result took p = p\<lparr>pr_policies := AList.update policy (?pol\<lparr>pu_counters := cs\<rparr>) (pr_policies p), pr_registry := reg\<rparr>" (is "_ = ?p")
    using w by (simp add: reconciled_def Let_def)
  have "writes (owner_series (Inr policy) False) (owned p (Inr policy) False, pr_registry p) (cs, reg)"
    using policy_head_writes(3) w owned_policyLocked [OF inv] by metis
  moreover have "owned ?p o' b = (if (o', b) = (Inr policy, False) then cs else owned p o' b)" for o' b
    using owned_policyLocked [OF inv, of policy] by (cases o'; cases b) (auto simp: owned_def pick_def)
  ultimately have "exposed (pr_registry ?p) \<inter> owner_series o' b = owned ?p o' b" for o' b
    by (rule count_agrees [OF inv]) simp_all
  moreover have "all_included ?p = all_included p"
    using all_included_update [of ?p policy "?pol\<lparr>pu_counters := cs\<rparr>" p] all_included_split [of p policy] by simp
  ultimately show ?thesis unfolding p' using inv unfolding pub_inv_def by (simp del: set_map)
qed

lemma observedOOM_inv:
  assumes inv: "pub_inv p"
  shows "pub_inv (observedOOM policy key container p)"
proof -
  let ?pol = "policyLocked p policy" and ?i = "identityLocked p key"
  obtain cs reg where w: "ss_add oomObservedTotal (Fin 1) [id_Namespace key, OwnerKind key, OwnerName key, container] (pu_counters ?i, pr_registry p) = (cs, reg)"
    by (rule prod.exhaust)
  have p': "observedOOM policy key container p = p\<lparr>pr_policies := AList.update policy (?pol\<lparr>po_identities := insert key (po_identities ?pol)\<rparr>) (pr_policies p),
      pr_identities := AList.update key (?i\<lparr>pu_counters := cs\<rparr>) (pr_identities p), pr_registry := reg\<rparr>" (is "_ = ?p")
    using w by (simp add: observedOOM_def Let_def)
  have i: "pu_counters ?i = owned p (Inl key) False" "pu_gauges ?i = owned p (Inl key) True"
    by (simp_all add: identityLocked_def owned_def pick_def lookup_or_def new_published_def split: option.split)
  have "\<lparr> sr_vec = oomObservedTotal, sr_values = [id_Namespace key, OwnerKind key, OwnerName key, container] \<rparr> \<in> owner_series (Inl key) False"
    using identity_series_in [of oomObservedTotal key "[container]"] by (simp add: is_gauge_def)
  then have "writes (owner_series (Inl key) False) (owned p (Inl key) False, pr_registry p) (cs, reg)"
    using writes_ops(2) w i by metis
  moreover have "owned ?p o' b = (if (o', b) = (Inl key, False) then cs else owned p o' b)" for o' b
    using owned_policyLocked [OF inv, of policy] i by (cases o'; cases b) (auto simp: owned_def pick_def)
  ultimately have "exposed (pr_registry ?p) \<inter> owner_series o' b = owned ?p o' b" for o' b
    by (rule count_agrees [OF inv]) simp_all
  moreover have "all_included ?p = insert key (all_included p)"
    using all_included_update [of ?p policy "?pol\<lparr>po_identities := insert key (po_identities ?pol)\<rparr>" p] all_included_split [of p policy] by simp
  ultimately show ?thesis unfolding p' using inv unfolding pub_inv_def by (simp add: keys_update del: set_map)
qed

lemma forget_inv:
  assumes inv: "pub_inv p"
  shows "pub_inv (forget policy p)"
proof (cases "map_of (pr_policies p) policy")
  case None
  then show ?thesis using inv by (simp add: forget_def)
next
  case (Some pol)
  let ?p = "p\<lparr>pr_policies := AList.delete policy (pr_policies p),
      pr_registry := series_delete (pu_counters pol) (series_delete (pu_gauges pol) (pr_registry p))\<rparr>"
  have agree: "exposed (pr_registry p) \<inter> owner_series o' b = owned p o' b" for o' b using inv by (simp add: pub_inv_def)
  have pol: "pu_gauges pol = owned p (Inr policy) True" "pu_counters pol = owned p (Inr policy) False"
    by (simp_all add: owned_def pick_def Some)
  have "pub_inv (dropLocked (po_identities pol) ?p)"
  proof (rule dropLocked_inv)
    show "wf_map (pr_policies ?p)" "wf_map (pr_identities ?p)" using inv by (simp_all add: pub_inv_def)
    show "exposed (pr_registry ?p) \<inter> owner_series o' b = owned ?p o' b" for o' b
    proof (cases "o' = Inr policy")
      case True
      then have "owned ?p o' b = {}" by (simp add: owned_def pick_def)
      then show ?thesis using True agree [of o' b] pol by (cases b) (auto simp: exposed_delete)
    next
      case False
      then have "owned ?p o' b = owned p o' b" by (cases o') (auto simp: owned_def)
      moreover have "x \<notin> pu_gauges pol \<union> pu_counters pol" if "x \<in> owner_series o' b" for x
        using that False pol agree [of "Inr policy" True] agree [of "Inr policy" False] by (auto simp: owner_series_def)
      ultimately show ?thesis using agree [of o' b] by (auto simp: exposed_delete)
    qed
    have "all_included ?p = other_included policy p" by (auto simp: all_included_def other_included_def)
    then show "set (gkeys (pr_identities ?p)) = all_included ?p \<union> po_identities pol"
      using inv all_included_split [of p policy] Some by (auto simp: pub_inv_def policyLocked_def lookup_or_def simp del: set_map)
  qed simp
  then show ?thesis by (simp add: forget_def Some)
qed

section \<open>No series outlives what it describes\<close>

text \<open>The operations in any order, of any Policies and identities.\<close>

inductive pub_reachable :: "'q env \<Rightarrow> publisher \<Rightarrow> bool" for E where
  initially: "pub_reachable E no_series"
| after_publish: "pub_reachable E p \<Longrightarrow> pub_reachable E (publish E policy pub p)"
| after_reconciled: "pub_reachable E p \<Longrightarrow> pub_reachable E (reconciled policy result took p)"
| after_kill: "pub_reachable E p \<Longrightarrow> pub_reachable E (observedOOM policy key container p)"
| after_forget: "pub_reachable E p \<Longrightarrow> pub_reachable E (forget policy p)"

lemma reachable_inv: "pub_reachable E p \<Longrightarrow> pub_inv p"
proof (induction rule: pub_reachable.induct)
  case initially
  then show ?case by (simp add: pub_inv_def no_series_def exposed_def all_included_def owned_def pick_def split: sum.split)
qed (simp_all add: publish_inv reconciled_inv observedOOM_inv forget_inv)


text \<open>A kill counted for a Policy that is then forgotten leaves no series.\<close>

definition killed_key :: workload_identity where
  "killed_key = \<lparr> id_Namespace = ''shop'', OwnerKind = ''Deployment'', OwnerName = ''api'' \<rparr>"


end
