(* ===== verification/Pass.thy ===== *)
theory Pass
  imports Assemble Publisher
begin

text \<open>
  One pass of a Policy (\<open>internal/controller\<close>: \<open>pass.go\<close>, \<open>recommendation_pass.go\<close>, \<open>workload_reconcile.go\<close>,
  \<open>workload_target.go\<close>): claim the WorkloadRecommendation of every identity, recommend, record every decision,
  and only then apply.

  What the reconciler holds and calls is the record \<open>reconciler\<close>; the cluster, the clocks and the context are
  its state \<open>'st\<close>. The tasks of an errgroup run one after the other, in the order they are started. Applying
  may wait forever, so a pass is \<open>None\<close> when it never ends. Logging is left out; what the event recorder and
  the refresh counter are told is \<open>rc_Emit\<close>. Of a result that did not fail, the step and the error are
  placeholders nothing reads.
\<close>

section \<open>Targets\<close>

record ('q, 'ls) workload_target = "('q, 'ls) Apply.member" +
  tg_Name :: string
  tg_Namespace :: string

definition member_key_of :: "('q, 'ls) workload_target \<Rightarrow> member_key" where
  "member_key_of t = \<lparr> mk_Kind = mem_Kind t, mk_Namespace = tg_Namespace t, mk_Name = tg_Name t \<rparr>"

text \<open>A pod as the object events are about.\<close>

definition pod_object :: "'q pod \<Rightarrow> 'ls workload_object" where
  "pod_object p = \<lparr> wo_Type = ''Pod'', wo_Namespace = pod_Namespace p, wo_Name = pod_Name p, wo_UID = pod_UID p, wo_Selector = None \<rparr>"

definition object_of :: "('q, 'ls) inv_object \<Rightarrow> 'ls workload_object" where
  "object_of ob = (case ob of InvWorkload w \<Rightarrow> wk_Object w | InvPod _ p \<Rightarrow> pod_object p)"

definition targetFromMember :: "workload_identity \<Rightarrow> ('q, 'ls) inv_member \<Rightarrow> ('q, 'ls) workload_target" where
  "targetFromMember key m =
     \<lparr> mem_Kind = OwnerKind key, mem_Object = Some (object_of (im_Object m)), mem_Pods = [],
       mem_Containers = im_Containers m, mem_InitContainers = im_InitContainers m,
       tg_Name = obj_Name (im_Object m), tg_Namespace = id_Namespace key \<rparr>"

text \<open>\<open>slices.MaxFunc\<close> keeps the first of equals.\<close>

definition newest_pod :: "(time \<times> 'q pod) list \<Rightarrow> time \<times> 'q pod" where
  "newest_pod pods = fold (\<lambda>p m. if fst p > fst m then p else m) (tl pods) (hd pods)"

definition governed_pods :: "('q, 'ls) inv_member list \<Rightarrow> (time \<times> 'q pod) list" where
  "governed_pods ms = concat (map (\<lambda>m. case im_Object m of InvPod t p \<Rightarrow> [(t, p)] | InvWorkload _ \<Rightarrow> []) ms)"

definition targetsOf :: "('q, 'ls) identity \<Rightarrow> string \<Rightarrow> ('q, 'ls) workload_target list" where
  "targetsOf i policyName =
     (let ms = filter (\<lambda>m. im_Policy m = policyName) (in_Members i);
          targets = map (targetFromMember (in_Key i)) (filter (\<lambda>m. case im_Object m of InvPod _ _ \<Rightarrow> False | InvWorkload _ \<Rightarrow> True) ms);
          pods = governed_pods ms
      in if pods = [] then targets
         else targets @ [\<lparr> mem_Kind = OwnerKind (in_Key i), mem_Object = Some (pod_object (snd (newest_pod pods))), mem_Pods = map snd pods,
                           mem_Containers = in_Containers i, mem_InitContainers = in_InitContainers i,
                           tg_Name = OwnerName (in_Key i), tg_Namespace = id_Namespace (in_Key i) \<rparr>])"

section \<open>The reconciler\<close>

datatype refresh = WLRRefreshComputed | WLRRefreshNoData | WLRRefreshRetainedEmpty | WLRRefreshError | WLRRefreshNoSnapshot

datatype emission =
    AutoscalerDetected member_key autoscaler_info
  | ResourcesUpdated member_key "string list" "string list" "string list"
  | MemberWarning member_key event
  | PolicyEvent string bool string
  | WLRRefresh string string refresh

record ('q, 'ls, 'sel, 's, 'st) reconciler =
  rc_Env :: "'q env"
  rc_Sha :: "string \<Rightarrow> string"
  rc_WLRs :: "('q, 'sel, go_error, 'st) wlr_client"
  rc_Pods :: "('q, 's option, 'st) pod_client"
  rc_Members :: "('q, 'ls, 's, 'st) member_reader"
  rc_Autoscalers :: "'st autoscaler_reader"
  rc_Patcher :: patcher
  rc_Inputs :: "('q, 'st) fetch"
  rc_Clock :: "'st \<Rightarrow> time"
  rc_LedgerClock :: "'st \<Rightarrow> time"
  rc_CtxErr :: "'st \<Rightarrow> bool"
  rc_RecommendOnly :: bool
  rc_ReconcileInterval :: duration
  rc_Retention :: duration
  rc_Emit :: "emission \<Rightarrow> 'st \<Rightarrow> 'st"

definition lifetimes_of :: "('q, 'ls, 'sel, 's, 'st) reconciler \<Rightarrow> lifetimes" where
  "lifetimes_of r = \<lparr> ReconcileInterval = rc_ReconcileInterval r, Retention = rc_Retention r \<rparr>"

text \<open>Every error of wlrcache but one wraps the client's.\<close>

fun wlr_go_error :: "go_error wlr_error \<Rightarrow> go_error" where
  "wlr_go_error ErrNotEnsured = Plain ''no WorkloadRecommendation to record into: it was not ensured this cycle''"
| "wlr_go_error (CreatingStub e) = Wrap e"
| "wlr_go_error (WritingObserved e) = Wrap e"
| "wlr_go_error (ReadingWLR e) = Wrap e"
| "wlr_go_error (PatchingStatus e) = Wrap e"
| "wlr_go_error (CreatingWLR e) = Wrap e"
| "wlr_go_error (ClaimingWLR e) = Wrap e"
| "wlr_go_error (RecordingWLR e) = Wrap e"
| "wlr_go_error (ListingReapPolicies e) = Wrap e"
| "wlr_go_error (ListingWLRs e) = Wrap e"
| "wlr_go_error (DeletingWLR e) = Wrap e"

section \<open>The work-list\<close>

record ('q, 'ls) pass_identity =
  pi_id :: "('q, 'ls) identity"
  pi_run :: "('q, 'ls) workload_target list"
  pi_backedOff :: "('q, 'ls) workload_target list"

definition pi_fetched :: "('q, 'ls) pass_identity \<Rightarrow> bool" where
  "pi_fetched w =
     (if identity_Departed (pi_id w) then in_Containers (pi_id w) \<noteq> [] \<or> in_InitContainers (pi_id w) \<noteq> []
      else pi_run w \<noteq> [])"

text \<open>\<open>now\<close> is the ledger's clock, read once: the loop issues no calls.\<close>

definition workList :: "time \<Rightarrow> ledger \<Rightarrow> string \<Rightarrow> ('q, 'ls) identity list \<Rightarrow> ('q, 'ls) pass_identity list" where
  "workList now l policyName governed =
     map (\<lambda>i. if identity_Departed i then \<lparr> pi_id = i, pi_run = [], pi_backedOff = [] \<rparr>
              else let ts = targetsOf i policyName
                   in \<lparr> pi_id = i, pi_run = filter (\<lambda>t. MayRun now l (member_key_of t)) ts,
                        pi_backedOff = filter (\<lambda>t. \<not> MayRun now l (member_key_of t)) ts \<rparr>) governed"

section \<open>Claiming\<close>

type_synonym 'q claimed = "go_error + 'q workload_recommendation option"

definition claim_one ::
  "('q, 'ls, 'sel, 's, 'st) reconciler \<Rightarrow> string \<Rightarrow> ('q, 'ls) identity \<Rightarrow> 'st \<Rightarrow> 'q claimed \<times> 'st" where
  "claim_one r policyName i st =
     (if identity_Departed i then (Inr (in_Recommendation i), st)
      else case Ensure (rc_Env r) (rc_Sha r) (rc_WLRs r) (WorkloadRef (in_Key i)) policyName
                  (Some (BuildObservedResources (in_Containers i) (in_InitContainers i))) (lifetimes_of r) st of
             (Inl err, st') \<Rightarrow> (Inl (wlr_go_error err), st')
           | (Inr wlr, st') \<Rightarrow> (Inr (Some wlr), st'))"

fun pass_claim ::
  "('q, 'ls, 'sel, 's, 'st) reconciler \<Rightarrow> string \<Rightarrow> ('q, 'ls) pass_identity list \<Rightarrow> 'st \<Rightarrow> 'q claimed list \<times> 'st" where
  "pass_claim r policyName [] st = ([], st)"
| "pass_claim r policyName (w # ws) st =
     (let (c, st1) = claim_one r policyName (pi_id w) st; (cs, st2) = pass_claim r policyName ws st1 in (c # cs, st2))"

section \<open>Recommending\<close>

record 'q recommendation =
  rn_outcome :: recommendation_outcome
  rn_recs :: "'q recs"
  rn_traces :: "(string, 'q container_trace) gomap"
  rn_inputs :: "workload_inputs option"
  rn_autoscalers :: autoscaler_group
  rn_err :: "go_error option"
  rn_computed :: computed

definition not_computed :: computed where
  "not_computed = \<lparr> cm_autoscaler = None, cm_mismatch = False, cm_oomFloors = [] \<rparr>"

definition no_recommendation :: "'q recommendation" where
  "no_recommendation =
     \<lparr> rn_outcome = OutcomeUnset, rn_recs = [], rn_traces = [], rn_inputs = None, rn_autoscalers = no_group, rn_err = None,
       rn_computed = not_computed \<rparr>"

definition rec_decision :: "'q recommendation \<Rightarrow> bool \<Rightarrow> 'q pass_decision" where
  "rec_decision rec departed =
     \<lparr> pd_Outcome = rn_outcome rec, pd_Recs = rn_recs rec, pd_Traces = rn_traces rec, pd_Departed = departed \<rparr>"

text \<open>Whether the floor determined the request, and when the live kill was, zero for none.\<close>

definition TracedOOMFloor :: "'q container_trace \<Rightarrow> (bool \<times> time) option" where
  "TracedOOMFloor t =
     (case ct_Memory t of
        None \<Rightarrow> None
      | Some m \<Rightarrow>
          (case stageNamed (rt_Request m) ''oomFloor'' of
             None \<Rightarrow> None
           | Some st \<Rightarrow>
               Some (map_of (ts_Facts st) ''determined'' = Some (FStr (format_bool True)),
                     case map_of (ts_Facts st) ''liveKillAt'' of Some (FTime at') \<Rightarrow> at' | _ \<Rightarrow> 0)))"

definition oomFloorsOf :: "(string, 'q container_trace) gomap \<Rightarrow> time \<Rightarrow> oom_floor_applied list" where
  "oomFloorsOf traces now =
     concat (map (\<lambda>(container, tr).
       case TracedOOMFloor tr of
         Some (True, killed) \<Rightarrow>
           [\<lparr> of_container = container, of_reaction = (if killed \<noteq> 0 then time_sub now killed else 0), of_live = (killed \<noteq> 0) \<rparr>]
       | _ \<Rightarrow> []) traces)"

definition computeIdentity :: "'q env \<Rightarrow> autoscaler_group \<Rightarrow> 'q request \<Rightarrow> 'q recommendation" where
  "computeIdentity E g req =
     (let out = Compute E req;
          rec = \<lparr> rn_outcome = Recorded (rs_Outcome out), rn_recs = [], rn_traces = [], rn_inputs = Some (rq_inputs req), rn_autoscalers = g,
                  rn_err = None, rn_computed = \<lparr> cm_autoscaler = Some (gr_Info g), cm_mismatch = (gr_Disagreeing g \<noteq> []), cm_oomFloors = [] \<rparr> \<rparr>
      in if rs_Outcome out = Recommended
         then rec\<lparr>rn_recs := rs_Recs out, rn_traces := rs_Traces out,
                  rn_computed := (rn_computed rec)\<lparr>cm_oomFloors := oomFloorsOf (rs_Traces out) (rq_now req)\<rparr>\<rparr>
         else rec)"

definition recommend_assembled :: "'q env \<Rightarrow> 'q assembled \<Rightarrow> 'q recommendation" where
  "recommend_assembled E a =
     (case ab_Request a of
        Inl err \<Rightarrow> no_recommendation\<lparr>rn_outcome := OutcomeFetchFailed, rn_autoscalers := ab_Autoscaler a, rn_err := Some err\<rparr>
      | Inr req \<Rightarrow> computeIdentity E (ab_Autoscaler a) req)"

text \<open>The verdicts in the order of the work-list: the next assembled one for each fetched identity.\<close>

fun place_verdicts :: "'q env \<Rightarrow> ('q, 'ls) pass_identity list \<Rightarrow> 'q assembled list \<Rightarrow> 'q recommendation list" where
  "place_verdicts E [] as = []"
| "place_verdicts E (w # ws) as =
     (if \<not> pi_fetched w then no_recommendation # place_verdicts E ws as
      else case as of
             [] \<Rightarrow> no_recommendation # place_verdicts E ws []
           | a # as' \<Rightarrow> recommend_assembled E a # place_verdicts E ws as')"

definition pass_recommend ::
  "('q, 'ls, 'sel, 's, 'st) reconciler \<Rightarrow> ('q, 'sel) policy \<Rightarrow> ('q, 'ls) pass_identity list \<Rightarrow> 'st \<Rightarrow> 'q recommendation list \<times> 'st" where
  "pass_recommend r policy work st =
     (case Assemble (rc_Env r) (rc_Inputs r) (rc_Autoscalers r) (rc_Clock r) (p_RightSizing policy) (map pi_id (filter pi_fetched work)) st of
        (as, st') \<Rightarrow> (place_verdicts (rc_Env r) work as, st'))"

section \<open>Recording\<close>

text \<open>Why each identity's decision could not be stored.\<close>

definition record_one ::
  "('q, 'ls, 'sel, 's, 'st) reconciler \<Rightarrow> time \<Rightarrow> ('q, 'ls) pass_identity \<Rightarrow> 'q claimed \<Rightarrow> 'q recommendation \<Rightarrow> 'st \<Rightarrow> go_error option \<times> 'st" where
  "record_one r now w c rec st =
     (if \<not> pi_fetched w then (None, st)
      else case c of
        Inl err \<Rightarrow> (Some err, st)
      | Inr known \<Rightarrow>
          (case Record (rc_Env r) (rc_WLRs r) known (rec_decision rec (identity_Departed (pi_id w))) now (lifetimes_of r) st of
             (Inl err, st') \<Rightarrow> (Some (wlr_go_error err), st')
           | (Inr _, st') \<Rightarrow> (None, st')))"

fun pass_record ::
  "('q, 'ls, 'sel, 's, 'st) reconciler \<Rightarrow> time \<Rightarrow> (('q, 'ls) pass_identity \<times> 'q claimed \<times> 'q recommendation) list \<Rightarrow> 'st \<Rightarrow> go_error option list \<times> 'st" where
  "pass_record r now [] st = ([], st)"
| "pass_record r now ((w, c, rec) # rest) st =
     (let (e, st1) = record_one r now w c rec st; (es, st2) = pass_record r now rest st1 in (e # es, st2))"

section \<open>Applying\<close>

record ('q, 'ls) apply_outcome =
  ao_Result :: pass_result
  ao_member :: "('q, 'ls) workload_target"
  ao_suppressed :: "(string, int) gomap"

definition ledger_result :: "result_kind \<Rightarrow> pass_result" where
  "ledger_result k =
     \<lparr> res_Member = \<lparr> mk_Kind = [], mk_Namespace = [], mk_Name = [] \<rparr>, res_Kind = k, res_Pods = zero_counts, res_Step = StepPatch, res_Err = Plain [] \<rparr>"

definition failed_on :: "apply_step \<Rightarrow> go_error \<Rightarrow> pass_result" where
  "failed_on step err = (ledger_result Failed)\<lparr>res_Step := step, res_Err := err\<rparr>"

definition applied :: "('q, 'ls) workload_target \<Rightarrow> pass_result \<Rightarrow> ('q, 'ls) apply_outcome" where
  "applied t res = \<lparr> ao_Result = res\<lparr>res_Member := member_key_of t\<rparr>, ao_member = t, ao_suppressed = [] \<rparr>"

definition resultOf :: "('q, 'ls) workload_target \<Rightarrow> apply_result \<Rightarrow> ('q, 'ls) apply_outcome" where
  "resultOf t res =
     (let settled =
        (if ar_Kind res = ResultFailed
         then failed_on (case ar_Step res of Some s \<Rightarrow> s | None \<Rightarrow> StepPatch) (case ar_Err res of Some e \<Rightarrow> e | None \<Rightarrow> Plain [])
         else if ar_Kind res = ResultIdle then ledger_result Idle
         else if \<not> ar_Counted res then ledger_result Uncounted
         else (ledger_result Done)\<lparr>res_Pods := ar_Pods res\<rparr>)
      in (applied t settled)\<lparr>ao_suppressed := ar_Suppressed res\<rparr>)"

definition result_Changed :: "apply_result \<Rightarrow> nat" where
  "result_Changed res = length (ar_Resized res) + length (ar_Evicted res)"

definition reconcileWorkload ::
  "('q, 'ls, 'sel, 's, 'st) reconciler \<Rightarrow> ('q, 'sel) policy \<Rightarrow> ('q, 'ls) workload_target \<Rightarrow> 'q recommendation \<Rightarrow> 'st \<Rightarrow>
   (('q, 'ls) apply_outcome \<times> 'st) option" where
  "reconcileWorkload r policy t rec st =
     (if rc_CtxErr r st then Some (applied t (ledger_result Skipped), st)
      else
        let st1 = (case map_of (gr_Members (rn_autoscalers rec)) (tg_Name t) of
                     Some info \<Rightarrow> if ai_Kind info \<noteq> KindNone then rc_Emit r (AutoscalerDetected (member_key_of t) info) st else st
                   | None \<Rightarrow> st)
        in case rn_err rec of
             Some err \<Rightarrow> Some (applied t (failed_on StepPrometheus err), st1)
           | None \<Rightarrow>
               (case Apply (rc_Env r) (rc_Patcher r) (rc_Pods r) (rc_Members r) (Apply.member.truncate t) (rn_recs rec)
                       (ApplySettingsFor (rc_Env r) policy (mem_Kind t) (rc_RecommendOnly r)) st1 of
                  None \<Rightarrow> None
                | Some (res, st2) \<Rightarrow>
                    Some (resultOf t res,
                      if ar_Kind res = ResultDone \<and> result_Changed res > 0
                      then rc_Emit r (ResourcesUpdated (member_key_of t) (ar_Resized res) (ar_Evicted res) (ar_Containers res)) st2 else st2)))"

fun apply_members ::
  "('q, 'ls, 'sel, 's, 'st) reconciler \<Rightarrow> ('q, 'sel) policy \<Rightarrow> 'q recommendation \<Rightarrow> ('q, 'ls) workload_target list \<Rightarrow> 'st \<Rightarrow>
   (('q, 'ls) apply_outcome list \<times> 'st) option" where
  "apply_members r policy rec [] st = Some ([], st)"
| "apply_members r policy rec (t # ts) st =
     (case reconcileWorkload r policy t rec st of
        None \<Rightarrow> None
      | Some (res, st1) \<Rightarrow> map_option (\<lambda>(rest, st2). (res # rest, st2)) (apply_members r policy rec ts st1))"

definition apply_identity ::
  "('q, 'ls, 'sel, 's, 'st) reconciler \<Rightarrow> ('q, 'sel) policy \<Rightarrow> ('q, 'ls) pass_identity \<Rightarrow> 'q recommendation \<Rightarrow> go_error option \<Rightarrow> 'st \<Rightarrow>
   (('q, 'ls) apply_outcome list \<times> 'st) option" where
  "apply_identity r policy w rec stored st =
     (let skipped = map (\<lambda>t. applied t (ledger_result Skipped)) (pi_backedOff w)
      in case stored of
           Some err \<Rightarrow> Some (skipped @ map (\<lambda>t. applied t (failed_on StepStore err)) (pi_run w), st)
         | None \<Rightarrow> map_option (\<lambda>(out, st'). (skipped @ out, st')) (apply_members r policy rec (pi_run w) st))"

fun pass_apply ::
  "('q, 'ls, 'sel, 's, 'st) reconciler \<Rightarrow> ('q, 'sel) policy \<Rightarrow> (('q, 'ls) pass_identity \<times> 'q recommendation \<times> go_error option) list \<Rightarrow> 'st \<Rightarrow>
   (('q, 'ls) apply_outcome list list \<times> 'st) option" where
  "pass_apply r policy [] st = Some ([], st)"
| "pass_apply r policy ((w, rec, stored) # rest) st =
     (case apply_identity r policy w rec stored st of
        None \<Rightarrow> None
      | Some (out, st1) \<Rightarrow> map_option (\<lambda>(outs, st2). (out # outs, st2)) (pass_apply r policy rest st1))"

section \<open>The report\<close>

record ('q, 'ls) identity_report =
  rp_key :: workload_identity
  rp_departed :: bool
  rp_fetched :: bool
  rp_outcome :: recommendation_outcome
  rp_resolved :: bool
  rp_failed :: bool
  rp_members :: "('q, 'ls) apply_outcome list"
  rp_held :: "'q recs"
  rp_computed :: computed

definition leftAlone :: "('q, 'ls) apply_outcome list \<Rightarrow> ('q, 'ls) apply_outcome list" where
  "leftAlone results =
     map (\<lambda>res. if res_Kind (ao_Result res) = Failed then applied (ao_member res) (ledger_result Skipped) else res) results"

definition recommendedOf :: "'q recs \<Rightarrow> 'q container list \<Rightarrow> 'q recs" where
  "recommendedOf held containers =
     fold (\<lambda>c out. case map_of held (c_Name c) of Some rec \<Rightarrow> AList.update (c_Name c) rec out | None \<Rightarrow> out) containers []"

definition departed_refresh :: "('q, 'ls) identity \<Rightarrow> ('q, 'ls) identity_report \<Rightarrow> refresh" where
  "departed_refresh i rep =
     (if rp_failed rep then WLRRefreshError
      else if \<not> rp_fetched rep then WLRRefreshNoSnapshot
      else if rp_outcome rep = OutcomeComputed then WLRRefreshComputed
      else if (case in_Recommendation i of Some k \<Rightarrow> Containers (w_Status k) \<noteq> [] | None \<Rightarrow> False) then WLRRefreshRetainedEmpty
      else WLRRefreshNoData)"

definition report_one ::
  "('q, 'sel) policy \<Rightarrow> bool \<Rightarrow> ('q, 'ls) pass_identity \<Rightarrow> 'q recommendation \<Rightarrow> go_error option \<Rightarrow> ('q, 'ls) apply_outcome list \<Rightarrow>
   ('q, 'ls) identity_report" where
  "report_one policy shutdown w rec stored results =
     (let i = pi_id w; departed = identity_Departed i
      in \<lparr> rp_key = in_Key i, rp_departed = departed, rp_fetched = pi_fetched w, rp_outcome = rn_outcome rec,
           rp_resolved = (case rn_inputs rec of Some inp \<Rightarrow> Resolved inp | None \<Rightarrow> False),
           rp_failed = (departed \<and> \<not> shutdown \<and> (rn_err rec \<noteq> None \<or> stored \<noteq> None)),
           rp_members = (if shutdown then leftAlone results else results),
           rp_held = (if departed then []
                      else if rn_outcome rec = OutcomeComputed \<and> stored = None then rn_recs rec
                      else recommendedOf (Held (in_Recommendation i) (p_Name policy)) (ContainersOf (p_RightSizing policy) i)),
           rp_computed = rn_computed rec \<rparr>)"

fun pass_report ::
  "('q, 'ls, 'sel, 's, 'st) reconciler \<Rightarrow> ('q, 'sel) policy \<Rightarrow> bool \<Rightarrow>
   (('q, 'ls) pass_identity \<times> 'q recommendation \<times> go_error option \<times> ('q, 'ls) apply_outcome list) list \<Rightarrow> 'st \<Rightarrow>
   ('q, 'ls) identity_report list \<times> 'st" where
  "pass_report r policy shutdown [] st = ([], st)"
| "pass_report r policy shutdown ((w, rec, stored, results) # rest) st =
     (let rep = report_one policy shutdown w rec stored results; key = in_Key (pi_id w);
          st1 = (if rp_departed rep \<and> \<not> shutdown
                 then rc_Emit r (WLRRefresh (id_Namespace key) (OwnerKind key) (departed_refresh (pi_id w) rep)) st else st);
          (reps, st2) = pass_report r policy shutdown rest st1
      in (rep # reps, st2))"

section \<open>The pass\<close>

text \<open>The conflicted identities the Policy is party to only have that outcome recorded; a failure is dropped.\<close>

fun record_conflicted ::
  "('q, 'ls, 'sel, 's, 'st) reconciler \<Rightarrow> time \<Rightarrow> string \<Rightarrow> ('q, 'ls) identity list \<Rightarrow> 'st \<Rightarrow> 'st" where
  "record_conflicted r now policyName [] st = st"
| "record_conflicted r now policyName (i # is) st =
     record_conflicted r now policyName is
       (if \<not> in_Conflicted i \<or> policyName \<notin> set (MemberPolicies i) then st
        else case in_Recommendation i of
          None \<Rightarrow> st
        | Some k \<Rightarrow>
            snd (Record (rc_Env r) (rc_WLRs r) (Some k)
              \<lparr> pd_Outcome = OutcomeConflicted, pd_Recs = [], pd_Traces = [], pd_Departed = False \<rparr> now (lifetimes_of r) st))"

definition runPass ::
  "('q, 'ls, 'sel, 's, 'st) reconciler \<Rightarrow> ledger \<Rightarrow> ('q, 'sel) policy \<Rightarrow> ('q, 'ls) snapshot_of \<Rightarrow> 'st \<Rightarrow>
   (('q, 'ls) identity_report list \<times> 'st) option" where
  "runPass r l policy snap st =
     (let st0 = record_conflicted r (rc_Clock r st) (p_Name policy) (sn_Identities snap) st;
          work = workList (rc_LedgerClock r st0) l (p_Name policy) (GovernedBy snap (p_Name policy));
          (claims, st1) = pass_claim r (p_Name policy) work st0;
          (recs, st2) = pass_recommend r policy work st1;
          (stored, st3) = pass_record r (rc_Clock r st2) (zip work (zip claims recs)) st2
      in case pass_apply r policy (zip work (zip recs stored)) st3 of
           None \<Rightarrow> None
         | Some (results, st4) \<Rightarrow>
             Some (pass_report r policy (rc_CtxErr r st4) (zip work (zip recs (zip stored results))) st4))"

section \<open>What the pass counted\<close>

definition pass_processed :: "('q, 'ls) identity_report list \<Rightarrow> nat" where
  "pass_processed p =
     length (filter (\<lambda>rep. rp_departed rep \<and> rp_fetched rep \<or> list_ex (\<lambda>res. res_Kind (ao_Result res) \<noteq> Skipped) (rp_members rep)) p)"

definition pass_results :: "('q, 'ls) identity_report list \<Rightarrow> (workload_identity, pass_result list) gomap" where
  "pass_results p = map_by rp_key (\<lambda>rep. map ao_Result (rp_members rep)) (filter (\<lambda>rep. \<not> rp_departed rep) p)"

definition pass_failed :: "('q, 'ls) identity_report list \<Rightarrow> ledger_verdict \<Rightarrow> nat" where
  "pass_failed p v = length (filter (\<lambda>rep. rp_failed rep \<or> health_Failed (lookup_or zero_health (v_Identities v) (rp_key rep))) p)"

definition pass_coverage :: "('q, 'ls) identity_report list \<Rightarrow> nat \<times> nat \<times> nat" where
  "pass_coverage p =
     (let fetched = filter rp_fetched p
      in (length fetched, length (filter (\<lambda>rep. rp_outcome rep \<noteq> OutcomeFetchFailed \<and> rp_resolved rep) fetched),
          length (filter (\<lambda>rep. rp_outcome rep = OutcomeFetchFailed) fetched)))"

definition memberSeriesOf :: "('q, 'ls) apply_outcome \<Rightarrow> 'q recs \<Rightarrow> 'q member_series" where
  "memberSeriesOf res held =
     (let t = ao_member res;
          row = (\<lambda>kind c. case map_of held (c_Name c) of
                   Some rec \<Rightarrow> [\<lparr> cs_name = c_Name c, cs_kind = kind, cs_rec = rec, cs_template = Requests (c_Resources c) \<rparr>] | None \<Rightarrow> [])
      in \<lparr> ms_kind = mem_Kind t, ms_name = tg_Name t,
           ms_containers = concat (map (row ''regular'') (mem_Containers t)) @ concat (map (row ''init'') (mem_InitContainers t)),
           ms_suppressed = ao_suppressed res \<rparr>)"

definition pass_publication :: "('q, 'ls) identity_report list \<Rightarrow> ledger_verdict \<Rightarrow> 'q publication" where
  "pass_publication p v =
     (let (requested, resolved, failed) = pass_coverage p
      in \<lparr> pb_live = int (length (filter (\<lambda>rep. \<not> rp_departed rep) p)), pb_blocked = int (verdict_Blocked v),
           pb_requested = int requested, pb_resolved = int resolved, pb_fetchFailed = int failed,
           pb_identities = map (\<lambda>rep. \<lparr> is_key = rp_key rep, is_health = lookup_or zero_health (v_Identities v) (rp_key rep),
                                        is_computed = rp_computed rep, is_tooYoung = (rp_outcome rep = OutcomeTooYoung),
                                        is_members = map (\<lambda>res. memberSeriesOf res (rp_held rep)) (rp_members rep) \<rparr>) p \<rparr>)"

end
