(* ===== verification/Reconcile.thy ===== *)
theory Reconcile
  imports Pass
begin

text \<open>
  The reconcile loop of a Policy (\<open>internal/controller\<close>: \<open>policy_controller.go\<close>, \<open>status.go\<close>,
  \<open>recommendation_cache.go\<close>, \<open>orphan_reaper.go\<close>): cleaning up after a deleted Policy, and the pass of a live one
  with what it settles, publishes, sweeps and reports.

  The ledger and the publisher are the reconciler's own state, the cluster is \<open>'st\<close>. A message is kept typed.
  Logging and the registration with the manager are left out.
\<close>

section \<open>The Policy object\<close>

datatype condition_message =
    AllProcessed nat
  | PartsFailed "(nat \<times> nat) option" "nat option"
  | ErrorText go_error

record condition =
  cd_Type :: string
  cd_Status :: bool
  cd_Reason :: string
  cd_Message :: condition_message
  cd_ObservedGeneration :: int
  cd_LastTransitionTime :: time

record ('q, 'sel) policy_object = "('q, 'sel) policy" +
  po_Generation :: int
  po_DeletionTimestamp :: time
  po_Finalizers :: "string list"
  po_Conditions :: "condition list"

record ('q, 'ls, 'sel, 's, 'm, 'st) policy_reconciler = "('q, 'ls, 'sel, 's, 'st) reconciler" +
  pk_HasInputs :: bool
  pk_HasClock :: bool
  pk_Get :: "string \<Rightarrow> 'st \<Rightarrow> (go_error + ('q, 'sel) policy_object) \<times> 'st"
  pk_Update :: "('q, 'sel) policy_object \<Rightarrow> 'st \<Rightarrow> (go_error + ('q, 'sel) policy_object) \<times> 'st"
  pk_UpdateStatus :: "('q, 'sel) policy_object \<Rightarrow> 'st \<Rightarrow> (go_error + ('q, 'sel) policy_object) \<times> 'st"
  pk_IsNotFound :: "go_error \<Rightarrow> bool"
  pk_Governance :: "('sel, 'm) gov_env"
  pk_Reader :: "'st \<Rightarrow> ('q, 'ls) inv_reader"
  pk_Policies :: "'st \<Rightarrow> go_error + ('q, 'sel, 'm) policies"
  pk_Now :: "'st \<Rightarrow> time"

section \<open>Conditions\<close>

text \<open>The first condition of the type is replaced, a new type appended.\<close>

fun upsert_condition :: "condition \<Rightarrow> condition list \<Rightarrow> condition list" where
  "upsert_condition cond [] = [cond]"
| "upsert_condition cond (c # cs) =
     (if cd_Type c \<noteq> cd_Type cond then c # upsert_condition cond cs
      else (if cd_Status c = cd_Status cond then cond\<lparr>cd_LastTransitionTime := cd_LastTransitionTime c\<rparr> else cond) # cs)"

text \<open>The Policy with the condition set, its update's error and the state.\<close>

definition setCondition ::
  "('q, 'ls, 'sel, 's, 'm, 'st) policy_reconciler \<Rightarrow> ('q, 'sel) policy_object \<Rightarrow> condition \<Rightarrow> 'st \<Rightarrow> go_error option \<times> 'st" where
  "setCondition r policy cond st =
     (let cond' = cond\<lparr>cd_LastTransitionTime := pk_Now r st\<rparr>
      in case pk_UpdateStatus r (policy\<lparr>po_Conditions := upsert_condition cond' (po_Conditions policy)\<rparr>) st of
           (Inl err, st') \<Rightarrow> (Some err, st')
         | (Inr _, st') \<Rightarrow> (None, st'))"

definition new_condition :: "bool \<Rightarrow> string \<Rightarrow> condition_message \<Rightarrow> condition" where
  "new_condition status reason message =
     \<lparr> cd_Type = ''Ready'', cd_Status = status, cd_Reason = reason, cd_Message = message, cd_ObservedGeneration = 0, cd_LastTransitionTime = 0 \<rparr>"

definition failCondition ::
  "('q, 'ls, 'sel, 's, 'm, 'st) policy_reconciler \<Rightarrow> ('q, 'sel) policy_object \<Rightarrow> string \<Rightarrow> go_error \<Rightarrow> 'st \<Rightarrow> go_error \<times> 'st" where
  "failCondition r policy reason err st =
     (err, snd (setCondition r policy ((new_condition False reason (ErrorText err))\<lparr>cd_ObservedGeneration := po_Generation policy\<rparr>) st))"

definition passCondition :: "nat \<Rightarrow> nat \<Rightarrow> nat \<Rightarrow> condition" where
  "passCondition processed failed blocked =
     (if failed = 0 \<and> blocked = 0 then new_condition True ''ReconciliationSucceeded'' (AllProcessed processed)
      else new_condition False ''PartialFailure''
             (PartsFailed (if failed > 0 then Some (failed, processed) else None) (if blocked > 0 then Some blocked else None)))"

section \<open>Standings and cleanup\<close>

definition standingIn :: "('q, 'ls) snapshot_of \<Rightarrow> workload_identity \<Rightarrow> standing" where
  "standingIn snap key =
     (case snapshot_Lookup snap key of
        None \<Rightarrow> StandingUngoverned
      | Some i \<Rightarrow> if identity_Departed i then StandingDeparted
                  else if in_Conflicted i then StandingConflicted
                  else if in_Policy i \<noteq> [] then StandingGoverned else StandingUngoverned)"

definition deleteRecommendations :: "('st \<Rightarrow> nat \<times> go_error wlr_error option \<times> 'st) \<Rightarrow> 'st \<Rightarrow> go_error option \<times> 'st" where
  "deleteRecommendations del st = (case del st of (deleted, err, st') \<Rightarrow> (map_option wlr_go_error err, st'))"

abbreviation finalizerName :: string where "finalizerName \<equiv> ''k8s.sustain.io/cleanup''"

section \<open>The loop\<close>

record reconciler_state =
  rx_ledger :: ledger
  rx_series :: publisher

definition forget_policy :: "string \<Rightarrow> reconciler_state \<Rightarrow> reconciler_state" where
  "forget_policy policy x = \<lparr> rx_ledger = Forget (rx_ledger x) policy, rx_series = forget policy (rx_series x) \<rparr>"

text \<open>Every member that failed gets the Warning its verdict calls for.\<close>

definition warn ::
  "('q, 'ls, 'sel, 's, 'm, 'st) policy_reconciler \<Rightarrow> ('q, 'ls) identity_report list \<Rightarrow> (member_key, event) gomap \<Rightarrow> 'st \<Rightarrow> 'st" where
  "warn r report events st =
     fold (\<lambda>res st. if res_Kind (ao_Result res) \<noteq> Failed then st
                    else case map_of events (member_key_of (ao_member res)) of
                      Some ev \<Rightarrow> rc_Emit r (MemberWarning (member_key_of (ao_member res)) ev) st
                    | None \<Rightarrow> st)
       (concat (map rp_members report)) st"

text \<open>What a reconcile returns: when to run again, zero for not at all, and an error.\<close>

type_synonym reconcile_result = "duration \<times> go_error option"

definition reconcile_deleted ::
  "('q, 'ls, 'sel, 's, 'm, 'st) policy_reconciler \<Rightarrow> ('q, 'sel) policy_object \<Rightarrow> reconciler_state \<Rightarrow> 'st \<Rightarrow>
   reconcile_result \<times> reconciler_state \<times> 'st" where
  "reconcile_deleted r policy x st =
     (if finalizerName \<notin> set (po_Finalizers policy) then ((0, None), x, st)
      else case deleteRecommendations (Release (rc_WLRs r) (p_Name policy)) st of
        (Some err, st1) \<Rightarrow> ((0, Some err), x, st1)
      | (None, st1) \<Rightarrow>
          let x' = forget_policy (p_Name policy) x;
              st2 = rc_Emit r (PolicyEvent (p_Name policy) False ''Cleanup'') st1
          in (case pk_Update r (policy\<lparr>po_Finalizers := filter (\<lambda>f. f \<noteq> finalizerName) (po_Finalizers policy)\<rparr>) st2 of
                (Inl err, st3) \<Rightarrow> ((0, Some err), x', st3)
              | (Inr _, st3) \<Rightarrow> ((0, None), x', st3)))"

definition list_failed ::
  "('q, 'ls, 'sel, 's, 'm, 'st) policy_reconciler \<Rightarrow> ('q, 'sel) policy_object \<Rightarrow> time \<Rightarrow> go_error \<Rightarrow> reconciler_state \<Rightarrow> 'st \<Rightarrow>
   reconcile_result \<times> reconciler_state \<times> 'st" where
  "list_failed r policy start err x st =
     (let st1 = snd (failCondition r policy ''ListFailed'' err st);
          st2 = rc_Emit r (PolicyEvent (p_Name policy) True ''ListFailed'') st1;
          x' = x\<lparr>rx_series := reconciled (p_Name policy) ''error'' (time_sub (pk_Now r st2) start) (rx_series x)\<rparr>
      in ((RequeueAfterListFailure (rc_LedgerClock r st2) (rx_ledger x') (p_Name policy) (rc_ReconcileInterval r), None), x', st2))"

definition settle_pass ::
  "('q, 'ls, 'sel, 's, 'm, 'st) policy_reconciler \<Rightarrow> ('q, 'sel) policy_object \<Rightarrow> time \<Rightarrow> ('q, 'ls) snapshot_of \<Rightarrow>
   ('q, 'ls) identity_report list \<Rightarrow> reconciler_state \<Rightarrow> 'st \<Rightarrow> reconcile_result \<times> reconciler_state \<times> 'st" where
  "settle_pass r policy start snap report x st =
     (let (v, l') = Settle (rc_LedgerClock r st) (rx_ledger x) (p_Name policy) (pass_results report);
          st1 = warn r report (v_Events v) st;
          failed = pass_failed report v; blocked = verdict_Blocked v;
          series = publish (rc_Env r) (p_Name policy) (pass_publication report v) (rx_series x);
          st2 = snd (deleteRecommendations (Sweep (rc_WLRs r) (p_Name policy) (standingIn snap) (sn_TakenAt snap) (lifetimes_of (reconciler.truncate r))) st1);
          cond = (passCondition (pass_processed report) failed blocked)\<lparr>cd_ObservedGeneration := po_Generation policy\<rparr>;
          st3 = snd (setCondition r policy cond st2);
          st4 = rc_Emit r (PolicyEvent (p_Name policy) (\<not> cd_Status cond) (cd_Reason cond)) st3;
          series' = reconciled (p_Name policy) (if cd_Status cond then ''success'' else ''error'') (time_sub (pk_Now r st4) start) series
      in ((RequeueAfter (rc_LedgerClock r st4) l' (p_Name policy) (rc_ReconcileInterval r), None),
          \<lparr> rx_ledger = l', rx_series = series' \<rparr>, st4))"

definition reconcile_live ::
  "('q, 'ls, 'sel, 's, 'm, 'st) policy_reconciler \<Rightarrow> ('q, 'sel) policy_object \<Rightarrow> reconciler_state \<Rightarrow> 'st \<Rightarrow>
   (reconcile_result \<times> reconciler_state \<times> 'st) option" where
  "reconcile_live r policy x st =
     (let start = pk_Now r st
      in case TakeForPolicy (pk_Governance r) (pk_Reader r st) (policy.truncate policy) (pk_Policies r st) (rc_Clock r st) of
           Inl err \<Rightarrow> Some (list_failed r policy start err x st)
         | Inr snap \<Rightarrow>
             map_option (\<lambda>(report, st'). settle_pass r policy start snap report x st')
               (runPass (reconciler.truncate r) (rx_ledger x) (policy.truncate policy) snap st))"

definition Reconcile ::
  "('q, 'ls, 'sel, 's, 'm, 'st) policy_reconciler \<Rightarrow> string \<Rightarrow> reconciler_state \<Rightarrow> 'st \<Rightarrow>
   (reconcile_result \<times> reconciler_state \<times> 'st) option" where
  "Reconcile r name x st =
     (if \<not> pk_HasInputs r then Some ((0, Some (Plain ''recommendation inputs fetcher not configured'')), x, st)
      else if \<not> pk_HasClock r then Some ((0, Some (Plain ''clock not configured'')), x, st)
      else case pk_Get r name st of
        (Inl err, st1) \<Rightarrow>
          Some (if pk_IsNotFound r err then ((0, None), forget_policy name x, st1) else ((0, Some err), x, st1))
      | (Inr policy, st1) \<Rightarrow>
          if po_DeletionTimestamp policy \<noteq> 0 then Some (reconcile_deleted r policy x st1)
          else if finalizerName \<in> set (po_Finalizers policy) then reconcile_live r policy x st1
          else (case pk_Update r (policy\<lparr>po_Finalizers := po_Finalizers policy @ [finalizerName]\<rparr>) st1 of
                  (Inl err, st2) \<Rightarrow> Some ((0, Some err), x, st2)
                | (Inr policy', st2) \<Rightarrow> reconcile_live r policy' x st2))"

section \<open>Kills and orphans\<close>

text \<open>Counting a kill, and the Policy it triggers a pass of, if triggers are enabled.\<close>

definition ObserveOOM :: "bool \<Rightarrow> string \<Rightarrow> workload_identity \<Rightarrow> string \<Rightarrow> reconciler_state \<Rightarrow> string option \<times> reconciler_state" where
  "ObserveOOM triggers policy key container x =
     (if triggers then Some policy else None, x\<lparr>rx_series := observedOOM policy key container (rx_series x)\<rparr>)"

definition applyTuningDefaults :: "int \<times> int \<Rightarrow> int \<times> int" where
  "applyTuningDefaults limits =
     (if fst limits \<le> 0 then 5 else fst limits, if snd limits \<le> 0 then 10 else snd limits)"

definition reap_interval :: "duration \<Rightarrow> duration" where
  "reap_interval interval = (if interval \<le> 0 then 10 * minute else interval)"

definition reap :: "('q, 'sel, go_error, 'st) wlr_client \<Rightarrow> 'st \<Rightarrow> 'st" where
  "reap c st = snd (deleteRecommendations (Reap c) st)"

text \<open>Once at the start and once per tick until the context ends, which the ticks left end with.\<close>

definition reaper_Start :: "('q, 'sel, go_error, 'st) wlr_client \<Rightarrow> ('st \<Rightarrow> 'st) list \<Rightarrow> 'st \<Rightarrow> 'st" where
  "reaper_Start c ticks st = fold (\<lambda>tick st. reap c (tick st)) ticks (reap c st)"

end
