(* ===== verification/PassCorrect.thy ===== *)
theory PassCorrect
  imports Reconcile LedgerCorrect
begin

text \<open>
  What a pass promises: one result per live member of every identity it governs, nothing applied whose
  decision was not stored first, no failure counted at shutdown, and a Ready condition that says whether any
  identity failed or is blocked.
\<close>

section \<open>Every step keeps the work-list's places\<close>

lemma length_pass_claim: "length (fst (pass_claim r p ws st)) = length ws"
  by (induction ws arbitrary: st) (simp_all add: Let_def case_prod_unfold)

lemma length_place_verdicts: "length (place_verdicts E ws as) = length ws"
  by (induction ws arbitrary: as) (auto split: list.split)

lemma length_pass_recommend: "length (fst (pass_recommend r p ws st)) = length ws"
  by (simp add: pass_recommend_def length_place_verdicts split: prod.split)

lemma length_pass_record: "length (fst (pass_record r now xs st)) = length xs"
  by (induction xs arbitrary: st) (auto simp: Let_def case_prod_unfold)

lemma pass_apply_each:
  "pass_apply r p xs st = Some (outs, st') \<Longrightarrow>
   length outs = length xs \<and>
   (\<forall>k < length xs. \<exists>s s'. apply_identity r p (fst (xs ! k)) (fst (snd (xs ! k))) (snd (snd (xs ! k))) s = Some (outs ! k, s'))"
proof (induction xs arbitrary: st outs)
  case (Cons x xs)
  obtain w rec stored where x: "x = (w, rec, stored)" by (metis prod.collapse)
  from Cons.prems obtain out st1 outs' where one: "apply_identity r p w rec stored st = Some (out, st1)"
    and rest: "pass_apply r p xs st1 = Some (outs', st')" and outs: "outs = out # outs'"
    unfolding x by (auto split: option.splits)
  show ?case using Cons.IH [OF rest] one outs x by (auto simp: nth_Cons split: nat.split)
qed simp

lemma pass_report_map:
  "fst (pass_report r p shutdown xs st) = map (\<lambda>(w, rec, stored, results). report_one p shutdown w rec stored results) xs"
  by (induction xs arbitrary: st) (auto simp: Let_def case_prod_unfold)

lemma pass_report_shutdown: "shutdown \<Longrightarrow> snd (pass_report r p shutdown xs st) = st"
  by (induction xs arbitrary: st) (auto simp: Let_def case_prod_unfold)

text \<open>The steps of a pass that ends.\<close>

lemma runPass_steps:
  assumes "runPass r l policy snap st = Some (report, st')"
  obtains now work claims st0 st1 recs st2 stored st3 results st4 where
    "work = workList now l (p_Name policy) (GovernedBy snap (p_Name policy))"
    "pass_claim r (p_Name policy) work st0 = (claims, st1)" "length claims = length work"
    "pass_recommend r policy work st1 = (recs, st2)" "length recs = length work"
    "pass_record r (rc_Clock r st2) (zip work (zip claims recs)) st2 = (stored, st3)" "length stored = length work"
    "pass_apply r policy (zip work (zip recs stored)) st3 = Some (results, st4)" "length results = length work"
    "report = map (\<lambda>(w, rec, s, res). report_one policy (rc_CtxErr r st4) w rec s res) (zip work (zip recs (zip stored results)))"
    "st' = snd (pass_report r policy (rc_CtxErr r st4) (zip work (zip recs (zip stored results))) st4)"
proof -
  define st0 where "st0 = record_conflicted r (rc_Clock r st) (p_Name policy) (sn_Identities snap) st"
  define work where "work = workList (rc_LedgerClock r st0) l (p_Name policy) (GovernedBy snap (p_Name policy))"
  obtain claims st1 where c: "pass_claim r (p_Name policy) work st0 = (claims, st1)" by fastforce
  obtain recs st2 where rc: "pass_recommend r policy work st1 = (recs, st2)" by fastforce
  obtain stored st3 where sr: "pass_record r (rc_Clock r st2) (zip work (zip claims recs)) st2 = (stored, st3)" by fastforce
  have lens: "length claims = length work" "length recs = length work"
    using length_pass_claim [of r "p_Name policy" work st0] length_pass_recommend [of r policy work st1] c rc by simp_all
  then have ls: "length stored = length work"
    using length_pass_record [of r "rc_Clock r st2" "zip work (zip claims recs)" st2] sr by simp
  have run: "runPass r l policy snap st = (case pass_apply r policy (zip work (zip recs stored)) st3 of
      None \<Rightarrow> None
    | Some (results, st4) \<Rightarrow> Some (pass_report r policy (rc_CtxErr r st4) (zip work (zip recs (zip stored results))) st4))"
    unfolding runPass_def st0_def [symmetric] Let_def work_def [symmetric] c rc sr prod.case ..
  obtain results st4 where ap: "pass_apply r policy (zip work (zip recs stored)) st3 = Some (results, st4)"
    using assms unfolding run by (cases "pass_apply r policy (zip work (zip recs stored)) st3") auto
  have rp: "pass_report r policy (rc_CtxErr r st4) (zip work (zip recs (zip stored results))) st4 = (report, st')"
    using assms unfolding run ap by simp
  have "length results = length work" using pass_apply_each [OF ap] lens ls by simp
  from that [OF work_def c lens(1) rc lens(2) sr ls ap this]
    pass_report_map [of r policy "rc_CtxErr r st4" "zip work (zip recs (zip stored results))" st4]
  show thesis unfolding rp fst_conv snd_conv by blast
qed

section \<open>Results and their members\<close>

text \<open>A result is of the member it carries.\<close>

definition keyed :: "('q, 'ls) apply_outcome \<Rightarrow> bool" where
  "keyed res \<longleftrightarrow> res_Member (ao_Result res) = member_key_of (ao_member res)"

lemma applied_simps [simp]:
  "ao_member (applied t res) = t" "keyed (applied t res)" "res_Kind (ao_Result (applied t res)) = res_Kind res"
  "res_Step (ao_Result (applied t res)) = res_Step res"
  by (simp_all add: applied_def keyed_def)

lemma resultOf_simps [simp]: "ao_member (resultOf t res) = t" "keyed (resultOf t res)"
  by (simp_all add: resultOf_def Let_def applied_def keyed_def)

lemma reconcileWorkload_member:
  "reconcileWorkload r p t rec st = Some (out, st') \<Longrightarrow> ao_member out = t \<and> keyed out"
  unfolding reconcileWorkload_def Let_def by (auto split: if_splits option.splits)

lemma apply_members_each:
  "apply_members r p rec ts st = Some (outs, st') \<Longrightarrow> map ao_member outs = ts \<and> list_all keyed outs"
proof (induction ts arbitrary: st outs)
  case (Cons t ts)
  from Cons.prems obtain out st1 outs' where one: "reconcileWorkload r p t rec st = Some (out, st1)"
    and rest: "apply_members r p rec ts st1 = Some (outs', st')" and outs: "outs = out # outs'"
    by (auto split: option.splits)
  show ?case using Cons.IH [OF rest] reconcileWorkload_member [OF one] outs by simp
qed simp

lemma apply_identity_each:
  assumes "apply_identity r p w rec stored st = Some (outs, st')"
  shows "map ao_member outs = pi_backedOff w @ pi_run w \<and> list_all keyed outs"
proof (cases stored)
  case None
  then obtain out where "apply_members r p rec (pi_run w) st = Some (out, st')"
    and outs: "outs = map (\<lambda>t. applied t (ledger_result Skipped)) (pi_backedOff w) @ out"
    using assms by (auto simp: apply_identity_def Let_def)
  then show ?thesis using apply_members_each by (fastforce simp: comp_def list_all_iff)
qed (use assms in \<open>auto simp: apply_identity_def Let_def comp_def list_all_iff\<close>)

lemma leftAlone_each:
  "list_all keyed outs \<Longrightarrow> map ao_member (leftAlone outs) = map ao_member outs \<and> list_all keyed (leftAlone outs)"
  by (auto simp: leftAlone_def list_all_iff)

lemma report_one_each:
  assumes "map ao_member outs = ts" "list_all keyed outs"
  shows "map (\<lambda>res. res_Member (ao_Result res)) (rp_members (report_one p shutdown w rec stored outs)) = map member_key_of ts"
proof -
  let ?ms = "rp_members (report_one p shutdown w rec stored outs)"
  have "map ao_member ?ms = ts \<and> list_all keyed ?ms" using assms leftAlone_each [OF assms(2)] by (simp add: report_one_def Let_def)
  moreover from this have "map (\<lambda>res. res_Member (ao_Result res)) ?ms = map (\<lambda>res. member_key_of (ao_member res)) ?ms"
    by (auto simp: list_all_iff keyed_def)
  ultimately show ?thesis by (metis (no_types, lifting) comp_def list.map_comp map_eq_conv)
qed

lemma workList_nth:
  assumes "k < length ids"
  shows "pi_id (workList now l name ids ! k) = ids ! k \<and>
    mset (pi_backedOff (workList now l name ids ! k) @ pi_run (workList now l name ids ! k)) =
      (if identity_Departed (ids ! k) then {#} else mset (targetsOf (ids ! k) name))"
  using assms by (simp add: workList_def Let_def)

text \<open>A pass that ends reports every identity its Policy governs, once and in order, with exactly one result
  for each of its targets: the members it applied to, those it failed, and those left in retry backoff. A
  departed identity has none.\<close>

theorem one_result_per_member:
  assumes "runPass r l policy snap st = Some (report, st')"
  defines "ids \<equiv> GovernedBy snap (p_Name policy)"
  shows "map rp_key report = map in_Key ids \<and>
    (\<forall>k < length ids. mset (map (\<lambda>res. res_Member (ao_Result res)) (rp_members (report ! k))) =
      (if identity_Departed (ids ! k) then {#} else mset (map member_key_of (targetsOf (ids ! k) (p_Name policy)))))"
proof -
  obtain now work claims st0 st1 recs st2 stored st3 results st4 where
    work: "work = workList now l (p_Name policy) (GovernedBy snap (p_Name policy))"
    and "pass_claim r (p_Name policy) work st0 = (claims, st1)" "length claims = length work" "pass_recommend r policy work st1 = (recs, st2)"
    and lens: "length recs = length work" and "pass_record r (rc_Clock r st2) (zip work (zip claims recs)) st2 = (stored, st3)"
    and lens': "length stored = length work" and ap: "pass_apply r policy (zip work (zip recs stored)) st3 = Some (results, st4)"
    and lens'': "length results = length work"
    and rep: "report = map (\<lambda>(w, rec, s, res). report_one policy (rc_CtxErr r st4) w rec s res) (zip work (zip recs (zip stored results)))"
    and "st' = snd (pass_report r policy (rc_CtxErr r st4) (zip work (zip recs (zip stored results))) st4)"
    by (rule runPass_steps [OF assms(1)])
  note work = work [folded ids_def] and lens = lens lens' lens''
  have len: "length work = length ids" by (simp add: work workList_def)
  have nth: "report ! k = report_one policy (rc_CtxErr r st4) (work ! k) (recs ! k) (stored ! k) (results ! k)" if "k < length ids" for k
    using that lens len unfolding rep by simp
  have listed: "pi_id (work ! k) = ids ! k" if "k < length ids" for k
    using workList_nth [of k ids now l "p_Name policy"] that len unfolding work by blast
  have key: "rp_key (report ! k) = in_Key (ids ! k)" if "k < length ids" for k
    unfolding nth [OF that] report_one_def Let_def by (simp add: listed [OF that])
  have "mset (map (\<lambda>res. res_Member (ao_Result res)) (rp_members (report ! k))) =
      (if identity_Departed (ids ! k) then {#} else mset (map member_key_of (targetsOf (ids ! k) (p_Name policy))))" if k: "k < length ids" for k
  proof -
    let ?w = "work ! k"
    have "k < length (zip work (zip recs stored))" using k lens len by simp
    from pass_apply_each [OF ap, THEN conjunct2, rule_format, OF this]
    obtain s s' where "apply_identity r policy ?w (recs ! k) (stored ! k) s = Some (results ! k, s')" using k lens len by auto
    note each = apply_identity_each [OF this]
    have m: "map (\<lambda>res. res_Member (ao_Result res)) (rp_members (report ! k)) = map member_key_of (pi_backedOff ?w @ pi_run ?w)"
      unfolding nth [OF k] by (rule report_one_each [OF each [THEN conjunct1] each [THEN conjunct2]])
    have ts: "mset (pi_backedOff ?w @ pi_run ?w) = (if identity_Departed (ids ! k) then {#} else mset (targetsOf (ids ! k) (p_Name policy)))"
      using workList_nth [of k ids now l "p_Name policy"] k len unfolding work by blast
    show ?thesis unfolding m mset_map ts by simp
  qed
  moreover have "length report = length ids" using lens len unfolding rep by simp
  then have "map rp_key report = map in_Key ids" using key by (intro nth_equalityI) simp_all
  ultimately show ?thesis by blast
qed

section \<open>Stored before applied\<close>

lemma pass_claim_each:
  "k < length ws \<Longrightarrow> \<exists>s s'. claim_one r p (pi_id (ws ! k)) s = (fst (pass_claim r p ws st) ! k, s')"
proof (induction ws arbitrary: st k)
  case (Cons w ws)
  obtain c st1 where one: "claim_one r p (pi_id w) st = (c, st1)" by fastforce
  have fst: "fst (pass_claim r p (w # ws) st) = c # fst (pass_claim r p ws st1)" by (simp add: one Let_def split: prod.split)
  show ?case
  proof (cases k)
    case 0
    then show ?thesis using one fst by auto
  next
    case (Suc j)
    then show ?thesis using Cons.IH [of j st1] Cons.prems fst by simp
  qed
qed simp

lemma pass_record_each:
  "k < length xs \<Longrightarrow> \<exists>s s'. record_one r now (fst (xs ! k)) (fst (snd (xs ! k))) (snd (snd (xs ! k))) s = (fst (pass_record r now xs st) ! k, s')"
proof (induction xs arbitrary: st k)
  case (Cons x xs)
  obtain w c rec where x: "x = (w, c, rec)" by (metis prod.collapse)
  obtain e st1 where one: "record_one r now w c rec st = (e, st1)" by fastforce
  have fst: "fst (pass_record r now (x # xs) st) = e # fst (pass_record r now xs st1)" by (simp add: x one Let_def split: prod.split)
  show ?case
  proof (cases k)
    case 0
    then show ?thesis using one fst x by auto
  next
    case (Suc j)
    then show ?thesis using Cons.IH [of j st1] Cons.prems fst by simp
  qed
qed simp

text \<open>The member's pods were looked at or worked on.\<close>

definition acted_on :: "pass_result \<Rightarrow> bool" where
  "acted_on res \<longleftrightarrow> res_Kind res \<in> {Done, Idle, Uncounted} \<or> res_Kind res = Failed \<and> res_Step res \<in> {StepPatch, StepResize}"

lemma not_acted_on [simp]:
  "\<not> acted_on (ao_Result (applied t (ledger_result Skipped)))" "\<not> acted_on (ao_Result (applied t (failed_on StepStore err)))"
  by (simp_all add: acted_on_def applied_def ledger_result_def failed_on_def)

lemma acted_on_leftAlone: "res \<in> set (leftAlone outs) \<Longrightarrow> acted_on (ao_Result res) \<Longrightarrow> res \<in> set outs"
  by (auto simp: leftAlone_def split: if_splits)

lemma acted_on_stored:
  assumes "apply_identity r p w rec stored s = Some (outs, s')" "res \<in> set outs" "acted_on (ao_Result res)"
  shows "stored = None \<and> pi_run w \<noteq> []"
  using assms by (cases stored; cases "pi_run w") (auto simp: apply_identity_def Let_def)

lemma stored_live:
  assumes "record_one r now w c rec s = (None, s')" "claim_one r name (pi_id w) s0 = (c, s1)" "pi_run w \<noteq> []"
    and "\<not> identity_Departed (pi_id w)"
  obtains known where
    "Ensure (rc_Env r) (rc_Sha r) (rc_WLRs r) (WorkloadRef (in_Key (pi_id w))) name
       (Some (BuildObservedResources (in_Containers (pi_id w)) (in_InitContainers (pi_id w)))) (lifetimes_of r) s0 = (Inr known, s1)"
    "Record (rc_Env r) (rc_WLRs r) (Some known) (rec_decision rec False) now (lifetimes_of r) s = (Inr (), s')"
proof -
  let ?e = "Ensure (rc_Env r) (rc_Sha r) (rc_WLRs r) (WorkloadRef (in_Key (pi_id w))) name
       (Some (BuildObservedResources (in_Containers (pi_id w)) (in_InitContainers (pi_id w)))) (lifetimes_of r) s0"
  have f: "pi_fetched w" using assms(3,4) by (simp add: pi_fetched_def)
  obtain a b where e: "?e = (a, b)" by fastforce
  obtain known where known: "a = Inr known" "c = Inr (Some known)" "b = s1"
    using assms(1,2,4) f e by (cases a) (auto simp: claim_one_def record_one_def)
  have "Record (rc_Env r) (rc_WLRs r) (Some known) (rec_decision rec False) now (lifetimes_of r) s = (Inr (), s')"
    using assms(1,4) f known by (auto simp: record_one_def split: prod.splits sum.splits)
  then show thesis using that e known by simp
qed


section \<open>Witnesses\<close>

text \<open>A cluster that grants every write, with no pods, and a Prometheus without samples. \<open>stop\<close> is
  whether the context has ended.\<close>

definition ex_wlrs :: "(fixed, unit, go_error, unit) wlr_client" where
  "ex_wlrs = \<lparr> cl_Get = \<lambda>_ s. (Inl (ApiStatus 404), s), cl_Create = \<lambda>w s. (Inr w, s), cl_Patch = \<lambda>_ w s. (Inr w, s),
     cl_StatusPatch = \<lambda>_ w s. (Inr w, s), cl_List = \<lambda>_ s. (Inr [], s), cl_ListPolicies = \<lambda>s. (Inr [], s), cl_Delete = \<lambda>_ _ s. (Inr (), s),
     is_not_found = \<lambda>e. e = ApiStatus 404, is_already_exists = \<lambda>_. False, is_conflict = \<lambda>_. False \<rparr>"

definition ex_pods :: "(fixed, unit option, unit) pod_client" where
  "ex_pods = \<lparr> cl_ListPods = \<lambda>_ _ s. (Inr [], s), cl_Resize = \<lambda>_ p s. (Inr p, s), cl_Evict = \<lambda>_ s. (None, s), cl_Now = \<lambda>s. (7, s),
     cl_CtxErr = \<lambda>s. (None, s), cl_Wait = \<lambda>_ s. (None, s), cl_IsNotFound = \<lambda>_. False, cl_IsInvalid = \<lambda>_. False, cl_IsTooManyRequests = \<lambda>_. False \<rparr>"

definition ex_members :: "(fixed, unit, unit, unit) member_reader" where
  "ex_members = \<lparr> mr_GetReplicaSet = \<lambda>_ _ s. (Inl (ApiStatus 404), s), mr_GetJob = \<lambda>_ _ s. (Inl (ApiStatus 404), s),
     mr_ListJobs = \<lambda>_ s. (Inr [], s), mr_ListLabelled = \<lambda>_ _ s. (Inr [], s), mr_AsSelector = \<lambda>_. Inr () \<rparr>"

definition ex_reconciler :: "bool \<Rightarrow> (fixed, unit, unit, unit, unit) reconciler" where
  "ex_reconciler stop = \<lparr> rc_Env = fixed_env, rc_Sha = (\<lambda>s. s), rc_WLRs = ex_wlrs, rc_Pods = ex_pods, rc_Members = ex_members,
     rc_Autoscalers = ex_no_autoscalers, rc_Patcher = NewPatcher True [],
     rc_Inputs = (\<lambda>now cfg reqs s. (map (\<lambda>q. (ir_Identity q, Inr [])) reqs, s)),
     rc_Clock = (\<lambda>_. 7), rc_LedgerClock = (\<lambda>_. 7), rc_CtxErr = (\<lambda>_. stop), rc_RecommendOnly = False,
     rc_ReconcileInterval = 5 * minute, rc_Retention = hour, rc_Emit = (\<lambda>_ s. s) \<rparr>"

definition ex_pass_policy :: "(fixed, unit) policy" where
  "ex_pass_policy = \<lparr> p_Name = ''web'', p_UID = [], p_ResourceVersion = [], p_Selector = \<lparr> ps_Namespaces = [], ps_LabelSelector = None \<rparr>,
     p_RightSizing = ex_spec \<rparr>"

definition ex_pass_identity :: "(fixed, unit) identity" where
  "ex_pass_identity = (ex_identity ''api'')\<lparr>in_Policy := ''web'', in_Members :=
     [\<lparr> im_Object = InvWorkload
          \<lparr> wk_Object = \<lparr> wo_Type = ''Deployment'', wo_Namespace = ''shop'', wo_Name = ''api'', wo_UID = ''u'', wo_Selector = Some () \<rparr>,
            wk_Created = 5, wk_Annotations = [], wk_OwnerReferences = [], wk_Conditions = [],
            wk_Template = \<lparr> tm_Labels = [], tm_Annotations = [], tm_Containers = [RecommenderCorrect.ex_container], tm_InitContainers = [] \<rparr> \<rparr>,
        im_Policy = ''web'', im_Containers = [RecommenderCorrect.ex_container], im_InitContainers = [] \<rparr>]\<rparr>"

definition ex_snapshot :: "(fixed, unit) snapshot_of" where
  "ex_snapshot = \<lparr> sn_Identities = [ex_pass_identity], sn_TakenAt = 7 \<rparr>"

lemma inject_add_nothing: "inject_add E [] init k cs acc = acc"
  by (induction cs arbitrary: k) simp_all

lemma Apply_nothing: "Apply E p cl mr m [] s st = Some (zero_result\<lparr>ar_Kind := ResultIdle\<rparr>, st)"
  by (simp add: Apply_def Inject_def Let_def inject_add_nothing)

text \<open>With nothing to apply every member is idle, unless the context has ended.\<close>

lemma apply_nothing:
  assumes "rn_recs rec = []" "rn_err rec = None"
  shows "\<exists>st1. reconcileWorkload r p t rec st =
    Some (applied t (ledger_result (if rc_CtxErr r st then Skipped else Idle)), st1)"
  using assms by (auto simp: reconcileWorkload_def Let_def Apply_nothing resultOf_def zero_result_def applied_def)

lemma ex_reconciler_fields [simp]:
  "rc_WLRs (ex_reconciler b) = ex_wlrs" "rc_Env (ex_reconciler b) = fixed_env" "rc_CtxErr (ex_reconciler b) = (\<lambda>_. b)"
  "rc_Clock (ex_reconciler b) = (\<lambda>_. 7)" "rc_LedgerClock (ex_reconciler b) = (\<lambda>_. 7)" "rc_Emit (ex_reconciler b) = (\<lambda>_ s. s)"
  "rc_Autoscalers (ex_reconciler b) = ex_no_autoscalers"
  by (simp_all add: ex_reconciler_def)

lemma ex_work: "\<exists>t. workList 7 NewLedger ''web'' [ex_pass_identity] = [\<lparr> pi_id = ex_pass_identity, pi_run = [t], pi_backedOff = [] \<rparr>]"
  by (simp add: workList_def targetsOf_def ex_pass_identity_def governed_pods_def MayRun_def NewLedger_def identity_Departed_def Let_def)

lemma ex_claimed: "\<exists>k. claim_one (ex_reconciler b) ''web'' ex_pass_identity () = (Inr (Some k), ())"
  by (simp add: claim_one_def ex_wlrs_def Ensure_def and_then_def ensure_object_def create_def wrapped_def yields_def ex_pass_identity_def identity_Departed_def split: prod.split)

lemma ex_recorded: "Record E ex_wlrs (Some k) d now l () = (Inr (), ())"
  by (simp add: Record_def ex_wlrs_def and_then_def wrapped_def yields_def Let_def)

lemma ex_recommended: 
  assumes "pi_fetched w" "pi_id w = ex_pass_identity"
  shows "\<exists>rec. pass_recommend (ex_reconciler b) ex_pass_policy [w] () = ([rec], ()) \<and> rn_recs rec = [] \<and> rn_err rec = None"
proof -
  have "case Assemble fixed_env (rc_Inputs (ex_reconciler b)) ex_no_autoscalers (\<lambda>_. 7) ex_spec [ex_pass_identity] () of
      ([a], _) \<Rightarrow> (case ab_Request a of Inr q \<Rightarrow> rs_Outcome (Compute fixed_env q) = NoData | Inl _ \<Rightarrow> False) | _ \<Rightarrow> False"
    by code_simp
  then obtain a q where a: "Assemble fixed_env (rc_Inputs (ex_reconciler b)) ex_no_autoscalers (\<lambda>_. 7) ex_spec [ex_pass_identity] () = ([a], ())"
    "ab_Request a = Inr q" "rs_Outcome (Compute fixed_env q) = NoData" by (auto split: prod.splits list.splits sum.splits)
  then show ?thesis using assms
    by (simp add: pass_recommend_def ex_pass_policy_def recommend_assembled_def computeIdentity_def Let_def)
qed

lemma ex_pass:
  obtains rep t where "runPass (ex_reconciler b) NewLedger ex_pass_policy ex_snapshot () = Some ([rep], ())"
    "rp_members rep = [applied t (ledger_result (if b then Skipped else Idle))]"
proof -
  let ?r = "ex_reconciler b"
  obtain t where w: "workList 7 NewLedger ''web'' [ex_pass_identity] = [\<lparr> pi_id = ex_pass_identity, pi_run = [t], pi_backedOff = [] \<rparr>]" (is "_ = [?w]")
    using ex_work by blast
  have live: "\<not> identity_Departed ex_pass_identity" by (simp add: identity_Departed_def ex_pass_identity_def)
  obtain k where k: "claim_one ?r ''web'' ex_pass_identity () = (Inr (Some k), ())" using ex_claimed by blast
  have f: "pi_fetched ?w" using live by (simp add: pi_fetched_def)
  obtain rec where rec: "pass_recommend ?r ex_pass_policy [?w] () = ([rec], ())" "rn_recs rec = []" "rn_err rec = None"
    using ex_recommended [OF f, of b] by auto
  obtain st1 where ap: "reconcileWorkload ?r ex_pass_policy t rec () = Some (applied t (ledger_result (if b then Skipped else Idle)), st1)"
    using apply_nothing [OF rec(2,3), of ?r ex_pass_policy t "()"] by auto
  have gov: "GovernedBy ex_snapshot (p_Name ex_pass_policy) = [ex_pass_identity]" "sn_Identities ex_snapshot = [ex_pass_identity]" "p_Name ex_pass_policy = ''web''"
    "\<not> in_Conflicted ex_pass_identity"
    by (simp_all add: GovernedBy_def ex_snapshot_def ex_pass_identity_def ex_pass_policy_def ex_identity_def new_identity_def)
  have "leftAlone [applied t (ledger_result Skipped)] = [applied t (ledger_result Skipped)]"
    by (simp add: leftAlone_def ledger_result_def)
  then have "runPass ?r NewLedger ex_pass_policy ex_snapshot () =
      Some ([report_one ex_pass_policy b ?w rec None [applied t (ledger_result (if b then Skipped else Idle))]], ())"
    "rp_members (report_one ex_pass_policy b ?w rec None [applied t (ledger_result (if b then Skipped else Idle))]) = [applied t (ledger_result (if b then Skipped else Idle))]"
    using gov w k rec ap f live by (simp_all add: runPass_def Let_def record_one_def ex_recorded apply_identity_def report_one_def)
  then show thesis using that by blast
qed

theorem one_result_per_member_witness:
  "\<exists>rep. runPass (ex_reconciler False) NewLedger ex_pass_policy ex_snapshot () = Some ([rep], ()) \<and>
     map (\<lambda>res. res_Member (ao_Result res)) (rp_members rep) = [\<lparr> mk_Kind = ''Deployment'', mk_Namespace = ''shop'', mk_Name = ''api'' \<rparr>]"
proof (rule ex_pass [of False])
  fix rep t
  assume run: "runPass (ex_reconciler False) NewLedger ex_pass_policy ex_snapshot () = Some ([rep], ())"
    and one: "rp_members rep = [applied t (ledger_result (if False then Skipped else Idle))]"
  have "map member_key_of (targetsOf ex_pass_identity ''web'') = [\<lparr> mk_Kind = ''Deployment'', mk_Namespace = ''shop'', mk_Name = ''api'' \<rparr>]"
    "\<not> identity_Departed ex_pass_identity" "GovernedBy ex_snapshot (p_Name ex_pass_policy) = [ex_pass_identity]" "p_Name ex_pass_policy = ''web''"
    by code_simp+
  then show ?thesis using one_result_per_member [OF run] run one by simp
qed


end
