(* ===== verification/ReconcileCorrect.thy ===== *)
theory ReconcileCorrect
  imports PassCorrect WlrCacheCorrect
begin

text \<open>
  What a reconcile makes of a pass: what the ledger settles from its results, the failures it counts, the Ready
  condition it leaves, and how a deleted Policy is let go.
\<close>

section \<open>What a settled pass counts\<close>

definition failures_in :: "pass_result list \<Rightarrow> int" where
  "failures_in rs = int (length (filter (\<lambda>res. res_Kind res = Failed) rs))"

lemma record_failed: "fst (snd (recordLocked now l res)) = (res_Kind res = Failed)"
  by (auto simp: recordLocked_def Let_def split: prod.split)

lemma settle_results_count: "fst (snd (settle_results now rs (evs, n, l))) = n + failures_in rs"
proof (induction rs arbitrary: evs n l)
  case (Cons res rs)
  obtain ev failed l1 where r: "recordLocked now l res = (ev, failed, l1)" by (cases "recordLocked now l res") auto
  then have "failed = (res_Kind res = Failed)" using record_failed [of now l res] by simp
  then show ?case using r Cons.IH by (auto simp: failures_in_def split: option.split)
qed (simp add: failures_in_def)

lemma settle_identities_count:
  assumes "wf_map pass" "set (gkeys pass) \<inter> set (gkeys att) = {}"
  shows "lookup_or 0 (fst (snd (settle_identities now pass (evs, att, cs, l)))) i =
    (case map_of pass i of Some rs \<Rightarrow> failures_in rs | None \<Rightarrow> lookup_or 0 att i)"
  using assms
proof (induction pass arbitrary: evs att cs l)
  case (Cons x pass)
  obtain j rs where x: "x = (j, rs)" by fastforce
  obtain evs1 n l1 where r: "settle_results now rs (evs, 0, l) = (evs1, n, l1)" by (cases "settle_results now rs (evs, 0, l)") auto
  then have n: "n = failures_in rs" using settle_results_count [of now rs evs 0 l] by simp
  let ?att = "if n = 0 then att else AList.update j n att"
  have wf: "wf_map pass" "j \<notin> set (gkeys pass)" using Cons.prems(1) x by (simp_all add: wf_map_def)
  have "set (gkeys ?att) \<subseteq> insert j (set (gkeys att))" by (auto simp: keys_update simp del: set_map)
  moreover have "set (gkeys pass) \<inter> insert j (set (gkeys att)) = {}" using wf(2) Cons.prems(2) x by auto
  ultimately have "set (gkeys pass) \<inter> set (gkeys ?att) = {}" by blast
  note ih = Cons.IH [OF wf(1) this, of evs1 "AList.update j (map res_Member rs) cs" l1]
  have none: "map_of att j = None" "map_of pass j = None"
    using Cons.prems(2) x wf(2) by (simp_all add: map_of_eq_None_iff)
  have step: "settle_identities now (x # pass) (evs, att, cs, l) =
      settle_identities now pass (evs1, ?att, AList.update j (map res_Member rs) cs, l1)" by (simp add: x r)
  have att: "lookup_or 0 ?att i = (if i = j then n else lookup_or 0 att i)" using none(1) by (simp add: lookup_or_def)
  show ?case unfolding step ih att using none(2) by (simp add: x n split: option.split)
qed simp

text \<open>The health a settled pass gives an identity it has results for.\<close>

lemma settle_health:
  assumes "Settle now l policy pass = (v, l')" "wf_map pass"
  shows "map_of (v_Identities v) i = map_option (\<lambda>rs. (healthLocked l' i)\<lparr>h_Attempts := failures_in rs\<rparr>) (map_of pass i)"
proof -
  obtain evs att cs l1 where s: "settle_identities now pass ([], [], [], l) = (evs, att, cs, l1)" by (metis prod.collapse)
  have l': "l' = claimLocked l1 policy (Some cs)"
    and v: "v_Identities v = map_by fst (\<lambda>(i, _). (healthLocked l' i)\<lparr>h_Attempts := lookup_or 0 att i\<rparr>) pass"
    using assms(1) s by (auto simp: Settle_def Let_def)
  have att: "lookup_or 0 att i = (case map_of pass i of Some rs \<Rightarrow> failures_in rs | None \<Rightarrow> 0)" for i
    using settle_identities_count [OF assms(2), of "[]" now "[]" "[]" l i] s by (simp add: lookup_or_def split: option.split)
  show ?thesis
  proof (cases "map_of pass i")
    case None
    then have "find (\<lambda>x. fst x = i) (rev pass) = None" by (force simp: find_None_iff map_of_eq_None_iff)
    then show ?thesis by (simp add: v map_of_map_by None)
  next
    case (Some rs)
    then have "(i, rs) \<in> set pass" by (rule map_of_SomeD)
    then obtain x where x: "find (\<lambda>x. fst x = i) (rev pass) = Some x" by (cases "find (\<lambda>x. fst x = i) (rev pass)") (auto simp: find_None_iff)
    then have "fst x = i" using find_Some_set [OF x] by simp
    then show ?thesis using x Some att [of i] by (simp add: v map_of_map_by case_prod_unfold)
  qed
qed

lemma failures_in_pos: "failures_in rs > 0 \<longleftrightarrow> (\<exists>res\<in>set rs. res_Kind res = Failed)"
  by (auto simp: failures_in_def filter_empty_conv)

lemma health_Blocked_iff: "health_Blocked ((healthLocked l i)\<lparr>h_Attempts := n\<rparr>) \<longleftrightarrow> (\<exists>m\<in>set (claimedLocked l i). failure_of l m \<noteq> None)"
  using health_fold [of l "claimedLocked l i" zero_health] by (simp add: health_Blocked_def healthLocked_def zero_health_def Let_def)

section \<open>Ready\<close>

lemma pass_results_of:
  assumes "distinct (map rp_key report)" "rep \<in> set report"
  shows "map_of (pass_results report) (rp_key rep) = (if rp_departed rep then None else Some (map ao_Result (rp_members rep)))"
proof -
  let ?live = "filter (\<lambda>rep. \<not> rp_departed rep) report"
  have only: "x = rep" if "x \<in> set report" "rp_key x = rp_key rep" for x
    using that assms by (metis distinct_map inj_on_def)
  show ?thesis
  proof (cases "rp_departed rep")
    case True
    then have "find (\<lambda>x. rp_key x = rp_key rep) (rev ?live) = None" using only by (auto simp: find_None_iff)
    then show ?thesis using True by (simp add: pass_results_def map_of_map_by)
  next
    case False
    then have "rep \<in> set (rev ?live)" using assms(2) by simp
    then obtain x where x: "find (\<lambda>x. rp_key x = rp_key rep) (rev ?live) = Some x"
      by (cases "find (\<lambda>x. rp_key x = rp_key rep) (rev ?live)") (auto simp: find_None_iff)
    then have "x \<in> set report" "rp_key x = rp_key rep" using find_Some_set by fastforce+
    then have "x = rep" by (rule only)
    then show ?thesis using x False by (simp add: pass_results_def map_of_map_by)
  qed
qed

text \<open>C28. After a pass a Policy is Ready exactly when no departed identity it governs failed, no member of a live one
  failed this pass, and no member any Policy claims for one has a failure standing, so a member skipped in
  retry backoff keeps the Policy from being Ready.\<close>

theorem ready_iff_none_failed_or_blocked:
  assumes "Settle now l name (pass_results report) = (v, l')" "distinct (map rp_key report)"
  shows "cd_Status (passCondition n (pass_failed report v) (verdict_Blocked v)) \<longleftrightarrow>
    (\<forall>rep \<in> set report. \<not> rp_failed rep \<and>
      (\<not> rp_departed rep \<longrightarrow> (\<forall>res \<in> set (rp_members rep). res_Kind (ao_Result res) \<noteq> Failed) \<and>
        (\<forall>m \<in> set (claimedLocked l' (rp_key rep)). failure_of l' m = None)))"
proof -
  have wf: "wf_map (pass_results report)" by (simp add: pass_results_def)
  note health = settle_health [OF assms(1) wf]
  have failed: "health_Failed (lookup_or zero_health (v_Identities v) (rp_key rep)) \<longleftrightarrow>
      \<not> rp_departed rep \<and> (\<exists>res \<in> set (rp_members rep). res_Kind (ao_Result res) = Failed)" if "rep \<in> set report" for rep
    using failures_in_pos [of "map ao_Result (rp_members rep)"]
    by (simp add: lookup_or_def health pass_results_of [OF assms(2) that] health_Failed_def zero_health_def)
  have wfv: "wf_map (v_Identities v)" using assms(1) by (auto simp: Settle_def Let_def split: prod.splits)
  have "verdict_Blocked v = 0 \<longleftrightarrow> (\<forall>i h. map_of (v_Identities v) i = Some h \<longrightarrow> \<not> health_Blocked h)"
    unfolding wf_map_mem [OF wfv] by (auto simp: verdict_Blocked_def filter_empty_conv)
  also have "\<dots> \<longleftrightarrow> (\<forall>i rs. map_of (pass_results report) i = Some rs \<longrightarrow> (\<forall>m\<in>set (claimedLocked l' i). failure_of l' m = None))"
  proof -
    have "(\<forall>i h. map_of (v_Identities v) i = Some h \<longrightarrow> \<not> health_Blocked h) \<longleftrightarrow>
        (\<forall>i rs. map_of (pass_results report) i = Some rs \<longrightarrow> \<not> health_Blocked ((healthLocked l' i)\<lparr>h_Attempts := failures_in rs\<rparr>))"
      unfolding health map_option_eq_Some by blast
    then show ?thesis unfolding health_Blocked_iff by simp
  qed
  also have "\<dots> \<longleftrightarrow> (\<forall>rep \<in> set report. \<not> rp_departed rep \<longrightarrow> (\<forall>m \<in> set (claimedLocked l' (rp_key rep)). failure_of l' m = None))" (is "?all \<longleftrightarrow> ?each")
  proof
    assume all: ?all
    show ?each
    proof (intro ballI impI)
      fix rep m
      assume rep: "rep \<in> set report" "\<not> rp_departed rep" and m: "m \<in> set (claimedLocked l' (rp_key rep))"
      have "map_of (pass_results report) (rp_key rep) = Some (map ao_Result (rp_members rep))" using pass_results_of [OF assms(2) rep(1)] rep(2) by simp
      with all m show "failure_of l' m = None" by blast
    qed
  next
    assume each: ?each
    show ?all
    proof (intro allI impI)
      fix i rs
      assume "map_of (pass_results report) i = Some rs"
      then obtain rep where "find (\<lambda>x. rp_key x = i) (rev (filter (\<lambda>rep. \<not> rp_departed rep) report)) = Some rep"
        by (auto simp: pass_results_def map_of_map_by)
      then have "rep \<in> set report" "\<not> rp_departed rep" "rp_key rep = i" using find_Some_set by fastforce+
      with each show "\<forall>m\<in>set (claimedLocked l' i). failure_of l' m = None" by blast
    qed
  qed
  finally have blocked: "verdict_Blocked v = 0 \<longleftrightarrow>
      (\<forall>rep \<in> set report. \<not> rp_departed rep \<longrightarrow> (\<forall>m \<in> set (claimedLocked l' (rp_key rep)). failure_of l' m = None))" .
  have counted: "pass_failed report v = 0 \<longleftrightarrow> (\<forall>rep \<in> set report. \<not> rp_failed rep \<and>
      (\<not> rp_departed rep \<longrightarrow> (\<forall>res \<in> set (rp_members rep). res_Kind (ao_Result res) \<noteq> Failed)))"
    using failed by (auto simp: pass_failed_def filter_empty_conv)
  have status: "cd_Status (passCondition n a b) \<longleftrightarrow> a = 0 \<and> b = 0" for a b by (simp add: passCondition_def new_condition_def)
  show ?thesis unfolding status counted blocked by blast
qed

section \<open>Shutdown\<close>

text \<open>No member has a failure in \<open>l'\<close> that it did not have in \<open>l\<close>.\<close>

definition no_new_failure :: "ledger \<Rightarrow> ledger \<Rightarrow> bool" where
  "no_new_failure l l' \<longleftrightarrow> (\<forall>m. failure_of l' m = None \<or> failure_of l' m = failure_of l m)"

lemma no_new_failure_refl [simp]: "no_new_failure l l"
  by (simp add: no_new_failure_def)

lemma no_new_failure_trans: "no_new_failure l l1 \<Longrightarrow> no_new_failure l1 l2 \<Longrightarrow> no_new_failure l l2"
  by (auto simp: no_new_failure_def) (metis option.distinct(1))

lemma record_no_new_failure: "res_Kind res \<noteq> Failed \<Longrightarrow> no_new_failure l (snd (snd (recordLocked now l res)))"
  by (auto simp: recordLocked_def no_new_failure_def failure_of_def Let_def split: result_kind.splits)

lemma settle_results_no_new_failure:
  "list_all (\<lambda>res. res_Kind res \<noteq> Failed) rs \<Longrightarrow> settle_results now rs (evs, n, l) = (evs', n', l') \<Longrightarrow> no_new_failure l l'"
proof (induction rs arbitrary: evs n l)
  case (Cons res rs)
  obtain ev failed l1 where r: "recordLocked now l res = (ev, failed, l1)" by (cases "recordLocked now l res") auto
  have ok: "res_Kind res \<noteq> Failed" using Cons.prems(1) by simp
  then have "\<not> failed" using record_failed [of now l res] r by simp
  then have "settle_results now rs (evs, n, l1) = (evs', n', l')" using Cons.prems(2) r by simp
  then have "no_new_failure l1 l'" using Cons.IH Cons.prems(1) by simp
  moreover have "no_new_failure l l1" using record_no_new_failure [OF ok, of l now] r by simp
  ultimately show ?case by (rule no_new_failure_trans [rotated])
qed simp

lemma settle_identities_no_new_failure:
  "list_all (\<lambda>(_, rs). list_all (\<lambda>res. res_Kind res \<noteq> Failed) rs) pass \<Longrightarrow>
   settle_identities now pass (evs, att, cs, l) = (evs', att', cs', l') \<Longrightarrow> no_new_failure l l'"
proof (induction pass arbitrary: evs att cs l)
  case (Cons x pass)
  obtain i rs where x: "x = (i, rs)" by fastforce
  obtain evs1 n l1 where r: "settle_results now rs (evs, 0, l) = (evs1, n, l1)" by (cases "settle_results now rs (evs, 0, l)") auto
  have "no_new_failure l l1" using settle_results_no_new_failure [OF _ r] Cons.prems(1) x by simp
  moreover have "no_new_failure l1 l'"
    using Cons.IH [of evs1 "if n = 0 then att else AList.update i n att" "AList.update i (map res_Member rs) cs" l1] Cons.prems x r by simp
  ultimately show ?case by (rule no_new_failure_trans)
qed simp

lemma map_of_fold_delete:
  "map_of (fold (\<lambda>m ms. if m \<in> A then ms else AList.delete m ms) xs ms) k = (if k \<in> set xs \<and> k \<notin> A then None else map_of ms k)"
  by (induction xs arbitrary: ms) auto

lemma claim_no_new_failure: "no_new_failure l (claimLocked l policy cs)"
  by (simp add: no_new_failure_def failure_of_def claimLocked_def Let_def map_of_fold_delete)

lemma leftAlone_none_failed: "res \<in> set (leftAlone outs) \<Longrightarrow> res_Kind (ao_Result res) \<noteq> Failed"
  by (auto simp: leftAlone_def ledger_result_def split: if_splits)

definition quiet :: "('q, 'ls) identity_report \<Rightarrow> bool" where
  "quiet rep \<longleftrightarrow> \<not> rp_failed rep \<and> (\<forall>res \<in> set (rp_members rep). res_Kind (ao_Result res) \<noteq> Failed)"

lemma report_one_quiet: "quiet (report_one policy True w rec stored results)"
  using leftAlone_none_failed unfolding quiet_def report_one_def Let_def by auto

lemma pass_report_ctx:
  assumes "\<And>e s. rc_CtxErr r (rc_Emit r e s) = rc_CtxErr r s"
  shows "rc_CtxErr r (snd (pass_report r policy b xs s)) = rc_CtxErr r s"
proof (induction xs arbitrary: s)
  case (Cons x xs)
  obtain w rec stored results where x: "x = (w, rec, stored, results)" by (metis prod.collapse)
  define s1 where "s1 = (if rp_departed (report_one policy b w rec stored results) \<and> \<not> b
      then rc_Emit r (WLRRefresh (id_Namespace (in_Key (pi_id w))) (OwnerKind (in_Key (pi_id w)))
             (departed_refresh (pi_id w) (report_one policy b w rec stored results))) s else s)"
  have step: "snd (pass_report r policy b (x # xs) s) = snd (pass_report r policy b xs s1)"
    unfolding x pass_report.simps Let_def s1_def [symmetric] by (simp add: case_prod_unfold)
  have "rc_CtxErr r s1 = rc_CtxErr r s" by (simp add: s1_def assms)
  then show ?case using Cons.IH [of s1] unfolding step by simp
qed simp

lemma runPass_shutdown:
  assumes "runPass r l policy snap st = Some (report, st')" "rc_CtxErr r st'"
    and "\<And>e s. rc_CtxErr r (rc_Emit r e s) = rc_CtxErr r s"
  shows "list_all quiet report"
proof -
  obtain now' work claims st0 st1 recs st2 stored st3 results st4 where
    "work = workList now' l (p_Name policy) (GovernedBy snap (p_Name policy))"
    and "pass_claim r (p_Name policy) work st0 = (claims, st1)" "length claims = length work" "pass_recommend r policy work st1 = (recs, st2)"
    and "length recs = length work" "pass_record r (rc_Clock r st2) (zip work (zip claims recs)) st2 = (stored, st3)"
    and "length stored = length work" "pass_apply r policy (zip work (zip recs stored)) st3 = Some (results, st4)" "length results = length work"
    and rep: "report = map (\<lambda>(w, rec, s, res). report_one policy (rc_CtxErr r st4) w rec s res) (zip work (zip recs (zip stored results)))"
    and st': "st' = snd (pass_report r policy (rc_CtxErr r st4) (zip work (zip recs (zip stored results))) st4)"
    by (rule runPass_steps [OF assms(1)])
  have "rc_CtxErr r st' = rc_CtxErr r st4" unfolding st' by (rule pass_report_ctx [of r, OF assms(3)])
  then have down: "rc_CtxErr r st4 = True" using assms(2) by simp
  have "quiet rep" if "rep \<in> set report" for rep
  proof -
    from that obtain w rec s res where "rep = report_one policy True w rec s res" unfolding rep down by auto
    then show ?thesis by (simp only: report_one_quiet)
  qed
  then show ?thesis unfolding list_all_iff by blast
qed

lemma pass_results_mem:
  assumes "(i, rs) \<in> set (pass_results report)"
  obtains rep where "rep \<in> set report" "rs = map ao_Result (rp_members rep)"
proof -
  have "wf_map (pass_results report)" by (simp add: pass_results_def)
  then have "map_of (pass_results report) i = Some rs" using assms by (simp add: wf_map_mem)
  then obtain rep where f: "find (\<lambda>x. rp_key x = i) (rev (filter (\<lambda>rep. \<not> rp_departed rep) report)) = Some rep" "rs = map ao_Result (rp_members rep)"
    by (auto simp: pass_results_def map_of_map_by)
  show thesis by (rule that [of rep]) (use find_Some_set [OF f(1)] f(2) in simp_all)
qed

text \<open>C29. A pass cut short by shutdown counts no failure: when the reconcile's context has ended, whatever failed on
  the way, the pass reports no identity failed, and settling it gives no member a failure it did not have.\<close>

theorem shutdown_counts_no_failure:
  assumes "runPass r l policy snap st = Some (report, st')" "rc_CtxErr r st'"
    and "\<And>e s. rc_CtxErr r (rc_Emit r e s) = rc_CtxErr r s" "Settle now l0 name (pass_results report) = (v, l1)"
  shows "pass_failed report v = 0 \<and> no_new_failure l0 l1"
proof -
  have still: "list_all quiet report" using runPass_shutdown [of r, OF assms(1-3)] .
  have wf: "wf_map (pass_results report)" by (simp add: pass_results_def)
  have none: "list_all (\<lambda>res. res_Kind res \<noteq> Failed) rs" if "(i, rs) \<in> set (pass_results report)" for i rs
    using that by (rule pass_results_mem) (use still in \<open>auto simp: list_all_iff quiet_def\<close>)
  have "\<not> health_Failed (lookup_or zero_health (v_Identities v) i)" for i
  proof (cases "map_of (pass_results report) i")
    case None
    then show ?thesis by (simp add: lookup_or_def settle_health [OF assms(4) wf] health_Failed_def zero_health_def)
  next
    case (Some rs)
    have "list_all (\<lambda>res. res_Kind res \<noteq> Failed) rs" using none [OF map_of_SomeD [OF Some]] .
    then have "\<not> 0 < failures_in rs" using failures_in_pos [of rs] by (simp add: list_all_iff)
    then show ?thesis by (simp add: Some lookup_or_def settle_health [OF assms(4) wf] health_Failed_def)
  qed
  then have "pass_failed report v = 0" using still by (simp add: pass_failed_def filter_empty_conv list_all_iff quiet_def)
  moreover have "no_new_failure l0 l1"
  proof -
    obtain evs att cs l' where s: "settle_identities now (pass_results report) ([], [], [], l0) = (evs, att, cs, l')" by (metis prod.collapse)
    have l1: "l1 = claimLocked l' name (Some cs)" using assms(4) s by (auto simp: Settle_def Let_def)
    have "list_all (\<lambda>(_, rs). list_all (\<lambda>res. res_Kind res \<noteq> Failed) rs) (pass_results report)"
      using none by (auto simp: list_all_iff)
    from no_new_failure_trans [OF settle_identities_no_new_failure [OF this s] claim_no_new_failure] show ?thesis unfolding l1 .
  qed
  ultimately show ?thesis by blast
qed

section \<open>Conditions\<close>

text \<open>A condition is set once, where it was, and its transition time moves only with its status.\<close>

lemma upsert_types: "map cd_Type (upsert_condition cond cs) = (if cd_Type cond \<in> set (map cd_Type cs) then map cd_Type cs else map cd_Type cs @ [cd_Type cond])"
  by (induction cs) auto

lemma upsert_find:
  "find (\<lambda>c. cd_Type c = t) (upsert_condition cond cs) =
     (if t \<noteq> cd_Type cond then find (\<lambda>c. cd_Type c = t) cs
      else Some (case find (\<lambda>c. cd_Type c = t) cs of
                   Some old \<Rightarrow> if cd_Status old = cd_Status cond then cond\<lparr>cd_LastTransitionTime := cd_LastTransitionTime old\<rparr> else cond
                 | None \<Rightarrow> cond))"
  by (induction cs) auto

section \<open>Letting a deleted Policy go\<close>


section \<open>Witnesses\<close>

theorem shutdown_counts_no_failure_witness:
  "\<exists>rep v l1. runPass (ex_reconciler True) NewLedger ex_pass_policy ex_snapshot () = Some ([rep], ()) \<and>
     Settle 7 NewLedger ''web'' (pass_results [rep]) = (v, l1) \<and> pass_failed [rep] v = 0"
proof (rule ex_pass [of True])
  fix rep t
  assume run: "runPass (ex_reconciler True) NewLedger ex_pass_policy ex_snapshot () = Some ([rep], ())"
  obtain v l1 where s: "Settle 7 NewLedger ''web'' (pass_results [rep]) = (v, l1)" by (rule prod.exhaust)
  have "pass_failed [rep] v = 0 \<and> no_new_failure NewLedger l1"
    by (rule shutdown_counts_no_failure [OF run _ _ s]) simp_all
  with run s show ?thesis by blast
qed

text \<open>One live identity whose decision could not be stored.\<close>

definition ex_report :: "(fixed, unit) identity_report list" where
  "ex_report = [\<lparr> rp_key = in_Key ex_pass_identity, rp_departed = False, rp_fetched = True, rp_outcome = OutcomeComputed, rp_resolved = True,
     rp_failed = False, rp_members = map (\<lambda>t. applied t (failed_on StepStore (Plain ''full''))) (targetsOf ex_pass_identity ''web''),
     rp_held = [], rp_computed = not_computed \<rparr>]"

theorem ready_iff_none_failed_or_blocked_witness:
  "\<not> cd_Status (passCondition 1 (pass_failed ex_report (fst (Settle 7 NewLedger ''web'' (pass_results ex_report))))
      (verdict_Blocked (fst (Settle 7 NewLedger ''web'' (pass_results ex_report)))))"
proof -
  have "distinct (map rp_key ex_report)" by (simp add: ex_report_def)
  note iff = ready_iff_none_failed_or_blocked [where now = 7 and l = NewLedger and name = "''web''" and n = 1, OF prod.collapse [symmetric] this]
  have "targetsOf ex_pass_identity ''web'' \<noteq> []"
    by (simp add: targetsOf_def ex_pass_identity_def governed_pods_def Let_def)
  then show ?thesis unfolding iff
    by (cases "targetsOf ex_pass_identity ''web''") (simp_all add: ex_report_def failed_on_def ledger_result_def)
qed

text \<open>A cluster that cannot list the objects to release.\<close>

definition ex_deleted :: "(fixed, unit) policy_object" where
  "ex_deleted = policy.extend ex_pass_policy
     \<lparr> po_Generation = 2, po_DeletionTimestamp = 5, po_Finalizers = [finalizerName], po_Conditions = [] \<rparr>"

definition ex_policy_reconciler :: "(fixed, unit, unit, unit, unit, unit) policy_reconciler" where
  "ex_policy_reconciler = reconciler.extend ((ex_reconciler False)\<lparr>rc_WLRs := ex_wlrs\<lparr>cl_List := \<lambda>_ s. (Inl (ApiStatus 500), s)\<rparr>\<rparr>)
     \<lparr> pk_HasInputs = True, pk_HasClock = True, pk_Get = \<lambda>_ s. (Inr ex_deleted, s), pk_Update = \<lambda>p s. (Inr p, s),
       pk_UpdateStatus = \<lambda>p s. (Inr p, s), pk_IsNotFound = \<lambda>_. False, pk_Governance = \<lparr> compile_selector = Some, selector_matches = (\<lambda>_ _. True), valid_label_value = (\<lambda>_. True) \<rparr>,
       pk_Reader = \<lambda>_. \<lparr> ir_List = (\<lambda>_ _. Inr []), ir_ListRecommendations = (\<lambda>_. Inr []), ir_ListNamespaces = Inr [], ir_GetNamespace = (\<lambda>_. Inr []),
         ir_IsNoMatch = (\<lambda>_. False), ir_IsNotFound = (\<lambda>_. False) \<rparr>,
       pk_Policies = \<lambda>_. Inr \<lparr> byName = [], ps_excluded = [] \<rparr>, pk_Now = \<lambda>_. 7 \<rparr>"


end
