(* ===== verification/Watcher.thy ===== *)
theory Watcher
  imports OomCache Kinds
begin

text \<open>
  The watcher of OOM kills (\<open>internal/oomwatch/watcher.go\<close>): the kills a pod's status shows, the reads that
  decide who governs it, and one \<open>Reconcile\<close>.

  The \<open>Sink\<close> interface is the record \<open>sink\<close> of its three operations over a state; \<open>cache_sink\<close> is the one
  the manager wires in. The client's answers are the fields of \<open>watcher\<close>, as of one state of the cluster, the
  clock is the argument \<open>now\<close>, which one \<open>Reconcile\<close> does not see move, and the calls to the handler are the
  list \<open>wo_Notified\<close>, in order. \<open>AsInt64\<close> of \<open>resource.Quantity\<close> is the field \<open>wt_AsInt64\<close>. Logs are left out,
  and so is the registration with the manager.
\<close>

section \<open>Kills a pod shows\<close>

record oom_kill =
  ok_Container :: string
  ok_Restarted :: bool
  ok_RestartCount :: int
  ok_TerminatedAt :: time
  ok_LimitBytes :: int

definition isOOMKill :: "terminated option \<Rightarrow> bool" where
  "isOOMKill term' = (case term' of None \<Rightarrow> False | Some t \<Rightarrow> tm_Reason t = ''OOMKilled'')"

definition memLimitBytes :: "'q env \<Rightarrow> ('q \<Rightarrow> int option) \<Rightarrow> 'q resource_list \<Rightarrow> int" where
  "memLimitBytes E asInt64 limits =
     (case map_of limits ResourceMemory of
        None \<Rightarrow> 0
      | Some q \<Rightarrow> if q_is_zero E q then 0 else (case asInt64 q of None \<Rightarrow> 0 | Some v \<Rightarrow> v))"

definition containerMemLimitBytes :: "'q env \<Rightarrow> ('q \<Rightarrow> int option) \<Rightarrow> 'q pod \<Rightarrow> string \<Rightarrow> int" where
  "containerMemLimitBytes E asInt64 pod container =
     (case find (\<lambda>cs. cs_Name cs = container \<and> cs_Resources cs \<noteq> None) (pod_ContainerStatuses pod) of
        Some cs \<Rightarrow> memLimitBytes E asInt64 (Limits (the (cs_Resources cs)))
      | None \<Rightarrow>
          (case find (\<lambda>c. c_Name c = container) (pod_Containers pod) of
             Some c \<Rightarrow> memLimitBytes E asInt64 (Limits (c_Resources c))
           | None \<Rightarrow> 0))"

text \<open>The termination of a container that counts, and whether the container restarted after it.\<close>

definition kill_term :: "bool \<Rightarrow> 'q container_status \<Rightarrow> terminated option \<times> bool" where
  "kill_term never cs =
     (if \<not> isOOMKill (cs_LastTerminated cs) \<and> never then (cs_Terminated cs, False)
      else (cs_LastTerminated cs, True))"

definition kill_of :: "'q env \<Rightarrow> ('q \<Rightarrow> int option) \<Rightarrow> 'q pod \<Rightarrow> 'q container_status \<Rightarrow> oom_kill option" where
  "kill_of E asInt64 pod cs =
     (let (term', restarted) = kill_term (pod_RestartPolicy pod = ''Never'') cs
      in if \<not> isOOMKill term' then None
         else Some \<lparr> ok_Container = cs_Name cs, ok_Restarted = restarted, ok_RestartCount = cs_RestartCount cs,
                     ok_TerminatedAt = tm_FinishedAt (the term'),
                     ok_LimitBytes = containerMemLimitBytes E asInt64 pod (cs_Name cs) \<rparr>)"

definition oomKills :: "'q env \<Rightarrow> ('q \<Rightarrow> int option) \<Rightarrow> 'q pod \<Rightarrow> oom_kill list" where
  "oomKills E asInt64 pod = List.map_filter (kill_of E asInt64 pod) (pod_ContainerStatuses pod)"

section \<open>The events it takes\<close>

text \<open>\<open>EvUpdate\<close> has the new object only; \<open>None\<close> is a nil one.\<close>

datatype 'q pod_event =
    EvCreate "'q pod option" | EvUpdate "'q pod option" | EvDelete "'q pod option" | EvGeneric "'q pod option"

definition admits :: "'q env \<Rightarrow> ('q \<Rightarrow> int option) \<Rightarrow> 'q pod option \<Rightarrow> bool" where
  "admits E asInt64 obj =
     (case obj of
        None \<Rightarrow> False
      | Some pod \<Rightarrow> map_of (pod_Annotations pod) PolicyAnnotation \<noteq> None \<or> oomKills E asInt64 pod \<noteq> [])"

fun admitPodEventPredicate :: "'q env \<Rightarrow> ('q \<Rightarrow> int option) \<Rightarrow> 'q pod_event \<Rightarrow> bool" where
  "admitPodEventPredicate E asInt64 (EvCreate p) = admits E asInt64 p"
| "admitPodEventPredicate E asInt64 (EvUpdate p) = admits E asInt64 p"
| "admitPodEventPredicate E asInt64 (EvDelete p) = False"
| "admitPodEventPredicate E asInt64 (EvGeneric p) = admits E asInt64 p"

section \<open>The sink\<close>

text \<open>An event is what \<open>AlreadyResolved\<close> and \<open>MarkResolved\<close> are told of a kill; both read the clock.\<close>

record 's sink =
  sk_Record :: "oom_key \<Rightarrow> oom_record \<Rightarrow> 's \<Rightarrow> bool \<times> 's"
  sk_AlreadyResolved :: "time \<Rightarrow> resolved_event_key \<Rightarrow> 's \<Rightarrow> bool"
  sk_MarkResolved :: "time \<Rightarrow> resolved_event_key \<Rightarrow> 's \<Rightarrow> 's"

definition cache_AlreadyResolved :: "time \<Rightarrow> resolved_event_key \<Rightarrow> oom_cache \<Rightarrow> bool" where
  "cache_AlreadyResolved now ev =
     alreadyResolvedAt now (re_PodUID ev) (re_Container ev) (re_RestartCount ev) (re_TerminatedAt ev)"

definition cache_MarkResolved :: "time \<Rightarrow> resolved_event_key \<Rightarrow> oom_cache \<Rightarrow> oom_cache" where
  "cache_MarkResolved now ev =
     markResolvedAt now (re_PodUID ev) (re_Container ev) (re_RestartCount ev) (re_TerminatedAt ev)"

definition cache_sink :: "oom_cache sink" where
  "cache_sink = \<lparr> sk_Record = oom_Record, sk_AlreadyResolved = cache_AlreadyResolved,
                  sk_MarkResolved = cache_MarkResolved \<rparr>"

definition event_of :: "'q pod \<Rightarrow> oom_kill \<Rightarrow> resolved_event_key" where
  "event_of pod k = event_key (pod_UID pod) (ok_Container k) (ok_RestartCount k) (ok_TerminatedAt k)"

section \<open>The watcher\<close>

record ('q, 'sel, 'ls, 'lsel, 'st) watcher =
  wt_GetPod :: "string \<times> string \<Rightarrow> go_error + 'q pod"
  wt_ListPolicies :: "go_error + ('q, 'sel) policy list"
  wt_Members :: "('q, 'ls, 'lsel, 'st) member_reader"
  wt_World :: 'st
  wt_GetAnnotations :: "string \<Rightarrow> string \<Rightarrow> string \<Rightarrow> go_error + str_map"
  wt_GetNamespace :: "string \<Rightarrow> go_error + str_map"
  wt_IsNotFound :: "go_error \<Rightarrow> bool"
  wt_AsInt64 :: "'q \<Rightarrow> int option"
  wt_Window :: duration
  wt_HasHandler :: bool

text \<open>An error of the reads: one that wraps \<open>errOwnerUnresolved\<close>, or another.\<close>

datatype watch_error =
    OwnerUnresolved go_error
  | PoliciesUnread "go_error list_error"
  | AnnotationsUnread go_error
  | PodUnread go_error

definition wrap_error :: "('e \<Rightarrow> 'f) \<Rightarrow> 'e + 'a \<Rightarrow> 'f + 'a" where
  "wrap_error f r = (case r of Inl e \<Rightarrow> Inl (f e) | Inr a \<Rightarrow> Inr a)"

definition podReader ::
  "('sel, 'm) gov_env \<Rightarrow> ('q, 'sel, 'ls, 'lsel, 'st) watcher \<Rightarrow> ('q, 'sel, 'm) policy_lister \<Rightarrow>
   ('q, 'sel, 'm, watch_error) reader" where
  "podReader G w l =
     \<lparr> rd_Policies = wrap_error PoliciesUnread (fst (lister_List G (wt_ListPolicies w) l)),
       rd_PodOwner = (\<lambda>pod. wrap_error OwnerUnresolved (fst (ResolvePodOwner (wt_Members w) pod (wt_World w)))),
       rd_WorkloadAnnotations = (\<lambda>namespace kind name.
         wrap_error AnnotationsUnread (OwnerAnnotations (wt_IsNotFound w) (wt_GetAnnotations w) namespace kind name)),
       rd_NamespaceAnnotations = (\<lambda>namespace.
         wrap_error AnnotationsUnread (NamespaceAnnotations (wt_IsNotFound w) (wt_GetNamespace w) namespace)) \<rparr>"

text \<open>The lister after a decision: it kept what it compiled when the walk listed the Policies.\<close>

definition lister_after ::
  "('sel, 'm) gov_env \<Rightarrow> ('q, 'sel, 'ls, 'lsel, 'st) watcher \<Rightarrow> ('q, 'sel, 'm) walk \<Rightarrow>
   ('q, 'sel, 'm) policy_lister \<Rightarrow> ('q, 'sel, 'm) policy_lister" where
  "lister_after G w wk l =
     (if ReadPolicies \<in> set (wk_calls wk) then snd (lister_List G (wt_ListPolicies w) l) else l)"

definition minOwnerRetry :: duration where
  "minOwnerRetry = 5 * second"

definition defaultTTL :: duration where
  "defaultTTL = 30 * minute"

definition newest_kill :: "oom_kill list \<Rightarrow> time" where
  "newest_kill kills = fold (\<lambda>k newest. if ok_TerminatedAt k > newest then ok_TerminatedAt k else newest) kills 0"

definition retry_window :: "duration \<Rightarrow> duration" where
  "retry_window window = (if window \<noteq> 0 then window else defaultTTL)"

definition ownerRetryAfter :: "duration \<Rightarrow> time \<Rightarrow> oom_kill list \<Rightarrow> duration" where
  "ownerRetryAfter wnd now kills =
     (let window = retry_window wnd; age = time_sub now (newest_kill kills)
      in if age \<ge> window then 0 else min (max age minOwnerRetry) (wrap64 (window - age)))"

definition record_for :: "time \<Rightarrow> string \<Rightarrow> 'q pod \<Rightarrow> oom_kill \<Rightarrow> oom_record" where
  "record_for now policyName pod k =
     \<lparr> or_Container = ok_Container k, or_PolicyName = policyName, or_ObservedAt = now,
       or_TerminatedAt = ok_TerminatedAt k, or_RestartCount = ok_RestartCount k, or_PodName = pod_Name pod,
       or_PodUID = pod_UID pod, or_OOMLimitBytes = ok_LimitBytes k \<rparr>"

text \<open>The loop that records the kills: what it tells the handler, and the sink after it.\<close>

fun record_kills ::
  "'s sink \<Rightarrow> bool \<Rightarrow> time \<Rightarrow> workload_identity \<Rightarrow> string \<Rightarrow> 'q pod \<Rightarrow> oom_kill list \<Rightarrow> 's \<Rightarrow>
   (oom_key \<times> oom_record) list \<times> 's" where
  "record_kills S handler now i policyName pod [] s = ([], s)"
| "record_kills S handler now i policyName pod (k # ks) s =
     (let key = \<lparr> k_Identity = i, k_Container = ok_Container k \<rparr>; rec = record_for now policyName pod k;
          (new, s') = sk_Record S key rec s;
          (told, s'') = record_kills S handler now i policyName pod ks s'
      in (if new \<and> handler then (key, rec) # told else told, s''))"

record watch_outcome =
  wo_RequeueAfter :: duration
  wo_Err :: "watch_error option"
  wo_Notified :: "(oom_key \<times> oom_record) list"

definition nothing_done :: watch_outcome where
  "nothing_done = \<lparr> wo_RequeueAfter = 0, wo_Err = None, wo_Notified = [] \<rparr>"

text \<open>What \<open>Reconcile\<close> does once it knows the decision on the kills not yet resolved.\<close>

definition settle_kills ::
  "'s sink \<Rightarrow> ('q, 'sel, 'ls, 'lsel, 'st) watcher \<Rightarrow> time \<Rightarrow> 'q pod \<Rightarrow> oom_kill list \<Rightarrow> oom_kill list \<Rightarrow>
   watch_error + ('q, 'sel) decision \<Rightarrow> 's \<Rightarrow> watch_outcome \<times> 's" where
  "settle_kills S w now pod kills unresolved decided s =
     (case decided of
        Inl (OwnerUnresolved _) \<Rightarrow> (nothing_done\<lparr>wo_RequeueAfter := ownerRetryAfter (wt_Window w) now unresolved\<rparr>, s)
      | Inl err \<Rightarrow> (nothing_done\<lparr>wo_Err := Some err\<rparr>, s)
      | Inr d \<Rightarrow>
          let s' = fold (\<lambda>k. sk_MarkResolved S now (event_of pod k)) kills s
          in if \<not> Governed d then (nothing_done, s')
             else let (told, s'') = record_kills S (wt_HasHandler w) now (d_Identity d) (PolicyName d) pod kills s'
                  in (nothing_done\<lparr>wo_Notified := told\<rparr>, s''))"

definition watch_Reconcile ::
  "'q env \<Rightarrow> ('sel, 'm) gov_env \<Rightarrow> 's sink \<Rightarrow> ('q, 'sel, 'ls, 'lsel, 'st) watcher \<Rightarrow> time \<Rightarrow> string \<times> string \<Rightarrow>
   's \<times> ('q, 'sel, 'm) policy_lister \<Rightarrow> watch_outcome \<times> 's \<times> ('q, 'sel, 'm) policy_lister" where
  "watch_Reconcile E G S w now req sl =
     (let (s, l) = sl
      in case wt_GetPod w req of
           Inl err \<Rightarrow> (if wt_IsNotFound w err then nothing_done else nothing_done\<lparr>wo_Err := Some (PodUnread err)\<rparr>, s, l)
         | Inr pod \<Rightarrow>
             let kills = oomKills E (wt_AsInt64 w) pod
             in if kills = [] then (nothing_done, s, l)
                else let unresolved = filter (\<lambda>k. \<not> sk_AlreadyResolved S now (event_of pod k) s) kills
                     in if unresolved = [] then (nothing_done, s, l)
                        else let (decided, wk) = Decide G (podReader G w l) (Pod pod);
                                 (out, s') = settle_kills S w now pod kills unresolved decided s
                             in (out, s', lister_after G w wk l))"

end
