(* ===== verification/WatcherCorrect.thy ===== *)
theory WatcherCorrect
  imports Watcher GovernanceCorrect
begin

text \<open>
  What the watcher promises, over any sink with the laws of \<open>kill_sink\<close>, and over any that is read back with those
  of \<open>kill_store\<close>: reads that fail leave every kill to be tried again, a kill once resolved is not looked at
  again, and what the handler is told of is there to be read. The OOM cache has both sets of laws.
\<close>

section \<open>Sinks\<close>

text \<open>\<open>room\<close> is how many marks the sink takes before it drops one.\<close>

locale kill_sink =
  fixes S :: "'s sink" and inv :: "'s \<Rightarrow> bool" and ttl :: "'s \<Rightarrow> duration" and room :: "'s \<Rightarrow> nat"
  assumes mark_inv: "inv s \<Longrightarrow> inv (sk_MarkResolved S now ev s)"
    and record_inv: "inv s \<Longrightarrow> inv (snd (sk_Record S key r s))"
    and mark_ttl: "ttl (sk_MarkResolved S now ev s) = ttl s"
    and record_ttl: "ttl (snd (sk_Record S key r s)) = ttl s"
    and mark_room: "inv s \<Longrightarrow> room s \<le> Suc (room (sk_MarkResolved S now ev s))"
    and mark_resolves: "inv s \<Longrightarrow> time_sub now' now \<le> ttl s \<Longrightarrow> sk_AlreadyResolved S now' ev (sk_MarkResolved S now ev s)"
    and mark_keeps: "inv s \<Longrightarrow> 0 < room s \<Longrightarrow> ev \<noteq> ev' \<Longrightarrow> sk_AlreadyResolved S now' ev s \<Longrightarrow>
      sk_AlreadyResolved S now' ev (sk_MarkResolved S now ev' s)"
    and record_marks: "sk_AlreadyResolved S now' ev (snd (sk_Record S key r s)) = sk_AlreadyResolved S now' ev s"
begin

lemma marks_resolve:
  assumes "inv s" "length evs \<le> room s" "time_sub now' now \<le> ttl s" "ev \<in> set evs \<or> sk_AlreadyResolved S now' ev s"
  shows "sk_AlreadyResolved S now' ev (fold (sk_MarkResolved S now) evs s)"
  using assms
proof (induction evs arbitrary: s)
  case (Cons e evs)
  let ?s = "sk_MarkResolved S now e s"
  have "length evs \<le> room ?s" using mark_room [OF Cons.prems(1), of now e] Cons.prems(2) by simp
  moreover have "time_sub now' now \<le> ttl ?s" using Cons.prems(3) mark_ttl by simp
  moreover have "ev \<in> set evs \<or> sk_AlreadyResolved S now' ev ?s"
  proof (cases "ev = e")
    case True
    then show ?thesis using mark_resolves [OF Cons.prems(1,3)] by simp
  next
    case False
    then show ?thesis using mark_keeps [OF Cons.prems(1) _ False, of now' now] Cons.prems(2,4) by auto
  qed
  ultimately show ?case using Cons.IH [OF mark_inv [OF Cons.prems(1)]] by simp
qed simp

lemma marks_inv: "inv s \<Longrightarrow> inv (fold (sk_MarkResolved S now) evs s)"
  by (induction evs arbitrary: s) (simp_all add: mark_inv)

lemma record_kills_marks:
  "sk_AlreadyResolved S now' ev (snd (record_kills S h now i p pod ks s)) = sk_AlreadyResolved S now' ev s"
  by (induction ks arbitrary: s) (simp_all add: Let_def record_marks split_beta)

lemma settled_marks:
  assumes "inv s" "length kills \<le> room s" "time_sub now' now \<le> ttl s" "k \<in> set kills"
  shows "sk_AlreadyResolved S now' (event_of pod k) (snd (settle_kills S w now pod kills un (Inr d) s))"
proof -
  have "sk_AlreadyResolved S now' (event_of pod k) (fold (sk_MarkResolved S now) (map (event_of pod) kills) s)"
    using assms by (intro marks_resolve) auto
  then show ?thesis by (simp add: settle_kills_def Let_def fold_map comp_def record_kills_marks split_beta)
qed

text \<open>Whatever else a pod's status shows later, kills that were resolved are not looked at again.\<close>

lemma quiet_after_resolved:
  assumes pass: "watch_Reconcile E G S w now req (s, l) = (out, s', l')" "wt_GetPod w req = Inr pod"
    and read: "fst (Decide G (podReader G w l) (Pod pod)) = Inr d"
    and fresh: "\<exists>k \<in> set (oomKills E (wt_AsInt64 w) pod). \<not> sk_AlreadyResolved S now (event_of pod k) s"
    and sink: "inv s" "length (oomKills E (wt_AsInt64 w) pod) \<le> room s" "time_sub now' now \<le> ttl s"
    and again: "wt_GetPod w' req' = Inr pod'"
      "event_of pod' ` set (oomKills E (wt_AsInt64 w') pod') \<subseteq> event_of pod ` set (oomKills E (wt_AsInt64 w) pod)"
  shows "watch_Reconcile E G S w' now' req' (s', l'') = (nothing_done, s', l'')"
proof -
  let ?kills = "oomKills E (wt_AsInt64 w) pod"
  let ?un = "filter (\<lambda>k. \<not> sk_AlreadyResolved S now (event_of pod k) s) ?kills"
  obtain wk where dec: "Decide G (podReader G w l) (Pod pod) = (Inr d, wk)" using read by (metis prod.collapse)
  have ne: "?kills \<noteq> []" "?un \<noteq> []" using fresh by (auto simp: filter_empty_conv)
  then have s': "s' = snd (settle_kills S w now pod ?kills ?un (Inr d) s)"
    using pass dec by (auto simp: watch_Reconcile_def Let_def split: prod.splits)
  have "\<forall>k \<in> set ?kills. sk_AlreadyResolved S now' (event_of pod k) s'"
    unfolding s' by (intro ballI settled_marks sink)
  then have "\<forall>k \<in> set (oomKills E (wt_AsInt64 w') pod'). sk_AlreadyResolved S now' (event_of pod' k) s'"
    using again(2) by (metis (no_types, lifting) image_iff image_subset_iff)
  then have "filter (\<lambda>k. \<not> sk_AlreadyResolved S now' (event_of pod' k) s') (oomKills E (wt_AsInt64 w') pod') = []"
    by (simp add: filter_empty_conv)
  then show ?thesis using again(1) by (simp add: watch_Reconcile_def Let_def)
qed

end

text \<open>A sink that is read back by workload; \<open>space\<close> is how many records it takes before it drops one.\<close>

locale kill_store = kill_sink S inv ttl room
  for S :: "'s sink" and inv ttl room +
  fixes read :: "time \<Rightarrow> workload_identity \<Rightarrow> 's \<Rightarrow> (string, oom_record) gomap" and space :: "'s \<Rightarrow> nat"
  assumes mark_read: "read t i (sk_MarkResolved S now ev s) = read t i s"
    and mark_space: "space (sk_MarkResolved S now ev s) = space s"
    and record_space: "inv s \<Longrightarrow> space s \<le> Suc (space (snd (sk_Record S key r s)))"
    and record_new_read: "inv s \<Longrightarrow> fst (sk_Record S key r s) \<Longrightarrow> time_sub t (or_ObservedAt r) \<le> ttl s \<Longrightarrow>
      \<exists>e. map_of (read t (k_Identity key) (snd (sk_Record S key r s))) (k_Container key) = Some e \<and>
          or_OOMLimitBytes r \<le> or_OOMLimitBytes e"
    and record_keeps_read: "inv s \<Longrightarrow> 0 < space s \<Longrightarrow> map_of (read t i s) n = Some e \<Longrightarrow>
      \<exists>e'. map_of (read t i (snd (sk_Record S key r s))) n = Some e' \<and> or_OOMLimitBytes e \<le> or_OOMLimitBytes e'"
begin

lemma marks_read: "read t i (fold (sk_MarkResolved S now) evs s) = read t i s"
  by (induction evs arbitrary: s) (simp_all add: mark_read)

lemma marks_space: "space (fold (sk_MarkResolved S now) evs s) = space s"
  by (induction evs arbitrary: s) (simp_all add: mark_space)

lemma marks_ttl: "ttl (fold (sk_MarkResolved S now) evs s) = ttl s"
  by (induction evs arbitrary: s) (simp_all add: mark_ttl)

lemma record_kills_keep_read:
  assumes "inv s" "length ks \<le> space s" "map_of (read t j s) n = Some e"
  shows "\<exists>e'. map_of (read t j (snd (record_kills S h now i p pod ks s))) n = Some e' \<and>
    or_OOMLimitBytes e \<le> or_OOMLimitBytes e'"
  using assms
proof (induction ks arbitrary: s e)
  case (Cons k ks)
  let ?key = "\<lparr> k_Identity = i, k_Container = ok_Container k \<rparr>"
  let ?r = "record_for now p pod k"
  let ?s = "snd (sk_Record S ?key ?r s)"
  obtain e1 where e1: "map_of (read t j ?s) n = Some e1" "or_OOMLimitBytes e \<le> or_OOMLimitBytes e1"
    using record_keeps_read [OF Cons.prems(1) _ Cons.prems(3), of ?key ?r] Cons.prems(2) by auto
  have "length ks \<le> space ?s" using record_space [OF Cons.prems(1), of ?key ?r] Cons.prems(2) by simp
  from Cons.IH [OF record_inv [OF Cons.prems(1)] this e1(1)] e1(2) show ?case
    by (fastforce simp: Let_def split_beta)
qed auto

lemma told_is_read:
  assumes "inv s" "length ks \<le> space s" "time_sub t now \<le> ttl s"
    "(key, r) \<in> set (fst (record_kills S h now i p pod ks s))"
  shows "\<exists>k \<in> set ks. key = \<lparr> k_Identity = i, k_Container = ok_Container k \<rparr> \<and> r = record_for now p pod k \<and>
    (\<exists>e. map_of (read t i (snd (record_kills S h now i p pod ks s))) (ok_Container k) = Some e \<and>
         ok_LimitBytes k \<le> or_OOMLimitBytes e)"
  using assms
proof (induction ks arbitrary: s)
  case (Cons k ks)
  let ?key = "\<lparr> k_Identity = i, k_Container = ok_Container k \<rparr>"
  let ?r = "record_for now p pod k"
  let ?s = "snd (sk_Record S ?key ?r s)"
  let ?rest = "record_kills S h now i p pod ks ?s"
  have inv: "inv ?s" using record_inv [OF Cons.prems(1)] .
  have room: "length ks \<le> space ?s" using record_space [OF Cons.prems(1), of ?key ?r] Cons.prems(2) by simp
  have eq: "snd (record_kills S h now i p pod (k # ks) s) = snd ?rest"
    "fst (record_kills S h now i p pod (k # ks) s) =
       (if fst (sk_Record S ?key ?r s) \<and> h then (?key, ?r) # fst ?rest else fst ?rest)"
    by (simp_all add: Let_def split_beta)
  show ?case
  proof (cases "(key, r) \<in> set (fst ?rest)")
    case True
    from Cons.IH [OF inv room _ True] Cons.prems(3) show ?thesis unfolding eq by (auto simp: record_ttl)
  next
    case False
    then have new: "fst (sk_Record S ?key ?r s)" "key = ?key" "r = ?r"
      using Cons.prems(4) unfolding eq by (auto split: if_splits)
    obtain e where e: "map_of (read t i ?s) (ok_Container k) = Some e" "ok_LimitBytes k \<le> or_OOMLimitBytes e"
      using record_new_read [OF Cons.prems(1) new(1), of t] Cons.prems(3) by (auto simp: record_for_def)
    from record_kills_keep_read [OF inv room e(1)] e(2) new(2,3) show ?thesis unfolding eq by fastforce
  qed
qed simp

end

section \<open>The cache\<close>

lemma evict_other [simp]:
  "resolved (evictOldestLocked c) = resolved c" "oc_ttl (evictOldestLocked c) = oc_ttl c"
  "oc_ttl (evictOldestResolvedLocked c) = oc_ttl c" "oc_entries (evictOldestResolvedLocked c) = oc_entries c"
  "byWorkload (evictOldestResolvedLocked c) = byWorkload c"
  by (simp_all add: evictOldestLocked_def evictOldestResolvedLocked_def deleteEntryLocked_def split: option.splits prod.splits)

lemma Record_other [simp]:
  "resolved (snd (oom_Record key r c)) = resolved c" "oc_ttl (snd (oom_Record key r c)) = oc_ttl c"
  "oc_max (snd (oom_Record key r c)) = oc_max c"
  by (simp_all add: oom_Record_def Let_def split: option.splits)

lemma mark_other [simp]:
  "oc_entries (markResolvedAt now u n k t c) = oc_entries c" "byWorkload (markResolvedAt now u n k t c) = byWorkload c"
  "oc_ttl (markResolvedAt now u n k t c) = oc_ttl c" "oc_max (markResolvedAt now u n k t c) = oc_max c"
  by (simp_all add: markResolvedAt_def Let_def)

lemma length_update_le: "length (AList.update k v m) \<le> Suc (length m)"
  by (induction m) auto

lemma mark_length: "length (resolved (markResolvedAt now u n k t c)) \<le> Suc (length (resolved c))"
proof -
  let ?c = "if map_of (resolved c) (event_key u n k t) = None \<and> length (resolved c) \<ge> oc_max c
    then evictOldestResolvedLocked c else c"
  have "length (resolved (evictOldestResolvedLocked c)) \<le> length (resolved c)"
    by (auto simp: evictOldestResolvedLocked_def length_delete_le split: option.splits)
  then have "length (resolved ?c) \<le> length (resolved c)" by simp
  moreover have eq: "resolved (markResolvedAt now u n k t c) = AList.update (event_key u n k t) now (resolved ?c)"
    by (simp add: markResolvedAt_def Let_def)
  ultimately show ?thesis unfolding eq using length_update_le [of "event_key u n k t" now "resolved ?c"] by linarith
qed

lemma Record_length: "length (oc_entries (snd (oom_Record key r c))) \<le> Suc (length (oc_entries c))"
proof -
  have "length (oc_entries (evictOldestLocked c)) \<le> length (oc_entries c)"
    by (auto simp: evictOldestLocked_def deleteEntryLocked_def length_delete_le split: option.splits)
  then have "length (AList.update key r (oc_entries (evictOldestLocked c))) \<le> Suc (length (oc_entries c))"
    using length_update_le [of key r "oc_entries (evictOldestLocked c)"] by linarith
  then show ?thesis by (simp add: oom_Record_def Let_def length_update_le split: option.split)
qed

lemma cache_mark_keeps:
  assumes "length (resolved c) < oc_max c" "ev \<noteq> ev'" "cache_AlreadyResolved now' ev c"
  shows "cache_AlreadyResolved now' ev (cache_MarkResolved now ev' c)"
proof -
  have "event_key (re_PodUID ev) (re_Container ev) (re_RestartCount ev) (re_TerminatedAt ev) = ev" for ev
    by (simp add: event_key_def)
  then show ?thesis
    using assms by (simp add: cache_AlreadyResolved_def alreadyResolvedAt_def cache_MarkResolved_def markResolvedAt_def
      split: option.splits)
qed

lemma Record_key:
  "map_of (oc_entries (snd (oom_Record key r c))) key =
     Some (case map_of (oc_entries c) key of
             None \<Rightarrow> r
           | Some e \<Rightarrow> if \<not> same_kill e r then merge_kill r e
                       else if or_OOMLimitBytes r > or_OOMLimitBytes e then e\<lparr>or_OOMLimitBytes := or_OOMLimitBytes r\<rparr> else e)"
  by (simp add: oom_Record_def Let_def split: option.split)

lemma Record_not_key:
  "length (oc_entries c) < oc_max c \<Longrightarrow> k \<noteq> key \<Longrightarrow>
   map_of (oc_entries (snd (oom_Record key r c))) k = map_of (oc_entries c) k"
  by (simp add: oom_Record_def Let_def split: option.split)

lemma ByWorkload_entry:
  assumes "cache_ok c"
  shows "map_of (fst (ByWorkload now i c)) n = Some e \<longleftrightarrow>
    map_of (oc_entries c) \<lparr> k_Identity = i, k_Container = n \<rparr> = Some e \<and> time_sub now (or_ObservedAt e) \<le> oc_ttl c"
proof -
  have "n \<in> set (gkeys (lookup_or [] (byWorkload c) i)) \<longleftrightarrow> map_of (oc_entries c) \<lparr> k_Identity = i, k_Container = n \<rparr> \<noteq> None"
    using assms by (simp add: cache_ok_def index_ok_def indexed_def)
  then show ?thesis
    using by_workload_lookup [of now c i "gkeys (lookup_or [] (byWorkload c) i)" n]
    by (auto simp: ByWorkload_def split: prod.splits option.splits if_splits)
qed

lemma ByWorkload_cong:
  assumes "oc_entries c' = oc_entries c" "byWorkload c' = byWorkload c" "oc_ttl c' = oc_ttl c"
  shows "fst (ByWorkload now i c') = fst (ByWorkload now i c)"
proof -
  have "by_workload_read now c' i ns = by_workload_read now c i ns" for ns
    by (induction ns) (simp_all add: assms Let_def split: option.split prod.split)
  then show ?thesis by (simp add: ByWorkload_def assms split_beta)
qed

lemma time_sub_later: "u \<le> v \<Longrightarrow> time_sub t u \<le> d \<Longrightarrow> time_sub t v \<le> d"
  by (auto simp: time_sub_def sat64_def split: if_splits)

lemma merge_kill_ge:
  "or_OOMLimitBytes r \<le> or_OOMLimitBytes (merge_kill r e)" "or_OOMLimitBytes e \<le> or_OOMLimitBytes (merge_kill r e)"
  "or_ObservedAt r \<le> or_ObservedAt (merge_kill r e)" "or_ObservedAt e \<le> or_ObservedAt (merge_kill r e)"
  by (simp_all add: merge_kill_def laterOf_def)

lemma cache_record_new_read:
  assumes "cache_ok c" "fst (oom_Record key r c)" "time_sub t (or_ObservedAt r) \<le> oc_ttl c"
  shows "\<exists>e. map_of (fst (ByWorkload t (k_Identity key) (snd (oom_Record key r c)))) (k_Container key) = Some e \<and>
    or_OOMLimitBytes r \<le> or_OOMLimitBytes e"
proof -
  let ?c = "snd (oom_Record key r c)"
  have key: "\<lparr> k_Identity = k_Identity key, k_Container = k_Container key \<rparr> = key" by simp
  obtain e where e: "map_of (oc_entries ?c) key = Some e" "e = r \<or> (\<exists>x. e = merge_kill r x)"
    using assms(2) Record_key [of key r c] by (auto simp: oom_Record_def split: option.splits if_splits)
  have le: "or_OOMLimitBytes r \<le> or_OOMLimitBytes e" "or_ObservedAt r \<le> or_ObservedAt e"
    using e(2) merge_kill_ge by auto
  have "time_sub t (or_ObservedAt e) \<le> oc_ttl ?c" using time_sub_later [OF le(2) assms(3)] by simp
  then have "map_of (fst (ByWorkload t (k_Identity key) ?c)) (k_Container key) = Some e"
    unfolding ByWorkload_entry [OF cache_ok_Record [OF assms(1)]] key using e(1) by simp
  with le(1) show ?thesis by blast
qed

lemma cache_record_keeps_read:
  assumes "cache_ok c" "length (oc_entries c) < oc_max c" "map_of (fst (ByWorkload t i c)) n = Some e"
  shows "\<exists>e'. map_of (fst (ByWorkload t i (snd (oom_Record key r c)))) n = Some e' \<and>
    or_OOMLimitBytes e \<le> or_OOMLimitBytes e'"
proof -
  let ?c = "snd (oom_Record key r c)" and ?k = "\<lparr> k_Identity = i, k_Container = n \<rparr>"
  have e: "map_of (oc_entries c) ?k = Some e" "time_sub t (or_ObservedAt e) \<le> oc_ttl c"
    using assms(3) ByWorkload_entry [OF assms(1)] by auto
  obtain e' where e': "map_of (oc_entries ?c) ?k = Some e'" "or_OOMLimitBytes e \<le> or_OOMLimitBytes e'"
    "or_ObservedAt e \<le> or_ObservedAt e'"
  proof (cases "key = ?k")
    case True
    then show thesis using Record_key [of ?k r c] e(1) merge_kill_ge that by (fastforce split: if_splits)
  next
    case False
    then show thesis using Record_not_key [OF assms(2), of ?k key r] e(1) that by auto
  qed
  have "time_sub t (or_ObservedAt e') \<le> oc_ttl ?c" using time_sub_later [OF e'(3) e(2)] by simp
  then show ?thesis using ByWorkload_entry [OF cache_ok_Record [OF assms(1)]] e'(1,2) by blast
qed

interpretation oom_store: kill_store cache_sink cache_ok oc_ttl "\<lambda>c. oc_max c - length (resolved c)"
  "\<lambda>now i c. fst (ByWorkload now i c)" "\<lambda>c. oc_max c - length (oc_entries c)"
proof (unfold_locales, goal_cases)
  case 1
  then show ?case by (simp add: cache_sink_def cache_MarkResolved_def cache_ok_mark)
next
  case 2
  then show ?case by (simp add: cache_sink_def cache_ok_Record)
next
  case 3
  show ?case by (simp add: cache_sink_def cache_MarkResolved_def)
next
  case 4
  show ?case by (simp add: cache_sink_def)
next
  case (5 s now ev)
  show ?case
    using mark_length [of now "re_PodUID ev" "re_Container ev" "re_RestartCount ev" "re_TerminatedAt ev" s]
    by (simp add: cache_sink_def cache_MarkResolved_def)
next
  case (6 s now' now ev)
  then show ?case by (simp add: cache_sink_def cache_MarkResolved_def cache_AlreadyResolved_def alreadyResolvedAt_def
      markResolvedAt_def Let_def)
next
  case (7 s ev ev' now' now)
  then show ?case using cache_mark_keeps [of s ev ev' now' now] by (simp add: cache_sink_def)
next
  case 8
  show ?case by (simp add: cache_sink_def cache_AlreadyResolved_def alreadyResolvedAt_def split: option.split)
next
  case 9
  show ?case unfolding cache_sink_def cache_MarkResolved_def by (simp, rule ByWorkload_cong) simp_all
next
  case 10
  show ?case by (simp add: cache_sink_def cache_MarkResolved_def)
next
  case (11 s key r)
  show ?case using Record_length [of key r s] by (simp add: cache_sink_def)
next
  case (12 s key r t)
  then show ?case using cache_record_new_read [of s key r t] by (simp add: cache_sink_def)
next
  case (13 s t i n e key r)
  then show ?case using cache_record_keeps_read [of s t i n e key r] by (simp add: cache_sink_def)
qed

section \<open>Passes\<close>

text \<open>A pass that has a kill to look at does what its decision says.\<close>

lemma pass_decides:
  assumes "watch_Reconcile E G S w now req (s, l) = (out, s', l')" "wt_GetPod w req = Inr pod"
    "\<exists>k \<in> set (oomKills E (wt_AsInt64 w) pod). \<not> sk_AlreadyResolved S now (event_of pod k) s"
  defines "kills \<equiv> oomKills E (wt_AsInt64 w) pod"
  shows "(out, s') = settle_kills S w now pod kills (filter (\<lambda>k. \<not> sk_AlreadyResolved S now (event_of pod k) s) kills)
    (fst (Decide G (podReader G w l) (Pod pod))) s"
proof -
  have "kills \<noteq> []" "filter (\<lambda>k. \<not> sk_AlreadyResolved S now (event_of pod k) s) kills \<noteq> []"
    using assms(3) by (auto simp: kills_def filter_empty_conv)
  then show ?thesis using assms(1,2) by (simp add: watch_Reconcile_def Let_def kills_def split: prod.splits)
qed

definition kill_age :: "time \<Rightarrow> oom_kill list \<Rightarrow> duration" where
  "kill_age now kills = now - newest_kill kills"

lemma retry_spec:
  assumes "0 \<le> window" "window \<le> 2 ^ 62" "- (2 ^ 62) < kill_age now kills" "retry_window wnd = window"
  shows "ownerRetryAfter wnd now kills =
    (if window \<le> kill_age now kills then 0 else min (max (kill_age now kills) minOwnerRetry) (window - kill_age now kills))"
proof -
  let ?a = "kill_age now kills"
  have ts: "time_sub now (newest_kill kills) = (if ?a < 2 ^ 63 then ?a else 2 ^ 63 - 1)"
    using assms(3) by (simp add: time_sub_def sat64_def kill_age_def)
  show ?thesis
  proof (cases "window \<le> ?a")
    case True
    then show ?thesis using ts assms(1,2,4) by (auto simp: ownerRetryAfter_def Let_def)
  next
    case False
    then have "in_int64 (window - ?a)" using assms(1,2,3) by (simp add: in_int64_def)
    with False show ?thesis using ts assms(2,4) by (simp add: ownerRetryAfter_def Let_def wrap64_id)
  qed
qed

text \<open>C32. Nothing is lost to a read that fails. When the walk to a kill's owner or to a level's annotations, or the
  listing of the Policies, fails, the pass records nothing, tells nobody and marks nothing resolved, so the kill is looked
  at again: an owner chain that was not read is asked for after a positive delay that ends within the window, until the
  newest kill is older than the window; any other error is returned, for the manager to back off.\<close>

theorem unread_kills_are_kept:
  assumes "watch_Reconcile E G cache_sink w now req (c, l) = (out, c', l')" "wt_GetPod w req = Inr pod"
    and "\<exists>k \<in> set (oomKills E (wt_AsInt64 w) pod). \<not> cache_AlreadyResolved now (event_of pod k) c"
    and "fst (Decide G (podReader G w l) (Pod pod)) = Inl err"
    and "0 \<le> wt_Window w" "wt_Window w \<le> 2 ^ 62"
  defines "window \<equiv> retry_window (wt_Window w)"
    and "age \<equiv> kill_age now (filter (\<lambda>k. \<not> cache_AlreadyResolved now (event_of pod k) c) (oomKills E (wt_AsInt64 w) pod))"
  assumes "- (2 ^ 62) < age"
  shows "c' = c \<and> wo_Notified out = [] \<and>
    (case err of
       OwnerUnresolved e \<Rightarrow> wo_Err out = None \<and>
         (if window \<le> age then wo_RequeueAfter out = 0 else 0 < wo_RequeueAfter out \<and> age + wo_RequeueAfter out \<le> window)
     | _ \<Rightarrow> wo_Err out = Some err \<and> wo_RequeueAfter out = 0)"
proof -
  let ?kills = "oomKills E (wt_AsInt64 w) pod"
  let ?un = "filter (\<lambda>k. \<not> cache_AlreadyResolved now (event_of pod k) c) ?kills"
  have AR: "sk_AlreadyResolved cache_sink = cache_AlreadyResolved" by (simp add: cache_sink_def)
  have eq: "(out, c') = settle_kills cache_sink w now pod ?kills ?un (Inl err) c"
    using pass_decides [OF assms(1,2), unfolded AR, OF assms(3)] unfolding assms(4) .
  have "0 \<le> window" "window \<le> 2 ^ 62" using assms(5,6) by (simp_all add: window_def retry_window_def defaultTTL_def)
  then have retry: "ownerRetryAfter (wt_Window w) now ?un =
      (if window \<le> age then 0 else min (max age minOwnerRetry) (window - age))"
    using retry_spec [of window now ?un "wt_Window w", folded age_def, OF _ _ assms(9)] window_def by blast
  show ?thesis
  proof (cases err)
    case (OwnerUnresolved e)
    then have out: "c' = c" "wo_Notified out = []" "wo_Err out = None" "wo_RequeueAfter out = ownerRetryAfter (wt_Window w) now ?un"
      using eq by (simp_all add: settle_kills_def nothing_done_def)
    have "if window \<le> age then wo_RequeueAfter out = 0 else 0 < wo_RequeueAfter out \<and> age + wo_RequeueAfter out \<le> window"
      unfolding out(4) retry by (simp add: minOwnerRetry_def min_def max_def)
    then show ?thesis unfolding OwnerUnresolved using out(1-3) by simp
  qed (use eq in \<open>simp_all add: settle_kills_def nothing_done_def\<close>)
qed


lemma kill_limit: "k \<in> set (oomKills E asInt64 pod) \<Longrightarrow> ok_LimitBytes k = containerMemLimitBytes E asInt64 pod (ok_Container k)"
proof -
  assume "k \<in> set (oomKills E asInt64 pod)"
  then obtain cs where "kill_of E asInt64 pod cs = Some k" by (auto simp: oomKills_def List.map_filter_def)
  then show ?thesis by (auto simp: kill_of_def split: prod.splits if_splits)
qed

lemma told_decided:
  assumes "watch_Reconcile E G S w now req (s, l) = (out, s', l')" "wt_GetPod w req = Inr pod" "wo_Notified out \<noteq> []"
  obtains d where "fst (Decide G (podReader G w l) (Pod pod)) = Inr d" "Governed d"
    "(wo_Notified out, s') = record_kills S (wt_HasHandler w) now (d_Identity d) (PolicyName d) pod (oomKills E (wt_AsInt64 w) pod)
       (fold (sk_MarkResolved S now) (map (event_of pod) (oomKills E (wt_AsInt64 w) pod)) s)"
proof -
  let ?kills = "oomKills E (wt_AsInt64 w) pod"
  let ?un = "filter (\<lambda>k. \<not> sk_AlreadyResolved S now (event_of pod k) s) ?kills"
  let ?d = "fst (Decide G (podReader G w l) (Pod pod))"
  have "?un \<noteq> []"
  proof
    assume "?un = []"
    then have "out = nothing_done" using assms(1,2) by (auto simp: watch_Reconcile_def Let_def split: if_splits)
    with assms(3) show False by (simp add: nothing_done_def)
  qed
  then have "\<exists>k \<in> set ?kills. \<not> sk_AlreadyResolved S now (event_of pod k) s" by (auto simp: filter_empty_conv)
  from pass_decides [OF assms(1,2) this] have eq: "(out, s') = settle_kills S w now pod ?kills ?un ?d s" .
  show thesis
  proof (cases ?d)
    case (Inl e)
    then show thesis using eq assms(3) by (cases e) (simp_all add: settle_kills_def nothing_done_def)
  next
    case (Inr d)
    then have "Governed d" using eq assms(3) by (auto simp: settle_kills_def nothing_done_def Let_def split: if_splits)
    then show thesis
      using that [OF Inr] eq by (simp add: Inr settle_kills_def nothing_done_def Let_def fold_map comp_def split: prod.splits)
  qed
qed

lemma told_by_handler: "fst (record_kills S h now i p pod ks s) \<noteq> [] \<Longrightarrow> h"
  by (induction ks arbitrary: s) (auto simp: Let_def split_beta split: if_splits)


section \<open>Retries\<close>

lemma age_doubles:
  assumes "0 \<le> window" "window \<le> 2 ^ 62" "0 \<le> kill_age now kills" "retry_window wnd = window"
    "now + ownerRetryAfter wnd now kills \<le> now'"
  shows "min window (max (2 * kill_age now kills) minOwnerRetry) \<le> kill_age now' kills"
proof -
  have "kill_age now kills + ownerRetryAfter wnd now kills \<le> kill_age now' kills"
    using assms(5) by (simp add: kill_age_def)
  moreover have "ownerRetryAfter wnd now kills = (if window \<le> kill_age now kills then 0
      else min (max (kill_age now kills) minOwnerRetry) (window - kill_age now kills))"
    using assms(3) by (intro retry_spec assms(1,2,4)) simp
  ultimately show ?thesis using assms(3) by (auto simp: min_def max_def split: if_splits)
qed

text \<open>The retries of an owner chain that is never read end: the wait doubles, so once \<open>5 s * 2^n\<close> reaches the window, no
  more than \<open>n + 1\<close> of them are asked for, each at least as late as it was asked. For the default window of thirty minutes
  that is ten.\<close>

theorem owner_retries_end:
  assumes "\<And>k. tick k + ownerRetryAfter wnd (tick k) kills \<le> tick (Suc k)" "newest_kill kills \<le> tick 0"
    and "0 \<le> wnd" "wnd \<le> 2 ^ 62" "retry_window wnd \<le> minOwnerRetry * 2 ^ n"
  shows "ownerRetryAfter wnd (tick (Suc n)) kills = 0"
proof -
  let ?w = "retry_window wnd"
  let ?age = "\<lambda>k. kill_age (tick k) kills"
  have w: "0 \<le> ?w" "?w \<le> 2 ^ 62" using assms(3,4) by (simp_all add: retry_window_def defaultTTL_def)
  have step: "min ?w (max (2 * ?age k) minOwnerRetry) \<le> ?age (Suc k)" if "0 \<le> ?age k" for k
    using age_doubles [OF w that refl assms(1)] .
  have "0 \<le> ?age k \<and> min ?w (minOwnerRetry * 2 ^ k) \<le> ?age (Suc k)" for k
  proof (induction k)
    case 0
    have "0 \<le> ?age 0" using assms(2) by (simp add: kill_age_def)
    with step [of 0] show ?case by auto
  next
    case (Suc k)
    have pos: "0 \<le> min ?w (minOwnerRetry * 2 ^ k)" using w by (simp add: minOwnerRetry_def)
    with Suc have "0 \<le> ?age (Suc k)" by linarith
    moreover from this step [of "Suc k"] Suc have "min ?w (minOwnerRetry * 2 ^ Suc k) \<le> ?age (Suc (Suc k))"
      by (auto simp: min_def max_def split: if_splits)
    ultimately show ?case by blast
  qed
  from this [of n] have "?w \<le> ?age (Suc n)" using assms(5) by simp
  moreover have "- (2 ^ 62) < ?age (Suc n)" using calculation w(1) by auto
  ultimately show ?thesis using retry_spec [OF w _ refl] by simp
qed

section \<open>An example\<close>

text \<open>A pod of the Deployment \<open>api\<close>, whose container \<open>app\<close> was killed at a limit of 64 bytes; \<open>answer\<close> is what reading its
  ReplicaSet gives.\<close>

definition ex_oom_pod :: "fixed pod" where
  "ex_oom_pod =
     \<lparr> pod_Name = ''api-1'', pod_Namespace = ''shop'', pod_UID = ''u1'', pod_Labels = [],
       pod_Annotations = [(PolicyAnnotation, ''web'')],
       pod_OwnerReferences = [\<lparr> ref_Kind = ''ReplicaSet'', ref_Name = ''api-7f'', ref_UID = ''r'', ref_Controller = Some True \<rparr>],
       pod_Deleting = False, pod_RestartPolicy = ''Always'', pod_Phase = ''Running'', pod_Conditions = [], pod_Containers = [],
       pod_InitContainers = [],
       pod_ContainerStatuses = [\<lparr> cs_Name = ''app'', cs_Waiting = None, cs_Terminated = None,
         cs_LastTerminated = Some \<lparr> tm_Reason = ''OOMKilled'', tm_FinishedAt = 100 * second \<rparr>, cs_RestartCount = 1,
         cs_Resources = Some \<lparr> Requests = [], Limits = [(''memory'', (64, BinarySI))] \<rparr> \<rparr>],
       pod_InitContainerStatuses = [], pod_EphemeralContainerStatuses = [] \<rparr>"

definition ex_watcher :: "go_error + owner_reference list \<Rightarrow> (fixed, unit, unit, unit, unit) watcher" where
  "ex_watcher answer =
     \<lparr> wt_GetPod = (\<lambda>_. Inr ex_oom_pod), wt_ListPolicies = Inr [ex_policy],
       wt_Members = \<lparr> mr_GetReplicaSet = (\<lambda>_ _ st. (answer, st)), mr_GetJob = (\<lambda>_ _ st. (Inr [], st)),
         mr_ListJobs = (\<lambda>_ st. (Inr [], st)), mr_ListLabelled = (\<lambda>_ _ st. (Inr [], st)), mr_AsSelector = (\<lambda>_. Inr ()) \<rparr>,
       wt_World = (), wt_GetAnnotations = (\<lambda>_ _ _. Inr []), wt_GetNamespace = (\<lambda>_. Inr []), wt_IsNotFound = (\<lambda>_. False),
       wt_AsInt64 = (\<lambda>q. Some \<lfloor>fst q\<rfloor>), wt_Window = 0, wt_HasHandler = True \<rparr>"

definition ex_owner_refs :: "owner_reference list" where
  "ex_owner_refs = [\<lparr> ref_Kind = ''Deployment'', ref_Name = ''api'', ref_UID = ''d'', ref_Controller = Some True \<rparr>]"

definition ex_kill :: oom_kill where
  "ex_kill = \<lparr> ok_Container = ''app'', ok_Restarted = True, ok_RestartCount = 1, ok_TerminatedAt = 100 * second, ok_LimitBytes = 64 \<rparr>"

lemma ex_watcher_fields [simp]:
  "wt_GetPod (ex_watcher answer) req = Inr ex_oom_pod" "wt_Window (ex_watcher answer) = 0"
  "wt_HasHandler (ex_watcher answer)"
  by (simp_all add: ex_watcher_def)

lemma ex_kills [simp]: "oomKills fixed_env (wt_AsInt64 (ex_watcher answer)) ex_oom_pod = [ex_kill]"
  by (simp add: oomKills_def List.map_filter_def kill_of_def kill_term_def isOOMKill_def ex_oom_pod_def ex_watcher_def
      containerMemLimitBytes_def memLimitBytes_def fixed_env_def ex_kill_def)

lemma ex_unresolved [simp]: "\<not> cache_AlreadyResolved now ev (NewCache 0)"
  by (simp add: cache_AlreadyResolved_def alreadyResolvedAt_def NewCache_def NewCacheWithLimit_def)

lemma ex_new_cache [simp]:
  "resolved (NewCache 0) = []" "oc_entries (NewCache 0) = []" "oc_max (NewCache 0) = 5000" "oc_ttl (NewCache 0) = 30 * minute"
  by (simp_all add: NewCache_def NewCacheWithLimit_def)

definition ex_lister :: "(fixed, unit, unit) policy_lister" where
  "ex_lister = NewPolicyLister []"

lemma ex_watch_policies:
  "rd_Policies (podReader ex_gov (ex_watcher answer) ex_lister) =
     Inr \<lparr> byName = [(''web'', compile_policy ex_gov ex_policy)], ps_excluded = [] \<rparr>"
  by (simp add: podReader_def wrap_error_def lister_List_def ex_lister_def NewPolicyLister_def ex_watcher_def index_def
      map_by_def index_step_def ex_policy_def)

lemma ex_watch_owner:
  "rd_PodOwner (podReader ex_gov (ex_watcher answer) ex_lister) ex_oom_pod =
     (case answer of Inl e \<Rightarrow> Inl (OwnerUnresolved (Wrap e))
      | Inr refs \<Rightarrow> Inr (case controller_of_kind [''Deployment'', ''Rollout''] refs of
          Some r \<Rightarrow> (ref_Kind r, ref_Name r) | None \<Rightarrow> (''ReplicaSet'', ''api-7f'')))"
  by (simp add: podReader_def wrap_error_def ResolvePodOwner_def ResolveControllerOwner_def GetControllerOf_def ex_oom_pod_def
      ex_watcher_def split: sum.split option.split)

lemmas ex_decide_simps = Decide_def Pod_def decide_from_def walk_decide_def optIn_def and_then_def yields_def readPolicies_def
  readOwner_def call_def fresh_walk_def ex_watch_policies ex_watch_owner lookup_or_def consent_def namespaceConsent_def
  namespaceRefusal_def labelRefusal_def compile_policy_def managedBy_def identity_of_def ApplyOwnerNameOverride_def
  ModeForKind_def Let_def GetControllerOf_def

lemma ex_pod_meta:
  "pod_Namespace ex_oom_pod = ''shop''" "pod_Labels ex_oom_pod = []" "pod_Annotations ex_oom_pod = [(PolicyAnnotation, ''web'')]"
  "pod_OwnerReferences ex_oom_pod = [\<lparr> ref_Kind = ''ReplicaSet'', ref_Name = ''api-7f'', ref_UID = ''r'', ref_Controller = Some True \<rparr>]"
  by (simp_all add: ex_oom_pod_def)

lemma ex_decide_unread:
  "fst (Decide ex_gov (podReader ex_gov (ex_watcher (Inl e)) ex_lister) (Pod ex_oom_pod)) = Inl (OwnerUnresolved (Wrap e))"
  by (simp add: ex_decide_simps ex_pod_meta) (simp add: ex_decide_simps ex_pod_meta ex_policy_def)

lemma ex_decide_read:
  "\<exists>d. fst (Decide ex_gov (podReader ex_gov (ex_watcher (Inr ex_owner_refs)) ex_lister) (Pod ex_oom_pod)) = Inr d \<and> Governed d \<and>
     d_Identity d = \<lparr> id_Namespace = ''shop'', OwnerKind = ''Deployment'', OwnerName = ''api'' \<rparr>"
  by (simp add: ex_decide_simps ex_pod_meta controller_of_kind_def ex_owner_refs_def)
    (simp add: ex_decide_simps ex_pod_meta ex_policy_def Governed_def controller_of_kind_def)

theorem owner_retries_end_witness:
  "ownerRetryAfter 0 (100 * second + 30 * minute * int (Suc 9)) [ex_kill] = 0"
proof -
  let ?tick = "\<lambda>k. 100 * second + 30 * minute * int k"
  have "?tick k + ownerRetryAfter 0 (?tick k) [ex_kill] \<le> ?tick (Suc k)" for k
  proof -
    have "ownerRetryAfter 0 (?tick k) [ex_kill] = (if 30 * minute \<le> kill_age (?tick k) [ex_kill] then 0
        else min (max (kill_age (?tick k) [ex_kill]) minOwnerRetry) (30 * minute - kill_age (?tick k) [ex_kill]))"
      by (rule retry_spec) (simp_all add: kill_age_def newest_kill_def ex_kill_def retry_window_def defaultTTL_def)
    moreover have "kill_age (?tick k) [ex_kill] = 30 * minute * int k" by (simp add: kill_age_def newest_kill_def ex_kill_def)
    ultimately show ?thesis by (auto simp: min_def max_def minOwnerRetry_def)
  qed
  then show ?thesis
    by (intro owner_retries_end [where tick = ?tick])
      (simp_all add: newest_kill_def ex_kill_def retry_window_def defaultTTL_def minOwnerRetry_def)
qed

theorem unread_kills_are_kept_witness:
  "\<exists>out l'. watch_Reconcile fixed_env ex_gov cache_sink (ex_watcher (Inl (Plain ''timeout''))) (130 * second) (''shop'', ''api-1'')
     (NewCache 0, ex_lister) = (out, NewCache 0, l') \<and> 0 < wo_RequeueAfter out \<and> wo_Notified out = []"
proof -
  let ?w = "ex_watcher (Inl (Plain ''timeout''))"
  obtain out c' l' where r: "watch_Reconcile fixed_env ex_gov cache_sink ?w (130 * second) (''shop'', ''api-1'')
      (NewCache 0, ex_lister) = (out, c', l')" by (metis prod.collapse)
  have age: "kill_age (130 * second) (filter (\<lambda>k. \<not> cache_AlreadyResolved (130 * second) (event_of ex_oom_pod k) (NewCache 0))
      (oomKills fixed_env (wt_AsInt64 ?w) ex_oom_pod)) = 30 * second"
    by (simp add: kill_age_def newest_kill_def ex_kill_def)
  have win: "retry_window (wt_Window ?w) = 30 * minute" by (simp add: retry_window_def defaultTTL_def)
  have "c' = NewCache 0 \<and> wo_Notified out = [] \<and> 0 < wo_RequeueAfter out"
    using unread_kills_are_kept [OF r ex_watcher_fields(1) _ ex_decide_unread] unfolding age win by simp
  with r show ?thesis by blast
qed



end
