(* ===== verification/DashParams.thy ===== *)
theory DashParams
  imports Patcher
begin

text \<open>
  Request parameters of the dashboard (\<open>internal/dashboard/validate.go\<close>, with \<open>paginateRange\<close> of
  \<open>identities.go\<close>, \<open>TimeRange\<close> of \<open>internal/prometheus/timerange.go\<close> and the two duration patterns of
  \<open>handlers_simulate.go\<close>). A query string is the map of its first values; an absent one is empty, as \<open>Get\<close>
  answers. A refused parameter is the field a \<open>paramError\<close> names; its text is left out. \<open>model.ParseDuration\<close> of
  prometheus/common is the argument \<open>parseDuration\<close>.

  Go's \<open>int\<close> is 64 bits wide: the arithmetic on a page and on epoch seconds wraps, and is written so.
\<close>

type_synonym url_values = "(string, string) gomap"

definition q_Get :: "url_values \<Rightarrow> string \<Rightarrow> string" where
  "q_Get q name = lookup_or [] q name"

section \<open>Pages, orders, choices\<close>

definition parsePageParams :: "url_values \<Rightarrow> int \<Rightarrow> int \<Rightarrow> string + int \<times> int" where
  "parsePageParams q defaultSize maxSize =
     (let s = q_Get q ''page''; z = q_Get q ''pageSize''
      in case (if s = [] then Some 1 else case Atoi s of None \<Rightarrow> None | Some n \<Rightarrow> if n < 1 then None else Some n) of
           None \<Rightarrow> Inl ''page''
         | Some page \<Rightarrow>
             if z = [] then Inr (page, defaultSize)
             else case Atoi z of
                    None \<Rightarrow> Inl ''pageSize''
                  | Some n \<Rightarrow> if n < 1 \<or> n > maxSize then Inl ''pageSize'' else Inr (page, n))"

text \<open>\<open>strings.CutPrefix\<close> of a dash.\<close>

definition cut_dash :: "string \<Rightarrow> string \<times> bool" where
  "cut_dash v = (case v of c # cs \<Rightarrow> if c = CHR ''-'' then (cs, True) else (v, False) | [] \<Rightarrow> (v, False))"

definition parseSortParam :: "url_values \<Rightarrow> string list \<Rightarrow> string \<Rightarrow> string + string \<times> bool" where
  "parseSortParam q allowed defaultKey =
     (let v = q_Get q ''sort''
      in if v = [] then Inr (defaultKey, False)
         else let (key, desc) = cut_dash v in if key \<notin> set allowed then Inl ''sort'' else Inr (key, desc))"

definition parseEnumParam :: "url_values \<Rightarrow> string \<Rightarrow> string list \<Rightarrow> string + string" where
  "parseEnumParam q name allowed =
     (let v = q_Get q name in if v = [] then Inr [] else if v \<in> set allowed then Inr v else Inl name)"

definition parseBoolParam :: "url_values \<Rightarrow> string \<Rightarrow> string + bool option" where
  "parseBoolParam q name =
     (let s = q_Get q name
      in if s = [] then Inr None else if s = ''true'' then Inr (Some True)
         else if s = ''false'' then Inr (Some False) else Inl name)"

text \<open>The page \<open>[start, end)\<close> of a list, and the slice expression: \<open>None\<close> is the run-time panic of bounds out of
  range.\<close>

definition paginateRange :: "int \<Rightarrow> int \<Rightarrow> int \<Rightarrow> int \<times> int" where
  "paginateRange n page pageSize =
     (let start = min (wrap64 (wrap64 (page - 1) * pageSize)) n
      in (start, min (wrap64 (start + pageSize)) n))"

definition go_slice :: "'a list \<Rightarrow> int \<Rightarrow> int \<Rightarrow> 'a list option" where
  "go_slice xs a b =
     (if 0 \<le> a \<and> a \<le> b \<and> b \<le> int (length xs) then Some (take (nat (b - a)) (drop (nat a) xs)) else None)"

section \<open>Durations and ranges\<close>

definition is_digit :: "char \<Rightarrow> bool" where
  "is_digit c \<longleftrightarrow> digit c \<noteq> None"

text \<open>The text after the unit it starts with; a longer unit comes first in the list.\<close>

fun cut_unit :: "string list \<Rightarrow> string \<Rightarrow> string option" where
  "cut_unit [] s = None"
| "cut_unit (u # us) s = (if take (length u) s = u then Some (drop (length u) s) else cut_unit us s)"

lemma cut_unit_length: "cut_unit us s = Some r \<Longrightarrow> length r \<le> length s"
  by (induction us) (auto split: if_splits)

text \<open>A non-empty sequence of numbers, each with one of the units.\<close>

function matches_units :: "string list \<Rightarrow> string \<Rightarrow> bool" where
  "matches_units us s =
     (if takeWhile is_digit s = [] then False
      else case cut_unit us (dropWhile is_digit s) of
             None \<Rightarrow> False
           | Some r \<Rightarrow> if r = [] then True else matches_units us r)"
  by pat_completeness auto
termination
proof (relation "measure (\<lambda>(us, s). length s)")
  fix us s r
  assume "takeWhile is_digit s \<noteq> []" "cut_unit us (dropWhile is_digit s) = Some r"
  then have "length r \<le> length (dropWhile is_digit s)" "0 < length (takeWhile is_digit s)"
    by (auto dest: cut_unit_length)
  moreover have "length s = length (takeWhile is_digit s) + length (dropWhile is_digit s)"
    by (metis length_append takeWhile_dropWhile_id)
  ultimately have "length r < length s" by linarith
  then show "((us, r), us, s) \<in> measure (\<lambda>(us, s). length s)" by simp
qed simp

declare matches_units.simps [simp del]

definition windowPattern :: "string \<Rightarrow> bool" where
  "windowPattern = matches_units [''m'', ''h'', ''d'', ''w'', ''y'']"

definition stepPattern :: "string \<Rightarrow> bool" where
  "stepPattern = matches_units [''ms'', ''s'', ''m'', ''h'', ''d'', ''w'', ''y'']"

definition parseDurationParam :: "url_values \<Rightarrow> string \<Rightarrow> string + string" where
  "parseDurationParam q def =
     (let v = q_Get q ''window'' in if v = [] then Inr def else if \<not> windowPattern v then Inl ''window'' else Inr v)"

definition parseStepParam :: "(string \<Rightarrow> duration option) \<Rightarrow> url_values \<Rightarrow> duration \<Rightarrow> string + duration" where
  "parseStepParam parseDuration q def =
     (let v = q_Get q ''step''
      in if v = [] then Inr def
         else case parseDuration v of
                None \<Rightarrow> Inl ''step''
              | Some step \<Rightarrow> if \<not> stepPattern v then Inl ''step'' else Inr step)"

text \<open>Seconds from Go's zero time to the Unix epoch; \<open>time.Unix\<close> and \<open>Time.Unix\<close>.\<close>

definition unixToInternal :: int where
  "unixToInternal = 62135596800"

definition time_Unix :: "int \<Rightarrow> time" where
  "time_Unix sec = wrap64 (sec + unixToInternal) * second"

definition unix_seconds :: "time \<Rightarrow> int" where
  "unix_seconds t = t div second - unixToInternal"

record time_range =
  tr_Start :: time
  tr_End :: time

definition TimeRangeFromWindow ::
  "(string \<Rightarrow> duration option) \<Rightarrow> string \<Rightarrow> time \<Rightarrow> time_range option" where
  "TimeRangeFromWindow parseDuration window now =
     (case parseDuration window of None \<Rightarrow> None | Some d \<Rightarrow> Some \<lparr> tr_Start = now - d, tr_End = now \<rparr>)"

definition maxSpanSeconds :: int where
  "maxSpanSeconds = 366 * 24 * 60 * 60"

definition validateAbsoluteRange :: "int \<Rightarrow> int \<Rightarrow> time \<Rightarrow> string option" where
  "validateAbsoluteRange from' to now =
     (if from' \<ge> to then Some ''from''
      else if to > unix_seconds (now + hour) then Some ''to''
      else if wrap64 (to - from') > maxSpanSeconds then Some ''from''
      else None)"

definition parseTimeRange ::
  "(string \<Rightarrow> duration option) \<Rightarrow> url_values \<Rightarrow> string \<Rightarrow> time \<Rightarrow> string + time_range" where
  "parseTimeRange parseDuration q defWindow now =
     (let fromStr = q_Get q ''from''; toStr = q_Get q ''to''
      in if fromStr = [] \<and> toStr = []
         then case parseDurationParam q defWindow of
                Inl f \<Rightarrow> Inl f
              | Inr window \<Rightarrow> (case TimeRangeFromWindow parseDuration window now of None \<Rightarrow> Inl ''window'' | Some tr \<Rightarrow> Inr tr)
         else if fromStr = [] then Inl ''from''
         else if toStr = [] then Inl ''to''
         else case Atoi fromStr of
                None \<Rightarrow> Inl ''from''
              | Some from' \<Rightarrow>
                  (case Atoi toStr of
                     None \<Rightarrow> Inl ''to''
                   | Some to \<Rightarrow>
                       (case validateAbsoluteRange from' to now of
                          Some f \<Rightarrow> Inl f
                        | None \<Rightarrow> Inr \<lparr> tr_Start = time_Unix from', tr_End = time_Unix to \<rparr>)))"

section \<open>Pages\<close>

lemma page_slice:
  assumes "1 \<le> page" "1 \<le> sz" "in_int64 (page * sz)" "length xs < 2 ^ 62" "sz \<le> 2 ^ 62"
  shows "(case paginateRange (int (length xs)) page sz of (a, b) \<Rightarrow> go_slice xs a b) =
    Some (take (nat sz) (drop (nat ((page - 1) * sz)) xs))"
proof -
  let ?n = "int (length xs)" and ?o = "(page - 1) * sz"
  have o: "0 \<le> ?o" "?o \<le> page * sz" using assms(1,2) by (auto simp: algebra_simps)
  have "page \<le> page * sz" using assms(1,2) by simp
  then have "in_int64 (page - 1)" "in_int64 ?o" using assms(1,3) o unfolding in_int64_def by linarith+
  then have start: "min (wrap64 (wrap64 (page - 1) * sz)) ?n = min ?o ?n" by (simp add: wrap64_id)
  have "in_int64 (min ?o ?n + sz)" using o(1) assms(2,4,5) by (auto simp: in_int64_def min_def)
  then have pr: "paginateRange ?n page sz = (min ?o ?n, min (min ?o ?n + sz) ?n)"
    by (simp add: paginateRange_def Let_def start wrap64_id)
  show ?thesis
  proof (cases "?o \<le> ?n")
    case True
    then have "nat (min (?o + sz) ?n - ?o) = min (nat sz) (length xs - nat ?o)"
      using o(1) assms(2) by (auto simp: min_def)
    with True o(1) assms(2) show ?thesis by (simp add: pr go_slice_def min_def)
  next
    case False
    then show ?thesis using assms(2) by (simp add: pr go_slice_def)
  qed
qed

lemma concat_pages: "length xs \<le> k * z \<Longrightarrow> concat (map (\<lambda>i. take z (drop (i * z) xs)) [0..<k]) = xs"
proof (induction k arbitrary: xs)
  case (Suc k)
  have "[0..<Suc k] = 0 # map Suc [0..<k]" by (simp add: upt_conv_Cons map_Suc_upt del: upt_Suc)
  then have "concat (map (\<lambda>i. take z (drop (i * z) xs)) [0..<Suc k]) =
      take z xs @ concat (map (\<lambda>i. take z (drop (i * z) (drop z xs))) [0..<k])"
    by (simp add: comp_def add.commute)
  also have "\<dots> = xs" using Suc.IH [of "drop z xs"] Suc.prems by simp
  finally show ?case .
qed simp

text \<open>Paging loses nothing: the pages of a list, in order, put back together are the list, whatever the page
  size, as long as page times size stays within 64 bits; and no such page is out of range.\<close>

theorem pages_partition:
  assumes "1 \<le> sz" "sz \<le> 200" "int k * sz < 2 ^ 63" "length xs \<le> k * nat sz" "length xs < 2 ^ 62"
  shows "(\<forall>p \<in> {1..k}. \<exists>items. (case paginateRange (int (length xs)) (int p) sz of (a, b) \<Rightarrow> go_slice xs a b) = Some items) \<and>
    concat (map (\<lambda>p. the (case paginateRange (int (length xs)) (int p) sz of (a, b) \<Rightarrow> go_slice xs a b)) [1..<Suc k]) = xs"
proof -
  let ?page = "\<lambda>p. (case paginateRange (int (length xs)) (int p) sz of (a, b) \<Rightarrow> go_slice xs a b)"
  have page: "?page p = Some (take (nat sz) (drop ((p - 1) * nat sz) xs))" if "1 \<le> p" "p \<le> k" for p
  proof -
    have "int p * sz \<le> int k * sz" using that assms(1) by (intro mult_right_mono) auto
    moreover have "0 \<le> int p * sz" using assms(1) by simp
    ultimately have "in_int64 (int p * sz)" using assms(3) unfolding in_int64_def by linarith
    moreover have "nat ((int p - 1) * sz) = (p - 1) * nat sz" using that assms(1) by (simp add: nat_mult_distrib nat_diff_distrib)
    ultimately show ?thesis using page_slice [of "int p" sz xs] that assms(1,2,5) by simp
  qed
  have "map (\<lambda>p. the (?page p)) [1..<Suc k] = map (\<lambda>i. the (?page (Suc i))) [0..<k]"
    by (simp add: map_Suc_upt [symmetric] comp_def del: upt_Suc)
  also have "\<dots> = map (\<lambda>i. take (nat sz) (drop (i * nat sz) xs)) [0..<k]"
  proof (rule map_cong [OF refl])
    fix i assume "i \<in> set [0..<k]"
    then show "the (?page (Suc i)) = take (nat sz) (drop (i * nat sz) xs)" using page [of "Suc i"] by (simp del: of_nat_Suc)
  qed
  finally have "concat (map (\<lambda>p. the (?page p)) [1..<Suc k]) = xs" using concat_pages [OF assms(4)] by simp
  moreover have "\<forall>p \<in> {1..k}. \<exists>items. ?page p = Some items" using page by auto
  ultimately show ?thesis by blast
qed

theorem pages_partition_witness:
  "concat (map (\<lambda>p. the (case paginateRange 5 (int p) 2 of (a, b) \<Rightarrow> go_slice [1, 2, 3, 4, 5 :: nat] a b)) [1..<Suc 3]) = [1, 2, 3, 4, 5]"
  using pages_partition [of 2 3 "[1, 2, 3, 4, 5 :: nat]", THEN conjunct2] by simp

text \<open>A page number the parser accepts is not always one the slice takes: with two items a page, page \<open>2^62 + 1\<close>
  starts at a negative offset, and slicing there panics.\<close>

theorem page_offset_wraps:
  "parsePageParams [(''page'', ''4611686018427387905''), (''pageSize'', ''2'')] 50 200 = Inr (4611686018427387905, 2) \<and>
   (case paginateRange (int (length xs)) 4611686018427387905 2 of (a, b) \<Rightarrow> go_slice xs a b) = None"
  by (simp add: parsePageParams_def q_Get_def lookup_or_def Atoi_def digit_def Let_def in_int64_def paginateRange_def
      wrap64_def go_slice_def)

section \<open>Ranges\<close>

text \<open>What an accepted range keeps to: its ends are in order, it ends at most an hour ahead, and it spans at most
  366 days, if it starts after the year 1.\<close>

lemma range_within_bounds:
  assumes "validateAbsoluteRange from' to now = None" "- unixToInternal \<le> from'" "to < 2 ^ 62"
  shows "from' < to \<and> to \<le> unix_seconds (now + hour) \<and> to - from' \<le> maxSpanSeconds"
proof -
  have "from' < to" "to \<le> unix_seconds (now + hour)" "wrap64 (to - from') \<le> maxSpanSeconds"
    using assms(1) by (auto simp: validateAbsoluteRange_def split: if_splits)
  moreover have "in_int64 (to - from')"
    using assms(2,3) calculation(1) by (simp add: in_int64_def unixToInternal_def)
  ultimately show ?thesis by (simp add: wrap64_id)
qed

text \<open>The span is measured with 64-bit subtraction: from the least epoch second, a range of centuries is
  accepted, since its length wraps to a negative number.\<close>

theorem span_check_wraps:
  assumes "0 \<le> to" "to \<le> unix_seconds (now + hour)" "to < 2 ^ 62"
  shows "validateAbsoluteRange (- (2 ^ 63)) to now = None \<and> maxSpanSeconds < to - (- (2 ^ 63))"
proof -
  have "wrap64 (to + 2 ^ 63) = to - 2 ^ 63" using assms(1,3) by (simp add: wrap64_def)
  then show ?thesis using assms by (simp add: validateAbsoluteRange_def maxSpanSeconds_def)
qed

theorem span_check_wraps_witness:
  "validateAbsoluteRange (- (2 ^ 63)) 1700000000 ((1700000000 + unixToInternal) * second) = None"
  using span_check_wraps [of 1700000000 "(1700000000 + unixToInternal) * second"]
  by (simp add: unix_seconds_def unixToInternal_def)

end
