(* ===== verification/Board.thy ===== *)
theory Board
  imports DashParams Inventory Recommender Lru
begin

text \<open>
  The dashboard's views of identities (\<open>internal/dashboard\<close>): their health (\<open>health.go\<close>,
  \<open>health_prometheus.go\<close>), the board every view is built from (\<open>board.go\<close>, \<open>identities.go\<close>), the lists
  (\<open>handlers_workloads.go\<close>) and the Overview (\<open>summary_handler.go\<close>).

  What the server reads is the record \<open>dash_server\<close>: the inventory's reader, the listed Policies, the health
  queries by what they ask for (the PromQL text is left out) with their answer and error, and the Prometheus
  queries of the Overview by metric name. Queries that run concurrently are pure reads here, so their order does not
  show. A response is \<open>Reply\<close>, \<open>Refused\<close> with a status and the field it blames, or \<open>Panics\<close>, which the recovery
  middleware answers. Quantities and instants are kept, not rendered. Text is ASCII. \<open>slices.SortFunc\<close> is not
  stable, but every order used here is total on the rows it is given, and so has one result.
\<close>

datatype 'a http = Reply 'a | Refused int string | Panics

section \<open>Health\<close>

record blocked_signal =
  bs_Reason :: string
  bs_Attempts :: int

record identity_health =
  ih_Conflicted :: bool
  OOM24h :: int
  ih_Blocked :: "blocked_signal option"
  StalePods :: int
  TotalPods :: int
  AutoscalerPresent :: bool

definition no_health :: identity_health where
  "no_health = \<lparr> ih_Conflicted = False, OOM24h = 0, ih_Blocked = None, StalePods = 0, TotalPods = 0, AutoscalerPresent = False \<rparr>"

datatype risk_state = RiskSafe | RiskDrifted | RiskAtRisk | RiskBlocked | RiskConflicted

fun risk_string :: "risk_state \<Rightarrow> string" where
  "risk_string RiskSafe = ''safe''"
| "risk_string RiskDrifted = ''drifted''"
| "risk_string RiskAtRisk = ''at-risk''"
| "risk_string RiskBlocked = ''blocked''"
| "risk_string RiskConflicted = ''conflicted''"

definition riskStates :: "string list" where
  "riskStates = map risk_string [RiskSafe, RiskDrifted, RiskAtRisk, RiskBlocked, RiskConflicted]"

definition riskStateOf :: "identity_health \<Rightarrow> risk_state" where
  "riskStateOf h =
     (if ih_Conflicted h then RiskConflicted
      else if ih_Blocked h \<noteq> None then RiskBlocked
      else if OOM24h h > 0 then RiskAtRisk
      else if StalePods h > 0 then RiskDrifted
      else RiskSafe)"

datatype health_query = QOom | QStale | QTotal | QBlocked | QAttempts | QAutoscaler

type_synonym health_querier =
  "workload_identity option \<Rightarrow> health_query \<Rightarrow> (string, float64) gomap \<times> go_error option"

definition workloadKey :: "string \<Rightarrow> string \<Rightarrow> string \<Rightarrow> string" where
  "workloadKey namespace kind name = namespace @ ''|'' @ kind @ ''|'' @ name"

text \<open>\<open>strings.Split\<close> at a character.\<close>

fun split_at :: "char \<Rightarrow> string \<Rightarrow> string list" where
  "split_at c [] = [[]]"
| "split_at c (x # xs) =
     (if x = c then [] # split_at c xs
      else case split_at c xs of [] \<Rightarrow> [[x]] | h # t \<Rightarrow> (x # h) # t)"

text \<open>\<open>strings.Join\<close>, the inverse.\<close>

fun join_with :: "char \<Rightarrow> string list \<Rightarrow> string" where
  "join_with c [] = []"
| "join_with c [x] = x"
| "join_with c (x # y # ys) = x @ c # join_with c (y # ys)"

type_synonym health_map = "(workload_identity, identity_health) gomap"

text \<open>The closure \<open>each\<close> of \<open>read\<close>: an entry whose key does not have the labels asked for is skipped.\<close>

definition health_each ::
  "(string, float64) gomap \<Rightarrow> nat \<Rightarrow> (string list \<Rightarrow> float64 \<Rightarrow> identity_health \<Rightarrow> identity_health) \<Rightarrow> health_map \<Rightarrow> health_map"
where
  "health_each m extra f byID =
     fold (\<lambda>(key, v) acc.
        let parts = split_at (CHR ''|'') key
        in if length parts \<noteq> 3 + extra then acc
           else let i = \<lparr> id_Namespace = parts ! 0, OwnerKind = parts ! 1, OwnerName = parts ! 2 \<rparr>
                in AList.update i (f (drop 3 parts) v (lookup_or no_health acc i)) acc) m byID"

definition health_fold :: "'q env \<Rightarrow> (health_query \<Rightarrow> (string, float64) gomap) \<Rightarrow> health_map" where
  "health_fold E m =
     (let int_of = to_i64 (f2i64 E);
          b1 = health_each (m QOom) 0 (\<lambda>_ v h. h\<lparr>OOM24h := int_of v\<rparr>) [];
          b2 = health_each (m QStale) 0 (\<lambda>_ v h. h\<lparr>StalePods := int_of v\<rparr>) b1;
          b3 = health_each (m QTotal) 0 (\<lambda>_ v h. h\<lparr>TotalPods := int_of v\<rparr>) b2;
          b4 = health_each (m QBlocked) 1 (\<lambda>rest _ h. h\<lparr>ih_Blocked := Some \<lparr> bs_Reason = rest ! 0, bs_Attempts = 0 \<rparr>\<rparr>) b3;
          b5 = health_each (m QAutoscaler) 0 (\<lambda>_ v h. h\<lparr>AutoscalerPresent := flt (Fin 0) v\<rparr>) b4
      in map (\<lambda>(i, h).
           (i, h\<lparr>ih_Blocked := map_option
             (\<lambda>b. b\<lparr>bs_Attempts := int_of (lookup_or (Fin 0) (m QAttempts)
                (workloadKey (id_Namespace i) (OwnerKind i) (OwnerName i)))\<rparr>) (ih_Blocked h)\<rparr>)) b5)"

definition health_read :: "'q env \<Rightarrow> health_querier \<Rightarrow> workload_identity option \<Rightarrow> health_map \<times> go_error option" where
  "health_read E query sel =
     (health_fold E (\<lambda>k. fst (query sel k)),
      errors_Join (List.map_filter (\<lambda>k. snd (query sel k)) [QOom, QStale, QTotal, QBlocked, QAttempts, QAutoscaler]))"

definition forIdentities ::
  "'q env \<Rightarrow> health_querier \<Rightarrow> workload_identity list \<Rightarrow> health_map \<times> go_error option" where
  "forIdentities E query ids =
     (if ids = [] then ([], None)
      else let (all, err) = health_read E query (case ids of [i] \<Rightarrow> Some i | _ \<Rightarrow> None)
           in (fold (\<lambda>i out. case map_of all i of Some h \<Rightarrow> AList.update i h out | None \<Rightarrow> out) ids [], err))"

section \<open>The board\<close>

record ('q, 'ls, 'sel, 'm) dash_server =
  ds_Reader :: "('q, 'ls) inv_reader"
  ds_Policies :: "go_error + ('q, 'sel, 'm) policies"
  ds_Now :: time
  ds_GetPolicy :: "string \<Rightarrow> go_error + ('q, 'sel) policy"
  ds_IsNotFound :: "go_error \<Rightarrow> bool"
  ds_Health :: health_querier
  ds_QueryInstant :: "string \<Rightarrow> float64 \<times> go_error option"
  ds_QueryRange :: "string \<Rightarrow> go_error + float64 list"
  ds_QueryByLabel :: "string \<Rightarrow> string \<Rightarrow> go_error + (string, float64) gomap"

record coordination_factors =
  cf_CPUOverhead :: float64
  cf_MemoryOverhead :: float64
  cf_CPUReplica :: float64

text \<open>\<open>TracedCoordination\<close> of \<open>internal/recommender/coordination.go\<close>; a fact that is missing reads as zero.\<close>

definition factor_fact :: "(string, 'q fact) gomap \<Rightarrow> string \<Rightarrow> float64" where
  "factor_fact facts name = (case map_of facts name of Some (FFactor f) \<Rightarrow> f | _ \<Rightarrow> Fin 0)"

definition TracedCoordination :: "'q resource_trace option \<Rightarrow> (float64 \<times> float64) option" where
  "TracedCoordination t =
     (case t of
        None \<Rightarrow> None
      | Some tr \<Rightarrow>
          (case stageNamed (rt_Request tr) ''coordination'' of
             None \<Rightarrow> None
           | Some st \<Rightarrow> Some (factor_fact (ts_Facts st) ''overheadFactor'', factor_fact (ts_Facts st) ''replicaFactor'')))"

definition no_factors :: coordination_factors where
  "no_factors = \<lparr> cf_CPUOverhead = Fin 0, cf_MemoryOverhead = Fin 0, cf_CPUReplica = Fin 0 \<rparr>"

definition coordination_step :: "'q container_trace \<Rightarrow> coordination_factors option \<Rightarrow> coordination_factors option" where
  "coordination_step tr out =
     (let out1 = (case TracedCoordination (ct_CPU tr) of
                    None \<Rightarrow> out
                  | Some (overhead, replica) \<Rightarrow>
                      let o' = (case out of None \<Rightarrow> no_factors | Some f \<Rightarrow> f)
                      in Some (if cf_CPUOverhead o' = Fin 0 then o'\<lparr>cf_CPUOverhead := overhead, cf_CPUReplica := replica\<rparr> else o'))
      in case TracedCoordination (ct_Memory tr) of
           None \<Rightarrow> out1
         | Some (overhead, _) \<Rightarrow>
             let o' = (case out1 of None \<Rightarrow> no_factors | Some f \<Rightarrow> f)
             in Some (if cf_MemoryOverhead o' = Fin 0 then o'\<lparr>cf_MemoryOverhead := overhead\<rparr> else o'))"

definition coordinationFactorsOf :: "'q workload_recommendation option \<Rightarrow> coordination_factors option" where
  "coordinationFactorsOf wlr =
     (case wlr of
        None \<Rightarrow> None
      | Some w \<Rightarrow> fold (\<lambda>name. coordination_step (the (map_of (Trace (w_Status w)) name)))
                    (sort (gkeys (Trace (w_Status w)))) None)"

record ('q, 'ls) identity_status =
  st_id :: "('q, 'ls) identity"
  st_health :: identity_health
  st_risk :: risk_state
  st_coordination :: "coordination_factors option"

definition status_of :: "health_map \<Rightarrow> ('q, 'ls) identity \<Rightarrow> ('q, 'ls) identity_status" where
  "status_of health i =
     (let h = (lookup_or no_health health (in_Key i))\<lparr>ih_Conflicted := in_Conflicted i\<rparr>
      in \<lparr> st_id = i, st_health = h, st_risk = riskStateOf h,
           st_coordination = coordinationFactorsOf (in_Recommendation i) \<rparr>)"

definition board ::
  "'q env \<Rightarrow> health_querier \<Rightarrow> ('q, 'ls) identity list \<Rightarrow> ('q, 'ls) identity_status list \<times> go_error option" where
  "board E query ids =
     (let (health, err) = forIdentities E query (map in_Key ids) in (map (status_of health) ids, err))"

definition identities ::
  "('sel, 'm) gov_env \<Rightarrow> ('q, 'ls, 'sel, 'm) dash_server \<Rightarrow> inv_options \<Rightarrow> go_error + ('q, 'ls) snapshot_of" where
  "identities G s opts = Take G (ds_Reader s) opts (ds_Policies s) (ds_Now s)"

definition clusterIdentities ::
  "('sel, 'm) gov_env \<Rightarrow> ('q, 'ls, 'sel, 'm) dash_server \<Rightarrow> go_error + ('q, 'ls) identity list" where
  "clusterIdentities G s =
     (case identities G s \<lparr> io_Namespaces = [], io_Kinds = [] \<rparr> of
        Inl err \<Rightarrow> Inl err | Inr snap \<Rightarrow> Inr (sn_Identities snap))"

definition governedBy ::
  "('sel, 'm) gov_env \<Rightarrow> ('q, 'ls, 'sel, 'm) dash_server \<Rightarrow> ('q, 'sel) policy \<Rightarrow> go_error + ('q, 'ls) identity list" where
  "governedBy G s policy =
     (case TakeForPolicy G (ds_Reader s) policy (ds_Policies s) (ds_Now s) of
        Inl err \<Rightarrow> Inl err | Inr snap \<Rightarrow> Inr (GovernedBy snap (p_Name policy)))"

text \<open>One identity; a key that names none is \<open>Inr None\<close>, the not-found error of the API.\<close>

definition dash_identity ::
  "('sel, 'm) gov_env \<Rightarrow> ('q, 'ls, 'sel, 'm) dash_server \<Rightarrow> workload_identity \<Rightarrow> go_error + ('q, 'ls) identity option" where
  "dash_identity G s key =
     (if OwnerKind key \<notin> set SupportedKinds then Inr None
      else case identities G s \<lparr> io_Namespaces = [id_Namespace key], io_Kinds = [OwnerKind key] \<rparr> of
             Inl err \<Rightarrow> Inl err
           | Inr snap \<Rightarrow> Inr (snapshot_Lookup snap key))"

definition conflictingPolicies :: "('q, 'ls) identity \<Rightarrow> string list" where
  "conflictingPolicies i = (if \<not> in_Conflicted i then [] else MemberPolicies i)"

section \<open>Rows\<close>

text \<open>A request or limit that is missing or zero is shown as none.\<close>

record 'q container_row =
  cr2_Name :: string
  cr2_Init :: bool
  cr2_CPURequest :: "'q option"
  cr2_CPULimit :: "'q option"
  cr2_MemoryRequest :: "'q option"
  cr2_MemoryLimit :: "'q option"

definition shown :: "'q env \<Rightarrow> 'q resource_list \<Rightarrow> string \<Rightarrow> 'q option" where
  "shown E rl name = (case map_of rl name of None \<Rightarrow> None | Some q \<Rightarrow> if q_is_zero E q then None else Some q)"

definition containerStatusFor :: "'q env \<Rightarrow> bool \<Rightarrow> 'q container \<Rightarrow> 'q container_row" where
  "containerStatusFor E isInit c =
     \<lparr> cr2_Name = c_Name c, cr2_Init = isInit,
       cr2_CPURequest = shown E (Requests (c_Resources c)) ResourceCPU,
       cr2_CPULimit = shown E (Limits (c_Resources c)) ResourceCPU,
       cr2_MemoryRequest = shown E (Requests (c_Resources c)) ResourceMemory,
       cr2_MemoryLimit = shown E (Limits (c_Resources c)) ResourceMemory \<rparr>"

definition containerStatuses :: "'q env \<Rightarrow> 'q container list \<Rightarrow> 'q container list \<Rightarrow> 'q container_row list" where
  "containerStatuses E containers initContainers =
     map (containerStatusFor E False) containers @ map (containerStatusFor E True) initContainers"

record 'q workload_row =
  rw_Namespace :: string
  rw_Kind :: string
  rw_Name :: string
  rw_Containers :: "'q container_row list"
  rw_RiskState :: risk_state
  rw_StalePods :: int
  rw_TotalPods :: int
  rw_AutoscalerPresent :: bool
  rw_CoordinationFactors :: "coordination_factors option"
  rw_Departed :: bool
  rw_LastSeenAt :: "time option"

record 'q all_workload_summary = "'q workload_row" +
  aw_Automated :: bool
  aw_PolicyName :: string
  aw_ConflictingPolicies :: "string list"

definition rowFor :: "'q env \<Rightarrow> ('q, 'ls) identity_status \<Rightarrow> 'q workload_row" where
  "rowFor E st =
     (let i = st_id st
      in \<lparr> rw_Namespace = id_Namespace (in_Key i), rw_Kind = OwnerKind (in_Key i), rw_Name = OwnerName (in_Key i),
           rw_Containers = containerStatuses E (in_Containers i) (in_InitContainers i),
           rw_RiskState = st_risk st, rw_StalePods = StalePods (st_health st), rw_TotalPods = TotalPods (st_health st),
           rw_AutoscalerPresent = AutoscalerPresent (st_health st), rw_CoordinationFactors = st_coordination st,
           rw_Departed = identity_Departed i,
           rw_LastSeenAt =
             (if identity_Departed i
              then case in_Recommendation i of
                     Some w \<Rightarrow> if ObservedAt (w_Status w) = 0 then None else Some (ObservedAt (w_Status w))
                   | None \<Rightarrow> None
              else None) \<rparr>)"

definition all_row :: "'q env \<Rightarrow> ('q, 'ls) identity_status \<Rightarrow> 'q all_workload_summary" where
  "all_row E st =
     workload_row.extend (rowFor E st)
       (all_workload_summary.fields (in_Policy (st_id st) \<noteq> []) (in_Policy (st_id st)) (conflictingPolicies (st_id st)))"

text \<open>\<open>strings.ToLower\<close> and \<open>strings.Contains\<close>.\<close>

definition lower_char :: "char \<Rightarrow> char" where
  "lower_char c = (let n = of_char c :: nat in if 65 \<le> n \<and> n \<le> 90 then char_of (n + 32) else c)"

definition ToLower :: "string \<Rightarrow> string" where
  "ToLower s = map lower_char s"

fun str_contains :: "string \<Rightarrow> string \<Rightarrow> bool" where
  "str_contains [] needle = (needle = [])"
| "str_contains (c # cs) needle = (take (length needle) (c # cs) = needle \<or> str_contains cs needle)"

definition nameMatches :: "('q, 'z) workload_row_scheme \<Rightarrow> string \<Rightarrow> bool" where
  "nameMatches w needle = str_contains (ToLower (rw_Name w)) needle"

definition rowOrder :: "string \<Rightarrow> ('q, 'z) workload_row_scheme \<Rightarrow> ('q, 'z) workload_row_scheme \<Rightarrow> int" where
  "rowOrder key a b =
     (if key = ''namespace'' then Compare (rw_Namespace a) (rw_Namespace b)
      else if key = ''kind'' then Compare (rw_Kind a) (rw_Kind b)
      else if key = ''stalePods'' then Compare (rw_StalePods a) (rw_StalePods b)
      else Compare (rw_Name a) (rw_Name b))"

definition allWorkloadOrder :: "string \<Rightarrow> 'q all_workload_summary \<Rightarrow> 'q all_workload_summary \<Rightarrow> int" where
  "allWorkloadOrder key a b =
     (if key = ''policyName'' then Compare (aw_PolicyName a) (aw_PolicyName b) else rowOrder key a b)"

text \<open>\<open>cmp.Or\<close>.\<close>

fun cmp_Or :: "int list \<Rightarrow> int" where
  "cmp_Or [] = 0"
| "cmp_Or (x # xs) = (if x \<noteq> 0 then x else cmp_Or xs)"

definition workload_cmp ::
  "(('q, 'z) workload_row_scheme \<Rightarrow> ('q, 'z) workload_row_scheme \<Rightarrow> int) \<Rightarrow> bool \<Rightarrow>
   ('q, 'z) workload_row_scheme \<Rightarrow> ('q, 'z) workload_row_scheme \<Rightarrow> int" where
  "workload_cmp primary desc a b =
     (let c = cmp_Or [primary a b, Compare (rw_Name a) (rw_Name b), Compare (rw_Namespace a) (rw_Namespace b),
                      Compare (rw_Kind a) (rw_Kind b)]
      in if desc then - c else c)"

definition sortWorkloads ::
  "(('q, 'z) workload_row_scheme \<Rightarrow> ('q, 'z) workload_row_scheme \<Rightarrow> int) \<Rightarrow> bool \<Rightarrow>
   ('q, 'z) workload_row_scheme list \<Rightarrow> ('q, 'z) workload_row_scheme list" where
  "sortWorkloads primary desc items = SortStableFunc (workload_cmp primary desc) items"

definition uniqueValues :: "('a \<Rightarrow> string) \<Rightarrow> 'a list \<Rightarrow> string list" where
  "uniqueValues valueOf rows = gkeys (fold (\<lambda>r seen. AList.update (valueOf r) () seen) rows [])"

section \<open>The list of all workloads\<close>

definition policyWorkloadSortKeys :: "string list" where
  "policyWorkloadSortKeys = [''name'', ''namespace'', ''kind'', ''stalePods'']"

definition allWorkloadSortKeys :: "string list" where
  "allWorkloadSortKeys = policyWorkloadSortKeys @ [''policyName'']"

record all_workload_filters =
  af_namespace :: string
  af_kind :: string
  af_search :: string
  af_automated :: "bool option"
  af_departed :: "bool option"
  af_risk :: string
  af_autoscaler :: string
  af_sort :: "string \<times> bool"
  af_page :: "int \<times> int"

text \<open>The parsers run in this order and the first that refuses decides.\<close>

definition parseAllWorkloadFilters :: "url_values \<Rightarrow> string + all_workload_filters" where
  "parseAllWorkloadFilters q =
     (case parseEnumParam q ''kind'' SupportedKinds of Inl f \<Rightarrow> Inl f | Inr kind \<Rightarrow>
      case parseBoolParam q ''automated'' of Inl f \<Rightarrow> Inl f | Inr automated \<Rightarrow>
      case parseBoolParam q ''departed'' of Inl f \<Rightarrow> Inl f | Inr departed \<Rightarrow>
      case parseEnumParam q ''risk'' riskStates of Inl f \<Rightarrow> Inl f | Inr risk \<Rightarrow>
      case parseEnumParam q ''autoscaler'' [''has-autoscaler'', ''no-autoscaler''] of Inl f \<Rightarrow> Inl f | Inr autoscaler \<Rightarrow>
      case parseSortParam q allWorkloadSortKeys ''name'' of Inl f \<Rightarrow> Inl f | Inr sort' \<Rightarrow>
      case parsePageParams q 50 200 of Inl f \<Rightarrow> Inl f | Inr page \<Rightarrow>
        Inr \<lparr> af_namespace = q_Get q ''namespace'', af_kind = kind, af_search = ToLower (q_Get q ''search''),
              af_automated = automated, af_departed = departed, af_risk = risk, af_autoscaler = autoscaler,
              af_sort = sort', af_page = page \<rparr>)"

text \<open>A filter that is set keeps the rows it accepts.\<close>

definition keep_if :: "bool \<Rightarrow> ('a \<Rightarrow> bool) \<Rightarrow> 'a list \<Rightarrow> 'a list" where
  "keep_if set' keep rows = (if set' then filter keep rows else rows)"

definition applyAllWorkloadFilters ::
  "'q all_workload_summary list \<Rightarrow> all_workload_filters \<Rightarrow> 'q all_workload_summary list" where
  "applyAllWorkloadFilters rows f =
     (keep_if (af_autoscaler f \<noteq> []) (\<lambda>w. rw_AutoscalerPresent w = (af_autoscaler f = ''has-autoscaler''))
     (keep_if (af_risk f \<noteq> []) (\<lambda>w. risk_string (rw_RiskState w) = af_risk f)
     (keep_if (af_search f \<noteq> []) (\<lambda>w. nameMatches w (af_search f))
     (keep_if (af_departed f \<noteq> None) (\<lambda>w. rw_Departed w = the (af_departed f))
     (keep_if (af_automated f \<noteq> None) (\<lambda>w. aw_Automated w = the (af_automated f))
     (keep_if (af_kind f \<noteq> []) (\<lambda>w. rw_Kind w = af_kind f)
     (keep_if (af_namespace f \<noteq> []) (\<lambda>w. rw_Namespace w = af_namespace f) rows)))))))"

record workload_counts =
  wc_Total :: int
  wc_Automated :: int
  wc_Manual :: int
  wc_Conflicted :: int

definition countAllWorkloads :: "'q all_workload_summary list \<Rightarrow> workload_counts" where
  "countAllWorkloads rows =
     fold (\<lambda>w c. if aw_Automated w then c\<lparr>wc_Automated := wc_Automated c + 1\<rparr>
                 else if rw_RiskState w = RiskConflicted then c\<lparr>wc_Conflicted := wc_Conflicted c + 1\<rparr>
                 else c\<lparr>wc_Manual := wc_Manual c + 1\<rparr>) rows
       \<lparr> wc_Total = int (length rows), wc_Automated = 0, wc_Manual = 0, wc_Conflicted = 0 \<rparr>"

record 'q paginated_all =
  pa_Items :: "'q all_workload_summary list"
  pa_Total :: int
  pa_Page :: "int \<times> int"
  pa_Namespaces :: "string list"
  pa_Kinds :: "string list"
  pa_Counts :: workload_counts

definition list_all_rows :: "all_workload_filters \<Rightarrow> 'q all_workload_summary list \<Rightarrow> 'q all_workload_summary list" where
  "list_all_rows f rows =
     sortWorkloads (allWorkloadOrder (fst (af_sort f))) (snd (af_sort f)) (applyAllWorkloadFilters rows f)"

definition handleAllWorkloads ::
  "'q env \<Rightarrow> ('sel, 'm) gov_env \<Rightarrow> ('q, 'ls, 'sel, 'm) dash_server \<Rightarrow> string \<Rightarrow> url_values \<Rightarrow> 'q paginated_all http" where
  "handleAllWorkloads E G s meth q =
     (if meth \<noteq> ''GET'' then Refused 405 []
      else case parseAllWorkloadFilters q of
        Inl f \<Rightarrow> Refused 400 f
      | Inr filters \<Rightarrow>
          (case clusterIdentities G s of
             Inl err \<Rightarrow> Refused 500 []
           | Inr ids \<Rightarrow>
               let rows = map (all_row E) (fst (board E (ds_Health s) ids));
                   listed = list_all_rows filters rows;
                   (a, b) = paginateRange (int (length listed)) (fst (af_page filters)) (snd (af_page filters))
               in case go_slice listed a b of
                    None \<Rightarrow> Panics
                  | Some items \<Rightarrow>
                      Reply \<lparr> pa_Items = items, pa_Total = int (length listed), pa_Page = af_page filters,
                              pa_Namespaces = uniqueValues rw_Namespace rows, pa_Kinds = uniqueValues rw_Kind rows,
                              pa_Counts = countAllWorkloads listed \<rparr>))"

section \<open>The list of a Policy's workloads\<close>

record 'q paginated_workloads =
  pw_Items :: "'q workload_row list"
  pw_Total :: int
  pw_Matched :: int
  pw_Page :: "int \<times> int"
  pw_Namespaces :: "string list"

text \<open>\<open>writeK8sGetError\<close>.\<close>

definition k8s_get_status :: "('q, 'ls, 'sel, 'm) dash_server \<Rightarrow> go_error \<Rightarrow> int" where
  "k8s_get_status s err = (if ds_IsNotFound s err then 404 else 500)"

definition handlePolicyWorkloads ::
  "'q env \<Rightarrow> ('sel, 'm) gov_env \<Rightarrow> ('q, 'ls, 'sel, 'm) dash_server \<Rightarrow> url_values \<Rightarrow> string \<Rightarrow> 'q paginated_workloads http" where
  "handlePolicyWorkloads E G s q policyName =
     (case ds_GetPolicy s policyName of
        Inl err \<Rightarrow> Refused (k8s_get_status s err) []
      | Inr policy \<Rightarrow>
          (case parseSortParam q policyWorkloadSortKeys ''name'' of
             Inl f \<Rightarrow> Refused 400 f
           | Inr (sortKey, desc) \<Rightarrow>
               (case parsePageParams q 50 200 of
                  Inl f \<Rightarrow> Refused 400 f
                | Inr (page, pageSize) \<Rightarrow>
                    (case governedBy G s policy of
                       Inl err \<Rightarrow> Refused 500 []
                     | Inr governed \<Rightarrow>
                         let rows = map (rowFor E) (fst (board E (ds_Health s) governed));
                             nsFilter = q_Get q ''namespace'';
                             search = ToLower (q_Get q ''search'');
                             kept = keep_if (search \<noteq> []) (\<lambda>w. nameMatches w search)
                                      (keep_if (nsFilter \<noteq> []) (\<lambda>w. rw_Namespace w = nsFilter) rows);
                             listed = sortWorkloads (rowOrder sortKey) desc kept;
                             (a, b) = paginateRange (int (length listed)) page pageSize
                         in case go_slice listed a b of
                              None \<Rightarrow> Panics
                            | Some items \<Rightarrow>
                                Reply \<lparr> pw_Items = items, pw_Total = int (length listed), pw_Matched = int (length rows),
                                        pw_Page = (page, pageSize), pw_Namespaces = uniqueValues rw_Namespace rows \<rparr>))))"

section \<open>The Overview\<close>

record summary_kpi =
  kp_CPUSavedCores :: float64
  kp_CPUSavedRatio :: float64
  kp_CPUSpark7d :: "float64 list"
  kp_MemSavedBytes :: float64
  kp_MemSavedRatio :: float64
  kp_MemSpark7d :: "float64 list"
  kp_CoordinatedCount :: int

record headroom_breakdown =
  hb_Used :: float64
  hb_Idle :: float64
  hb_Free :: float64

record attention_row =
  at_Identity :: workload_identity
  at_Signal :: string
  at_Detail :: "string list"

record attention_group =
  ag_Total :: int
  ag_Rows :: "attention_row list"

record policy_rollup =
  ru_Name :: string
  ru_WorkloadCount :: int
  ru_CPUSavingsCores :: float64
  ru_MemSavingsBytes :: float64
  ru_BlockedCount :: int

record summary_response =
  su_KPI :: summary_kpi
  su_Headroom :: "(string, headroom_breakdown) gomap"
  su_Attention :: "(risk_state, attention_group) gomap"
  su_Policies :: "policy_rollup list"

fun severity_of :: "risk_state \<Rightarrow> ('q, 'ls) identity_status \<Rightarrow> int" where
  "severity_of RiskBlocked st = (case ih_Blocked (st_health st) of Some b \<Rightarrow> bs_Attempts b | None \<Rightarrow> 0)"
| "severity_of RiskAtRisk st = OOM24h (st_health st)"
| "severity_of RiskDrifted st = StalePods (st_health st)"
| "severity_of _ st = 0"

definition attentionSignals :: "(risk_state \<times> string) list" where
  "attentionSignals = [(RiskConflicted, ''conflict''), (RiskBlocked, ''blocked''), (RiskAtRisk, ''OOM''), (RiskDrifted, ''drift'')]"

definition maxAttentionRows :: nat where
  "maxAttentionRows = 10"

definition CompareIdentity :: "workload_identity \<Rightarrow> workload_identity \<Rightarrow> int" where
  "CompareIdentity a b =
     cmp_Or [Compare (id_Namespace a) (id_Namespace b), Compare (OwnerKind a) (OwnerKind b), Compare (OwnerName a) (OwnerName b)]"

definition attention_cmp :: "risk_state \<Rightarrow> ('q, 'ls) identity_status \<Rightarrow> ('q, 'ls) identity_status \<Rightarrow> int" where
  "attention_cmp state x y =
     cmp_Or [Compare (severity_of state y) (severity_of state x), CompareIdentity (in_Key (st_id x)) (in_Key (st_id y))]"

definition attention_of :: "('q, 'ls) identity_status list \<Rightarrow> risk_state \<times> string \<Rightarrow> risk_state \<times> attention_group" where
  "attention_of statuses a =
     (let (state, signal) = a;
          group = SortStableFunc (attention_cmp state) (filter (\<lambda>st. st_risk st = state) statuses)
      in (state, \<lparr> ag_Total = int (length group),
                   ag_Rows = map (\<lambda>st. \<lparr> at_Identity = in_Key (st_id st), at_Signal = signal,
                                         at_Detail = conflictingPolicies (st_id st) \<rparr>) (take maxAttentionRows group) \<rparr>))"

definition blocked_under :: "('q, 'ls) identity_status list \<Rightarrow> string \<Rightarrow> int" where
  "blocked_under statuses name =
     int (length (filter (\<lambda>st. st_risk st = RiskBlocked \<and> in_Policy (st_id st) = name) statuses))"

definition fillRisk :: "('q, 'ls) identity_status list \<Rightarrow> summary_response \<Rightarrow> summary_response" where
  "fillRisk statuses resp =
     resp\<lparr>su_KPI := (su_KPI resp)\<lparr>kp_CoordinatedCount :=
            kp_CoordinatedCount (su_KPI resp) + int (length (filter (\<lambda>st. st_coordination st \<noteq> None) statuses))\<rparr>,
          su_Policies := map (\<lambda>p. p\<lparr>ru_BlockedCount := blocked_under statuses (ru_Name p)\<rparr>) (su_Policies resp),
          su_Attention := fold (\<lambda>a m. let (k, g) = attention_of statuses a in AList.update k g m) attentionSignals (su_Attention resp)\<rparr>"

definition sparklinePoints :: "go_error + float64 list \<Rightarrow> float64 list \<times> go_error option" where
  "sparklinePoints r = (case r of Inl err \<Rightarrow> ([], Some err) | Inr pts \<Rightarrow> (pts, None))"

definition readHeadroom :: "go_error + (string, float64) gomap \<Rightarrow> headroom_breakdown \<times> go_error option" where
  "readHeadroom r =
     (case r of
        Inl err \<Rightarrow> (\<lparr> hb_Used = Fin 0, hb_Idle = Fin 0, hb_Free = Fin 0 \<rparr>, Some err)
      | Inr m \<Rightarrow> (\<lparr> hb_Used = lookup_or (Fin 0) m ''used'', hb_Idle = lookup_or (Fin 0) m ''idle'',
                    hb_Free = lookup_or (Fin 0) m ''free'' \<rparr>, None))"

definition by_label :: "go_error + (string, float64) gomap \<Rightarrow> (string, float64) gomap \<times> go_error option" where
  "by_label r = (case r of Inl err \<Rightarrow> ([], Some err) | Inr m \<Rightarrow> (m, None))"

definition statuses_read ::
  "'q env \<Rightarrow> ('sel, 'm) gov_env \<Rightarrow> ('q, 'ls, 'sel, 'm) dash_server \<Rightarrow> ('q, 'ls) identity_status list \<times> go_error option" where
  "statuses_read E G s =
     (case clusterIdentities G s of Inl err \<Rightarrow> ([], Some err) | Inr ids \<Rightarrow> board E (ds_Health s) ids)"

definition computeSummary ::
  "'q env \<Rightarrow> ('sel, 'm) gov_env \<Rightarrow> ('q, 'ls, 'sel, 'm) dash_server \<Rightarrow> summary_response \<times> int" where
  "computeSummary E G s =
     (let (cpu, e1) = ds_QueryInstant s ''k8s_sustain:cluster_cpu_savings_cores'';
          (cpuRatio, e2) = ds_QueryInstant s ''k8s_sustain:cluster_cpu_savings_ratio'';
          (mem, e3) = ds_QueryInstant s ''k8s_sustain:cluster_memory_savings_bytes'';
          (memRatio, e4) = ds_QueryInstant s ''k8s_sustain:cluster_memory_savings_ratio'';
          (cpuSpark, e5) = sparklinePoints (ds_QueryRange s ''k8s_sustain:cluster_cpu_savings_cores'');
          (memSpark, e6) = sparklinePoints (ds_QueryRange s ''k8s_sustain:cluster_memory_savings_bytes'');
          (statuses, e7) = statuses_read E G s;
          (cpuHeadroom, e8) = readHeadroom (ds_QueryByLabel s ''k8s_sustain:cluster_cpu_headroom_breakdown'' ''segment'');
          (memHeadroom, e9) = readHeadroom (ds_QueryByLabel s ''k8s_sustain:cluster_memory_headroom_breakdown'' ''segment'');
          (wl, e10) = by_label (ds_QueryByLabel s ''k8s_sustain_policy_workload_count'' ''policy'');
          (cpuBy, e11) = by_label (ds_QueryByLabel s ''k8s_sustain:policy_cpu_savings_cores'' ''policy'');
          (memBy, e12) = by_label (ds_QueryByLabel s ''k8s_sustain:policy_memory_savings_bytes'' ''policy'');
          names = sort (remdups (gkeys wl @ gkeys cpuBy @ gkeys memBy));
          failed = length (filter (\<lambda>e. e \<noteq> None) [e1, e2, e3, e4, e5, e6, e7, e8, e9, e10, e11, e12])
      in (fillRisk statuses
            \<lparr> su_KPI = \<lparr> kp_CPUSavedCores = cpu, kp_CPUSavedRatio = cpuRatio, kp_CPUSpark7d = cpuSpark, kp_MemSavedBytes = mem,
                kp_MemSavedRatio = memRatio, kp_MemSpark7d = memSpark, kp_CoordinatedCount = 0 \<rparr>,
              su_Headroom = [(''cpu'', cpuHeadroom), (''memory'', memHeadroom)], su_Attention = [],
              su_Policies = map (\<lambda>n. \<lparr> ru_Name = n, ru_WorkloadCount = to_i64 (f2i64 E) (lookup_or (Fin 0) wl n),
                ru_CPUSavingsCores = lookup_or (Fin 0) cpuBy n, ru_MemSavingsBytes = lookup_or (Fin 0) memBy n,
                ru_BlockedCount = 0 \<rparr>) names \<rparr>, int failed))"

datatype summary_error = PartialSummary summary_response int | SummaryPanicked | SummaryAborted

definition fetchSummary ::
  "'q env \<Rightarrow> ('sel, 'm) gov_env \<Rightarrow> ('q, 'ls, 'sel, 'm) dash_server \<Rightarrow> summary_error + summary_response" where
  "fetchSummary E G s =
     (let (resp, failedReads) = computeSummary E G s
      in if failedReads > 0 then Inl (PartialSummary resp failedReads) else Inr resp)"

definition maxSummaryLastGoodAge :: duration where
  "maxSummaryLastGoodAge = 10 * minute"

text \<open>\<open>got\<close> is what the read-through cache answers; \<open>snapshot\<close> the cache behind it.\<close>

definition handleSummary ::
  "time \<Rightarrow> (string, summary_response) lru \<Rightarrow> summary_error + summary_response \<Rightarrow> string \<Rightarrow> summary_response http" where
  "handleSummary now snapshot got meth =
     (if meth \<noteq> ''GET'' then Refused 405 []
      else case got of
        Inr resp \<Rightarrow> Reply resp
      | Inl SummaryPanicked \<Rightarrow> Panics
      | Inl err \<Rightarrow>
          (case LastGoodWithin now snapshot ''summary'' maxSummaryLastGoodAge of
             Some lastGood \<Rightarrow> Reply lastGood
           | None \<Rightarrow> (case err of PartialSummary resp _ \<Rightarrow> Reply resp | _ \<Rightarrow> Refused 503 [])))"

section \<open>Splitting and joining\<close>

lemma split_at_append: "c \<notin> set a \<Longrightarrow> split_at c (a @ c # s) = a # split_at c s"
  by (induction a) auto

lemma split_at_last: "c \<notin> set a \<Longrightarrow> split_at c a = [a]"
  by (induction a) auto

end
