(* ===== verification/Simulation.thy ===== *)
theory Simulation
  imports Board Assemble
begin

text \<open>
  Simulations (\<open>internal/dashboard/simulate.go\<close>, \<open>simulation_settings.go\<close>, \<open>handlers_simulate.go\<close>,
  \<open>batch_simulate.go\<close>), and the charts of the detail page, which read the same histories
  (\<open>handlers_workload_metrics.go\<close>).

  A value the API renders as text stays the value, \<open>None\<close> where the text is empty. A JSON document is of an abstract
  type \<open>'doc\<close>: what encodes, merges and decodes one are parameters. A Prometheus expression is the pair of its
  aggregation and its rule.
\<close>

section \<open>Settings\<close>

record 'q simulation_settings =
  sm_ResourcesConfigs :: "'q resources_configs"
  sm_AutoscalerCoordination :: autoscaler_coordination
  sm_ExcludeInitContainers :: bool

definition settingsOf :: "'q right_sizing_spec \<Rightarrow> 'q simulation_settings" where
  "settingsOf spec =
     \<lparr> sm_ResourcesConfigs = ResourcesConfigs spec, sm_AutoscalerCoordination = AutoscalerCoordination spec,
       sm_ExcludeInitContainers = ExcludeInitContainers spec \<rparr>"

definition no_update_types :: update_types where
  "no_update_types = \<lparr> ut_Deployment = None, ut_StatefulSet = None, ut_DaemonSet = None, ut_CronJob = None, ut_Job = None,
     ut_ArgoRollout = None, ut_Pod = None \<rparr>"

definition settings_rightSizing :: "'q simulation_settings \<Rightarrow> 'q right_sizing_spec" where
  "settings_rightSizing s =
     \<lparr> rs_Update = \<lparr> us_Types = no_update_types, IgnoreSafeToEvict = False \<rparr>,
       ResourcesConfigs = sm_ResourcesConfigs s, AutoscalerCoordination = sm_AutoscalerCoordination s,
       ExcludeInitContainers = sm_ExcludeInitContainers s, RecommendOnly = False \<rparr>"

text \<open>A rule of the Policy CRD that settings break, with the value the message quotes; two are the same when the field
  and the message are.\<close>

datatype broken_rule =
    WindowRule string
  | PercentileRule int
  | HeadroomRule int
  | MinAboveMax
  | KeepRequestCombined
  | RatioRule float64
  | SeveralStrategies
  | DownsizeRule int
  | AnchorRule float64

datatype settings_error =
    OverrideError
  | InvalidQuantity string string string
  | Broken "string option" broken_rule

definition outside :: "int \<Rightarrow> int \<Rightarrow> int option \<Rightarrow> bool" where
  "outside lo hi v \<longleftrightarrow> (case v of None \<Rightarrow> False | Some n \<Rightarrow> n < lo \<or> hi < n)"

definition resourceViolations :: "'q env \<Rightarrow> string \<Rightarrow> 'q resource_config \<Rightarrow> settings_error list" where
  "resourceViolations E path c =
     (let broken = (\<lambda>cond r. if cond then [Broken (Some path) r] else []);
          req = rc_Requests c;
          l = rc_Limits c;
          strategies = length (filter id [EqualsToRequest l, KeepLimit l, KeepLimitRequestRatio l, NoLimit l, RequestsLimitsRatio l \<noteq> None]);
          percent = (case DownsizeThreshold c of None \<Rightarrow> None | Some d \<Rightarrow> dt_Percent d)
      in broken (Window c \<noteq> [] \<and> \<not> windowPattern (Window c)) (WindowRule (Window c)) @
         broken (outside 1 100 (Percentile req)) (PercentileRule (the (Percentile req))) @
         broken (outside 0 100 (Headroom req)) (HeadroomRule (the (Headroom req))) @
         broken (case (MinAllowed req, MaxAllowed req) of (Some a, Some b) \<Rightarrow> q_greater E a b | _ \<Rightarrow> False) MinAboveMax @
         broken (KeepRequest req \<and> (Headroom req \<noteq> None \<or> Percentile req \<noteq> None \<or> MinAllowed req \<noteq> None \<or> MaxAllowed req \<noteq> None)) KeepRequestCombined @
         broken (case RequestsLimitsRatio l of None \<Rightarrow> False | Some r \<Rightarrow> flt r (Fin 1)) (RatioRule (the (RequestsLimitsRatio l))) @
         broken (strategies > 1) SeveralStrategies @
         broken (outside 0 100 percent) (DownsizeRule (the percent)))"

definition violations :: "'q env \<Rightarrow> 'q simulation_settings \<Rightarrow> settings_error list" where
  "violations E s =
     resourceViolations E ''cpu'' (rs_CPU (sm_ResourcesConfigs s)) @ resourceViolations E ''memory'' (rs_Memory (sm_ResourcesConfigs s)) @
     (case ReplicaBudgetAnchor (sm_AutoscalerCoordination s) of
        None \<Rightarrow> []
      | Some a \<Rightarrow> if flt a (Fin 0) \<or> flt (Fin 1) a then [Broken None (AnchorRule a)] else [])"

section \<open>Overrides\<close>

text \<open>What the code uses of JSON: encoding settings, the merge patch, the strings found at the quantity fields of a
  document, and the strict decoding of a document.\<close>

record ('q, 'doc) json_env =
  js_Marshal :: "'q simulation_settings \<Rightarrow> go_error + 'doc"
  js_MergePatch :: "'doc \<Rightarrow> string \<Rightarrow> go_error + 'doc"
  js_Strings :: "'doc \<Rightarrow> go_error + (string \<times> string \<times> string \<Rightarrow> string option)"
  js_Decode :: "'doc \<Rightarrow> go_error + 'q simulation_settings"
  js_ParseQuantity :: "string \<Rightarrow> 'q option"

definition is_space :: "char \<Rightarrow> bool" where
  "is_space c \<longleftrightarrow> of_char c \<in> {9, 10, 11, 12, 13, 32 :: nat}"

definition TrimSpace :: "string \<Rightarrow> string" where
  "TrimSpace s = rev (dropWhile is_space (rev (dropWhile is_space s)))"

definition quantityFields :: "(string \<times> string) list" where
  "quantityFields = [(''requests'', ''minAllowed''), (''requests'', ''maxAllowed''), (''downsizeThreshold'', ''minDecrease'')]"

definition checkQuantities :: "('q, 'doc) json_env \<Rightarrow> 'doc \<Rightarrow> settings_error option" where
  "checkQuantities J doc =
     (case js_Strings J doc of
        Inl _ \<Rightarrow> Some OverrideError
      | Inr str_at \<Rightarrow>
          (case filter (\<lambda>(res, parent, leaf). case str_at (res, parent, leaf) of None \<Rightarrow> False | Some v \<Rightarrow> js_ParseQuantity J v = None)
                  (List.product [''cpu'', ''memory''] quantityFields) of
             [] \<Rightarrow> None
           | (res, parent, leaf) # _ \<Rightarrow> Some (InvalidQuantity res parent leaf)))"

datatype 'a override_outcome = Overridden 'a | Invalid settings_error | NotEncoded go_error

definition override :: "'q env \<Rightarrow> ('q, 'doc) json_env \<Rightarrow> 'q simulation_settings \<Rightarrow> string \<Rightarrow> 'q simulation_settings override_outcome" where
  "override E J s patch =
     (if TrimSpace patch = [] \<or> TrimSpace patch = ''null'' then Overridden s
      else if hd (TrimSpace patch) \<noteq> CHR ''{'' then Invalid OverrideError
      else case js_Marshal J s of
             Inl err \<Rightarrow> NotEncoded err
           | Inr base \<Rightarrow>
               (case js_MergePatch J base patch of
                  Inl _ \<Rightarrow> Invalid OverrideError
                | Inr merged \<Rightarrow>
                    (case checkQuantities J merged of
                       Some err \<Rightarrow> Invalid err
                     | None \<Rightarrow>
                         (case js_Decode J merged of
                            Inl _ \<Rightarrow> Invalid OverrideError
                          | Inr out \<Rightarrow>
                              (case filter (\<lambda>v. v \<notin> set (violations E s)) (violations E out) of
                                 [] \<Rightarrow> Overridden out
                               | v # _ \<Rightarrow> Invalid v)))))"

section \<open>Charts\<close>

type_synonym series = "(time \<times> float64) list"
type_synonym container_series = "(string, series) gomap"

record running_resource =
  rn_Requests :: container_series
  rn_Limits :: container_series

text \<open>The ports a Simulation reads through. A range query answers its series and the error it hit.\<close>

record ('q, 'st) sim_ports =
  sp_Fetch :: "('q, 'st) fetch"
  sp_FetchHistory :: "span \<Rightarrow> 'q resources_configs \<Rightarrow> inputs_request list \<Rightarrow> 'st \<Rightarrow> (workload_identity, go_error + history_points) gomap \<times> 'st"
  sp_Autoscalers :: "'st autoscaler_reader"
  sp_Clock :: "'st \<Rightarrow> time"
  sp_QueryRange :: "string \<times> string \<Rightarrow> workload_identity \<Rightarrow> time_range \<Rightarrow> duration \<Rightarrow> container_series \<times> go_error option"
  sp_ParseDuration :: "string \<Rightarrow> duration option"

record chart_resource =
  ch_name :: resource_kind
  ch_usage :: string
  ch_request :: string
  ch_limit :: string

definition chartResources :: "chart_resource list" where
  "chartResources =
     [\<lparr> ch_name = cpuResource, ch_usage = ''k8s_sustain:container_cpu_usage_by_workload:rate1m'',
        ch_request = ''k8s_sustain:container_cpu_requests_by_workload:cores'',
        ch_limit = ''k8s_sustain:container_cpu_limits_by_workload:cores'' \<rparr>,
      \<lparr> ch_name = memoryResource, ch_usage = ''k8s_sustain:container_memory_by_workload:bytes'',
        ch_request = ''k8s_sustain:container_memory_requests_by_workload:bytes'',
        ch_limit = ''k8s_sustain:container_memory_limits_by_workload:bytes'' \<rparr>]"

definition running_series :: "('q, 'st) sim_ports \<Rightarrow> workload_identity \<Rightarrow> time_range \<Rightarrow> duration \<Rightarrow> (resource_kind, running_resource) gomap" where
  "running_series P key r step =
     map (\<lambda>res. (ch_name res, \<lparr> rn_Requests = fst (sp_QueryRange P (''max'', ch_request res) key r step),
                               rn_Limits = fst (sp_QueryRange P (''max'', ch_limit res) key r step) \<rparr>)) chartResources"

definition chartSpan :: "time_range \<Rightarrow> duration \<Rightarrow> span" where
  "chartSpan r step = SpanOf (tr_Start r) (tr_End r) step"

definition stepSeconds :: "span \<Rightarrow> int" where
  "stepSeconds sp = go_div (sp_Step sp) second"

section \<open>Running one\<close>

record simulate_request =
  sq_Identity :: workload_identity
  sq_Window :: string
  sq_Step :: string
  sq_FromTs :: int
  sq_ToTs :: int
  sq_Policy :: string
  sq_Override :: string

record 'q simulation_container =
  sc_Rec :: "'q container_recommendation"
  sc_CPUUsageCores :: float64
  sc_MemoryUsageBytes :: float64

record resource_history =
  rh_Usage :: series
  rh_RecommendedRequest :: series
  rh_RecommendedLimit :: series
  rh_RunningRequest :: series
  rh_RunningLimit :: series

record simulation_history =
  sh_StepSeconds :: int
  sh_Containers :: "(string, (resource_kind, resource_history) gomap) gomap"
  sh_OOMKills :: "(time \<times> string) list"

record 'q container_resources =
  ct_CPURequest :: "'q option"
  ct_CPULimit :: "'q option"
  ct_MemoryRequest :: "'q option"
  ct_MemoryLimit :: "'q option"

record 'q simulation_result =
  sr_Policy :: string
  sr_Effective :: "'q simulation_settings"
  sr_Outcome :: recommendation_outcome
  sr_Containers :: "(string, 'q simulation_container) gomap"
  sr_Trace :: "(string, 'q container_trace) gomap"
  sr_InitContainers :: "string list"
  sr_Resources :: "(string, 'q container_resources) gomap"
  sr_History :: "go_error + simulation_history"

datatype simulation_error = InvalidSettings settings_error | BasePolicy go_error | SimulationFailed go_error

definition rightSizing_of :: "('q, 'ls, 'sel, 'm) dash_server \<Rightarrow> 'q right_sizing_spec \<Rightarrow> string \<Rightarrow> go_error + 'q right_sizing_spec" where
  "rightSizing_of s zero name =
     (if name = [] then Inr zero
      else case ds_GetPolicy s name of Inl err \<Rightarrow> Inl err | Inr policy \<Rightarrow> Inr (p_RightSizing policy))"

definition no_resource_config :: "'q resource_config" where
  "no_resource_config =
     \<lparr> Window = [],
       rc_Requests = \<lparr> Headroom = None, KeepRequest = False, MaxAllowed = None, MinAllowed = None, Percentile = None \<rparr>,
       rc_Limits = \<lparr> EqualsToRequest = False, KeepLimit = False, KeepLimitRequestRatio = False, NoLimit = False, RequestsLimitsRatio = None \<rparr>,
       DownsizeThreshold = None \<rparr>"

definition zero_settings :: "'q simulation_settings" where
  "zero_settings = \<lparr> sm_ResourcesConfigs = \<lparr> rs_CPU = no_resource_config, rs_Memory = no_resource_config \<rparr>,
     sm_AutoscalerCoordination = \<lparr> ac_Enabled = False, ReplicaBudgetAnchor = None \<rparr>, sm_ExcludeInitContainers = False \<rparr>"

definition policySettings :: "('q, 'ls, 'sel, 'm) dash_server \<Rightarrow> string \<Rightarrow> go_error + 'q simulation_settings" where
  "policySettings s name =
     (case rightSizing_of s (settings_rightSizing zero_settings) name of Inl err \<Rightarrow> Inl err | Inr spec \<Rightarrow> Inr (settingsOf spec))"

definition simulationContainers :: "'q result \<Rightarrow> workload_inputs \<Rightarrow> (string, 'q simulation_container) gomap" where
  "simulationContainers res inp =
     map (\<lambda>(name, rec). (name,
        \<lparr> sc_Rec = rec,
          sc_CPUUsageCores = (case inputs_usage inp name cpuResource of None \<Rightarrow> Fin 0 | Some v \<Rightarrow> v),
          sc_MemoryUsageBytes = (case inputs_usage inp name memoryResource of None \<Rightarrow> Fin 0 | Some v \<Rightarrow> v) \<rparr>)) (rs_Recs res)"

definition resourceStrings :: "'q env \<Rightarrow> 'q container \<Rightarrow> 'q container_resources" where
  "resourceStrings E c =
     \<lparr> ct_CPURequest = shown E (Requests (c_Resources c)) ResourceCPU, ct_CPULimit = shown E (Limits (c_Resources c)) ResourceCPU,
       ct_MemoryRequest = shown E (Requests (c_Resources c)) ResourceMemory, ct_MemoryLimit = shown E (Limits (c_Resources c)) ResourceMemory \<rparr>"

definition containerResourcesOf :: "'q env \<Rightarrow> ('q, 'ls) identity option \<Rightarrow> (string, 'q container_resources) gomap" where
  "containerResourcesOf E i =
     (case i of
        None \<Rightarrow> []
      | Some i \<Rightarrow> fold (\<lambda>c m. AList.update (c_Name c) (resourceStrings E c) m) (in_Containers i @ in_InitContainers i) [])"

definition initContainerNamesOf :: "('q, 'ls) identity option \<Rightarrow> string list" where
  "initContainerNamesOf i = (case i of None \<Rightarrow> [] | Some i \<Rightarrow> map c_Name (in_InitContainers i))"

definition simulationRange :: "(string \<Rightarrow> duration option) \<Rightarrow> simulate_request \<Rightarrow> time \<Rightarrow> time_range option" where
  "simulationRange parse req now =
     (if sq_FromTs req > 0 \<and> sq_ToTs req > 0
      then Some \<lparr> tr_Start = time_Unix (sq_FromTs req), tr_End = time_Unix (sq_ToTs req) \<rparr>
      else TimeRangeFromWindow parse (ResourceWindow (sq_Window req)) now)"

definition simulationHistory ::
  "'q env \<Rightarrow> ('q, 'st) sim_ports \<Rightarrow> workload_identity \<Rightarrow> span \<Rightarrow> containers_range \<times> history_points \<Rightarrow> simulation_history" where
  "simulationHistory E P key sp r =
     (let ran = running_series P key \<lparr> tr_Start = sp_Start sp, tr_End = sp_End sp \<rparr> (sp_Step sp);
          nothing = \<lparr> rn_Requests = [], rn_Limits = [] \<rparr>
      in \<lparr> sh_StepSeconds = stepSeconds sp,
           sh_Containers = map (\<lambda>(name, c). (name, map (\<lambda>res.
             (let computed = lookup_or empty_range c (ch_name res); rr = lookup_or nothing ran (ch_name res)
              in (ch_name res, \<lparr> rh_Usage = rr_Usage computed, rh_RecommendedRequest = rr_Request computed,
                    rh_RecommendedLimit = rr_Limit computed, rh_RunningRequest = lookup_or [] (rn_Requests rr) name,
                    rh_RunningLimit = lookup_or [] (rn_Limits rr) name \<rparr>))) chartResources)) (fst r),
           sh_OOMKills = OOMKills E (snd r) \<rparr>)"

definition null_or :: "string \<Rightarrow> string \<Rightarrow> string" where
  "null_or a b = (if a \<noteq> [] then a else b)"

text \<open>The identity a Simulation is of: an identity the inventory does not hold is simulated all the same.\<close>

definition simulated_identity ::
  "('sel, 'm) gov_env \<Rightarrow> ('q, 'ls, 'sel, 'm) dash_server \<Rightarrow> workload_identity \<Rightarrow> go_error + ('q, 'ls) identity" where
  "simulated_identity G s key =
     (case dash_identity G s key of
        Inr (Some i) \<Rightarrow> Inr i
      | Inr None \<Rightarrow> Inr (new_identity key)
      | Inl err \<Rightarrow> if ds_IsNotFound s err then Inr (new_identity key) else Inl err)"

text \<open>What is computed and charted once the settings are known.\<close>

definition simulate_with ::
  "'q env \<Rightarrow> ('q, 'st) sim_ports \<Rightarrow> simulate_request \<Rightarrow> ('q, 'ls) identity \<Rightarrow> string \<Rightarrow> 'q simulation_settings \<Rightarrow> 'st \<Rightarrow>
   (simulation_error + 'q simulation_result) \<times> 'st" where
  "simulate_with E P req i policy settings st =
     (let (assembled, st1) = Assemble E (sp_Fetch P) (sp_Autoscalers P) (sp_Clock P) (settings_rightSizing settings) [i] st
      in case ab_Request (hd assembled) of
           Inl err \<Rightarrow> (Inl (SimulationFailed err), st1)
         | Inr rq \<Rightarrow>
             let res = Compute E rq;
                 out = (\<lambda>history. \<lparr> sr_Policy = policy, sr_Effective = settings\<lparr>sm_ResourcesConfigs := rq_resources rq\<rparr>,
                   sr_Outcome = Recorded (rs_Outcome res), sr_Containers = simulationContainers res (rq_inputs rq),
                   sr_Trace = rs_Traces res, sr_InitContainers = initContainerNamesOf (Some i),
                   sr_Resources = containerResourcesOf E (Some i), sr_History = history \<rparr>)
             in case simulationRange (sp_ParseDuration P) req (rq_now rq) of
                  None \<Rightarrow> (Inl (SimulationFailed (Plain ''resolve chart window'')), st1)
                | Some tr \<Rightarrow>
                    (case sp_ParseDuration P (null_or (sq_Step req) ''5m'') of
                       None \<Rightarrow> (Inl (SimulationFailed (Plain ''parsing step'')), st1)
                     | Some step \<Rightarrow>
                         let sp = chartSpan tr step;
                             (fetched, st2) = sp_FetchHistory P sp (rq_resources rq) [request_for (settings_rightSizing settings) i] st1
                         in (Inr (out (case ComputeRange E rq (map_of fetched (in_Key i)) of
                                         Inl err \<Rightarrow> Inl err
                                       | Inr r \<Rightarrow> Inr (simulationHistory E P (in_Key i) sp r))), st2)))"

definition runSimulation ::
  "'q env \<Rightarrow> ('sel, 'm) gov_env \<Rightarrow> ('q, 'ls, 'sel, 'm) dash_server \<Rightarrow> ('q, 'doc) json_env \<Rightarrow> ('q, 'st) sim_ports \<Rightarrow> simulate_request \<Rightarrow>
   'st \<Rightarrow> (simulation_error + 'q simulation_result) \<times> 'st" where
  "runSimulation E G s J P req st =
     (case simulated_identity G s (sq_Identity req) of
        Inl err \<Rightarrow> (Inl (SimulationFailed (Wrap err)), st)
      | Inr i \<Rightarrow>
          let policy = null_or (sq_Policy req) (in_Policy i)
          in case policySettings s policy of
               Inl err \<Rightarrow> (Inl (BasePolicy err), st)
             | Inr base \<Rightarrow>
                 (case override E J base (sq_Override req) of
                    Invalid err \<Rightarrow> (Inl (InvalidSettings err), st)
                  | NotEncoded err \<Rightarrow> (Inl (SimulationFailed err), st)
                  | Overridden settings \<Rightarrow> simulate_with E P req i policy settings st))"

section \<open>The handler\<close>

record 'q simulate_response = "'q simulation_result" +
  sr_LiveOOMWindowSeconds :: int

definition simulate_reply :: "'q simulation_result \<Rightarrow> 'q simulate_response" where
  "simulate_reply r = simulation_result.extend r \<lparr> sr_LiveOOMWindowSeconds = go_div LiveOOMWindow second \<rparr>"

definition simulate_status ::
  "('q, 'ls, 'sel, 'm) dash_server \<Rightarrow> simulation_error + 'q simulation_result \<Rightarrow> 'q simulate_response http" where
  "simulate_status s r =
     (case r of
        Inr out \<Rightarrow> Reply (simulate_reply out)
      | Inl (InvalidSettings _) \<Rightarrow> Refused 400 ''override''
      | Inl (BasePolicy err) \<Rightarrow> Refused (k8s_get_status s err) []
      | Inl (SimulationFailed _) \<Rightarrow> Refused 500 [])"

text \<open>\<open>body\<close> is the decoded body, \<open>now\<close> the wall clock.\<close>

definition handleSimulate ::
  "'q env \<Rightarrow> ('sel, 'm) gov_env \<Rightarrow> ('q, 'ls, 'sel, 'm) dash_server \<Rightarrow> ('q, 'doc) json_env \<Rightarrow> ('q, 'st) sim_ports \<Rightarrow> time \<Rightarrow> string \<Rightarrow>
   go_error + simulate_request \<Rightarrow> 'st \<Rightarrow> 'q simulate_response http \<times> 'st" where
  "handleSimulate E G s J P now meth body st =
     (if meth \<noteq> ''POST'' then (Refused 405 [], st)
      else case body of
        Inl _ \<Rightarrow> (Refused 400 [], st)
      | Inr req0 \<Rightarrow>
          let req = req0\<lparr>sq_Window := null_or (sq_Window req0) ''168h'', sq_Step := null_or (sq_Step req0) ''5m''\<rparr>
          in if id_Namespace (sq_Identity req) = [] \<or> OwnerName (sq_Identity req) = [] \<or>
                OwnerKind (sq_Identity req) \<notin> set SupportedKinds \<or>
                \<not> windowPattern (sq_Window req) \<or> \<not> stepPattern (sq_Step req) \<or>
                ((sq_FromTs req \<noteq> 0 \<or> sq_ToTs req \<noteq> 0) \<and>
                 (sq_FromTs req = 0 \<or> sq_ToTs req = 0 \<or> validateAbsoluteRange (sq_FromTs req) (sq_ToTs req) now \<noteq> None))
             then (Refused 400 [], st)
             else (case runSimulation E G s J P req st of (r, st') \<Rightarrow> (simulate_status s r, st')))"

end
