(* ===== verification/Savings.thy ===== *)
theory Savings
  imports Simulation
begin

text \<open>
  What a Policy would save (\<open>internal/dashboard/batch_simulate.go\<close>, \<open>formatQuantity\<close> of \<open>server.go\<close>) and what the
  detail page charts and tells of an identity (\<open>handlers_workload_metrics.go\<close>, \<open>handlers_workload_detail.go\<close>,
  \<open>activity.go\<close>).

  Totals are \<open>int64\<close> millivalues and wrap. A formatted value is its unit and the number before its decimals are cut.
\<close>

section \<open>Savings\<close>

datatype formatted = Gi float64 | Mi float64 | Cores float64 | Millis int

definition formatQuantity :: "int \<Rightarrow> string \<Rightarrow> formatted" where
  "formatQuantity milliValue format =
     (if format = ''memory''
      then let mib = fdiv (fdiv (of_i64 milliValue) (Fin 1000)) (Fin 1048576)
           in if \<not> flt mib (Fin 1024) then Gi (fdiv mib (Fin 1024)) else Mi mib
      else if 1000 \<le> milliValue then Cores (fdiv (of_i64 milliValue) (Fin 1000)) else Millis milliValue)"

record savings =
  sv_current :: int
  sv_recommended :: int

definition no_savings :: savings where
  "no_savings = \<lparr> sv_current = 0, sv_recommended = 0 \<rparr>"

definition percent_of :: "int \<Rightarrow> int \<Rightarrow> float64" where
  "percent_of part whole =
     fdiv (fround_int (fmul (fmul (fdiv (of_i64 part) (of_i64 whole)) (Fin 100)) (Fin 10))) (Fin 10)"

definition deltaPercent :: "int \<Rightarrow> int \<Rightarrow> float64" where
  "deltaPercent current advised = (if current = 0 then Fin 0 else percent_of (wrap64 (advised - current)) current)"

text \<open>A container's current and recommended request of a resource, \<open>None\<close> where it has none.\<close>

type_synonym 'q change = "'q option \<times> 'q option"

definition savings_add :: "'q env \<Rightarrow> 'q change \<Rightarrow> savings \<Rightarrow> float64 \<times> savings" where
  "savings_add E ch s =
     (case ch of
        (Some cur, Some rec) \<Rightarrow>
          (deltaPercent (q_milli_value E cur) (q_milli_value E rec),
           \<lparr> sv_current = wrap64 (sv_current s + q_milli_value E cur), sv_recommended = wrap64 (sv_recommended s + q_milli_value E rec) \<rparr>)
      | _ \<Rightarrow> (Fin 0, s))"

record savings_aggregate =
  sa_CurrentMillis :: int
  sa_RecommendedMillis :: int
  sa_SavingsMillis :: int
  sa_SavingsPercent :: float64
  sa_CurrentFormatted :: formatted
  sa_RecommendedFormatted :: formatted
  sa_SavingsFormatted :: formatted

definition buildSavingsAggregate :: "int \<Rightarrow> int \<Rightarrow> string \<Rightarrow> savings_aggregate" where
  "buildSavingsAggregate current advised resourceType =
     (let saved = wrap64 (current - advised)
      in \<lparr> sa_CurrentMillis = current, sa_RecommendedMillis = advised, sa_SavingsMillis = saved,
           sa_SavingsPercent = (if 0 < current then percent_of saved current else Fin 0),
           sa_CurrentFormatted = formatQuantity current resourceType,
           sa_RecommendedFormatted = formatQuantity advised resourceType,
           sa_SavingsFormatted = formatQuantity (max saved (wrap64 (- saved))) resourceType \<rparr>)"

section \<open>A batch\<close>

record 'q batch_container =
  bc_CPU :: "'q change"
  bc_CPUDeltaPercent :: float64
  bc_Memory :: "'q change"
  bc_MemDeltaPercent :: float64

record 'q workload_batch_result =
  wb_Identity :: workload_identity
  wb_Containers :: "(string, 'q batch_container) gomap"
  wb_Outcome :: "recommendation_outcome option"
  wb_Error :: "go_error option"

record 'q batch_response =
  br_PolicyName :: string
  br_CPU :: savings_aggregate
  br_Memory :: savings_aggregate
  br_Workloads :: "'q workload_batch_result list"

definition computeRecommendations ::
  "'q env \<Rightarrow> ('q, 'st) sim_ports \<Rightarrow> 'q right_sizing_spec \<Rightarrow> ('q, 'ls) identity list \<Rightarrow> 'st \<Rightarrow> (go_error + 'q result) list \<times> 'st" where
  "computeRecommendations E P spec workloads st =
     (case Assemble E (sp_Fetch P) (sp_Autoscalers P) (sp_Clock P) spec workloads st of
        (assembled, st') \<Rightarrow> (map (\<lambda>a. map_sum id (Compute E) (ab_Request a)) assembled, st'))"

text \<open>The containers a row shows, each with its changes: an init container only when one is recommended for it.\<close>

definition cpu_change :: "'q env \<Rightarrow> 'q container \<Rightarrow> 'q container_recommendation option \<Rightarrow> 'q change" where
  "cpu_change E c rec = (shown E (Requests (c_Resources c)) ResourceCPU, Option.bind rec CPURequest)"

definition memory_change :: "'q env \<Rightarrow> 'q container \<Rightarrow> 'q container_recommendation option \<Rightarrow> 'q change" where
  "memory_change E c rec = (shown E (Requests (c_Resources c)) ResourceMemory, Option.bind rec MemoryRequest)"

definition batch_containers :: "('q, 'ls) identity \<Rightarrow> 'q recs \<Rightarrow> 'q container list" where
  "batch_containers i recs = in_Containers i @ filter (\<lambda>c. map_of recs (c_Name c) \<noteq> None) (in_InitContainers i)"

definition batch_container ::
  "'q env \<Rightarrow> 'q recs \<Rightarrow> 'q container \<Rightarrow> (string, 'q batch_container) gomap \<times> savings \<times> savings \<Rightarrow>
   (string, 'q batch_container) gomap \<times> savings \<times> savings" where
  "batch_container E recs c t =
     (case t of (rows, cpu, mem) \<Rightarrow>
        let rec = map_of recs (c_Name c);
            (dc, cpu') = savings_add E (cpu_change E c rec) cpu;
            (dm, mem') = savings_add E (memory_change E c rec) mem
        in (AList.update (c_Name c) \<lparr> bc_CPU = cpu_change E c rec, bc_CPUDeltaPercent = dc,
                                      bc_Memory = memory_change E c rec, bc_MemDeltaPercent = dm \<rparr> rows, cpu', mem'))"

definition batch_workload ::
  "'q env \<Rightarrow> ('q, 'ls) identity \<times> (go_error + 'q result) \<Rightarrow> 'q workload_batch_result list \<times> savings \<times> savings \<Rightarrow>
   'q workload_batch_result list \<times> savings \<times> savings" where
  "batch_workload E wr t =
     (case (wr, t) of ((i, r), (rows, cpu, mem)) \<Rightarrow>
        let row = \<lparr> wb_Identity = in_Key i, wb_Containers = [], wb_Outcome = None, wb_Error = None \<rparr>
        in case r of
             Inl err \<Rightarrow> (rows @ [row\<lparr>wb_Error := Some err\<rparr>], cpu, mem)
           | Inr res \<Rightarrow>
               let start = (if rs_Outcome res \<noteq> Recommended then (no_savings, no_savings) else (cpu, mem));
                   (cs, cpu', mem') = fold (batch_container E (rs_Recs res)) (batch_containers i (rs_Recs res)) ([], start)
               in (rows @ [row\<lparr>wb_Containers := cs, wb_Outcome := Some (Recorded (rs_Outcome res))\<rparr>],
                   if rs_Outcome res \<noteq> Recommended then (cpu, mem) else (cpu', mem')))"

definition handlePolicyBatchSimulate ::
  "'q env \<Rightarrow> ('sel, 'm) gov_env \<Rightarrow> ('q, 'ls, 'sel, 'm) dash_server \<Rightarrow> ('q, 'st) sim_ports \<Rightarrow> string \<Rightarrow> string \<Rightarrow> 'st \<Rightarrow>
   'q batch_response http \<times> 'st" where
  "handlePolicyBatchSimulate E G s P meth policyName st =
     (if meth \<noteq> ''GET'' then (Refused 405 [], st)
      else case ds_GetPolicy s policyName of
        Inl err \<Rightarrow> (Refused (k8s_get_status s err) [], st)
      | Inr policy \<Rightarrow>
          (case governedBy G s policy of
             Inl err \<Rightarrow> (Refused 500 [], st)
           | Inr governed \<Rightarrow>
               let workloads = filter (\<lambda>i. \<not> identity_Departed i) governed;
                   (results, st') = computeRecommendations E P (p_RightSizing policy) workloads st;
                   (rows, cpu, mem) = fold (batch_workload E) (zip workloads results) ([], no_savings, no_savings)
               in (Reply \<lparr> br_PolicyName = policyName,
                           br_CPU = buildSavingsAggregate (sv_current cpu) (sv_recommended cpu) ''cpu'',
                           br_Memory = buildSavingsAggregate (sv_current mem) (sv_recommended mem) ''memory'',
                           br_Workloads = rows \<rparr>, st')))"

section \<open>The detail page\<close>

record usage_signal_settings =
  us_Percentile :: int
  us_Window :: string
  us_KeepRequest :: bool

record usage_signal =
  ug_Policy :: string
  ug_StepSeconds :: int
  ug_CPU :: usage_signal_settings
  ug_Memory :: usage_signal_settings
  ug_ExcludeInitContainers :: bool
  ug_Containers :: "(string, (resource_kind, series) gomap) gomap"

definition usageSignalSettingsOf :: "'q resource_config \<Rightarrow> usage_signal_settings" where
  "usageSignalSettingsOf rc =
     \<lparr> us_Percentile = (case Percentile (rc_Requests rc) of None \<Rightarrow> 0 | Some p \<Rightarrow> p), us_Window = Window rc,
       us_KeepRequest = KeepRequest (rc_Requests rc) \<rparr>"

definition readHistory ::
  "'q env \<Rightarrow> ('q, 'ls, 'sel, 'm) dash_server \<Rightarrow> ('q, 'st) sim_ports \<Rightarrow> ('q, 'ls) identity \<Rightarrow> time_range \<Rightarrow> duration \<Rightarrow> 'st \<Rightarrow>
   (go_error + usage_signal option \<times> (time \<times> string) list) \<times> 'st" where
  "readHistory E s P i r step st =
     (case rightSizing_of s (settings_rightSizing zero_settings) (in_Policy i) of
        Inl err \<Rightarrow> (Inl err, st)
      | Inr spec \<Rightarrow>
          let sp = chartSpan r step;
              resources = WithDefaults E (ResourcesConfigs spec);
              (fetched, st') = sp_FetchHistory P sp resources [request_for spec i] st
          in case ReadRange E spec i (map_of fetched (in_Key i)) of
               Inl err \<Rightarrow> (Inl err, st')
             | Inr (containers, h) \<Rightarrow>
                 (Inr (if in_Policy i = [] then None
                       else Some \<lparr> ug_Policy = in_Policy i, ug_StepSeconds = stepSeconds sp,
                              ug_CPU = usageSignalSettingsOf (rs_CPU resources), ug_Memory = usageSignalSettingsOf (rs_Memory resources),
                              ug_ExcludeInitContainers = ExcludeInitContainers spec,
                              ug_Containers = map (\<lambda>(name, c). (name, map (\<lambda>(res, rr). (res, rr_Usage rr)) c)) containers \<rparr>,
                       OOMKills E h), st'))"

record 'q workload_metrics =
  wm_Resources :: "(string, 'q container_resources) gomap"
  wm_Running :: "(resource_kind, running_resource) gomap"
  wm_OOMKills :: "(time \<times> string) list"
  wm_InitContainers :: "string list"
  wm_Signal :: "usage_signal option"
  wm_SignalError :: "go_error option"
  wm_Average :: "(resource_kind, container_series) gomap"

definition metrics_identity ::
  "'q env \<Rightarrow> ('sel, 'm) gov_env \<Rightarrow> ('q, 'ls, 'sel, 'm) dash_server \<Rightarrow> ('q, 'st) sim_ports \<Rightarrow> workload_identity \<Rightarrow> time_range \<Rightarrow> duration \<Rightarrow> 'st \<Rightarrow>
   (('q, 'ls) identity option \<times> (go_error + usage_signal option \<times> (time \<times> string) list)) \<times> 'st" where
  "metrics_identity E G s P key r step st =
     (case simulated_identity G s key of
        Inl err \<Rightarrow> ((None, Inl (Wrap err)), st)
      | Inr i \<Rightarrow> (case readHistory E s P i r step st of (h, st') \<Rightarrow> ((Some i, h), st')))"

definition handleWorkloadMetrics ::
  "'q env \<Rightarrow> ('sel, 'm) gov_env \<Rightarrow> ('q, 'ls, 'sel, 'm) dash_server \<Rightarrow> ('q, 'st) sim_ports \<Rightarrow> time \<Rightarrow> url_values \<Rightarrow> workload_identity \<Rightarrow> 'st \<Rightarrow>
   'q workload_metrics http \<times> 'st" where
  "handleWorkloadMetrics E G s P now q key st =
     (case parseTimeRange (sp_ParseDuration P) q ''168h'' now of
        Inl field \<Rightarrow> (Refused 400 field, st)
      | Inr tr \<Rightarrow>
          (case parseStepParam (sp_ParseDuration P) q (5 * minute) of
             Inl field \<Rightarrow> (Refused 400 field, st)
           | Inr step \<Rightarrow>
               let average = map (\<lambda>res. (ch_name res, sp_QueryRange P (''avg'', ch_usage res) key tr step)) chartResources;
                   ((i, h), st') = metrics_identity E G s P key tr step st
               in (if \<exists>(_, _, err) \<in> set average. err \<noteq> None then Refused 500 []
                   else Reply \<lparr> wm_Resources = containerResourcesOf E i, wm_Running = running_series P key tr step,
                          wm_OOMKills = (case h of Inl _ \<Rightarrow> [] | Inr (_, kills) \<Rightarrow> kills),
                          wm_InitContainers = initContainerNamesOf i,
                          wm_Signal = (case h of Inl _ \<Rightarrow> None | Inr (signal, _) \<Rightarrow> signal),
                          wm_SignalError = (case h of Inl err \<Rightarrow> Some err | Inr _ \<Rightarrow> None),
                          wm_Average = map (\<lambda>(res, series, _). (res, series)) average \<rparr>, st')))"

end
