(* ===== verification/Detail.thy ===== *)
theory Detail
  imports Savings
begin

text \<open>
  The detail page of an identity (\<open>internal/dashboard/handlers_workload_detail.go\<close>), the activity feed
  (\<open>activity.go\<close>) and the trend (\<open>trend.go\<close>) of the Overview.

  A timestamp in the answer is the instant in seconds, which orders as its text does. Events of one instant are left
  in the order the API lists them.
\<close>

section \<open>Events\<close>

record event =
  ev_SeriesLast :: "time option"
  ev_LastTimestamp :: time
  ev_EventTime :: time
  ev_FirstTimestamp :: time
  ev_CreationTimestamp :: time
  ev_Namespace :: string
  ev_Kind :: string
  ev_Name :: string
  ev_Reason :: string
  ev_Message :: string

text \<open>A zero instant is an unset field.\<close>

definition eventTimestamp :: "event \<Rightarrow> time" where
  "eventTimestamp e =
     (case ev_SeriesLast e of
        Some t \<Rightarrow> if t \<noteq> 0 then t
                  else if ev_LastTimestamp e \<noteq> 0 then ev_LastTimestamp e
                  else if ev_EventTime e \<noteq> 0 then ev_EventTime e
                  else if ev_FirstTimestamp e \<noteq> 0 then ev_FirstTimestamp e
                  else ev_CreationTimestamp e
      | None \<Rightarrow> if ev_LastTimestamp e \<noteq> 0 then ev_LastTimestamp e
                else if ev_EventTime e \<noteq> 0 then ev_EventTime e
                else if ev_FirstTimestamp e \<noteq> 0 then ev_FirstTimestamp e
                else ev_CreationTimestamp e)"

record activity_item =
  ai_Timestamp :: int
  ai_Namespace :: string
  ai_Kind :: string
  ai_Name :: string
  ai_Reason :: string
  ai_Message :: string

definition activity_item_of :: "event \<Rightarrow> activity_item" where
  "activity_item_of e =
     \<lparr> ai_Timestamp = unix_seconds (eventTimestamp e), ai_Namespace = ev_Namespace e, ai_Kind = ev_Kind e, ai_Name = ev_Name e,
       ai_Reason = ev_Reason e, ai_Message = ev_Message e \<rparr>"

text \<open>What a list of events is narrowed to; \<open>None\<close> does not narrow. The API lists at most \<open>activityListLimit\<close>, and
  answers what it has read next to the error it hit.\<close>

record event_query =
  eq_Namespace :: "string option"
  eq_Kind :: "string option"
  eq_Name :: "string option"

type_synonym event_lister = "event_query \<Rightarrow> event list \<times> go_error option"

definition parseActivityLimit :: "string \<Rightarrow> string + int" where
  "parseActivityLimit s =
     (if s = [] then Inr 20
      else case Atoi s of
             None \<Rightarrow> Inl ''limit''
           | Some n \<Rightarrow> if n < 1 \<or> 100 < n then Inl ''limit'' else Inr n)"

definition newest_item :: "activity_item \<Rightarrow> activity_item \<Rightarrow> int" where
  "newest_item a b = Compare (ai_Timestamp b) (ai_Timestamp a)"

definition handleSummaryActivity :: "event_lister \<Rightarrow> string \<Rightarrow> url_values \<Rightarrow> activity_item list http" where
  "handleSummaryActivity events meth q =
     (if meth \<noteq> ''GET'' then Refused 405 []
      else case parseActivityLimit (q_Get q ''limit'') of
        Inl field \<Rightarrow> Refused 400 field
      | Inr limit \<Rightarrow>
          (case events \<lparr> eq_Namespace = None, eq_Kind = None, eq_Name = None \<rparr> of
             (_, Some err) \<Rightarrow> Refused 500 []
           | (listed, None) \<Rightarrow> Reply (take (nat limit) (SortStableFunc newest_item (map activity_item_of listed)))))"

section \<open>One identity\<close>

definition newest_event :: "event \<Rightarrow> event \<Rightarrow> int" where
  "newest_event a b = Compare (eventTimestamp b) (eventTimestamp a)"

definition event_names :: "('q, 'ls) identity \<Rightarrow> string list" where
  "event_names i =
     (let names = remdups (map (\<lambda>m. obj_Name (im_Object m)) (in_Members i)) in if names = [] then [OwnerName (in_Key i)] else names)"

definition recentSustainEvents :: "event_lister \<Rightarrow> ('q, 'ls) identity \<Rightarrow> nat \<Rightarrow> activity_item list" where
  "recentSustainEvents events i limit =
     (let names = event_names i;
          listed = fst (events \<lparr> eq_Namespace = Some (id_Namespace (in_Key i)), eq_Kind = Some (OwnerKind (in_Key i)),
                                 eq_Name = (case names of [name] \<Rightarrow> Some name | _ \<Rightarrow> None) \<rparr>)
      in map activity_item_of
           (take limit (filter (\<lambda>e. ev_Kind e = OwnerKind (in_Key i) \<and> ev_Name e \<in> set names) (SortStableFunc newest_event listed))))"

record 'q stored_recommendation =
  sd_Outcome :: recommendation_outcome
  sd_ObservedAt :: "time option"
  sd_Containers :: "'q recs"
  sd_Trace :: "(string, 'q container_trace) gomap"

definition storedRecommendationOf :: "'q workload_recommendation option \<Rightarrow> 'q stored_recommendation option" where
  "storedRecommendationOf wlr =
     map_option (\<lambda>w. \<lparr> sd_Outcome = Outcome (w_Status w),
        sd_ObservedAt = (if ObservedAt (w_Status w) = 0 then None else Some (ObservedAt (w_Status w))),
        sd_Containers = Containers (w_Status w), sd_Trace = Trace (w_Status w) \<rparr>) wlr"

record 'q workload_detail =
  wd_Automated :: bool
  wd_PolicyName :: string
  wd_ConflictingPolicies :: "string list"
  wd_Departed :: bool
  wd_UpdateMode :: "update_mode option"
  wd_RiskState :: risk_state
  wd_StalePods :: int
  wd_TotalPods :: int
  wd_OOM24h :: int
  wd_Blocked :: "blocked_signal option"
  wd_RecentEvents :: "activity_item list"
  wd_CoordinationFactors :: "coordination_factors option"
  wd_Recommendation :: "'q stored_recommendation option"

definition governingPolicy :: "('q, 'ls, 'sel, 'm) dash_server \<Rightarrow> ('q, 'ls) identity \<Rightarrow> ('q, 'sel) policy option" where
  "governingPolicy s i =
     (if in_Policy i = [] then None
      else case ds_GetPolicy s (in_Policy i) of Inl _ \<Rightarrow> None | Inr policy \<Rightarrow> Some policy)"

definition detail_of ::
  "('q, 'ls, 'sel, 'm) dash_server \<Rightarrow> event_lister \<Rightarrow> string \<Rightarrow> ('q, 'ls) identity_status \<Rightarrow> 'q workload_detail" where
  "detail_of s events kind st =
     (let i = st_id st; h = st_health st
      in \<lparr> wd_Automated = (in_Policy i \<noteq> []), wd_PolicyName = in_Policy i, wd_ConflictingPolicies = conflictingPolicies i,
           wd_Departed = identity_Departed i,
           wd_UpdateMode = Option.bind (governingPolicy s i) (\<lambda>p. ModeForKind (us_Types (rs_Update (p_RightSizing p))) kind),
           wd_RiskState = st_risk st, wd_StalePods = StalePods h, wd_TotalPods = TotalPods h, wd_OOM24h = OOM24h h,
           wd_Blocked = ih_Blocked h, wd_RecentEvents = recentSustainEvents events i 10, wd_CoordinationFactors = st_coordination st,
           wd_Recommendation = storedRecommendationOf (in_Recommendation i) \<rparr>)"

definition handleWorkloadDetail ::
  "'q env \<Rightarrow> ('sel, 'm) gov_env \<Rightarrow> ('q, 'ls, 'sel, 'm) dash_server \<Rightarrow> event_lister \<Rightarrow> string \<Rightarrow> workload_identity \<Rightarrow> 'q workload_detail http" where
  "handleWorkloadDetail E G s events meth key =
     (if meth \<noteq> ''GET'' then Refused 405 []
      else case dash_identity G s key of
        Inl err \<Rightarrow> Refused (k8s_get_status s err) []
      | Inr None \<Rightarrow> Refused 404 []
      | Inr (Some i) \<Rightarrow> Reply (detail_of s events (OwnerKind key) (hd (fst (board E (ds_Health s) [i])))))"

section \<open>The trend\<close>

record trend_series =
  te_Usage :: series
  te_Request :: series
  te_OriginalRequest :: series

text \<open>An expression sums a rule over the containers of a second one, the whole rule when there is none. A query answers
  its points and the error it hit.\<close>

type_synonym trend_querier = "string \<times> string option \<Rightarrow> time_range \<Rightarrow> duration \<Rightarrow> series \<times> go_error option"

definition trend_of :: "(string \<times> string option \<Rightarrow> series \<times> go_error option) \<Rightarrow> string \<Rightarrow> string \<Rightarrow> string \<Rightarrow> trend_series \<times> nat" where
  "trend_of query usage request template =
     (let u = query (usage, Some template); r = query (request, Some template); o' = query (template, None)
      in (\<lparr> te_Usage = fst u, te_Request = fst r, te_OriginalRequest = fst o' \<rparr>, length (filter (\<lambda>x. snd x \<noteq> None) [u, r, o'])))"

definition handleSummaryTrend ::
  "(string \<Rightarrow> duration option) \<Rightarrow> trend_querier \<Rightarrow> time \<Rightarrow> string \<Rightarrow> url_values \<Rightarrow> (trend_series \<times> trend_series) http" where
  "handleSummaryTrend parse query now meth q =
     (if meth \<noteq> ''GET'' then Refused 405 []
      else case parseTimeRange parse q ''30d'' now of
        Inl field \<Rightarrow> Refused 400 field
      | Inr tr \<Rightarrow>
          (case parseStepParam parse q hour of
             Inl field \<Rightarrow> Refused 400 field
           | Inr step \<Rightarrow>
               let ask = (\<lambda>e. query e tr step);
                   (cpu, ce) = trend_of ask ''k8s_sustain:workload_cpu_usage:cores''
                     ''k8s_sustain:container_cpu_requests_by_workload:cores'' ''k8s_sustain_workload_template_cpu_cores'';
                   (mem, me) = trend_of ask ''k8s_sustain:workload_memory_usage:bytes''
                     ''k8s_sustain:container_memory_requests_by_workload:bytes'' ''k8s_sustain_workload_template_memory_bytes''
               in if ce + me = 6 then Refused 503 [] else Reply (cpu, mem)))"

section \<open>Events come from the identity\<close>

text \<open>The events shown are about the identity's own objects, at most ten, however many are listed.\<close>

lemma recent_events_own:
  "length (recentSustainEvents events i limit) \<le> limit \<and>
   (\<forall>a \<in> set (recentSustainEvents events i limit). ai_Kind a = OwnerKind (in_Key i) \<and> ai_Name a \<in> set (event_names i))"
  by (auto simp: recentSustainEvents_def Let_def activity_item_of_def dest!: in_set_takeD)

end
