(* ===== verification/BoardCorrect.thy ===== *)
theory BoardCorrect
  imports Board PatcherCorrect InventoryCorrect
begin

text \<open>
  What the dashboard's views promise: the Overview counts what the list shows, a list is exactly the rows its filters
  accept in one order, and an identity's health is what was read for it.
\<close>

section \<open>Orders\<close>

text \<open>A comparison that agrees with a key orders by it.\<close>

lemma insert_left_sorted:
  assumes "\<And>a b c. cmp a b < 0 \<Longrightarrow> \<not> cmp c b < 0 \<Longrightarrow> cmp a c < 0" "\<And>a b. cmp a b < 0 \<Longrightarrow> \<not> cmp b a < 0"
    "sorted_wrt (\<lambda>a b. \<not> cmp a b < 0) xs"
  shows "sorted_wrt (\<lambda>a b. \<not> cmp a b < 0) (insert_left cmp x xs)"
  using assms(3)
proof (induction xs)
  case (Cons y ys)
  have set_ins: "set (insert_left cmp x ys) = insert x (set ys)" using insert_left_mset [of cmp x ys] by (metis set_mset_mset set_mset_add_mset_insert)
  show ?case
  proof (cases "cmp x y < 0")
    case True
    then have "\<not> cmp y x < 0" using assms(2) by blast
    with True Cons set_ins show ?thesis by auto
  next
    case False
    then have "\<not> cmp x z < 0" if "z \<in> set ys" for z using assms(1) [of x z y] Cons.prems that by auto
    with False Cons.prems show ?thesis by auto
  qed
qed simp

lemma SortStableFunc_sorted:
  assumes "\<And>a b c. cmp a b < 0 \<Longrightarrow> \<not> cmp c b < 0 \<Longrightarrow> cmp a c < 0" "\<And>a b. cmp a b < 0 \<Longrightarrow> \<not> cmp b a < 0"
  shows "sorted_wrt (\<lambda>a b. \<not> cmp b a < 0) (SortStableFunc cmp xs)"
proof -
  have "sorted_wrt (\<lambda>a b. \<not> cmp a b < 0) (fold (insert_left cmp) xs ys)" if "sorted_wrt (\<lambda>a b. \<not> cmp a b < 0) ys" for ys
    using that
  proof (induction xs arbitrary: ys)
    case (Cons x xs)
    then show ?case using insert_left_sorted [OF assms(1,2) Cons.prems] by simp
  qed simp
  from this [of "[]"] show ?thesis by (simp add: SortStableFunc_def sorted_wrt_rev)
qed

lemma Compare_neg: "Compare a b < 0 \<longleftrightarrow> a < b" "Compare a b = 0 \<longleftrightarrow> a = b" "0 < Compare a b \<longleftrightarrow> b < a"
  by (auto simp: Compare_def)

text \<open>The key of a row under an order: its first column, then name, namespace and kind.\<close>

lemma row_key_order:
  assumes "\<And>a b. primary a b = Compare (k a) (k b)"
  shows "workload_cmp primary False a b < 0 \<longleftrightarrow>
      (k a < k b \<or> k a = k b \<and> [rw_Name a, rw_Namespace a, rw_Kind a] < [rw_Name b, rw_Namespace b, rw_Kind b])"
    "workload_cmp primary True a b < 0 \<longleftrightarrow>
      (k b < k a \<or> k a = k b \<and> [rw_Name b, rw_Namespace b, rw_Kind b] < [rw_Name a, rw_Namespace a, rw_Kind a])"
  by (auto simp: workload_cmp_def assms Compare_neg Let_def)

lemma all_row_fields [simp]:
  "rw_RiskState (all_row E st) = st_risk st" "aw_PolicyName (all_row E st) = in_Policy (st_id st)"
  "aw_Automated (all_row E st) = (in_Policy (st_id st) \<noteq> [])"
  by (simp_all add: all_row_def rowFor_def Let_def workload_row.defs all_workload_summary.defs)

lemma lex_order:
  fixes x y z :: "'a :: linorder" and l m n :: "'b :: linorder"
  shows "x < y \<or> x = y \<and> l < m \<Longrightarrow> \<not> (z < y \<or> z = y \<and> n < m) \<Longrightarrow> x < z \<or> x = z \<and> l < n"
    "y < x \<or> x = y \<and> m < l \<Longrightarrow> \<not> (y < z \<or> z = y \<and> m < n) \<Longrightarrow> z < x \<or> x = z \<and> n < l"
    "x < y \<or> x = y \<and> l < m \<Longrightarrow> \<not> (y < x \<or> y = x \<and> m < l)"
    "y < x \<or> x = y \<and> m < l \<Longrightarrow> \<not> (x < y \<or> y = x \<and> l < m)"
  by (metis less_le_trans not_less_iff_gr_or_eq not_less) (metis le_less_trans not_less_iff_gr_or_eq not_less, auto)

lemma workload_cmp_order:
  assumes "\<And>a b. primary a b = Compare (k a) (k b)"
  shows "workload_cmp primary desc a b < 0 \<Longrightarrow> \<not> workload_cmp primary desc c b < 0 \<Longrightarrow> workload_cmp primary desc a c < 0"
    "workload_cmp primary desc a b < 0 \<Longrightarrow> \<not> workload_cmp primary desc b a < 0"
proof -
  note up = row_key_order(1) [of primary k, OF assms] and down = row_key_order(2) [of primary k, OF assms]
  show "workload_cmp primary desc a c < 0" if "workload_cmp primary desc a b < 0" "\<not> workload_cmp primary desc c b < 0"
  proof (cases desc)
    case False
    then have d: "desc = False" by simp
    show ?thesis unfolding d up by (rule lex_order(1) [OF that [unfolded d up]])
  next
    case True
    then have d: "desc = True" by simp
    show ?thesis unfolding d down by (rule lex_order(2) [OF that [unfolded d down]])
  qed
  show "\<not> workload_cmp primary desc b a < 0" if "workload_cmp primary desc a b < 0"
  proof (cases desc)
    case False
    then have d: "desc = False" by simp
    show ?thesis unfolding d up by (rule lex_order(3) [OF that [unfolded d up]])
  next
    case True
    then have d: "desc = True" by simp
    show ?thesis unfolding d down by (rule lex_order(4) [OF that [unfolded d down]])
  qed
qed

text \<open>Whatever column it is by, the list is a permutation of its rows in that order.\<close>

lemma sortWorkloads_sorted:
  fixes rows :: "'q all_workload_summary list"
  shows "sorted_wrt (\<lambda>a b. \<not> workload_cmp (allWorkloadOrder key) desc b a < 0) (sortWorkloads (allWorkloadOrder key) desc rows) \<and>
    mset (sortWorkloads (allWorkloadOrder key) desc rows) = mset rows"
proof -
  let ?o = "allWorkloadOrder key :: 'q all_workload_summary \<Rightarrow> _"
  have sorted: "sorted_wrt (\<lambda>a b. \<not> workload_cmp ?o desc b a < 0) (SortStableFunc (workload_cmp ?o desc) rows)"
    if "\<And>a b. ?o a b = Compare (k a) (k b)" for k :: "'q all_workload_summary \<Rightarrow> 'k :: linorder"
    using workload_cmp_order [of ?o k, OF that] by (intro SortStableFunc_sorted) blast+
  consider "key = ''stalePods''" | "key = ''policyName''" | "key = ''namespace''" | "key = ''kind''"
    | "key \<notin> {''stalePods'', ''policyName'', ''namespace'', ''kind''}" by blast
  then have "sorted_wrt (\<lambda>a b. \<not> workload_cmp ?o desc b a < 0) (SortStableFunc (workload_cmp ?o desc) rows)"
  proof cases
    case 1
    then show ?thesis by (intro sorted [of rw_StalePods]) (simp add: allWorkloadOrder_def rowOrder_def)
  next
    case 2
    then show ?thesis by (intro sorted [of aw_PolicyName]) (simp add: allWorkloadOrder_def)
  next
    case 3
    then show ?thesis by (intro sorted [of rw_Namespace]) (simp add: allWorkloadOrder_def rowOrder_def)
  next
    case 4
    then show ?thesis by (intro sorted [of rw_Kind]) (simp add: allWorkloadOrder_def rowOrder_def)
  next
    case 5
    then show ?thesis by (intro sorted [of rw_Name]) (simp add: allWorkloadOrder_def rowOrder_def)
  qed
  then show ?thesis unfolding sortWorkloads_def using SortStableFunc_mset by blast
qed

section \<open>Lists\<close>

text \<open>What the filters together accept.\<close>

definition accepts :: "all_workload_filters \<Rightarrow> 'q all_workload_summary \<Rightarrow> bool" where
  "accepts f w \<longleftrightarrow>
     (af_namespace f \<noteq> [] \<longrightarrow> rw_Namespace w = af_namespace f) \<and> (af_kind f \<noteq> [] \<longrightarrow> rw_Kind w = af_kind f) \<and>
     (af_automated f \<noteq> None \<longrightarrow> aw_Automated w = the (af_automated f)) \<and>
     (af_departed f \<noteq> None \<longrightarrow> rw_Departed w = the (af_departed f)) \<and>
     (af_search f \<noteq> [] \<longrightarrow> nameMatches w (af_search f)) \<and> (af_risk f \<noteq> [] \<longrightarrow> risk_string (rw_RiskState w) = af_risk f) \<and>
     (af_autoscaler f \<noteq> [] \<longrightarrow> rw_AutoscalerPresent w = (af_autoscaler f = ''has-autoscaler''))"

lemma keep_if_filter: "keep_if b P rows = filter (\<lambda>w. b \<longrightarrow> P w) rows"
  by (simp add: keep_if_def)

lemma applyFilters_accepts: "applyAllWorkloadFilters rows f = filter (accepts f) rows"
  unfolding applyAllWorkloadFilters_def keep_if_filter filter_filter
  by (rule filter_cong [OF refl]) (simp only: accepts_def conj_ac)

lemma counts_split:
  "let c = countAllWorkloads rows in wc_Total c = int (length rows) \<and>
     wc_Automated c + wc_Manual c + wc_Conflicted c = wc_Total c"
proof -
  let ?f = "\<lambda>w c. if aw_Automated w then c\<lparr>wc_Automated := wc_Automated c + 1\<rparr>
    else if rw_RiskState w = RiskConflicted then c\<lparr>wc_Conflicted := wc_Conflicted c + 1\<rparr>
    else c\<lparr>wc_Manual := wc_Manual c + 1\<rparr>"
  have "wc_Total (fold ?f rows c) = wc_Total c \<and> wc_Automated (fold ?f rows c) + wc_Manual (fold ?f rows c) +
      wc_Conflicted (fold ?f rows c) = wc_Automated c + wc_Manual c + wc_Conflicted c + int (length rows)" for c
    by (induction rows arbitrary: c) auto
  from this [of "\<lparr> wc_Total = int (length rows), wc_Automated = 0, wc_Manual = 0, wc_Conflicted = 0 \<rparr>"]
  show ?thesis by (simp add: countAllWorkloads_def Let_def)
qed

lemma all_workloads_reply:
  assumes "handleAllWorkloads E G s meth q = Reply r"
  obtains f ids where "parseAllWorkloadFilters q = Inr f" "clusterIdentities G s = Inr ids"
    "pa_Page r = af_page f" "pa_Total r = int (length (list_all_rows f (map (all_row E) (fst (board E (ds_Health s) ids)))))"
    "pa_Counts r = countAllWorkloads (list_all_rows f (map (all_row E) (fst (board E (ds_Health s) ids))))"
    "(case paginateRange (pa_Total r) (fst (af_page f)) (snd (af_page f)) of
       (a, b) \<Rightarrow> go_slice (list_all_rows f (map (all_row E) (fst (board E (ds_Health s) ids)))) a b) = Some (pa_Items r)"
  using assms that by (auto simp: handleAllWorkloads_def Let_def split: if_splits sum.splits option.splits prod.splits)

text \<open>A list shows exactly the identities its filters accept, in one order, a page at a time: the total and the
  counts are of all of them, whatever the page, every row counted once as automated, manual or conflicted, and the
  items are that page of the sorted list.\<close>

theorem list_shows_what_filters_accept:
  assumes "handleAllWorkloads E G s meth q = Reply r"
  shows "\<exists>f ids listed. parseAllWorkloadFilters q = Inr f \<and> clusterIdentities G s = Inr ids \<and>
    mset listed = filter_mset (accepts f) (mset (map (all_row E) (fst (board E (ds_Health s) ids)))) \<and>
    sorted_wrt (\<lambda>a b. \<not> workload_cmp (allWorkloadOrder (fst (af_sort f))) (snd (af_sort f)) b a < 0) listed \<and>
    pa_Total r = int (length listed) \<and>
    wc_Automated (pa_Counts r) + wc_Manual (pa_Counts r) + wc_Conflicted (pa_Counts r) = pa_Total r \<and>
    (case paginateRange (pa_Total r) (fst (af_page f)) (snd (af_page f)) of (a, b) \<Rightarrow> go_slice listed a b) = Some (pa_Items r)"
proof -
  obtain f ids where f: "parseAllWorkloadFilters q = Inr f" "clusterIdentities G s = Inr ids"
    and r: "pa_Total r = int (length (list_all_rows f (map (all_row E) (fst (board E (ds_Health s) ids)))))"
      "pa_Counts r = countAllWorkloads (list_all_rows f (map (all_row E) (fst (board E (ds_Health s) ids))))"
      "(case paginateRange (pa_Total r) (fst (af_page f)) (snd (af_page f)) of
         (a, b) \<Rightarrow> go_slice (list_all_rows f (map (all_row E) (fst (board E (ds_Health s) ids)))) a b) = Some (pa_Items r)"
    by (rule all_workloads_reply [OF assms])
  let ?listed = "list_all_rows f (map (all_row E) (fst (board E (ds_Health s) ids)))"
  have "mset ?listed = filter_mset (accepts f) (mset (map (all_row E) (fst (board E (ds_Health s) ids))))"
    by (simp add: list_all_rows_def sortWorkloads_sorted applyFilters_accepts)
  moreover have "sorted_wrt (\<lambda>a b. \<not> workload_cmp (allWorkloadOrder (fst (af_sort f))) (snd (af_sort f)) b a < 0) ?listed"
    unfolding list_all_rows_def using sortWorkloads_sorted by blast
  moreover have "wc_Automated (pa_Counts r) + wc_Manual (pa_Counts r) + wc_Conflicted (pa_Counts r) = pa_Total r"
    using counts_split [of ?listed] r(1,2) by (simp add: Let_def)
  ultimately show ?thesis using f r(1,3) by blast
qed

section \<open>The Overview\<close>

lemma length_SortStableFunc [simp]: "length (SortStableFunc c xs) = length xs"
  using SortStableFunc_mset [of c xs] mset_eq_length by blast

lemma attention_lookup:
  assumes "state \<noteq> RiskSafe"
  shows "\<exists>g. map_of (su_Attention (fillRisk statuses resp)) state = Some g \<and>
    ag_Total g = int (length (filter (\<lambda>st. st_risk st = state) statuses))"
  using assms by (cases state) (simp_all add: fillRisk_def attentionSignals_def attention_of_def Let_def)

lemma risk_filter:
  assumes "parseAllWorkloadFilters [(''risk'', risk_string state)] = Inr f"
  shows "accepts f w \<longleftrightarrow> rw_RiskState w = state"
proof -
  have "risk_string a = risk_string b \<longleftrightarrow> a = b" for a b by (cases a; cases b) simp_all
  moreover have "risk_string state \<noteq> []" by (cases state) simp_all
  moreover have "f = \<lparr> af_namespace = [], af_kind = [], af_search = [], af_automated = None, af_departed = None,
      af_risk = risk_string state, af_autoscaler = [], af_sort = (''name'', False), af_page = (1, 50) \<rparr>"
    using assms by (cases state) (simp_all add: parseAllWorkloadFilters_def parseEnumParam_def parseBoolParam_def
      parseSortParam_def parsePageParams_def q_Get_def lookup_or_def Let_def ToLower_def riskStates_def)
  ultimately show ?thesis by (simp add: accepts_def)
qed

lemma summary_fills_risk: "\<exists>resp. fst (computeSummary E G s) = fillRisk (fst (statuses_read E G s)) resp"
  unfolding computeSummary_def Let_def split_beta fst_conv by blast

text \<open>C35. The Overview and the list agree: for every Risk state but Safe, the total the Overview shows is the total of
  the Workloads list filtered by that state, from the same reads.\<close>

theorem overview_counts_match_list:
  assumes "handleAllWorkloads E G s ''GET'' [(''risk'', risk_string state)] = Reply r" "state \<noteq> RiskSafe"
  shows "\<exists>g. map_of (su_Attention (fst (computeSummary E G s))) state = Some g \<and> ag_Total g = pa_Total r"
proof -
  obtain f ids where f: "parseAllWorkloadFilters [(''risk'', risk_string state)] = Inr f" and ids: "clusterIdentities G s = Inr ids"
    and tot: "pa_Total r = int (length (list_all_rows f (map (all_row E) (fst (board E (ds_Health s) ids)))))"
    by (rule all_workloads_reply [OF assms(1)])
  let ?st = "fst (board E (ds_Health s) ids)"
  have "length (list_all_rows f (map (all_row E) ?st)) = length (filter (accepts f) (map (all_row E) ?st))"
    using sortWorkloads_sorted [THEN conjunct2] mset_eq_length unfolding list_all_rows_def applyFilters_accepts by blast
  also have "\<dots> = length (filter (\<lambda>st. st_risk st = state) ?st)"
    by (simp add: filter_map comp_def risk_filter [OF f])
  finally have total: "pa_Total r = int (length (filter (\<lambda>st. st_risk st = state) ?st))" using tot by simp
  obtain resp where "fst (computeSummary E G s) = fillRisk ?st resp"
    using summary_fills_risk [of E G s] unfolding statuses_read_def ids by auto
  then show ?thesis using attention_lookup [OF assms(2), of ?st resp] total by simp
qed

section \<open>Health\<close>

lemma split_at_nonempty [simp]: "split_at c s \<noteq> []"
  by (induction s) (auto split: list.split)

lemma split_longer: "c \<in> set s \<Longrightarrow> 1 < length (split_at c s)"
  by (induction s) (auto split: list.split)

lemma join_split: "join_with c (split_at c s) = s"
proof (induction s)
  case (Cons x xs)
  obtain h t where "split_at c xs = h # t" by (cases "split_at c xs") auto
  then show ?case using Cons by (cases t) auto
qed simp

definition plain_identity :: "workload_identity \<Rightarrow> bool" where
  "plain_identity i \<longleftrightarrow> CHR ''|'' \<notin> set (id_Namespace i @ OwnerKind i @ OwnerName i)"

abbreviation key_of :: "workload_identity \<Rightarrow> string" where
  "key_of i \<equiv> workloadKey (id_Namespace i) (OwnerKind i) (OwnerName i)"

lemma split_key: "plain_identity i \<Longrightarrow> split_at (CHR ''|'') (key_of i) = [id_Namespace i, OwnerKind i, OwnerName i]"
  by (simp add: plain_identity_def workloadKey_def split_at_append split_at_last)

lemma key_split:
  assumes "split_at (CHR ''|'') k = [a, b, n]"
  shows "k = workloadKey a b n"
  using join_split [of "CHR ''|''" k] unfolding assms by (simp add: workloadKey_def)

text \<open>A query without a further label touches an identity exactly through the entry under its key.\<close>

lemma each_own:
  assumes "wf_map m" "plain_identity i"
  shows "lookup_or no_health (health_each m 0 f b) i =
    (case map_of m (key_of i) of None \<Rightarrow> lookup_or no_health b i | Some v \<Rightarrow> f [] v (lookup_or no_health b i))"
  using assms(1)
proof (induction m arbitrary: b)
  case Nil
  then show ?case by (simp add: health_each_def)
next
  case (Cons x m)
  obtain k v where x: "x = (k, v)" by fastforce
  let ?parts = "split_at (CHR ''|'') k"
  let ?j = "\<lparr> id_Namespace = ?parts ! 0, OwnerKind = ?parts ! 1, OwnerName = ?parts ! 2 \<rparr>"
  let ?b = "if length ?parts \<noteq> 3 then b else AList.update ?j (f (drop 3 ?parts) v (lookup_or no_health b ?j)) b"
  have step: "health_each (x # m) 0 f b = health_each m 0 f ?b" by (simp add: health_each_def x Let_def)
  have wf: "wf_map m" "map_of m k = None" using Cons.prems x by (auto simp: wf_map_def map_of_eq_None_iff)
  show ?case
  proof (cases "k = key_of i")
    case True
    then show ?thesis unfolding step using Cons.IH [OF wf(1)] wf(2) x split_key [OF assms(2)]
      by (cases i) (simp add: lookup_or_def)
  next
    case False
    have "?j \<noteq> i" if len: "length ?parts = 3"
    proof
      assume j: "?j = i"
      have "?parts = [?parts ! 0, ?parts ! 1, ?parts ! 2]" using len by (auto simp: numeral_3_eq_3 length_Suc_conv)
      from key_split [OF this] j False show False by auto
    qed
    then have same: "lookup_or no_health ?b i = lookup_or no_health b i" by (auto simp: lookup_or_def)
    have "map_of (x # m) (key_of i) = map_of m (key_of i)" using False x by auto
    then show ?thesis unfolding step Cons.IH [OF wf(1)] same by simp
  qed
qed

text \<open>A query with one more label, whatever its entries, leaves what its fold does not write.\<close>

lemma each_keeps:
  assumes "\<And>r v h. g (f r v h) = g h"
  shows "g (lookup_or no_health (health_each m e f b) i) = g (lookup_or no_health b i)"
proof (induction m arbitrary: b)
  case (Cons x m)
  then show ?case by (cases x) (simp add: health_each_def Let_def lookup_or_def assms)
qed (simp add: health_each_def)

lemma split_blocked_key:
  assumes "plain_identity i"
  shows "split_at (CHR ''|'') k = [id_Namespace i, OwnerKind i, OwnerName i, r] \<longleftrightarrow>
    CHR ''|'' \<notin> set r \<and> k = key_of i @ ''|'' @ r"
proof
  have cut: "split_at (CHR ''|'') (key_of i @ ''|'' @ r) = id_Namespace i # OwnerKind i # OwnerName i # split_at (CHR ''|'') r"
    using assms by (simp add: plain_identity_def workloadKey_def split_at_append)
  {
    assume l: "split_at (CHR ''|'') k = [id_Namespace i, OwnerKind i, OwnerName i, r]"
    have k: "k = key_of i @ ''|'' @ r" using join_split [of "CHR ''|''" k] unfolding l by (simp add: workloadKey_def)
    have "split_at (CHR ''|'') r = [r]" using l unfolding k cut by simp
    then show "CHR ''|'' \<notin> set r \<and> k = key_of i @ ''|'' @ r" using k split_longer [of "CHR ''|''" r] by auto
  next
    assume "CHR ''|'' \<notin> set r \<and> k = key_of i @ ''|'' @ r"
    then show "split_at (CHR ''|'') k = [id_Namespace i, OwnerKind i, OwnerName i, r]" using cut split_at_last by simp
  }
qed

lemma four_parts:
  "length p = 4 \<and> \<lparr> id_Namespace = p ! 0, OwnerKind = p ! 1, OwnerName = p ! 2 \<rparr> = i \<longleftrightarrow>
   (\<exists>r. p = [id_Namespace i, OwnerKind i, OwnerName i, r])"
proof
  assume l: "length p = 4 \<and> \<lparr> id_Namespace = p ! 0, OwnerKind = p ! 1, OwnerName = p ! 2 \<rparr> = i"
  then obtain a b c d where "p = [a, b, c, d]" by (auto simp: numeral_eq_Suc length_Suc_conv)
  with l show "\<exists>r. p = [id_Namespace i, OwnerKind i, OwnerName i, r]" by auto
qed auto

lemma each_sets_blocked:
  assumes "plain_identity i" "\<And>r v h. ih_Blocked (f r v h) \<noteq> None"
  shows "ih_Blocked (lookup_or no_health (health_each m 1 f b) i) \<noteq> None \<longleftrightarrow>
    ih_Blocked (lookup_or no_health b i) \<noteq> None \<or>
    (\<exists>reason. CHR ''|'' \<notin> set reason \<and> key_of i @ ''|'' @ reason \<in> set (gkeys m))"
proof (induction m arbitrary: b)
  case (Cons x m)
  obtain k v where x: "x = (k, v)" by fastforce
  let ?parts = "split_at (CHR ''|'') k"
  let ?j = "\<lparr> id_Namespace = ?parts ! 0, OwnerKind = ?parts ! 1, OwnerName = ?parts ! 2 \<rparr>"
  let ?b = "if length ?parts \<noteq> 4 then b else AList.update ?j (f (drop 3 ?parts) v (lookup_or no_health b ?j)) b"
  have step: "health_each (x # m) 1 f b = health_each m 1 f ?b" by (simp add: health_each_def x Let_def)
  have own: "length ?parts = 4 \<and> ?j = i \<longleftrightarrow> (\<exists>reason. CHR ''|'' \<notin> set reason \<and> k = key_of i @ ''|'' @ reason)"
    unfolding four_parts split_blocked_key [OF assms(1)] ..
  have "ih_Blocked (lookup_or no_health ?b i) \<noteq> None \<longleftrightarrow>
      ih_Blocked (lookup_or no_health b i) \<noteq> None \<or> length ?parts = 4 \<and> ?j = i"
    using assms(2) by (cases "length ?parts = 4 \<and> ?j = i") (auto simp: lookup_or_def)
  then show ?case unfolding step Cons.IH [of ?b] own by (auto simp: x)
qed (simp add: health_each_def)

lemma lookup_asked:
  "map_of (fold (\<lambda>i out. case map_of all i of Some h \<Rightarrow> AList.update i h out | None \<Rightarrow> out) ids out) i =
     (if i \<in> set ids \<and> map_of all i \<noteq> None then map_of all i else map_of out i)"
  by (induction ids arbitrary: out) (auto split: option.split)

text \<open>The reads behind the views of some identities, restricted to one when it is alone.\<close>

definition answers_for :: "health_querier \<Rightarrow> workload_identity list \<Rightarrow> health_query \<Rightarrow> (string, float64) gomap" where
  "answers_for query ids k = fst (query (case ids of [i] \<Rightarrow> Some i | _ \<Rightarrow> None) k)"

lemma lookup_forIdentities:
  assumes "i \<in> set ids"
  shows "lookup_or no_health (fst (forIdentities E query ids)) i = lookup_or no_health (health_fold E (answers_for query ids)) i"
proof -
  have "ids \<noteq> []" using assms by auto
  moreover have "answers_for query ids = (\<lambda>k. fst (query (case ids of [i] \<Rightarrow> Some i | _ \<Rightarrow> None) k))"
    by (simp add: answers_for_def fun_eq_iff)
  ultimately have "map_of (fst (forIdentities E query ids)) i = map_of (health_fold E (answers_for query ids)) i"
    using assms by (simp add: forIdentities_def health_read_def lookup_asked)
  then show ?thesis by (simp add: lookup_or_def)
qed

lemma to_i64_zero [simp]: "to_i64 other (Fin 0) = 0"
  by (simp add: rtrunc_def in_int64_def)

lemma no_health_fields [simp]:
  "OOM24h no_health = 0" "StalePods no_health = 0" "TotalPods no_health = 0" "ih_Blocked no_health = None"
  "\<not> AutoscalerPresent no_health"
  by (simp_all add: no_health_def)

text \<open>A view shows each identity its own health and nobody else's: for names without the separator, the OOM kills,
  stale and total pods and the autoscaler are those read under the identity's labels, zero when none were, and it is
  Blocked exactly when a retry state was read for it, with its own attempts.\<close>

theorem health_is_own:
  fixes E :: "'q env"
  assumes "i \<in> set ids" "plain_identity i" "\<And>k. wf_map (answers_for query ids k)"
  defines "m \<equiv> answers_for query ids" and "h \<equiv> lookup_or no_health (fst (forIdentities E query ids)) i"
    and "num \<equiv> (\<lambda>v. to_i64 (f2i64 E) v)"
  shows "OOM24h h = num (lookup_or (Fin 0) (m QOom) (key_of i)) \<and>
    StalePods h = num (lookup_or (Fin 0) (m QStale) (key_of i)) \<and>
    TotalPods h = num (lookup_or (Fin 0) (m QTotal) (key_of i)) \<and>
    AutoscalerPresent h = flt (Fin 0) (lookup_or (Fin 0) (m QAutoscaler) (key_of i)) \<and>
    (ih_Blocked h \<noteq> None \<longleftrightarrow>
       (\<exists>reason. CHR ''|'' \<notin> set reason \<and> key_of i @ ''|'' @ reason \<in> set (gkeys (m QBlocked)))) \<and>
    (\<forall>b. ih_Blocked h = Some b \<longrightarrow> bs_Attempts b = num (lookup_or (Fin 0) (m QAttempts) (key_of i)))"
proof -
  let ?set = "\<lambda>(rest :: string list) (v :: float64) h. h\<lparr>ih_Blocked := Some \<lparr> bs_Reason = rest ! 0, bs_Attempts = 0 \<rparr>\<rparr>"
  define b1 where "b1 = health_each (m QOom) 0 (\<lambda>_ v h. h\<lparr>OOM24h := num v\<rparr>) []"
  define b2 where "b2 = health_each (m QStale) 0 (\<lambda>_ v h. h\<lparr>StalePods := num v\<rparr>) b1"
  define b3 where "b3 = health_each (m QTotal) 0 (\<lambda>_ v h. h\<lparr>TotalPods := num v\<rparr>) b2"
  define b4 where "b4 = health_each (m QBlocked) 1 ?set b3"
  define b5 where "b5 = health_each (m QAutoscaler) 0 (\<lambda>_ v h. h\<lparr>AutoscalerPresent := flt (Fin 0) v\<rparr>) b4"
  let ?att = "\<lambda>b. b\<lparr>bs_Attempts := num (lookup_or (Fin 0) (m QAttempts) (key_of i))\<rparr>"
  let ?l = "\<lambda>b. lookup_or no_health b i"
  have h: "h = (?l b5)\<lparr>ih_Blocked := map_option ?att (ih_Blocked (?l b5))\<rparr>"
    unfolding h_def lookup_forIdentities [OF assms(1)] health_fold_def Let_def num_def [symmetric] m_def [symmetric]
      b1_def [symmetric] b2_def [symmetric] b3_def [symmetric] b4_def [symmetric] b5_def [symmetric]
    by (auto simp: lookup_or_def map_of_map_value no_health_def split: option.split)
  note own = each_own [OF assms(3) [of _, folded m_def] assms(2)]
  have l1: "OOM24h (?l b1) = num (lookup_or (Fin 0) (m QOom) (key_of i)) \<and> StalePods (?l b1) = 0 \<and> TotalPods (?l b1) = 0 \<and>
      ih_Blocked (?l b1) = None \<and> \<not> AutoscalerPresent (?l b1)"
    unfolding b1_def own by (auto simp: lookup_or_def num_def simp del: to_i64.simps split: option.split)
  have l3: "OOM24h (?l b3) = OOM24h (?l b1) \<and> StalePods (?l b3) = num (lookup_or (Fin 0) (m QStale) (key_of i)) \<and>
      TotalPods (?l b3) = num (lookup_or (Fin 0) (m QTotal) (key_of i)) \<and> ih_Blocked (?l b3) = None \<and> \<not> AutoscalerPresent (?l b3)"
    unfolding b3_def b2_def own using l1 by (auto simp: lookup_or_def num_def simp del: to_i64.simps split: option.split)
  have l4: "OOM24h (?l b4) = OOM24h (?l b3)" "StalePods (?l b4) = StalePods (?l b3)" "TotalPods (?l b4) = TotalPods (?l b3)"
    "AutoscalerPresent (?l b4) = AutoscalerPresent (?l b3)"
    unfolding b4_def by (rule each_keeps, simp)+
  have blocked: "ih_Blocked (?l b4) \<noteq> None \<longleftrightarrow>
      (\<exists>reason. CHR ''|'' \<notin> set reason \<and> key_of i @ ''|'' @ reason \<in> set (gkeys (m QBlocked)))"
    unfolding b4_def by (subst each_sets_blocked [OF assms(2)]) (use l3 in simp_all)
  have l5: "OOM24h (?l b5) = OOM24h (?l b4) \<and> StalePods (?l b5) = StalePods (?l b4) \<and> TotalPods (?l b5) = TotalPods (?l b4) \<and>
      ih_Blocked (?l b5) = ih_Blocked (?l b4) \<and>
      AutoscalerPresent (?l b5) = flt (Fin 0) (lookup_or (Fin 0) (m QAutoscaler) (key_of i))"
    unfolding b5_def own using l3 l4(4) by (auto simp: lookup_or_def split: option.split)
  have att: "\<forall>b. ih_Blocked h = Some b \<longrightarrow> bs_Attempts b = num (lookup_or (Fin 0) (m QAttempts) (key_of i))"
    unfolding h by auto
  have "ih_Blocked h \<noteq> None \<longleftrightarrow> ih_Blocked (?l b4) \<noteq> None" unfolding h using l5 by simp
  moreover have "OOM24h h = OOM24h (?l b5)" "StalePods h = StalePods (?l b5)" "TotalPods h = TotalPods (?l b5)"
    "AutoscalerPresent h = AutoscalerPresent (?l b5)" unfolding h by simp_all
  ultimately show ?thesis using l1 l3 l4 l5 blocked att by (intro conjI) simp_all
qed

section \<open>An example\<close>

text \<open>One Deployment, governed by \<open>web\<close>, with two stale pods of three.\<close>

definition ex_health :: health_querier where
  "ex_health sel k =
     (case k of QStale \<Rightarrow> [(''shop|Deployment|api'', Fin 2)] | QTotal \<Rightarrow> [(''shop|Deployment|api'', Fin 3)] | _ \<Rightarrow> [], None)"

definition ex_server :: "(fixed, unit, unit, unit) dash_server" where
  "ex_server =
     \<lparr> ds_Reader = ex_inv_reader, ds_Policies = Inr ex_policies, ds_Now = 0, ds_GetPolicy = (\<lambda>_. Inr ex_policy),
       ds_IsNotFound = (\<lambda>_. False), ds_Health = ex_health, ds_QueryInstant = (\<lambda>_. (Fin 0, None)),
       ds_QueryRange = (\<lambda>_. Inr []), ds_QueryByLabel = (\<lambda>_ _. Inr []) \<rparr>"

lemma ex_listed:
  "case handleAllWorkloads fixed_env ex_gov ex_server ''GET'' [(''risk'', risk_string RiskDrifted)] of
     Reply r \<Rightarrow> pa_Total r = 1 | _ \<Rightarrow> False"
  by code_simp

theorem list_shows_what_filters_accept_witness:
  "\<exists>r listed. handleAllWorkloads fixed_env ex_gov ex_server ''GET'' [(''risk'', risk_string RiskDrifted)] = Reply r \<and>
     pa_Total r = int (length (listed :: fixed all_workload_summary list)) \<and>
     wc_Automated (pa_Counts r) + wc_Manual (pa_Counts r) + wc_Conflicted (pa_Counts r) = 1"
proof -
  obtain r where r: "handleAllWorkloads fixed_env ex_gov ex_server ''GET'' [(''risk'', risk_string RiskDrifted)] = Reply r"
    "pa_Total r = 1" using ex_listed by (auto split: http.splits)
  from list_shows_what_filters_accept [OF r(1)] r show ?thesis by auto
qed

theorem overview_counts_match_list_witness:
  "\<exists>g. map_of (su_Attention (fst (computeSummary fixed_env ex_gov ex_server))) RiskDrifted = Some g \<and> ag_Total g = 1"
proof -
  obtain r where r: "handleAllWorkloads fixed_env ex_gov ex_server ''GET'' [(''risk'', risk_string RiskDrifted)] = Reply r"
    "pa_Total r = 1" using ex_listed by (auto split: http.splits)
  from overview_counts_match_list [OF r(1)] r(2) show ?thesis by auto
qed

theorem health_is_own_witness:
  "let h = lookup_or no_health (fst (forIdentities fixed_env ex_health
       [\<lparr> id_Namespace = ''shop'', OwnerKind = ''Deployment'', OwnerName = ''api'' \<rparr>]))
       \<lparr> id_Namespace = ''shop'', OwnerKind = ''Deployment'', OwnerName = ''api'' \<rparr>
   in StalePods h = 2 \<and> TotalPods h = 3 \<and> ih_Blocked h = None"
proof -
  let ?i = "\<lparr> id_Namespace = ''shop'', OwnerKind = ''Deployment'', OwnerName = ''api'' \<rparr>"
  have wf: "wf_map (answers_for ex_health [?i] k)" for k by (cases k) (simp_all add: answers_for_def ex_health_def wf_map_def)
  have "plain_identity ?i" by (simp add: plain_identity_def)
  from health_is_own [OF _ this wf, of fixed_env] show ?thesis
    by (simp add: Let_def answers_for_def ex_health_def workloadKey_def lookup_or_def rtrunc_def in_int64_def)
qed

end
