(* ===== verification/SimulationCorrect.thy ===== *)
theory SimulationCorrect
  imports Detail BoardCorrect
begin

text \<open>
  What Simulations promise: they compute what the controller would, an override runs exactly when the apiserver would
  admit the settings it makes, and the totals of a batch compare the same containers on both sides.
\<close>

section \<open>The settings decide the Request\<close>

lemma settings_fields [simp]:
  "ResourcesConfigs (settings_rightSizing (settingsOf spec)) = ResourcesConfigs spec"
  "AutoscalerCoordination (settings_rightSizing (settingsOf spec)) = AutoscalerCoordination spec"
  "ExcludeInitContainers (settings_rightSizing (settingsOf spec)) = ExcludeInitContainers spec"
  by (simp_all add: settings_rightSizing_def settingsOf_def)

lemma request_for_settings [simp]: "request_for (settings_rightSizing (settingsOf spec)) = request_for spec"
  by (simp add: fun_eq_iff request_for_def ContainersOf_def)

lemma sizedContainers_settings [simp]: "sizedContainers (settings_rightSizing (settingsOf spec)) = sizedContainers spec"
  by (intro ext) (simp add: sizedContainers_def ContainersOf_def)

lemma assemble_one_settings [simp]: "assemble_one (settings_rightSizing (settingsOf spec)) = assemble_one spec"
  by (intro ext) (simp add: assemble_one_def split: sum.split)

lemma Assemble_settings [simp]:
  "Assemble E fetch c clock (settings_rightSizing (settingsOf spec)) = Assemble E fetch c clock spec"
  by (simp add: fun_eq_iff Assemble_def)

lemma Assemble_single:
  assumes "Assemble E fetch c clock spec [i] st = (out, st')"
  shows "\<exists>a. out = [a] \<and> (\<forall>rq. ab_Request a = Inr rq \<longrightarrow> rq_now rq = clock st)"
proof -
  obtain groups built st1 where ra: "readAutoscalers (f2i64 E) c [i] ([], st) = (groups, built, st1)" by (metis prod.collapse)
  have "length groups = 1" using length_readAutoscalers [of "f2i64 E" c "[i]" "([], st)"] ra by simp
  then obtain g where g: "groups = [g]" by (auto simp: length_Suc_conv)
  show ?thesis
    using assms by (auto simp: Assemble_def Let_def ra g assemble_one_def split: prod.splits sum.splits)
qed

lemma simulated_recs: "map (\<lambda>(name, c). (name, sc_Rec c)) (simulationContainers res inp) = rs_Recs res"
  by (simp add: simulationContainers_def comp_def case_prod_unfold)


section \<open>Overrides and the CRD\<close>

text \<open>The rules the markers of \<open>api/v1alpha1/policy_types.go\<close> put on a Policy.\<close>

definition crd_between :: "int \<Rightarrow> int \<Rightarrow> int option \<Rightarrow> bool" where
  "crd_between lo hi v \<longleftrightarrow> (\<forall>n \<in> set_option v. lo \<le> n \<and> n \<le> hi)"

definition crd_requests :: "'q env \<Rightarrow> 'q resource_requests_config \<Rightarrow> bool" where
  "crd_requests E r \<longleftrightarrow>
     (MinAllowed r = None \<or> MaxAllowed r = None \<or> q_cmp E (the (MinAllowed r)) (the (MaxAllowed r)) \<le> 0) \<and>
     (\<not> KeepRequest r \<or> Headroom r = None \<and> Percentile r = None \<and> MinAllowed r = None \<and> MaxAllowed r = None) \<and>
     crd_between 0 100 (Headroom r) \<and> crd_between 1 100 (Percentile r)"

definition crd_limits :: "resource_limits_config \<Rightarrow> bool" where
  "crd_limits l \<longleftrightarrow>
     (if EqualsToRequest l then 1 else 0) + (if KeepLimit l then 1 else 0) + (if KeepLimitRequestRatio l then 1 else 0) +
     (if NoLimit l then 1 else 0) + (if RequestsLimitsRatio l \<noteq> None then 1 else 0) \<le> (1 :: int) \<and>
     (\<forall>r \<in> set_option (RequestsLimitsRatio l). \<not> flt r (Fin 1))"

definition crd_resource :: "'q env \<Rightarrow> 'q resource_config \<Rightarrow> bool" where
  "crd_resource E c \<longleftrightarrow>
     (Window c = [] \<or> windowPattern (Window c)) \<and> crd_requests E (rc_Requests c) \<and> crd_limits (rc_Limits c) \<and>
     (\<forall>d \<in> set_option (DownsizeThreshold c). crd_between 0 100 (dt_Percent d))"

definition crd_admits :: "'q env \<Rightarrow> 'q simulation_settings \<Rightarrow> bool" where
  "crd_admits E s \<longleftrightarrow>
     crd_resource E (rs_CPU (sm_ResourcesConfigs s)) \<and> crd_resource E (rs_Memory (sm_ResourcesConfigs s)) \<and>
     (\<forall>a \<in> set_option (ReplicaBudgetAnchor (sm_AutoscalerCoordination s)). \<not> flt a (Fin 0) \<and> \<not> flt (Fin 1) a)"

lemma outside_crd: "outside lo hi v \<longleftrightarrow> \<not> crd_between lo hi v"
  by (auto simp: outside_def crd_between_def split: option.split)

lemma if_nil [simp]: "(if b then [x] else []) = [] \<longleftrightarrow> \<not> b"
  by simp

lemma strategies_crd:
  "(length (filter id [a, b, c, d, e]) > 1) \<longleftrightarrow>
   \<not> (if a then 1 else 0) + (if b then 1 else 0) + (if c then 1 else 0) + (if d then 1 else 0) + (if e then 1 else 0) \<le> (1 :: int)"
  by (cases a; cases b; cases c; cases d; cases e) simp_all

lemma resourceViolations_crd: "resourceViolations E path c = [] \<longleftrightarrow> crd_resource E c"
proof -
  let ?r = "rc_Requests c" and ?l = "rc_Limits c"
  have minmax: "(case (MinAllowed ?r, MaxAllowed ?r) of (Some a, Some b) \<Rightarrow> q_greater E a b | _ \<Rightarrow> False) \<longleftrightarrow>
      \<not> (MinAllowed ?r = None \<or> MaxAllowed ?r = None \<or> q_cmp E (the (MinAllowed ?r)) (the (MaxAllowed ?r)) \<le> 0)"
    by (auto split: option.split)
  have ratio: "(case RequestsLimitsRatio ?l of None \<Rightarrow> False | Some r \<Rightarrow> flt r (Fin 1)) \<longleftrightarrow>
      \<not> (\<forall>r \<in> set_option (RequestsLimitsRatio ?l). \<not> flt r (Fin 1))" by (auto split: option.split)
  have down: "crd_between 0 100 (case DownsizeThreshold c of None \<Rightarrow> None | Some d \<Rightarrow> dt_Percent d) \<longleftrightarrow>
      (\<forall>d \<in> set_option (DownsizeThreshold c). crd_between 0 100 (dt_Percent d))" by (auto simp: crd_between_def split: option.split)
  show ?thesis
    unfolding resourceViolations_def Let_def append_is_Nil_conv if_nil minmax ratio outside_crd strategies_crd down crd_resource_def crd_requests_def crd_limits_def
      not_not de_Morgan_conj de_Morgan_disj
    by (rule iffI; elim conjE; intro conjI; assumption)
qed

lemma violations_crd: "violations E s = [] \<longleftrightarrow> crd_admits E s"
  by (auto simp: violations_def resourceViolations_crd crd_admits_def split: option.split)

text \<open>C37. An override of settings the apiserver admits is accepted exactly when the apiserver would admit what it merges
  to; otherwise it is refused for a rule those settings break and the Policy's do not.\<close>

theorem override_follows_crd:
  assumes "crd_admits E s" "TrimSpace patch \<noteq> []" "hd (TrimSpace patch) = CHR ''{''" "js_Marshal J s = Inr base"
    "js_MergePatch J base patch = Inr merged" "checkQuantities J merged = None" "js_Decode J merged = Inr out"
  shows "override E J s patch = (if crd_admits E out then Overridden out else Invalid (hd (violations E out)))"
proof -
  have "TrimSpace patch \<noteq> ''null''" using assms(3) by auto
  moreover have "filter (\<lambda>v. v \<notin> set (violations E s)) (violations E out) = violations E out"
    using assms(1) unfolding violations_crd [symmetric] by simp
  ultimately show ?thesis
    using assms by (auto simp: override_def violations_crd [symmetric] neq_Nil_conv)
qed

text \<open>Settings that already break a rule may keep breaking it, but an override adds no breach.\<close>

lemma override_adds_no_violation:
  assumes "override E J s patch = Overridden out"
  shows "set (violations E out) \<subseteq> set (violations E s)"
proof -
  have "filter (\<lambda>v. v \<notin> set (violations E s)) (violations E out) = []"
    using assms by (auto simp: override_def split: if_splits sum.splits option.splits list.splits)
  then show ?thesis by (auto simp: filter_empty_conv)
qed

section \<open>Totals of a batch\<close>

text \<open>The changes counted: those with a request on both sides.\<close>

definition both_sides :: "'q change list \<Rightarrow> ('q \<times> 'q) list" where
  "both_sides chs = map (\<lambda>(a, b). (the a, the b)) (filter (\<lambda>(a, b). a \<noteq> None \<and> b \<noteq> None) chs)"

definition tally :: "'q env \<Rightarrow> 'q change list \<Rightarrow> savings \<Rightarrow> savings" where
  "tally E chs s =
     \<lparr> sv_current = wrap64 (sv_current s + (\<Sum>(a, b) \<leftarrow> both_sides chs. q_milli_value E a)),
       sv_recommended = wrap64 (sv_recommended s + (\<Sum>(a, b) \<leftarrow> both_sides chs. q_milli_value E b)) \<rparr>"

definition in_range :: "savings \<Rightarrow> bool" where
  "in_range s \<longleftrightarrow> in_int64 (sv_current s) \<and> in_int64 (sv_recommended s)"

lemma in_range_tally [simp]: "in_range (tally E chs s)"
  by (simp add: in_range_def tally_def)

lemma tally_Nil [simp]: "in_range s \<Longrightarrow> tally E [] s = s"
  by (simp add: in_range_def tally_def both_sides_def wrap64_id)

lemma wrap64_add: "wrap64 (wrap64 a + b) = wrap64 (a + b)"
  by (simp add: wrap64_def mod_simps algebra_simps)

lemma tally_append: "tally E (a @ b) s = tally E b (tally E a s)"
  by (simp add: tally_def both_sides_def wrap64_add add.assoc)

lemma savings_add_tally: "in_range s \<Longrightarrow> snd (savings_add E ch s) = tally E [ch] s"
  by (auto simp: savings_add_def tally_def both_sides_def in_range_def wrap64_id split: prod.split option.split)

lemma fold_batch_container:
  assumes "in_range cpu" "in_range mem"
  shows "snd (fold (batch_container E recs) cs (rows, cpu, mem)) =
    (tally E (map (\<lambda>c. cpu_change E c (map_of recs (c_Name c))) cs) cpu,
     tally E (map (\<lambda>c. memory_change E c (map_of recs (c_Name c))) cs) mem)"
  using assms
proof (induction cs arbitrary: rows cpu mem)
  case (Cons c cs)
  let ?cc = "cpu_change E c (map_of recs (c_Name c))" and ?mc = "memory_change E c (map_of recs (c_Name c))"
  have "snd (batch_container E recs c (rows, cpu, mem)) = (tally E [?cc] cpu, tally E [?mc] mem)"
    using savings_add_tally [OF Cons.prems(1), of E ?cc] savings_add_tally [OF Cons.prems(2), of E ?mc]
    by (simp add: batch_container_def Let_def case_prod_unfold)
  then obtain rows' where step: "batch_container E recs c (rows, cpu, mem) = (rows', tally E [?cc] cpu, tally E [?mc] mem)"
    by (metis prod.collapse)
  show ?case
    using Cons.IH [of "tally E [?cc] cpu" "tally E [?mc] mem" rows']
      tally_append [of E "[?cc]" "map (\<lambda>c. cpu_change E c (map_of recs (c_Name c))) cs" cpu]
      tally_append [of E "[?mc]" "map (\<lambda>c. memory_change E c (map_of recs (c_Name c))) cs" mem]
    by (simp add: step)
qed simp

text \<open>The changes of the containers that count: those of the identities a Recommendation was computed for.\<close>

definition counted ::
  "('q container \<Rightarrow> 'q container_recommendation option \<Rightarrow> 'q change) \<Rightarrow> ('q, 'ls) identity \<times> (go_error + 'q result) \<Rightarrow> 'q change list" where
  "counted change wr =
     (case snd wr of
        Inl _ \<Rightarrow> []
      | Inr res \<Rightarrow> if rs_Outcome res \<noteq> Recommended then []
                    else map (\<lambda>c. change c (map_of (rs_Recs res) (c_Name c))) (batch_containers (fst wr) (rs_Recs res)))"

lemma batch_workload_step:
  assumes "in_range cpu" "in_range mem"
  shows "\<exists>row. batch_workload E wr (rows, cpu, mem) =
      (rows @ [row], tally E (counted (cpu_change E) wr) cpu, tally E (counted (memory_change E) wr) mem) \<and> wb_Identity row = in_Key (fst wr)"
proof -
  obtain i r where wr: "wr = (i, r)" by (cases wr)
  show ?thesis
  proof (cases r)
    case (Inr res)
    show ?thesis
      using assms Inr fold_batch_container [OF assms, of E "rs_Recs res" "batch_containers i (rs_Recs res)" "[]"]
      by (auto simp: wr batch_workload_def Let_def counted_def split: prod.split)
  qed (use assms in \<open>simp add: wr batch_workload_def counted_def\<close>)
qed

lemma fold_batch_workload:
  assumes "in_range cpu" "in_range mem"
  shows "\<exists>new. fold (batch_workload E) wrs (rows, cpu, mem) =
      (rows @ new, tally E (concat (map (counted (cpu_change E)) wrs)) cpu, tally E (concat (map (counted (memory_change E)) wrs)) mem) \<and>
      map wb_Identity new = map (\<lambda>wr. in_Key (fst wr)) wrs"
  using assms
proof (induction wrs arbitrary: rows cpu mem)
  case (Cons wr wrs)
  obtain row where step: "batch_workload E wr (rows, cpu, mem) =
      (rows @ [row], tally E (counted (cpu_change E) wr) cpu, tally E (counted (memory_change E) wr) mem)"
    and key: "wb_Identity row = in_Key (fst wr)" using batch_workload_step [OF Cons.prems] by blast
  obtain new where "fold (batch_workload E) wrs (rows @ [row], tally E (counted (cpu_change E) wr) cpu, tally E (counted (memory_change E) wr) mem) =
      ((rows @ [row]) @ new, tally E (concat (map (counted (cpu_change E)) wrs)) (tally E (counted (cpu_change E) wr) cpu),
       tally E (concat (map (counted (memory_change E)) wrs)) (tally E (counted (memory_change E) wr) mem))"
    "map wb_Identity new = map (\<lambda>wr. in_Key (fst wr)) wrs"
    using Cons.IH [OF in_range_tally in_range_tally, of "rows @ [row]" E "counted (cpu_change E) wr" cpu E "counted (memory_change E) wr" mem] by blast
  then show ?case using key by (intro exI [of _ "row # new"]) (simp add: step tally_append)
qed simp

lemma length_computeRecommendations: "length (fst (computeRecommendations E P spec ids st)) = length ids"
proof -
  obtain groups built st1 where ra: "readAutoscalers (f2i64 E) (sp_Autoscalers P) ids ([], st) = (groups, built, st1)" by (metis prod.collapse)
  then have "length groups = length ids" using length_readAutoscalers [of "f2i64 E" "sp_Autoscalers P" ids "([], st)"] by simp
  then show ?thesis by (simp add: computeRecommendations_def Assemble_def Let_def ra split: prod.split)
qed

text \<open>C38. A batch compares like with like: its totals are the sums over exactly the containers that have both a current
  and a recommended request, of the present identities of the Policy that a Recommendation was computed for; the
  savings are their difference, in 64 bits; and each present identity has one row, in order.\<close>

theorem batch_compares_like_with_like:
  assumes "handlePolicyBatchSimulate E G s P meth name st = (Reply r, st')"
  shows "\<exists>policy governed results. ds_GetPolicy s name = Inr policy \<and> governedBy G s policy = Inr governed \<and>
    (let present = filter (\<lambda>i. \<not> identity_Departed i) governed;
         cpu = both_sides (concat (map (counted (cpu_change E)) (zip present results)));
         mem = both_sides (concat (map (counted (memory_change E)) (zip present results)))
     in results = fst (computeRecommendations E P (p_RightSizing policy) present st) \<and>
        map wb_Identity (br_Workloads r) = map in_Key present \<and>
        sa_CurrentMillis (br_CPU r) = wrap64 (\<Sum>(a, b) \<leftarrow> cpu. q_milli_value E a) \<and>
        sa_SavingsMillis (br_CPU r) = wrap64 (\<Sum>(a, b) \<leftarrow> cpu. q_milli_value E a - q_milli_value E b) \<and>
        sa_CurrentMillis (br_Memory r) = wrap64 (\<Sum>(a, b) \<leftarrow> mem. q_milli_value E a) \<and>
        sa_SavingsMillis (br_Memory r) = wrap64 (\<Sum>(a, b) \<leftarrow> mem. q_milli_value E a - q_milli_value E b))"
proof -
  obtain policy governed where p: "ds_GetPolicy s name = Inr policy" "governedBy G s policy = Inr governed"
    using assms by (auto simp: handlePolicyBatchSimulate_def split: if_splits sum.splits prod.splits)
  let ?present = "filter (\<lambda>i. \<not> identity_Departed i) governed"
  obtain results st1 where res: "computeRecommendations E P (p_RightSizing policy) ?present st = (results, st1)" by fastforce
  have len: "length results = length ?present" using length_computeRecommendations [of E P "p_RightSizing policy" ?present st] res by simp
  have zero: "in_range no_savings" by (simp add: in_range_def no_savings_def in_int64_def)
  let ?cpu = "concat (map (counted (cpu_change E)) (zip ?present results))" and ?mem = "concat (map (counted (memory_change E)) (zip ?present results))"
  obtain rows where f: "fold (batch_workload E) (zip ?present results) ([], no_savings, no_savings) = (rows, tally E ?cpu no_savings, tally E ?mem no_savings)"
    and keys: "map wb_Identity rows = map (\<lambda>wr. in_Key (fst wr)) (zip ?present results)"
    using fold_batch_workload [OF zero zero, of E "zip ?present results" "[]"] by auto
  have r: "r = \<lparr> br_PolicyName = name,
      br_CPU = buildSavingsAggregate (sv_current (tally E ?cpu no_savings)) (sv_recommended (tally E ?cpu no_savings)) ''cpu'',
      br_Memory = buildSavingsAggregate (sv_current (tally E ?mem no_savings)) (sv_recommended (tally E ?mem no_savings)) ''memory'', br_Workloads = rows \<rparr>"
    using assms p f by (auto simp: handlePolicyBatchSimulate_def Let_def res split: if_splits)
  have ids: "map wb_Identity rows = map in_Key ?present"
    unfolding keys map_map [of in_Key fst, unfolded comp_def, symmetric] using len by simp
  have current: "sv_current (tally E chs no_savings) = wrap64 (\<Sum>(a, b) \<leftarrow> both_sides chs. q_milli_value E a)" for chs
    by (simp add: tally_def no_savings_def)
  have saved: "wrap64 (sv_current (tally E chs no_savings) - sv_recommended (tally E chs no_savings)) =
      wrap64 (\<Sum>(a, b) \<leftarrow> both_sides chs. q_milli_value E a - q_milli_value E b)" for chs
    by (simp add: tally_def no_savings_def wrap64_def mod_simps sum_list_subtractf case_prod_unfold algebra_simps)
  show ?thesis
    using p res ids by (intro exI [of _ policy] exI [of _ governed] exI [of _ results])
      (simp add: Let_def r buildSavingsAggregate_def saved [unfolded current] current)
qed

section \<open>Witnesses\<close>

definition ex_ports :: "(fixed, unit) sim_ports" where
  "ex_ports =
     \<lparr> sp_Fetch = (\<lambda>now cfg reqs st. (map (\<lambda>r. (ir_Identity r, Inr [])) reqs, st)),
       sp_FetchHistory = (\<lambda>sp cfg reqs st. ([], st)), sp_Autoscalers = ex_no_autoscalers, sp_Clock = (\<lambda>_. 100 * 24 * hour),
       sp_QueryRange = (\<lambda>e key r step. ([], None)), sp_ParseDuration = (\<lambda>_. Some hour) \<rparr>"

text \<open>One Deployment, governed through its namespace, whose container requests 100 MiB of memory.\<close>

definition ex_sim_server :: "(fixed, unit, unit, unit) dash_server" where
  "ex_sim_server = ex_server\<lparr>ds_Reader := ex_inv_reader\<lparr>
     ir_List := (\<lambda>kind ns. Inr (if kind = ''Deployment''
       then [InvWorkload
         \<lparr> wk_Object = \<lparr> wo_Type = ''Deployment'', wo_Namespace = ''shop'', wo_Name = ''api'', wo_UID = ''1'', wo_Selector = None \<rparr>,
           wk_Created = 5, wk_Annotations = [], wk_OwnerReferences = [], wk_Conditions = [],
           wk_Template = \<lparr> tm_Labels = [], tm_Annotations = [],
             tm_Containers = [\<lparr> c_Name = ''app'', c_Resources = \<lparr> Requests = [(ResourceMemory, (104857600, BinarySI))], Limits = [] \<rparr>, c_RestartPolicy = None \<rparr>],
             tm_InitContainers = [] \<rparr> \<rparr>] else [])),
     ir_GetNamespace := (\<lambda>ns. Inr [(PolicyAnnotation, ''web'')])\<rparr>\<rparr>"

definition ex_simulate :: simulate_request where
  "ex_simulate = \<lparr> sq_Identity = \<lparr> id_Namespace = ''shop'', OwnerKind = ''Deployment'', OwnerName = ''api'' \<rparr>, sq_Window = ''168h'', sq_Step = [],
     sq_FromTs = 0, sq_ToTs = 0, sq_Policy = [], sq_Override = '' null'' \<rparr>"

text \<open>Documents that are settings; the one patch sets the percentile of CPU.\<close>

definition ex_percentile :: "int \<Rightarrow> fixed simulation_settings \<Rightarrow> fixed simulation_settings" where
  "ex_percentile n s = s\<lparr>sm_ResourcesConfigs := (sm_ResourcesConfigs s)\<lparr>rs_CPU := (rs_CPU (sm_ResourcesConfigs s))
     \<lparr>rc_Requests := (rc_Requests (rs_CPU (sm_ResourcesConfigs s)))\<lparr>Percentile := Some n\<rparr>\<rparr>\<rparr>\<rparr>"

definition ex_json :: "int \<Rightarrow> (fixed, fixed simulation_settings) json_env" where
  "ex_json n = \<lparr> js_Marshal = Inr, js_MergePatch = (\<lambda>doc patch. Inr (ex_percentile n doc)), js_Strings = (\<lambda>_. Inr (\<lambda>_. None)),
     js_Decode = Inr, js_ParseQuantity = (\<lambda>_. None) \<rparr>"

lemma ex_simulated_computes:
  "case dash_identity ex_gov ex_sim_server (sq_Identity ex_simulate) of
     Inr (Some i) \<Rightarrow> in_Policy i = ''web'' \<and>
       (case ab_Request (hd (fst (Assemble fixed_env (sp_Fetch ex_ports) (sp_Autoscalers ex_ports) (sp_Clock ex_ports) (p_RightSizing ex_policy) [i] ()))) of
          Inr rq \<Rightarrow> rs_Outcome (Compute fixed_env rq) = NoData | Inl _ \<Rightarrow> False)
   | _ \<Rightarrow> False"
  by code_simp

lemma ex_simulated:
  obtains i rq where "dash_identity ex_gov ex_sim_server (sq_Identity ex_simulate) = Inr (Some i)" "in_Policy i = ''web''"
    "ab_Request (hd (fst (Assemble fixed_env (sp_Fetch ex_ports) (sp_Autoscalers ex_ports) (sp_Clock ex_ports) (p_RightSizing ex_policy) [i] ()))) = Inr rq"
    "rs_Outcome (Compute fixed_env rq) = NoData"
proof (cases "dash_identity ex_gov ex_sim_server (sq_Identity ex_simulate)")
  case (Inr found)
  with ex_simulated_computes that show ?thesis by (cases found) (simp_all split: sum.splits)
qed (use ex_simulated_computes in simp)


theorem override_follows_crd_witness:
  "override fixed_env (ex_json 95) zero_settings ''{}'' = Overridden (ex_percentile 95 zero_settings) \<and>
   override fixed_env (ex_json 101) zero_settings ''{}'' = Invalid (Broken (Some ''cpu'') (PercentileRule 101))"
proof -
  have zero: "crd_admits fixed_env zero_settings"
    by (simp add: crd_admits_def zero_settings_def no_resource_config_def crd_resource_def crd_requests_def crd_limits_def crd_between_def)
  have trim: "TrimSpace ''{}'' = ''{}''" by (simp add: TrimSpace_def is_space_def)
  have J: "js_Marshal (ex_json n) zero_settings = Inr zero_settings" "js_MergePatch (ex_json n) zero_settings ''{}'' = Inr (ex_percentile n zero_settings)"
    "checkQuantities (ex_json n) (ex_percentile n zero_settings) = None" "js_Decode (ex_json n) (ex_percentile n zero_settings) = Inr (ex_percentile n zero_settings)" for n
    by (simp_all add: ex_json_def checkQuantities_def)
  have over: "override fixed_env (ex_json n) zero_settings ''{}'' =
      (if crd_admits fixed_env (ex_percentile n zero_settings) then Overridden (ex_percentile n zero_settings)
       else Invalid (hd (violations fixed_env (ex_percentile n zero_settings))))" for n
    by (rule override_follows_crd [OF zero _ _ J]) (simp_all add: trim)
  have "crd_admits fixed_env (ex_percentile 95 zero_settings)"
    by (simp add: ex_percentile_def crd_admits_def zero_settings_def no_resource_config_def crd_resource_def crd_requests_def crd_limits_def crd_between_def)
  moreover have "violations fixed_env (ex_percentile 101 zero_settings) = [Broken (Some ''cpu'') (PercentileRule 101)]" by code_simp
  ultimately show ?thesis using over [of 95] over [of 101] by (simp add: violations_crd [symmetric])
qed

lemma ex_governed:
  "case governedBy ex_gov ex_sim_server ex_policy of
     Inr governed \<Rightarrow> map in_Key (filter (\<lambda>i. \<not> identity_Departed i) governed) = [sq_Identity ex_simulate] | Inl _ \<Rightarrow> False"
  by code_simp

theorem batch_compares_like_with_like_witness:
  "\<exists>r. fst (handlePolicyBatchSimulate fixed_env ex_gov ex_sim_server ex_ports ''GET'' ''web'' ()) = Reply r \<and>
     map wb_Identity (br_Workloads r) = [sq_Identity ex_simulate]"
proof -
  obtain governed where g: "governedBy ex_gov ex_sim_server ex_policy = Inr governed"
    and present: "map in_Key (filter (\<lambda>i. \<not> identity_Departed i) governed) = [sq_Identity ex_simulate]"
    using ex_governed by (cases "governedBy ex_gov ex_sim_server ex_policy") simp_all
  have web: "ds_GetPolicy ex_sim_server ''web'' = Inr ex_policy" by (simp add: ex_sim_server_def ex_server_def)
  obtain r where r: "handlePolicyBatchSimulate fixed_env ex_gov ex_sim_server ex_ports ''GET'' ''web'' () = (Reply r, ())"
    by (simp add: handlePolicyBatchSimulate_def web g Let_def case_prod_unfold)
  from batch_compares_like_with_like [OF r] obtain policy governed' where
    "Inr ex_policy = (Inr policy :: go_error + (fixed, unit) policy)" "governedBy ex_gov ex_sim_server policy = Inr governed'"
    "map wb_Identity (br_Workloads r) = map in_Key (filter (\<lambda>i. \<not> identity_Departed i) governed')"
    unfolding web Let_def by blast
  then show ?thesis using r present g by simp
qed

end
