(* ===== verification/PromClient.thy ===== *)
theory PromClient
  imports Breaker Board History
begin

text \<open>
  The client every query of Prometheus goes through (\<open>internal/prometheus/client.go\<close>, \<open>batch.go\<close> and the
  attribution of \<open>identity.go\<close>): the breaker's gate, the slots that bound the queries in flight, the re-check after
  the queue, and what an answer counts as; then the readings of an answer.

  Queries run concurrently: the state is the client's breaker and slots with the queries it has been asked, and each
  query advances in steps of its own, in any interleaving, as the clock does. A wait for a slot may end at any time:
  its context has a deadline of its own. The channel \<open>sem\<close> is the number of values in it, \<open>None\<close> when unbounded. The
  calls made of the breaker are kept as a list, to say what it has been told.
\<close>

section \<open>Queries in flight\<close>

text \<open>How a query ends: answered, failed (Prometheus or the query's own deadline), cut short by a sibling's failure,
  rejected by the open circuit, or aborted in the queue. A phase carries whether the query holds the probe.\<close>

datatype query_end = Answered | QueryFailed | Collateral | Rejected | QueueAborted

datatype query_phase =
    Waiting bool
  | Holding bool
  | Asking bool
  | Leaving bool query_end
  | Ended bool query_end

record client_state =
  cl_breaker :: "breaker option"
  cl_sem :: "nat option"
  cl_inflight :: nat
  cl_now :: time
  cl_queries :: "query_phase list"
  cl_calls :: "breaker_call list"

definition new_client :: "int \<Rightarrow> duration \<Rightarrow> nat option \<Rightarrow> time \<Rightarrow> client_state" where
  "new_client maxF cool sem now =
     \<lparr> cl_breaker = Some (newBreaker maxF cool), cl_sem = sem, cl_inflight = 0, cl_now = now, cl_queries = [], cl_calls = [] \<rparr>"

definition set_phase :: "nat \<Rightarrow> query_phase \<Rightarrow> client_state \<Rightarrow> client_state" where
  "set_phase g ph s = s\<lparr>cl_queries := (cl_queries s)[g := ph]\<rparr>"

definition call_breaker :: "breaker_call \<Rightarrow> client_state \<Rightarrow> client_state" where
  "call_breaker e s = s\<lparr>cl_breaker := breaker_step e (cl_breaker s), cl_calls := cl_calls s @ [e]\<rparr>"

text \<open>The gate of \<open>execInstant\<close> and \<open>execRange\<close>.\<close>

definition start_query :: "client_state \<Rightarrow> client_state" where
  "start_query s =
     (case fst (allow (cl_now s) (cl_breaker s)) of (allowed, probe) \<Rightarrow>
        (call_breaker (Allow (cl_now s)) s)\<lparr>cl_queries := cl_queries s @
          [if \<not> allowed then Ended probe Rejected else if cl_sem s = None then Asking probe else Waiting probe]\<rparr>)"

text \<open>\<open>acquire\<close>: the slot, the abort, and the re-check that gives the slot back.\<close>

definition take_slot :: "nat \<Rightarrow> bool \<Rightarrow> client_state \<Rightarrow> client_state" where
  "take_slot g probe s = set_phase g (Holding probe) (s\<lparr>cl_inflight := cl_inflight s + 1\<rparr>)"

definition give_up :: "nat \<Rightarrow> bool \<Rightarrow> client_state \<Rightarrow> client_state" where
  "give_up g probe s = set_phase g (Ended probe QueueAborted) s"

definition recheck :: "nat \<Rightarrow> bool \<Rightarrow> client_state \<Rightarrow> client_state" where
  "recheck g probe s =
     (if \<not> probe \<and> isOpen (cl_now s) (cl_breaker s)
      then set_phase g (Ended probe Rejected) (s\<lparr>cl_inflight := cl_inflight s - 1\<rparr>)
      else set_phase g (Asking probe) s)"

text \<open>The answer: \<open>recordQueryFailure\<close> counts a failure unless a sibling's failure cancelled the query.\<close>

datatype context_end = StillOpen | DeadlineExceeded | Cancelled | OtherCause

datatype query_answer = Value | QueryError context_end

fun answer_end :: "query_answer \<Rightarrow> query_end" where
  "answer_end Value = Answered"
| "answer_end (QueryError OtherCause) = Collateral"
| "answer_end (QueryError _) = QueryFailed"

fun recordQueryFailure :: "context_end \<Rightarrow> client_state \<Rightarrow> client_state" where
  "recordQueryFailure OtherCause s = s"
| "recordQueryFailure c s = call_breaker (Failure (cl_now s)) s"

fun record_answer :: "query_answer \<Rightarrow> client_state \<Rightarrow> client_state" where
  "record_answer Value s = call_breaker Success s"
| "record_answer (QueryError c) s = recordQueryFailure c s"

definition answer_query :: "nat \<Rightarrow> bool \<Rightarrow> query_answer \<Rightarrow> client_state \<Rightarrow> client_state" where
  "answer_query g probe a s = set_phase g (Leaving probe (answer_end a)) (record_answer a s)"

definition release_slot :: "nat \<Rightarrow> bool \<Rightarrow> query_end \<Rightarrow> client_state \<Rightarrow> client_state" where
  "release_slot g probe e s =
     set_phase g (Ended probe e) (if cl_sem s = None then s else s\<lparr>cl_inflight := cl_inflight s - 1\<rparr>)"

datatype client_label = Starts | TakesSlot nat | GivesUpWait nat | Rechecks nat | IsAnswered nat | LeavesSlot nat | Ticks

inductive client_step :: "client_state \<Rightarrow> client_label \<Rightarrow> client_state \<Rightarrow> bool" where
  starts: "client_step s Starts (start_query s)"
| takes: "g < length (cl_queries s) \<Longrightarrow> cl_queries s ! g = Waiting probe \<Longrightarrow> cl_sem s = Some n \<Longrightarrow> cl_inflight s < n \<Longrightarrow>
    client_step s (TakesSlot g) (take_slot g probe s)"
| gives_up: "g < length (cl_queries s) \<Longrightarrow> cl_queries s ! g = Waiting probe \<Longrightarrow> client_step s (GivesUpWait g) (give_up g probe s)"
| rechecks: "g < length (cl_queries s) \<Longrightarrow> cl_queries s ! g = Holding probe \<Longrightarrow> client_step s (Rechecks g) (recheck g probe s)"
| answered: "g < length (cl_queries s) \<Longrightarrow> cl_queries s ! g = Asking probe \<Longrightarrow> client_step s (IsAnswered g) (answer_query g probe a s)"
| leaves: "g < length (cl_queries s) \<Longrightarrow> cl_queries s ! g = Leaving probe e \<Longrightarrow> client_step s (LeavesSlot g) (release_slot g probe e s)"
| ticks: "cl_now s \<le> t \<Longrightarrow> client_step s Ticks (s\<lparr>cl_now := t\<rparr>)"

inductive client_run :: "client_state \<Rightarrow> client_label list \<Rightarrow> client_state \<Rightarrow> bool" where
  none: "client_run s [] s"
| more: "client_run s ls s' \<Longrightarrow> client_step s' l s'' \<Longrightarrow> client_run s (ls @ [l]) s''"

inductive_cases client_stepE: "client_step s l s'"

section \<open>Reading an answer\<close>

text \<open>A sample or series of a result: its labels, and its value or points. A scalar and another type of result are
  told apart only by the reading of an instant.\<close>

record 'v labelled =
  lb_Metric :: str_map
  lb_Value :: 'v

datatype instant_result = Vector "float64 labelled list" | Scalar float64 | OtherResult

text \<open>\<open>circuit_open\<close> is \<open>errors.Is\<close> of \<open>ErrCircuitOpen\<close>.\<close>

definition wrapQueryErr :: "(go_error \<Rightarrow> bool) \<Rightarrow> go_error \<Rightarrow> go_error" where
  "wrapQueryErr circuit_open err = (if circuit_open err then err else Wrap err)"

definition QueryInstant :: "(go_error \<Rightarrow> bool) \<Rightarrow> go_error + instant_result \<Rightarrow> float64 \<times> go_error option" where
  "QueryInstant circuit_open r =
     (case r of
        Inl err \<Rightarrow> (Fin 0, Some (wrapQueryErr circuit_open err))
      | Inr (Vector (s # _)) \<Rightarrow> (lb_Value s, None)
      | Inr (Scalar v) \<Rightarrow> (v, None)
      | Inr _ \<Rightarrow> (Fin 0, None))"

definition QueryRange :: "(go_error \<Rightarrow> bool) \<Rightarrow> go_error + (time \<times> float64) list labelled list \<Rightarrow> go_error + (time \<times> float64) list" where
  "QueryRange circuit_open r =
     (case r of
        Inl err \<Rightarrow> Inl (wrapQueryErr circuit_open err)
      | Inr [] \<Rightarrow> Inr []
      | Inr (s # _) \<Rightarrow> Inr (lb_Value s))"

definition label :: "str_map \<Rightarrow> string \<Rightarrow> string" where
  "label m l = lookup_or [] m l"

text \<open>The values of the labels, \<open>None\<close> when one is missing or empty.\<close>

definition label_values :: "string list \<Rightarrow> str_map \<Rightarrow> string list option" where
  "label_values labels m = (let vs = map (label m) labels in if [] \<in> set vs then None else Some vs)"

definition QueryByLabels :: "(go_error \<Rightarrow> bool) \<Rightarrow> string list \<Rightarrow> go_error + instant_result \<Rightarrow> go_error + (string, float64) gomap" where
  "QueryByLabels circuit_open labels r =
     (case r of
        Inl err \<Rightarrow> Inl (wrapQueryErr circuit_open err)
      | Inr (Vector vec) \<Rightarrow>
          Inr (fold (\<lambda>s out. case label_values labels (lb_Metric s) of
                               None \<Rightarrow> out | Some vs \<Rightarrow> AList.update (join_with (CHR ''|'') vs) (lb_Value s) out) vec [])
      | Inr _ \<Rightarrow> Inr [])"

definition QueryByLabel :: "(go_error \<Rightarrow> bool) \<Rightarrow> string \<Rightarrow> go_error + instant_result \<Rightarrow> go_error + (string, float64) gomap" where
  "QueryByLabel circuit_open l = QueryByLabels circuit_open [l]"

definition QueryRangeByLabel ::
  "(go_error \<Rightarrow> bool) \<Rightarrow> string \<Rightarrow> go_error + (time \<times> float64) list labelled list \<Rightarrow> go_error + (string, (time \<times> float64) list) gomap" where
  "QueryRangeByLabel circuit_open l r =
     (case r of
        Inl err \<Rightarrow> Inl (wrapQueryErr circuit_open err)
      | Inr matrix \<Rightarrow>
          Inr (fold (\<lambda>s out. if label (lb_Metric s) l \<noteq> [] then AList.update (label (lb_Metric s) l) (lb_Value s) out else out) matrix []))"

text \<open>\<open>attribute\<close>: a series without one of the four labels belongs to nobody.\<close>

definition attribute :: "str_map \<Rightarrow> (workload_identity \<times> string) option" where
  "attribute m =
     (let i = \<lparr> id_Namespace = label m ''namespace'', OwnerKind = label m ''owner_kind'', OwnerName = label m ''owner_name'' \<rparr>;
          container = label m ''container''
      in if id_Namespace i = [] \<or> OwnerKind i = [] \<or> OwnerName i = [] \<or> container = [] then None else Some (i, container))"

definition shardSamples :: "float64 labelled list \<Rightarrow> (workload_identity \<times> shard_sample) list" where
  "shardSamples vec =
     concat (map (\<lambda>s. case attribute (lb_Metric s) of
        None \<Rightarrow> []
      | Some (i, container) \<Rightarrow>
          [(i, \<lparr> ss_Container = container, ss_Metric = label (lb_Metric s) ''__name__'', ss_Value = lb_Value s \<rparr>)]) vec)"

definition shardSeries :: "(time \<times> float64) list labelled list \<Rightarrow> shard_series list" where
  "shardSeries matrix =
     concat (map (\<lambda>s. case attribute (lb_Metric s) of
        None \<Rightarrow> []
      | Some (i, container) \<Rightarrow>
          [\<lparr> se_Identity = i, se_Container = container, se_Metric = label (lb_Metric s) ''__name__'', se_Points = lb_Value s \<rparr>]) matrix)"

definition QueryShard :: "(go_error \<Rightarrow> bool) \<Rightarrow> go_error + instant_result \<Rightarrow> go_error + (workload_identity \<times> shard_sample) list" where
  "QueryShard circuit_open r =
     (case r of
        Inl err \<Rightarrow> Inl (wrapQueryErr circuit_open err)
      | Inr (Vector vec) \<Rightarrow> Inr (shardSamples vec)
      | Inr _ \<Rightarrow> Inl (Plain ''unexpected prometheus result type''))"

definition QueryShardRange :: "(go_error \<Rightarrow> bool) \<Rightarrow> go_error + (time \<times> float64) list labelled list \<Rightarrow> go_error + shard_series list" where
  "QueryShardRange circuit_open r = (case r of Inl err \<Rightarrow> Inl (wrapQueryErr circuit_open err) | Inr matrix \<Rightarrow> Inr (shardSeries matrix))"

definition Ping :: "(go_error \<Rightarrow> bool) \<Rightarrow> go_error + instant_result \<Rightarrow> go_error option" where
  "Ping circuit_open r = (case r of Inr _ \<Rightarrow> None | Inl err \<Rightarrow> Some (wrapQueryErr circuit_open err))"

section \<open>What is in flight, and what the breaker is told\<close>

fun at_prometheus :: "query_phase \<Rightarrow> bool" where
  "at_prometheus (Holding _) = True"
| "at_prometheus (Asking _) = True"
| "at_prometheus (Leaving _ _) = True"
| "at_prometheus _ = False"

fun came_to :: "query_end \<Rightarrow> query_phase \<Rightarrow> bool" where
  "came_to e (Leaving _ e') = (e = e')"
| "came_to e (Ended _ e') = (e = e')"
| "came_to e _ = False"

fun probe_rejected :: "query_phase \<Rightarrow> bool" where
  "probe_rejected (Leaving p e) = (p \<and> e = Rejected)"
| "probe_rejected (Ended p e) = (p \<and> e = Rejected)"
| "probe_rejected _ = False"

definition how_many :: "(query_phase \<Rightarrow> bool) \<Rightarrow> client_state \<Rightarrow> nat" where
  "how_many P s = length (filter P (cl_queries s))"

definition told :: "(breaker_call \<Rightarrow> bool) \<Rightarrow> client_state \<Rightarrow> nat" where
  "told P s = length (filter P (cl_calls s))"

abbreviation is_failure :: "breaker_call \<Rightarrow> bool" where
  "is_failure e \<equiv> (case e of Failure _ \<Rightarrow> True | _ \<Rightarrow> False)"

definition client_inv :: "breaker option \<Rightarrow> nat option \<Rightarrow> time \<Rightarrow> client_state \<Rightarrow> bool" where
  "client_inv b sem start s \<longleftrightarrow>
     cl_sem s = sem \<and> start \<le> cl_now s \<and>
     (\<forall>n. sem = Some n \<longrightarrow> cl_inflight s = how_many at_prometheus s \<and> cl_inflight s \<le> n) \<and>
     cl_breaker s = breaker_run (cl_calls s) b \<and> not_before start (cl_calls s) \<and>
     told is_failure s = how_many (came_to QueryFailed) s \<and> told (\<lambda>e. e = Success) s = how_many (came_to Answered) s \<and>
     how_many probe_rejected s = 0"

lemma how_many_set:
  assumes "g < length (cl_queries s)" "cl_queries s ! g = old"
  shows "how_many P (set_phase g new s) + (if P old then 1 else 0) = how_many P s + (if P new then 1 else 0)"
  using length_filter_update [OF assms(1), of P new] assms(2) by (simp add: how_many_def set_phase_def)

lemma how_many_same:
  assumes "g < length (cl_queries s)" "cl_queries s ! g = old" "P old = P new"
  shows "how_many P (set_phase g new s) = how_many P s"
  using how_many_set [OF assms(1,2), of P new] assms(3) by simp

lemma set_phase_fields [simp]:
  "cl_sem (set_phase g ph s) = cl_sem s" "cl_now (set_phase g ph s) = cl_now s" "cl_inflight (set_phase g ph s) = cl_inflight s"
  "cl_breaker (set_phase g ph s) = cl_breaker s" "cl_calls (set_phase g ph s) = cl_calls s" "told Q (set_phase g ph s) = told Q s"
  by (simp_all add: set_phase_def told_def)

lemma call_breaker_fields [simp]:
  "cl_sem (call_breaker e s) = cl_sem s" "cl_now (call_breaker e s) = cl_now s" "cl_inflight (call_breaker e s) = cl_inflight s"
  "cl_queries (call_breaker e s) = cl_queries s" "how_many P (call_breaker e s) = how_many P s"
  "told Q (call_breaker e s) = told Q s + (if Q e then 1 else 0)" "cl_calls (call_breaker e s) = cl_calls s @ [e]"
  by (simp_all add: call_breaker_def how_many_def told_def)

lemma inflight_fields [simp]:
  "how_many P (s\<lparr>cl_inflight := k\<rparr>) = how_many P s" "told Q (s\<lparr>cl_inflight := k\<rparr>) = told Q s"
  "how_many P (s\<lparr>cl_now := t\<rparr>) = how_many P s" "told Q (s\<lparr>cl_now := t\<rparr>) = told Q s"
  by (simp_all add: how_many_def told_def)

lemma not_before_snoc: "not_before t (es @ [e]) \<longleftrightarrow> not_before t es \<and> (case call_time e of None \<Rightarrow> True | Some u \<Rightarrow> t \<le> u)"
  by (simp add: not_before_def)

text \<open>What calling the breaker keeps.\<close>

lemma call_breaker_run:
  assumes "cl_breaker s = breaker_run (cl_calls s) b" "not_before start (cl_calls s)" "case call_time e of None \<Rightarrow> True | Some u \<Rightarrow> start \<le> u"
  shows "cl_breaker (call_breaker e s) = breaker_run (cl_calls (call_breaker e s)) b" "not_before start (cl_calls (call_breaker e s))"
  using assms by (simp_all add: call_breaker_def breaker_run_def not_before_snoc)

lemma how_many_append: "how_many P (s\<lparr>cl_queries := cl_queries s @ [ph]\<rparr>) = how_many P s + (if P ph then 1 else 0)"
  by (simp add: how_many_def)

lemma told_queries [simp]: "told Q (s\<lparr>cl_queries := qs\<rparr>) = told Q s"
  by (simp add: told_def)

lemma inv_start:
  assumes "client_inv b sem start s"
  shows "client_inv b sem start (start_query s)"
proof -
  obtain allowed probe where a: "fst (allow (cl_now s) (cl_breaker s)) = (allowed, probe)" by fastforce
  then have probe: "\<not> allowed \<Longrightarrow> \<not> probe" by (auto simp: allow_def Let_def split: if_splits)
  define ph where "ph = (if \<not> allowed then Ended probe Rejected else if cl_sem s = None then Asking probe else Waiting probe)"
  let ?s = "call_breaker (Allow (cl_now s)) s"
  have eq: "start_query s = ?s\<lparr>cl_queries := cl_queries ?s @ [ph]\<rparr>" by (simp add: start_query_def a ph_def)
  have ph: "\<not> came_to QueryFailed ph" "\<not> came_to Answered ph" "\<not> probe_rejected ph" "at_prometheus ph \<Longrightarrow> cl_sem s = None"
    using probe by (auto simp: ph_def split: if_splits)
  have now: "start \<le> cl_now s" using assms by (simp add: client_inv_def)
  show ?thesis
    using assms ph now call_breaker_run [of s b start "Allow (cl_now s)"] unfolding eq client_inv_def how_many_append told_queries
    by auto
qed

lemma recorded:
  "record_answer a s = call_breaker Success s \<and> answer_end a = Answered \<or>
   record_answer a s = call_breaker (Failure (cl_now s)) s \<and> answer_end a = QueryFailed \<or>
   record_answer a s = s \<and> answer_end a = Collateral"
  by (cases a rule: answer_end.cases) simp_all

lemma inv_answer:
  assumes "client_inv b sem start s" "g < length (cl_queries s)" "cl_queries s ! g = Asking probe"
  shows "client_inv b sem start (answer_query g probe a s)"
proof -
  let ?s = "record_answer a s" and ?new = "Leaving probe (answer_end a)"
  have g: "g < length (cl_queries ?s)" "cl_queries ?s ! g = Asking probe" and same: "how_many P ?s = how_many P s" for P
    using assms(2,3) recorded [of a s] by auto
  have counts: "how_many P (set_phase g ?new ?s) + (if P (Asking probe) then 1 else 0) = how_many P s + (if P ?new then 1 else 0)" for P
    using how_many_set [OF g, of P ?new] same by simp
  have none: "how_many probe_rejected (set_phase g ?new ?s) = 0"
    using counts [of probe_rejected] assms(1) recorded [of a s] by (auto simp: client_inv_def)
  have inflight: "how_many at_prometheus (set_phase g ?new ?s) = how_many at_prometheus s" using counts [of at_prometheus] by simp
  have now: "start \<le> cl_now s" using assms(1) by (simp add: client_inv_def)
  show ?thesis
    using recorded [of a s] assms(1) now none inflight counts [of "came_to QueryFailed"] counts [of "came_to Answered"]
      call_breaker_run [of s b start Success] call_breaker_run [of s b start "Failure (cl_now s)"]
    unfolding answer_query_def client_inv_def by auto
qed

lemma inv_slot:
  assumes "client_inv b sem start s" "g < length (cl_queries s)" "cl_queries s ! g = old"
    and "came_to QueryFailed old = came_to QueryFailed new" "came_to Answered old = came_to Answered new"
      "probe_rejected old = probe_rejected new"
    and "\<And>n. sem = Some n \<Longrightarrow> k + (if at_prometheus old then 1 else 0) = cl_inflight s + (if at_prometheus new then 1 else 0) \<and> k \<le> n"
  shows "client_inv b sem start (set_phase g new (s\<lparr>cl_inflight := k\<rparr>))"
proof -
  let ?s = "s\<lparr>cl_inflight := k\<rparr>"
  have g: "g < length (cl_queries ?s)" "cl_queries ?s ! g = old" using assms(2,3) by simp_all
  have "how_many at_prometheus (set_phase g new ?s) + (if at_prometheus old then 1 else 0) = how_many at_prometheus s + (if at_prometheus new then 1 else 0)"
    using how_many_set [OF g, of at_prometheus new] by simp
  then show ?thesis
    using assms(1,7) how_many_same [OF g, where new = new] assms(4-6) unfolding client_inv_def by (auto split: if_splits)
qed

lemma inflight_pos:
  assumes "client_inv b sem start s" "g < length (cl_queries s)" "cl_queries s ! g = ph" "at_prometheus ph" "sem = Some n"
  shows "0 < cl_inflight s"
proof -
  have "ph \<in> set (cl_queries s)" using assms(2,3) nth_mem by blast
  then have "how_many at_prometheus s \<noteq> 0" using assms(4) by (auto simp: how_many_def filter_empty_conv)
  then show ?thesis using assms(1,5) by (simp add: client_inv_def)
qed

lemma client_inv_step:
  assumes "client_step s l s'" "client_inv b sem start s"
  shows "client_inv b sem start s'"
proof -
  have bound: "cl_inflight s \<le> n" if "sem = Some n" for n using assms(2) that by (simp add: client_inv_def)
  show ?thesis using assms(1)
proof (cases rule: client_step.cases)
  case starts
  then show ?thesis using inv_start [OF assms(2)] by simp
next
  case (takes g probe n)
  have "sem = Some n" using takes(5) assms(2) by (simp add: client_inv_def)
  then have "client_inv b sem start (set_phase g (Holding probe) (s\<lparr>cl_inflight := cl_inflight s + 1\<rparr>))"
    using takes(6) by (intro inv_slot [OF assms(2) takes(3,4)]) simp_all
  then show ?thesis using takes(2) by (simp add: take_slot_def)
next
  case (gives_up g probe)
  have "client_inv b sem start (set_phase g (Ended probe QueueAborted) (s\<lparr>cl_inflight := cl_inflight s\<rparr>))"
    using bound by (intro inv_slot [OF assms(2) gives_up(3,4)]) simp_all
  then show ?thesis using gives_up(2) by (simp add: give_up_def)
next
  case (rechecks g probe)
  note some = inflight_pos [OF assms(2) rechecks(3,4)]
  have "client_inv b sem start (set_phase g (Asking probe) (s\<lparr>cl_inflight := cl_inflight s\<rparr>))"
    using bound by (intro inv_slot [OF assms(2) rechecks(3,4)]) simp_all
  moreover have "client_inv b sem start (set_phase g (Ended False Rejected) (s\<lparr>cl_inflight := cl_inflight s - 1\<rparr>))" if "\<not> probe"
    using some bound by (intro inv_slot [OF assms(2) rechecks(3,4)]) force+
  ultimately show ?thesis using rechecks(2) by (auto simp: recheck_def)
next
  case (answered g probe a)
  then show ?thesis using inv_answer [OF assms(2) answered(3,4)] by simp
next
  case (leaves g probe e)
  note some = inflight_pos [OF assms(2) leaves(3,4)]
  have "client_inv b sem start (set_phase g (Ended probe e) (s\<lparr>cl_inflight := cl_inflight s - 1\<rparr>))"
    using some bound by (intro inv_slot [OF assms(2) leaves(3,4)]) force+
  moreover have "client_inv b sem start (set_phase g (Ended probe e) (s\<lparr>cl_inflight := cl_inflight s\<rparr>))" if "cl_sem s = None"
    using that assms(2) by (intro inv_slot [OF assms(2) leaves(3,4)]) (simp_all add: client_inv_def)
  ultimately show ?thesis using leaves(2) by (auto simp: release_slot_def)
next
  case (ticks t)
  then show ?thesis using assms(2) by (auto simp: client_inv_def)
qed
qed

lemma client_inv_new:
  assumes "client_run (new_client m d sem start) ls s"
  shows "client_inv (Some (newBreaker m d)) sem start s"
  using assms
proof (induction "new_client m d sem start" ls s rule: client_run.induct)
  case none
  then show ?case by (simp add: new_client_def client_inv_def how_many_def told_def breaker_run_def not_before_def)
qed (rule client_inv_step)

text \<open>C39. In every interleaving of queries and ticks of the clock: no more queries hold a slot than there are slots; the
  breaker has been told of exactly the failures of queries that reached Prometheus, so no query aborted in the queue,
  rejected or cut short by a sibling counts; the circuit is open exactly when the failures told since the last success
  reach the limit; and the query that holds the probe is never rejected.\<close>

theorem queries_bounded_and_counted:
  assumes "client_run (new_client m d sem start) ls s" "0 < m" "0 \<le> d" "1 \<le> start" "length (cl_calls s) < 2 ^ 63 - 1"
  shows "(\<forall>n. sem = Some n \<longrightarrow> how_many at_prometheus s \<le> n) \<and> told is_failure s = how_many (came_to QueryFailed) s \<and>
    (\<exists>b. cl_breaker s = Some b \<and> (openUntil b \<noteq> 0 \<longleftrightarrow> m \<le> streak (cl_calls s))) \<and> how_many probe_rejected s = 0"
proof -
  note inv = client_inv_new [OF assms(1)]
  have calls: "not_before start (cl_calls s)" and br: "cl_breaker s = breaker_run (cl_calls s) (Some (newBreaker m d))"
    using inv by (simp_all add: client_inv_def)
  have "case call_time e of None \<Rightarrow> True | Some u \<Rightarrow> start \<le> u \<longrightarrow> 1 \<le> u" for e
    using assms(4) by (simp split: option.split)
  then have "not_before 1 (cl_calls s)"
    using calls assms(4) by (fastforce simp: not_before_def list_all_iff split: option.splits)
  from breaker_opens_exactly_on_streak [OF assms(2,3) this assms(5)] br inv show ?thesis
    by (auto simp: client_inv_def)
qed

text \<open>Every query ends: each of its steps brings it nearer its end, and while one has not ended some query can move.\<close>

fun steps_left :: "query_phase \<Rightarrow> nat" where
  "steps_left (Waiting _) = 4"
| "steps_left (Holding _) = 3"
| "steps_left (Asking _) = 2"
| "steps_left (Leaving _ _) = 1"
| "steps_left (Ended _ _) = 0"

definition pending :: "client_state \<Rightarrow> nat" where
  "pending s = (\<Sum>ph \<leftarrow> cl_queries s. steps_left ph)"

lemma pending_set:
  assumes "g < length (cl_queries s)" "cl_queries s ! g = old" "steps_left new < steps_left old"
  shows "pending (set_phase g new s) < pending s"
proof -
  have "(\<Sum>ph \<leftarrow> xs[i := new]. steps_left ph) < (\<Sum>ph \<leftarrow> xs. steps_left ph)" if "i < length xs" "xs ! i = old" for xs i
    using that
  proof (induction xs arbitrary: i)
    case (Cons x xs)
    then show ?case using assms(3) by (cases i) simp_all
  qed simp
  from this [OF assms(1,2)] show ?thesis by (simp add: pending_def set_phase_def)
qed

lemma pending_fields [simp]:
  "pending (s\<lparr>cl_inflight := k\<rparr>) = pending s" "pending (call_breaker e s) = pending s"
  by (simp_all add: pending_def)

lemma pending_step:
  assumes "client_step s l s'" "l \<noteq> Starts" "l \<noteq> Ticks"
  shows "pending s' < pending s"
  using assms(1)
proof (cases rule: client_step.cases)
  case (takes g probe n)
  then show ?thesis using pending_set [of g "s\<lparr>cl_inflight := cl_inflight s + 1\<rparr>" "Waiting probe" "Holding probe"] by (simp add: take_slot_def)
next
  case (gives_up g probe)
  then show ?thesis using pending_set [of g s] by (simp add: give_up_def)
next
  case (rechecks g probe)
  then show ?thesis
    using pending_set [of g "s\<lparr>cl_inflight := cl_inflight s - 1\<rparr>" "Holding probe"] pending_set [of g s "Holding probe"] by (simp add: recheck_def)
next
  case (answered g probe a)
  have "pending (record_answer a s) = pending s" "cl_queries (record_answer a s) = cl_queries s" using recorded [of a s] by auto
  then show ?thesis
    using answered pending_set [of g "record_answer a s" "Asking probe" "Leaving probe (answer_end a)"] by (simp add: answer_query_def)
next
  case (leaves g probe e)
  then show ?thesis
    using pending_set [of g "s\<lparr>cl_inflight := cl_inflight s - 1\<rparr>" "Leaving probe e"] pending_set [of g s "Leaving probe e"]
    by (simp add: release_slot_def)
qed (use assms(2,3) in simp_all)

lemma pending_moves:
  assumes "0 < pending s"
  shows "\<exists>l s'. client_step s l s' \<and> l \<noteq> Starts \<and> l \<noteq> Ticks"
proof -
  obtain g where g: "g < length (cl_queries s)" "0 < steps_left (cl_queries s ! g)"
    using assms by (auto simp: pending_def sum_list_eq_0_iff in_set_conv_nth simp flip: neq0_conv)
  then show ?thesis
    by (cases "cl_queries s ! g") (use client_step.intros in \<open>fastforce+\<close>)
qed

section \<open>Keys and attribution\<close>

text \<open>The key a sample of \<open>QueryByLabels\<close> is found under splits back into its labels, which \<open>health_each\<close> relies on.\<close>

lemma join_then_split:
  assumes "vs \<noteq> []" "\<forall>v \<in> set vs. CHR ''|'' \<notin> set v"
  shows "split_at (CHR ''|'') (join_with (CHR ''|'') vs) = vs"
  using assms by (induction "CHR ''|''" vs rule: join_with.induct) (simp_all add: split_at_append split_at_last)

text \<open>A sample is attributed only with all four labels, and to the identity they name.\<close>

lemma attributed_by_labels:
  assumes "(i, smp) \<in> set (shardSamples vec)"
  shows "\<exists>s \<in> set vec. label_values [''namespace'', ''owner_kind'', ''owner_name'', ''container''] (lb_Metric s) =
      Some [id_Namespace i, OwnerKind i, OwnerName i, ss_Container smp] \<and> ss_Value smp = lb_Value s"
proof -
  obtain s where s: "s \<in> set vec" "attribute (lb_Metric s) = Some (i, ss_Container smp)" "ss_Value smp = lb_Value s"
    using assms by (auto simp: shardSamples_def split: option.splits)
  then have "label_values [''namespace'', ''owner_kind'', ''owner_name'', ''container''] (lb_Metric s) =
      Some [id_Namespace i, OwnerKind i, OwnerName i, ss_Container smp]"
    by (auto simp: attribute_def label_values_def Let_def split: if_splits)
  then show ?thesis using s by blast
qed

section \<open>Witness\<close>

text \<open>Two slots and one failure allowed: the first query fails and opens the circuit, the second is rejected.\<close>

lemma start_query_asks:
  "cl_calls (start_query s) = cl_calls s @ [Allow (cl_now s)]" "how_many (came_to QueryFailed) (start_query s) = how_many (came_to QueryFailed) s"
  by (simp_all add: start_query_def how_many_def split: prod.split)

theorem queries_bounded_and_counted_witness:
  "\<exists>ls s. client_run (new_client 1 10 (Some 2) 5) ls s \<and> how_many (came_to QueryFailed) s = 1 \<and> told is_failure s = 1 \<and>
     how_many at_prometheus s \<le> 2"
proof -
  let ?c = "new_client 1 10 (Some 2) 5"
  let ?s1 = "start_query ?c"
  let ?s2 = "take_slot 0 False ?s1"
  let ?s3 = "recheck 0 False ?s2"
  let ?s4 = "answer_query 0 False (QueryError StillOpen) ?s3"
  let ?s5 = "start_query ?s4"
  have start: "allow 5 (Some (newBreaker 1 10)) = ((True, False), Some (newBreaker 1 10))"
    by (simp add: allow_def disabled_def newBreaker_def)
  have q: "cl_queries ?s1 = [Waiting False]" "cl_sem ?s1 = Some 2" "cl_inflight ?s1 = 0" "cl_breaker ?s1 = Some (newBreaker 1 10)" "cl_calls ?s1 = [Allow 5]" "cl_now ?s1 = 5"
    by (simp_all add: start_query_def new_client_def start call_breaker_def)
  have q3: "cl_queries ?s3 = [Asking False]" "cl_breaker ?s3 = Some (newBreaker 1 10)" "cl_calls ?s3 = [Allow 5]" "cl_now ?s3 = 5" "cl_sem ?s3 = Some 2"
    by (simp_all add: recheck_def take_slot_def set_phase_def q isOpen_def newBreaker_def)
  have q2: "cl_queries ?s2 = [Holding False]" by (simp add: take_slot_def set_phase_def q)
  have r1: "client_run ?c [Starts] ?s1" using client_run.more [OF client_run.none client_step.starts, of ?c] by simp
  have r2: "client_run ?c ([Starts] @ [TakesSlot 0]) ?s2" by (rule client_run.more [OF r1 client_step.takes [where n = 2]]) (simp_all add: q)
  have r3: "client_run ?c (([Starts] @ [TakesSlot 0]) @ [Rechecks 0]) ?s3" by (rule client_run.more [OF r2 client_step.rechecks]) (simp_all add: q2)
  have r4: "client_run ?c ((([Starts] @ [TakesSlot 0]) @ [Rechecks 0]) @ [IsAnswered 0]) ?s4"
    by (rule client_run.more [OF r3 client_step.answered]) (simp_all add: q3)
  have r5: "client_run ?c (((([Starts] @ [TakesSlot 0]) @ [Rechecks 0]) @ [IsAnswered 0]) @ [Starts]) ?s5"
    by (rule client_run.more [OF r4 client_step.starts])
  have q4: "cl_queries ?s4 = [Leaving False QueryFailed]" "cl_calls ?s4 = [Allow 5, Failure 5]"
    by (simp_all add: answer_query_def set_phase_def q3)
  have calls: "length (cl_calls ?s5) < 2 ^ 63 - 1" by (simp only: start_query_asks q4) simp
  have failed: "how_many (came_to QueryFailed) ?s5 = 1" by (simp only: start_query_asks) (simp add: how_many_def q4)
  from queries_bounded_and_counted [OF r5 _ _ _ calls] failed show ?thesis using r5 by auto
qed

end
