(* ===== verification/Transport.thy ===== *)
theory Transport
  imports Errors
begin

text \<open>
  How requests reach Prometheus (\<open>internal/prometheus/transport.go\<close>): which configurations are accepted, and what an
  accepted one puts on every request.

  A request is its headers, by canonical name, and the configured headers are visited in the order of their list. What
  reads a file, checks a header (\<open>httpguts\<close>), encodes Base64 and parses certificates is an argument; text read from a
  file is trimmed of the white space of ASCII.
\<close>

section \<open>Configuration\<close>

record tls_config =
  tls_CAFile :: string
  tls_CertFile :: string
  tls_KeyFile :: string
  tls_ServerName :: string
  tls_InsecureSkipVerify :: bool

record transport_config =
  BearerToken :: string
  BearerTokenFile :: string
  BasicAuthUsername :: string
  BasicAuthPassword :: string
  BasicAuthPasswordFile :: string
  tc_Headers :: str_map
  tc_TLS :: tls_config

record 'cert transport_env =
  te_ReadFile :: "string \<Rightarrow> go_error + string"
  te_ValidName :: "string \<Rightarrow> bool"
  te_ValidValue :: "string \<Rightarrow> bool"
  te_Base64 :: "string \<Rightarrow> string"
  te_SystemPool :: "'cert list option"
  te_ParsePEM :: "string \<Rightarrow> 'cert list"
  te_LoadKeyPair :: "string \<Rightarrow> string \<Rightarrow> go_error + 'cert"

definition no_tls :: tls_config where
  "no_tls = \<lparr> tls_CAFile = [], tls_CertFile = [], tls_KeyFile = [], tls_ServerName = [], tls_InsecureSkipVerify = False \<rparr>"

definition hasTLS :: "transport_config \<Rightarrow> bool" where
  "hasTLS t \<longleftrightarrow> tc_TLS t \<noteq> no_tls"

definition isZero :: "transport_config \<Rightarrow> bool" where
  "isZero t \<longleftrightarrow> BearerToken t = [] \<and> BearerTokenFile t = [] \<and> BasicAuthUsername t = [] \<and> BasicAuthPassword t = [] \<and>
     BasicAuthPasswordFile t = [] \<and> tc_Headers t = [] \<and> tc_TLS t = no_tls"

section \<open>Headers\<close>

definition blank :: "char \<Rightarrow> bool" where
  "blank c \<longleftrightarrow> of_char c \<in> {9, 10, 11, 12, 13, 32 :: nat}"

definition trim_blank :: "string \<Rightarrow> string" where
  "trim_blank s = rev (dropWhile blank (rev (dropWhile blank s)))"

text \<open>A byte of a token (RFC 9110), and \<open>http.CanonicalHeaderKey\<close>: a name with any other byte is left as it is.\<close>

definition token_char :: "char \<Rightarrow> bool" where
  "token_char c \<longleftrightarrow> (let n = (of_char c :: nat) in 48 \<le> n \<and> n \<le> 57 \<or> 65 \<le> n \<and> n \<le> 90 \<or> 97 \<le> n \<and> n \<le> 122 \<or>
     c \<in> set ''!#$%&*+-.^_`|~'' \<or> n = 39)"

definition upper_char :: "char \<Rightarrow> char" where
  "upper_char c = (let n = (of_char c :: nat) in if 97 \<le> n \<and> n \<le> 122 then char_of (n - 32) else c)"

definition lower_ascii :: "char \<Rightarrow> char" where
  "lower_ascii c = (let n = (of_char c :: nat) in if 65 \<le> n \<and> n \<le> 90 then char_of (n + 32) else c)"

fun canonical_from :: "bool \<Rightarrow> string \<Rightarrow> string" where
  "canonical_from up [] = []"
| "canonical_from up (c # cs) = (if up then upper_char c else lower_ascii c) # canonical_from (c = CHR ''-'') cs"

definition CanonicalHeaderKey :: "string \<Rightarrow> string" where
  "CanonicalHeaderKey name = (if list_all token_char name then canonical_from True name else name)"

definition header_Set :: "string \<Rightarrow> string \<Rightarrow> str_map \<Rightarrow> str_map" where
  "header_Set name value h = AList.update (CanonicalHeaderKey name) value h"

definition authHeader :: string where "authHeader = ''Authorization''"

section \<open>Accepting a configuration\<close>

definition bearer :: "transport_config \<Rightarrow> bool" where
  "bearer t \<longleftrightarrow> BearerToken t \<noteq> [] \<or> BearerTokenFile t \<noteq> []"

definition basic :: "transport_config \<Rightarrow> bool" where
  "basic t \<longleftrightarrow> BasicAuthUsername t \<noteq> []"

text \<open>The rule a header breaks. The four are checked in order, for each header in turn.\<close>

definition header_error :: "'cert transport_env \<Rightarrow> transport_config \<Rightarrow> string \<times> string \<Rightarrow> string option" where
  "header_error V t h =
     (if trim_blank (fst h) = [] then Some ''empty header name''
      else if \<not> te_ValidName V (fst h) then Some ''invalid header name''
      else if \<not> te_ValidValue V (snd h) then Some ''invalid value''
      else if CanonicalHeaderKey (fst h) = authHeader \<and> (bearer t \<or> basic t) then Some ''conflicts''
      else None)"

definition transport_validate :: "'cert transport_env \<Rightarrow> transport_config \<Rightarrow> string option" where
  "transport_validate V t =
     (if BearerToken t \<noteq> [] \<and> BearerTokenFile t \<noteq> [] then Some ''bearer token and file''
      else if BasicAuthPassword t \<noteq> [] \<and> BasicAuthPasswordFile t \<noteq> [] then Some ''password and file''
      else if bearer t \<and> basic t then Some ''bearer and basic''
      else if \<not> basic t \<and> (BasicAuthPassword t \<noteq> [] \<or> BasicAuthPasswordFile t \<noteq> []) then Some ''password without a username''
      else case List.map_filter (header_error V t) (tc_Headers t) of
             err # _ \<Rightarrow> Some err
           | [] \<Rightarrow> if (tls_CertFile (tc_TLS t) = []) \<noteq> (tls_KeyFile (tc_TLS t) = []) then Some ''cert and key'' else None)"

definition readSecretFile :: "'cert transport_env \<Rightarrow> string \<Rightarrow> go_error + string" where
  "readSecretFile V path = (case te_ReadFile V path of Inl err \<Rightarrow> Inl err | Inr b \<Rightarrow> Inr (trim_blank b))"

section \<open>TLS\<close>

record 'cert tls_settings =
  ts_ServerName :: string
  ts_InsecureSkipVerify :: bool
  ts_RootCAs :: "'cert list option"
  ts_ClientPair :: "(string \<times> string) option"

definition buildTLSConfig :: "'cert transport_env \<Rightarrow> tls_config \<Rightarrow> go_error + 'cert tls_settings" where
  "buildTLSConfig V cfg =
     (let roots = (if tls_CAFile cfg = [] then Inr None
                   else let pool = (case te_SystemPool V of None \<Rightarrow> [] | Some p \<Rightarrow> p)
                        in case te_ReadFile V (tls_CAFile cfg) of
                             Inl err \<Rightarrow> Inl (Wrap err)
                           | Inr pem \<Rightarrow> if te_ParsePEM V pem = [] then Inl (Plain ''no valid PEM certificate'')
                                        else Inr (Some (pool @ te_ParsePEM V pem)))
      in case roots of
           Inl err \<Rightarrow> Inl err
         | Inr cas \<Rightarrow>
             let out = \<lparr> ts_ServerName = tls_ServerName cfg, ts_InsecureSkipVerify = tls_InsecureSkipVerify cfg, ts_RootCAs = cas, ts_ClientPair = None \<rparr>
             in if tls_CertFile cfg = [] then Inr out
                else case te_LoadKeyPair V (tls_CertFile cfg) (tls_KeyFile cfg) of
                       Inl err \<Rightarrow> Inl (Wrap err)
                     | Inr _ \<Rightarrow> Inr (out\<lparr>ts_ClientPair := Some (tls_CertFile cfg, tls_KeyFile cfg)\<rparr>))"

section \<open>The round tripper\<close>

text \<open>The transport below the credentials: the library's default, or its clone with TLS settings.\<close>

record 'cert auth_round_tripper =
  at_Base :: "'cert tls_settings option"
  at_Config :: transport_config

definition baseRoundTripper :: "'cert transport_env \<Rightarrow> transport_config \<Rightarrow> go_error + 'cert tls_settings option" where
  "baseRoundTripper V cfg =
     (if \<not> hasTLS cfg then Inr None
      else case buildTLSConfig V (tc_TLS cfg) of Inl err \<Rightarrow> Inl err | Inr t \<Rightarrow> Inr (Some t))"

definition secret_error :: "'cert transport_env \<Rightarrow> string \<Rightarrow> go_error option" where
  "secret_error V path = (if path = [] then None else case readSecretFile V path of Inl err \<Rightarrow> Some (Wrap err) | Inr _ \<Rightarrow> None)"

definition newTransportRoundTripper :: "'cert transport_env \<Rightarrow> transport_config \<Rightarrow> go_error + 'cert auth_round_tripper option" where
  "newTransportRoundTripper V cfg =
     (if isZero cfg then Inr None
      else case transport_validate V cfg of
             Some err \<Rightarrow> Inl (Wrap (Plain err))
           | None \<Rightarrow>
               (case secret_error V (BearerTokenFile cfg) of
                  Some err \<Rightarrow> Inl err
                | None \<Rightarrow>
                    (case secret_error V (BasicAuthPasswordFile cfg) of
                       Some err \<Rightarrow> Inl err
                     | None \<Rightarrow>
                         (case baseRoundTripper V cfg of
                            Inl err \<Rightarrow> Inl err
                          | Inr base \<Rightarrow> Inr (Some \<lparr> at_Base = base, at_Config = cfg \<rparr>)))))"

text \<open>\<open>explicit\<close> is the transport of \<open>WithRoundTripper\<close>, \<open>configured\<close> whether \<open>WithTransportConfig\<close> was used.\<close>

definition resolveRoundTripper ::
  "'cert transport_env \<Rightarrow> 'rt option \<Rightarrow> bool \<Rightarrow> transport_config \<Rightarrow> go_error + ('rt + 'cert auth_round_tripper option)" where
  "resolveRoundTripper V explicit configured cfg =
     (case explicit of
        Some rt \<Rightarrow> if configured then Inl (Plain ''mutually exclusive'') else Inr (Inl rt)
      | None \<Rightarrow> (case newTransportRoundTripper V cfg of Inl err \<Rightarrow> Inl (Wrap err) | Inr rt \<Rightarrow> Inr (Inr rt)))"

text \<open>The credential a request carries: none, the value of its header, or the error of the file it is in.\<close>

definition credential :: "'cert transport_env \<Rightarrow> transport_config \<Rightarrow> go_error + string option" where
  "credential V cfg =
     (if BearerToken cfg \<noteq> [] then Inr (Some (''Bearer '' @ BearerToken cfg))
      else if BearerTokenFile cfg \<noteq> []
      then (case readSecretFile V (BearerTokenFile cfg) of Inl err \<Rightarrow> Inl (Wrap err) | Inr token \<Rightarrow> Inr (Some (''Bearer '' @ token)))
      else if BasicAuthUsername cfg \<noteq> []
      then (case (if BasicAuthPasswordFile cfg \<noteq> [] then readSecretFile V (BasicAuthPasswordFile cfg) else Inr (BasicAuthPassword cfg)) of
              Inl err \<Rightarrow> Inl (Wrap err)
            | Inr password \<Rightarrow> Inr (Some (''Basic '' @ te_Base64 V (BasicAuthUsername cfg @ '':'' @ password))))
      else Inr None)"

text \<open>\<open>RoundTrip\<close>: the headers of the clone handed to the transport below, or the error that stops it.\<close>

definition RoundTrip :: "'cert transport_env \<Rightarrow> transport_config \<Rightarrow> str_map \<Rightarrow> go_error + str_map" where
  "RoundTrip V cfg req =
     (let r = fold (\<lambda>(name, value). header_Set name value) (tc_Headers cfg) req
      in case credential V cfg of
           Inl err \<Rightarrow> Inl err
         | Inr None \<Rightarrow> Inr r
         | Inr (Some value) \<Rightarrow> Inr (header_Set authHeader value r))"

section \<open>What is sent\<close>

lemma canonical_authHeader [simp]: "CanonicalHeaderKey authHeader = authHeader"
  by code_simp

lemma fold_header_Set:
  assumes "distinct (map (\<lambda>h. CanonicalHeaderKey (fst h)) hs)"
  shows "map_of (fold (\<lambda>(name, value). header_Set name value) hs req) n =
    (case map_of (map (\<lambda>(name, value). (CanonicalHeaderKey name, value)) hs) n of Some v \<Rightarrow> Some v | None \<Rightarrow> map_of req n)"
  using assms
proof (induction hs arbitrary: req)
  case (Cons h hs)
  obtain name v where h: "h = (name, v)" by (cases h)
  have "map_of (map (\<lambda>(name, value). (CanonicalHeaderKey name, value)) hs) (CanonicalHeaderKey name) = None"
    using Cons.prems by (auto simp: h map_of_eq_None_iff image_image case_prod_unfold)
  then show ?case using Cons by (auto simp: h header_Set_def update_conv' split: option.split)
qed simp

lemma validated_no_auth_header:
  assumes "transport_validate V t = None" "bearer t \<or> basic t" "h \<in> set (tc_Headers t)"
  shows "CanonicalHeaderKey (fst h) \<noteq> authHeader"
proof
  assume auth: "CanonicalHeaderKey (fst h) = authHeader"
  have "List.map_filter (header_error V t) (tc_Headers t) = []"
    using assms(1) by (auto simp: transport_validate_def split: if_splits list.splits)
  then have "header_error V t h = None" using assms(3) by (auto simp: List.map_filter_def filter_empty_conv)
  then show False using auth assms(2) by (auto simp: header_error_def split: if_splits)
qed

text \<open>What a request carries under an accepted configuration: every configured header verbatim, the credential the
  configuration names and no other where it names one, and the request's own headers under every other name; when a
  credential's file cannot be read nothing is sent.\<close>

theorem request_carries_configuration:
  assumes "transport_validate V cfg = None" "distinct (map (\<lambda>h. CanonicalHeaderKey (fst h)) (tc_Headers cfg))"
  shows "case credential V cfg of
      Inl err \<Rightarrow> RoundTrip V cfg req = Inl err
    | Inr cred \<Rightarrow> \<exists>sent. RoundTrip V cfg req = Inr sent \<and>
        (\<forall>(name, value) \<in> set (tc_Headers cfg). map_of sent (CanonicalHeaderKey name) = Some value) \<and>
        (\<forall>value. cred = Some value \<longrightarrow> map_of sent authHeader = Some value) \<and>
        (\<forall>n. n \<notin> CanonicalHeaderKey ` fst ` set (tc_Headers cfg) \<longrightarrow> (cred = None \<or> n \<noteq> authHeader) \<longrightarrow> map_of sent n = map_of req n)"
proof (cases "credential V cfg")
  case (Inr cred)
  let ?r = "fold (\<lambda>(name, value). header_Set name value) (tc_Headers cfg) req"
  let ?hs = "map (\<lambda>(name, value). (CanonicalHeaderKey name, value)) (tc_Headers cfg)"
  have r: "map_of ?r n = (case map_of ?hs n of Some v \<Rightarrow> Some v | None \<Rightarrow> map_of req n)" for n by (rule fold_header_Set [OF assms(2)])
  have keys: "distinct (map fst ?hs)" using assms(2) by (simp add: comp_def case_prod_unfold)
  have own: "map_of ?hs (CanonicalHeaderKey name) = Some v" if "(name, v) \<in> set (tc_Headers cfg)" for name v
    using that by (intro map_of_is_SomeI [OF keys]) force
  have other: "map_of ?hs n = None" if "n \<notin> CanonicalHeaderKey ` fst ` set (tc_Headers cfg)" for n
    using that by (force simp: map_of_eq_None_iff)
  show ?thesis
  proof (cases cred)
    case None
    then show ?thesis using Inr own other by (auto simp: RoundTrip_def r)
  next
    case (Some v)
    then have "bearer cfg \<or> basic cfg" using Inr by (auto simp: credential_def bearer_def basic_def split: if_splits)
    then have "CanonicalHeaderKey (fst h) \<noteq> authHeader" if "h \<in> set (tc_Headers cfg)" for h
      by (rule validated_no_auth_header [OF assms(1) _ that])
    then show ?thesis
      using Inr Some own other by (force simp: RoundTrip_def header_Set_def update_conv' r)
  qed
qed (simp add: RoundTrip_def)

theorem request_carries_configuration_witness:
  "\<exists>sent. RoundTrip \<lparr> te_ReadFile = (\<lambda>_. Inr ''s3cret ''), te_ValidName = (\<lambda>_. True), te_ValidValue = (\<lambda>_. True), te_Base64 = id,
        te_SystemPool = None, te_ParsePEM = (\<lambda>_. []), te_LoadKeyPair = (\<lambda>_ _. Inr ()) \<rparr>
      \<lparr> BearerToken = [], BearerTokenFile = ''/token'', BasicAuthUsername = [], BasicAuthPassword = [], BasicAuthPasswordFile = [],
        tc_Headers = [(''x-scope-orgid'', ''tenant-a'')], tc_TLS = no_tls \<rparr> [(''Accept'', ''json'')] = Inr sent \<and>
     map_of sent ''X-Scope-Orgid'' = Some ''tenant-a'' \<and> map_of sent ''Authorization'' = Some ''Bearer s3cret'' \<and>
     map_of sent ''Accept'' = Some ''json''"
proof -
  let ?V = "\<lparr> te_ReadFile = (\<lambda>_. Inr ''s3cret ''), te_ValidName = (\<lambda>_. True), te_ValidValue = (\<lambda>_. True), te_Base64 = id,
        te_SystemPool = None, te_ParsePEM = (\<lambda>_. []), te_LoadKeyPair = (\<lambda>_ _. Inr ()) \<rparr> :: unit transport_env"
  let ?cfg = "\<lparr> BearerToken = [], BearerTokenFile = ''/token'', BasicAuthUsername = [], BasicAuthPassword = [], BasicAuthPasswordFile = [],
        tc_Headers = [(''x-scope-orgid'', ''tenant-a'')], tc_TLS = no_tls \<rparr>"
  have key: "CanonicalHeaderKey ''x-scope-orgid'' = ''X-Scope-Orgid''" by code_simp
  have "transport_validate ?V ?cfg = None" by code_simp
  moreover have "credential ?V ?cfg = Inr (Some ''Bearer s3cret'')" by code_simp
  ultimately obtain sent where "RoundTrip ?V ?cfg [(''Accept'', ''json'')] = Inr sent"
    "\<forall>(name, value) \<in> set (tc_Headers ?cfg). map_of sent (CanonicalHeaderKey name) = Some value"
    "map_of sent authHeader = Some ''Bearer s3cret''"
    "\<forall>n. n \<notin> CanonicalHeaderKey ` fst ` set (tc_Headers ?cfg) \<longrightarrow> n \<noteq> authHeader \<longrightarrow> map_of sent n = map_of [(''Accept'', ''json'')] n"
    using request_carries_configuration [of ?V ?cfg "[(''Accept'', ''json'')]"] by (auto simp del: map_of.simps)
  then show ?thesis by (intro exI [of _ sent]) (simp add: key authHeader_def)
qed

end
