(* ===== verification/Config.thy ===== *)
theory Config
  imports Transport WlrCache
begin

text \<open>
  What each binary is configured with (\<open>internal/config/config.go\<close>): the settings every one reads alike, the Prometheus
  connection, and the checks a load makes. The flag, environment and file values are what the configuration library
  (viper) answers for a key; binding flags to keys is left to it.
\<close>

text \<open>A list is read as one string when it comes from the environment.\<close>

datatype raw_list = RawString string | RawList "string list"

record viper =
  vp_String :: "string \<Rightarrow> string"
  vp_Bool :: "string \<Rightarrow> bool"
  vp_Int :: "string \<Rightarrow> int"
  vp_Duration :: "string \<Rightarrow> duration"
  vp_List :: "string \<Rightarrow> raw_list"

record cluster_scope =
  cs_RecommendOnly :: bool
  cs_ExcludedNamespaces :: "string list"

record prometheus_connection =
  pn_Address :: string
  pn_Transport :: transport_config

record controller_config = cluster_scope +
  cc_Prometheus :: prometheus_connection
  cc_MetricsBindAddress :: string
  cc_HealthProbeBindAddress :: string
  cc_LeaderElect :: bool
  cc_LeaderElectionID :: string
  cc_LogLevel :: string
  cc_ReconcileInterval :: duration
  cc_WorkloadConcurrencyLimit :: int
  cc_PolicyConcurrencyLimit :: int
  cc_PrometheusMaxInflight :: int
  cc_RecycleReplacementTimeout :: duration
  cc_RecommendationRetention :: duration
  cc_QueryShardMaxSamples :: int

record webhook_config = cluster_scope +
  wc_TLSCertFile :: string
  wc_TLSKeyFile :: string
  wc_Port :: int
  wc_LogLevel :: string

record dashboard_config = cluster_scope +
  dc_Prometheus :: prometheus_connection
  dc_BindAddress :: string
  dc_LogLevel :: string
  dc_CORSAllowedOrigins :: "string list"

text \<open>\<open>strings.Split\<close> at a comma, and \<open>strings.Cut\<close> at the first equals sign.\<close>

fun split_comma :: "string \<Rightarrow> string list" where
  "split_comma [] = [[]]"
| "split_comma (c # cs) =
     (if c = CHR '','' then [] # split_comma cs
      else case split_comma cs of [] \<Rightarrow> [[c]] | h # t \<Rightarrow> (c # h) # t)"

fun cut_equals :: "string \<Rightarrow> (string \<times> string) option" where
  "cut_equals [] = None"
| "cut_equals (c # cs) =
     (if c = CHR ''='' then Some ([], cs)
      else case cut_equals cs of None \<Rightarrow> None | Some (a, b) \<Rightarrow> Some (c # a, b))"

definition getStringSlice :: "viper \<Rightarrow> string \<Rightarrow> string list" where
  "getStringSlice v key =
     (case vp_List v key of
        RawList xs \<Rightarrow> xs
      | RawString raw \<Rightarrow> filter (\<lambda>p. p \<noteq> []) (map trim_blank (split_comma raw)))"

fun parse_entries :: "string list \<Rightarrow> str_map \<Rightarrow> string + str_map" where
  "parse_entries [] out = Inr out"
| "parse_entries (entry # entries) out =
     (case cut_equals entry of
        None \<Rightarrow> Inl entry
      | Some (name, val) \<Rightarrow>
          if trim_blank name = [] then Inl entry
          else parse_entries entries (AList.update (trim_blank name) (trim_blank val) out))"

definition parseHeaders :: "string list \<Rightarrow> string + str_map" where
  "parseHeaders entries = parse_entries entries []"

definition loadClusterScope :: "viper \<Rightarrow> cluster_scope" where
  "loadClusterScope v = \<lparr> cs_RecommendOnly = vp_Bool v ''recommend-only'', cs_ExcludedNamespaces = getStringSlice v ''excluded-namespaces'' \<rparr>"

definition loadPrometheusConnection :: "viper \<Rightarrow> go_error + prometheus_connection" where
  "loadPrometheusConnection v =
     (case parseHeaders (getStringSlice v ''prometheus-headers'') of
        Inl entry \<Rightarrow> Inl (Plain ''invalid --prometheus-headers'')
      | Inr headers \<Rightarrow>
          Inr \<lparr> pn_Address = vp_String v ''prometheus-address'',
                pn_Transport =
                  \<lparr> BearerToken = vp_String v ''prometheus-bearer-token'', BearerTokenFile = vp_String v ''prometheus-bearer-token-file'',
                    BasicAuthUsername = vp_String v ''prometheus-basic-auth-username'',
                    BasicAuthPassword = vp_String v ''prometheus-basic-auth-password'',
                    BasicAuthPasswordFile = vp_String v ''prometheus-basic-auth-password-file'', tc_Headers = headers,
                    tc_TLS = \<lparr> tls_CAFile = vp_String v ''prometheus-tls-ca-file'', tls_CertFile = vp_String v ''prometheus-tls-cert-file'',
                      tls_KeyFile = vp_String v ''prometheus-tls-key-file'', tls_ServerName = vp_String v ''prometheus-tls-server-name'',
                      tls_InsecureSkipVerify = vp_Bool v ''prometheus-tls-insecure-skip-verify'' \<rparr> \<rparr> \<rparr>)"

definition LoadControllerConfig :: "viper \<Rightarrow> go_error + controller_config" where
  "LoadControllerConfig v =
     (case loadPrometheusConnection v of
        Inl err \<Rightarrow> Inl err
      | Inr prometheus \<Rightarrow>
          if vp_Duration v ''reconcile-interval'' \<le> 0 then Inl (Plain ''invalid --reconcile-interval'')
          else if vp_Duration v ''recommendation-retention'' \<le> 0 then Inl (Plain ''invalid --recommendation-retention'')
          else Inr (cluster_scope.extend (loadClusterScope v)
                 \<lparr> cc_Prometheus = prometheus, cc_MetricsBindAddress = vp_String v ''metrics-bind-address'',
                   cc_HealthProbeBindAddress = vp_String v ''health-probe-bind-address'', cc_LeaderElect = vp_Bool v ''leader-elect'',
                   cc_LeaderElectionID = vp_String v ''leader-election-id'', cc_LogLevel = vp_String v ''log-level'',
                   cc_ReconcileInterval = vp_Duration v ''reconcile-interval'',
                   cc_WorkloadConcurrencyLimit = vp_Int v ''workload-concurrency-limit'',
                   cc_PolicyConcurrencyLimit = vp_Int v ''policy-concurrency-limit'', cc_PrometheusMaxInflight = vp_Int v ''prometheus-max-inflight'',
                   cc_RecycleReplacementTimeout = vp_Duration v ''recycle-replacement-timeout'',
                   cc_RecommendationRetention = vp_Duration v ''recommendation-retention'',
                   cc_QueryShardMaxSamples = vp_Int v ''query-shard-max-samples'' \<rparr>))"

definition LoadWebhookConfig :: "viper \<Rightarrow> webhook_config" where
  "LoadWebhookConfig v =
     cluster_scope.extend (loadClusterScope v)
       \<lparr> wc_TLSCertFile = vp_String v ''webhook.tls-cert-file'', wc_TLSKeyFile = vp_String v ''webhook.tls-key-file'',
         wc_Port = vp_Int v ''webhook.port'', wc_LogLevel = vp_String v ''webhook.log-level'' \<rparr>"

definition LoadDashboardConfig :: "viper \<Rightarrow> go_error + dashboard_config" where
  "LoadDashboardConfig v =
     (case loadPrometheusConnection v of
        Inl err \<Rightarrow> Inl err
      | Inr prometheus \<Rightarrow>
          Inr (cluster_scope.extend (loadClusterScope v)
            \<lparr> dc_Prometheus = prometheus, dc_BindAddress = vp_String v ''dashboard.bind-address'',
              dc_LogLevel = vp_String v ''dashboard.log-level'',
              dc_CORSAllowedOrigins = getStringSlice v ''dashboard.cors-allowed-origins'' \<rparr>))"

section \<open>The binaries agree\<close>

text \<open>Whatever the settings, a controller and a dashboard that start have the cluster scope of the webhook and one Prometheus
  connection; neither starts with a header it could not read, nor the controller with an interval or a retention that
  would make nothing servable.\<close>

lemma binaries_agree:
  assumes "LoadControllerConfig v = Inr c" "LoadDashboardConfig v = Inr d"
  shows "cluster_scope.truncate c = cluster_scope.truncate (LoadWebhookConfig v) \<and>
    cluster_scope.truncate d = cluster_scope.truncate (LoadWebhookConfig v) \<and> cc_Prometheus c = dc_Prometheus d \<and>
    0 < cc_ReconcileInterval c \<and> 0 < cc_RecommendationRetention c \<and>
    (\<exists>hs. parseHeaders (getStringSlice v ''prometheus-headers'') = Inr hs \<and> tc_Headers (pn_Transport (cc_Prometheus c)) = hs)"
  using assms
  by (auto simp: LoadControllerConfig_def LoadDashboardConfig_def LoadWebhookConfig_def loadPrometheusConnection_def
      cluster_scope.defs loadClusterScope_def split: sum.splits if_splits)

section \<open>Headers\<close>

text \<open>Only the first equals sign splits, so an entry is read back as its name and value, equals signs and all.\<close>

lemma cut_equals_append: "CHR ''='' \<notin> set name \<Longrightarrow> cut_equals (name @ CHR ''='' # val) = Some (name, val)"
  by (induction name) auto

lemma trim_blank_id: "(s = [] \<or> \<not> blank (hd s) \<and> \<not> blank (last s)) \<Longrightarrow> trim_blank s = s"
proof -
  have id: "xs = [] \<or> \<not> blank (hd xs) \<Longrightarrow> dropWhile blank xs = xs" for xs by (cases xs) simp_all
  assume "s = [] \<or> \<not> blank (hd s) \<and> \<not> blank (last s)"
  then show ?thesis using id [of s] id [of "rev s"] by (auto simp: trim_blank_def hd_rev)
qed

lemma parseHeaders_entry:
  assumes "CHR ''='' \<notin> set name" "name \<noteq> []" "\<not> blank (hd name)" "\<not> blank (last name)"
    "val = [] \<or> \<not> blank (hd val) \<and> \<not> blank (last val)"
  shows "parse_entries ((name @ CHR ''='' # val) # entries) out = parse_entries entries (AList.update name val out)"
  using assms trim_blank_id [of name] trim_blank_id [of val] by (simp add: cut_equals_append)

end
