(* ===== verification/Web.thy ===== *)
theory Web
  imports Transport
begin

text \<open>
  The HTTP layer of the dashboard, and the certificate the webhook serves (\<open>internal/webhook/cert.go\<close>). The
  layer (\<open>internal/httpx/envelope.go\<close>, \<open>middleware.go\<close>, \<open>internal/dashboard/middleware.go\<close>) decides which origins may
  read an answer and the request identifier, and compresses what a handler writes.

  A response is its headers, the status once it is committed and the chunks of its body, compressed ones marked. A
  handler is what it does to its writer: it sets headers, commits a status, writes. As in \<open>net/http\<close>, writing commits a
  200 and a status after the first is ignored; headers are sent as they stand when the status is committed.
\<close>

section \<open>Envelopes and identifiers\<close>

definition ErrorCodeForStatus :: "int \<Rightarrow> string" where
  "ErrorCodeForStatus status =
     (if status = 400 then ''BAD_REQUEST'' else if status = 404 then ''NOT_FOUND''
      else if status = 405 then ''METHOD_NOT_ALLOWED'' else if status = 503 then ''SERVICE_UNAVAILABLE'' else ''INTERNAL'')"

text \<open>The identifier a request is answered under: its own, or the one generated.\<close>

definition WithRequestID :: "string \<Rightarrow> string \<Rightarrow> string" where
  "WithRequestID inbound generated = (if inbound = [] then generated else inbound)"

definition routeLabel :: "string option \<Rightarrow> string" where
  "routeLabel label = (case label of None \<Rightarrow> ''unknown'' | Some v \<Rightarrow> if v = [] then ''unknown'' else v)"

section \<open>Origins\<close>

type_synonym headers = "(string, string list) gomap"

definition get_header :: "headers \<Rightarrow> string \<Rightarrow> string" where
  "get_header h name = (case lookup_or [] h name of [] \<Rightarrow> [] | v # _ \<Rightarrow> v)"

definition add_header :: "string \<Rightarrow> string \<Rightarrow> headers \<Rightarrow> headers" where
  "add_header name v h = AList.update name (lookup_or [] h name @ [v]) h"

definition put_header :: "string \<Rightarrow> string \<Rightarrow> headers \<Rightarrow> headers" where
  "put_header name v h = AList.update name [v] h"

definition del_header :: "string \<Rightarrow> headers \<Rightarrow> headers" where
  "del_header name h = AList.delete name h"

definition allowed_origin :: "string list \<Rightarrow> string \<Rightarrow> string" where
  "allowed_origin origins reqOrigin =
     (if origins = [] then []
      else if origins = [''*''] then ''*''
      else if reqOrigin \<in> set origins then reqOrigin else [])"

definition cors_headers :: "string list \<Rightarrow> string \<Rightarrow> headers \<Rightarrow> headers" where
  "cors_headers origins reqOrigin h =
     (let origin = allowed_origin origins reqOrigin;
          h1 = (if reqOrigin \<noteq> [] \<and> origins \<noteq> [] then add_header ''Vary'' ''Origin'' h else h)
      in if origin = [] then h1
         else put_header ''Access-Control-Expose-Headers'' ''X-Request-Id''
             (put_header ''Access-Control-Allow-Headers'' ''Content-Type, X-Request-Id''
             (put_header ''Access-Control-Allow-Methods'' ''GET, POST, OPTIONS''
             (put_header ''Access-Control-Allow-Origin'' origin h1))))"

section \<open>Responses\<close>

datatype chunk = RawChunk string | GzipChunk string | GzipEnd

record response =
  re_Header :: headers
  re_Sent :: "(int \<times> headers) option"
  re_Body :: "chunk list"

definition fresh :: "headers \<Rightarrow> response" where
  "fresh h = \<lparr> re_Header = h, re_Sent = None, re_Body = [] \<rparr>"

text \<open>The writer below: \<open>net/http\<close>'s.\<close>

definition WriteHeader :: "int \<Rightarrow> response \<Rightarrow> response" where
  "WriteHeader status r = (if re_Sent r = None then r\<lparr>re_Sent := Some (status, re_Header r)\<rparr> else r)"

definition put_chunk :: "chunk \<Rightarrow> response \<Rightarrow> response" where
  "put_chunk c r = (let r1 = WriteHeader 200 r in r1\<lparr>re_Body := re_Body r1 @ [c]\<rparr>)"

section \<open>Compression\<close>

definition passthroughStatus :: "int \<Rightarrow> bool" where
  "passthroughStatus status \<longleftrightarrow> status = 204 \<or> status = 304 \<or> 100 \<le> status \<and> status < 200"

definition media_type :: "string \<Rightarrow> string" where
  "media_type ct =
     (let low = map lower_ascii ct
      in if CHR '';'' \<in> set low then trim_blank (takeWhile (\<lambda>c. c \<noteq> CHR '';'') low) else low)"

definition has_prefix :: "string \<Rightarrow> string \<Rightarrow> bool" where
  "has_prefix p s \<longleftrightarrow> take (length p) s = p"

definition alreadyCompressedType :: "string \<Rightarrow> bool" where
  "alreadyCompressedType ct =
     (let t = media_type ct
      in if has_prefix ''image/'' t then t \<noteq> ''image/svg+xml''
         else has_prefix ''video/'' t \<or> has_prefix ''audio/'' t \<or>
              t \<in> {''application/zip'', ''application/gzip'', ''application/x-gzip'', ''application/x-brotli'', ''application/x-7z-compressed''})"

record gzip_writer =
  gw_Response :: response
  gw_wroteHeader :: bool
  gw_passthrough :: bool

definition gzip_WriteHeader :: "int \<Rightarrow> gzip_writer \<Rightarrow> gzip_writer" where
  "gzip_WriteHeader status g =
     (let r = gw_Response g; h = re_Header r
      in if passthroughStatus status
         then \<lparr> gw_Response = WriteHeader status (r\<lparr>re_Header := del_header ''Content-Encoding'' h\<rparr>), gw_wroteHeader = True, gw_passthrough = True \<rparr>
         else if get_header h ''Content-Length'' = ''0'' \<or> get_header h ''Content-Encoding'' \<noteq> [] \<or>
                 alreadyCompressedType (get_header h ''Content-Type'')
         then \<lparr> gw_Response = WriteHeader status r, gw_wroteHeader = True, gw_passthrough = True \<rparr>
         else \<lparr> gw_Response = WriteHeader status (r\<lparr>re_Header := del_header ''Content-Length'' (add_header ''Vary'' ''Accept-Encoding''
                  (put_header ''Content-Encoding'' ''gzip'' h))\<rparr>),
                gw_wroteHeader = True, gw_passthrough = gw_passthrough g \<rparr>)"

definition gzip_Write :: "string \<Rightarrow> gzip_writer \<Rightarrow> gzip_writer" where
  "gzip_Write b g =
     (let g1 = (if gw_wroteHeader g then g else gzip_WriteHeader 200 g)
      in g1\<lparr>gw_Response := put_chunk (if gw_passthrough g1 then RawChunk b else GzipChunk b) (gw_Response g1)\<rparr>)"

datatype web_write = SetsHeader string string | Commits int | Writes string

fun plain_write :: "web_write \<Rightarrow> response \<Rightarrow> response" where
  "plain_write (SetsHeader name v) r = r\<lparr>re_Header := put_header name v (re_Header r)\<rparr>"
| "plain_write (Commits status) r = WriteHeader status r"
| "plain_write (Writes b) r = put_chunk (RawChunk b) r"

fun gzip_write :: "web_write \<Rightarrow> gzip_writer \<Rightarrow> gzip_writer" where
  "gzip_write (SetsHeader name v) g = g\<lparr>gw_Response := plain_write (SetsHeader name v) (gw_Response g)\<rparr>"
| "gzip_write (Commits status) g = gzip_WriteHeader status g"
| "gzip_write (Writes b) g = gzip_Write b g"

definition str_infix :: "string \<Rightarrow> string \<Rightarrow> bool" where
  "str_infix sub s \<longleftrightarrow> (\<exists>k \<in> set [0..<Suc (length s)]. has_prefix sub (drop k s))"

definition withGzip :: "string \<Rightarrow> web_write list \<Rightarrow> response \<Rightarrow> response" where
  "withGzip acceptEncoding handler w =
     (if \<not> str_infix ''gzip'' acceptEncoding then fold plain_write handler w
      else let g = fold gzip_write handler \<lparr> gw_Response = w, gw_wroteHeader = False, gw_passthrough = False \<rparr>
           in if gw_wroteHeader g \<and> \<not> gw_passthrough g
              then (gw_Response g)\<lparr>re_Body := re_Body (gw_Response g) @ [GzipEnd]\<rparr> else gw_Response g)"

section \<open>Compression is invisible\<close>

text \<open>What a client reads: under \<open>Content-Encoding: gzip\<close> a body of compressed chunks and their end, otherwise raw ones.\<close>

fun chunk_text :: "chunk \<Rightarrow> string" where
  "chunk_text (RawChunk b) = b"
| "chunk_text (GzipChunk b) = b"
| "chunk_text GzipEnd = []"

definition decoded :: "response \<Rightarrow> (int \<times> string) option" where
  "decoded r =
     (case re_Sent r of
        None \<Rightarrow> None
      | Some (status, h) \<Rightarrow>
          if get_header h ''Content-Encoding'' = ''gzip'' \<and> list_ex (\<lambda>c. case c of RawChunk _ \<Rightarrow> False | _ \<Rightarrow> True) (re_Body r)
          then if list_all (\<lambda>c. case c of GzipChunk _ \<Rightarrow> True | _ \<Rightarrow> False) (butlast (re_Body r)) \<and> last (re_Body r) = GzipEnd
               then Some (status, concat (map chunk_text (re_Body r))) else None
          else if list_all (\<lambda>c. case c of RawChunk _ \<Rightarrow> True | _ \<Rightarrow> False) (re_Body r)
          then Some (status, concat (map chunk_text (re_Body r))) else None)"

text \<open>A handler that sets its headers, commits one status at most, then writes.\<close>

definition orderly :: "(string \<times> string) list \<Rightarrow> int option \<Rightarrow> string list \<Rightarrow> web_write list" where
  "orderly hs status body =
     map (\<lambda>(n, v). SetsHeader n v) hs @ (case status of None \<Rightarrow> [] | Some s \<Rightarrow> [Commits s]) @ map Writes body"

lemma fold_plain_headers:
  "fold plain_write (map (\<lambda>(n, v). SetsHeader n v) hs) r = r\<lparr>re_Header := fold (\<lambda>(n, v). put_header n v) hs (re_Header r)\<rparr>"
  by (induction hs arbitrary: r) (simp_all add: case_prod_unfold)

lemma fold_gzip_headers:
  "fold gzip_write (map (\<lambda>(n, v). SetsHeader n v) hs) g =
   g\<lparr>gw_Response := (gw_Response g)\<lparr>re_Header := fold (\<lambda>(n, v). put_header n v) hs (re_Header (gw_Response g))\<rparr>\<rparr>"
  by (induction hs arbitrary: g) (simp_all add: case_prod_unfold)

lemma put_chunk_sent: "re_Sent r = Some x \<Longrightarrow> put_chunk c r = r\<lparr>re_Body := re_Body r @ [c]\<rparr>"
  by (simp add: put_chunk_def WriteHeader_def)

lemma fold_plain_writes:
  "re_Sent r = Some x \<Longrightarrow> fold plain_write (map Writes body) r = r\<lparr>re_Body := re_Body r @ map RawChunk body\<rparr>"
  by (induction body arbitrary: r) (simp_all add: put_chunk_sent)

lemma fold_gzip_writes:
  assumes "gw_wroteHeader g" "re_Sent (gw_Response g) = Some x"
  shows "fold gzip_write (map Writes body) g =
    g\<lparr>gw_Response := (gw_Response g)\<lparr>re_Body := re_Body (gw_Response g) @ map (if gw_passthrough g then RawChunk else GzipChunk) body\<rparr>\<rparr>"
  using assms
proof (induction body arbitrary: g)
  case (Cons b body)
  have "gzip_write (Writes b) g =
      g\<lparr>gw_Response := (gw_Response g)\<lparr>re_Body := re_Body (gw_Response g) @ [if gw_passthrough g then RawChunk b else GzipChunk b]\<rparr>\<rparr>"
    using Cons.prems by (simp add: gzip_Write_def Let_def put_chunk_sent)
  then show ?case using Cons.IH [of "gzip_write (Writes b) g"] Cons.prems by simp
qed simp

text \<open>An implicit status is a 200 committed just before the first write.\<close>

lemma implicit_status:
  "fold plain_write (Writes b # ws) r = fold plain_write (Commits 200 # Writes b # ws) r"
  "\<not> gw_wroteHeader g \<Longrightarrow> fold gzip_write (Writes b # ws) g = fold gzip_write (Commits 200 # Writes b # ws) g"
  by (cases "re_Sent r"; simp add: put_chunk_def WriteHeader_def) (simp add: gzip_Write_def gzip_WriteHeader_def Let_def)

lemma gzip_encoded [simp]:
  "get_header (del_header ''Content-Length'' (add_header ''Vary'' v (put_header ''Content-Encoding'' ''gzip'' h))) ''Content-Encoding'' = ''gzip''"
  by (simp add: get_header_def del_header_def add_header_def put_header_def lookup_or_def delete_conv' update_conv')

lemma committed_transparent:
  fixes h :: headers and s :: int and body :: "string list"
  defines "r \<equiv> \<lparr> re_Header = h, re_Sent = None, re_Body = [] \<rparr>"
  defines "g \<equiv> fold gzip_write (Commits s # map Writes body) \<lparr> gw_Response = r, gw_wroteHeader = False, gw_passthrough = False \<rparr>"
  shows "decoded (fold plain_write (Commits s # map Writes body) r) =
    decoded (if gw_wroteHeader g \<and> \<not> gw_passthrough g then (gw_Response g)\<lparr>re_Body := re_Body (gw_Response g) @ [GzipEnd]\<rparr> else gw_Response g)"
proof -
  let ?w = "gzip_WriteHeader s \<lparr> gw_Response = r, gw_wroteHeader = False, gw_passthrough = False \<rparr>"
  have "re_Sent (gw_Response ?w) \<noteq> None" "gw_wroteHeader ?w"
    by (simp_all add: gzip_WriteHeader_def Let_def WriteHeader_def r_def)
  then obtain x where x: "re_Sent (gw_Response ?w) = Some x" "gw_wroteHeader ?w" by blast
  have g: "g = ?w\<lparr>gw_Response := (gw_Response ?w)\<lparr>re_Body := re_Body (gw_Response ?w) @ map (if gw_passthrough ?w then RawChunk else GzipChunk) body\<rparr>\<rparr>"
    using fold_gzip_writes [OF x(2,1), of body] by (simp add: g_def)
  have plain: "fold plain_write (Commits s # map Writes body) r = \<lparr> re_Header = h, re_Sent = Some (s, h), re_Body = map RawChunk body \<rparr>"
    using fold_plain_writes [of "WriteHeader s r" "(s, h)" body] by (simp add: WriteHeader_def r_def)
  have raw: "list_all (\<lambda>c. case c of RawChunk _ \<Rightarrow> True | _ \<Rightarrow> False) (map RawChunk body)"
    "\<not> list_ex (\<lambda>c. case c of RawChunk _ \<Rightarrow> False | _ \<Rightarrow> True) (map RawChunk body)"
    "list_all (\<lambda>c. case c of GzipChunk _ \<Rightarrow> True | _ \<Rightarrow> False) (map GzipChunk body)"
    by (simp_all add: list_all_iff list_ex_iff)
  have texts: "concat (map chunk_text (map RawChunk body)) = concat body" "concat (map chunk_text (map GzipChunk body)) = concat body"
    by (simp_all add: comp_def)
  show ?thesis
  proof (cases "gw_passthrough ?w")
    case True
    then have "re_Body (gw_Response ?w) = []" "\<exists>h'. re_Sent (gw_Response ?w) = Some (s, h')"
      by (auto simp: gzip_WriteHeader_def Let_def WriteHeader_def r_def split: if_splits)
    then show ?thesis unfolding plain using True raw by (auto simp: g decoded_def)
  next
    case False
    then have "gw_Response ?w = \<lparr> re_Header = del_header ''Content-Length'' (add_header ''Vary'' ''Accept-Encoding'' (put_header ''Content-Encoding'' ''gzip'' h)),
        re_Sent = Some (s, del_header ''Content-Length'' (add_header ''Vary'' ''Accept-Encoding'' (put_header ''Content-Encoding'' ''gzip'' h))), re_Body = [] \<rparr>"
      by (auto simp: gzip_WriteHeader_def Let_def WriteHeader_def r_def split: if_splits)
    then show ?thesis unfolding plain using False raw texts x(2) by (auto simp: g decoded_def comp_def)
  qed
qed


section \<open>Origins\<close>

text \<open>A foreign origin is told it may read an answer only when the list names it, or is the single star.\<close>

lemma origin_allowed_iff:
  assumes "map_of h ''Access-Control-Allow-Origin'' = None"
  shows "map_of (cors_headers origins reqOrigin h) ''Access-Control-Allow-Origin'' =
    (if origins = [''*''] then Some [''*''] else if reqOrigin \<in> set origins \<and> reqOrigin \<noteq> [] then Some [reqOrigin] else None)"
  using assms by (auto simp: cors_headers_def allowed_origin_def Let_def add_header_def put_header_def update_conv')

section \<open>The certificate\<close>

text \<open>What a refresh reads: when the certificate ends, and the pair where a key file is set. The lock and the atomic
  pointer make a refresh one step for those who read.\<close>

record 'cert cert_expiry =
  ce_HasKeyFile :: bool
  ce_Expires :: time
  ce_Gauge :: int
  ce_Cert :: "'cert option"

definition Refresh :: "(time \<Rightarrow> int) \<Rightarrow> go_error + time \<Rightarrow> go_error + 'cert \<Rightarrow> 'cert cert_expiry \<Rightarrow> go_error option \<times> 'cert cert_expiry" where
  "Refresh unix notAfter pair c =
     (case notAfter of
        Inl err \<Rightarrow> (Some err, c)
      | Inr ends \<Rightarrow>
          if ce_HasKeyFile c
          then (case pair of
                  Inl err \<Rightarrow> (Some err, c)
                | Inr p \<Rightarrow> (None, c\<lparr>ce_Cert := Some p, ce_Expires := ends, ce_Gauge := unix ends\<rparr>))
          else (None, c\<lparr>ce_Expires := ends, ce_Gauge := unix ends\<rparr>))"

definition GetCertificate :: "'cert cert_expiry \<Rightarrow> go_error + 'cert" where
  "GetCertificate c = (case ce_Cert c of None \<Rightarrow> Inl (Plain ''not yet loaded'') | Some p \<Rightarrow> Inr p)"

text \<open>\<open>Run\<close>: one refresh a tick.\<close>

definition cert_run :: "(time \<Rightarrow> int) \<Rightarrow> ((go_error + time) \<times> (go_error + 'cert)) list \<Rightarrow> 'cert cert_expiry \<Rightarrow> 'cert cert_expiry" where
  "cert_run unix reads c = fold (\<lambda>(n, p) c. snd (Refresh unix n p c)) reads c"

text \<open>The certificate served is the last one that could be read whole, with its end and gauge, however many reads failed since;
  until one could, the handshake fails.\<close>

lemma Refresh_keeps_key [simp]: "ce_HasKeyFile (snd (Refresh unix n p c)) = ce_HasKeyFile c"
  by (auto simp: Refresh_def split: sum.split)

lemma cert_run_keeps_key [simp]: "ce_HasKeyFile (cert_run unix reads c) = ce_HasKeyFile c"
  unfolding cert_run_def by (induction reads arbitrary: c) (simp_all add: case_prod_unfold)

lemma serves_last_readable:
  assumes "ce_HasKeyFile c" "ce_Cert c = None"
  shows "case filter (\<lambda>(n, p). \<not> isl n \<and> \<not> isl p) reads of
      [] \<Rightarrow> cert_run unix reads c = c \<and> (\<exists>err. GetCertificate (cert_run unix reads c) = Inl err)
    | good \<Rightarrow> (case last good of (n, p) \<Rightarrow>
        GetCertificate (cert_run unix reads c) = Inr (projr p) \<and> ce_Expires (cert_run unix reads c) = projr n \<and>
        ce_Gauge (cert_run unix reads c) = unix (projr n))"
proof (induction reads rule: rev_induct)
  case Nil
  then show ?case using assms(2) by (simp add: cert_run_def GetCertificate_def)
next
  case (snoc x xs)
  obtain n p where x: "x = (n, p)" by (cases x)
  have step: "cert_run unix (xs @ [x]) c = snd (Refresh unix n p (cert_run unix xs c))" by (simp add: cert_run_def x)
  have key: "ce_HasKeyFile (cert_run unix xs c)" using assms(1) by simp
  show ?case
  proof (cases "\<not> isl n \<and> \<not> isl p")
    case True
    then have "snd (Refresh unix n p (cert_run unix xs c)) =
        (cert_run unix xs c)\<lparr>ce_Cert := Some (projr p), ce_Expires := projr n, ce_Gauge := unix (projr n)\<rparr>"
      using key by (cases n; cases p) (simp_all add: Refresh_def)
    then show ?thesis using True unfolding step
      by (cases "filter (\<lambda>(n, p). \<not> isl n \<and> \<not> isl p) xs") (simp_all add: x GetCertificate_def)
  next
    case False
    then have same: "snd (Refresh unix n p (cert_run unix xs c)) = cert_run unix xs c"
      using key by (cases n; cases p) (simp_all add: Refresh_def)
    have none: "filter (\<lambda>(n, p). \<not> isl n \<and> \<not> isl p) (xs @ [x]) = filter (\<lambda>(n, p). \<not> isl n \<and> \<not> isl p) xs"
      using False by (auto simp: x)
    show ?thesis unfolding step same none by (rule snoc.IH)
  qed
qed

end
