(* ===== verification/Spec2Isabelle.thy ===== *)
theory Spec2Isabelle
  imports RecommenderCorrect InjectCorrect GovernanceCorrect WlrCacheCorrect ReadThrough Breaker OomCache Shard LedgerCorrect PatcherCorrect WebhookCorrect Stub InventoryCorrect Autoscaler PromInputsCorrect HistoryCorrect Assemble PublisherCorrect ReconcileCorrect WatcherCorrect SimulationCorrect PromClient Config Web
begin

text \<open>
  k8s-sustain, a Kubernetes operator that right-sizes workloads.

  \<^bold>\<open>The program.\<close> A Policy opts workloads in and says how to size them. The controller passes over each Policy at an
  interval: it takes an inventory of the workload identities the Policy governs, reads their usage and OOM kills from
  Prometheus, computes a Recommendation for each, stores it as a WorkloadRecommendation, applies it to running pods by
  resizing or evicting them, and publishes what it did. The admission webhook writes the stored Recommendation into
  pods as they are created. The OOM watcher sees kills as they happen and makes the next computation take them into
  account. The dashboard shows all of it and simulates other settings.

  \<^bold>\<open>Foundations.\<close> \<open>Prelude\<close> has Go's maps as association lists, wrapping 64-bit integers, instants and durations, the
  state-and-error composition \<open>and_then\<close>, and the lemmas shared below, in the collection \<open>int_simps\<close> and as \<open>[simp]\<close>
  rules. \<open>GoFloat\<close> is IEEE 754 binary64 on rationals: every operation computes, and its lemmas bound rounding. \<open>Quantity\<close>
  states what is relied on of \<open>resource.Quantity\<close>, which is not part of the repository, as \<open>quantity_laws\<close> of an
  environment \<open>'q env\<close>, with the instance \<open>fixed_env\<close> that every witness uses. \<open>Api\<close> and \<open>Errors\<close> are the types of
  \<open>api/v1alpha1\<close>, the parts of the Kubernetes API the code reads, and Go's error trees.

  \<^bold>\<open>Computing.\<close> \<open>Signals\<close> and \<open>Recommender\<close> are \<open>internal/recommender\<close>: usage with headroom, the OOM floor, limits by
  strategy, autoscaler coordination, the trace. \<open>RecommenderCorrect\<close> shows that a request stays within its bounds, that
  a limit never undercuts it, that the OOM floor holds unless capped, that the trace says what was computed.
  \<open>Shard\<close>, \<open>PromInputs\<close>, \<open>History\<close> and \<open>Assemble\<close> are the batched queries, the retries and splits of failing shards, the
  reads over a range and the making of a Request. \<open>PromInputsCorrect\<close> shows that batching is invisible,
  \<open>HistoryCorrect\<close> that a range charts at each instant the computation of that instant, \<open>Assemble\<close> that each identity
  is computed from its own answer. \<open>Autoscaler\<close> is \<open>internal/autoscaler\<close>.

  \<^bold>\<open>Deciding.\<close> \<open>Governance\<close> is \<open>internal/governance\<close>: who governs a pod. \<open>GovernanceCorrect\<close> refines its lazy walk to a
  plain rule, and shows that an excluded namespace is never governed and that the cache of compiled selectors changes
  nothing. \<open>Kinds\<close> and \<open>Inventory\<close> are the table of kinds, \<open>internal/workload\<close>'s templates and \<open>internal/inventory\<close>;
  \<open>InventoryCorrect\<close> shows each identity occurs once and has one Policy or is Conflicted.

  \<^bold>\<open>Storing.\<close> \<open>WlrCache\<close> is \<open>internal/wlrcache\<close> over an apiserver with optimistic concurrency. \<open>WlrCacheCorrect\<close> shows the
  round trip from record to pod, when a record may expire, and that only what was judged is deleted.

  \<^bold>\<open>Applying.\<close> \<open>Inject\<close>, \<open>Patcher\<close> and \<open>Apply\<close> are \<open>internal/workload\<close>: writing a Recommendation into containers, the
  downsize tolerance, the resizing and eviction of pods. \<open>InjectCorrect\<close> and \<open>PatcherCorrect\<close> show that no request ends
  above its limit, that pods are evicted only when due, that a pass returns whatever the cluster answers, and that
  accepted resizes converge. \<open>Webhook\<close> and \<open>Stub\<close> are \<open>internal/webhook\<close>: admission, and the detached requests for a
  Recommendation, a step relation with any interleaving, bounded and drained at shutdown.

  \<^bold>\<open>Reconciling.\<close> \<open>Ledger\<close>, \<open>Pass\<close>, \<open>Reconcile\<close> and \<open>Publisher\<close> are \<open>internal/ledger\<close> and \<open>internal/controller\<close>. Their
  correctness theories show the backoff, that every retry is reached, that nothing is applied that was not stored, when
  a Policy is Ready, what shutdown and deletion leave behind, and that the exposed series are those of their owners.

  \<^bold>\<open>Watching.\<close> \<open>OomCache\<close> and \<open>Watcher\<close> are \<open>internal/oomwatch\<close>. The watcher uses its sink through the interfaces \<open>kill_sink\<close>
  and \<open>kill_store\<close>, which the cache implements (interpretation \<open>oom_store\<close>): no kill is lost to a failed read, a
  resolved one stays quiet, a reported one can be read.

  \<^bold>\<open>Caching and querying.\<close> \<open>Lru\<close> and \<open>ReadThrough\<close> are \<open>internal/cache\<close>; \<open>Lru\<close> refines a list in order of recency and
  implements the interface \<open>expiring_cache\<close>, \<open>ReadThrough\<close> is a step relation with one fetch of a key in flight.
  \<open>Breaker\<close>, \<open>PromClient\<close> and \<open>Transport\<close> are \<open>internal/prometheus\<close>: the circuit breaker, the life of a query through
  it and the slots in any interleaving, the readings of an answer, and what a request carries. A fetcher of inputs is
  the interface \<open>inputs_fetcher\<close>, implemented by Prometheus and by its decoration with live kills.

  \<^bold>\<open>Showing.\<close> \<open>DashParams\<close>, \<open>Board\<close>, \<open>Simulation\<close>, \<open>Savings\<close> and \<open>Detail\<close> are \<open>internal/dashboard\<close>: parameters, the board every
  view is built from, lists, Overview, Simulations, batches, the detail page. \<open>BoardCorrect\<close> and \<open>SimulationCorrect\<close>
  show that the Overview counts what the list shows, that health is an identity's own, that a Simulation without
  override is the controller's computation, that an override is judged as the CRD would, and that a batch compares
  like with like. \<open>Config\<close> is \<open>internal/config\<close>, \<open>Web\<close> the HTTP layer and the webhook's certificate.

  \<^bold>\<open>Conventions.\<close> An operation is a function of the state it changes, and what it calls outside the repository is an
  argument: the API as functions from a state to an answer or an error, the clock as a time or a function of the state.
  A component that calls another through a Go interface takes a record of functions, and what it relies on is a locale
  interpreted on the model's own definitions, or a named hypothesis with a witness. Concurrency whose interleaving
  matters is an inductive step relation (\<open>ReadThrough\<close>, \<open>Stub\<close>, \<open>PromClient\<close>); tasks that share nothing (errgroups of
  reads) run one after the other. Go's map iteration is the order of the list, and an operation whose result could
  depend on it sorts, as the code does. Log lines, message texts and metrics that nothing reads back are left out.

  \<^bold>\<open>Loops.\<close> Recursion is structural or has a measure (\<open>matches_units\<close>, the patterns of durations). The one loop that may
  not end on its own, waiting for a replacement pod, is a \<open>partial_function (option)\<close>, and \<open>apply_returns\<close> shows that it
  does end wherever the clock advances. There is no fuel.

  \<^bold>\<open>What modelling showed.\<close> A page number near \<open>2 ^ 62\<close> overflows the offset of a list and the handler panics
  (\<open>page_offset_wraps\<close>); a range starting at the lowest 64-bit second passes the check of its span
  (\<open>span_check_wraps\<close>); the step of a history is not always the finest its comment promises.

  \<^bold>\<open>Not modelled.\<close> The commands, the building of Kubernetes clients and informers, the route table and static assets, the
  Policy and kind views, logging and metric registration are wiring or copies and decide nothing; the text of PromQL
  is fixed by constants and read by Prometheus alone, so a query is an argument of what reads its answer; generated deep
  copies are the identity on values; test doubles and repository tools are no part of the program.
\<close>

section \<open>From a series to the board\<close>

text \<open>The labels an identity's series carry.\<close>

abbreviation identity_labels :: "string list" where
  "identity_labels \<equiv> [''namespace'', ''owner_kind'', ''owner_name'']"

definition carries :: "float64 labelled \<Rightarrow> workload_identity \<Rightarrow> bool" where
  "carries s i \<longleftrightarrow> label_values identity_labels (lb_Metric s) = Some [id_Namespace i, OwnerKind i, OwnerName i]"

lemma keyed_fold:
  "map_of (fold (\<lambda>s out. case label_values ls (lb_Metric s) of None \<Rightarrow> out | Some vs \<Rightarrow> AList.update (join_with c vs) (lb_Value s) out) vec out) k =
   (case find (\<lambda>s. \<exists>vs. label_values ls (lb_Metric s) = Some vs \<and> join_with c vs = k) (rev vec) of
      Some s \<Rightarrow> Some (lb_Value s) | None \<Rightarrow> map_of out k)"
proof (induction vec rule: rev_induct)
  case (snoc s vec)
  then show ?case by (cases "label_values ls (lb_Metric s)") (auto simp: update_conv' split: option.split)
qed simp

lemma label_values_length: "label_values ls m = Some vs \<Longrightarrow> length vs = length ls"
  by (auto simp: label_values_def Let_def split: if_splits)

text \<open>The value the board finds for an identity is the one of the last series that carries the identity's labels, and there is
  none when no series does: the client's keys and the board's agree, as long as no label contains the separator.\<close>

theorem board_finds_own_series:
  assumes "QueryByLabels circuit_open identity_labels (Inr (Vector vec)) = Inr out"
    "\<And>s vs. s \<in> set vec \<Longrightarrow> label_values identity_labels (lb_Metric s) = Some vs \<Longrightarrow> \<forall>v \<in> set vs. CHR ''|'' \<notin> set v" "plain_identity i"
  shows "map_of out (workloadKey (id_Namespace i) (OwnerKind i) (OwnerName i)) = map_option lb_Value (find (\<lambda>s. carries s i) (rev vec))"
proof -
  let ?k = "workloadKey (id_Namespace i) (OwnerKind i) (OwnerName i)"
  have same: "(\<exists>vs. label_values identity_labels (lb_Metric s) = Some vs \<and> join_with (CHR ''|'') vs = ?k) \<longleftrightarrow> carries s i" if "s \<in> set (rev vec)" for s
  proof
    assume "\<exists>vs. label_values identity_labels (lb_Metric s) = Some vs \<and> join_with (CHR ''|'') vs = ?k"
    then obtain vs where vs: "label_values identity_labels (lb_Metric s) = Some vs" "join_with (CHR ''|'') vs = ?k" by blast
    have "vs \<noteq> []" using label_values_length [OF vs(1)] by auto
    then have "vs = split_at (CHR ''|'') ?k" using join_then_split [of vs] assms(2) [OF _ vs(1)] that vs(2) by simp
    then show "carries s i" using vs(1) split_key [OF assms(3)] by (simp add: carries_def)
  qed (auto simp: carries_def workloadKey_def)
  have "find (\<lambda>s. \<exists>vs. label_values identity_labels (lb_Metric s) = Some vs \<and> join_with (CHR ''|'') vs = ?k) (rev vec) =
      find (\<lambda>s. carries s i) (rev vec)"
    by (rule find_cong [OF refl same])
  then show ?thesis
    using assms(1) keyed_fold [where ls = identity_labels and c = "CHR ''|''" and vec = vec and out = "[]" and k = ?k]
    by (auto simp: QueryByLabels_def split: option.split)
qed

end
